(* ===== verification/Prelude.thy ===== *)
theory Prelude
  imports Complex_Main "HOL-Library.AList"
begin

text \<open>
  What every component shares: the errors a JavaScript operation can raise, the state
  passing style in which the mutating code is written, the array operations of the
  language that the sources call, and the insertion ordered \<open>Map\<close> of the language as an
  association list.

  \<^item> A call that can throw and mutate returns \<open>(error + 'a) \<times> 'state\<close>: an exception keeps
    the mutations made before it, as it does in the language.
  \<^item> A call that can throw but only reads returns \<open>error + 'a\<close>.
  \<^item> \<open>undefined\<close> and \<open>null\<close> are \<open>None\<close>, or the reference 0 where the value is an object.
\<close>

named_theorems result_simps "unfolding of the sequencing combinators"
named_theorems js_simps "evaluation of the array and map operations of the language"

section \<open>Errors and sequencing\<close>

datatype js_error =
    TypeError                 \<comment> \<open>reading a property of \<open>undefined\<close>\<close>
  | RangeError                \<comment> \<open>the call stack is exhausted\<close>
  | Error string              \<comment> \<open>\<open>throw new Error(msg)\<close>\<close>

definition andThen :: "('e + 'a) \<times> 's \<Rightarrow> ('a \<Rightarrow> 's \<Rightarrow> ('e + 'b) \<times> 's) \<Rightarrow> ('e + 'b) \<times> 's" where
  "andThen r k = (case r of (Inl e, s) \<Rightarrow> (Inl e, s) | (Inr x, s) \<Rightarrow> k x s)"

definition withVal :: "('e + 'a) \<Rightarrow> 's \<Rightarrow> ('a \<Rightarrow> ('e + 'b) \<times> 's) \<Rightarrow> ('e + 'b) \<times> 's" where
  "withVal r s k = (case r of Inl e \<Rightarrow> (Inl e, s) | Inr x \<Rightarrow> k x)"

definition bindR :: "('e + 'a) \<Rightarrow> ('a \<Rightarrow> 'e + 'b) \<Rightarrow> 'e + 'b" where
  "bindR r k = (case r of Inl e \<Rightarrow> Inl e | Inr x \<Rightarrow> k x)"

lemma andThen_simps [simp, result_simps]:
  "andThen (Inl e, s) k = (Inl e, s)"
  "andThen (Inr x, s) k = k x s"
  by (simp_all add: andThen_def)

lemma withVal_simps [simp, result_simps]:
  "withVal (Inl e) s k = (Inl e, s)"
  "withVal (Inr x) s k = k x"
  by (simp_all add: withVal_def)

lemma bindR_simps [simp, result_simps]:
  "bindR (Inl e) k = Inl e"
  "bindR (Inr x) k = k x"
  by (simp_all add: bindR_def)

lemma bindR_eq_Inr: "bindR r k = Inr y \<longleftrightarrow> (\<exists>x. r = Inr x \<and> k x = Inr y)"
  by (cases r) auto

lemma andThen_eq_Inr:
  "andThen r k = (Inr y, s') \<longleftrightarrow> (\<exists>x s. r = (Inr x, s) \<and> k x s = (Inr y, s'))"
  by (cases r; cases "fst r") (auto simp: andThen_def)

lemma withVal_eq_Inr: "withVal r s k = (Inr y, s') \<longleftrightarrow> (\<exists>x. r = Inr x \<and> k x = (Inr y, s'))"
  by (cases r) auto

text \<open>
  A \<open>for ... of\<close> loop whose body mutates the state and can throw, and a loop that returns
  the first result its body finds.
\<close>

primrec forEachS :: "('a \<Rightarrow> 's \<Rightarrow> ('e + unit) \<times> 's) \<Rightarrow> 'a list \<Rightarrow> 's \<Rightarrow> ('e + unit) \<times> 's" where
  "forEachS f [] s = (Inr (), s)"
| "forEachS f (x # xs) s = andThen (f x s) (\<lambda>_ s. forEachS f xs s)"

primrec firstFound :: "('a \<Rightarrow> 'e + 'b option) \<Rightarrow> 'a list \<Rightarrow> 'e + 'b option" where
  "firstFound f [] = Inr None"
| "firstFound f (x # xs) =
     bindR (f x) (\<lambda>r. case r of Some y \<Rightarrow> Inr (Some y) | None \<Rightarrow> firstFound f xs)"

primrec mapR :: "('a \<Rightarrow> 'e + 'b) \<Rightarrow> 'a list \<Rightarrow> 'e + 'b list" where
  "mapR f [] = Inr []"
| "mapR f (x # xs) = bindR (f x) (\<lambda>y. bindR (mapR f xs) (\<lambda>ys. Inr (y # ys)))"

primrec mapS :: "('a \<Rightarrow> 's \<Rightarrow> ('e + 'b) \<times> 's) \<Rightarrow> 'a list \<Rightarrow> 's \<Rightarrow> ('e + 'b list) \<times> 's" where
  "mapS f [] s = (Inr [], s)"
| "mapS f (x # xs) s = andThen (f x s) (\<lambda>y s. andThen (mapS f xs s) (\<lambda>ys s. (Inr (y # ys), s)))"

lemma forEachS_append:
  "forEachS f (xs @ ys) s = andThen (forEachS f xs s) (\<lambda>_ s. forEachS f ys s)"
proof (induction xs arbitrary: s)
  case Nil
  then show ?case by simp
next
  case (Cons x xs)
  show ?case
  proof (cases "f x s")
    case (Pair r s')
    with Cons show ?thesis by (cases r) auto
  qed
qed

lemma forEachS_invariant:
  assumes step: "\<And>x s r s'. x \<in> set xs \<Longrightarrow> P s \<Longrightarrow> f x s = (r, s') \<Longrightarrow> P s'"
    and start: "P s"
  shows "P (snd (forEachS f xs s))"
  using assms
proof (induction xs arbitrary: s)
  case Nil
  then show ?case by simp
next
  case (Cons x xs)
  obtain r s' where fx: "f x s = (r, s')" by (cases "f x s")
  with Cons.prems have s': "P s'" by (meson list.set_intros(1))
  have "P (snd (forEachS f xs s'))"
    using Cons.IH Cons.prems(1) s' by (meson list.set_intros(2))
  with fx s' show ?case by (cases r) auto
qed

lemma mapR_pure: "(\<And>x. x \<in> set xs \<Longrightarrow> f x = Inr (g x)) \<Longrightarrow> mapR f xs = Inr (map g xs)"
  by (induction xs) auto

lemma firstFound_pure:
  "(\<And>x. x \<in> set xs \<Longrightarrow> f x = Inr (g x)) \<Longrightarrow>
    firstFound f xs = Inr (case dropWhile (\<lambda>x. g x = None) xs of [] \<Rightarrow> None | x # _ \<Rightarrow> g x)"
  by (induction xs) (auto split: option.splits)

section \<open>Arrays\<close>

text \<open>\<open>findIndex\<close> and \<open>indexOf\<close> return -1 when there is no such element.\<close>

primrec js_find_index :: "('a \<Rightarrow> bool) \<Rightarrow> 'a list \<Rightarrow> int" where
  "js_find_index P [] = -1"
| "js_find_index P (x # xs) =
     (if P x then 0 else let i = js_find_index P xs in if i = -1 then -1 else i + 1)"

definition js_index_of :: "'a list \<Rightarrow> 'a \<Rightarrow> int \<Rightarrow> int" where
  "js_index_of xs x from =
     (let start = nat (if from < 0 then int (length xs) + from else from);
          i = js_find_index (\<lambda>y. y = x) (drop start xs)
      in if i = -1 then -1 else int start + i)"

text \<open>\<open>splice(i, 1)\<close> and \<open>splice(i, 0, ...ys)\<close> at an index \<open>0 \<le> i\<close>.\<close>

definition js_splice_out :: "int \<Rightarrow> 'a list \<Rightarrow> 'a list" where
  "js_splice_out i xs = take (nat i) xs @ drop (Suc (nat i)) xs"

definition js_splice_in :: "int \<Rightarrow> 'a list \<Rightarrow> 'a list \<Rightarrow> 'a list" where
  "js_splice_in i ys xs = take (nat i) xs @ ys @ drop (nat i) xs"

text \<open>\<open>xs[i]\<close>: \<open>undefined\<close> outside the bounds.\<close>

definition js_at :: "'a list \<Rightarrow> int \<Rightarrow> 'a option" where
  "js_at xs i = (if 0 \<le> i \<and> i < int (length xs) then Some (xs ! nat i) else None)"

lemma js_find_index_bounds: "-1 \<le> js_find_index P xs \<and> js_find_index P xs < int (length xs)"
  by (induction xs) (auto simp: Let_def)

lemma js_find_index_neg [simp]: "js_find_index P xs = -1 \<longleftrightarrow> (\<forall>x \<in> set xs. \<not> P x)"
proof (induction xs)
  case (Cons x xs)
  with js_find_index_bounds [of P xs] show ?case by (auto simp: Let_def)
qed simp

lemma js_find_index_nth:
  "js_find_index P xs \<noteq> -1 \<Longrightarrow>
    0 \<le> js_find_index P xs \<and> nat (js_find_index P xs) < length xs \<and> P (xs ! nat (js_find_index P xs)) \<and>
    (\<forall>j < nat (js_find_index P xs). \<not> P (xs ! j))"
proof (induction xs)
  case (Cons x xs)
  show ?case
  proof (cases "P x")
    case False
    with Cons.prems have "js_find_index P xs \<noteq> -1" by (auto simp: Let_def split: if_splits)
    with Cons.IH False show ?thesis
      by (auto simp: Let_def nat_add_distrib less_Suc_eq_0_disj)
  qed simp
qed simp

lemma js_find_index_app:
  "\<forall>x \<in> set xs. \<not> P x \<Longrightarrow> P y \<Longrightarrow> js_find_index P (xs @ y # ys) = int (length xs)"
proof (induction xs)
  case (Cons x xs)
  then have "js_find_index P (xs @ y # ys) = int (length xs)" by simp
  with Cons.prems show ?case by (simp add: Let_def)
qed simp

lemma js_find_index_cong:
  "(\<And>x. x \<in> set xs \<Longrightarrow> P x = Q x) \<Longrightarrow> js_find_index P xs = js_find_index Q xs"
  by (induction xs) (auto simp: Let_def)

lemma js_find_index_map: "js_find_index P (map f xs) = js_find_index (P \<circ> f) xs"
  by (induction xs) (auto simp: Let_def)

lemma js_splice_out_app [simp]: "js_splice_out (int (length xs)) (xs @ y # ys) = xs @ ys"
  by (simp add: js_splice_out_def)

lemma set_js_splice_out: "set (js_splice_out i xs) \<subseteq> set xs"
  by (auto simp: js_splice_out_def dest: in_set_takeD in_set_dropD)

lemma set_js_splice_in: "set (js_splice_in i ys xs) = set ys \<union> set xs"
proof -
  have "set (take (nat i) xs) \<union> set (drop (nat i) xs) = set xs"
    by (metis append_take_drop_id set_append)
  then show ?thesis by (auto simp: js_splice_in_def)
qed

lemma map_js_splice_in: "map f (js_splice_in i ys xs) = js_splice_in i (map f ys) (map f xs)"
  by (simp add: js_splice_in_def take_map drop_map)

lemma map_js_splice_out: "map f (js_splice_out i xs) = js_splice_out i (map f xs)"
  by (simp add: js_splice_out_def take_map drop_map)

lemma js_at_Some: "js_at xs i = Some x \<longleftrightarrow> 0 \<le> i \<and> nat i < length xs \<and> xs ! nat i = x"
  by (auto simp: js_at_def)

lemma js_at_Some_in: "js_at xs i = Some x \<Longrightarrow> x \<in> set xs"
  by (auto simp: js_at_Some)

lemma js_at_map: "js_at (map f xs) i = map_option f (js_at xs i)"
  by (simp add: js_at_def nat_less_iff)

section \<open>Maps\<close>

text \<open>
  \<open>Map\<close> iterates in insertion order, and setting a present key keeps its place: this is
  \<open>AList.update\<close>. The interface below is what the clients of a map rely on.
\<close>

type_synonym ('k, 'v) js_map = "('k \<times> 'v) list"

locale key_store =
  fixes get :: "'m \<Rightarrow> 'k \<Rightarrow> 'v option"
    and put :: "'k \<Rightarrow> 'v \<Rightarrow> 'm \<Rightarrow> 'm"
    and del :: "'k \<Rightarrow> 'm \<Rightarrow> 'm"
  assumes get_put: "get (put k v m) j = (if j = k then Some v else get m j)"
    and get_del: "get (del k m) j = (if j = k then None else get m j)"
begin

lemma get_put_same: "get (put k v m) k = Some v"
  by (simp add: get_put)

lemma get_put_other: "j \<noteq> k \<Longrightarrow> get (put k v m) j = get m j"
  by (simp add: get_put)

lemma get_del_same: "get (del k m) k = None"
  by (simp add: get_del)

lemma get_del_put: "get (del k (put k v m)) j = (if j = k then None else get m j)"
  by (simp add: get_del get_put)

lemma get_put_put: "get (put k v (put k w m)) = get (put k v m)"
  by (rule ext) (simp add: get_put)

end

definition map_get :: "('k, 'v) js_map \<Rightarrow> 'k \<Rightarrow> 'v option" where
  "map_get m k = map_of m k"

definition map_set :: "'k \<Rightarrow> 'v \<Rightarrow> ('k, 'v) js_map \<Rightarrow> ('k, 'v) js_map" where
  "map_set k v m = AList.update k v m"

definition map_delete :: "'k \<Rightarrow> ('k, 'v) js_map \<Rightarrow> ('k, 'v) js_map" where
  "map_delete k m = AList.delete k m"

definition map_has :: "('k, 'v) js_map \<Rightarrow> 'k \<Rightarrow> bool" where
  "map_has m k \<longleftrightarrow> map_get m k \<noteq> None"

interpretation jm: key_store map_get map_set map_delete
  by unfold_locales (auto simp: map_get_def map_set_def map_delete_def update_conv' delete_conv')

lemmas js_map_laws [simp, js_simps] = jm.get_put jm.get_del

lemma map_get_Nil [simp]: "map_get [] k = None"
  by (simp add: map_get_def)

lemma map_get_Cons [js_simps]: "map_get ((j, v) # m) k = (if k = j then Some v else map_get m k)"
  by (simp add: map_get_def)

lemma map_set_keys:
  "map fst (map_set k v m) = (if k \<in> set (map fst m) then map fst m else map fst m @ [k])"
  by (simp add: map_set_def update_keys)

lemma map_get_None_iff: "map_get m k = None \<longleftrightarrow> k \<notin> set (map fst m)"
  by (simp add: map_get_def map_of_eq_None_iff)

lemma distinct_map_set: "distinct (map fst m) \<Longrightarrow> distinct (map fst (map_set k v m))"
  by (simp add: map_set_def distinct_update)

lemma distinct_map_delete: "distinct (map fst m) \<Longrightarrow> distinct (map fst (map_delete k m))"
  by (simp add: map_delete_def distinct_delete)

lemma map_get_filter:
  assumes "distinct (map fst m)"
  shows "map_get (filter P m) k =
    (case map_get m k of None \<Rightarrow> None | Some v \<Rightarrow> if P (k, v) then Some v else None)"
proof -
  have iff: "map_get (filter P m) k = Some v \<longleftrightarrow> map_get m k = Some v \<and> P (k, v)" for v
    using assms distinct_map_filter [OF assms, of P] by (simp add: map_get_def)
  show ?thesis
  proof (cases "map_get m k")
    case None
    then have "map_get (filter P m) k \<noteq> Some v" for v using iff by simp
    then have "map_get (filter P m) k = None" by (meson option.exhaust)
    with None show ?thesis by simp
  next
    case (Some v)
    then have "map_get (filter P m) k = (if P (k, v) then Some v else None)"
      by (metis iff not_Some_eq option.inject)
    with Some show ?thesis by simp
  qed
qed

lemma map_delete_keys: "map fst (map_delete k m) = filter (\<lambda>j. j \<noteq> k) (map fst m)"
  by (simp add: map_delete_def delete_keys removeAll_filter_not_eq eq_commute)

section \<open>Strings\<close>

text \<open>
  A string is a list of characters. \<open>isBlank\<close> of util.ts is on an optional string; the
  truthiness of a string is that it is not empty.
\<close>

primrec js_split :: "char \<Rightarrow> string \<Rightarrow> string list" where
  "js_split c [] = [[]]"
| "js_split c (x # xs) =
     (case js_split c xs of
        [] \<Rightarrow> [[x]]
      | w # ws \<Rightarrow> if x = c then [] # w # ws else (x # w) # ws)"

fun js_join :: "char \<Rightarrow> string list \<Rightarrow> string" where
  "js_join c [] = []"
| "js_join c [w] = w"
| "js_join c (w # v # ws) = w @ c # js_join c (v # ws)"

lemma js_split_nonempty [simp]: "js_split c xs \<noteq> []"
  by (induction xs) (auto split: list.splits)

lemma js_join_split [simp]: "js_join c (js_split c xs) = xs"
proof (induction xs)
  case (Cons x xs)
  obtain w ws where s: "js_split c xs = w # ws"
    by (cases "js_split c xs") auto
  with Cons show ?case by (cases ws) auto
qed simp

lemma js_split_join:
  "ws \<noteq> [] \<Longrightarrow> \<forall>w \<in> set ws. c \<notin> set w \<Longrightarrow> js_split c (js_join c ws) = ws"
proof (induction c ws rule: js_join.induct)
  case (2 c w)
  then have "c \<notin> set w" by simp
  then show ?case by (induction w) auto
next
  case (3 c w v ws)
  then have rest: "js_split c (js_join c (v # ws)) = v # ws" and "c \<notin> set w" by auto
  from \<open>c \<notin> set w\<close> show ?case
    by (simp, induction w) (auto simp: rest)
qed simp

text \<open>A natural number as \<open>String(n)\<close> prints it.\<close>

definition digit_char :: "nat \<Rightarrow> char" where
  "digit_char d = char_of (48 + d)"

fun show_nat :: "nat \<Rightarrow> string" where
  "show_nat n = (if n < 10 then [digit_char n] else show_nat (n div 10) @ [digit_char (n mod 10)])"

declare show_nat.simps [simp del]

lemma show_nat_small [simp]: "n < 10 \<Longrightarrow> show_nat n = [digit_char n]"
  by (simp add: show_nat.simps)

lemma show_nat_nonempty [simp]: "show_nat n \<noteq> []"
  by (subst show_nat.simps) simp

definition js_is_prefix :: "string \<Rightarrow> string \<Rightarrow> bool" where
  "js_is_prefix p s \<longleftrightarrow> take (length p) s = p"

definition js_includes :: "string \<Rightarrow> string \<Rightarrow> bool" where
  "js_includes s t \<longleftrightarrow> list_ex (\<lambda>k. js_is_prefix t (drop k s)) [0..<Suc (length s)]"

lemma js_includes_set: "js_includes s t \<Longrightarrow> set t \<subseteq> set s"
  by (auto simp: js_includes_def js_is_prefix_def list_ex_iff simp del: upt_Suc) (metis in_set_dropD in_set_takeD)

text \<open>White space of \<open>trim\<close> and \<open>\s\<close> among the characters up to 255.\<close>

definition isSpace :: "char \<Rightarrow> bool" where
  "isSpace c \<longleftrightarrow> (of_char c :: nat) \<in> {9, 10, 11, 12, 13, 32, 160}"

definition js_trim :: "string \<Rightarrow> string" where
  "js_trim s = rev (dropWhile isSpace (rev (dropWhile isSpace s)))"

end
