(* ===== verification/JsNumber.thy ===== *)
theory JsNumber
  imports Prelude
begin

text \<open>
  The number type of the language, as far as the sources depend on it: exact rationals, the
  two infinities and NaN. Rounding of doubles and the sign of zero are not modelled; division
  by zero, the arithmetic of infinities and every comparison with NaN are.
\<close>

datatype jsnum = Fin rat | PosInf | NegInf | NaN

fun js_add :: "jsnum \<Rightarrow> jsnum \<Rightarrow> jsnum" where
  "js_add (Fin a) (Fin b) = Fin (a + b)"
| "js_add NaN _ = NaN"
| "js_add _ NaN = NaN"
| "js_add PosInf NegInf = NaN"
| "js_add NegInf PosInf = NaN"
| "js_add PosInf _ = PosInf"
| "js_add NegInf _ = NegInf"
| "js_add _ PosInf = PosInf"
| "js_add _ NegInf = NegInf"

fun js_neg :: "jsnum \<Rightarrow> jsnum" where
  "js_neg (Fin a) = Fin (- a)"
| "js_neg PosInf = NegInf"
| "js_neg NegInf = PosInf"
| "js_neg NaN = NaN"

text \<open>An infinity times a number of the given sign.\<close>

definition js_inf_sign :: "bool \<Rightarrow> rat \<Rightarrow> jsnum" where
  "js_inf_sign pos a =
     (if a = 0 then NaN else if (0 < a) = pos then PosInf else NegInf)"

fun js_mul :: "jsnum \<Rightarrow> jsnum \<Rightarrow> jsnum" where
  "js_mul (Fin a) (Fin b) = Fin (a * b)"
| "js_mul NaN _ = NaN"
| "js_mul _ NaN = NaN"
| "js_mul (Fin a) PosInf = js_inf_sign True a"
| "js_mul (Fin a) NegInf = js_inf_sign False a"
| "js_mul PosInf (Fin a) = js_inf_sign True a"
| "js_mul NegInf (Fin a) = js_inf_sign False a"
| "js_mul PosInf PosInf = PosInf"
| "js_mul PosInf NegInf = NegInf"
| "js_mul NegInf PosInf = NegInf"
| "js_mul NegInf NegInf = PosInf"

text \<open>A zero divisor is the positive zero: the sources divide by sizes and lengths.\<close>

fun js_div :: "jsnum \<Rightarrow> jsnum \<Rightarrow> jsnum" where
  "js_div (Fin a) (Fin b) =
     (if b \<noteq> 0 then Fin (a / b) else if a = 0 then NaN else if 0 < a then PosInf else NegInf)"
| "js_div NaN _ = NaN"
| "js_div _ NaN = NaN"
| "js_div (Fin a) _ = Fin 0"
| "js_div PosInf (Fin b) = (if 0 \<le> b then PosInf else NegInf)"
| "js_div NegInf (Fin b) = (if 0 \<le> b then NegInf else PosInf)"
| "js_div _ _ = NaN"

fun js_less :: "jsnum \<Rightarrow> jsnum \<Rightarrow> bool" where
  "js_less (Fin a) (Fin b) = (a < b)"
| "js_less NaN _ = False"
| "js_less _ NaN = False"
| "js_less PosInf _ = False"
| "js_less _ NegInf = False"
| "js_less _ _ = True"

text \<open>\<open>a === b\<close> on numbers: NaN is not equal to itself.\<close>

definition js_num_eq :: "jsnum \<Rightarrow> jsnum \<Rightarrow> bool" where
  "js_num_eq a b \<longleftrightarrow> a = b \<and> a \<noteq> NaN"

instantiation jsnum :: "{zero, one, plus, uminus, minus, times, ord}"
begin

definition zero_jsnum :: jsnum where "0 = Fin 0"
definition one_jsnum :: jsnum where "1 = Fin 1"
definition plus_jsnum :: "jsnum \<Rightarrow> jsnum \<Rightarrow> jsnum" where "a + b = js_add a b"
definition uminus_jsnum :: "jsnum \<Rightarrow> jsnum" where "- a = js_neg a"
definition minus_jsnum :: "jsnum \<Rightarrow> jsnum \<Rightarrow> jsnum" where "a - b = js_add a (js_neg b)"
definition times_jsnum :: "jsnum \<Rightarrow> jsnum \<Rightarrow> jsnum" where "a * b = js_mul a b"
definition less_jsnum :: "jsnum \<Rightarrow> jsnum \<Rightarrow> bool" where "a < b \<longleftrightarrow> js_less a b"
definition less_eq_jsnum :: "jsnum \<Rightarrow> jsnum \<Rightarrow> bool" where
  "a \<le> b \<longleftrightarrow> js_less a b \<or> js_num_eq a b"

instance ..

end

lemma jsnum_fin [simp]:
  "Fin a + Fin b = Fin (a + b)"
  "Fin a - Fin b = Fin (a - b)"
  "Fin a * Fin b = Fin (a * b)"
  "- Fin a = Fin (- a)"
  "Fin a < Fin b \<longleftrightarrow> a < b"
  "Fin a \<le> Fin b \<longleftrightarrow> a \<le> b"
  "(0 :: jsnum) = Fin 0"
  "(1 :: jsnum) = Fin 1"
  by (auto simp: plus_jsnum_def minus_jsnum_def times_jsnum_def uminus_jsnum_def less_jsnum_def
      less_eq_jsnum_def js_num_eq_def zero_jsnum_def one_jsnum_def)

lemma jsnum_nan [simp]:
  "NaN + x = NaN" "x + NaN = NaN" "\<not> NaN < x" "\<not> x < NaN" "\<not> NaN \<le> x" "\<not> x \<le> NaN"
  by (cases x; simp add: plus_jsnum_def less_jsnum_def less_eq_jsnum_def js_num_eq_def)+

lemma jsnum_le_total: "a \<noteq> NaN \<Longrightarrow> b \<noteq> NaN \<Longrightarrow> a \<le> b \<or> b \<le> (a :: jsnum)"
  by (cases a; cases b) (auto simp: less_eq_jsnum_def js_num_eq_def)

lemma jsnum_le_trans: "a \<le> b \<Longrightarrow> b \<le> c \<Longrightarrow> a \<le> (c :: jsnum)"
  by (cases a; cases b; cases c) (auto simp: less_eq_jsnum_def js_num_eq_def)

lemma js_div_fin [simp]: "b \<noteq> 0 \<Longrightarrow> js_div (Fin a) (Fin b) = Fin (a / b)"
  by simp

instance jsnum :: ab_semigroup_add
proof
  fix a b c :: jsnum
  show "a + b + c = a + (b + c)"
    by (cases a; cases b; cases c) (simp_all add: plus_jsnum_def)
  show "a + b = b + a"
    by (cases a; cases b) (simp_all add: plus_jsnum_def)
qed

instance jsnum :: comm_monoid_add
proof
  fix a :: jsnum
  show "0 + a = a"
    by (cases a) (simp_all add: plus_jsnum_def)
qed

fun js_floor :: "jsnum \<Rightarrow> jsnum" where
  "js_floor (Fin a) = Fin (of_int \<lfloor>a\<rfloor>)"
| "js_floor x = x"

fun js_ceil :: "jsnum \<Rightarrow> jsnum" where
  "js_ceil (Fin a) = Fin (of_int \<lceil>a\<rceil>)"
| "js_ceil x = x"

text \<open>\<open>Math.min\<close> and \<open>Math.max\<close>: NaN if either argument is.\<close>

definition js_min :: "jsnum \<Rightarrow> jsnum \<Rightarrow> jsnum" where
  "js_min a b = (if a = NaN \<or> b = NaN then NaN else if a < b then a else b)"

definition js_max :: "jsnum \<Rightarrow> jsnum \<Rightarrow> jsnum" where
  "js_max a b = (if a = NaN \<or> b = NaN then NaN else if a < b then b else a)"

lemma js_min_fin [simp]: "js_min (Fin a) (Fin b) = Fin (min a b)"
  by (simp add: js_min_def min_def)

lemma js_max_fin [simp]: "js_max (Fin a) (Fin b) = Fin (max a b)"
  by (simp add: js_max_def max_def)

text \<open>The truthiness of a number.\<close>

definition js_truthy :: "jsnum \<Rightarrow> bool" where
  "js_truthy a \<longleftrightarrow> a \<noteq> Fin 0 \<and> a \<noteq> NaN"

lemma sum_list_fin: "sum_list (map (\<lambda>x. Fin (f x)) xs) = Fin (sum_list (map f xs))"
  by (induction xs) auto

end
