(* ===== verification/LayoutTypes.thy ===== *)
theory LayoutTypes
  imports JsNumber
begin

text \<open>
  The data of the tile layout (frontend/layout/lib/types.ts): directions, the actions of the
  tree reducer, the layout node and the tree state, and the store the nodes live in.

  Layout nodes are mutable objects that the code shares by reference (a node is for a moment
  the child of two parents in \<open>moveNode\<close>), so nodes live in an explicit store from references
  to records; the reference 0 is \<open>undefined\<close>. The store also holds the identifiers that
  \<open>crypto.randomUUID\<close> will return, in order, and the depth of the call stack.
\<close>

datatype navigateDirection = NavUp | NavRight | NavDown | NavLeft

datatype dropDirection =
    DropTop | DropRight | DropBottom | DropLeft
  | OuterTop | OuterRight | OuterBottom | OuterLeft
  | DropCenter

text \<open>The numbers behind the enumeration, in the order of the declaration.\<close>

definition dropDirections :: "dropDirection list" where
  "dropDirections =
     [DropTop, DropRight, DropBottom, DropLeft, OuterTop, OuterRight, OuterBottom, OuterLeft,
      DropCenter]"

datatype flexDirection = Row | Column

type_synonym ref = nat

definition undef :: ref where
  "undef = 0"

text \<open>\<open>LayoutNode\<close>. The block data is its \<open>blockId\<close>; a child can be \<open>undefined\<close> while a
  node is being balanced.\<close>

record layoutNode =
  node_id :: string
  node_data :: "string option"
  node_children :: "ref list option"
  node_flex :: flexDirection
  node_size :: jsnum

definition DefaultNodeSize :: jsnum where
  "DefaultNodeSize = Fin 10"

record layoutStore =
  cells :: "ref \<Rightarrow> layoutNode option"
  nextRef :: ref
  uuids :: "nat \<Rightarrow> string"
  drawn :: nat
  stackDepth :: nat

record moveOperation =
  mv_index :: "int option"
  mv_parentId :: "string option"
  mv_insertAtRoot :: bool
  mv_node :: ref

record insertNodeOperation =
  ins_node :: ref
  ins_magnified :: bool
  ins_focused :: bool

record resizeNodeOperation =
  rs_nodeId :: string
  rs_size :: jsnum

text \<open>The actions of the reducer, one constructor per value of \<open>LayoutTreeActionType\<close>.\<close>

datatype layoutTreeAction =
    ComputeMove string string "dropDirection option"   \<comment> \<open>nodeId, nodeToMoveId, direction\<close>
  | Move moveOperation
  | Swap string string                                 \<comment> \<open>node1Id, node2Id\<close>
  | SetPendingAction "layoutTreeAction option"
  | CommitPendingAction
  | ClearPendingAction
  | ResizeNode "resizeNodeOperation list option"
  | InsertNode insertNodeOperation
  | InsertNodeAtIndex insertNodeOperation "int list option"
  | DeleteNode string
  | FocusNode string
  | MagnifyNodeToggle string
  | ClearTree

record leafOrderEntry =
  le_nodeid :: string
  le_blockid :: string

text \<open>\<open>LayoutActionData\<close>: an action queued by the backend.\<close>

datatype backendActionType =
    BInsertNode | BDeleteNode | BInsertNodeAtIndex | BClearTree | BOther

record layoutActionData =
  ad_type :: backendActionType
  ad_blockid :: string
  ad_nodesize :: "jsnum option"
  ad_indexarr :: "int list option"
  ad_focused :: bool
  ad_magnified :: bool

record layoutTreeState =
  rootNode :: ref
  focusedNodeId :: "string option"
  magnifiedNodeId :: "string option"
  leafOrder :: "leafOrderEntry list option"
  pendingBackendActions :: "layoutActionData list option"
  generation :: int

record dimensions =
  dim_top :: jsnum
  dim_left :: jsnum
  dim_width :: jsnum
  dim_height :: jsnum

record point =
  pt_x :: jsnum
  pt_y :: jsnum

text \<open>
  \<open>CSSProperties\<close> as \<open>setTransform\<close> builds them: the numbers of \<open>translate3d\<close> and of the
  optional width and height, before they are printed with their unit.
\<close>

record cssTransform =
  css_x :: jsnum
  css_y :: jsnum
  css_width :: "jsnum option"
  css_height :: "jsnum option"

record resizeHandleProps =
  rh_id :: string
  rh_parentNodeId :: string
  rh_parentIndex :: nat
  rh_centerPx :: jsnum
  rh_transform :: cssTransform
  rh_flexDirection :: flexDirection

record layoutNodeAdditionalProps =
  ap_treeKey :: string
  ap_transform :: "cssTransform option"
  ap_rect :: "dimensions option"
  ap_pixelToSizeRatio :: "jsnum option"
  ap_resizeHandles :: "resizeHandleProps list option"
  ap_isMagnifiedNode :: bool
  ap_isLastMagnifiedNode :: bool

section \<open>The store\<close>

definition getNode :: "layoutStore \<Rightarrow> ref \<Rightarrow> js_error + layoutNode" where
  "getNode h a = (case cells h a of None \<Rightarrow> Inl TypeError | Some n \<Rightarrow> Inr n)"

definition setNode :: "ref \<Rightarrow> layoutNode \<Rightarrow> layoutStore \<Rightarrow> layoutStore" where
  "setNode a n h = h\<lparr>cells := (cells h)(a := Some n)\<rparr>"

definition allocNode :: "layoutNode \<Rightarrow> layoutStore \<Rightarrow> ref \<times> layoutStore" where
  "allocNode n h =
     (nextRef h, h\<lparr>cells := (cells h)(nextRef h := Some n), nextRef := Suc (nextRef h)\<rparr>)"

text \<open>\<open>node.f = v\<close>: the record update \<open>f\<close> at a reference.\<close>

definition modifyNode :: "ref \<Rightarrow> (layoutNode \<Rightarrow> layoutNode) \<Rightarrow> layoutStore \<Rightarrow> (js_error + unit) \<times> layoutStore" where
  "modifyNode a f h =
     (case cells h a of None \<Rightarrow> (Inl TypeError, h) | Some n \<Rightarrow> (Inr (), setNode a (f n) h))"

definition randomUUID :: "layoutStore \<Rightarrow> string \<times> layoutStore" where
  "randomUUID h = (uuids h (drawn h), h\<lparr>drawn := Suc (drawn h)\<rparr>)"

text \<open>
  A store is well formed when nothing is stored at \<open>undefined\<close> or beyond the next reference.
\<close>

definition wf_store :: "layoutStore \<Rightarrow> bool" where
  "wf_store h \<longleftrightarrow> cells h undef = None \<and> (\<forall>a. nextRef h \<le> a \<longrightarrow> cells h a = None) \<and> 0 < nextRef h"

lemma getNode_eq_Inr [simp]: "getNode h a = Inr n \<longleftrightarrow> cells h a = Some n"
  by (auto simp: getNode_def split: option.splits)

lemma getNode_eq_Inl: "getNode h a = Inl e \<longleftrightarrow> cells h a = None \<and> e = TypeError"
  by (auto simp: getNode_def split: option.splits)

lemma getNode_Some: "cells h a = Some n \<Longrightarrow> getNode h a = Inr n"
  by simp

lemma setNode_simps [simp]:
  "cells (setNode a n h) = (cells h)(a := Some n)"
  "nextRef (setNode a n h) = nextRef h"
  "uuids (setNode a n h) = uuids h"
  "drawn (setNode a n h) = drawn h"
  "stackDepth (setNode a n h) = stackDepth h"
  by (simp_all add: setNode_def)

lemma modifyNode_Some [simp]: "cells h a = Some n \<Longrightarrow> modifyNode a f h = (Inr (), setNode a (f n) h)"
  by (simp add: modifyNode_def)

lemma modifyNode_None [simp]: "cells h a = None \<Longrightarrow> modifyNode a f h = (Inl TypeError, h)"
  by (simp add: modifyNode_def)

lemma wf_store_cell: "wf_store h \<Longrightarrow> cells h a = Some n \<Longrightarrow> a \<noteq> undef \<and> a < nextRef h"
  by (metis wf_store_def linorder_not_le option.distinct(1))

lemma wf_store_setNode: "wf_store h \<Longrightarrow> cells h a \<noteq> None \<Longrightarrow> wf_store (setNode a n h)"
  by (auto simp: wf_store_def)

lemma wf_store_alloc: "wf_store h \<Longrightarrow> allocNode n h = (a, h') \<Longrightarrow> wf_store h'"
  by (auto simp: wf_store_def allocNode_def undef_def)

lemma wf_store_fresh: "wf_store h \<Longrightarrow> cells h (nextRef h) = None"
  by (simp add: wf_store_def)

text \<open>The store is a key store of nodes: reads after writes.\<close>

interpretation nodes: key_store cells setNode "\<lambda>a h. h\<lparr>cells := (cells h)(a := None)\<rparr>"
  by unfold_locales auto

end
