(* ===== verification/LayoutNode.thy ===== *)
theory LayoutNode
  imports LayoutTypes
begin

text \<open>
  The node operations of frontend/layout/lib/layoutNode.ts and \<open>reverseFlexDirection\<close> of
  utils.ts, over the store of layout nodes. A recursive function takes the remaining depth of
  the call stack as its first argument and raises \<open>RangeError\<close> when it is used up, as the
  engine does on a cyclic structure; the wrapper without \<open>_rec\<close> starts at the store's depth.
\<close>

fun reverseFlexDirection :: "flexDirection \<Rightarrow> flexDirection" where
  "reverseFlexDirection Row = Column"
| "reverseFlexDirection Column = Row"

lemma reverseFlexDirection_neq [simp]:
  "reverseFlexDirection d \<noteq> d" "d \<noteq> reverseFlexDirection d"
  "reverseFlexDirection (reverseFlexDirection d) = d"
  by (cases d; simp)+

lemma reverseFlexDirection_eq: "d \<noteq> e \<Longrightarrow> d = reverseFlexDirection e"
  by (cases d; cases e) auto

section \<open>Construction\<close>

definition validateNode :: "layoutNode \<Rightarrow> bool" where
  "validateNode n =
     (if (node_children n = None) = (node_data n = None) then False
      else if node_children n = Some [] then False
      else True)"

definition newLayoutNode ::
  "flexDirection option \<Rightarrow> jsnum option \<Rightarrow> ref list option \<Rightarrow> string option \<Rightarrow> layoutStore \<Rightarrow>
     (js_error + ref) \<times> layoutStore" where
  "newLayoutNode flexDirection sz children data h =
     (let (uuid, h) = randomUUID h;
          newNode = \<lparr>node_id = uuid,
                     node_data = data,
                     node_children = children,
                     node_flex = (case flexDirection of None \<Rightarrow> Row | Some d \<Rightarrow> d),
                     node_size = (case sz of None \<Rightarrow> DefaultNodeSize | Some s \<Rightarrow> s)\<rparr>
      in if \<not> validateNode newNode then (Inl (Error ''Invalid node''), h)
         else let (a, h) = allocNode newNode h in (Inr a, h))"

definition addIntermediateNode :: "ref \<Rightarrow> layoutStore \<Rightarrow> (js_error + ref) \<times> layoutStore" where
  "addIntermediateNode node h =
     withVal (getNode h node) h (\<lambda>n.
     andThen
       (if node_data n \<noteq> None then
          andThen (newLayoutNode (Some (reverseFlexDirection (node_flex n))) None None (node_data n) h)
            (\<lambda>intermediateNode h.
          andThen (modifyNode node (\<lambda>n. n\<lparr>node_children := Some [intermediateNode]\<rparr>) h) (\<lambda>_ h.
          andThen (modifyNode node (\<lambda>n. n\<lparr>node_data := None\<rparr>) h) (\<lambda>_ h.
          (Inr intermediateNode, h))))
        else
          andThen (newLayoutNode (Some (node_flex n)) None (node_children n) None h)
            (\<lambda>intermediateNodeInner h.
          andThen (newLayoutNode (Some (reverseFlexDirection (node_flex n))) None
                     (Some [intermediateNodeInner]) None h) (\<lambda>intermediateNode h.
          andThen (modifyNode node (\<lambda>n. n\<lparr>node_children := Some [intermediateNode]\<rparr>) h) (\<lambda>_ h.
          (Inr intermediateNode, h)))))
       (\<lambda>intermediateNode h.
     withVal (getNode h intermediateNode) h (\<lambda>i.
     withVal (getNode h node) h (\<lambda>n.
     andThen (modifyNode intermediateNode (\<lambda>x. x\<lparr>node_id := node_id n\<rparr>) h) (\<lambda>_ h.
     andThen (modifyNode node (\<lambda>x. x\<lparr>node_id := node_id i\<rparr>) h) (\<lambda>_ h.
     (Inr intermediateNode, h)))))))"

section \<open>Children\<close>

text \<open>The callback of the \<open>flatMap\<close> in \<open>addChildAt\<close>.\<close>

definition childToAdd :: "ref \<Rightarrow> ref \<Rightarrow> layoutStore \<Rightarrow> (js_error + ref list) \<times> layoutStore" where
  "childToAdd node v h =
     withVal (getNode h v) h (\<lambda>vn.
     withVal (getNode h node) h (\<lambda>n.
     if node_flex vn \<noteq> node_flex n then (Inr [v], h)
     else case node_children vn of
       Some cs \<Rightarrow> (Inr cs, h)
     | None \<Rightarrow>
         andThen (modifyNode v (\<lambda>x. x\<lparr>node_flex := reverseFlexDirection (node_flex n)\<rparr>) h)
           (\<lambda>_ h. (Inr [v], h))))"

definition insertChildren :: "int option \<Rightarrow> ref list \<Rightarrow> ref list \<Rightarrow> ref list" where
  "insertChildren idx toAdd cs =
     (case idx of
        None \<Rightarrow> cs
      | Some i \<Rightarrow>
          if int (length cs) \<le> i then cs @ toAdd
          else if 0 \<le> i then js_splice_in i toAdd cs
          else cs)"

definition addChildAt :: "ref \<Rightarrow> int option \<Rightarrow> ref list \<Rightarrow> layoutStore \<Rightarrow> (js_error + unit) \<times> layoutStore" where
  "addChildAt node idx children h =
     (if children = [] then (Inr (), h)
      else
        withVal (getNode h node) h (\<lambda>n.
        andThen (if node_children n = None then
                   andThen (addIntermediateNode node h) (\<lambda>_ h. (Inr (), h))
                 else (Inr (), h)) (\<lambda>_ h.
        andThen (mapS (childToAdd node) children h) (\<lambda>childrenToAdd h.
        withVal (getNode h node) h (\<lambda>n.
        case node_children n of
          None \<Rightarrow> (Inl TypeError, h)
        | Some cs \<Rightarrow>
            modifyNode node
              (\<lambda>x. x\<lparr>node_children := Some (insertChildren idx (concat childrenToAdd) cs)\<rparr>) h)))))"

definition removeChild :: "ref \<Rightarrow> ref \<Rightarrow> int \<Rightarrow> layoutStore \<Rightarrow> (js_error + unit) \<times> layoutStore" where
  "removeChild parent childToRemove startingIndex h =
     withVal (getNode h parent) h (\<lambda>p.
     case node_children p of
       None \<Rightarrow> (Inr (), h)
     | Some cs \<Rightarrow>
         let idx = js_index_of cs childToRemove startingIndex in
         if idx = -1 then (Inr (), h)
         else modifyNode parent (\<lambda>x. x\<lparr>node_children := Some (js_splice_out idx cs)\<rparr>) h)"

section \<open>Search\<close>

primrec findNode_rec :: "nat \<Rightarrow> layoutStore \<Rightarrow> string \<Rightarrow> ref \<Rightarrow> js_error + ref option" where
  "findNode_rec 0 h i node = Inl RangeError"
| "findNode_rec (Suc d) h i node =
     (if node = undef then Inr None
      else bindR (getNode h node) (\<lambda>n.
        if node_id n = i then Inr (Some node)
        else case node_children n of
          None \<Rightarrow> Inr None
        | Some cs \<Rightarrow> firstFound (findNode_rec d h i) cs))"

definition findNode :: "layoutStore \<Rightarrow> ref \<Rightarrow> string \<Rightarrow> js_error + ref option" where
  "findNode h node i = findNode_rec (stackDepth h) h i node"

primrec findParent_rec :: "nat \<Rightarrow> layoutStore \<Rightarrow> string \<Rightarrow> ref \<Rightarrow> js_error + ref option" where
  "findParent_rec 0 h i node = Inl RangeError"
| "findParent_rec (Suc d) h i node =
     bindR (getNode h node) (\<lambda>n.
       if node_id n = i then Inr None
       else case node_children n of
         None \<Rightarrow> Inr None
       | Some cs \<Rightarrow>
           firstFound (\<lambda>child. bindR (getNode h child) (\<lambda>c.
             if node_id c = i then Inr (Some node) else findParent_rec d h i child)) cs)"

definition findParent :: "layoutStore \<Rightarrow> ref \<Rightarrow> string \<Rightarrow> js_error + ref option" where
  "findParent h node i = findParent_rec (stackDepth h) h i node"

section \<open>Walking and balancing\<close>

text \<open>
  The callbacks of a walk share mutable state of their own with the caller: the walk threads
  a pair of the store and that state.
\<close>

type_synonym 'u walkState = "layoutStore \<times> 'u"
type_synonym 'u walkCallback = "(ref \<Rightarrow> 'u walkState \<Rightarrow> (js_error + unit) \<times> 'u walkState) option"

definition runCallback :: "'u walkCallback \<Rightarrow> ref \<Rightarrow> 'u walkState \<Rightarrow> (js_error + unit) \<times> 'u walkState" where
  "runCallback cb node s = (case cb of None \<Rightarrow> (Inr (), s) | Some f \<Rightarrow> f node s)"

primrec walkNodes_rec ::
  "nat \<Rightarrow> 'u walkCallback \<Rightarrow> 'u walkCallback \<Rightarrow> ref \<Rightarrow> 'u walkState \<Rightarrow>
     (js_error + unit) \<times> 'u walkState" where
  "walkNodes_rec 0 before after node s = (Inl RangeError, s)"
| "walkNodes_rec (Suc d) before after node s =
     (if node = undef then (Inr (), s)
      else
        andThen (runCallback before node s) (\<lambda>_ s.
        withVal (getNode (fst s) node) s (\<lambda>n.
        andThen (case node_children n of
                   None \<Rightarrow> (Inr (), s)
                 | Some cs \<Rightarrow> forEachS (walkNodes_rec d before after) cs s) (\<lambda>_ s.
        runCallback after node s))))"

definition walkNodes ::
  "ref \<Rightarrow> 'u walkCallback \<Rightarrow> 'u walkCallback \<Rightarrow> 'u walkState \<Rightarrow> (js_error + unit) \<times> 'u walkState" where
  "walkNodes node before after s = walkNodes_rec (stackDepth (fst s)) before after node s"

text \<open>The callback of the \<open>flatMap\<close> in \<open>balanceNode\<close>.\<close>

definition balanceChild :: "ref \<Rightarrow> ref \<Rightarrow> layoutStore \<Rightarrow> (js_error + ref list) \<times> layoutStore" where
  "balanceChild node child h =
     withVal (getNode h child) h (\<lambda>c.
     withVal (getNode h node) h (\<lambda>n.
     andThen (if node_flex c = node_flex n then
                modifyNode child (\<lambda>x. x\<lparr>node_flex := reverseFlexDirection (node_flex n)\<rparr>) h
              else (Inr (), h)) (\<lambda>_ h.
     case node_children c of
       Some [only] \<Rightarrow>
         withVal (getNode h only) h (\<lambda>o1.
         case node_children o1 of Some gcs \<Rightarrow> (Inr gcs, h) | None \<Rightarrow> (Inr [child], h))
     | Some [] \<Rightarrow> (Inr [undef], h)
     | _ \<Rightarrow> (Inr [child], h))))"

text \<open>Lift a store operation into the state of a walk.\<close>

definition onStore :: "(layoutStore \<Rightarrow> (js_error + 'a) \<times> layoutStore) \<Rightarrow> 'u walkState \<Rightarrow> (js_error + 'a) \<times> 'u walkState" where
  "onStore f s = (let (r, h) = f (fst s) in (r, (h, snd s)))"

definition balanceBefore :: "ref \<Rightarrow> layoutStore \<Rightarrow> (js_error + unit) \<times> layoutStore" where
  "balanceBefore node h =
     withVal (getNode h node) h (\<lambda>n.
     if \<not> validateNode n then (Inl (Error ''Invalid node''), h)
     else case node_children n of
       None \<Rightarrow> (Inr (), h)
     | Some cs \<Rightarrow>
         andThen (mapS (balanceChild node) cs h) (\<lambda>css h.
         modifyNode node (\<lambda>x. x\<lparr>node_children := Some (concat css)\<rparr>) h))"

definition balanceAfter :: "ref \<Rightarrow> layoutStore \<Rightarrow> (js_error + unit) \<times> layoutStore" where
  "balanceAfter node h =
     withVal (getNode h node) h (\<lambda>n.
     case node_children n of
       None \<Rightarrow> (Inr (), h)
     | Some cs \<Rightarrow>
         andThen (modifyNode node
                    (\<lambda>x. x\<lparr>node_children := Some (filter (\<lambda>v. v \<noteq> undef) cs)\<rparr>) h) (\<lambda>_ h.
         case filter (\<lambda>v. v \<noteq> undef) cs of
           [only] \<Rightarrow>
             withVal (getNode h only) h (\<lambda>c.
             if node_children c = None then
               modifyNode node
                 (\<lambda>x. x\<lparr>node_data := node_data c, node_id := node_id c, node_children := None\<rparr>) h
             else (Inr (), h))
         | _ \<Rightarrow> (Inr (), h)))"

definition balanceNode ::
  "ref \<Rightarrow> 'u walkCallback \<Rightarrow> 'u walkCallback \<Rightarrow> 'u walkState \<Rightarrow> (js_error + ref) \<times> 'u walkState" where
  "balanceNode node beforeWalkCallback afterWalkCallback s =
     andThen
       (walkNodes node
          (Some (\<lambda>node s. andThen (onStore (balanceBefore node) s)
                            (\<lambda>_ s. runCallback beforeWalkCallback node s)))
          (Some (\<lambda>node s. andThen (onStore (balanceAfter node) s)
                            (\<lambda>_ s. runCallback afterWalkCallback node s)))
          s)
       (\<lambda>_ s. (Inr node, s))"

section \<open>Insert locations\<close>

definition DEFAULT_MAX_CHILDREN :: nat where
  "DEFAULT_MAX_CHILDREN = 5"

record insertLoc =
  il_node :: ref
  il_index :: nat
  il_depth :: nat

text \<open>
  The candidates are sorted by \<open>depth ^ (index + maxChildren)\<close>; \<open>Array.sort\<close> is stable, and so
  is \<open>sort_key\<close>.
\<close>

primrec findNextInsertLocationHelper ::
  "nat \<Rightarrow> layoutStore \<Rightarrow> nat \<Rightarrow> nat \<Rightarrow> ref \<Rightarrow> js_error + insertLoc option" where
  "findNextInsertLocationHelper 0 h maxChildren curDepth node = Inl RangeError"
| "findNextInsertLocationHelper (Suc d) h maxChildren curDepth node =
     (if node = undef then Inr None
      else bindR (getNode h node) (\<lambda>n.
        case node_children n of
          None \<Rightarrow> Inr (Some \<lparr>il_node = node, il_index = 1, il_depth = curDepth\<rparr>)
        | Some cs \<Rightarrow>
            bindR (mapR (findNextInsertLocationHelper d h maxChildren (curDepth + 1)) (rev cs))
              (\<lambda>below.
            let own = (if length cs < maxChildren
                       then [Some \<lparr>il_node = node, il_index = length cs, il_depth = curDepth\<rparr>]
                       else []);
                insertLocs = sort_key (\<lambda>a. il_depth a ^ (il_index a + maxChildren))
                               (map the (filter (\<lambda>a. a \<noteq> None) (own @ below)))
            in Inr (case insertLocs of [] \<Rightarrow> None | l # _ \<Rightarrow> Some l))))"

definition findNextInsertLocation ::
  "layoutStore \<Rightarrow> ref \<Rightarrow> nat \<Rightarrow> js_error + (ref \<times> int option)" where
  "findNextInsertLocation h node maxChildren =
     bindR (findNextInsertLocationHelper (stackDepth h) h maxChildren 1 node) (\<lambda>insertLoc.
       Inr (case insertLoc of None \<Rightarrow> undef | Some l \<Rightarrow> il_node l,
            case insertLoc of None \<Rightarrow> None | Some l \<Rightarrow> Some (int (il_index l))))"

definition normalizeIndex :: "layoutNode \<Rightarrow> int \<Rightarrow> int" where
  "normalizeIndex n index =
     (let childrenLength = (case node_children n of None \<Rightarrow> 1 | Some cs \<Rightarrow> int (length cs));
          lastChildIndex = childrenLength - 1
      in if index < 0 then childrenLength - max index (- childrenLength)
         else min index lastChildIndex)"

fun findInsertLocationFromIndexArr ::
  "layoutStore \<Rightarrow> ref \<Rightarrow> int list \<Rightarrow> js_error + (ref \<times> int) option" where
  "findInsertLocationFromIndexArr h node [] = Inr None"
| "findInsertLocationFromIndexArr h node (index # indexArr) =
     bindR (getNode h node) (\<lambda>n.
       let nextIndex = normalizeIndex n index in
       case (indexArr, node_children n) of
         ([], _) \<Rightarrow> Inr (Some (node, nextIndex))
       | (_, None) \<Rightarrow> Inr (Some (node, nextIndex))
       | (_, Some cs) \<Rightarrow>
           findInsertLocationFromIndexArr h
             (case js_at cs nextIndex of None \<Rightarrow> undef | Some c \<Rightarrow> c) indexArr)"

definition totalChildrenSize :: "layoutStore \<Rightarrow> layoutNode \<Rightarrow> js_error + jsnum option" where
  "totalChildrenSize h n =
     (case node_children n of
        None \<Rightarrow> Inr None
      | Some cs \<Rightarrow>
          bindR (mapR (getNode h) cs) (\<lambda>ns.
            Inr (Some (foldl (\<lambda>partialSum child. partialSum + node_size child) (Fin 0) ns))))"

end
