(* ===== verification/LayoutTree.thy ===== *)
theory LayoutTree
  imports LayoutNode
begin

text \<open>
  The operations on the layout tree state (frontend/layout/lib/layoutTree.ts). An operation
  reads and mutates the store of nodes and the tree state: it maps a pair of both to its
  result, which is an exception or unit, and the new pair. Logging is not modelled.
\<close>

type_synonym treeWorld = "layoutTreeState walkState"

definition bumpGeneration :: "treeWorld \<Rightarrow> (js_error + unit) \<times> treeWorld" where
  "bumpGeneration w = (Inr (), (fst w, (snd w)\<lparr>generation := generation (snd w) + 1\<rparr>))"

definition modifyState :: "(layoutTreeState \<Rightarrow> layoutTreeState) \<Rightarrow> treeWorld \<Rightarrow> (js_error + unit) \<times> treeWorld" where
  "modifyState f w = (Inr (), (fst w, f (snd w)))"

text \<open>\<open>children.findIndex(child => i === child.id)\<close>: the children are read up to the match.\<close>

primrec childIndex :: "layoutStore \<Rightarrow> string \<Rightarrow> ref list \<Rightarrow> js_error + int" where
  "childIndex h i [] = Inr (-1)"
| "childIndex h i (c # cs) =
     bindR (getNode h c) (\<lambda>n.
       if node_id n = i then Inr 0
       else bindR (childIndex h i cs) (\<lambda>k. Inr (if k = -1 then -1 else k + 1)))"

definition indexIn :: "layoutStore \<Rightarrow> ref \<Rightarrow> string \<Rightarrow> js_error + int" where
  "indexIn h p i =
     bindR (getNode h p) (\<lambda>n.
       case node_children n of None \<Rightarrow> Inl TypeError | Some cs \<Rightarrow> childIndex h i cs)"

section \<open>Computing a move\<close>

text \<open>
  The lazily evaluated locals of \<open>computeMoveNode\<close> are values of type \<open>js_error + \<dots>\<close> that
  only the branches which call them consume. The four directions share the shape "into the
  node along its axis, else beside it in its parent"; \<open>along\<close> is the axis of the direction
  and \<open>after\<close> whether the node goes behind (index 1, position + 1) or before.
\<close>

definition moveBeside ::
  "layoutStore \<Rightarrow> ref \<Rightarrow> layoutNode \<Rightarrow> string \<Rightarrow> ref \<Rightarrow> flexDirection \<Rightarrow> bool \<Rightarrow> bool \<Rightarrow>
     js_error + moveOperation option" where
  "moveBeside h rootRef node nodeId nodeToMove along after rootCase =
     (if node_flex node = along then
        Inr (Some \<lparr>mv_index = Some (if after then 1 else 0), mv_parentId = Some nodeId,
                   mv_insertAtRoot = False, mv_node = nodeToMove\<rparr>)
      else
        bindR (findParent h rootRef nodeId) (\<lambda>parent.
        case parent of
          None \<Rightarrow>
            Inr (if rootCase then
                   Some \<lparr>mv_index = Some (if after then 1 else 0), mv_parentId = None,
                         mv_insertAtRoot = True, mv_node = nodeToMove\<rparr>
                 else None)
        | Some p \<Rightarrow>
            bindR (getNode h p) (\<lambda>pn.
            bindR (indexIn h p nodeId) (\<lambda>indexInParent.
            Inr (Some \<lparr>mv_index = Some (if after then indexInParent + 1 else indexInParent),
                       mv_parentId = Some (node_id pn), mv_insertAtRoot = False,
                       mv_node = nodeToMove\<rparr>)))))"

definition moveOuter ::
  "layoutStore \<Rightarrow> ref \<Rightarrow> layoutNode \<Rightarrow> string \<Rightarrow> ref \<Rightarrow> flexDirection \<Rightarrow> bool \<Rightarrow> bool \<Rightarrow>
     js_error + moveOperation option" where
  "moveOuter h rootRef node nodeId nodeToMove along after rootCase =
     (let inner = moveBeside h rootRef node nodeId nodeToMove along after rootCase in
      if node_flex node = along then
        bindR (findParent h rootRef nodeId) (\<lambda>parent.
        case parent of
          None \<Rightarrow> Inl TypeError
        | Some p \<Rightarrow>
            bindR (getNode h p) (\<lambda>pn.
            bindR (findParent h rootRef (node_id pn)) (\<lambda>grandparent.
            case grandparent of
              None \<Rightarrow> inner
            | Some g \<Rightarrow>
                bindR (indexIn h g (node_id pn)) (\<lambda>indexInGrandparent.
                bindR (getNode h g) (\<lambda>gn.
                Inr (Some \<lparr>mv_index =
                             Some (if after then indexInGrandparent + 1 else indexInGrandparent),
                           mv_parentId = Some (node_id gn), mv_insertAtRoot = False,
                           mv_node = nodeToMove\<rparr>))))))
      else inner)"

definition moveOperationFor ::
  "layoutStore \<Rightarrow> ref \<Rightarrow> bool \<Rightarrow> layoutNode \<Rightarrow> string \<Rightarrow> ref \<Rightarrow> dropDirection \<Rightarrow>
     js_error + moveOperation option" where
  "moveOperationFor h rootRef isRoot node nodeId nodeToMove direction =
     (case direction of
        OuterTop \<Rightarrow> moveOuter h rootRef node nodeId nodeToMove Column False isRoot
      | DropTop \<Rightarrow> moveBeside h rootRef node nodeId nodeToMove Column False isRoot
      | OuterBottom \<Rightarrow> moveOuter h rootRef node nodeId nodeToMove Column True isRoot
      | DropBottom \<Rightarrow> moveBeside h rootRef node nodeId nodeToMove Column True isRoot
      | OuterLeft \<Rightarrow> moveOuter h rootRef node nodeId nodeToMove Row False False
      | DropLeft \<Rightarrow> moveBeside h rootRef node nodeId nodeToMove Row False False
      | OuterRight \<Rightarrow> moveOuter h rootRef node nodeId nodeToMove Row True False
      | DropRight \<Rightarrow> moveBeside h rootRef node nodeId nodeToMove Row True False
      | DropCenter \<Rightarrow> Inr None)"

definition noMoveOperation :: moveOperation where
  "noMoveOperation =
     \<lparr>mv_index = None, mv_parentId = None, mv_insertAtRoot = False, mv_node = undef\<rparr>"

text \<open>The last statement: an action unless the node would stay where it is.\<close>

definition finishMove ::
  "layoutStore \<Rightarrow> ref \<Rightarrow> string \<Rightarrow> moveOperation option \<Rightarrow> js_error + layoutTreeAction option" where
  "finishMove h rootRef nodeToMoveId newMoveOperation =
     bindR (findParent h rootRef nodeToMoveId) (\<lambda>nodeToMoveParent.
     bindR (case nodeToMoveParent of
              None \<Rightarrow> Inr None
            | Some p \<Rightarrow> bindR (getNode h p) (\<lambda>n. Inr (Some (node_id n)))) (\<lambda>oldParentId.
     let move = Inr (Some (Move (case newMoveOperation of None \<Rightarrow> noMoveOperation | Some m \<Rightarrow> m))) in
     if (case newMoveOperation of None \<Rightarrow> None | Some m \<Rightarrow> mv_parentId m) \<noteq> oldParentId then move
     else case newMoveOperation of
       None \<Rightarrow> Inl TypeError
     | Some m \<Rightarrow>
         (case nodeToMoveParent of
            None \<Rightarrow> if mv_index m \<noteq> None then move else Inr None
          | Some p \<Rightarrow>
              bindR (indexIn h p nodeToMoveId) (\<lambda>k.
              if mv_index m \<noteq> Some k \<and> mv_index m \<noteq> Some (k + 1) then move else Inr None))))"

definition computeMoveNode ::
  "layoutStore \<Rightarrow> layoutTreeState \<Rightarrow> string \<Rightarrow> string \<Rightarrow> dropDirection option \<Rightarrow>
     js_error + layoutTreeAction option" where
  "computeMoveNode h ts nodeId nodeToMoveId direction =
     (if nodeId = [] \<or> nodeToMoveId = [] then Inr None
      else case direction of None \<Rightarrow> Inr None | Some dir \<Rightarrow>
      if nodeId = nodeToMoveId then Inr None
      else
        bindR (getNode h (rootNode ts)) (\<lambda>r.
        bindR (findNode h (rootNode ts) nodeId) (\<lambda>node.
        bindR (findNode h (rootNode ts) nodeToMoveId) (\<lambda>nodeToMove.
        case (node, nodeToMove) of
          (Some nd, Some mv) \<Rightarrow>
            if dir = DropCenter \<and> nodeId \<noteq> node_id r \<and> nodeToMoveId \<noteq> node_id r then
              Inr (Some (Swap nodeId nodeToMoveId))
            else
              bindR (getNode h nd) (\<lambda>ndn.
              bindR (moveOperationFor h (rootNode ts) (node_id r = nodeId) ndn nodeId mv dir) (\<lambda>newMoveOperation.
              finishMove h (rootNode ts) nodeToMoveId newMoveOperation))
        | _ \<Rightarrow> Inr None))))"

section \<open>Moving a node\<close>

definition moveNode :: "moveOperation \<Rightarrow> treeWorld \<Rightarrow> (js_error + unit) \<times> treeWorld" where
  "moveNode action w =
     (let rootRef = rootNode (snd w) in
      if mv_parentId action \<noteq> None \<and> mv_parentId action \<noteq> Some [] \<and> mv_insertAtRoot action
      then (Inr (), w)
      else
        withVal (getNode (fst w) (mv_node action)) w (\<lambda>an.
        withVal (findNode (fst w) rootRef (node_id an)) w (\<lambda>found.
        withVal (case mv_parentId action of
                   None \<Rightarrow> Inr None
                 | Some p \<Rightarrow> findNode (fst w) rootRef p) w (\<lambda>parent.
        withVal (findParent (fst w) rootRef (node_id an)) w (\<lambda>oldParent.
        let node = (case found of Some n \<Rightarrow> n | None \<Rightarrow> mv_node action) in
        andThen
          (case (oldParent, parent) of
             (Some op1, Some p) \<Rightarrow>
               withVal (getNode (fst w) op1) w (\<lambda>opn.
               withVal (getNode (fst w) p) w (\<lambda>pn.
               if node_id opn = node_id pn then
                 case node_children pn of
                   None \<Rightarrow> (Inl TypeError, w)
                 | Some cs \<Rightarrow>
                     (Inr (case mv_index action of
                             None \<Rightarrow> 0
                           | Some i \<Rightarrow> if i \<le> js_index_of cs node 0 then i + 1 else 0), w)
               else
                 andThen (onStore (modifyNode node (\<lambda>n. n\<lparr>node_size := DefaultNodeSize\<rparr>)) w)
                   (\<lambda>_ w. (Inr 0, w))))
           | _ \<Rightarrow> (Inr 0, w)) (\<lambda>startingIndex w.
        andThen
          (case parent of
             None \<Rightarrow>
               if mv_insertAtRoot action then
                 withVal (getNode (fst w) rootRef) w (\<lambda>rn.
                 andThen (if node_children rn = None
                          then andThen (onStore (addIntermediateNode rootRef) w) (\<lambda>_ w. (Inr (), w))
                          else (Inr (), w)) (\<lambda>_ w.
                 onStore (addChildAt rootRef (mv_index action) [node]) w))
               else (Inl (Error ''Invalid InsertOperation''), w)
           | Some p \<Rightarrow> onStore (addChildAt p (mv_index action) [node]) w) (\<lambda>_ w.
        andThen
          (case oldParent of
             None \<Rightarrow> (Inr (), w)
           | Some op1 \<Rightarrow> onStore (removeChild op1 node startingIndex) w) (\<lambda>_ w.
        bumpGeneration w))))))))"

section \<open>Inserting\<close>

text \<open>What both insertions do after the node is in place.\<close>

definition focusInserted :: "bool \<Rightarrow> bool \<Rightarrow> string \<Rightarrow> layoutTreeState \<Rightarrow> layoutTreeState" where
  "focusInserted magnified focused nid ts =
     (let ts = (if magnified then ts\<lparr>magnifiedNodeId := Some nid, focusedNodeId := Some nid\<rparr> else ts)
      in if focused then ts\<lparr>focusedNodeId := Some nid\<rparr> else ts)"

definition insertNode :: "insertNodeOperation \<Rightarrow> treeWorld \<Rightarrow> (js_error + unit) \<times> treeWorld" where
  "insertNode action w =
     (if ins_node action = undef then (Inr (), w)
      else
        andThen
          (if rootNode (snd w) = undef then
             andThen (modifyState (\<lambda>ts. ts\<lparr>rootNode := ins_node action\<rparr>) w) (\<lambda>_ w. (Inr False, w))
           else
             withVal (findNextInsertLocation (fst w) (rootNode (snd w)) DEFAULT_MAX_CHILDREN) w
               (\<lambda>(locNode, locIndex).
             andThen (onStore (addChildAt locNode locIndex [ins_node action]) w) (\<lambda>_ w.
             (Inr (ins_magnified action), w)))) (\<lambda>magnified w.
        withVal (getNode (fst w) (ins_node action)) w (\<lambda>n.
        andThen (modifyState (focusInserted magnified (ins_focused action) (node_id n)) w) (\<lambda>_ w.
        bumpGeneration w))))"

definition insertNodeAtIndex ::
  "insertNodeOperation \<Rightarrow> int list option \<Rightarrow> treeWorld \<Rightarrow> (js_error + unit) \<times> treeWorld" where
  "insertNodeAtIndex action indexArr w =
     (case indexArr of
        None \<Rightarrow> (Inr (), w)
      | Some idxs \<Rightarrow>
          if ins_node action = undef then (Inr (), w)
          else if rootNode (snd w) = undef then
            andThen (modifyState (\<lambda>ts. ts\<lparr>rootNode := ins_node action\<rparr>) w) (\<lambda>_ w.
            withVal (getNode (fst w) (ins_node action)) w (\<lambda>n.
            andThen (modifyState (focusInserted False (ins_focused action) (node_id n)) w) (\<lambda>_ w.
            bumpGeneration w)))
          else
            withVal (findInsertLocationFromIndexArr (fst w) (rootNode (snd w)) idxs) w (\<lambda>insertLoc.
            case insertLoc of
              None \<Rightarrow> (Inr (), w)
            | Some (locNode, locIndex) \<Rightarrow>
                andThen (onStore (addChildAt locNode (Some (locIndex + 1)) [ins_node action]) w) (\<lambda>_ w.
                withVal (getNode (fst w) (ins_node action)) w (\<lambda>n.
                andThen (modifyState
                  (focusInserted (ins_magnified action) (ins_focused action) (node_id n)) w) (\<lambda>_ w.
                bumpGeneration w)))))"

section \<open>Swapping\<close>

definition swapNode :: "string \<Rightarrow> string \<Rightarrow> treeWorld \<Rightarrow> (js_error + unit) \<times> treeWorld" where
  "swapNode node1Id node2Id w =
     (if node1Id = [] \<or> node2Id = [] then (Inr (), w)
      else
        withVal (getNode (fst w) (rootNode (snd w))) w (\<lambda>r.
        if node1Id = node_id r \<or> node2Id = node_id r then (Inr (), w)
        else if node1Id = node2Id then (Inr (), w)
        else
          withVal (findParent (fst w) (rootNode (snd w)) node1Id) w (\<lambda>parent1.
          withVal (findParent (fst w) (rootNode (snd w)) node2Id) w (\<lambda>parent2.
          let p1 = (case parent1 of None \<Rightarrow> undef | Some p \<Rightarrow> p);
              p2 = (case parent2 of None \<Rightarrow> undef | Some p \<Rightarrow> p) in
          withVal (indexIn (fst w) p1 node1Id) w (\<lambda>i1.
          withVal (indexIn (fst w) p2 node2Id) w (\<lambda>i2.
          withVal (getNode (fst w) p1) w (\<lambda>pn1.
          withVal (getNode (fst w) p2) w (\<lambda>pn2.
          let node1 = (case js_at (the (node_children pn1)) i1 of None \<Rightarrow> undef | Some c \<Rightarrow> c);
              node2 = (case js_at (the (node_children pn2)) i2 of None \<Rightarrow> undef | Some c \<Rightarrow> c) in
          withVal (getNode (fst w) node1) w (\<lambda>n1.
          withVal (getNode (fst w) node2) w (\<lambda>n2.
          andThen (onStore (modifyNode node1 (\<lambda>n. n\<lparr>node_size := node_size n2\<rparr>)) w) (\<lambda>_ w.
          andThen (onStore (modifyNode node2 (\<lambda>n. n\<lparr>node_size := node_size n1\<rparr>)) w) (\<lambda>_ w.
          andThen (onStore (modifyNode p1 (\<lambda>n. n\<lparr>node_children :=
                     map_option (\<lambda>cs. cs[nat i1 := node2]) (node_children n)\<rparr>)) w) (\<lambda>_ w.
          andThen (onStore (modifyNode p2 (\<lambda>n. n\<lparr>node_children :=
                     map_option (\<lambda>cs. cs[nat i2 := node1]) (node_children n)\<rparr>)) w) (\<lambda>_ w.
          bumpGeneration w))))))))))))))"

section \<open>Deleting\<close>

definition deleteNode :: "string \<Rightarrow> treeWorld \<Rightarrow> (js_error + unit) \<times> treeWorld" where
  "deleteNode nodeId w =
     (if nodeId = [] then (Inr (), w)
      else if rootNode (snd w) = undef then (Inr (), w)
      else
        withVal (getNode (fst w) (rootNode (snd w))) w (\<lambda>r.
        andThen
          (if node_id r = nodeId then modifyState (\<lambda>ts. ts\<lparr>rootNode := undef\<rparr>) w
           else
             withVal (findParent (fst w) (rootNode (snd w)) nodeId) w (\<lambda>parent.
             case parent of
               None \<Rightarrow> (Inr (), w)
             | Some p \<Rightarrow>
                 withVal (getNode (fst w) p) w (\<lambda>pn.
                 withVal (indexIn (fst w) p nodeId) w (\<lambda>i.
                 let node = (case js_at (the (node_children pn)) i of None \<Rightarrow> undef | Some c \<Rightarrow> c) in
                 andThen (onStore (removeChild p node 0) w) (\<lambda>_ w.
                 withVal (getNode (fst w) node) w (\<lambda>n.
                 if focusedNodeId (snd w) = Some (node_id n)
                 then modifyState (\<lambda>ts. ts\<lparr>focusedNodeId := None\<rparr>) w
                 else (Inr (), w)))))))
          (\<lambda>_ w. bumpGeneration w)))"

section \<open>Resizing, focus, magnification\<close>

text \<open>
  The loop over the resize operations: \<open>Inr False\<close> when an invalid operation makes the
  function return early, with the earlier operations already applied.
\<close>

primrec resizeLoop ::
  "resizeNodeOperation list \<Rightarrow> treeWorld \<Rightarrow> (js_error + bool) \<times> treeWorld" where
  "resizeLoop [] w = (Inr True, w)"
| "resizeLoop (rs # rss) w =
     (if rs_nodeId rs = [] \<or> rs_size rs < Fin 0 \<or> Fin 100 < rs_size rs then (Inr False, w)
      else
        withVal (findNode (fst w) (rootNode (snd w)) (rs_nodeId rs)) w (\<lambda>node.
        andThen (onStore (modifyNode (case node of None \<Rightarrow> undef | Some a \<Rightarrow> a)
                            (\<lambda>n. n\<lparr>node_size := rs_size rs\<rparr>)) w) (\<lambda>_ w.
        resizeLoop rss w)))"

definition resizeNode :: "resizeNodeOperation list option \<Rightarrow> treeWorld \<Rightarrow> (js_error + unit) \<times> treeWorld" where
  "resizeNode resizeOperations w =
     (case resizeOperations of
        None \<Rightarrow> (Inl TypeError, w)
      | Some ops \<Rightarrow>
          andThen (resizeLoop ops w) (\<lambda>completed w.
          if completed then bumpGeneration w else (Inr (), w)))"

definition focusNode :: "string \<Rightarrow> treeWorld \<Rightarrow> (js_error + unit) \<times> treeWorld" where
  "focusNode nodeId w =
     (if nodeId = [] then (Inr (), w)
      else andThen (modifyState (\<lambda>ts. ts\<lparr>focusedNodeId := Some nodeId\<rparr>) w) (\<lambda>_ w.
           bumpGeneration w))"

definition magnifyNodeToggle :: "string \<Rightarrow> treeWorld \<Rightarrow> (js_error + unit) \<times> treeWorld" where
  "magnifyNodeToggle nodeId w =
     (if nodeId = [] then (Inr (), w)
      else
        withVal (getNode (fst w) (rootNode (snd w))) w (\<lambda>r.
        if node_id r = nodeId then (Inr (), w)
        else
          andThen
            (if magnifiedNodeId (snd w) = Some nodeId
             then modifyState (\<lambda>ts. ts\<lparr>magnifiedNodeId := None\<rparr>) w
             else modifyState (\<lambda>ts. ts\<lparr>magnifiedNodeId := Some nodeId, focusedNodeId := Some nodeId\<rparr>) w)
            (\<lambda>_ w. bumpGeneration w)))"

definition clearTree :: "treeWorld \<Rightarrow> (js_error + unit) \<times> treeWorld" where
  "clearTree w =
     andThen (modifyState (\<lambda>ts. ts\<lparr>rootNode := undef, leafOrder := None, focusedNodeId := None,
                                   magnifiedNodeId := None\<rparr>) w) (\<lambda>_ w.
     bumpGeneration w)"

end
