(* ===== verification/LayoutUtils.thy ===== *)
theory LayoutUtils
  imports LayoutTypes
begin

text \<open>
  The geometry helpers of frontend/layout/lib/utils.ts: which side of a tile a drop falls on,
  the CSS transform of a rectangle, its centre, and the unit step of a direction.
\<close>

definition determineDropDirection :: "dimensions option \<Rightarrow> point option \<Rightarrow> dropDirection option" where
  "determineDropDirection dimensions offset =
     (case (offset, dimensions) of
        (Some ofs, Some box) \<Rightarrow>
          let width = dim_width box; height = dim_height box;
              x = pt_x ofs - dim_left box;
              y = pt_y ofs - dim_top box in
          if y < Fin 0 \<or> height < y \<or> x < Fin 0 \<or> width < x then None
          else
            let centerX1 = js_div (Fin 2 * width) (Fin 5);
                centerX2 = js_div (Fin 3 * width) (Fin 5);
                centerY1 = js_div (Fin 2 * height) (Fin 5);
                centerY2 = js_div (Fin 3 * height) (Fin 5) in
            if centerX1 < x \<and> x < centerX2 \<and> centerY1 < y \<and> y < centerY2 then Some DropCenter
            else
              let diagonal1 = y * width - x * height;
                  diagonal2 = y * width + x * height - height * width in
              if diagonal1 = Fin 0 \<or> diagonal2 = Fin 0 then None
              else
                let code = (0 :: nat);
                    code = (if Fin 0 < diagonal2 then code + 1 else code);
                    code = (if Fin 0 < diagonal1 then 5 - (code + 2) else code);
                    xOuter1 = js_div width (Fin 5);
                    xOuter2 = width - js_div width (Fin 5);
                    yOuter1 = js_div height (Fin 5);
                    yOuter2 = height - js_div height (Fin 5);
                    code = (if y < yOuter1 \<or> yOuter2 < y \<or> x < xOuter1 \<or> xOuter2 < x
                            then code + 4 else code) in
                Some (dropDirections ! code)
      | _ \<Rightarrow> None)"

definition setTransform :: "dimensions \<Rightarrow> bool \<Rightarrow> bool \<Rightarrow> cssTransform" where
  "setTransform box setSize roundVals =
     (let topRounded = (if roundVals then js_floor (dim_top box) else dim_top box);
          leftRounded = (if roundVals then js_floor (dim_left box) else dim_left box);
          widthRounded = (if roundVals then js_ceil (dim_width box) else dim_width box);
          heightRounded = (if roundVals then js_ceil (dim_height box) else dim_height box)
      in \<lparr>css_x = leftRounded, css_y = topRounded,
          css_width = (if setSize then Some widthRounded else None),
          css_height = (if setSize then Some heightRounded else None)\<rparr>)"

definition getCenter :: "dimensions \<Rightarrow> point" where
  "getCenter box =
     \<lparr>pt_x = dim_left box + js_div (dim_width box) (Fin 2),
      pt_y = dim_top box + js_div (dim_height box) (Fin 2)\<rparr>"

fun navigateDirectionToOffset :: "navigateDirection \<Rightarrow> point" where
  "navigateDirectionToOffset NavUp = \<lparr>pt_x = Fin 0, pt_y = Fin (-1)\<rparr>"
| "navigateDirectionToOffset NavDown = \<lparr>pt_x = Fin 0, pt_y = Fin 1\<rparr>"
| "navigateDirectionToOffset NavLeft = \<lparr>pt_x = Fin (-1), pt_y = Fin 0\<rparr>"
| "navigateDirectionToOffset NavRight = \<lparr>pt_x = Fin 1, pt_y = Fin 0\<rparr>"

end
