(* ===== verification/LayoutGeometry.thy ===== *)
theory LayoutGeometry
  imports LayoutNode LayoutUtils "HOL-Library.List_Lexorder" "HOL-Library.Char_ord"
begin

text \<open>
  The per-node callback of the tree update (\<open>LayoutModel.updateTreeHelper\<close>) and the leaf order
  computed from its result, in frontend/layout/lib/layoutModel.ts. The callback of a walk
  collects the leaves and maps every node id to its rectangle, CSS transform, tree key and
  resize handles. \<open>layoutFrame\<close> holds what it reads of the model.
\<close>

type_synonym additionalPropsMap = "(string, layoutNodeAdditionalProps) js_map"
type_synonym propsAndLeafs = "additionalPropsMap \<times> ref list"

record layoutFrame =
  lf_container :: dimensions                \<comment> \<open>\<open>getBoundingClientRect()\<close> of the container\<close>
  lf_rootNode :: ref
  lf_magnifiedNodeId :: "string option"
  lf_lastMagnifiedNodeId :: "string option"
  lf_resizeHandleSizePx :: jsnum
  lf_resizeAction :: "resizeNodeOperation list option option"

definition getBoundingRect :: "layoutFrame \<Rightarrow> dimensions" where
  "getBoundingRect f =
     \<lparr>dim_top = Fin 0, dim_left = Fin 0,
      dim_width = dim_width (lf_container f), dim_height = dim_height (lf_container f)\<rparr>"

definition emptyProps :: "string \<Rightarrow> layoutNodeAdditionalProps" where
  "emptyProps k =
     \<lparr>ap_treeKey = k, ap_transform = None, ap_rect = None, ap_pixelToSizeRatio = None,
      ap_resizeHandles = None, ap_isMagnifiedNode = False, ap_isLastMagnifiedNode = False\<rparr>"

text \<open>\<open>getNodeSize\<close>: the size a pending resize gives the node, else its own.\<close>

definition getNodeSize :: "resizeNodeOperation list option option \<Rightarrow> layoutNode \<Rightarrow> js_error + jsnum" where
  "getNodeSize resizeAction n =
     (case resizeAction of
        None \<Rightarrow> Inr (node_size n)
      | Some None \<Rightarrow> Inl TypeError
      | Some (Some ops) \<Rightarrow>
          Inr (case filter (\<lambda>p. rs_nodeId p = node_id n) ops of
                 [] \<Rightarrow> node_size n
               | p # _ \<Rightarrow> rs_size p))"

section \<open>Leaves\<close>

definition magnifiedRect :: "dimensions \<Rightarrow> dimensions" where
  "magnifiedRect b =
     \<lparr>dim_top = dim_height b * Fin (5 / 100), dim_left = dim_width b * Fin (5 / 100),
      dim_width = dim_width b * Fin (90 / 100), dim_height = dim_height b * Fin (90 / 100)\<rparr>"

definition leafProps :: "layoutFrame \<Rightarrow> string \<Rightarrow> layoutNodeAdditionalProps \<Rightarrow> layoutNodeAdditionalProps" where
  "leafProps f i p =
     (let p = (if lf_magnifiedNodeId f = Some i then
                 p\<lparr>ap_transform := Some (setTransform (magnifiedRect (getBoundingRect f)) True True),
                   ap_isMagnifiedNode := True\<rparr>
               else p)
      in p\<lparr>ap_isLastMagnifiedNode := (lf_lastMagnifiedNodeId f = Some i)\<rparr>)"

section \<open>Children of an inner node\<close>

definition childRect :: "bool \<Rightarrow> dimensions \<Rightarrow> jsnum \<Rightarrow> dimensions option \<Rightarrow> jsnum \<Rightarrow> dimensions" where
  "childRect nodeIsRow nodeRect pixelToSizeRatio lastChildRect childSize =
     \<lparr>dim_top = (case lastChildRect of
                   Some l \<Rightarrow> if \<not> nodeIsRow then dim_top l + dim_height l else dim_top nodeRect
                 | None \<Rightarrow> dim_top nodeRect),
      dim_left = (case lastChildRect of
                    Some l \<Rightarrow> if nodeIsRow then dim_left l + dim_width l else dim_left nodeRect
                  | None \<Rightarrow> dim_left nodeRect),
      dim_width = (if nodeIsRow then js_div childSize pixelToSizeRatio else dim_width nodeRect),
      dim_height = (if nodeIsRow then dim_height nodeRect else js_div childSize pixelToSizeRatio)\<rparr>"

definition resizeHandleFor ::
  "layoutNode \<Rightarrow> jsnum \<Rightarrow> nat \<Rightarrow> dimensions \<Rightarrow> resizeHandleProps" where
  "resizeHandleFor n resizeHandleSizePx resizeHandleIndex lastChildRect =
     (let nodeIsRow = (node_flex n = Row);
          half = js_div resizeHandleSizePx (Fin 2);
          rect = \<lparr>dim_top = (if nodeIsRow then dim_top lastChildRect
                             else dim_top lastChildRect + dim_height lastChildRect - half),
                  dim_left = (if nodeIsRow then dim_left lastChildRect + dim_width lastChildRect - half
                              else dim_left lastChildRect),
                  dim_width = (if nodeIsRow then resizeHandleSizePx else dim_width lastChildRect),
                  dim_height = (if nodeIsRow then dim_height lastChildRect else resizeHandleSizePx)\<rparr>
      in \<lparr>rh_id = node_id n @ ''-'' @ show_nat resizeHandleIndex,
          rh_parentNodeId = node_id n,
          rh_parentIndex = resizeHandleIndex,
          rh_centerPx = (if nodeIsRow then dim_left rect else dim_top rect) + half,
          rh_transform = setTransform rect True False,
          rh_flexDirection = node_flex n\<rparr>)"

text \<open>
  The \<open>forEach\<close> over the children: the index, the rectangle of the previous child and the
  handles so far are the mutable variables of the loop.
\<close>

primrec layoutChildren ::
  "layoutFrame \<Rightarrow> layoutNode \<Rightarrow> string \<Rightarrow> dimensions \<Rightarrow> jsnum \<Rightarrow> (layoutNode \<times> jsnum) list \<Rightarrow> nat \<Rightarrow>
     dimensions option \<Rightarrow> resizeHandleProps list \<Rightarrow> additionalPropsMap \<Rightarrow>
     resizeHandleProps list \<times> additionalPropsMap" where
  "layoutChildren f n treeKey nodeRect ratio [] i lastChildRect handles props = (handles, props)"
| "layoutChildren f n treeKey nodeRect ratio (c # cs) i lastChildRect handles props =
     (let rect = childRect (node_flex n = Row) nodeRect ratio lastChildRect (snd c);
          props = map_set (node_id (fst c))
                    ((emptyProps (treeKey @ show_nat i))
                      \<lparr>ap_rect := Some rect, ap_transform := Some (setTransform rect True True)\<rparr>) props;
          handles = (case lastChildRect of
                       None \<Rightarrow> handles
                     | Some l \<Rightarrow>
                         handles @ [resizeHandleFor n (lf_resizeHandleSizePx f) (length handles) l])
      in layoutChildren f n treeKey nodeRect ratio cs (Suc i) (Some rect) handles props)"

definition updateInnerNode ::
  "layoutFrame \<Rightarrow> layoutStore \<Rightarrow> layoutNode \<Rightarrow> ref list \<Rightarrow> additionalPropsMap \<Rightarrow>
     js_error + additionalPropsMap" where
  "updateInnerNode f h n cs propsMap =
     bindR (getNode h (lf_rootNode f)) (\<lambda>rn.
     let additionalProps = (case map_get propsMap (node_id n) of
                              Some p \<Rightarrow> p | None \<Rightarrow> emptyProps ''0'') in
     case (if node_id n = node_id rn then Some (getBoundingRect f) else ap_rect additionalProps) of
       None \<Rightarrow> Inl TypeError
     | Some nodeRect \<Rightarrow>
         let nodeIsRow = (node_flex n = Row);
             nodePixels = (if nodeIsRow then dim_width nodeRect else dim_height nodeRect) in
         bindR (mapR (getNode h) cs) (\<lambda>children.
         bindR (mapR (getNodeSize (lf_resizeAction f)) children) (\<lambda>sizes.
         let totalChildrenSize = foldl (+) (Fin 0) sizes;
             pixelToSizeRatio = js_div totalChildrenSize nodePixels;
             (resizeHandles, propsMap) =
               layoutChildren f n (ap_treeKey additionalProps) nodeRect pixelToSizeRatio
                 (zip children sizes) 0 None [] propsMap
         in Inr (map_set (node_id n)
                  (additionalProps\<lparr>ap_pixelToSizeRatio := Some pixelToSizeRatio,
                                   ap_resizeHandles := Some resizeHandles\<rparr>) propsMap))))"

definition updateTreeHelper ::
  "layoutFrame \<Rightarrow> ref \<Rightarrow> propsAndLeafs walkState \<Rightarrow> (js_error + unit) \<times> propsAndLeafs walkState" where
  "updateTreeHelper f node s =
     (let (h, propsMap, leafs) = s in
      withVal (getNode h node) s (\<lambda>n.
      if node_children n = None \<or> node_children n = Some [] then
        (Inr (), (h,
          (case map_get propsMap (node_id n) of
             None \<Rightarrow> propsMap
           | Some p \<Rightarrow> map_set (node_id n) (leafProps f (node_id n) p) propsMap),
          leafs @ [node]))
      else
        withVal (updateInnerNode f h n (the (node_children n)) propsMap) s (\<lambda>propsMap.
        (Inr (), (h, propsMap, leafs)))))"

section \<open>Leaf order\<close>

text \<open>
  The leaves sorted by their tree keys. Tree keys are digits, on which \<open>localeCompare\<close> is the
  lexicographic order. A leaf without properties (the root when it is the only leaf) has no
  key; the comparison function then returns \<open>undefined\<close>, which only happens for one leaf.
\<close>

definition leafEntry :: "layoutStore \<Rightarrow> ref \<Rightarrow> js_error + leafOrderEntry" where
  "leafEntry h leaf =
     bindR (getNode h leaf) (\<lambda>n.
       case node_data n of
         None \<Rightarrow> Inl TypeError
       | Some b \<Rightarrow> Inr \<lparr>le_nodeid = node_id n, le_blockid = b\<rparr>)"

definition treeKeyOf :: "additionalPropsMap \<Rightarrow> string \<Rightarrow> string" where
  "treeKeyOf props i = (case map_get props i of None \<Rightarrow> [] | Some p \<Rightarrow> ap_treeKey p)"

definition getLeafOrder ::
  "layoutStore \<Rightarrow> ref list \<Rightarrow> additionalPropsMap \<Rightarrow> js_error + leafOrderEntry list" where
  "getLeafOrder h leafs additionalProps =
     bindR (mapR (leafEntry h) leafs) (\<lambda>entries.
       Inr (sort_key (\<lambda>e. treeKeyOf additionalProps (le_nodeid e)) entries))"

end
