(* ===== verification/LayoutModel.thy ===== *)
theory LayoutModel
  imports LayoutTree LayoutGeometry
begin

text \<open>
  The class \<open>LayoutModel\<close> (frontend/layout/lib/layoutModel.ts) and the atom it persists its
  tree state in (layoutAtom.ts). A method maps the store of nodes and the model to its result
  and the new pair. Rendering callbacks and logging are not modelled; \<open>onNodeDelete\<close> is the
  list of block ids it was called with. Atoms hold their current value; the throttled copy of
  the pending action is a field that \<open>throttleFire\<close> brings up to date.
\<close>

section \<open>The persisted state\<close>

text \<open>The layout object of the backend as layoutAtom.ts sees it, and the generation atom.\<close>

record layoutAtomState =
  la_loaded :: bool                 \<comment> \<open>the tab data, hence the layout atom, is present\<close>
  la_rootnode :: ref
  la_focusednodeid :: "string option"
  la_magnifiednodeid :: "string option"
  la_leaforder :: "leafOrderEntry list option"
  la_pending :: "layoutActionData list option"
  la_generation :: int

definition readTreeState :: "layoutAtomState \<Rightarrow> layoutTreeState option" where
  "readTreeState a =
     (if \<not> la_loaded a then None
      else Some \<lparr>rootNode = la_rootnode a, focusedNodeId = la_focusednodeid a,
                 magnifiedNodeId = la_magnifiednodeid a, leafOrder = None,
                 pendingBackendActions = la_pending a, generation = la_generation a\<rparr>)"

definition hasActions :: "layoutActionData list option \<Rightarrow> bool" where
  "hasActions p \<longleftrightarrow> (case p of None \<Rightarrow> False | Some as \<Rightarrow> as \<noteq> [])"

definition writeTreeState :: "layoutTreeState \<Rightarrow> layoutAtomState \<Rightarrow> layoutAtomState" where
  "writeTreeState v a =
     (if la_generation a < generation v \<and> la_loaded a then
        a\<lparr>la_rootnode := rootNode v, la_magnifiednodeid := magnifiedNodeId v,
          la_focusednodeid := focusedNodeId v, la_leaforder := leafOrder v,
          la_pending := (if hasActions (pendingBackendActions v) then pendingBackendActions v else None),
          la_generation := generation v\<rparr>
      else a)"

section \<open>The model\<close>

record resizeContext =
  rc_handleId :: string
  rc_pixelToSizeRatio :: jsnum
  rc_displayContainerRect :: "dimensions option"
  rc_resizeHandleStartPx :: jsnum
  rc_beforeNodeId :: string
  rc_beforeNodeStartSize :: jsnum
  rc_afterNodeId :: string
  rc_afterNodeStartSize :: jsnum

record nodeModel =
  nm_nodeId :: string
  nm_blockId :: string

definition DefaultGapSizePx :: jsnum where "DefaultGapSizePx = Fin 3"
definition MinNodeSizePx :: jsnum where "MinNodeSizePx = Fin 40"

record layoutModel =
  treeState :: layoutTreeState
  treeStateAtom :: layoutAtomState
  lastTreeStateGeneration :: int
  gapSizePx :: jsnum
  leafs :: "ref list"
  modelLeafOrder :: "leafOrderEntry list"
  nodeModels :: "(string, nodeModel) js_map"
  additionalProps :: additionalPropsMap
  pendingTreeAction :: "layoutTreeAction option"
  throttledTreeAction :: "layoutTreeAction option"
  activeDrag :: bool
  showOverlay :: bool
  displayContainer :: "dimensions option"     \<comment> \<open>\<open>displayContainerRef.current\<close>\<close>
  focusedNodeIdStack :: "string list"
  modelMagnifiedNodeId :: "string option"
  lastMagnifiedNodeId :: "string option"
  resizeCtx :: "resizeContext option"
  isContainerResizing :: bool
  deletedBlocks :: "string option list"

type_synonym modelWorld = "layoutModel walkState"

text \<open>The fields before \<open>onTreeStateAtomUpdated\<close> is called by the constructor.\<close>

definition initialLayoutModel :: "layoutAtomState \<Rightarrow> jsnum option \<Rightarrow> layoutModel" where
  "initialLayoutModel a gap =
     \<lparr>treeState = \<lparr>rootNode = undef, focusedNodeId = None, magnifiedNodeId = None,
                   leafOrder = None, pendingBackendActions = None, generation = 0\<rparr>,
      treeStateAtom = a, lastTreeStateGeneration = -1,
      gapSizePx = (case gap of None \<Rightarrow> DefaultGapSizePx | Some g \<Rightarrow> g),
      leafs = [], modelLeafOrder = [], nodeModels = [], additionalProps = [],
      pendingTreeAction = None, throttledTreeAction = None, activeDrag = False,
      showOverlay = False, displayContainer = None, focusedNodeIdStack = [],
      modelMagnifiedNodeId = None, lastMagnifiedNodeId = None, resizeCtx = None,
      isContainerResizing = False, deletedBlocks = []\<rparr>"

definition modifyModel :: "(layoutModel \<Rightarrow> layoutModel) \<Rightarrow> modelWorld \<Rightarrow> (js_error + unit) \<times> modelWorld" where
  "modifyModel f w = (Inr (), (fst w, f (snd w)))"

definition onTree :: "(treeWorld \<Rightarrow> (js_error + 'a) \<times> treeWorld) \<Rightarrow> modelWorld \<Rightarrow> (js_error + 'a) \<times> modelWorld" where
  "onTree f w =
     (let (r, (h, ts)) = f (fst w, treeState (snd w)) in (r, (h, (snd w)\<lparr>treeState := ts\<rparr>)))"

definition setPending :: "layoutTreeAction option \<Rightarrow> modelWorld \<Rightarrow> (js_error + unit) \<times> modelWorld" where
  "setPending a = modifyModel (\<lambda>m. m\<lparr>pendingTreeAction := a\<rparr>)"

definition throttleFire :: "layoutModel \<Rightarrow> layoutModel" where
  "throttleFire m = m\<lparr>throttledTreeAction := pendingTreeAction m\<rparr>"

section \<open>Derived values\<close>

definition resizeHandleSizePx :: "layoutModel \<Rightarrow> jsnum" where
  "resizeHandleSizePx m =
     Fin 2 * (if Fin 5 < gapSizePx m then gapSizePx m else DefaultGapSizePx)"

definition numLeafs :: "layoutModel \<Rightarrow> nat" where
  "numLeafs m = length (modelLeafOrder m)"

definition resizeHandles :: "layoutModel \<Rightarrow> resizeHandleProps list" where
  "resizeHandles m =
     concat (map (\<lambda>(_, p). case ap_resizeHandles p of None \<Rightarrow> [] | Some hs \<Rightarrow> hs) (additionalProps m))"

definition isResizing :: "layoutModel \<Rightarrow> bool" where
  "isResizing m \<longleftrightarrow>
     isContainerResizing m \<or>
     (case throttledTreeAction m of Some (ResizeNode _) \<Rightarrow> True | _ \<Rightarrow> False)"

definition overlayTransform :: "layoutModel \<Rightarrow> cssTransform option" where
  "overlayTransform m =
     (case displayContainer m of
        None \<Rightarrow> None
      | Some b \<Rightarrow>
          let newOverlayOffset = dim_top b + Fin 2 * dim_height b in
          Some (setTransform
            \<lparr>dim_top = (if activeDrag m \<or> showOverlay m then Fin 0 else newOverlayOffset),
             dim_left = Fin 0, dim_width = dim_width b, dim_height = dim_height b\<rparr> False True))"

definition focusedNode :: "layoutStore \<Rightarrow> layoutAtomState \<Rightarrow> js_error + ref option" where
  "focusedNode h a =
     (case readTreeState a of
        None \<Rightarrow> Inl TypeError
      | Some ts \<Rightarrow>
          (case focusedNodeId ts of
             None \<Rightarrow> Inr None
           | Some i \<Rightarrow> findNode h (rootNode ts) i))"

text \<open>The getter \<open>focusedNodeId\<close>: the top of the stack.\<close>

definition stackTop :: "layoutModel \<Rightarrow> string option" where
  "stackTop m = (case focusedNodeIdStack m of [] \<Rightarrow> None | i # _ \<Rightarrow> Some i)"

definition getNodeAdditionalPropertiesById :: "layoutModel \<Rightarrow> string \<Rightarrow> layoutNodeAdditionalProps option" where
  "getNodeAdditionalPropertiesById m i = map_get (additionalProps m) i"

definition getNodeTransformById :: "layoutModel \<Rightarrow> string \<Rightarrow> cssTransform option" where
  "getNodeTransformById m i =
     (case getNodeAdditionalPropertiesById m i of None \<Rightarrow> None | Some p \<Rightarrow> ap_transform p)"

definition getNodeRectById :: "layoutModel \<Rightarrow> string \<Rightarrow> dimensions option" where
  "getNodeRectById m i =
     (case getNodeAdditionalPropertiesById m i of None \<Rightarrow> None | Some p \<Rightarrow> ap_rect p)"

primrec nodeWithBlock :: "layoutStore \<Rightarrow> string \<Rightarrow> ref list \<Rightarrow> js_error + ref option" where
  "nodeWithBlock h blockId [] = Inr None"
| "nodeWithBlock h blockId (leaf # ls) =
     bindR (getNode h leaf) (\<lambda>n.
       case node_data n of
         None \<Rightarrow> Inl TypeError
       | Some b \<Rightarrow> if b = blockId then Inr (Some leaf) else nodeWithBlock h blockId ls)"

definition getNodeByBlockId :: "layoutStore \<Rightarrow> layoutModel \<Rightarrow> string \<Rightarrow> js_error + ref option" where
  "getNodeByBlockId h m blockId = nodeWithBlock h blockId (leafs m)"

section \<open>Updating the tree\<close>

definition inLeafOrder :: "leafOrderEntry list \<Rightarrow> string \<Rightarrow> bool" where
  "inLeafOrder lo i \<longleftrightarrow> i \<in> set (map le_nodeid lo)"

text \<open>The first loop of \<open>validateFocusedNode\<close>: stale entries and duplicates are dropped.\<close>

primrec pruneStack :: "leafOrderEntry list \<Rightarrow> string list \<Rightarrow> string list \<Rightarrow> string list" where
  "pruneStack lo [] acc = acc"
| "pruneStack lo (i # is) acc =
     pruneStack lo is (if inLeafOrder lo i \<and> i \<notin> set acc then acc @ [i] else acc)"

definition validateFocusedNode :: "leafOrderEntry list \<Rightarrow> modelWorld \<Rightarrow> (js_error + unit) \<times> modelWorld" where
  "validateFocusedNode lo w =
     (if focusedNodeId (treeState (snd w)) = stackTop (snd w) then (Inr (), w)
      else
        let stack = pruneStack lo (focusedNodeIdStack (snd w)) [] in
        andThen (modifyModel (\<lambda>m. m\<lparr>focusedNodeIdStack := stack\<rparr>) w) (\<lambda>_ w.
        andThen
          (if focusedNodeId (treeState (snd w)) = None \<or> focusedNodeId (treeState (snd w)) = Some []
           then (case stack of
                   i # is \<Rightarrow>
                     modifyModel (\<lambda>m. m\<lparr>focusedNodeIdStack := is,
                       treeState := (treeState m)\<lparr>focusedNodeId := Some i\<rparr>\<rparr>) w
                 | [] \<Rightarrow>
                     (case lo of
                        [] \<Rightarrow> (Inl TypeError, w)
                      | e # _ \<Rightarrow>
                          modifyModel (\<lambda>m. m\<lparr>treeState :=
                            (treeState m)\<lparr>focusedNodeId := Some (le_nodeid e)\<rparr>\<rparr>) w))
           else (Inr (), w)) (\<lambda>_ w.
        modifyModel (\<lambda>m. m\<lparr>focusedNodeIdStack :=
          (case focusedNodeId (treeState m) of None \<Rightarrow> [] | Some i \<Rightarrow> [i]) @ focusedNodeIdStack m\<rparr>) w)))"

definition validateMagnifiedNode ::
  "leafOrderEntry list \<Rightarrow> additionalPropsMap \<Rightarrow> layoutModel \<Rightarrow> additionalPropsMap \<times> layoutModel" where
  "validateMagnifiedNode lo addlProps m =
     (case lo of
        [lastLeaf] \<Rightarrow>
          ((case map_get addlProps (le_nodeid lastLeaf) of
              None \<Rightarrow> addlProps
            | Some p \<Rightarrow> map_set (le_nodeid lastLeaf) (p\<lparr>ap_transform := None\<rparr>) addlProps),
           m\<lparr>treeState := (treeState m)\<lparr>magnifiedNodeId := None\<rparr>, modelMagnifiedNodeId := None\<rparr>)
      | _ \<Rightarrow> (addlProps, m))"

definition cleanupNodeModels :: "leafOrderEntry list \<Rightarrow> layoutModel \<Rightarrow> layoutModel" where
  "cleanupNodeModels lo m =
     m\<lparr>nodeModels := foldl (\<lambda>nm i. map_delete i nm) (nodeModels m)
        (filter (\<lambda>i. \<not> inLeafOrder lo i) (map fst (nodeModels m)))\<rparr>"

definition frameOf :: "layoutModel \<Rightarrow> dimensions \<Rightarrow> layoutFrame" where
  "frameOf m container =
     \<lparr>lf_container = container, lf_rootNode = rootNode (treeState m),
      lf_magnifiedNodeId = modelMagnifiedNodeId m, lf_lastMagnifiedNodeId = lastMagnifiedNodeId m,
      lf_resizeHandleSizePx = resizeHandleSizePx m,
      lf_resizeAction = (case pendingTreeAction m of Some (ResizeNode ops) \<Rightarrow> Some ops | _ \<Rightarrow> None)\<rparr>"

definition leafIdKey :: "layoutStore \<Rightarrow> ref \<Rightarrow> string" where
  "leafIdKey h a = (case cells h a of None \<Rightarrow> [] | Some n \<Rightarrow> node_id n)"

definition updateTree :: "bool \<Rightarrow> modelWorld \<Rightarrow> (js_error + unit) \<times> modelWorld" where
  "updateTree balanceTree w =
     (case displayContainer (snd w) of
        None \<Rightarrow> (Inr (), w)
      | Some container \<Rightarrow>
          let f = frameOf (snd w) container;
              root = rootNode (treeState (snd w));
              callback = Some (updateTreeHelper f);
              (r, (h, (newAdditionalProps, newLeafs))) =
                (if balanceTree
                 then (let (r, s) = balanceNode root callback None (fst w, ([], [])) in
                       (case r of Inl e \<Rightarrow> Inl e | Inr _ \<Rightarrow> Inr (), s))
                 else walkNodes root callback None (fst w, ([], [])));
              w = (h, snd w)
          in withVal r w (\<lambda>_.
             withVal (getLeafOrder h newLeafs newAdditionalProps) w (\<lambda>lo.
             andThen (modifyModel (\<lambda>m. m\<lparr>treeState := (treeState m)\<lparr>leafOrder := Some lo\<rparr>\<rparr>) w) (\<lambda>_ w.
             andThen (validateFocusedNode lo w) (\<lambda>_ w.
             let (props, m) = validateMagnifiedNode lo newAdditionalProps (snd w);
                 m = cleanupNodeModels lo m in
             (Inr (), (fst w, m\<lparr>leafs := sort_key (leafIdKey h) newLeafs,
                                 modelLeafOrder := lo,
                                 additionalProps := props\<rparr>)))))))"

definition setTreeStateAtom :: "bool \<Rightarrow> modelWorld \<Rightarrow> (js_error + unit) \<times> modelWorld" where
  "setTreeStateAtom bump w =
     andThen (if bump then onTree bumpGeneration w else (Inr (), w)) (\<lambda>_ w.
     modifyModel (\<lambda>m. m\<lparr>lastTreeStateGeneration := generation (treeState m),
                         treeStateAtom := writeTreeState (treeState m) (treeStateAtom m)\<rparr>) w)"

section \<open>The reducer\<close>

text \<open>What follows the switch of \<open>treeReducer\<close>.\<close>

definition afterReduce :: "bool \<Rightarrow> modelWorld \<Rightarrow> (js_error + unit) \<times> modelWorld" where
  "afterReduce setState w =
     (if lastTreeStateGeneration (snd w) < generation (treeState (snd w)) then
        andThen
          (if modelMagnifiedNodeId (snd w) \<noteq> magnifiedNodeId (treeState (snd w)) then
             modifyModel (\<lambda>m. m\<lparr>lastMagnifiedNodeId := modelMagnifiedNodeId m,
                                 modelMagnifiedNodeId := magnifiedNodeId (treeState m)\<rparr>) w
           else (Inr (), w)) (\<lambda>_ w.
        andThen (updateTree True w) (\<lambda>_ w.
        if setState then setTreeStateAtom True w else (Inr (), w)))
      else (Inr (), w))"

text \<open>
  The pending action is itself reduced when it is committed, so the reducer is recursive; a
  pending \<open>CommitPendingAction\<close> never ends and exhausts the stack.
\<close>

primrec treeReducer_rec ::
  "nat \<Rightarrow> layoutTreeAction \<Rightarrow> bool \<Rightarrow> modelWorld \<Rightarrow> (js_error + unit) \<times> modelWorld" where
  "treeReducer_rec 0 action setState w = (Inl RangeError, w)"
| "treeReducer_rec (Suc d) action setState w =
     andThen
       (case action of
          ComputeMove nodeId nodeToMoveId direction \<Rightarrow>
            withVal (computeMoveNode (fst w) (treeState (snd w)) nodeId nodeToMoveId direction) w
              (\<lambda>a. setPending a w)
        | Move m \<Rightarrow> onTree (moveNode m) w
        | InsertNode a \<Rightarrow> onTree (insertNode a) w
        | InsertNodeAtIndex a idxs \<Rightarrow> onTree (insertNodeAtIndex a idxs) w
        | DeleteNode i \<Rightarrow> onTree (deleteNode i) w
        | Swap i j \<Rightarrow> onTree (swapNode i j) w
        | ResizeNode ops \<Rightarrow> onTree (resizeNode ops) w
        | SetPendingAction a \<Rightarrow> (case a of None \<Rightarrow> (Inr (), w) | Some _ \<Rightarrow> setPending a w)
        | ClearPendingAction \<Rightarrow> setPending None w
        | CommitPendingAction \<Rightarrow>
            (case pendingTreeAction (snd w) of
               None \<Rightarrow> (Inr (), w)
             | Some a \<Rightarrow>
                 andThen (treeReducer_rec d a True w) (\<lambda>_ w. setPending None w))
        | FocusNode i \<Rightarrow> onTree (focusNode i) w
        | MagnifyNodeToggle i \<Rightarrow> onTree (magnifyNodeToggle i) w
        | ClearTree \<Rightarrow> onTree clearTree w)
       (\<lambda>_ w. afterReduce setState w)"

definition treeReducer :: "layoutTreeAction \<Rightarrow> bool \<Rightarrow> modelWorld \<Rightarrow> (js_error + unit) \<times> modelWorld" where
  "treeReducer action setState w = treeReducer_rec (stackDepth (fst w)) action setState w"

section \<open>Operations on nodes\<close>

definition closeNode :: "string \<Rightarrow> modelWorld \<Rightarrow> (js_error + unit) \<times> modelWorld" where
  "closeNode nodeId w =
     withVal (findNode (fst w) (rootNode (treeState (snd w))) nodeId) w (\<lambda>nodeToDelete.
     case nodeToDelete of
       None \<Rightarrow> (Inr (), w)
     | Some a \<Rightarrow>
         andThen (treeReducer (DeleteNode nodeId) True w) (\<lambda>_ w.
         withVal (getNode (fst w) a) w (\<lambda>n.
         modifyModel (\<lambda>m. m\<lparr>deletedBlocks := deletedBlocks m @ [node_data n]\<rparr>) w)))"

definition closeFocusedNode :: "modelWorld \<Rightarrow> (js_error + unit) \<times> modelWorld" where
  "closeFocusedNode w =
     (case stackTop (snd w) of
        None \<Rightarrow> (Inr (), w)
      | Some i \<Rightarrow> closeNode i w)"

definition modelFocusNode :: "string \<Rightarrow> modelWorld \<Rightarrow> (js_error + unit) \<times> modelWorld" where
  "modelFocusNode nodeId w =
     (if stackTop (snd w) = Some nodeId then (Inr (), w)
      else
        withVal (findNode (fst w) (rootNode (treeState (snd w))) nodeId) w (\<lambda>found.
        case found of
          None \<Rightarrow> (Inr (), w)
        | Some _ \<Rightarrow> treeReducer (FocusNode nodeId) True w))"

definition focusFirstNode :: "modelWorld \<Rightarrow> (js_error + unit) \<times> modelWorld" where
  "focusFirstNode w =
     (case modelLeafOrder (snd w) of
        [] \<Rightarrow> (Inr (), w)
      | e # _ \<Rightarrow> modelFocusNode (le_nodeid e) w)"

definition modelMagnifyNodeToggle :: "string \<Rightarrow> modelWorld \<Rightarrow> (js_error + unit) \<times> modelWorld" where
  "modelMagnifyNodeToggle nodeId w = treeReducer (MagnifyNodeToggle nodeId) True w"

definition switchNodeFocusByBlockNum :: "int \<Rightarrow> modelWorld \<Rightarrow> (js_error + unit) \<times> modelWorld" where
  "switchNodeFocusByBlockNum newBlockNum w =
     (let newLeafIdx = newBlockNum - 1 in
      case js_at (modelLeafOrder (snd w)) newLeafIdx of
        None \<Rightarrow> (Inr (), w)
      | Some leaf \<Rightarrow> modelFocusNode (le_nodeid leaf) w)"

definition onDrop :: "modelWorld \<Rightarrow> (js_error + unit) \<times> modelWorld" where
  "onDrop w =
     (if pendingTreeAction (snd w) \<noteq> None then treeReducer CommitPendingAction True w else (Inr (), w))"

definition onContainerResize :: "modelWorld \<Rightarrow> (js_error + unit) \<times> modelWorld" where
  "onContainerResize w =
     andThen (updateTree True w) (\<lambda>_ w. modifyModel (\<lambda>m. m\<lparr>isContainerResizing := True\<rparr>) w)"

definition stopContainerResizing :: "layoutModel \<Rightarrow> layoutModel" where
  "stopContainerResizing m = m\<lparr>isContainerResizing := False\<rparr>"

definition registerTileLayout :: "jsnum option \<Rightarrow> layoutModel \<Rightarrow> layoutModel" where
  "registerTileLayout gap m = (case gap of None \<Rightarrow> m | Some g \<Rightarrow> m\<lparr>gapSizePx := g\<rparr>)"

section \<open>Resizing with the mouse\<close>

definition newResizeContext ::
  "layoutStore \<Rightarrow> layoutModel \<Rightarrow> resizeHandleProps \<Rightarrow> js_error + resizeContext option" where
  "newResizeContext h m handle =
     bindR (findNode h (rootNode (treeState m)) (rh_parentNodeId handle)) (\<lambda>parent.
     bindR (getNode h (case parent of None \<Rightarrow> undef | Some p \<Rightarrow> p)) (\<lambda>parentNode.
     case node_children parentNode of
       None \<Rightarrow> Inl TypeError
     | Some cs \<Rightarrow>
         let beforeNode = js_at cs (int (rh_parentIndex handle));
             afterNode = js_at cs (int (rh_parentIndex handle) + 1);
             ratio = (case map_get (additionalProps m) (rh_parentNodeId handle) of
                        None \<Rightarrow> None | Some p \<Rightarrow> ap_pixelToSizeRatio p) in
         (case (beforeNode, afterNode, ratio) of
            (Some b, Some a, Some r) \<Rightarrow>
              if js_truthy r then
                bindR (getNode h b) (\<lambda>bn.
                bindR (getNode h a) (\<lambda>an.
                Inr (Some \<lparr>rc_handleId = rh_id handle,
                           rc_pixelToSizeRatio = r,
                           rc_displayContainerRect = displayContainer m,
                           rc_resizeHandleStartPx = rh_centerPx handle,
                           rc_beforeNodeId = node_id bn,
                           rc_beforeNodeStartSize = node_size bn,
                           rc_afterNodeId = node_id an,
                           rc_afterNodeStartSize = node_size an\<rparr>)))
              else Inr None
          | _ \<Rightarrow> Inr None)))"

definition resizeOperationsFor ::
  "resizeContext \<Rightarrow> bool \<Rightarrow> jsnum \<Rightarrow> jsnum \<Rightarrow> resizeNodeOperation list option" where
  "resizeOperationsFor ctx parentIsRow x y =
     (let clientPoint =
            (if parentIsRow
             then x - (case rc_displayContainerRect ctx of None \<Rightarrow> NaN | Some r \<Rightarrow> dim_left r)
             else y - (case rc_displayContainerRect ctx of None \<Rightarrow> NaN | Some r \<Rightarrow> dim_top r));
          clientDiff = (rc_resizeHandleStartPx ctx - clientPoint) * rc_pixelToSizeRatio ctx;
          minNodeSize = MinNodeSizePx * rc_pixelToSizeRatio ctx;
          beforeNodeSize = rc_beforeNodeStartSize ctx - clientDiff;
          afterNodeSize = rc_afterNodeStartSize ctx + clientDiff
      in if beforeNodeSize < minNodeSize \<or> afterNodeSize < minNodeSize then None
         else Some [\<lparr>rs_nodeId = rc_beforeNodeId ctx, rs_size = beforeNodeSize\<rparr>,
                    \<lparr>rs_nodeId = rc_afterNodeId ctx, rs_size = afterNodeSize\<rparr>])"

definition onResizeMove ::
  "resizeHandleProps \<Rightarrow> jsnum \<Rightarrow> jsnum \<Rightarrow> modelWorld \<Rightarrow> (js_error + unit) \<times> modelWorld" where
  "onResizeMove handle x y w =
     (let parentIsRow = (rh_flexDirection handle = Row);
          current = (case resizeCtx (snd w) of
                       Some c \<Rightarrow> if rc_handleId c = rh_id handle then Some c else None
                     | None \<Rightarrow> None) in
      withVal (case current of
                 Some c \<Rightarrow> Inr (Some c)
               | None \<Rightarrow> newResizeContext (fst w) (snd w) handle) w (\<lambda>ctx.
      case ctx of
        None \<Rightarrow> (Inr (), w)
      | Some c \<Rightarrow>
          andThen (modifyModel (\<lambda>m. m\<lparr>resizeCtx := Some c\<rparr>) w) (\<lambda>_ w.
          case resizeOperationsFor c parentIsRow x y of
            None \<Rightarrow> (Inr (), w)
          | Some ops \<Rightarrow>
              andThen (treeReducer (SetPendingAction (Some (ResizeNode (Some ops)))) True w) (\<lambda>_ w.
              updateTree False w))))"

definition onResizeEnd :: "modelWorld \<Rightarrow> (js_error + unit) \<times> modelWorld" where
  "onResizeEnd w =
     (case resizeCtx (snd w) of
        None \<Rightarrow> (Inr (), w)
      | Some _ \<Rightarrow>
          andThen (modifyModel (\<lambda>m. m\<lparr>resizeCtx := None\<rparr>) w) (\<lambda>_ w.
          treeReducer CommitPendingAction True w))"

section \<open>Updates from the backend\<close>

definition applyBackendAction :: "layoutActionData \<Rightarrow> modelWorld \<Rightarrow> (js_error + unit) \<times> modelWorld" where
  "applyBackendAction action w =
     (case ad_type action of
        BInsertNode \<Rightarrow>
          andThen (onStore (newLayoutNode None None None (Some (ad_blockid action))) w) (\<lambda>node w.
          treeReducer (InsertNode \<lparr>ins_node = node, ins_magnified = ad_magnified action,
                                   ins_focused = ad_focused action\<rparr>) False w)
      | BDeleteNode \<Rightarrow>
          withVal (getNodeByBlockId (fst w) (snd w) (ad_blockid action)) w (\<lambda>leaf.
          case leaf of
            None \<Rightarrow> (Inr (), w)
          | Some a \<Rightarrow> withVal (getNode (fst w) a) w (\<lambda>n. closeNode (node_id n) w))
      | BInsertNodeAtIndex \<Rightarrow>
          (case ad_indexarr action of
             None \<Rightarrow> (Inr (), w)
           | Some idxs \<Rightarrow>
               andThen (onStore (newLayoutNode None (ad_nodesize action) None
                                   (Some (ad_blockid action))) w) (\<lambda>node w.
               treeReducer (InsertNodeAtIndex
                 \<lparr>ins_node = node, ins_magnified = ad_magnified action,
                  ins_focused = ad_focused action\<rparr> (Some idxs)) False w))
      | BClearTree \<Rightarrow> treeReducer ClearTree False w
      | BOther \<Rightarrow> (Inr (), w))"

definition needsUpdate :: "bool \<Rightarrow> layoutTreeState option \<Rightarrow> layoutTreeState \<Rightarrow> bool" where
  "needsUpdate force upstream own \<longleftrightarrow>
     force \<or> rootNode own = undef \<or> generation own = 0 \<or>
     (case upstream of
        None \<Rightarrow> False
      | Some ts \<Rightarrow> generation own < generation ts \<or> hasActions (pendingBackendActions ts))"

definition onTreeStateAtomUpdated :: "bool \<Rightarrow> modelWorld \<Rightarrow> (js_error + unit) \<times> modelWorld" where
  "onTreeStateAtomUpdated force w =
     (let upstream = readTreeState (treeStateAtom (snd w)) in
      if needsUpdate force upstream (treeState (snd w)) then
        (case upstream of
           None \<Rightarrow> (Inl TypeError, w)
         | Some ts \<Rightarrow>
             andThen (modifyModel (\<lambda>m. m\<lparr>treeState := ts\<rparr>) w) (\<lambda>_ w.
             if hasActions (pendingBackendActions ts) then
               andThen (modifyModel (\<lambda>m. m\<lparr>treeState :=
                          (treeState m)\<lparr>pendingBackendActions := None\<rparr>\<rparr>) w) (\<lambda>_ w.
               andThen (forEachS applyBackendAction (the (pendingBackendActions ts)) w) (\<lambda>_ w.
               setTreeStateAtom True w))
             else
               andThen (updateTree True w) (\<lambda>_ w. setTreeStateAtom force w)))
      else (Inr (), w))"

definition newLayoutModel :: "layoutAtomState \<Rightarrow> jsnum option \<Rightarrow> layoutStore \<Rightarrow> (js_error + unit) \<times> modelWorld" where
  "newLayoutModel a gap h = onTreeStateAtomUpdated True (h, initialLayoutModel a gap)"

end
