(* ===== verification/LayoutView.thy ===== *)
theory LayoutView
  imports LayoutModel
begin

text \<open>
  What the views read of the layout model (frontend/layout/lib/layoutModel.ts): the drag
  placeholder, the node models of the leaves, and the keyboard navigation between tiles.
\<close>

section \<open>The placeholder of a drag\<close>

text \<open>\<open>boundNumber\<close> of util.ts on a number that is present.\<close>

definition boundInt :: "int \<Rightarrow> int \<Rightarrow> int \<Rightarrow> int" where
  "boundInt num lo hi = min (max num lo) hi"

text \<open>\<open>children.at(i)\<close> counts a negative index from the end.\<close>

definition js_at_rel :: "'a list \<Rightarrow> int \<Rightarrow> 'a option" where
  "js_at_rel xs i = js_at xs (if i < 0 then int (length xs) + i else i)"

definition placeholderRect :: "layoutNode \<Rightarrow> int \<Rightarrow> int \<Rightarrow> dimensions \<Rightarrow> dimensions" where
  "placeholderRect parentNode index targetIndex target =
     (let isColumn = (node_flex parentNode = Column);
          isRow = (node_flex parentNode = Row);
          p = \<lparr>dim_top = dim_top target, dim_left = dim_left target,
               dim_width = (if isRow then js_div (dim_width target) (Fin 2) else dim_width target),
               dim_height = (if isColumn then js_div (dim_height target) (Fin 2)
                             else dim_height target)\<rparr>;
          count = (case node_children parentNode of None \<Rightarrow> 1 | Some cs \<Rightarrow> int (length cs));
          downShift = (if count \<le> index then js_div (dim_height target) (Fin 2)
                       else js_div (Fin 3 * dim_height target) (Fin 4));
          rightShift = (if count \<le> index then js_div (dim_width target) (Fin 2)
                        else js_div (Fin 3 * dim_width target) (Fin 4))
      in if targetIndex < index then
           p\<lparr>dim_top := dim_top p + (if isColumn then downShift else Fin 0),
             dim_left := dim_left p + (if isRow then rightShift else Fin 0)\<rparr>
         else p)"

definition movePlaceholder :: "layoutStore \<Rightarrow> layoutModel \<Rightarrow> moveOperation \<Rightarrow> js_error + cssTransform option" where
  "movePlaceholder h m action =
     bindR (if mv_insertAtRoot action
            then bindR (getNode h (rootNode (treeState m))) (\<lambda>r. Inr (Some (node_id r)))
            else Inr (mv_parentId action)) (\<lambda>parentId.
     bindR (case parentId of None \<Rightarrow> Inr None | Some p \<Rightarrow> findNode h (rootNode (treeState m)) p)
       (\<lambda>parent.
     case (mv_index action, parent) of
       (Some index, Some pref) \<Rightarrow>
         bindR (getNode h pref) (\<lambda>parentNode.
         let targetIndex = boundInt (index - 1) 0
               (case node_children parentNode of None \<Rightarrow> 0 | Some cs \<Rightarrow> int (length cs) - 1);
             target = (case node_children parentNode of
                         None \<Rightarrow> pref
                       | Some cs \<Rightarrow> (case js_at_rel cs targetIndex of None \<Rightarrow> pref | Some c \<Rightarrow> c)) in
         bindR (getNode h target) (\<lambda>targetNode.
         case getNodeRectById m (node_id targetNode) of
           None \<Rightarrow> Inl TypeError
         | Some r \<Rightarrow>
             Inr (Some (setTransform (placeholderRect parentNode index targetIndex r) True True))))
     | _ \<Rightarrow> Inr None))"

definition getPlaceholderTransform ::
  "layoutStore \<Rightarrow> layoutModel \<Rightarrow> layoutTreeAction option \<Rightarrow> js_error + cssTransform option" where
  "getPlaceholderTransform h m pendingAction =
     (case pendingAction of
        Some (Move action) \<Rightarrow> movePlaceholder h m action
      | Some (Swap node1Id node2Id) \<Rightarrow>
          (case getNodeRectById m node1Id of
             None \<Rightarrow> Inl TypeError
           | Some r \<Rightarrow> Inr (Some (setTransform r True True)))
      | _ \<Rightarrow> Inr None)"

section \<open>Node models\<close>

definition getNodeModel :: "ref \<Rightarrow> modelWorld \<Rightarrow> (js_error + nodeModel) \<times> modelWorld" where
  "getNodeModel node w =
     withVal (getNode (fst w) node) w (\<lambda>n.
     case node_data n of
       None \<Rightarrow> (Inl TypeError, w)
     | Some blockId \<Rightarrow>
         (case map_get (nodeModels (snd w)) (node_id n) of
            Some nm \<Rightarrow> (Inr nm, w)
          | None \<Rightarrow>
              let nm = \<lparr>nm_nodeId = node_id n, nm_blockId = blockId\<rparr> in
              andThen (modifyModel (\<lambda>m. m\<lparr>nodeModels := map_set (node_id n) nm (nodeModels m)\<rparr>) w)
                (\<lambda>_ w. (Inr nm, w))))"

text \<open>\<open>innerRect\<close>: the width and height of the CSS expression \<open>w - gap px\<close>, with the gap.\<close>

definition innerRect :: "layoutModel \<Rightarrow> nodeModel \<Rightarrow> js_error + ((jsnum option \<times> jsnum option) \<times> jsnum) option" where
  "innerRect m nm =
     (case getNodeAdditionalPropertiesById m (nm_nodeId nm) of
        None \<Rightarrow> Inr None
      | Some p \<Rightarrow>
          if 1 < numLeafs m \<and> ap_rect p \<noteq> None then
            (case ap_transform p of
               None \<Rightarrow> Inl TypeError
             | Some t \<Rightarrow> Inr (Some ((css_width t, css_height t), gapSizePx m)))
          else Inr None)"

definition blockNum :: "layoutModel \<Rightarrow> nodeModel \<Rightarrow> int" where
  "blockNum m nm = js_find_index (\<lambda>e. le_nodeid e = nm_nodeId nm) (modelLeafOrder m) + 1"

definition nodeIsFocused :: "layoutAtomState \<Rightarrow> nodeModel \<Rightarrow> bool" where
  "nodeIsFocused a nm \<longleftrightarrow> la_focusednodeid a = Some (nm_nodeId nm)"

definition nodeIsMagnified :: "layoutAtomState \<Rightarrow> nodeModel \<Rightarrow> bool" where
  "nodeIsMagnified a nm \<longleftrightarrow> la_magnifiednodeid a = Some (nm_nodeId nm)"

section \<open>Navigation\<close>

definition inRect :: "dimensions \<Rightarrow> point \<Rightarrow> bool" where
  "inRect r p \<longleftrightarrow>
     dim_left r \<le> pt_x p \<and> pt_x p \<le> dim_left r + dim_width r \<and>
     dim_top r \<le> pt_y p \<and> pt_y p \<le> dim_top r + dim_height r"

primrec findNodeAtPoint :: "(string \<times> dimensions) list \<Rightarrow> point \<Rightarrow> string option" where
  "findNodeAtPoint [] p = None"
| "findNodeAtPoint (b # bs) p = (if inRect (snd b) p then Some (fst b) else findNodeAtPoint bs p)"

text \<open>
  The \<open>while (true)\<close> loop: \<open>None\<close> is "does not return", which happens when a coordinate is
  NaN; \<open>Some None\<close> leaves the container without meeting a tile.
\<close>

definition advance :: "point \<Rightarrow> point \<Rightarrow> point" where
  "advance offset p =
     \<lparr>pt_x = pt_x p + pt_x offset * Fin 10, pt_y = pt_y p + pt_y offset * Fin 10\<rparr>"

definition outside :: "jsnum \<Rightarrow> jsnum \<Rightarrow> point \<Rightarrow> bool" where
  "outside maxX maxY p \<longleftrightarrow> pt_x p < Fin 0 \<or> maxX < pt_x p \<or> pt_y p < Fin 0 \<or> maxY < pt_y p"

partial_function (option) navigationLoop ::
  "(string \<times> dimensions) list \<Rightarrow> jsnum \<Rightarrow> jsnum \<Rightarrow> point \<Rightarrow> point \<Rightarrow> string option option" where
  "navigationLoop positions maxX maxY offset curPoint =
     (let p = advance offset curPoint in
      if outside maxX maxY p then Some None
      else case findNodeAtPoint positions p of
        Some nodeId \<Rightarrow> Some (Some nodeId)
      | None \<Rightarrow> navigationLoop positions maxX maxY offset p)"

definition nodePositions :: "layoutStore \<Rightarrow> layoutModel \<Rightarrow> js_error + (string, dimensions) js_map" where
  "nodePositions h m =
     bindR (mapR (getNode h) (leafs m)) (\<lambda>ns.
       Inr (foldl (\<lambda>positions n.
              case getNodeRectById m (node_id n) of
                None \<Rightarrow> positions
              | Some pos \<Rightarrow> map_set (node_id n) pos positions) [] ns))"

text \<open>The outer \<open>option\<close> of the result is again \<open>None\<close> when the loop does not return.\<close>

definition switchNodeFocusInDirection ::
  "navigateDirection \<Rightarrow> modelWorld \<Rightarrow> ((js_error + unit) \<times> modelWorld) option" where
  "switchNodeFocusInDirection direction w =
     (case stackTop (snd w) of
        None \<Rightarrow>
          (case modelLeafOrder (snd w) of
             [] \<Rightarrow> Some (Inl TypeError, w)
           | e # _ \<Rightarrow> Some (modelFocusNode (le_nodeid e) w))
      | Some curNodeId \<Rightarrow>
          if curNodeId = [] then
            (case modelLeafOrder (snd w) of
               [] \<Rightarrow> Some (Inl TypeError, w)
             | e # _ \<Rightarrow> Some (modelFocusNode (le_nodeid e) w))
          else
            (case nodePositions (fst w) (snd w) of
               Inl e \<Rightarrow> Some (Inl e, w)
             | Inr positions \<Rightarrow>
                 (case map_get positions curNodeId of
                    None \<Rightarrow> Some (Inr (), w)
                  | Some curNodePos \<Rightarrow>
                      (case displayContainer (snd w) of
                         None \<Rightarrow> Some (Inl TypeError, w)
                       | Some b \<Rightarrow>
                           map_option (\<lambda>hit.
                             (case hit of
                                None \<Rightarrow> (Inr (), w)
                              | Some nodeId \<Rightarrow> modelFocusNode nodeId w))
                             (navigationLoop (map_delete curNodeId positions)
                                (dim_left b + dim_width b) (dim_top b + dim_height b)
                                (navigateDirectionToOffset direction) (getCenter curNodePos))))))"

end
