(* ===== verification/LayoutSpec.thy ===== *)
theory LayoutSpec
  imports LayoutTree
begin

text \<open>
  The abstract layout tree: what the nodes reachable from a reference of the store look like
  when they are not shared. The store represents a tree when the cell at the reference of
  every subtree holds the node of that subtree; the operations of layoutNode.ts and
  layoutTree.ts are then functions on trees. The reference and identifier of a node are kept
  in the tree, since the code compares both.
\<close>

section \<open>Trees\<close>

datatype ltree =
    Leaf ref string string flexDirection jsnum
  | Split ref string flexDirection jsnum "ltree list"

fun t_ref :: "ltree \<Rightarrow> ref" where
  "t_ref (Leaf a _ _ _ _) = a"
| "t_ref (Split a _ _ _ _) = a"

fun t_id :: "ltree \<Rightarrow> string" where
  "t_id (Leaf _ i _ _ _) = i"
| "t_id (Split _ i _ _ _) = i"

fun t_flex :: "ltree \<Rightarrow> flexDirection" where
  "t_flex (Leaf _ _ _ f _) = f"
| "t_flex (Split _ _ f _ _) = f"

fun t_size :: "ltree \<Rightarrow> jsnum" where
  "t_size (Leaf _ _ _ _ s) = s"
| "t_size (Split _ _ _ s _) = s"

fun kids :: "ltree \<Rightarrow> ltree list" where
  "kids (Leaf _ _ _ _ _) = []"
| "kids (Split _ _ _ _ ts) = ts"

fun is_split :: "ltree \<Rightarrow> bool" where
  "is_split (Leaf _ _ _ _ _) = False"
| "is_split (Split _ _ _ _ _) = True"

text \<open>The subtrees in preorder, and what is read off them.\<close>

fun subtrees :: "ltree \<Rightarrow> ltree list" where
  "subtrees (Leaf a i b f s) = [Leaf a i b f s]"
| "subtrees (Split a i f s ts) = Split a i f s ts # concat (map subtrees ts)"

definition refs :: "ltree \<Rightarrow> ref list" where
  "refs t = map t_ref (subtrees t)"

definition ids :: "ltree \<Rightarrow> string list" where
  "ids t = map t_id (subtrees t)"

text \<open>The leaves from left to right, as the entries of a leaf order.\<close>

fun leaves :: "ltree \<Rightarrow> leafOrderEntry list" where
  "leaves (Leaf _ i b _ _) = [\<lparr>le_nodeid = i, le_blockid = b\<rparr>]"
| "leaves (Split _ _ _ _ ts) = concat (map leaves ts)"

fun height :: "ltree \<Rightarrow> nat" where
  "height (Leaf _ _ _ _ _) = 1"
| "height (Split _ _ _ _ ts) = Suc (foldr max (map height ts) 0)"

lemma height_kid: "c \<in> set (kids t) \<Longrightarrow> height c < height t"
proof (cases t)
  case (Split a i f s ts)
  have el: "x \<in> set ms \<Longrightarrow> x \<le> foldr max ms 0" for ms :: "nat list" and x
    by (induction ms) auto
  assume "c \<in> set (kids t)"
  then have "height c \<le> foldr max (map height ts) 0"
    using Split by (intro el) auto
  with Split show ?thesis by simp
qed simp

lemma height_pos [simp]: "0 < height t"
  by (cases t) auto

lemma subtrees_unfold: "subtrees t = t # concat (map subtrees (kids t))"
  by (cases t) auto

lemma self_in_subtrees [simp]: "t \<in> set (subtrees t)"
  by (subst subtrees_unfold) simp

lemma refs_unfold: "refs t = t_ref t # concat (map refs (kids t))"
  unfolding refs_def by (subst subtrees_unfold) (simp add: map_concat o_def)

lemma ids_unfold: "ids t = t_id t # concat (map ids (kids t))"
  unfolding ids_def by (subst subtrees_unfold) (simp add: map_concat o_def)

lemma refs_simps [simp]:
  "refs (Leaf a i b f s) = [a]"
  "refs (Split a i f s ts) = a # concat (map refs ts)"
  by (subst refs_unfold, simp)+

lemma ids_simps [simp]:
  "ids (Leaf a i b f s) = [i]"
  "ids (Split a i f s ts) = i # concat (map ids ts)"
  by (subst ids_unfold, simp)+

lemma root_in [simp]: "t_ref t \<in> set (refs t)" "t_id t \<in> set (ids t)"
  by (simp_all add: refs_def ids_def)

lemma subtree_trans: "s \<in> set (subtrees t) \<Longrightarrow> r \<in> set (subtrees s) \<Longrightarrow> r \<in> set (subtrees t)"
  by (induction t) auto

lemma kid_subtree: "c \<in> set (kids s) \<Longrightarrow> s \<in> set (subtrees t) \<Longrightarrow> c \<in> set (subtrees t)"
  by (rule subtree_trans [of s], assumption) (subst subtrees_unfold, force)

lemma leaves_ids: "set (map le_nodeid (leaves t)) \<subseteq> set (ids t)"
  by (induction t) auto

lemma ltree_kids_induct [case_names step]:
  assumes "\<And>t. (\<And>c. c \<in> set (kids t) \<Longrightarrow> P c) \<Longrightarrow> P t"
  shows "P t"
proof (induction t)
  case (Leaf a i b f s)
  show ?case by (rule assms) simp
next
  case (Split a i f s ts)
  show ?case by (rule assms) (use Split in simp)
qed

section \<open>Representation\<close>

fun node_of :: "ltree \<Rightarrow> layoutNode" where
  "node_of (Leaf a i b f s) =
     \<lparr>node_id = i, node_data = Some b, node_children = None, node_flex = f, node_size = s\<rparr>"
| "node_of (Split a i f s ts) =
     \<lparr>node_id = i, node_data = None, node_children = Some (map t_ref ts), node_flex = f, node_size = s\<rparr>"

definition represents :: "layoutStore \<Rightarrow> ltree \<Rightarrow> bool" where
  "represents h t \<longleftrightarrow> (\<forall>s \<in> set (subtrees t). cells h (t_ref s) = Some (node_of s))"

lemma node_of_simps [simp]:
  "node_id (node_of t) = t_id t"
  "node_flex (node_of t) = t_flex t"
  "node_size (node_of t) = t_size t"
  by (cases t; simp)+

lemma node_children_node_of:
  "node_children (node_of t) = (if is_split t then Some (map t_ref (kids t)) else None)"
  by (cases t) auto

lemma represents_unfold:
  "represents h t \<longleftrightarrow> cells h (t_ref t) = Some (node_of t) \<and> (\<forall>c \<in> set (kids t). represents h c)"
  unfolding represents_def by (subst subtrees_unfold) auto

lemma represents_Leaf:
  "represents h (Leaf a i b f s) \<longleftrightarrow> cells h a = Some (node_of (Leaf a i b f s))"
  by (simp add: represents_def)

lemma represents_Split:
  "represents h (Split a i f s ts) \<longleftrightarrow>
    cells h a = Some (node_of (Split a i f s ts)) \<and> (\<forall>c \<in> set ts. represents h c)"
  by (subst represents_unfold) simp

lemma represents_root: "represents h t \<Longrightarrow> cells h (t_ref t) = Some (node_of t)"
  by (simp add: represents_def)

lemma represents_subtree: "represents h t \<Longrightarrow> s \<in> set (subtrees t) \<Longrightarrow> represents h s"
  by (auto simp: represents_def intro: subtree_trans)

lemma represents_kid: "represents h t \<Longrightarrow> c \<in> set (kids t) \<Longrightarrow> represents h c"
  by (simp add: represents_unfold [of h t])

text \<open>A write outside a tree does not change it.\<close>

lemma represents_cong:
  "(\<And>a. a \<in> set (refs t) \<Longrightarrow> cells h' a = cells h a) \<Longrightarrow> represents h' t \<longleftrightarrow> represents h t"
  by (auto simp: represents_def refs_def)

lemma represents_setNode: "a \<notin> set (refs t) \<Longrightarrow> represents (setNode a n h) t \<longleftrightarrow> represents h t"
  by (rule represents_cong) auto

lemma represents_not_undef: "wf_store h \<Longrightarrow> represents h t \<Longrightarrow> undef \<notin> set (refs t)"
  by (auto simp: represents_def refs_def wf_store_def dest!: bspec)

lemma represents_ref_not_undef: "wf_store h \<Longrightarrow> represents h t \<Longrightarrow> t_ref t \<noteq> undef"
  by (metis represents_not_undef root_in(1))

section \<open>Search\<close>

text \<open>The first subtree in preorder with an identifier; the parent of such a node.\<close>

primrec first_some :: "('a \<Rightarrow> 'b option) \<Rightarrow> 'a list \<Rightarrow> 'b option" where
  "first_some f [] = None"
| "first_some f (x # xs) = (case f x of Some y \<Rightarrow> Some y | None \<Rightarrow> first_some f xs)"

definition find_sub :: "string \<Rightarrow> ltree \<Rightarrow> ltree option" where
  "find_sub i t = find (\<lambda>s. t_id s = i) (subtrees t)"

lemma find_append: "find P (xs @ ys) = (case find P xs of None \<Rightarrow> find P ys | Some y \<Rightarrow> Some y)"
  by (induction xs) auto

lemma find_concat_map: "find P (concat (map f xs)) = first_some (\<lambda>x. find P (f x)) xs"
  by (induction xs) (auto simp: find_append split: option.splits)

lemma find_sub_unfold:
  "find_sub i t = (if t_id t = i then Some t else first_some (find_sub i) (kids t))"
  unfolding find_sub_def
  by (subst subtrees_unfold) (simp add: find_concat_map)

lemma find_sub_Some: "find_sub i t = Some s \<Longrightarrow> s \<in> set (subtrees t) \<and> t_id s = i"
  by (auto simp: find_sub_def find_Some_iff)

lemma find_sub_None: "find_sub i t = None \<longleftrightarrow> i \<notin> set (ids t)"
  by (auto simp: find_sub_def find_None_iff ids_def)

lemma firstFound_map:
  "(\<And>x. x \<in> set xs \<Longrightarrow> f (r x) = Inr (map_option g (p x))) \<Longrightarrow>
    firstFound f (map r xs) = Inr (map_option g (first_some p xs))"
  by (induction xs) (auto split: option.splits)

lemma findNode_rec_correct:
  assumes "represents h t" "wf_store h" "height t \<le> d"
  shows "findNode_rec d h i (t_ref t) = Inr (map_option t_ref (find_sub i t))"
  using assms
proof (induction t arbitrary: d rule: ltree_kids_induct)
  case (step t)
  obtain d' where d: "d = Suc d'" using step.prems(3) height_pos [of t] by (cases d) auto
  have cell: "cells h (t_ref t) = Some (node_of t)" and nz: "t_ref t \<noteq> undef"
    using step.prems represents_root represents_ref_not_undef by auto
  have kid: "findNode_rec d' h i (t_ref c) = Inr (map_option t_ref (find_sub i c))"
    if c: "c \<in> set (kids t)" for c
  proof (rule step.IH [OF c])
    show "height c \<le> d'" using height_kid [OF c] step.prems(3) d by simp
  qed (use c step.prems represents_kid in auto)
  have "firstFound (findNode_rec d' h i) (map t_ref (kids t)) =
      Inr (map_option t_ref (first_some (find_sub i) (kids t)))"
    by (rule firstFound_map) (rule kid)
  then show ?case
    by (subst find_sub_unfold) (simp add: d nz getNode_Some [OF cell] node_children_node_of, cases t, auto)
qed

lemma findNode_correct:
  "represents h t \<Longrightarrow> wf_store h \<Longrightarrow> height t \<le> stackDepth h \<Longrightarrow>
    findNode h (t_ref t) i = Inr (map_option t_ref (find_sub i t))"
  by (simp add: findNode_def findNode_rec_correct)

text \<open>The parent, as the walk of \<open>findParent\<close> meets it.\<close>

fun parent_walk :: "string \<Rightarrow> ltree \<Rightarrow> ltree option"
and parent_walks :: "string \<Rightarrow> ltree \<Rightarrow> ltree list \<Rightarrow> ltree option" where
  "parent_walk i (Leaf a j b f s) = None"
| "parent_walk i (Split a j f s ts) = (if j = i then None else parent_walks i (Split a j f s ts) ts)"
| "parent_walks i p [] = None"
| "parent_walks i p (c # cs) =
     (if t_id c = i then Some p
      else case parent_walk i c of Some r \<Rightarrow> Some r | None \<Rightarrow> parent_walks i p cs)"

lemma findParent_rec_walk:
  shows "represents h t \<Longrightarrow> height t \<le> d \<Longrightarrow>
      findParent_rec d h i (t_ref t) = Inr (map_option t_ref (parent_walk i t))"
    and "(\<And>c. c \<in> set cs \<Longrightarrow> represents h c \<and> height c \<le> d) \<Longrightarrow>
      firstFound (\<lambda>child. bindR (getNode h child) (\<lambda>c.
        if node_id c = i then Inr (Some (t_ref p)) else findParent_rec d h i child)) (map t_ref cs) =
      Inr (map_option t_ref (parent_walks i p cs))"
proof (induction i t and i p cs arbitrary: d and d rule: parent_walk_parent_walks.induct)
  case (1 i a j b f s)
  then have "cells h a = Some (node_of (Leaf a j b f s))" by (simp add: represents_Leaf)
  with 1 show ?case by (cases d) (auto simp: getNode_Some)
next
  case (2 i a j f s ts)
  obtain d' where d: "d = Suc d'" using "2.prems"(2) by (cases d) auto
  have cell: "cells h a = Some (node_of (Split a j f s ts))"
    using "2.prems"(1) by (simp add: represents_Split)
  have kid: "represents h c \<and> height c \<le> d'" if "c \<in> set ts" for c
    using that "2.prems" height_kid [of c "Split a j f s ts"] d by (auto simp: represents_Split)
  have "firstFound (\<lambda>child. bindR (getNode h child) (\<lambda>c.
        if node_id c = i then Inr (Some a) else findParent_rec d' h i child)) (map t_ref ts) =
      Inr (map_option t_ref (parent_walks i (Split a j f s ts) ts))"
    if "j \<noteq> i" using "2.IH" [OF that, OF kid] by (simp cong: if_cong)
  then show ?case by (simp add: d getNode_Some [OF cell])
next
  case (4 i p c cs)
  have c: "represents h c" "height c \<le> d" using "4.prems" by auto
  have cell: "getNode h (t_ref c) = Inr (node_of c)"
    using c represents_root by (auto intro: getNode_Some)
  show ?case
    using "4.IH" "4.prems" c by (auto simp: cell split: option.splits)
qed simp

lemma findParent_walk:
  "represents h t \<Longrightarrow> height t \<le> stackDepth h \<Longrightarrow>
    findParent h (t_ref t) i = Inr (map_option t_ref (parent_walk i t))"
  by (simp add: findParent_def findParent_rec_walk)

lemma parent_walk_Some:
  shows "parent_walk i t = Some p \<Longrightarrow>
      p \<in> set (subtrees t) \<and> is_split p \<and> (\<exists>c \<in> set (kids p). t_id c = i)"
    and "parent_walks i q cs = Some p \<Longrightarrow>
      (p = q \<and> (\<exists>c \<in> set cs. t_id c = i)) \<or>
      (\<exists>c \<in> set cs. p \<in> set (subtrees c) \<and> is_split p \<and> (\<exists>c \<in> set (kids p). t_id c = i))"
  by (induction i t and i q cs rule: parent_walk_parent_walks.induct)
    (auto split: if_splits option.splits)

lemma parent_walk_None:
  shows "parent_walk i t = None \<longleftrightarrow> t_id t = i \<or> i \<notin> set (ids t)"
    and "parent_walks i q cs = None \<longleftrightarrow> (\<forall>c \<in> set cs. i \<notin> set (ids c))"
proof (induction i t and i q cs rule: parent_walk_parent_walks.induct)
  case (4 i p c cs)
  show ?case
  proof (cases "t_id c = i")
    case True
    then show ?thesis using root_in(2) [of c] by auto
  next
    case False
    with 4 show ?thesis by (cases "parent_walk i c") auto
  qed
qed auto

section \<open>Editing\<close>

text \<open>Apply a function to the subtree at a reference.\<close>

fun edit :: "ref \<Rightarrow> (ltree \<Rightarrow> ltree) \<Rightarrow> ltree \<Rightarrow> ltree" where
  "edit a g (Leaf b i d f s) = (if b = a then g (Leaf b i d f s) else Leaf b i d f s)"
| "edit a g (Split b i f s ts) =
     (if b = a then g (Split b i f s ts) else Split b i f s (map (edit a g) ts))"

lemma edit_root: "edit (t_ref t) g t = g t"
  by (cases t) auto

lemma edit_outside: "a \<notin> set (refs t) \<Longrightarrow> edit a g t = t"
  by (induction t) (auto intro!: map_idI)

lemma subtree_by_ref:
  "distinct (refs t) \<Longrightarrow> r \<in> set (subtrees t) \<Longrightarrow> s \<in> set (subtrees t) \<Longrightarrow> t_ref r = t_ref s \<Longrightarrow> r = s"
  by (auto simp: refs_def distinct_map inj_on_def)

lemma subtree_by_id:
  "distinct (ids t) \<Longrightarrow> r \<in> set (subtrees t) \<Longrightarrow> s \<in> set (subtrees t) \<Longrightarrow> t_id r = t_id s \<Longrightarrow> r = s"
  by (auto simp: ids_def distinct_map inj_on_def)

lemma subtree_refs: "s \<in> set (subtrees t) \<Longrightarrow> set (refs s) \<subseteq> set (refs t)"
  by (auto simp: refs_def intro: subtree_trans)

lemma subtree_ids: "s \<in> set (subtrees t) \<Longrightarrow> set (ids s) \<subseteq> set (ids t)"
  by (auto simp: ids_def intro: subtree_trans)

lemma kid_refs: "c \<in> set (kids t) \<Longrightarrow> set (refs c) \<subseteq> set (refs t)"
  by (subst refs_unfold [of t]) auto

lemma distinct_concat_map_elem: "distinct (concat (map f xs)) \<Longrightarrow> x \<in> set xs \<Longrightarrow> distinct (f x)"
  by (induction xs) auto

lemma distinct_concat_map_disjoint:
  "distinct (concat (map f xs)) \<Longrightarrow> x \<in> set xs \<Longrightarrow> y \<in> set xs \<Longrightarrow> x \<noteq> y \<Longrightarrow>
    set (f x) \<inter> set (f y) = {}"
  by (induction xs) auto

lemma kids_disjoint:
  "distinct (refs t) \<Longrightarrow> c \<in> set (kids t) \<Longrightarrow> d \<in> set (kids t) \<Longrightarrow> c \<noteq> d \<Longrightarrow>
    set (refs c) \<inter> set (refs d) = {}"
  by (subst (asm) refs_unfold) (auto dest: distinct_concat_map_disjoint)

lemma distinct_refs_kid: "distinct (refs t) \<Longrightarrow> c \<in> set (kids t) \<Longrightarrow> distinct (refs c)"
  by (subst (asm) refs_unfold) (auto dest: distinct_concat_map_elem)

lemma distinct_ids_kid: "distinct (ids t) \<Longrightarrow> c \<in> set (kids t) \<Longrightarrow> distinct (ids c)"
  by (subst (asm) ids_unfold) (auto dest: distinct_concat_map_elem)

lemma root_ref_not_in_kid: "distinct (refs t) \<Longrightarrow> c \<in> set (kids t) \<Longrightarrow> t_ref t \<notin> set (refs c)"
  by (subst (asm) refs_unfold) auto

lemma root_id_not_in_kid: "distinct (ids t) \<Longrightarrow> c \<in> set (kids t) \<Longrightarrow> t_id t \<notin> set (ids c)"
  by (subst (asm) ids_unfold) auto

text \<open>
  The frame rule: when a write changes the cells of one subtree only, and these then represent
  the edited subtree, the store represents the edited tree.
\<close>

lemma represents_edit:
  assumes "represents h t" "distinct (refs t)" "s \<in> set (subtrees t)"
    and same: "\<And>a. a \<in> set (refs t) \<Longrightarrow> a \<notin> set (refs s) \<Longrightarrow> cells h' a = cells h a"
    and new: "represents h' (g s)" "t_ref (g s) = t_ref s"
  shows "represents h' (edit (t_ref s) g t)"
  using assms(1-4)
proof (induction t rule: ltree_kids_induct)
  case (step t)
  show ?case
  proof (cases "t_ref t = t_ref s")
    case True
    then have "s = t" using step.prems subtree_by_ref by (metis self_in_subtrees)
    then show ?thesis using new by (simp add: edit_root)
  next
    case False
    then obtain b i f z ts where t: "t = Split b i f z ts"
      using step.prems by (cases t) auto
    with False step.prems obtain c0 where c0: "c0 \<in> set ts" "s \<in> set (subtrees c0)" by auto
    have ref: "t_ref (edit (t_ref s) g c) = t_ref c" if "c \<in> set ts" for c
    proof (cases "t_ref c = t_ref s")
      case True
      have "c \<in> set (subtrees t)" using that t kid_subtree by fastforce
      then have "c = s" using True step.prems subtree_by_ref by metis
      then show ?thesis using new(2) by (simp add: edit_root)
    qed (cases c; simp)
    have root: "cells h' b = cells h b"
    proof (rule step.prems(4))
      show "b \<notin> set (refs s)"
        using root_ref_not_in_kid [OF step.prems(2), of c0] c0 t subtree_refs by fastforce
    qed (simp add: t)
    have "represents h' (edit (t_ref s) g c)" if c: "c \<in> set ts" for c
    proof (cases "s \<in> set (subtrees c)")
      case True
      show ?thesis
      proof (rule step.IH)
        show "distinct (refs c)" using distinct_refs_kid [OF step.prems(2), of c] c t by simp
        show "cells h' a = cells h a" if "a \<in> set (refs c)" "a \<notin> set (refs s)" for a
          using that step.prems(4) kid_refs [of c t] c t by auto
      qed (use c t True step.prems represents_kid in auto)
    next
      case False
      then have ne: "c \<noteq> c0" using c0 by auto
      have disj: "set (refs c) \<inter> set (refs c0) = {}"
        using kids_disjoint [OF step.prems(2), of c c0] t c c0 ne by simp
      have out: "t_ref s \<notin> set (refs c)" and no: "set (refs c) \<inter> set (refs s) = {}"
        using disj subtree_refs [OF c0(2)] root_in(1) [of s] by blast+
      then have "represents h' c \<longleftrightarrow> represents h c"
        using step.prems(4) kid_refs [of c t] c t no by (intro represents_cong) auto
      then show ?thesis using step.prems(1) c t by (simp add: edit_outside [OF out] represents_Split)
    qed
    then show ?thesis
      using False root step.prems(1) ref by (simp add: t represents_Split cong: map_cong)
  qed
qed

end
