(* ===== verification/LayoutEdit.thy ===== *)
theory LayoutEdit
  imports LayoutSpec "HOL-Library.Sublist"
begin

text \<open>
  The operations of layoutTree.ts on the abstract tree: deletion, resizing, swapping and
  insertion of a node, each with the proof that the operation on the store implements it.
\<close>

section \<open>Worlds\<close>

text \<open>
  The states the operations are about: the tree state points to the root of a tree that the
  store represents without sharing, identifiers are unique, and the call stack is deep enough
  for a walk down the tree.
\<close>

definition tree_world :: "treeWorld \<Rightarrow> ltree \<Rightarrow> bool" where
  "tree_world w t \<longleftrightarrow>
     wf_store (fst w) \<and> represents (fst w) t \<and> distinct (refs t) \<and> distinct (ids t) \<and>
     height t \<le> stackDepth (fst w) \<and> rootNode (snd w) = t_ref t"

lemma tree_worldD:
  assumes "tree_world w t"
  shows "wf_store (fst w)" "represents (fst w) t" "distinct (refs t)" "distinct (ids t)"
    "height t \<le> stackDepth (fst w)" "rootNode (snd w) = t_ref t" "t_ref t \<noteq> undef"
    "getNode (fst w) (t_ref t) = Inr (node_of t)"
  using assms represents_ref_not_undef represents_root by (auto simp: tree_world_def)

lemma tree_world_findNode:
  "tree_world w t \<Longrightarrow> findNode (fst w) (t_ref t) i = Inr (map_option t_ref (find_sub i t))"
  by (intro findNode_correct tree_worldD)

lemma tree_world_findParent:
  "tree_world w t \<Longrightarrow> findParent (fst w) (t_ref t) i = Inr (map_option t_ref (parent_walk i t))"
  by (intro findParent_walk tree_worldD)

lemma distinct_subtree:
  "s \<in> set (subtrees t) \<Longrightarrow> distinct (refs t) \<Longrightarrow> distinct (refs s)"
  "s \<in> set (subtrees t) \<Longrightarrow> distinct (ids t) \<Longrightarrow> distinct (ids s)"
  by (induction t) (auto dest: distinct_concat_map_elem)

lemma distinct_concat_heads:
  "distinct (concat (map f xs)) \<Longrightarrow> (\<And>x. g x \<in> set (f x)) \<Longrightarrow> distinct (map g xs)"
proof (induction xs)
  case (Cons x xs)
  have "g x \<noteq> g y" if "y \<in> set xs" for y
    using that Cons.prems(1) Cons.prems(2) [of x] Cons.prems(2) [of y] by auto
  with Cons show ?case by auto
qed simp

lemma distinct_kid_ids: "distinct (ids p) \<Longrightarrow> distinct (map t_id (kids p))"
  by (rule distinct_concat_heads [where f = ids]) (simp_all add: ids_unfold [of p])

lemma js_find_index_at:
  assumes "distinct (map f cs)" "c \<in> set cs"
  shows "js_at cs (js_find_index (\<lambda>d. f d = f c) cs) = Some c"
proof -
  have ne: "js_find_index (\<lambda>d. f d = f c) cs \<noteq> -1" using assms(2) by auto
  note found = js_find_index_nth [OF ne]
  then have "cs ! nat (js_find_index (\<lambda>d. f d = f c) cs) = c"
    using assms by (auto simp: distinct_map inj_on_def)
  with found show ?thesis by (simp add: js_at_Some)
qed

lemma onStore_Pair: "onStore f (h, u) = (case f h of (r, h') \<Rightarrow> (r, (h', u)))"
  by (simp add: onStore_def)

lemma childIndex_represents:
  "(\<And>c. c \<in> set cs \<Longrightarrow> represents h c) \<Longrightarrow>
    childIndex h i (map t_ref cs) = Inr (js_find_index (\<lambda>c. t_id c = i) cs)"
proof (induction cs)
  case (Cons c cs)
  then have "cells h (t_ref c) = Some (node_of c)" using represents_root by auto
  with Cons show ?case by (simp add: Let_def getNode_def)
qed simp

lemma indexIn_represents:
  "represents h p \<Longrightarrow> is_split p \<Longrightarrow>
    indexIn h (t_ref p) i = Inr (js_find_index (\<lambda>c. t_id c = i) (kids p))"
  unfolding indexIn_def
  using childIndex_represents [of "kids p" h i] represents_root [of h p] represents_kid [of h p]
  by (cases p) (auto simp: getNode_Some)

lemma js_splice_out_filter:
  "distinct (map f cs) \<Longrightarrow> v \<in> f ` set cs \<Longrightarrow>
    js_splice_out (js_find_index (\<lambda>c. f c = v) cs) cs = filter (\<lambda>c. f c \<noteq> v) cs"
proof (induction cs)
  case (Cons c cs)
  show ?case
  proof (cases "f c = v")
    case True
    with Cons.prems have "v \<notin> f ` set cs" by auto
    then have "filter (\<lambda>c. f c \<noteq> v) cs = cs" by (auto intro: filter_True)
    with True show ?thesis by (simp add: js_splice_out_def)
  next
    case False
    with Cons have IH: "js_splice_out (js_find_index (\<lambda>c. f c = v) cs) cs = filter (\<lambda>c. f c \<noteq> v) cs"
      and ne: "js_find_index (\<lambda>c. f c = v) cs \<noteq> -1" by auto
    have "0 \<le> js_find_index (\<lambda>c. f c = v) cs"
      using ne js_find_index_bounds [of "\<lambda>c. f c = v" cs] by linarith
    with False ne IH show ?thesis by (simp add: js_splice_out_def nat_add_distrib)
  qed
qed simp

section \<open>Deleting a node\<close>

fun remove_id :: "string \<Rightarrow> ltree \<Rightarrow> ltree" where
  "remove_id i (Leaf a j b f s) = Leaf a j b f s"
| "remove_id i (Split a j f s ts) = Split a j f s (map (remove_id i) (filter (\<lambda>t. t_id t \<noteq> i) ts))"

fun drop_kid :: "string \<Rightarrow> ltree \<Rightarrow> ltree" where
  "drop_kid i (Leaf a j b f s) = Leaf a j b f s"
| "drop_kid i (Split a j f s ts) = Split a j f s (filter (\<lambda>t. t_id t \<noteq> i) ts)"

lemma remove_id_outside: "i \<notin> set (ids t) \<Longrightarrow> remove_id i t = t"
proof (induction t)
  case (Split a j f s ts)
  then have "filter (\<lambda>t. t_id t \<noteq> i) ts = ts" using root_in(2) by (fastforce intro!: filter_True)
  moreover have "map (remove_id i) ts = ts" using Split by (auto intro!: map_idI)
  ultimately show ?case by simp
qed simp

lemma t_id_in_unique:
  assumes "distinct (concat (map ids ts))" "c \<in> set ts" "d \<in> set ts" "x \<in> set (ids c)" "x \<in> set (ids d)"
  shows "c = d"
  using distinct_concat_map_disjoint [OF assms(1-3)] assms(4,5) by blast

lemma remove_id_edit:
  assumes "distinct (refs t)" "distinct (ids t)" "p \<in> set (subtrees t)" "c \<in> set (kids p)" "t_id c = i"
  shows "remove_id i t = edit (t_ref p) (drop_kid i) t"
  using assms(1-3)
proof (induction t rule: ltree_kids_induct)
  case (step t)
  have ci: "i \<in> set (ids d)" if "p \<in> set (subtrees d)" for d
    using that assms(4,5) kid_subtree subtree_ids root_in(2) by blast
  obtain a j f s ts where t: "t = Split a j f s ts"
    using step.prems(3) assms(4) by (cases t) auto
  have dts: "distinct (concat (map ids ts))" using step.prems(2) t by simp
  show ?case
  proof (cases "t_ref t = t_ref p")
    case True
    then have p: "p = t" using step.prems subtree_by_ref by (metis self_in_subtrees)
    have "remove_id i d = d" if d: "d \<in> set (filter (\<lambda>t. t_id t \<noteq> i) ts)" for d
    proof (rule remove_id_outside, rule notI)
      assume "i \<in> set (ids d)"
      then have "d = c" using t_id_in_unique [OF dts, of d c i] d p t assms(4,5) by auto
      with d assms(5) show False by simp
    qed
    then show ?thesis using p t by (auto simp: edit_root intro!: map_idI)
  next
    case False
    with step.prems t obtain c0 where c0: "c0 \<in> set ts" "p \<in> set (subtrees c0)" by auto
    have only: "d = c0" if "d \<in> set ts" "i \<in> set (ids d)" for d
      using t_id_in_unique [OF dts that(1) c0(1) that(2) ci [OF c0(2)]] .
    have nid: "t_id c0 \<noteq> i"
    proof
      assume "t_id c0 = i"
      then have "i \<notin> set (ids d)" if "d \<in> set (kids c0)" for d
        using root_id_not_in_kid [OF distinct_ids_kid [OF step.prems(2)]] c0(1) t that by force
      then have "p = c0" using c0(2) ci by (subst (asm) subtrees_unfold) auto
      moreover have "i \<in> set (ids c)" using assms(5) root_in(2) [of c] by simp
      ultimately show False
        using assms(4) \<open>\<And>d. d \<in> set (kids c0) \<Longrightarrow> i \<notin> set (ids d)\<close> by blast
    qed
    have keep: "filter (\<lambda>t. t_id t \<noteq> i) ts = ts"
      using only nid root_in(2) by (fastforce intro!: filter_True)
    have "remove_id i d = edit (t_ref p) (drop_kid i) d" if d: "d \<in> set ts" for d
    proof (cases "d = c0")
      case True
      then show ?thesis
        using step.IH [of c0] c0 t distinct_refs_kid [OF step.prems(1), of c0]
          distinct_ids_kid [OF step.prems(2), of c0] by simp
    next
      case ne: False
      then have "i \<notin> set (ids d)" using only d by blast
      moreover have "t_ref p \<notin> set (refs d)"
        using kids_disjoint [OF step.prems(1), of d c0] ne d c0(1) t subtree_refs [OF c0(2)] root_in(1) [of p]
        by (simp, blast)
      ultimately show ?thesis by (simp add: remove_id_outside edit_outside)
    qed
    then show ?thesis using False t keep by simp
  qed
qed

lemma leaves_remove_id:
  assumes "distinct (ids t)" "find_sub i t = Some s" "t_id t \<noteq> i"
  shows "leaves (remove_id i t) = filter (\<lambda>e. le_nodeid e \<notin> set (ids s)) (leaves t)"
  using assms
proof (induction t rule: ltree_kids_induct)
  case (step t)
  have sub: "s \<in> set (subtrees t)" "t_id s = i" using find_sub_Some step.prems(2) by auto
  with step.prems(3) obtain a j f z ts where t: "t = Split a j f z ts" by (cases t) auto
  have dts: "distinct (concat (map ids ts))" using step.prems(1) t by simp
  obtain c0 where c0: "c0 \<in> set ts" "s \<in> set (subtrees c0)" using sub step.prems(3) t by auto
  have ic0: "i \<in> set (ids c0)" using c0(2) sub(2) by (auto simp: ids_def)
  have other: "leaves (remove_id i d) = filter (\<lambda>e. le_nodeid e \<notin> set (ids s)) (leaves d) \<and> t_id d \<noteq> i"
    if d: "d \<in> set ts" "d \<noteq> c0" for d
  proof -
    have disj: "set (ids d) \<inter> set (ids c0) = {}"
      using distinct_concat_map_disjoint [OF dts d(1) c0(1) d(2)] .
    then have "i \<notin> set (ids d)" and "set (ids d) \<inter> set (ids s) = {}"
      using ic0 subtree_ids [OF c0(2)] by blast+
    then show ?thesis
      using leaves_ids [of d] root_in(2) [of d]
      by (auto simp: remove_id_outside intro!: filter_True [symmetric])
  qed
  have mine: "concat (map leaves (map (remove_id i) (filter (\<lambda>t. t_id t \<noteq> i) [c0]))) =
      filter (\<lambda>e. le_nodeid e \<notin> set (ids s)) (leaves c0)"
  proof (cases "t_id c0 = i")
    case True
    have "distinct (ids c0)" using distinct_ids_kid [OF step.prems(1), of c0] c0(1) t by simp
    then have "s = c0" using subtree_by_id [of c0 s c0] c0(2) sub(2) True by simp
    then show ?thesis using leaves_ids [of c0] True by (auto intro!: filter_False [symmetric])
  next
    case False
    have "find_sub i c0 = Some s"
    proof -
      obtain s' where s': "find_sub i c0 = Some s'" using ic0 find_sub_None by fastforce
      then have "s' \<in> set (subtrees t)" "t_id s' = i"
        using find_sub_Some [OF s'] c0(1) t by auto
      then have "s' = s" using subtree_by_id [OF step.prems(1)] sub by metis
      with s' show ?thesis by simp
    qed
    moreover have "distinct (ids c0)" using distinct_ids_kid [OF step.prems(1), of c0] c0(1) t by simp
    ultimately show ?thesis using step.IH [of c0] c0(1) t False by simp
  qed
  have "concat (map leaves (map (remove_id i) (filter (\<lambda>t. t_id t \<noteq> i) cs))) =
      filter (\<lambda>e. le_nodeid e \<notin> set (ids s)) (concat (map leaves cs))" if "set cs \<subseteq> set ts" for cs
    using that
  proof (induction cs)
    case (Cons d cs)
    then show ?case using other [of d] mine by (cases "d = c0") (auto split: if_splits)
  qed simp
  then show ?case using t by simp
qed

lemma removeChild_represents:
  assumes "represents h p" "is_split p" "distinct (refs p)" "distinct (ids p)" "c \<in> set (kids p)"
  shows "removeChild (t_ref p) (t_ref c) 0 h =
    (Inr (), setNode (t_ref p) (node_of (drop_kid (t_id c) p)) h)"
proof -
  obtain a j f s ts where p: "p = Split a j f s ts" using assms(2) by (cases p) auto
  have same: "(t_ref d = t_ref c) = (t_id d = t_id c)" if "d \<in> set ts" for d
  proof -
    have "d \<in> set (subtrees p)" "c \<in> set (subtrees p)"
      using that assms(5) p kid_subtree [OF _ self_in_subtrees, of _ p] by simp_all
    then show ?thesis using subtree_by_ref [OF assms(3)] subtree_by_id [OF assms(4)] by metis
  qed
  have dist: "distinct (map t_id ts)" using distinct_kid_ids [OF assms(4)] p by simp
  have idx: "js_index_of (map t_ref ts) (t_ref c) 0 = js_find_index (\<lambda>d. t_id d = t_id c) ts"
    unfolding js_index_of_def using js_find_index_cong [of ts "\<lambda>d. t_ref d = t_ref c" "\<lambda>d. t_id d = t_id c"] same
      assms(5) p
    by (auto simp: Let_def js_find_index_map o_def)
  have "js_splice_out (js_find_index (\<lambda>d. t_id d = t_id c) ts) (map t_ref ts) =
      map t_ref (filter (\<lambda>d. t_id d \<noteq> t_id c) ts)"
    using js_splice_out_filter [OF dist, of "t_id c"] assms(5) p by (simp add: map_js_splice_out [symmetric])
  moreover have "js_find_index (\<lambda>d. t_id d = t_id c) ts \<noteq> -1" using assms(5) p by auto
  ultimately show ?thesis
    using represents_root [OF assms(1)] p idx by (auto simp: removeChild_def getNode_def Let_def)
qed

text \<open>The kids of a dropped kid's parent keep their cells.\<close>

lemma represents_drop_kid:
  assumes "represents h p" "is_split p" "distinct (refs p)"
  shows "represents (setNode (t_ref p) (node_of (drop_kid i p)) h) (drop_kid i p)"
proof -
  obtain a j f s ts where p: "p = Split a j f s ts" using assms(2) by (cases p) auto
  have "represents (setNode a n h) c" if "c \<in> set ts" for c n
    using that assms root_ref_not_in_kid [OF assms(3), of c] p
    by (simp add: represents_setNode represents_Split)
  then show ?thesis using p by (simp add: represents_Split)
qed

definition clear_focus :: "string \<Rightarrow> layoutTreeState \<Rightarrow> layoutTreeState" where
  "clear_focus i ts = (if focusedNodeId ts = Some i then ts\<lparr>focusedNodeId := None\<rparr> else ts)"

definition bumped :: "layoutTreeState \<Rightarrow> layoutTreeState" where
  "bumped ts = ts\<lparr>generation := generation ts + 1\<rparr>"

lemma refs_remove_id: "set (refs (remove_id i t)) \<subseteq> set (refs t)"
  by (induction t) auto

lemma subseq_concat_filter:
  "(\<And>x. x \<in> set xs \<Longrightarrow> subseq (g x) (h x)) \<Longrightarrow>
    subseq (concat (map g (filter P xs))) (concat (map h xs))"
  by (induction xs) (auto intro: list_emb_append_mono)

lemma subseq_distinct: "subseq xs ys \<Longrightarrow> distinct ys \<Longrightarrow> distinct xs"
  by (auto simp: subseq_conv_nths)

lemma subseq_remove_id:
  "subseq (refs (remove_id i t)) (refs t)" "subseq (ids (remove_id i t)) (ids t)"
  by (induction t) (auto intro!: subseq_concat_filter simp: o_def)

lemmas distinct_remove_id =
  subseq_distinct [OF subseq_remove_id(1)] subseq_distinct [OF subseq_remove_id(2)]

lemma height_remove_id: "height (remove_id i t) \<le> height t"
proof (induction t)
  case (Split a j f s ts)
  have "foldr max (map height (map (remove_id i) (filter (\<lambda>t. t_id t \<noteq> i) cs))) 0 \<le>
      foldr max (map height cs) 0" if "set cs \<subseteq> set ts" for cs
    using that by (induction cs) (use Split in \<open>auto intro: max.mono le_max_iff_disj [THEN iffD2]\<close>)
  then show ?case by simp
qed simp

lemma t_id_remove_id [simp]: "t_id (remove_id i t) = t_id t" "t_ref (remove_id i t) = t_ref t"
  by (cases t; simp)+

lemma deleteNode_world:
  assumes w: "tree_world w t" and i: "i \<noteq> []" "t_id t \<noteq> i" "i \<in> set (ids t)"
  shows "\<exists>h'. deleteNode i w = (Inr (), (h', bumped (clear_focus i (snd w)))) \<and>
    tree_world (h', bumped (clear_focus i (snd w))) (remove_id i t)"
proof -
  note wD = tree_worldD [OF w]
  obtain p where p: "parent_walk i t = Some p"
    using parent_walk_None(1) [of i t] i by (cases "parent_walk i t") auto
  then obtain c where c: "p \<in> set (subtrees t)" "is_split p" "c \<in> set (kids p)" "t_id c = i"
    using parent_walk_Some(1) [OF p] by auto
  have rp: "represents (fst w) p" using wD(2) c(1) represents_subtree by auto
  have dp: "distinct (refs p)" "distinct (ids p)"
    using wD(3,4) c(1) distinct_subtree by auto
  have dpi: "distinct (map t_id (kids p))"
    using dp(2) distinct_kid_ids by auto
  define h' where "h' = setNode (t_ref p) (node_of (drop_kid i p)) (fst w)"
  have kid_at: "js_at (map t_ref (kids p)) (js_find_index (\<lambda>d. t_id d = i) (kids p)) = Some (t_ref c)"
    using js_find_index_at [OF dpi c(3)] c(4) by (simp add: js_at_map)
  have rem: "removeChild (t_ref p) (t_ref c) 0 (fst w) = (Inr (), h')"
    using removeChild_represents [OF rp c(2) dp c(3)] c(4) by (simp add: h'_def)
  have cp: "t_ref c \<noteq> t_ref p"
    using root_ref_not_in_kid [OF dp(1) c(3)] root_in(1) [of c] by metis
  have cellc: "cells h' (t_ref c) = Some (node_of c)"
    using cp represents_root represents_kid [OF rp c(3)] by (simp add: h'_def)
  obtain h ts where hts: "w = (h, ts)" by (cases w)
  have facts: "getNode h (t_ref t) = Inr (node_of t)" "rootNode ts = t_ref t" "t_ref t \<noteq> undef"
    "findParent h (t_ref t) i = Inr (Some (t_ref p))" "getNode h (t_ref p) = Inr (node_of p)"
    "indexIn h (t_ref p) i = Inr (js_find_index (\<lambda>d. t_id d = i) (kids p))"
    "removeChild (t_ref p) (t_ref c) 0 h = (Inr (), h')" "getNode h' (t_ref c) = Inr (node_of c)"
    using wD tree_world_findParent [OF w, of i] p rp represents_root [OF rp] c(2) indexIn_represents rem cellc
    by (simp_all add: hts)
  have kc: "the (node_children (node_of p)) = map t_ref (kids p)"
    using c(2) by (simp add: node_children_node_of)
  have del: "deleteNode i w = (Inr (), (h', bumped (clear_focus i (snd w))))"
    using i c(4)
    by (simp add: deleteNode_def hts facts kc kid_at onStore_def bumpGeneration_def modifyState_def
        bumped_def clear_focus_def)
  have t': "remove_id i t = edit (t_ref p) (drop_kid i) t"
    by (rule remove_id_edit [OF wD(3,4) c(1,3,4)])
  have "represents h' (remove_id i t)"
    unfolding t'
  proof (rule represents_edit [OF wD(2,3) c(1)])
    show "represents h' (drop_kid i p)"
      unfolding h'_def by (rule represents_drop_kid [OF rp c(2) dp(1)])
    show "t_ref (drop_kid i p) = t_ref p" by (cases p) auto
  qed (auto simp: h'_def)
  then have "tree_world (h', bumped (clear_focus i (snd w))) (remove_id i t)"
    using wD height_remove_id [of i t] distinct_remove_id [of t i] rp represents_root [OF rp]
    by (auto simp: tree_world_def h'_def wf_store_setNode bumped_def clear_focus_def)
  with del show ?thesis by blast
qed

section \<open>Resizing nodes\<close>

fun set_size :: "jsnum \<Rightarrow> ltree \<Rightarrow> ltree" where
  "set_size z (Leaf a j b f s) = Leaf a j b f z"
| "set_size z (Split a j f s ts) = Split a j f z ts"

fun resize_id :: "string \<Rightarrow> jsnum \<Rightarrow> ltree \<Rightarrow> ltree" where
  "resize_id i z (Leaf a j b f s) = Leaf a j b f (if j = i then z else s)"
| "resize_id i z (Split a j f s ts) =
     (if j = i then Split a j f z ts else Split a j f s (map (resize_id i z) ts))"

lemma set_size_simps [simp]:
  "t_ref (set_size z t) = t_ref t" "t_id (set_size z t) = t_id t" "kids (set_size z t) = kids t"
  "is_split (set_size z t) = is_split t" "t_size (set_size z t) = z" "leaves (set_size z t) = leaves t"
  "set_size z (set_size y t) = set_size z t" "set_size (t_size t) t = t" "height (set_size z t) = height t"
  "t_flex (set_size z t) = t_flex t"
  by (cases t; simp)+

lemma refs_set_size [simp]: "refs (set_size z t) = refs t" "ids (set_size z t) = ids t"
  by (cases t; simp)+

lemma node_of_set_size: "node_of (set_size z t) = (node_of t)\<lparr>node_size := z\<rparr>"
  by (cases t) auto

lemma resize_id_edit:
  "(\<And>u. u \<in> set (subtrees t) \<Longrightarrow> (t_ref u = a) = (t_id u = i)) \<Longrightarrow>
    resize_id i z t = edit a (set_size z) t"
proof (induction t)
  case (Leaf b j d f s)
  then show ?case using Leaf [of "Leaf b j d f s"] by auto
next
  case (Split b j f s ts)
  then show ?case using Split.prems [of "Split b j f s ts"] by auto
qed

lemma represents_set_size:
  assumes "represents h s" "distinct (refs s)"
  shows "represents (setNode (t_ref s) (node_of (set_size z s)) h) (set_size z s)"
  using assms root_ref_not_in_kid [OF assms(2)]
  by (subst represents_unfold) (auto simp: represents_setNode dest: represents_kid)

lemma keys_resize_id [simp]: "refs (resize_id i z t) = refs t" "ids (resize_id i z t) = ids t"
  by (induction t) (auto simp: o_def cong: map_cong)

lemma height_resize_id [simp]: "height (resize_id i z t) = height t"
  by (induction t) (auto simp: o_def cong: map_cong)

lemma t_ref_resize_id [simp]: "t_ref (resize_id i z t) = t_ref t" "t_id (resize_id i z t) = t_id t"
  by (cases t; simp)+

lemma leaves_resize_id [simp]: "leaves (resize_id i z t) = leaves t"
  by (induction t) (auto simp: o_def cong: map_cong)

definition valid_resize :: "ltree \<Rightarrow> resizeNodeOperation \<Rightarrow> bool" where
  "valid_resize t r \<longleftrightarrow>
     rs_nodeId r \<noteq> [] \<and> rs_nodeId r \<in> set (ids t) \<and> \<not> rs_size r < Fin 0 \<and> \<not> Fin 100 < rs_size r"

definition resize_all :: "resizeNodeOperation list \<Rightarrow> ltree \<Rightarrow> ltree" where
  "resize_all ops t = fold (\<lambda>r. resize_id (rs_nodeId r) (rs_size r)) ops t"

lemma find_sub_in: "i \<in> set (ids t) \<Longrightarrow> \<exists>s. find_sub i t = Some s \<and> s \<in> set (subtrees t) \<and> t_id s = i"
  by (metis find_sub_None find_sub_Some option.exhaust)

lemma resizeLoop_append:
  "resizeLoop (xs @ ys) w =
     andThen (resizeLoop xs w) (\<lambda>completed w. if completed then resizeLoop ys w else (Inr False, w))"
proof (induction xs arbitrary: w)
  case (Cons r xs)
  show ?case
  proof (cases "findNode (fst w) (rootNode (snd w)) (rs_nodeId r)")
    case (Inr found)
    obtain q w' where "onStore (modifyNode (case found of None \<Rightarrow> undef | Some a \<Rightarrow> a)
        (\<lambda>n. n\<lparr>node_size := rs_size r\<rparr>)) w = (q, w')" by (rule prod.exhaust)
    with Inr Cons show ?thesis by (cases q) (simp_all cong: if_cong)
  qed simp
qed simp

lemma resizeLoop_world:
  "tree_world w t \<Longrightarrow> \<forall>r \<in> set ops. valid_resize t r \<Longrightarrow>
    \<exists>h'. resizeLoop ops w = (Inr True, (h', snd w)) \<and> tree_world (h', snd w) (resize_all ops t)"
proof (induction ops arbitrary: w t)
  case Nil
  then show ?case by (auto simp: resize_all_def intro: exI [of _ "fst w"])
next
  case (Cons r ops)
  note wD = tree_worldD [OF Cons.prems(1)]
  have r: "valid_resize t r" using Cons.prems(2) by simp
  then obtain s where s: "find_sub (rs_nodeId r) t = Some s" "s \<in> set (subtrees t)" "t_id s = rs_nodeId r"
    using find_sub_in by (auto simp: valid_resize_def)
  obtain h ts where hts: "w = (h, ts)" by (cases w)
  define h1 where "h1 = setNode (t_ref s) (node_of (set_size (rs_size r) s)) h"
  have rs: "represents h s" using wD(2) s(2) represents_subtree by (simp add: hts)
  have mod: "modifyNode (t_ref s) (\<lambda>n. n\<lparr>node_size := rs_size r\<rparr>) h = (Inr (), h1)"
    using represents_root [OF rs] by (simp add: h1_def node_of_set_size)
  have key: "(t_ref u = t_ref s) = (t_id u = rs_nodeId r)" if "u \<in> set (subtrees t)" for u
    using subtree_by_ref [OF wD(3) that s(2)] subtree_by_id [OF wD(4) that s(2)] s(3) by metis
  have t1: "resize_id (rs_nodeId r) (rs_size r) t = edit (t_ref s) (set_size (rs_size r)) t"
    by (rule resize_id_edit) (rule key)
  have "represents h1 (resize_id (rs_nodeId r) (rs_size r) t)"
    unfolding t1
  proof (rule represents_edit [OF _ wD(3) s(2)])
    show "represents h t" using wD(2) hts by simp
    show "represents h1 (set_size (rs_size r) s)"
      unfolding h1_def using distinct_subtree(1) [OF s(2) wD(3)] by (rule represents_set_size [OF rs])
  qed (auto simp: h1_def)
  then have w1: "tree_world (h1, ts) (resize_id (rs_nodeId r) (rs_size r) t)"
    using wD represents_root [OF rs] by (auto simp: tree_world_def hts h1_def wf_store_setNode)
  have "\<forall>q \<in> set ops. valid_resize (resize_id (rs_nodeId r) (rs_size r) t) q"
    using Cons.prems(2) by (auto simp: valid_resize_def)
  from Cons.IH [OF w1 this] obtain h2 where
    "resizeLoop ops (h1, ts) = (Inr True, (h2, ts))" "tree_world (h2, ts) (resize_all (r # ops) t)"
    by (auto simp: resize_all_def)
  moreover have "findNode h (rootNode ts) (rs_nodeId r) = Inr (Some (t_ref s))"
    using tree_world_findNode [OF Cons.prems(1), of "rs_nodeId r"] s(1) wD(6) by (simp add: hts)
  ultimately show ?case
    using r by (simp add: hts valid_resize_def onStore_def mod)
qed

lemma resizeNode_world:
  assumes "tree_world w t" "\<forall>r \<in> set ops. valid_resize t r"
  shows "\<exists>h'. resizeNode (Some ops) w = (Inr (), (h', bumped (snd w))) \<and>
    tree_world (h', bumped (snd w)) (resize_all ops t)"
  using resizeLoop_world [OF assms]
  by (auto simp: resizeNode_def bumpGeneration_def bumped_def tree_world_def)

end
