(* ===== verification/LayoutSwap.thy ===== *)
theory LayoutSwap
  imports LayoutEdit "HOL-Library.Multiset"
begin

text \<open>
  Swapping two nodes of the layout tree: the subtrees change places and each takes over the
  size of the other, so the tiles keep their extent. The two nodes must not contain one
  another: the code does not check it, and then builds a cycle or loses a subtree.
\<close>

section \<open>The swap on trees\<close>

fun swap_tree :: "string \<Rightarrow> string \<Rightarrow> ltree \<Rightarrow> ltree \<Rightarrow> ltree \<Rightarrow> ltree" where
  "swap_tree i j s1 s2 (Leaf a k b f s) = Leaf a k b f s"
| "swap_tree i j s1 s2 (Split a k f s ts) =
     Split a k f s
       (map (\<lambda>c. if t_id c = i then set_size (t_size c) s2
                 else if t_id c = j then set_size (t_size c) s1
                 else swap_tree i j s1 s2 c) ts)"

definition swap_ids :: "string \<Rightarrow> string \<Rightarrow> ltree \<Rightarrow> ltree" where
  "swap_ids i j t =
     (case (find_sub i t, find_sub j t) of
        (Some s1, Some s2) \<Rightarrow> swap_tree i j s1 s2 t
      | _ \<Rightarrow> t)"

text \<open>The nodes are two subtrees apart from one another and from the root.\<close>

definition swappable :: "string \<Rightarrow> string \<Rightarrow> ltree \<Rightarrow> bool" where
  "swappable i j t \<longleftrightarrow>
     i \<noteq> [] \<and> j \<noteq> [] \<and> t_id t \<noteq> i \<and> t_id t \<noteq> j \<and>
     (\<exists>s1 s2. find_sub i t = Some s1 \<and> find_sub j t = Some s2 \<and> j \<notin> set (ids s1) \<and> i \<notin> set (ids s2))"

lemma swap_tree_simps [simp]:
  "t_ref (swap_tree i j s1 s2 t) = t_ref t" "t_id (swap_tree i j s1 s2 t) = t_id t"
  "t_size (swap_tree i j s1 s2 t) = t_size t"
  by (cases t; simp)+

lemma swap_tree_outside:
  "i \<notin> set (ids t) \<Longrightarrow> j \<notin> set (ids t) \<Longrightarrow> swap_tree i j s1 s2 t = t"
proof (induction t)
  case (Split a k f s ts)
  have "t_id c \<noteq> i \<and> t_id c \<noteq> j \<and> swap_tree i j s1 s2 c = c" if "c \<in> set ts" for c
    using that Split root_in(2) [of c] by auto
  then show ?case by (auto intro!: map_idI)
qed simp

text \<open>In a tree, only \<open>s1\<close> has the identifier \<open>i\<close> and only \<open>s2\<close> the identifier \<open>j\<close>.\<close>

definition only_at :: "string \<Rightarrow> ltree \<Rightarrow> string \<Rightarrow> ltree \<Rightarrow> ltree \<Rightarrow> bool" where
  "only_at i s1 j s2 t \<longleftrightarrow>
     (\<forall>u \<in> set (subtrees t). (t_id u = i \<longrightarrow> u = s1) \<and> (t_id u = j \<longrightarrow> u = s2))"

lemma only_at_kid: "only_at i s1 j s2 t \<Longrightarrow> c \<in> set (kids t) \<Longrightarrow> only_at i s1 j s2 c"
  by (auto simp: only_at_def intro: subtree_trans kid_subtree [OF _ self_in_subtrees])

lemma only_at_root: "only_at i s1 j s2 t \<Longrightarrow> (t_id t = i \<longrightarrow> t = s1) \<and> (t_id t = j \<longrightarrow> t = s2)"
  by (auto simp: only_at_def)

lemma only_at_distinct:
  assumes "distinct (ids t)" "find_sub i t = Some s1" "find_sub j t = Some s2"
  shows "only_at i s1 j s2 t"
  unfolding only_at_def
  using subtree_by_id [OF assms(1)] find_sub_Some [OF assms(2)] find_sub_Some [OF assms(3)] by auto

lemma swap_tree_twice:
  assumes "only_at i s1 j s2 t" "t_id s1 = i" "t_id s2 = j" "i \<noteq> j"
  shows "t_id t \<noteq> i \<Longrightarrow> t_id t \<noteq> j \<Longrightarrow>
    swap_tree i j (set_size (t_size s2) s1) (set_size (t_size s1) s2) (swap_tree i j s1 s2 t) = t"
  using assms(1)
proof (induction t)
  case (Split a k f s ts)
  have "swap_tree i j (set_size (t_size s2) s1) (set_size (t_size s1) s2)
      (Split a k f s [if t_id c = i then set_size (t_size c) s2
         else if t_id c = j then set_size (t_size c) s1 else swap_tree i j s1 s2 c]) = Split a k f s [c]"
    if c: "c \<in> set ts" for c
  proof -
    have oc: "only_at i s1 j s2 c" using only_at_kid [OF Split.prems(3)] c by simp
    show ?thesis
      using only_at_root [OF oc] Split.IH [OF c _ _ oc] assms(2-4)
      by (cases "t_id c = i"; cases "t_id c = j") auto
  qed
  then show ?case by (simp add: o_def map_idI)
qed simp

lemma sum_list_subtrees:
  "image_mset key (mset (concat (map f xs))) = (\<Sum>x\<leftarrow>xs. image_mset key (mset (f x)))"
  by (induction xs) auto

lemma count_list_concat: "count_list (concat (map f xs)) v = (\<Sum>x\<leftarrow>xs. count_list (f x) v)"
  by (induction xs) auto

lemma repeat_mset_add: "repeat_mset (m + n) M = repeat_mset m M + repeat_mset n M"
  by (simp add: multiset_eq_iff distrib_right)

lemma add_three:
  fixes a :: "'a :: comm_monoid_add"
  assumes "a + b + c = d + e + f" "a' + b' + c' = d' + e' + f'"
  shows "(a + a') + (b + b') + (c + c') = (d + d') + (e + e') + (f + f')"
proof -
  have "(a + a') + (b + b') + (c + c') = (a + b + c) + (a' + b' + c')" by (simp add: ac_simps)
  also have "\<dots> = (d + e + f) + (d' + e' + f')" by (simp only: assms)
  also have "\<dots> = (d + d') + (e + e') + (f + f')" by (simp add: ac_simps)
  finally show ?thesis .
qed

text \<open>What a node carries besides its size and its place.\<close>

fun content :: "ltree \<Rightarrow> string + bool" where
  "content (Leaf a i b f s) = Inl b"
| "content (Split a i f s ts) = Inr (ts = [])"

lemma content_set_size [simp]: "content (set_size z u) = content u"
  by (cases u) simp_all

lemma swap_tree_mset:
  fixes key :: "ltree \<Rightarrow> 'a"
  assumes sub: "t_id s1 = i" "t_id s2 = j" "i \<noteq> j"
    and counts: "count_list (ids s1) i = 1" "count_list (ids s1) j = 0"
      "count_list (ids s2) j = 1" "count_list (ids s2) i = 0"
    and key: "\<And>u v. t_ref u = t_ref v \<Longrightarrow> t_id u = t_id v \<Longrightarrow> content u = content v \<Longrightarrow> key u = key v"
  defines "K \<equiv> \<lambda>u. image_mset key (mset (subtrees u))"
  shows "only_at i s1 j s2 t \<Longrightarrow> t_id t \<noteq> i \<Longrightarrow> t_id t \<noteq> j \<Longrightarrow>
    K (swap_tree i j s1 s2 t) + repeat_mset (count_list (ids t) i) (K s1) + repeat_mset (count_list (ids t) j) (K s2) =
    K t + repeat_mset (count_list (ids t) i) (K s2) + repeat_mset (count_list (ids t) j) (K s1)"
proof (induction t)
  case (Split a k f s ts)
  define new where "new = (\<lambda>c. if t_id c = i then set_size (t_size c) s2
      else if t_id c = j then set_size (t_size c) s1 else swap_tree i j s1 s2 c)"
  have Ksize: "K (set_size z u) = K u" for z u
  proof -
    have "key (set_size z u) = key u" by (rule key) simp_all
    then show ?thesis unfolding K_def by (cases u) (simp_all)
  qed
  have one: "K (new c) + repeat_mset (count_list (ids c) i) (K s1) + repeat_mset (count_list (ids c) j) (K s2) =
      K c + repeat_mset (count_list (ids c) i) (K s2) + repeat_mset (count_list (ids c) j) (K s1)"
    if c: "c \<in> set ts" for c
  proof -
    have oc: "only_at i s1 j s2 c" using only_at_kid [OF Split.prems(1)] c by simp
    show ?thesis
      using only_at_root [OF oc] Split.IH [OF c oc] sub counts
      by (cases "t_id c = i"; cases "t_id c = j") (auto simp: new_def Ksize)
  qed
  have "(\<Sum>c\<leftarrow>cs. K (new c)) + repeat_mset (\<Sum>c\<leftarrow>cs. count_list (ids c) i) (K s1) +
        repeat_mset (\<Sum>c\<leftarrow>cs. count_list (ids c) j) (K s2) =
      (\<Sum>c\<leftarrow>cs. K c) + repeat_mset (\<Sum>c\<leftarrow>cs. count_list (ids c) i) (K s2) +
        repeat_mset (\<Sum>c\<leftarrow>cs. count_list (ids c) j) (K s1)" if "set cs \<subseteq> set ts" for cs
    using that
  proof (induction cs)
    case (Cons c cs)
    then have c: "c \<in> set ts" and cs: "set cs \<subseteq> set ts" by auto
    show ?case
      using add_three [OF one [OF c] Cons.IH [OF cs]] by (simp add: repeat_mset_add del: union_mset_add_mset_left)
  qed simp
  moreover have "key (Split a k f s (map new ts)) = key (Split a k f s ts)" by (rule key) simp_all
  ultimately show ?case
    using Split.prems
    by (simp add: K_def sum_list_subtrees count_list_concat o_def new_def [symmetric])
qed (simp add: K_def)

lemma count_list_distinct: "distinct xs \<Longrightarrow> count_list xs x = (if x \<in> set xs then 1 else 0)"
  by (induction xs) auto

lemma swappableD:
  assumes "swappable i j t" "distinct (ids t)"
  obtains s1 s2 where "find_sub i t = Some s1" "find_sub j t = Some s2"
    "s1 \<in> set (subtrees t)" "s2 \<in> set (subtrees t)" "t_id s1 = i" "t_id s2 = j"
    "j \<notin> set (ids s1)" "i \<notin> set (ids s2)" "i \<noteq> j" "only_at i s1 j s2 t"
proof -
  obtain s1 s2 where s: "find_sub i t = Some s1" "find_sub j t = Some s2"
    "j \<notin> set (ids s1)" "i \<notin> set (ids s2)"
    using assms(1) by (auto simp: swappable_def)
  have "i \<noteq> j" using s find_sub_Some [OF s(1)] root_in(2) [of s1] by auto
  then show ?thesis
    using that s find_sub_Some [OF s(1)] find_sub_Some [OF s(2)] only_at_distinct [OF assms(2) s(1,2)] by auto
qed

lemma swap_ids_perm:
  assumes "swappable i j t" "distinct (ids t)"
    and key: "\<And>u v. t_ref u = t_ref v \<Longrightarrow> t_id u = t_id v \<Longrightarrow> content u = content v \<Longrightarrow> key u = key v"
  shows "mset (map key (subtrees (swap_ids i j t))) = mset (map key (subtrees t))"
proof -
  obtain s1 s2 where s: "find_sub i t = Some s1" "find_sub j t = Some s2"
    "s1 \<in> set (subtrees t)" "s2 \<in> set (subtrees t)" "t_id s1 = i" "t_id s2 = j"
    "j \<notin> set (ids s1)" "i \<notin> set (ids s2)" "i \<noteq> j" "only_at i s1 j s2 t"
    by (rule swappableD [OF assms(1,2)])
  have roots: "t_id t \<noteq> i" "t_id t \<noteq> j" using assms(1) by (auto simp: swappable_def)
  have c: "count_list (ids s1) i = 1" "count_list (ids s1) j = 0" "count_list (ids s2) j = 1"
    "count_list (ids s2) i = 0" "count_list (ids t) i = 1" "count_list (ids t) j = 1"
    using distinct_subtree(2) [OF s(3) assms(2)] distinct_subtree(2) [OF s(4) assms(2)] assms(2) s
      subtree_ids [OF s(3)] subtree_ids [OF s(4)] root_in(2) [of s1] root_in(2) [of s2]
    by (auto simp: count_list_distinct)
  define K where "K = (\<lambda>u. image_mset key (mset (subtrees u)))"
  have "K (swap_tree i j s1 s2 t) + repeat_mset (count_list (ids t) i) (K s1) + repeat_mset (count_list (ids t) j) (K s2) =
    K t + repeat_mset (count_list (ids t) i) (K s2) + repeat_mset (count_list (ids t) j) (K s1)"
    unfolding K_def by (rule swap_tree_mset [OF s(5,6,9) c(1-4) _ s(10) roots]) (rule key)
  then show ?thesis using c(5,6) s(1,2) by (simp add: swap_ids_def K_def)
qed

lemma list_update_map:
  "distinct xs \<Longrightarrow> k < length xs \<Longrightarrow> xs ! k = x \<Longrightarrow> xs[k := y] = map (\<lambda>c. if c = x then y else c) xs"
  by (auto simp: list_eq_iff_nth_eq nth_list_update nth_eq_iff_index_eq)

lemma list_update_swap_map:
  "distinct xs \<Longrightarrow> k < length xs \<Longrightarrow> l < length xs \<Longrightarrow> xs ! k = x \<Longrightarrow> xs ! l = y \<Longrightarrow>
    xs[k := y, l := x] = map (\<lambda>c. if c = x then y else if c = y then x else c) xs"
  by (auto simp: list_eq_iff_nth_eq nth_list_update nth_eq_iff_index_eq)

lemma kid_by_index:
  assumes "p \<in> set (subtrees t)" "distinct (ids t)" "c \<in> set (kids p)"
  defines "k \<equiv> js_find_index (\<lambda>d. t_id d = t_id c) (kids p)"
  shows "js_at (map t_ref (kids p)) k = Some (t_ref c)" "nat k < length (kids p)" "kids p ! nat k = c"
proof -
  have "js_at (kids p) k = Some c"
    unfolding k_def
    using js_find_index_at [OF distinct_kid_ids [OF distinct_subtree(2) [OF assms(1,2)]] assms(3)] .
  then show "js_at (map t_ref (kids p)) k = Some (t_ref c)" "nat k < length (kids p)" "kids p ! nat k = c"
    by (auto simp: js_at_map js_at_Some)
qed

lemma height_subtree: "s \<in> set (subtrees t) \<Longrightarrow> height s \<le> height t"
proof (induction t rule: ltree_kids_induct)
  case (step t)
  show ?case
  proof (cases "s = t")
    case False
    then obtain c where "c \<in> set (kids t)" "s \<in> set (subtrees c)"
      using step.prems by (subst (asm) subtrees_unfold) auto
    then show ?thesis using step.IH height_kid by fastforce
  qed simp
qed

lemma unique_parent_root:
  assumes "distinct (refs t)" "q \<in> set (subtrees t)" "c \<in> set (kids t)" "c \<in> set (kids q)"
  shows "q = t"
proof (rule ccontr)
  assume "q \<noteq> t"
  then obtain d where d: "d \<in> set (kids t)" "q \<in> set (subtrees d)"
    using assms(2) by (subst (asm) subtrees_unfold) auto
  have cd: "c \<in> set (subtrees d)" using kid_subtree [OF assms(4) d(2)] .
  have "c = d"
  proof (rule ccontr)
    assume "c \<noteq> d"
    then have "set (refs c) \<inter> set (refs d) = {}" using kids_disjoint [OF assms(1,3) d(1)] by simp
    moreover have "t_ref c \<in> set (refs d)" using cd by (simp add: refs_def)
    ultimately show False using root_in(1) [of c] by blast
  qed
  then show False using height_subtree [OF d(2)] height_kid [OF assms(4)] by simp
qed

lemma unique_parent:
  assumes "distinct (refs t)" "p \<in> set (subtrees t)" "q \<in> set (subtrees t)"
    "c \<in> set (kids p)" "c \<in> set (kids q)"
  shows "p = q"
  using assms
proof (induction t rule: ltree_kids_induct)
  case (step t)
  show ?case
  proof (cases "p = t \<or> q = t")
    case True
    then show ?thesis using unique_parent_root [OF step.prems(1)] step.prems by metis
  next
    case False
    then obtain d e where d: "d \<in> set (kids t)" "p \<in> set (subtrees d)"
      and e: "e \<in> set (kids t)" "q \<in> set (subtrees e)"
      using step.prems by (subst (asm) (1 2) subtrees_unfold) auto
    have "t_ref c \<in> set (refs d)" "t_ref c \<in> set (refs e)"
      using kid_subtree [OF step.prems(4) d(2)] kid_subtree [OF step.prems(5) e(2)] by (auto simp: refs_def)
    then have "d = e" using kids_disjoint [OF step.prems(1) d(1) e(1)] by blast
    then show ?thesis using step.IH [OF d(1)] distinct_refs_kid [OF step.prems(1) d(1)] d e step.prems by auto
  qed
qed

lemma distinct_kid_refs: "distinct (refs p) \<Longrightarrow> distinct (map t_ref (kids p))"
  by (rule distinct_concat_heads [where f = refs]) (simp_all add: refs_unfold [of p])

text \<open>What the four writes of the code leave in the store.\<close>

definition swap_ref :: "ref \<Rightarrow> ref \<Rightarrow> ref \<Rightarrow> ref" where
  "swap_ref a b c = (if c = a then b else if c = b then a else c)"

definition swapped_node :: "ltree \<Rightarrow> ltree \<Rightarrow> ltree \<Rightarrow> layoutNode" where
  "swapped_node s1 s2 v =
     (node_of v)\<lparr>node_size := (if v = s1 then t_size s2 else if v = s2 then t_size s1 else t_size v),
                 node_children := map_option (map (swap_ref (t_ref s1) (t_ref s2))) (node_children (node_of v))\<rparr>"

lemma swapped_kids_same:
  assumes "distinct (refs t)" "p1 \<in> set (subtrees t)" "p2 \<in> set (subtrees t)"
    "s1 \<in> set (kids p1)" "s2 \<in> set (kids p2)" "v \<in> set (subtrees t)" "v \<noteq> p1" "v \<noteq> p2"
  shows "map (swap_ref (t_ref s1) (t_ref s2)) (map t_ref (kids v)) = map t_ref (kids v)"
proof -
  have "t_ref c \<noteq> t_ref s1 \<and> t_ref c \<noteq> t_ref s2" if c: "c \<in> set (kids v)" for c
  proof -
    have "c \<in> set (subtrees t)" "s1 \<in> set (subtrees t)" "s2 \<in> set (subtrees t)"
      using c assms kid_subtree by blast+
    then show ?thesis using subtree_by_ref [OF assms(1)] unique_parent [OF assms(1)] c assms by metis
  qed
  then show ?thesis by (auto simp: swap_ref_def)
qed

lemma swap_update_children:
  assumes "distinct (refs t)" "distinct (ids t)" "p1 \<in> set (subtrees t)" "p2 \<in> set (subtrees t)"
    "s1 \<in> set (kids p1)" "s2 \<in> set (kids p2)" "s1 \<noteq> s2"
  defines "k1 \<equiv> nat (js_find_index (\<lambda>d. t_id d = t_id s1) (kids p1))"
    and "k2 \<equiv> nat (js_find_index (\<lambda>d. t_id d = t_id s2) (kids p2))"
    and "cs1 \<equiv> map t_ref (kids p1)" and "cs2 \<equiv> map t_ref (kids p2)"
    and "\<sigma> \<equiv> map (swap_ref (t_ref s1) (t_ref s2))"
  shows "p1 = p2 \<Longrightarrow> cs1[k1 := t_ref s2, k2 := t_ref s1] = \<sigma> cs1"
    and "p1 \<noteq> p2 \<Longrightarrow> cs1[k1 := t_ref s2] = \<sigma> cs1"
    and "p1 \<noteq> p2 \<Longrightarrow> cs2[k2 := t_ref s1] = \<sigma> cs2"
proof -
  have sub: "s1 \<in> set (subtrees t)" "s2 \<in> set (subtrees t)" using assms kid_subtree by blast+
  have ne: "t_ref s1 \<noteq> t_ref s2" using subtree_by_ref [OF assms(1) sub] assms(7) by blast
  have d1: "distinct cs1" "distinct cs2"
    unfolding cs1_def cs2_def using distinct_kid_refs distinct_subtree(1) assms(1,3,4) by blast+
  have k: "k1 < length cs1" "cs1 ! k1 = t_ref s1" "k2 < length cs2" "cs2 ! k2 = t_ref s2"
    using kid_by_index [OF assms(3,2,5)] kid_by_index [OF assms(4,2,6)]
    by (auto simp: k1_def k2_def cs1_def cs2_def)
  show "p1 = p2 \<Longrightarrow> cs1[k1 := t_ref s2, k2 := t_ref s1] = \<sigma> cs1"
    using list_update_swap_map [OF d1(1) k(1) _ k(2), of k2 "t_ref s2"] k
    by (simp add: \<sigma>_def swap_ref_def cs1_def cs2_def)
  have "t_ref s2 \<notin> set cs1" if "p1 \<noteq> p2"
  proof
    assume "t_ref s2 \<in> set cs1"
    then obtain c where c: "c \<in> set (kids p1)" "t_ref c = t_ref s2" by (auto simp: cs1_def)
    then have "c = s2" using subtree_by_ref [OF assms(1) _ sub(2)] kid_subtree assms(3) by blast
    then show False using unique_parent [OF assms(1,3,4) _ assms(6)] c that by blast
  qed
  then show "p1 \<noteq> p2 \<Longrightarrow> cs1[k1 := t_ref s2] = \<sigma> cs1"
    using list_update_map [OF d1(1) k(1,2), of "t_ref s2"] by (auto simp: \<sigma>_def swap_ref_def)
  have "t_ref s1 \<notin> set cs2" if "p1 \<noteq> p2"
  proof
    assume "t_ref s1 \<in> set cs2"
    then obtain c where c: "c \<in> set (kids p2)" "t_ref c = t_ref s1" by (auto simp: cs2_def)
    then have "c = s1" using subtree_by_ref [OF assms(1) _ sub(1)] kid_subtree assms(4) by blast
    then show False using unique_parent [OF assms(1,3,4) assms(5)] c that by blast
  qed
  then show "p1 \<noteq> p2 \<Longrightarrow> cs2[k2 := t_ref s1] = \<sigma> cs2"
    using list_update_map [OF d1(2) k(3,4), of "t_ref s1"] ne by (auto simp: \<sigma>_def swap_ref_def)
qed

definition put_child :: "nat \<Rightarrow> ref \<Rightarrow> layoutNode \<Rightarrow> layoutNode" where
  "put_child k a n = n\<lparr>node_children := map_option (\<lambda>cs. cs[k := a]) (node_children n)\<rparr>"

lemma swap_cells:
  assumes t: "represents h t" "distinct (refs t)" "distinct (ids t)"
    and sub: "p1 \<in> set (subtrees t)" "p2 \<in> set (subtrees t)" "s1 \<in> set (kids p1)" "s2 \<in> set (kids p2)"
    and ne: "s1 \<noteq> s2" "p1 \<noteq> s1" "p1 \<noteq> s2" "p2 \<noteq> s1" "p2 \<noteq> s2"
  defines "k1 \<equiv> nat (js_find_index (\<lambda>d. t_id d = t_id s1) (kids p1))"
    and "k2 \<equiv> nat (js_find_index (\<lambda>d. t_id d = t_id s2) (kids p2))"
    and "h2 \<equiv> setNode (t_ref s2) (node_of (set_size (t_size s1) s2))
              (setNode (t_ref s1) (node_of (set_size (t_size s2) s1)) h)"
  defines "h3 \<equiv> setNode (t_ref p1) (put_child k1 (t_ref s2) (node_of p1)) h2"
  shows "\<exists>n. cells h3 (t_ref p2) = Some n \<and>
    (\<forall>v \<in> set (subtrees t).
      cells (setNode (t_ref p2) (put_child k2 (t_ref s1) n) h3) (t_ref v) = Some (swapped_node s1 s2 v))"
proof -
  have s: "s1 \<in> set (subtrees t)" "s2 \<in> set (subtrees t)" using sub kid_subtree by blast+
  have by_ref: "t_ref u = t_ref v \<longleftrightarrow> u = v" if "u \<in> set (subtrees t)" "v \<in> set (subtrees t)" for u v
    using subtree_by_ref [OF t(2) that] by blast
  have cell: "cells h (t_ref v) = Some (node_of v)" if "v \<in> set (subtrees t)" for v
    using t(1) that by (simp add: represents_def)
  have split: "is_split p1" "is_split p2" using sub(3,4) by (cases p1; cases p2; simp)+
  define n where "n = (if p1 = p2 then put_child k1 (t_ref s2) (node_of p1) else node_of p2)"
  have n: "cells h3 (t_ref p2) = Some n"
    using by_ref sub s ne cell by (auto simp: h3_def h2_def n_def)
  have upd: "put_child k2 (t_ref s1) n = swapped_node s1 s2 p2"
    "p1 \<noteq> p2 \<Longrightarrow> put_child k1 (t_ref s2) (node_of p1) = swapped_node s1 s2 p1"
    using swap_update_children [OF t(2,3) sub ne(1)] split ne
    by (auto simp: n_def put_child_def swapped_node_def k1_def k2_def node_children_node_of)
  have other: "swapped_node s1 s2 v =
      (if v = s1 then node_of (set_size (t_size s2) s1) else if v = s2 then node_of (set_size (t_size s1) s2)
       else node_of v)" if v: "v \<in> set (subtrees t)" "v \<noteq> p1" "v \<noteq> p2" for v
    using swapped_kids_same [OF t(2) sub v] ne(1)
    by (cases v) (auto simp: swapped_node_def node_children_node_of node_of_set_size)
  have "cells (setNode (t_ref p2) (put_child k2 (t_ref s1) n) h3) (t_ref v) = Some (swapped_node s1 s2 v)"
    if v: "v \<in> set (subtrees t)" for v
  proof (cases "v = p1 \<or> v = p2")
    case True
    then show ?thesis using upd by_ref sub by (auto simp: h3_def)
  next
    case False
    then show ?thesis
      using other [OF v] v by_ref sub s cell [OF v] ne(1) by (auto simp: h3_def h2_def)
  qed
  with n show ?thesis by blast
qed

text \<open>A store with those cells represents the swapped tree.\<close>

lemma represents_swap_tree:
  assumes t: "distinct (refs t)"
    and s: "s1 \<in> set (subtrees t)" "s2 \<in> set (subtrees t)" "t_id s1 = i" "t_id s2 = j"
      "j \<notin> set (ids s1)" "i \<notin> set (ids s2)" "i \<noteq> j" "only_at i s1 j s2 t" "distinct (ids t)"
    and cells: "\<And>v. v \<in> set (subtrees t) \<Longrightarrow> cells h (t_ref v) = Some (swapped_node s1 s2 v)"
    and roots: "t_id t \<noteq> i" "t_id t \<noteq> j"
  shows "represents h (swap_tree i j s1 s2 t)"
proof -
  have by_ref: "t_ref u = t_ref v \<longleftrightarrow> u = v" if "u \<in> set (subtrees t)" "v \<in> set (subtrees t)" for u v
    using subtree_by_ref [OF t that] by blast
  have at: "(t_id u = i) = (u = s1)" "(t_id u = j) = (u = s2)" if "u \<in> set (subtrees t)" for u
    using that s(3,4,8) by (auto simp: only_at_def)
  have same: "map (swap_ref (t_ref s1) (t_ref s2)) (map t_ref (kids v)) = map t_ref (kids v)"
    if v: "v \<in> set (subtrees t)" and no: "\<forall>c \<in> set (kids v). t_id c \<noteq> i \<and> t_id c \<noteq> j" for v
  proof -
    have "t_ref c \<noteq> t_ref s1 \<and> t_ref c \<noteq> t_ref s2" if c: "c \<in> set (kids v)" for c
      using c no at by_ref s(1,2) kid_subtree [OF c v] by blast
    then show ?thesis by (auto simp: swap_ref_def)
  qed
  have keep: "represents h u" if u: "u \<in> set (subtrees t)" "i \<notin> set (ids u)" "j \<notin> set (ids u)" for u
    unfolding represents_def
  proof
    fix v assume v: "v \<in> set (subtrees u)"
    have vt: "v \<in> set (subtrees t)" using subtree_trans [OF u(1) v] .
    have "t_id c \<noteq> i \<and> t_id c \<noteq> j" if "c \<in> set (kids v)" for c
      using that u(2,3) kid_subtree [OF that v] by (auto simp: ids_def)
    moreover have "t_id v \<noteq> i \<and> t_id v \<noteq> j" using u(2,3) v by (auto simp: ids_def)
    ultimately show "cells h (t_ref v) = Some (node_of v)"
      using cells [OF vt] same [OF vt] at [OF vt]
      by (cases v) (auto simp: swapped_node_def)
  qed
  have moved: "represents h (set_size z u) "
    if u: "u \<in> set (subtrees t)" "u = s1 \<and> z = t_size s2 \<or> u = s2 \<and> z = t_size s1" for u z
  proof -
    have no: "t_id c \<noteq> i \<and> t_id c \<noteq> j \<and> i \<notin> set (ids c) \<and> j \<notin> set (ids c)" if c: "c \<in> set (kids u)" for c
    proof -
      have "distinct (ids u)" using distinct_subtree(2) [OF u(1) s(9)] .
      then have "t_id u \<notin> set (ids c)" using root_id_not_in_kid c by blast
      then have "i \<notin> set (ids c) \<and> j \<notin> set (ids c)"
        using u(2) s(3-6) subtree_ids [OF kid_subtree [OF c self_in_subtrees]] by auto
      then show ?thesis using root_in(2) [of c] by metis
    qed
    have "cells h (t_ref u) = Some (node_of (set_size z u))"
      using cells [OF u(1)] same [OF u(1)] no u(2) s(3,4,7)
      by (cases u) (auto simp: swapped_node_def)
    moreover have "represents h c" if "c \<in> set (kids u)" for c
      using keep [OF kid_subtree [OF that u(1)]] no [OF that] by simp
    ultimately show ?thesis by (subst represents_unfold) simp
  qed
  have "u \<in> set (subtrees t) \<Longrightarrow> t_id u \<noteq> i \<Longrightarrow> t_id u \<noteq> j \<Longrightarrow> represents h (swap_tree i j s1 s2 u)" for u
  proof (induction u)
    case (Leaf a k b f z)
    then show ?case
      using cells [OF Leaf.prems(1)] at [OF Leaf.prems(1)] by (auto simp: represents_Leaf swapped_node_def)
  next
    case (Split a k f z ts)
    have sub: "c \<in> set (subtrees t)" if "c \<in> set ts" for c
      using kid_subtree [OF _ Split.prems(1)] that by simp
    define new where "new = (\<lambda>c. if t_id c = i then set_size (t_size c) s2
        else if t_id c = j then set_size (t_size c) s1 else swap_tree i j s1 s2 c)"
    have "t_ref (new c) = swap_ref (t_ref s1) (t_ref s2) (t_ref c) \<and> represents h (new c)"
      if c: "c \<in> set ts" for c
      using at [OF sub [OF c]] by_ref [OF sub [OF c]] s(1,2,7) moved Split.IH [OF c sub [OF c]]
      by (auto simp: new_def swap_ref_def)
    then have "map (swap_ref (t_ref s1) (t_ref s2)) (map t_ref ts) = map t_ref (map new ts)"
      "\<forall>c \<in> set ts. represents h (new c)" by auto
    moreover have "swap_tree i j s1 s2 (Split a k f z ts) = Split a k f z (map new ts)"
      by (simp add: new_def)
    moreover have "swapped_node s1 s2 (Split a k f z ts) =
        (node_of (Split a k f z ts))\<lparr>node_children := Some (map (swap_ref (t_ref s1) (t_ref s2)) (map t_ref ts))\<rparr>"
      using at [OF Split.prems(1)] Split.prems by (auto simp: swapped_node_def)
    ultimately show ?case
      using cells [OF Split.prems(1)] by (simp add: represents_Split del: swap_tree.simps)
  qed
  then show ?thesis using roots by simp
qed

lemma tree_world_swap:
  assumes w: "tree_world w t" and sw: "swappable i j t"
    and deep: "height (swap_ids i j t) \<le> stackDepth (fst w)"
  shows "\<exists>h'. swapNode i j w = (Inr (), (h', bumped (snd w))) \<and>
    tree_world (h', bumped (snd w)) (swap_ids i j t) \<and> stackDepth h' = stackDepth (fst w)"
proof -
  note wD = tree_worldD [OF w]
  obtain s1 s2 where s: "find_sub i t = Some s1" "find_sub j t = Some s2"
    "s1 \<in> set (subtrees t)" "s2 \<in> set (subtrees t)" "t_id s1 = i" "t_id s2 = j"
    "j \<notin> set (ids s1)" "i \<notin> set (ids s2)" "i \<noteq> j" "only_at i s1 j s2 t"
    by (rule swappableD [OF sw wD(4)])
  have roots: "t_id t \<noteq> i" "t_id t \<noteq> j" "i \<noteq> []" "j \<noteq> []" using sw by (auto simp: swappable_def)
  have parent: "\<exists>p. parent_walk k t = Some p \<and> p \<in> set (subtrees t) \<and> is_split p \<and> u \<in> set (kids p)"
    if u: "u \<in> set (subtrees t)" "t_id u = k" "t_id t \<noteq> k" for u k
  proof -
    have "k \<in> set (ids t)" using u by (auto simp: ids_def)
    then obtain p where p: "parent_walk k t = Some p"
      using parent_walk_None(1) [of k t] u(3) by (cases "parent_walk k t") auto
    obtain c where c: "p \<in> set (subtrees t)" "is_split p" "c \<in> set (kids p)" "t_id c = k"
      using parent_walk_Some(1) [OF p] by auto
    then have "c = u" using subtree_by_id [OF wD(4) _ u(1)] kid_subtree u(2) by metis
    with p c show ?thesis by blast
  qed
  obtain p1 where p1: "parent_walk i t = Some p1" "p1 \<in> set (subtrees t)" "is_split p1" "s1 \<in> set (kids p1)"
    using parent [OF s(3,5) roots(1)] by blast
  obtain p2 where p2: "parent_walk j t = Some p2" "p2 \<in> set (subtrees t)" "is_split p2" "s2 \<in> set (kids p2)"
    using parent [OF s(4,6) roots(2)] by blast
  have ne: "s1 \<noteq> s2" "p1 \<noteq> s1" "p1 \<noteq> s2" "p2 \<noteq> s1" "p2 \<noteq> s2"
  proof -
    have in1: "t_id c \<in> set (ids u)" if "c \<in> set (kids u)" for c u
      using kid_subtree [OF that self_in_subtrees] by (auto simp: ids_def)
    have out: "t_id u \<noteq> t_id c" if "c \<in> set (kids u)" "u \<in> set (subtrees t)" for c u
      using root_id_not_in_kid [OF distinct_subtree(2) [OF that(2) wD(4)] that(1)] root_in(2) [of c] by metis
    show "s1 \<noteq> s2" "p1 \<noteq> s1" "p1 \<noteq> s2" "p2 \<noteq> s1" "p2 \<noteq> s2"
      using in1 [OF p1(4)] in1 [OF p2(4)] out [OF p1(4,2)] out [OF p2(4,2)] s by auto
  qed
  obtain h ts where hts: "w = (h, ts)" by (cases w)
  have rep: "represents h t" using wD(2) hts by simp
  define k1 where "k1 = js_find_index (\<lambda>d. t_id d = i) (kids p1)"
  define k2 where "k2 = js_find_index (\<lambda>d. t_id d = j) (kids p2)"
  define h1 where "h1 = setNode (t_ref s1) (node_of (set_size (t_size s2) s1)) h"
  define h2 where "h2 = setNode (t_ref s2) (node_of (set_size (t_size s1) s2)) h1"
  define h3 where "h3 = setNode (t_ref p1) (put_child (nat k1) (t_ref s2) (node_of p1)) h2"
  obtain n where n: "cells h3 (t_ref p2) = Some n"
    "\<And>v. v \<in> set (subtrees t) \<Longrightarrow>
      cells (setNode (t_ref p2) (put_child (nat k2) (t_ref s1) n) h3) (t_ref v) = Some (swapped_node s1 s2 v)"
    using swap_cells [OF rep wD(3,4) p1(2) p2(2) p1(4) p2(4) ne] s(5,6)
    by (auto simp: h3_def h2_def h1_def k1_def k2_def)
  define h4 where "h4 = setNode (t_ref p2) (put_child (nat k2) (t_ref s1) n) h3"
  have cell: "cells h (t_ref v) = Some (node_of v)" if "v \<in> set (subtrees t)" for v
    using rep that by (simp add: represents_def)
  have by_ref: "t_ref u = t_ref v \<longleftrightarrow> u = v" if "u \<in> set (subtrees t)" "v \<in> set (subtrees t)" for u v
    using subtree_by_ref [OF wD(3) that] by blast
  have facts: "getNode h (t_ref t) = Inr (node_of t)" "rootNode ts = t_ref t"
    "findParent h (t_ref t) i = Inr (Some (t_ref p1))" "findParent h (t_ref t) j = Inr (Some (t_ref p2))"
    "indexIn h (t_ref p1) i = Inr k1" "indexIn h (t_ref p2) j = Inr k2"
    "getNode h (t_ref p1) = Inr (node_of p1)" "getNode h (t_ref p2) = Inr (node_of p2)"
    "getNode h (t_ref s1) = Inr (node_of s1)" "getNode h (t_ref s2) = Inr (node_of s2)"
    using wD(8,6) tree_world_findParent [OF w] p1(1) p2(1) cell p1(2) p2(2) s(3,4)
      indexIn_represents [OF represents_subtree [OF rep p1(2)] p1(3)]
      indexIn_represents [OF represents_subtree [OF rep p2(2)] p2(3)]
    by (simp_all add: hts k1_def k2_def)
  have kids_at: "js_at (the (node_children (node_of p1))) k1 = Some (t_ref s1)"
    "js_at (the (node_children (node_of p2))) k2 = Some (t_ref s2)"
    using kid_by_index(1) [OF p1(2) wD(4) p1(4)] kid_by_index(1) [OF p2(2) wD(4) p2(4)] p1(3) p2(3) s(5,6)
    by (simp_all add: node_children_node_of k1_def k2_def)
  have writes: "modifyNode (t_ref s1) (\<lambda>n. n\<lparr>node_size := t_size s2\<rparr>) h = (Inr (), h1)"
    "modifyNode (t_ref s2) (\<lambda>n. n\<lparr>node_size := t_size s1\<rparr>) h1 = (Inr (), h2)"
    "modifyNode (t_ref p1) (\<lambda>n. n\<lparr>node_children := map_option (\<lambda>cs. cs[nat k1 := t_ref s2]) (node_children n)\<rparr>) h2 = (Inr (), h3)"
    "modifyNode (t_ref p2) (\<lambda>n. n\<lparr>node_children := map_option (\<lambda>cs. cs[nat k2 := t_ref s1]) (node_children n)\<rparr>) h3 = (Inr (), h4)"
    using cell [OF s(3)] cell [OF s(4)] cell [OF p1(2)] n(1) by_ref s(3,4) p1(2) ne
    by (auto simp: modifyNode_def h1_def h2_def h3_def h4_def put_child_def node_of_set_size)
  have run: "swapNode i j w = (Inr (), (h4, bumped (snd w)))"
    using roots s(9) by (simp add: swapNode_def hts facts kids_at writes onStore_def bumpGeneration_def bumped_def)
  have tree: "swap_ids i j t = swap_tree i j s1 s2 t" using s by (simp add: swap_ids_def)
  have "represents h4 (swap_ids i j t)"
    unfolding tree h4_def by (rule represents_swap_tree [OF wD(3) s(3-10) wD(4) n(2) roots(1,2)])
  moreover have "wf_store h4"
    using wD(1) cell [OF s(3)] cell [OF s(4)] cell [OF p1(2)] n(1)
    by (auto simp: hts h1_def h2_def h3_def h4_def intro!: wf_store_setNode)
  moreover have "mset (refs (swap_ids i j t)) = mset (refs t)" "mset (ids (swap_ids i j t)) = mset (ids t)"
    unfolding refs_def ids_def by (rule swap_ids_perm [OF sw wD(4)], simp)+
  then have "distinct (refs (swap_ids i j t))" "distinct (ids (swap_ids i j t))"
    using wD(3,4) mset_eq_imp_distinct_iff by blast+
  moreover have sd: "stackDepth h4 = stackDepth h" by (simp add: h4_def h3_def h2_def h1_def)
  ultimately show ?thesis
    using run deep wD(6) tree by (auto simp: tree_world_def hts bumped_def)
qed

section \<open>Swapping twice\<close>

lemma swap_tree_moved:
  assumes "only_at i s1 j s2 t" "t_id s1 = i" "t_id s2 = j" "i \<noteq> j"
  shows "t_id t \<noteq> i \<Longrightarrow> t_id t \<noteq> j \<Longrightarrow>
    (j \<in> set (ids t) \<longrightarrow> set_size (t_size s2) s1 \<in> set (subtrees (swap_tree i j s1 s2 t)) \<or>
       i \<in> set (ids t) \<and> j \<in> set (ids s1)) \<and>
    (i \<in> set (ids t) \<longrightarrow> set_size (t_size s1) s2 \<in> set (subtrees (swap_tree i j s1 s2 t)) \<or>
       j \<in> set (ids t) \<and> i \<in> set (ids s2))"
  using assms(1)
proof (induction t)
  case (Split a k f s ts)
  define new where "new = (\<lambda>c. if t_id c = i then set_size (t_size c) s2
      else if t_id c = j then set_size (t_size c) s1 else swap_tree i j s1 s2 c)"
  have one: "(j \<in> set (ids c) \<longrightarrow> set_size (t_size s2) s1 \<in> set (subtrees (new c)) \<or>
        i \<in> set (ids c) \<and> j \<in> set (ids s1)) \<and>
      (i \<in> set (ids c) \<longrightarrow> set_size (t_size s1) s2 \<in> set (subtrees (new c)) \<or>
        j \<in> set (ids c) \<and> i \<in> set (ids s2))"
    if c: "c \<in> set ts" for c
  proof -
    have oc: "only_at i s1 j s2 c" using only_at_kid [OF Split.prems(3)] c by simp
    show ?thesis
      using only_at_root [OF oc] Split.IH [OF c _ _ oc] assms(2-4)
      by (cases "t_id c = i"; cases "t_id c = j") (auto simp: new_def)
  qed
  have tree: "swap_tree i j s1 s2 (Split a k f s ts) = Split a k f s (map new ts)"
    by (simp add: new_def)
  have up: "x \<in> set (subtrees (swap_tree i j s1 s2 (Split a k f s ts)))"
    if "x \<in> set (subtrees (new c))" "c \<in> set ts" for x c
    using that unfolding tree by auto
  have down: "\<exists>c \<in> set ts. x \<in> set (ids c)"
    if "x \<in> set (ids (Split a k f s ts))" "x \<noteq> k" for x
    using that by auto
  have into: "x \<in> set (ids (Split a k f s ts))" if "x \<in> set (ids c)" "c \<in> set ts" for x c
    using that by auto
  have ne: "j \<noteq> k" "i \<noteq> k" using Split.prems by auto
  show ?case using down [OF _ ne(1)] down [OF _ ne(2)] one up into by metis
qed simp

lemma swap_ids_found:
  assumes "swappable i j t" "distinct (ids t)" "find_sub i t = Some s1" "find_sub j t = Some s2"
  shows "mset (ids (swap_ids i j t)) = mset (ids t)"
    and "find_sub i (swap_ids i j t) = Some (set_size (t_size s2) s1)"
    and "find_sub j (swap_ids i j t) = Some (set_size (t_size s1) s2)"
proof -
  have s: "s1 \<in> set (subtrees t)" "s2 \<in> set (subtrees t)" "t_id s1 = i" "t_id s2 = j"
    "j \<notin> set (ids s1)" "i \<notin> set (ids s2)" "i \<noteq> j" "only_at i s1 j s2 t"
    using assms(3,4) by (auto intro: swappableD [OF assms(1,2)])
  have roots: "t_id t \<noteq> i" "t_id t \<noteq> j" using assms(1) by (auto simp: swappable_def)
  have t': "swap_ids i j t = swap_tree i j s1 s2 t" using assms(3,4) by (simp add: swap_ids_def)
  have "i \<in> set (ids t)" "j \<in> set (ids t)" using s(1-4) by (auto simp: ids_def)
  then have m: "set_size (t_size s2) s1 \<in> set (subtrees (swap_ids i j t))"
    "set_size (t_size s1) s2 \<in> set (subtrees (swap_ids i j t))"
    using swap_tree_moved [OF s(8,3,4,7) roots] s(5,6) t' by auto
  show perm: "mset (ids (swap_ids i j t)) = mset (ids t)"
    unfolding ids_def by (rule swap_ids_perm [OF assms(1,2)]) simp
  then have d: "distinct (ids (swap_ids i j t))" using assms(2) mset_eq_imp_distinct_iff by blast
  have found: "find_sub k (swap_ids i j t) = Some u"
    if u: "u \<in> set (subtrees (swap_ids i j t))" "t_id u = k" for u k
  proof -
    have "k \<in> set (ids (swap_ids i j t))" using u by (auto simp: ids_def)
    then obtain v where "find_sub k (swap_ids i j t) = Some v" "v \<in> set (subtrees (swap_ids i j t))" "t_id v = k"
      using find_sub_in by blast
    then show ?thesis using subtree_by_id [OF d _ u(1)] u(2) by auto
  qed
  show "find_sub i (swap_ids i j t) = Some (set_size (t_size s2) s1)"
    "find_sub j (swap_ids i j t) = Some (set_size (t_size s1) s2)"
    using found m s(3,4) by simp_all
qed

lemma swap_ids_twice:
  assumes "swappable i j t" "distinct (ids t)"
  shows "swappable i j (swap_ids i j t)" "swap_ids i j (swap_ids i j t) = t"
proof -
  obtain s1 s2 where s: "find_sub i t = Some s1" "find_sub j t = Some s2"
    "s1 \<in> set (subtrees t)" "s2 \<in> set (subtrees t)" "t_id s1 = i" "t_id s2 = j"
    "j \<notin> set (ids s1)" "i \<notin> set (ids s2)" "i \<noteq> j" "only_at i s1 j s2 t"
    by (rule swappableD [OF assms])
  have roots: "t_id t \<noteq> i" "t_id t \<noteq> j" "i \<noteq> []" "j \<noteq> []" using assms(1) by (auto simp: swappable_def)
  have t': "swap_ids i j t = swap_tree i j s1 s2 t" using s by (simp add: swap_ids_def)
  note f = swap_ids_found(2,3) [OF assms s(1,2)]
  show "swappable i j (swap_ids i j t)"
    using f s(7,8) roots by (simp add: swappable_def t')
  show "swap_ids i j (swap_ids i j t) = t"
    unfolding swap_ids_def [of i j "swap_ids i j t"]
    using f swap_tree_twice [OF s(10,5,6,9) roots(1,2)] by (simp add: t')
qed

end
