(* ===== verification/LayoutInsert.thy ===== *)
theory LayoutInsert
  imports LayoutEdit "HOL-Library.Multiset"
begin

text \<open>
  Inserting a new leaf: where \<open>findNextInsertLocation\<close> puts it, and what \<open>addChildAt\<close> makes of
  the node there. A split gets the leaf as its last child; a leaf becomes a split of itself,
  moved into a fresh node that takes over its identifier, and the new leaf.
\<close>

section \<open>Edits, in general\<close>

text \<open>A relation between a tree and its edited form is proved at the edited subtree and along the path to it.\<close>

lemma edit_split:
  assumes "distinct (refs t)" "s \<in> set (subtrees t)" "t_ref t \<noteq> t_ref s"
  obtains a i f z xs c ys where "t = Split a i f z (xs @ c # ys)" "s \<in> set (subtrees c)" "distinct (refs c)"
    "edit (t_ref s) g t = Split a i f z (xs @ edit (t_ref s) g c # ys)"
proof -
  obtain a i f z ts where t: "t = Split a i f z ts" using assms by (cases t) auto
  with assms obtain c where c: "c \<in> set ts" "s \<in> set (subtrees c)" by auto
  obtain xs ys where ts: "ts = xs @ c # ys" using c(1) split_list by metis
  have out: "edit (t_ref s) g d = d" if "d \<in> set (xs @ ys)" for d
  proof (rule edit_outside)
    have "distinct (concat (map refs ts))" using assms(1) t by simp
    then have "set (refs d) \<inter> set (refs c) = {}" using that ts by auto
    then show "t_ref s \<notin> set (refs d)" using c(2) by (auto simp: refs_def)
  qed
  have "map (edit (t_ref s) g) xs = xs" "map (edit (t_ref s) g) ys = ys"
    using out by (auto intro!: map_idI)
  moreover have "distinct (refs c)" using distinct_refs_kid [OF assms(1), of c] c(1) t by simp
  ultimately show ?thesis using that t ts c assms(3) by auto
qed

lemma edit_induct [consumes 2, case_names here below]:
  assumes "distinct (refs t)" "s \<in> set (subtrees t)"
    and here: "P s (g s)"
    and below: "\<And>a i f z xs c c' ys. P c c' \<Longrightarrow> P (Split a i f z (xs @ c # ys)) (Split a i f z (xs @ c' # ys))"
  shows "P t (edit (t_ref s) g t)"
  using assms(1,2)
proof (induction t rule: ltree_kids_induct)
  case (step t)
  show ?case
  proof (cases "t_ref t = t_ref s")
    case True
    then have "s = t" using step.prems subtree_by_ref by (metis self_in_subtrees)
    then show ?thesis using here by (simp add: edit_root)
  next
    case False
    obtain a i f z xs c ys where t: "t = Split a i f z (xs @ c # ys)" "s \<in> set (subtrees c)"
      "distinct (refs c)" "edit (t_ref s) g t = Split a i f z (xs @ edit (t_ref s) g c # ys)"
      by (rule edit_split [OF step.prems False])
    then have "P c (edit (t_ref s) g c)" using step.IH [of c] by simp
    then show ?thesis using below t by metis
  qed
qed

lemma edit_mset:
  assumes "distinct (refs t)" "s \<in> set (subtrees t)"
    and key: "\<And>u v. t_ref u = t_ref v \<Longrightarrow> t_id u = t_id v \<Longrightarrow> key u = key v"
  shows "image_mset key (mset (subtrees (edit (t_ref s) g t))) + image_mset key (mset (subtrees s)) =
    image_mset key (mset (subtrees t)) + image_mset key (mset (subtrees (g s)))"
  using assms(1,2)
proof (induction rule: edit_induct)
  case (below a i f z xs c c' ys)
  have "key (Split a i f z (xs @ c' # ys)) = key (Split a i f z (xs @ c # ys))" by (rule key) simp_all
  with below show ?case by simp
qed simp

lemma leaves_edit:
  assumes "distinct (refs t)" "s \<in> set (subtrees t)" "leaves (g s) = leaves s @ [e]"
  shows "\<exists>xs ys. leaves t = xs @ ys \<and> leaves (edit (t_ref s) g t) = xs @ e # ys"
  using assms(1,2)
proof (induction rule: edit_induct)
  case here
  then show ?case using assms(3) by (intro exI [of _ "leaves s"] exI [of _ "[]"]) simp
next
  case (below a i f z xs c c' ys)
  then obtain us vs where "leaves c = us @ vs" "leaves c' = us @ e # vs" by blast
  then show ?case
    by (intro exI [of _ "concat (map leaves xs) @ us"] exI [of _ "vs @ concat (map leaves ys)"]) simp
qed

text \<open>The number of children of a node, and the directions that alternate from level to level.\<close>

definition shape :: "ltree \<Rightarrow> flexDirection \<times> flexDirection list" where
  "shape t = (t_flex t, map t_flex (kids t))"

definition everywhere :: "(flexDirection \<times> flexDirection list \<Rightarrow> bool) \<Rightarrow> ltree \<Rightarrow> bool" where
  "everywhere Q t \<longleftrightarrow> (\<forall>u \<in> set (subtrees t). Q (shape u))"

definition max_kids :: "nat \<Rightarrow> ltree \<Rightarrow> bool" where
  "max_kids m = everywhere (\<lambda>(f, fs). length fs \<le> m)"

definition alternating :: "ltree \<Rightarrow> bool" where
  "alternating = everywhere (\<lambda>(f, fs). \<forall>f' \<in> set fs. f' = reverseFlexDirection f)"

lemma everywhere_edit:
  assumes "distinct (refs t)" "s \<in> set (subtrees t)" "t_flex (g s) = t_flex s"
    "everywhere Q t" "everywhere Q (g s)"
  shows "everywhere Q (edit (t_ref s) g t)"
proof -
  have "(everywhere Q t \<longrightarrow> everywhere Q (edit (t_ref s) g t)) \<and> t_flex (edit (t_ref s) g t) = t_flex t"
    using assms(1,2)
  proof (induction rule: edit_induct)
    case here
    then show ?case using assms by simp
  next
    case (below a i f z xs c c' ys)
    then show ?case by (auto simp: everywhere_def shape_def)
  qed
  with assms(4) show ?thesis by simp
qed

lemma height_edit:
  assumes "distinct (refs t)" "s \<in> set (subtrees t)" "height (g s) \<le> Suc (height s)"
  shows "height (edit (t_ref s) g t) \<le> Suc (height t)"
  using assms(1,2)
proof (induction rule: edit_induct)
  case (below a i f z xs c c' ys)
  have "foldr max ms (max a b) = max a (foldr max ms b)" for ms and a b :: nat
    by (induction ms) auto
  moreover have "foldr max ms b \<le> foldr max ms d" if "b \<le> d" for ms and b d :: nat
    using that by (induction ms) auto
  moreover have "foldr max ms (Suc b) \<le> Suc (foldr max ms b)" for ms and b :: nat
    by (induction ms) auto
  ultimately show ?case using below
    by (auto intro: order.trans max.mono)
qed (use assms(3) in simp)

section \<open>The place of the next node\<close>

definition insert_place :: "nat \<Rightarrow> ltree \<Rightarrow> insertLoc \<Rightarrow> bool" where
  "insert_place m s l \<longleftrightarrow>
     il_node l = t_ref s \<and>
     (if is_split s then length (kids s) < m \<and> il_index l = length (kids s) else il_index l = 1)"

lemma mapR_exists:
  "(\<And>x. x \<in> set xs \<Longrightarrow> \<exists>y. f x = Inr y \<and> P x y) \<Longrightarrow>
    \<exists>ys. mapR f xs = Inr ys \<and> list_all2 P xs ys"
  by (induction xs) fastforce+

lemma mapR_map: "mapR f (map g xs) = mapR (\<lambda>x. f (g x)) xs"
  by (induction xs) auto

lemma insertHelper_place:
  assumes "represents h t" "wf_store h" "height t \<le> d" "0 < m"
  shows "\<exists>l s. findNextInsertLocationHelper d h m k (t_ref t) = Inr (Some l) \<and>
    s \<in> set (subtrees t) \<and> insert_place m s l"
  using assms(1,3)
proof (induction t arbitrary: d k rule: ltree_kids_induct)
  case (step t)
  obtain d' where d: "d = Suc d'" using step.prems(2) height_pos [of t] by (cases d) auto
  have cell: "cells h (t_ref t) = Some (node_of t)" and nz: "t_ref t \<noteq> undef"
    using step.prems assms(2) represents_root represents_ref_not_undef by auto
  show ?case
  proof (cases t)
    case (Leaf a i b f s)
    then show ?thesis
      using nz cell by (auto simp: d getNode_def insert_place_def)
  next
    case (Split a i f s ts)
    have kid: "\<exists>y. findNextInsertLocationHelper d' h m (k + 1) (t_ref c) = Inr y \<and>
        (\<exists>l s. y = Some l \<and> s \<in> set (subtrees c) \<and> insert_place m s l)"
      if c: "c \<in> set (rev ts)" for c
    proof -
      have "represents h c" "height c \<le> d'"
        using step.prems c Split represents_kid [of h t c] height_kid [of c t] d by auto
      then show ?thesis using step.IH [of c d' "k + 1"] c Split by auto
    qed
    note found = mapR_exists [of "rev ts" "\<lambda>c. findNextInsertLocationHelper d' h m (k + 1) (t_ref c)"
        "\<lambda>c y. \<exists>l s. y = Some l \<and> s \<in> set (subtrees c) \<and> insert_place m s l", OF kid]
    obtain ys where ys: "mapR (\<lambda>c. findNextInsertLocationHelper d' h m (k + 1) (t_ref c)) (rev ts) = Inr ys"
      "list_all2 (\<lambda>c y. \<exists>l s. y = Some l \<and> s \<in> set (subtrees c) \<and> insert_place m s l) (rev ts) ys"
      using found by blast
    define own where "own = (if length ts < m
        then [Some \<lparr>il_node = a, il_index = length ts, il_depth = k\<rparr>] else [])"
    define locs where "locs = sort_key (\<lambda>a. il_depth a ^ (il_index a + m)) (map the (filter (\<lambda>a. a \<noteq> None) (own @ ys)))"
    have below: "\<exists>l s. y = Some l \<and> s \<in> set (subtrees t) \<and> insert_place m s l" if y: "y \<in> set ys" for y
    proof -
      obtain n where n: "n < length ys" "y = ys ! n" using y by (auto simp: in_set_conv_nth)
      have "n < length (rev ts)" using n(1) list_all2_lengthD [OF ys(2)] by simp
      from nth_mem [OF this] have "rev ts ! n \<in> set ts" by (simp only: set_rev)
      then obtain c where "c \<in> set ts" "\<exists>l s. y = Some l \<and> s \<in> set (subtrees c) \<and> insert_place m s l"
        using list_all2_nthD2 [OF ys(2) n(1)] n(2) by blast
      then show ?thesis using Split by auto
    qed
    have set_locs: "set locs = {l. Some l \<in> set (own @ ys)}"
    proof -
      have "set (map the (filter (\<lambda>a. a \<noteq> None) zs)) = {l. Some l \<in> set zs}" for zs :: "insertLoc option list"
        by (induction zs) auto
      then show ?thesis unfolding locs_def by (simp only: set_sort)
    qed
    have all: "\<exists>s. s \<in> set (subtrees t) \<and> insert_place m s l" if "l \<in> set locs" for l
    proof (cases "Some l \<in> set ys")
      case True
      from below [OF this] show ?thesis by blast
    next
      case False
      with that have "Some l \<in> set own" by (simp add: set_locs)
      then have "insert_place m t l" using Split by (auto simp: own_def insert_place_def split: if_splits)
      then show ?thesis by (intro exI [of _ t]) simp
    qed
    have "locs \<noteq> []"
    proof (cases "length ts < m")
      case False
      then obtain y where "y \<in> set ys" using ys(2) assms(4) by (cases ys) (auto dest: list_all2_lengthD)
      then obtain l where "Some l \<in> set ys" using below by blast
      then show ?thesis using set_locs by force
    next
      case True
      then show ?thesis using set_locs by (force simp: own_def)
    qed
    then obtain l ls where l: "locs = l # ls" by (cases locs) auto
    have "findNextInsertLocationHelper d h m k (t_ref t) = Inr (Some l)"
      using nz cell ys(1) l
      by (cases "length ts < m") (simp_all add: d Split getNode_def mapR_map rev_map own_def locs_def)
    then show ?thesis using all [of l] l by auto
  qed
qed

section \<open>Adding the leaf\<close>

text \<open>\<open>q\<close> and \<open>u\<close> are the reference and identifier drawn when a leaf has to be split.\<close>

fun add_leaf :: "ref \<Rightarrow> string \<Rightarrow> ref \<Rightarrow> string \<Rightarrow> string \<Rightarrow> jsnum \<Rightarrow> ltree \<Rightarrow> ltree" where
  "add_leaf q u a i b z (Leaf sa si sb sf sz) =
     Split sa u sf sz
       [Leaf q si sb (reverseFlexDirection sf) DefaultNodeSize, Leaf a i b (reverseFlexDirection sf) z]"
| "add_leaf q u a i b z (Split sa si sf sz ts) =
     Split sa si sf sz (ts @ [Leaf a i b (reverseFlexDirection sf) z])"

lemma add_leaf_simps [simp]:
  "t_ref (add_leaf q u a i b z s) = t_ref s" "t_flex (add_leaf q u a i b z s) = t_flex s"
  "leaves (add_leaf q u a i b z s) = leaves s @ [\<lparr>le_nodeid = i, le_blockid = b\<rparr>]"
  by (cases s; simp)+

lemma height_add_leaf: "height (add_leaf q u a i b z s) \<le> Suc (height s)"
proof -
  have "foldr max (ms @ [1]) 0 \<le> max 1 (foldr max ms 0)" for ms :: "nat list"
    by (induction ms) auto
  from this [of "map height (kids s)"]
  have "foldr max (map height (kids s @ [Leaf a i b (reverseFlexDirection (t_flex s)) z])) 0 \<le>
      Suc (foldr max (map height (kids s)) 0)" by simp
  then show ?thesis by (cases s) auto
qed

lemma everywhere_add_leaf:
  "max_kids m s \<Longrightarrow> 2 \<le> m \<Longrightarrow> (is_split s \<longrightarrow> length (kids s) < m) \<Longrightarrow> max_kids m (add_leaf q u a i b z s)"
  "alternating s \<Longrightarrow> alternating (add_leaf q u a i b z s)"
  by (cases s; auto simp: max_kids_def alternating_def everywhere_def shape_def)+

text \<open>The store after the new leaf was added to a node, and what \<open>addChildAt\<close> does.\<close>

definition leaf_node :: "string \<Rightarrow> string \<Rightarrow> flexDirection \<Rightarrow> jsnum \<Rightarrow> layoutNode" where
  "leaf_node i b f z = \<lparr>node_id = i, node_data = Some b, node_children = None, node_flex = f, node_size = z\<rparr>"

lemma reverse_other: "f \<noteq> g \<Longrightarrow> f = reverseFlexDirection g"
  by (cases f; cases g) auto

lemma childToAdd_leaf:
  assumes "cells h a = Some (leaf_node i b f z)" "cells h p = Some pn" "a \<noteq> p"
  shows "\<exists>h'. childToAdd p a h = (Inr [a], h') \<and>
    cells h' = (cells h)(a := Some (leaf_node i b (reverseFlexDirection (node_flex pn)) z)) \<and>
    nextRef h' = nextRef h \<and> uuids h' = uuids h \<and> drawn h' = drawn h \<and> stackDepth h' = stackDepth h"
proof (cases "f = node_flex pn")
  case True
  then show ?thesis using assms by (auto simp: childToAdd_def getNode_def leaf_node_def)
next
  case False
  then have "f = reverseFlexDirection (node_flex pn)" by (rule reverse_other)
  with False show ?thesis
    using assms by (intro exI [of _ h]) (auto simp: childToAdd_def getNode_def leaf_node_def)
qed

lemma addChildAt_split:
  assumes "represents h s" "is_split s" "cells h a = Some (leaf_node i b f z)" "a \<noteq> t_ref s"
  shows "\<exists>h'. addChildAt (t_ref s) (Some (int (length (kids s)))) [a] h = (Inr (), h') \<and>
    cells h' = (cells h)(a := Some (leaf_node i b (reverseFlexDirection (t_flex s)) z),
                         t_ref s := Some (node_of (add_leaf q u a i b z s))) \<and>
    nextRef h' = nextRef h \<and> uuids h' = uuids h \<and> drawn h' = drawn h \<and> stackDepth h' = stackDepth h"
proof -
  obtain sa si sf sz ts where s: "s = Split sa si sf sz ts" using assms(2) by (cases s) auto
  have cell: "cells h sa = Some (node_of s)" using represents_root [OF assms(1)] s by simp
  obtain h1 where h1: "childToAdd sa a h = (Inr [a], h1)"
    "cells h1 = (cells h)(a := Some (leaf_node i b (reverseFlexDirection sf) z))"
    "nextRef h1 = nextRef h" "uuids h1 = uuids h" "drawn h1 = drawn h" "stackDepth h1 = stackDepth h"
    using childToAdd_leaf [OF assms(3) cell] assms(4) s by auto
  show ?thesis
    using h1 cell assms(4) s
    by (auto simp: addChildAt_def getNode_def insertChildren_def)
qed

lemma addIntermediateNode_leaf:
  assumes "represents h (Leaf sa si sb sf sz)" "wf_store h"
  shows "\<exists>h'. addIntermediateNode sa h = (Inr (nextRef h), h') \<and>
    cells h' = (cells h)(nextRef h := Some (leaf_node si sb (reverseFlexDirection sf) DefaultNodeSize),
      sa := Some \<lparr>node_id = uuids h (drawn h), node_data = None, node_children = Some [nextRef h],
                  node_flex = sf, node_size = sz\<rparr>) \<and>
    nextRef h' = Suc (nextRef h) \<and> uuids h' = uuids h \<and> drawn h' = Suc (drawn h) \<and> stackDepth h' = stackDepth h"
proof -
  have cell: "cells h sa = Some (leaf_node si sb sf sz)"
    using assms(1) by (simp add: represents_Leaf leaf_node_def)
  have "sa \<noteq> nextRef h" using wf_store_cell [OF assms(2) cell] by simp
  then show ?thesis
    using cell
    by (simp add: addIntermediateNode_def newLayoutNode_def randomUUID_def allocNode_def validateNode_def
        getNode_def modifyNode_def Let_def leaf_node_def fun_upd_twist)
qed

lemma addChildAt_leaf:
  assumes "represents h s" "\<not> is_split s" "cells h a = Some (leaf_node i b f z)" "a \<noteq> t_ref s" "wf_store h"
  shows "\<exists>h'. addChildAt (t_ref s) (Some 1) [a] h = (Inr (), h') \<and>
    cells h' = (cells h)(a := Some (leaf_node i b (reverseFlexDirection (t_flex s)) z),
      nextRef h := Some (leaf_node (t_id s) (le_blockid (hd (leaves s))) (reverseFlexDirection (t_flex s)) DefaultNodeSize),
      t_ref s := Some (node_of (add_leaf (nextRef h) (uuids h (drawn h)) a i b z s))) \<and>
    nextRef h' = Suc (nextRef h) \<and> stackDepth h' = stackDepth h"
proof -
  obtain sa si sb sf sz where s: "s = Leaf sa si sb sf sz" using assms(2) by (cases s) auto
  define q where "q = nextRef h"
  have cell: "cells h sa = Some (leaf_node si sb sf sz)"
    using assms(1) by (simp add: s represents_Leaf leaf_node_def)
  have ne: "sa \<noteq> q" "a \<noteq> q" "a \<noteq> sa"
    using wf_store_cell [OF assms(5) cell] wf_store_cell [OF assms(5,3)] assms(4) s by (auto simp: q_def)
  define top where "top = \<lparr>node_id = uuids h (drawn h), node_data = None, node_children = Some [q],
    node_flex = sf, node_size = sz\<rparr>"
  obtain h1 where h1: "addIntermediateNode sa h = (Inr q, h1)"
    "cells h1 = (cells h)(q := Some (leaf_node si sb (reverseFlexDirection sf) DefaultNodeSize), sa := Some top)"
    "nextRef h1 = Suc q" "stackDepth h1 = stackDepth h"
    using addIntermediateNode_leaf [OF assms(1) [unfolded s] assms(5)] by (auto simp: q_def top_def)
  have "cells h1 a = Some (leaf_node i b f z)" "cells h1 sa = Some top" using h1(2) ne assms(3) by auto
  from childToAdd_leaf [OF this ne(3)] obtain h2 where h2: "childToAdd sa a h1 = (Inr [a], h2)"
    "cells h2 = (cells h1)(a := Some (leaf_node i b (reverseFlexDirection sf) z))"
    "nextRef h2 = nextRef h1" "stackDepth h2 = stackDepth h1"
    by (auto simp: top_def)
  have cells2: "cells h2 sa = Some top" using h2(2) h1(2) ne by simp
  define h3 where "h3 = setNode sa (top\<lparr>node_children := Some [q, a]\<rparr>) h2"
  have "addChildAt sa (Some 1) [a] h = (Inr (), h3)"
    using cell h1(1) h2(1) cells2
    by (simp add: addChildAt_def getNode_def leaf_node_def insertChildren_def h3_def top_def)
  moreover have "cells h3 = (cells h)(a := Some (leaf_node i b (reverseFlexDirection sf) z),
      q := Some (leaf_node si sb (reverseFlexDirection sf) DefaultNodeSize),
      sa := Some (node_of (add_leaf q (uuids h (drawn h)) a i b z s)))"
    using ne by (auto simp: h3_def h2(2) h1(2) top_def s fun_eq_iff)
  moreover have "nextRef h3 = Suc (nextRef h)" "stackDepth h3 = stackDepth h"
    using h1(3,4) h2(3,4) by (simp_all add: h3_def q_def)
  ultimately show ?thesis by (simp add: s q_def)
qed

text \<open>Both cases: what a store looks like after the new leaf was added.\<close>

lemma addChildAt_leaf_added:
  assumes "represents h s" "distinct (refs s)" "wf_store h" "cells h a = Some (leaf_node i b f z)"
    "a \<notin> set (refs s)" "insert_place m s l"
  defines "t' \<equiv> add_leaf (nextRef h) (uuids h (drawn h)) a i b z s"
  shows "\<exists>h'. addChildAt (il_node l) (Some (int (il_index l))) [a] h = (Inr (), h') \<and>
    represents h' t' \<and> wf_store h' \<and> stackDepth h' = stackDepth h \<and>
    cells h' a = Some (leaf_node i b (reverseFlexDirection (t_flex s)) z) \<and>
    (\<forall>c. c \<noteq> a \<longrightarrow> c \<noteq> t_ref s \<longrightarrow> c \<noteq> nextRef h \<longrightarrow> cells h' c = cells h c)"
proof (cases "is_split s")
  case True
  have l: "il_node l = t_ref s" "il_index l = length (kids s)" using assms(6) True by (auto simp: insert_place_def)
  have as: "a \<noteq> t_ref s" using assms(5) root_in(1) [of s] by metis
  obtain h' where h': "addChildAt (t_ref s) (Some (int (length (kids s)))) [a] h = (Inr (), h')"
    "cells h' = (cells h)(a := Some (leaf_node i b (reverseFlexDirection (t_flex s)) z), t_ref s := Some (node_of t'))"
    "nextRef h' = nextRef h" "stackDepth h' = stackDepth h"
    using addChildAt_split [OF assms(1) True assms(4) as] by (auto simp: t'_def)
  have kids': "represents h' c" if c: "c \<in> set (kids s)" for c
  proof -
    have "a \<notin> set (refs c)" "t_ref s \<notin> set (refs c)"
      using c assms(5) kid_refs [OF c] root_ref_not_in_kid [OF assms(2) c] by auto
    then have "represents h' c \<longleftrightarrow> represents h c" using h'(2) by (intro represents_cong) auto
    then show ?thesis using represents_kid [OF assms(1) c] by simp
  qed
  have "represents h' t'"
    using True kids' h'(2) as
    by (cases s) (auto simp: t'_def represents_Split represents_Leaf leaf_node_def)
  moreover have "wf_store h'"
    using assms(3,4) represents_root [OF assms(1)] h'(2,3) by (auto simp: wf_store_def)
  ultimately show ?thesis using h' l as by (intro exI [of _ h']) auto
next
  case False
  have l: "il_node l = t_ref s" "il_index l = 1" using assms(6) False by (auto simp: insert_place_def)
  have as: "a \<noteq> t_ref s" using assms(5) root_in(1) [of s] by metis
  obtain h' where h': "addChildAt (t_ref s) (Some 1) [a] h = (Inr (), h')"
    "cells h' = (cells h)(a := Some (leaf_node i b (reverseFlexDirection (t_flex s)) z),
      nextRef h := Some (leaf_node (t_id s) (le_blockid (hd (leaves s))) (reverseFlexDirection (t_flex s)) DefaultNodeSize),
      t_ref s := Some (node_of t'))"
    "nextRef h' = Suc (nextRef h)" "stackDepth h' = stackDepth h"
    using addChildAt_leaf [OF assms(1) False assms(4) as assms(3)] by (auto simp: t'_def)
  have fresh: "a \<noteq> nextRef h" "t_ref s \<noteq> nextRef h"
    using wf_store_cell [OF assms(3,4)] wf_store_cell [OF assms(3) represents_root [OF assms(1)]] by auto
  have "represents h' t'"
    using False h'(2) as fresh
    by (cases s) (auto simp: t'_def represents_Split represents_Leaf leaf_node_def)
  moreover have "wf_store h'"
    using assms(3,4) wf_store_cell [OF assms(3) represents_root [OF assms(1)]] wf_store_cell [OF assms(3,4)] h'(2,3)
    by (auto simp: wf_store_def undef_def)
  ultimately show ?thesis using h' l as fresh by (intro exI [of _ h']) auto
qed

section \<open>Inserting into the tree\<close>

text \<open>A node made by \<open>newLayoutNode\<close> for a block, not yet in the tree, and a fresh identifier to draw.\<close>

definition insertable :: "treeWorld \<Rightarrow> ltree \<Rightarrow> ref \<Rightarrow> string \<Rightarrow> string \<Rightarrow> flexDirection \<Rightarrow> jsnum \<Rightarrow> bool" where
  "insertable w t a i b f z \<longleftrightarrow>
     cells (fst w) a = Some (leaf_node i b f z) \<and> a \<notin> set (refs t) \<and> i \<notin> set (ids t) \<and>
     uuids (fst w) (drawn (fst w)) \<notin> set (ids t) \<and> uuids (fst w) (drawn (fst w)) \<noteq> i \<and>
     height t < stackDepth (fst w)"

lemma distinct_from_mset:
  "mset xs' + A = mset xs + B \<Longrightarrow> A \<subseteq># B \<Longrightarrow> distinct (xs @ ys) \<Longrightarrow> mset ys = B - A \<Longrightarrow> distinct xs'"
proof -
  assume a: "mset xs' + A = mset xs + B" "A \<subseteq># B" "distinct (xs @ ys)" "mset ys = B - A"
  then have "mset xs' = mset (xs @ ys)"
    by (metis add_diff_cancel_right' mset_append subset_mset.add_diff_assoc)
  then show ?thesis using a(3) mset_eq_imp_distinct_iff by blast
qed

lemma insertNode_world:
  fixes mag foc :: bool
  assumes w: "tree_world w t" and ins: "insertable w t a i b f z"
  defines "op1 \<equiv> \<lparr>ins_node = a, ins_magnified = mag, ins_focused = foc\<rparr>"
    and "ts' \<equiv> bumped (focusInserted mag foc i (snd w))"
    and "g \<equiv> add_leaf (nextRef (fst w)) (uuids (fst w) (drawn (fst w))) a i b z"
  shows "\<exists>s h'. s \<in> set (subtrees t) \<and> (is_split s \<longrightarrow> length (kids s) < DEFAULT_MAX_CHILDREN) \<and>
    insertNode op1 w = (Inr (), (h', ts')) \<and> tree_world (h', ts') (edit (t_ref s) g t)"
proof -
  note wD = tree_worldD [OF w]
  obtain h ts where hts: "w = (h, ts)" by (cases w)
  have ia: "cells h a = Some (leaf_node i b f z)" "a \<notin> set (refs t)" "i \<notin> set (ids t)"
    "uuids h (drawn h) \<notin> set (ids t)" "uuids h (drawn h) \<noteq> i" "height t < stackDepth h"
    using ins by (auto simp: insertable_def hts)
  have wf: "wf_store h" and rep: "represents h t" using wD(1,2) hts by auto
  have anz: "a \<noteq> undef" and alt: "a < nextRef h" using wf_store_cell [OF wf ia(1)] by auto
  obtain l s where loc: "findNextInsertLocationHelper (stackDepth h) h DEFAULT_MAX_CHILDREN 1 (t_ref t) = Inr (Some l)"
    "s \<in> set (subtrees t)" "insert_place DEFAULT_MAX_CHILDREN s l"
    using insertHelper_place [OF rep wf, of "stackDepth h" DEFAULT_MAX_CHILDREN 1] wD(5)
    by (auto simp: hts DEFAULT_MAX_CHILDREN_def)
  have rs: "represents h s" "distinct (refs s)" "a \<notin> set (refs s)"
    using represents_subtree [OF rep loc(2)] distinct_subtree(1) [OF loc(2) wD(3)] subtree_refs [OF loc(2)] ia(2)
    by auto
  obtain h' where h': "addChildAt (il_node l) (Some (int (il_index l))) [a] h = (Inr (), h')"
    "represents h' (g s)" "wf_store h'" "stackDepth h' = stackDepth h"
    "cells h' a = Some (leaf_node i b (reverseFlexDirection (t_flex s)) z)"
    "\<And>c. c \<noteq> a \<Longrightarrow> c \<noteq> t_ref s \<Longrightarrow> c \<noteq> nextRef h \<Longrightarrow> cells h' c = cells h c"
    using addChildAt_leaf_added [OF rs(1,2) wf ia(1) rs(3) loc(3)] by (auto simp: g_def hts)
  have run: "insertNode op1 w = (Inr (), (h', ts'))"
    using wD(6,7) anz loc(1) h'(1,5)
    by (simp add: insertNode_def op1_def hts findNextInsertLocation_def onStore_def modifyState_def
        bumpGeneration_def getNode_def leaf_node_def ts'_def bumped_def)
  have fresh: "nextRef h \<notin> set (refs t)"
  proof
    assume "nextRef h \<in> set (refs t)"
    then obtain u where "u \<in> set (subtrees t)" "t_ref u = nextRef h" by (auto simp: refs_def)
    then show False using represents_root [OF represents_subtree [OF rep]] wf_store_fresh [OF wf] by fastforce
  qed
  have rep': "represents h' (edit (t_ref s) g t)"
  proof (rule represents_edit [OF rep wD(3) loc(2)])
    show "cells h' c = cells h c" if "c \<in> set (refs t)" "c \<notin> set (refs s)" for c
      using h'(6) that ia(2) fresh root_in(1) [of s] by metis
  qed (use h'(2) in \<open>simp_all add: g_def\<close>)
  have "mset (refs (edit (t_ref s) g t)) + mset (refs s) = mset (refs t) + mset (refs (g s))"
    "mset (ids (edit (t_ref s) g t)) + mset (ids s) = mset (ids t) + mset (ids (g s))"
    unfolding refs_def ids_def mset_map by (rule edit_mset [OF wD(3) loc(2)], simp)+
  moreover have "mset (refs s) \<subseteq># mset (refs (g s))" "mset (ids s) \<subseteq># mset (ids (g s))"
    by (cases s; simp add: g_def)+
  moreover have "mset (if is_split s then [a] else [nextRef h, a]) = mset (refs (g s)) - mset (refs s)"
    "mset (if is_split s then [i] else [uuids h (drawn h), i]) = mset (ids (g s)) - mset (ids s)"
    by (cases s; simp add: g_def hts)+
  moreover have "distinct (refs t @ (if is_split s then [a] else [nextRef h, a]))"
    "distinct (ids t @ (if is_split s then [i] else [uuids h (drawn h), i]))"
    using wD(3,4) ia(2-5) fresh alt by auto
  ultimately have "distinct (refs (edit (t_ref s) g t))" "distinct (ids (edit (t_ref s) g t))"
    using distinct_from_mset by blast+
  moreover have "height (edit (t_ref s) g t) \<le> stackDepth h'"
    using height_edit [OF wD(3) loc(2), of g] height_add_leaf ia(6) h'(4) by (auto simp: g_def)
  moreover have "t_ref (edit (t_ref s) g t) = t_ref t" by (cases t) (auto simp: g_def)
  ultimately have "tree_world (h', ts') (edit (t_ref s) g t)"
    using rep' h'(3) wD(6)
    by (simp add: tree_world_def ts'_def bumped_def hts focusInserted_def Let_def)
  with run loc(2,3) show ?thesis by (auto simp: insert_place_def)
qed

end
