(* ===== verification/LayoutBalance.thy ===== *)
theory LayoutBalance
  imports LayoutInsert
begin

text \<open>
  Balancing: what a pass of \<open>balanceNode\<close> makes of a tree without empty splits. A child with a
  single child that is a split is replaced by that split's children, a split whose only child
  is a leaf becomes that leaf, and a child's direction is turned against its parent's.
\<close>

section \<open>Balancing a tree\<close>

definition fix_flex :: "flexDirection \<Rightarrow> ltree \<Rightarrow> ltree" where
  "fix_flex f t =
     (case t of
        Leaf a i b g s \<Rightarrow> Leaf a i b (if g = f then reverseFlexDirection f else g) s
      | Split a i g s ts \<Rightarrow> Split a i (if g = f then reverseFlexDirection f else g) s ts)"

definition balance_child :: "flexDirection \<Rightarrow> ltree \<Rightarrow> ltree list" where
  "balance_child f c =
     (case kids c of
        [only] \<Rightarrow> if is_split only then kids only else [fix_flex f c]
      | _ \<Rightarrow> [fix_flex f c])"

definition collapse :: "ref \<Rightarrow> string \<Rightarrow> flexDirection \<Rightarrow> jsnum \<Rightarrow> ltree list \<Rightarrow> ltree" where
  "collapse a i f s us =
     (case us of
        [Leaf _ j b _ _] \<Rightarrow> Leaf a j b f s
      | _ \<Rightarrow> Split a i f s us)"

lemma fix_flex_simps [simp]:
  "t_ref (fix_flex f t) = t_ref t" "t_id (fix_flex f t) = t_id t" "kids (fix_flex f t) = kids t"
  "is_split (fix_flex f t) = is_split t" "size (fix_flex f t) = size t" "leaves (fix_flex f t) = leaves t"
  "refs (fix_flex f t) = refs t" "ids (fix_flex f t) = ids t" "height (fix_flex f t) = height t"
  "t_flex (fix_flex f t) = (if t_flex t = f then reverseFlexDirection f else t_flex t)"
  by (cases t; simp add: fix_flex_def)+

lemma size_kid: "c \<in> set (kids t) \<Longrightarrow> size c < size t"
  by (cases t) (auto dest: size_list_estimation' [of _ _ "size c" size])

lemma balance_child_size: "u \<in> set (balance_child f c) \<Longrightarrow> size u \<le> size c"
  by (auto simp: balance_child_def split: list.splits if_splits dest!: size_kid)
    (metis less_imp_le_nat less_trans list.set_intros(1) size_kid)

function balance :: "ltree \<Rightarrow> ltree" where
  "balance (Leaf a i b f s) = Leaf a i b f s"
| "balance (Split a i f s ts) = collapse a i f s (map balance (concat (map (balance_child f) ts)))"
  by pat_completeness auto
termination
proof (relation "measure size", goal_cases)
  case (2 a i f s ts u)
  then obtain c where "c \<in> set ts" "u \<in> set (balance_child f c)" by auto
  then have "size u \<le> size c" "size c < size (Split a i f s ts)"
    using balance_child_size size_kid [of c "Split a i f s ts"] by auto
  then show ?case by simp
qed simp

definition no_empty :: "ltree \<Rightarrow> bool" where
  "no_empty t \<longleftrightarrow> (\<forall>u \<in> set (subtrees t). is_split u \<longrightarrow> kids u \<noteq> [])"

lemma no_empty_unfold:
  "no_empty t \<longleftrightarrow> (is_split t \<longrightarrow> kids t \<noteq> []) \<and> (\<forall>c \<in> set (kids t). no_empty c)"
  unfolding no_empty_def by (subst subtrees_unfold) auto

lemma no_empty_fix_flex [simp]: "no_empty (fix_flex f t) = no_empty t"
  by (simp add: no_empty_unfold [of t] no_empty_unfold [of "fix_flex f t"])

lemma leaves_kids: "is_split t \<Longrightarrow> leaves t = concat (map leaves (kids t))"
  by (cases t) auto

lemma leaves_balance_child: "concat (map leaves (balance_child f c)) = leaves c"
proof (cases "kids c")
  case (Cons o1 os)
  then have "is_split c" by (cases c) auto
  with Cons show ?thesis
    by (auto simp: balance_child_def leaves_kids split: list.splits)
qed (simp add: balance_child_def)

lemma leaves_collapse: "leaves (collapse a i f s us) = concat (map leaves us)"
  by (auto simp: collapse_def split: list.splits ltree.splits)

lemma leaves_balance: "leaves (balance t) = leaves t"
proof (induction t rule: balance.induct)
  case (2 a i f s ts)
  have "map leaves (map balance (concat (map (balance_child f) ts))) = map leaves (concat (map (balance_child f) ts))"
    using 2 by auto
  moreover have "concat (map leaves (concat (map (balance_child f) ts))) = concat (map leaves ts)"
    by (induction ts) (simp_all add: leaves_balance_child)
  ultimately show ?case by (simp add: leaves_collapse del: map_map)
qed simp

lemma collapse_simps [simp]: "t_ref (collapse a i f s us) = a" "t_flex (collapse a i f s us) = f"
  by (auto simp: collapse_def split: list.splits ltree.splits)

lemma balance_simps [simp]: "t_ref (balance t) = t_ref t" "t_flex (balance t) = t_flex t"
  by (cases t; simp)+

lemma refs_balance_child: "set (concat (map refs (balance_child f c))) \<subseteq> set (refs c)"
proof (cases "kids c")
  case (Cons o1 os)
  have "set (refs k) \<subseteq> set (refs c)" if "k \<in> set (kids o1)" for k
    using kid_refs [OF that] kid_refs [of o1 c] Cons by auto
  then show ?thesis using Cons by (auto simp: balance_child_def split: list.splits)
qed (simp add: balance_child_def)

lemma distinct_balance_child: "distinct (refs c) \<Longrightarrow> distinct (concat (map refs (balance_child f c)))"
proof (cases "kids c")
  case (Cons o1 os)
  assume "distinct (refs c)"
  then have "distinct (refs o1)" using distinct_refs_kid Cons by fastforce
  then have "distinct (concat (map refs (kids o1)))" by (subst (asm) refs_unfold) simp
  with Cons \<open>distinct (refs c)\<close> show ?thesis by (auto simp: balance_child_def split: list.splits)
qed (simp add: balance_child_def)

lemma distinct_balance_children:
  "distinct (concat (map refs ts)) \<Longrightarrow> distinct (concat (map refs (concat (map (balance_child f) ts))))"
proof (induction ts)
  case (Cons c ts)
  have "set (concat (map refs (concat (map (balance_child f) ts)))) \<subseteq> set (concat (map refs ts))"
    using refs_balance_child by (fastforce simp: subset_iff)
  with Cons show ?case using refs_balance_child [of f c] distinct_balance_child [of c f] by auto
qed simp

lemma no_empty_kid: "no_empty t \<Longrightarrow> c \<in> set (kids t) \<Longrightarrow> no_empty c"
  and no_empty_split: "no_empty t \<Longrightarrow> is_split t \<Longrightarrow> kids t \<noteq> []"
  using no_empty_unfold by blast+

lemma no_empty_balance_child:
  assumes "no_empty c" "u \<in> set (balance_child f c)"
  shows "no_empty u"
proof (cases "kids c")
  case (Cons o1 os)
  have "no_empty o1" using no_empty_kid [OF assms(1)] Cons by simp
  then show ?thesis
    using assms Cons no_empty_kid [of o1 u] by (auto simp: balance_child_def split: list.splits if_splits)
qed (use assms in \<open>simp add: balance_child_def\<close>)

lemma balance_child_nonempty: "no_empty c \<Longrightarrow> balance_child f c \<noteq> []"
proof (cases "kids c")
  case (Cons o1 os)
  assume "no_empty c"
  then have "no_empty o1" using no_empty_kid Cons by simp
  then show ?thesis
    using Cons no_empty_split by (auto simp: balance_child_def split: list.splits if_splits)
qed (simp add: balance_child_def)

lemma alternating_unfold:
  "alternating t \<longleftrightarrow> (\<forall>c \<in> set (kids t). t_flex c = reverseFlexDirection (t_flex t) \<and> alternating c)"
  unfolding alternating_def everywhere_def by (subst subtrees_unfold) (auto simp: shape_def)

lemma alternating_collapse:
  assumes "\<forall>v \<in> set us. t_flex v = reverseFlexDirection f \<and> alternating v"
  shows "alternating (collapse a i f s us)"
proof -
  have split: "alternating (Split a i f s us)"
    using assms by (simp add: alternating_unfold [of "Split a i f s us"])
  have leaf: "alternating (Leaf a j b f s)" for j b
    by (simp add: alternating_unfold [of "Leaf a j b f s"])
  consider (one) b j d g z where "us = [Leaf b j d g z]" | (other) "collapse a i f s us = Split a i f s us"
    by (cases us rule: remdups_adj.cases; cases "hd us") (auto simp: collapse_def split: ltree.splits)
  then show ?thesis by cases (use split leaf in \<open>simp_all add: collapse_def\<close>)
qed

lemma balance_alternating: "alternating t \<Longrightarrow> alternating (balance t)"
proof (induction t rule: balance.induct)
  case (2 a i f s ts)
  have alt: "t_flex u = reverseFlexDirection f \<and> alternating u" if "u \<in> set (balance_child f c)" "c \<in> set ts" for u c
  proof -
    have c: "t_flex c = reverseFlexDirection f" "alternating c"
      using 2(2) that(2) by (auto simp: alternating_unfold [of "Split a i f s ts"])
    have kid: "t_flex o1 = f \<and> alternating o1" if "o1 \<in> set (kids c)" for o1
      using that c by (auto simp: alternating_unfold [of c])
    have grand: "t_flex u = reverseFlexDirection f \<and> alternating u"
      if "o1 \<in> set (kids c)" "u \<in> set (kids o1)" for o1
      using that kid [of o1] by (auto simp: alternating_unfold [of o1])
    have "fix_flex f c = c" using c(1) by (cases c) (auto simp: fix_flex_def)
    then show ?thesis
      using c that(1) grand by (auto simp: balance_child_def split: list.splits if_splits)
  qed
  have "t_flex v = reverseFlexDirection f \<and> alternating v"
    if "v \<in> set (map balance (concat (map (balance_child f) ts)))" for v
    using that alt 2(1) by fastforce
  then show ?case by (simp add: alternating_collapse)
qed simp

section \<open>The pass on the store\<close>

lemma refs_collapse: "set (refs (collapse a i f s us)) \<subseteq> insert a (set (concat (map refs us)))"
  by (auto simp: collapse_def split: list.splits ltree.splits)

lemma refs_balance: "set (refs (balance t)) \<subseteq> set (refs t)"
proof (induction t rule: balance.induct)
  case (2 a i f s ts)
  have "x \<in> set (concat (map refs ts))" if "c \<in> set ts" "u \<in> set (balance_child f c)" "x \<in> set (refs (balance u))" for c u x
    using that 2 refs_balance_child [of f c] by fastforce
  then show ?case
    using refs_collapse [of a i f s "map balance (concat (map (balance_child f) ts))"] by fastforce
qed simp

lemma height_balance_child: "u \<in> set (balance_child f c) \<Longrightarrow> height u \<le> height c"
  by (auto simp: balance_child_def split: list.splits if_splits dest!: height_kid)
    (metis height_kid less_imp_le_nat less_trans list.set_intros(1))

lemma balanceChild_step:
  assumes "represents h c" "cells h a = Some n" "node_flex n = f" "a \<notin> set (refs c)" "distinct (refs c)"
    and "no_empty c" "wf_store h"
  shows "\<exists>h'. balanceChild a (t_ref c) h = (Inr (map t_ref (balance_child f c)), h') \<and>
    (\<forall>u \<in> set (balance_child f c). represents h' u) \<and>
    (\<forall>x. x \<notin> set (refs c) \<longrightarrow> cells h' x = cells h x) \<and> wf_store h'"
proof -
  define h' where "h' = (if t_flex c = f then setNode (t_ref c) (node_of (fix_flex f c)) h else h)"
  have cell: "getNode h (t_ref c) = Inr (node_of c)" "cells h (t_ref c) = Some (node_of c)"
    using represents_root [OF assms(1)] by (simp_all add: getNode_def)
  have a: "getNode h a = Inr n" using assms(2) by simp
  have flex: "(node_of c)\<lparr>node_flex := reverseFlexDirection f\<rparr> = node_of (fix_flex f c)" if "t_flex c = f"
    using that by (cases c) (simp_all add: fix_flex_def)
  have same: "fix_flex f c = c" if "t_flex c \<noteq> f"
    using that by (cases c) (simp_all add: fix_flex_def)
  have kid: "represents h' k" if "k \<in> set (kids c)" for k
    using that represents_kid [OF assms(1) that] root_ref_not_in_kid [OF assms(5) that]
    by (simp add: h'_def represents_setNode)
  have whole: "represents h' (fix_flex f c)"
  proof (cases "t_flex c = f")
    case True
    then show ?thesis
      using kid by (subst represents_unfold) (simp add: h'_def)
  qed (use same assms(1) in \<open>simp add: h'_def\<close>)
  have wf: "wf_store h'" using assms(7) cell by (simp add: h'_def wf_store_setNode)
  have outside: "cells h' x = cells h x" if "x \<notin> set (refs c)" for x
    using that root_in(1) [of c] by (auto simp: h'_def)
  have reps: "\<forall>u \<in> set (balance_child f c). represents h' u"
    using whole kid by (auto simp: balance_child_def split: list.splits intro: represents_kid)
  have set: "(if node_flex (node_of c) = node_flex n
      then modifyNode (t_ref c) (\<lambda>x. x\<lparr>node_flex := reverseFlexDirection (node_flex n)\<rparr>) h
      else (Inr (), h)) = (Inr (), h')"
    using assms(3) flex by (simp add: h'_def cell)
  have run: "balanceChild a (t_ref c) h = (Inr (map t_ref (balance_child f c)), h')"
  proof (cases "kids c" rule: remdups_adj.cases)
    case 1
    then have "\<not> is_split c" using no_empty_split [OF assms(6)] by auto
    with 1 show ?thesis
      by (simp add: balanceChild_def cell(1) a set node_children_node_of balance_child_def del: node_of_simps)
  next
    case (2 o1)
    then have sp: "is_split c" by (cases c) auto
    have o1: "getNode h' (t_ref o1) = Inr (node_of o1)"
      using represents_root [OF kid [of o1]] 2 by (simp add: getNode_def)
    show ?thesis
      by (simp add: balanceChild_def cell(1) a set node_children_node_of balance_child_def 2 sp o1 del: node_of_simps)
  next
    case (3 o1 o2 os)
    then have sp: "is_split c" by (cases c) auto
    show ?thesis
      by (simp add: balanceChild_def cell(1) a set node_children_node_of balance_child_def 3 sp del: node_of_simps)
  qed
  show ?thesis using run reps outside wf by blast
qed

lemma balanceChildren_step:
  assumes "\<forall>c \<in> set cs. represents h c \<and> no_empty c" "cells h a = Some n" "node_flex n = f"
    and "a \<notin> set (concat (map refs cs))" "distinct (concat (map refs cs))" "wf_store h"
  shows "\<exists>h'. mapS (balanceChild a) (map t_ref cs) h = (Inr (map (\<lambda>c. map t_ref (balance_child f c)) cs), h') \<and>
    (\<forall>u \<in> set (concat (map (balance_child f) cs)). represents h' u) \<and>
    (\<forall>x. x \<notin> set (concat (map refs cs)) \<longrightarrow> cells h' x = cells h x) \<and> wf_store h'"
  using assms
proof (induction cs arbitrary: h)
  case (Cons c cs)
  obtain h1 where h1: "balanceChild a (t_ref c) h = (Inr (map t_ref (balance_child f c)), h1)"
    "\<forall>u \<in> set (balance_child f c). represents h1 u"
    "\<forall>x. x \<notin> set (refs c) \<longrightarrow> cells h1 x = cells h x" "wf_store h1"
    using balanceChild_step [of h c a n f] Cons.prems by auto
  have disj: "set (refs c) \<inter> set (concat (map refs cs)) = {}" using Cons.prems(5) by simp
  have keep: "represents h1 d" if d: "d \<in> set cs" for d
  proof -
    have "x \<notin> set (refs c)" if "x \<in> set (refs d)" for x using that disj d by auto
    then show ?thesis using h1(3) d Cons.prems(1) by (subst represents_cong [of d h1 h]) auto
  qed
  obtain h2 where h2: "mapS (balanceChild a) (map t_ref cs) h1 = (Inr (map (\<lambda>c. map t_ref (balance_child f c)) cs), h2)"
    "\<forall>u \<in> set (concat (map (balance_child f) cs)). represents h2 u"
    "\<forall>x. x \<notin> set (concat (map refs cs)) \<longrightarrow> cells h2 x = cells h1 x" "wf_store h2"
    using Cons.IH [of h1] Cons.prems h1 keep by auto
  have mine: "represents h2 u" if u: "u \<in> set (balance_child f c)" for u
  proof -
    have "x \<notin> set (concat (map refs cs))" if "x \<in> set (refs u)" for x
      using that u refs_balance_child [of f c] disj by fastforce
    then show ?thesis using h2(3) h1(2) u by (subst represents_cong [of u h2 h1]) auto
  qed
  show ?case using h1 h2 mine by auto
qed simp

text \<open>The children of a node are walked one after the other, each in cells of its own.\<close>

lemma balance_walks:
  assumes walk: "\<And>u g. u \<in> set us \<Longrightarrow> represents g u \<Longrightarrow> wf_store g \<Longrightarrow>
      \<exists>g'. walk (t_ref u) (g, x) = (Inr (), (g', x)) \<and> represents g' (balance u) \<and>
        (\<forall>b. b \<notin> set (refs u) \<longrightarrow> cells g' b = cells g b) \<and> wf_store g'"
    and "\<forall>u \<in> set us. represents h u" "distinct (concat (map refs us))" "wf_store h"
  shows "\<exists>h'. forEachS walk (map t_ref us) (h, x) = (Inr (), (h', x)) \<and>
    (\<forall>u \<in> set us. represents h' (balance u)) \<and>
    (\<forall>b. b \<notin> set (concat (map refs us)) \<longrightarrow> cells h' b = cells h b) \<and> wf_store h'"
  using assms
proof (induction us arbitrary: h)
  case (Cons c cs)
  obtain h1 where h1: "walk (t_ref c) (h, x) = (Inr (), (h1, x))" "represents h1 (balance c)"
    "\<forall>b. b \<notin> set (refs c) \<longrightarrow> cells h1 b = cells h b" "wf_store h1"
    using Cons.prems(1) [of c h, OF list.set_intros(1)] Cons.prems(2,4) by auto
  have disj: "set (refs c) \<inter> set (concat (map refs cs)) = {}" using Cons.prems(3) by simp
  have keep: "\<forall>d \<in> set cs. represents h1 d"
  proof
    fix d assume d: "d \<in> set cs"
    have "b \<notin> set (refs c)" if "b \<in> set (refs d)" for b using that disj d by auto
    then show "represents h1 d" using h1(3) d Cons.prems(2) by (subst represents_cong [of d h1 h]) auto
  qed
  have dist: "distinct (concat (map refs cs))" using Cons.prems(3) by simp
  obtain h2 where h2: "forEachS walk (map t_ref cs) (h1, x) = (Inr (), (h2, x))"
    "\<forall>u \<in> set cs. represents h2 (balance u)"
    "\<forall>b. b \<notin> set (concat (map refs cs)) \<longrightarrow> cells h2 b = cells h1 b" "wf_store h2"
    using Cons.IH [OF Cons.prems(1) keep dist h1(4)] by auto
  have "represents h2 (balance c)"
  proof -
    have "b \<notin> set (concat (map refs cs))" if "b \<in> set (refs (balance c))" for b
      using that refs_balance [of c] disj by fastforce
    then show ?thesis using h2(3) h1(2) by (subst represents_cong [of "balance c" h2 h1]) auto
  qed
  with h1 h2 show ?case by auto
qed simp

definition balance_before :: "'u walkCallback" where
  "balance_before = Some (\<lambda>node s. andThen (onStore (balanceBefore node) s) (\<lambda>_ s. runCallback None node s))"

definition balance_after :: "'u walkCallback" where
  "balance_after = Some (\<lambda>node s. andThen (onStore (balanceAfter node) s) (\<lambda>_ s. runCallback None node s))"

lemma balanceAfter_step:
  assumes "cells h a = Some (node_of (Split a i f s us))" "\<forall>u \<in> set us. represents h u" "a \<notin> set (concat (map refs us))"
    and "wf_store h"
  shows "\<exists>h'. balanceAfter a h = (Inr (), h') \<and> represents h' (collapse a i f s us) \<and>
    (\<forall>b. b \<noteq> a \<longrightarrow> cells h' b = cells h b) \<and> wf_store h'"
proof -
  have cell: "getNode h a = Inr (node_of (Split a i f s us))" using assms(1) by (simp add: getNode_def)
  have all: "filter (\<lambda>v. v \<noteq> undef) (map t_ref us) = map t_ref us"
    using assms(2,4) represents_ref_not_undef by (auto intro!: filter_True)
  define h1 where "h1 = setNode a (node_of (Split a i f s us)) h"
  have h1: "cells h1 a = Some (node_of (Split a i f s us))" "cells h1 = cells h" "wf_store h1"
    using assms(1,4) by (auto simp: h1_def wf_store_setNode)
  have reps: "\<forall>u \<in> set us. represents h1 u" using assms(2) by (simp add: represents_def h1(2))
  have set: "modifyNode a (\<lambda>x. x\<lparr>node_children := Some (map t_ref us)\<rparr>) h = (Inr (), h1)"
    using assms(1) by (simp add: h1_def)
  consider (one) b j d g z where "us = [Leaf b j d g z]" | (split) u where "us = [u]" "is_split u"
    | (other) "length us \<noteq> 1"
    by (cases us rule: remdups_adj.cases; cases "hd us") auto
  then show ?thesis
  proof cases
    case one
    have b: "getNode h1 b = Inr (node_of (Leaf b j d g z))"
      using reps one by (simp add: represents_Leaf getNode_def)
    let ?h2 = "setNode a (node_of (Leaf a j d f s)) h1"
    have "balanceAfter a h = (Inr (), ?h2)"
      using one set all h1(1) by (simp add: balanceAfter_def cell b)
    moreover have "represents ?h2 (collapse a i f s us)" by (simp add: one collapse_def represents_Leaf)
    moreover have "wf_store ?h2" using h1 by (simp add: wf_store_setNode)
    ultimately show ?thesis using h1(2) by auto
  next
    case split
    have u: "getNode h1 (t_ref u) = Inr (node_of u)"
      using represents_root reps split(1) by (simp add: getNode_def)
    have "balanceAfter a h = (Inr (), h1)"
      using split set all by (simp add: balanceAfter_def cell u node_children_node_of)
    moreover have "represents h1 (collapse a i f s us)"
      using split h1 reps by (cases u) (simp_all add: collapse_def represents_Split)
    ultimately show ?thesis using h1 by auto
  next
    case other
    then have "balanceAfter a h = (Inr (), h1)"
      using set all by (cases us rule: remdups_adj.cases) (simp_all add: balanceAfter_def cell)
    moreover have "collapse a i f s us = Split a i f s us"
      using other by (auto simp: collapse_def split: list.splits ltree.splits)
    moreover have "represents h1 (Split a i f s us)"
      using h1 reps by (simp add: represents_Split)
    ultimately show ?thesis using h1 by auto
  qed
qed

lemma validate_node_of: "no_empty t \<Longrightarrow> validateNode (node_of t)"
  using no_empty_split [of t] by (cases t) (auto simp: validateNode_def)

lemma balance_walk:
  assumes "represents h t" "wf_store h" "distinct (refs t)" "no_empty t" "height t \<le> d"
  shows "\<exists>h'. walkNodes_rec d balance_before balance_after (t_ref t) (h, x) = (Inr (), (h', x)) \<and>
    represents h' (balance t) \<and> (\<forall>b. b \<notin> set (refs t) \<longrightarrow> cells h' b = cells h b) \<and> wf_store h'"
  using assms
proof (induction t arbitrary: h d rule: balance.induct)
  case (1 a i b f s)
  obtain d' where d: "d = Suc d'" using 1(5) by (cases d) auto
  have c: "getNode h a = Inr (node_of (Leaf a i b f s))" "a \<noteq> undef"
    using 1(1,2) represents_ref_not_undef [of h "Leaf a i b f s"] by (simp_all add: represents_Leaf getNode_def)
  then show ?case
    using 1(1,2) by (simp add: d c balance_before_def balance_after_def onStore_Pair balanceBefore_def
        balanceAfter_def validateNode_def runCallback_def)
next
  case (2 a i f s ts)
  let ?t = "Split a i f s ts"
  let ?us = "concat (map (balance_child f) ts)"
  obtain d' where d: "d = Suc d'" using 2(6) by (cases d) auto
  have cell: "cells h a = Some (node_of ?t)" "a \<noteq> undef"
    using 2(2,3) represents_ref_not_undef [of h ?t] by (simp_all add: represents_Split)
  have out: "a \<notin> set (concat (map refs ts))" and dist: "distinct (concat (map refs ts))" using 2(4) by auto
  have kids: "\<forall>c \<in> set ts. represents h c \<and> no_empty c"
    using 2(2,5) no_empty_kid [OF 2(5)] by (auto simp: represents_Split)
  obtain h1 where h1: "mapS (balanceChild a) (map t_ref ts) h =
      (Inr (map (\<lambda>c. map t_ref (balance_child f c)) ts), h1)"
    "\<forall>u \<in> set ?us. represents h1 u" "\<forall>b. b \<notin> set (concat (map refs ts)) \<longrightarrow> cells h1 b = cells h b" "wf_store h1"
    using balanceChildren_step [OF kids cell(1) _ out dist 2(3), of f] by auto
  have sub: "set (concat (map refs ?us)) \<subseteq> set (concat (map refs ts))"
    using refs_balance_child [of f] by fastforce
  have cell1: "cells h1 a = Some (node_of ?t)" using h1(3) out cell by auto
  define h2 where "h2 = setNode a (node_of (Split a i f s ?us)) h1"
  have before: "balanceBefore a h = (Inr (), h2)"
    using validate_node_of [OF 2(5)] cell1
    by (simp add: balanceBefore_def getNode_Some [OF cell(1)] h1(1) h2_def map_concat o_def)
  have h2: "wf_store h2" "cells h2 a = Some (node_of (Split a i f s ?us))"
    using h1 cell1 by (auto simp: h2_def wf_store_setNode)
  have reps2: "\<forall>u \<in> set ?us. represents h2 u"
  proof
    fix u assume u: "u \<in> set ?us"
    then have "set (refs u) \<subseteq> set (concat (map refs ts))" using sub by fastforce
    with out have "a \<notin> set (refs u)" by blast
    then show "represents h2 u" using u h1(2) by (simp add: h2_def represents_setNode del: set_concat)
  qed
  have IH: "\<exists>g'. walkNodes_rec d' balance_before balance_after (t_ref u) (g, x) = (Inr (), (g', x)) \<and>
      represents g' (balance u) \<and> (\<forall>b. b \<notin> set (refs u) \<longrightarrow> cells g' b = cells g b) \<and> wf_store g'"
    if u: "u \<in> set ?us" "represents g u" "wf_store g" for u g
  proof (rule 2(1) [OF u])
    obtain c where c: "c \<in> set ts" "u \<in> set (balance_child f c)" using u by auto
    show "distinct (refs u)"
      using distinct_concat_map_elem [OF distinct_balance_children [OF dist] u(1)] .
    show "no_empty u" using kids c no_empty_balance_child by blast
    show "height u \<le> d'"
      using height_balance_child [OF c(2)] height_kid [of c ?t] c(1) 2(6) d by simp
  qed
  obtain h3 where h3: "forEachS (walkNodes_rec d' balance_before balance_after) (map t_ref ?us) (h2, x) = (Inr (), (h3, x))"
    "\<forall>u \<in> set ?us. represents h3 (balance u)"
    "\<forall>b. b \<notin> set (concat (map refs ?us)) \<longrightarrow> cells h3 b = cells h2 b" "wf_store h3"
    using balance_walks [of ?us "walkNodes_rec d' balance_before balance_after" x h2, OF IH reps2
        distinct_balance_children [OF dist] h2(1)] by auto
  have out2: "a \<notin> set (concat (map refs ?us))" using out sub by blast
  have cell3: "cells h3 a = Some (node_of (Split a i f s (map balance ?us)))"
    using h3(3) h2(2) out2 by (simp add: o_def del: set_concat)
  have "set (concat (map refs (map balance vs))) \<subseteq> set (concat (map refs vs))" for vs
    using refs_balance by (induction vs) auto
  then have "a \<notin> set (concat (map refs (map balance ?us)))"
    using out2 by (meson subsetD)
  then obtain h4 where h4: "balanceAfter a h3 = (Inr (), h4)" "represents h4 (balance ?t)"
    "\<forall>b. b \<noteq> a \<longrightarrow> cells h4 b = cells h3 b" "wf_store h4"
    using balanceAfter_step [OF cell3 _ _ h3(4)] h3(2) by auto
  have run: "walkNodes_rec d balance_before balance_after a (h, x) = (Inr (), (h4, x))"
    using h3(1) h4(1) cell(2) h2(2)
    by (simp add: d balance_before_def balance_after_def onStore_Pair before runCallback_def getNode_def)
  have "cells h4 b = cells h b" if "b \<notin> set (refs ?t)" for b
  proof -
    have b: "b \<noteq> a" "b \<notin> set (concat (map refs ts))" using that by auto
    then have "b \<notin> set (concat (map refs ?us))" using sub by blast
    with b show ?thesis using h4(3) h3(3) h1(3) by (simp add: h2_def del: set_concat)
  qed
  with run h4 show ?case by auto
qed

text \<open>\<open>balanceNode\<close> without callbacks, on a tree whose splits have children, is \<open>balance\<close>.\<close>

lemma balanceNode_represents:
  assumes "represents h t" "wf_store h" "distinct (refs t)" "no_empty t" "height t \<le> stackDepth h"
  shows "\<exists>h'. balanceNode (t_ref t) None None (h, x) = (Inr (t_ref t), (h', x)) \<and>
    represents h' (balance t) \<and> (\<forall>b. b \<notin> set (refs t) \<longrightarrow> cells h' b = cells h b) \<and> wf_store h'"
proof -
  obtain h' where h': "walkNodes_rec (stackDepth h) balance_before balance_after (t_ref t) (h, x) = (Inr (), (h', x))"
    "represents h' (balance t)" "\<forall>b. b \<notin> set (refs t) \<longrightarrow> cells h' b = cells h b" "wf_store h'"
    using balance_walk [OF assms, of x] by auto
  then show ?thesis
    by (simp add: balanceNode_def walkNodes_def balance_before_def [symmetric] balance_after_def [symmetric])
qed

text \<open>After a pass a split with a single child has a split as that child.\<close>

definition lean_node :: "ltree \<Rightarrow> bool" where
  "lean_node t \<longleftrightarrow> (case kids t of [only] \<Rightarrow> is_split only | _ \<Rightarrow> True)"

definition lean :: "ltree \<Rightarrow> bool" where
  "lean t \<longleftrightarrow> (\<forall>u \<in> set (subtrees t). lean_node u)"

lemma lean_collapse: "lean_node (collapse a i f s us)"
  by (auto simp: lean_node_def collapse_def split: list.splits ltree.splits)

lemma kids_collapse: "set (kids (collapse a i f s us)) \<subseteq> set us"
  by (auto simp: collapse_def split: list.splits ltree.splits)

lemma lean_balance: "lean (balance t)"
proof (induction t rule: balance.induct)
  case (1 a i b f s)
  show ?case by (simp add: lean_def lean_node_def)
next
  case (2 a i f s ts)
  let ?us = "map balance (concat (map (balance_child f) ts))"
  have kids: "set (kids (collapse a i f s ?us)) \<subseteq> set ?us"
    by (rule kids_collapse)
  have us: "lean u" if "u \<in> set ?us" for u
    using that 2 by auto
  have "lean_node v" if v: "v \<in> set (subtrees (collapse a i f s ?us))" for v
  proof -
    from v consider "v = collapse a i f s ?us" | k where "k \<in> set (kids (collapse a i f s ?us))" "v \<in> set (subtrees k)"
      by (subst (asm) subtrees_unfold) auto
    then show ?thesis
    proof cases
      case 1
      then show ?thesis by (simp only: lean_collapse)
    next
      case 2
      then have "lean k" using us kids by blast
      with 2(2) show ?thesis by (simp add: lean_def)
    qed
  qed
  then show ?case by (simp only: lean_def balance.simps) blast
qed

end
