(* ===== verification/LayoutWrap.thy ===== *)
theory LayoutWrap
  imports LayoutBalance
begin

text \<open>
  \<open>addIntermediateNode\<close> on trees: a node is pushed one level down below itself, a split two
  levels, so that the directions still alternate and its identifier moves to the new node.
\<close>

fun wrap :: "ref \<Rightarrow> ref \<Rightarrow> string \<Rightarrow> string \<Rightarrow> ltree \<Rightarrow> ltree" where
  "wrap q1 q2 u1 u2 (Leaf a i b f s) =
     Split a u1 f s [Leaf q1 i b (reverseFlexDirection f) DefaultNodeSize]"
| "wrap q1 q2 u1 u2 (Split a i f s ts) =
     Split a u2 f s [Split q2 i (reverseFlexDirection f) DefaultNodeSize [Split q1 u1 f DefaultNodeSize ts]]"

lemma leaves_wrap [simp]: "leaves (wrap q1 q2 u1 u2 t) = leaves t"
  by (cases t) simp_all

lemma alternating_wrap: "alternating t \<Longrightarrow> alternating (wrap q1 q2 u1 u2 t)"
  by (cases t) (auto simp: alternating_def everywhere_def shape_def)

lemma addIntermediateNode_split:
  assumes "represents h (Split a i f s ts)" "wf_store h" "distinct (refs (Split a i f s ts))" "ts \<noteq> []"
  defines "q \<equiv> nextRef h" and "u1 \<equiv> uuids h (drawn h)" and "u2 \<equiv> uuids h (Suc (drawn h))"
  shows "\<exists>h'. addIntermediateNode a h = (Inr (Suc q), h') \<and> represents h' (wrap q (Suc q) u1 u2 (Split a i f s ts)) \<and>
    wf_store h' \<and> (\<forall>b. b \<noteq> a \<longrightarrow> b < q \<longrightarrow> cells h' b = cells h b)"
proof -
  have cell: "cells h a = Some (node_of (Split a i f s ts))" using assms(1) by (simp add: represents_Split)
  have low: "b < q" if b: "b \<in> set (refs (Split a i f s ts))" for b
  proof -
    obtain v where "v \<in> set (subtrees (Split a i f s ts))" "b = t_ref v"
      using b unfolding refs_def set_map by (rule imageE) (rule that)
    then have "cells h b = Some (node_of v)" using assms(1) unfolding represents_def by blast
    then show ?thesis using wf_store_cell [OF assms(2)] by (simp add: q_def)
  qed
  have ne: "a \<noteq> q" "a \<noteq> Suc q" using low [of a] by auto
  define h' where "h' = h\<lparr>cells := (cells h)
      (q := Some (node_of (Split q u1 f DefaultNodeSize ts)),
       Suc q := Some (node_of (Split (Suc q) i (reverseFlexDirection f) DefaultNodeSize [Split q u1 f DefaultNodeSize ts])),
       a := Some \<lparr>node_id = u2, node_data = None, node_children = Some [Suc q], node_flex = f, node_size = s\<rparr>),
     nextRef := Suc (Suc q), drawn := Suc (Suc (drawn h))\<rparr>"
  have "addIntermediateNode a h = (Inr (Suc q), h')"
    using cell ne assms(4)
    by (simp add: addIntermediateNode_def newLayoutNode_def randomUUID_def allocNode_def validateNode_def
        getNode_def modifyNode_def Let_def h'_def q_def u1_def u2_def setNode_def fun_upd_twist)
  moreover have "represents h' c" if c: "c \<in> set ts" for c
  proof -
    have "b \<noteq> a \<and> b < q" if "b \<in> set (refs c)" for b
      using that assms(3) c low by auto
    then have "represents h' c \<longleftrightarrow> represents h c" by (intro represents_cong) (force simp: h'_def)
    then show ?thesis using assms(1) c by (simp add: represents_Split)
  qed
  moreover have "wf_store h'"
    using assms(2) cell ne wf_store_cell [OF assms(2) cell] by (auto simp: wf_store_def h'_def q_def undef_def)
  ultimately show ?thesis
    using ne by (intro exI [of _ h']) (auto simp: represents_Split h'_def)
qed

lemma addIntermediateNode_wrap:
  assumes "represents h t" "wf_store h" "distinct (refs t)" "is_split t \<longrightarrow> kids t \<noteq> []"
  defines "t' \<equiv> wrap (nextRef h) (Suc (nextRef h)) (uuids h (drawn h)) (uuids h (Suc (drawn h))) t"
  shows "\<exists>q h'. addIntermediateNode (t_ref t) h = (Inr q, h') \<and> kids t' \<noteq> [] \<and> t_ref (hd (kids t')) = q \<and>
    represents h' t' \<and> wf_store h' \<and> (\<forall>b. b \<noteq> t_ref t \<longrightarrow> b < nextRef h \<longrightarrow> cells h' b = cells h b)"
proof (cases t)
  case (Leaf a i b f s)
  have ne: "a \<noteq> nextRef h"
    using wf_store_cell [OF assms(2), of a] assms(1) by (auto simp: Leaf represents_Leaf)
  obtain h' where h': "addIntermediateNode a h = (Inr (nextRef h), h')"
    "cells h' = (cells h)(nextRef h := Some (leaf_node i b (reverseFlexDirection f) DefaultNodeSize),
      a := Some \<lparr>node_id = uuids h (drawn h), node_data = None, node_children = Some [nextRef h],
                  node_flex = f, node_size = s\<rparr>)" "nextRef h' = Suc (nextRef h)"
    using addIntermediateNode_leaf assms(1,2) Leaf by blast
  have "wf_store h'"
    using assms(1,2) wf_store_cell [OF assms(2), of a] h'(2,3)
    by (auto simp: wf_store_def undef_def Leaf represents_Leaf)
  then show ?thesis
    using h' ne by (intro exI [of _ "nextRef h"] exI [of _ h'])
      (auto simp: t'_def Leaf represents_Split represents_Leaf leaf_node_def)
next
  case (Split a i f s ts)
  then show ?thesis
    using addIntermediateNode_split [of h a i f s ts] assms by (auto simp: t'_def)
qed

end
