(* ===== verification/LayoutMove.thy ===== *)
theory LayoutMove
  imports LayoutInsert
begin

text \<open>
  Moving a leaf: what \<open>moveNode\<close> of layoutTree.ts makes of the abstract tree. The code puts the
  node into its new parent before it takes it out of the old one, so that for a moment the store
  holds a node with two parents; the result is that of taking it out first.
\<close>

section \<open>Adding a leaf at an index\<close>

definition insert_at :: "nat \<Rightarrow> 'a \<Rightarrow> 'a list \<Rightarrow> 'a list" where
  "insert_at k x xs = take k xs @ x # drop k xs"

lemma insertChildren_at: "insertChildren (Some (int k)) [a] cs = insert_at k a cs"
  by (auto simp: insertChildren_def insert_at_def js_splice_in_def)

lemma map_insert_at: "map f (insert_at k x xs) = insert_at k (f x) (map f xs)"
  by (simp add: insert_at_def take_map drop_map)

lemma mset_insert_at [simp]: "mset (insert_at k x xs) = add_mset x (mset xs)"
  by (simp add: insert_at_def) (metis append_take_drop_id mset_append)

lemma set_insert_at [simp]: "set (insert_at k x xs) = insert x (set xs)"
  by (metis mset_insert_at set_mset_add_mset_insert set_mset_mset)

lemma mset_concat_insert_at: "mset (concat (map f (insert_at k x xs))) = mset (f x) + mset (concat (map f xs))"
proof -
  have "mset (concat (map f xs)) = mset (concat (map f (take k xs))) + mset (concat (map f (drop k xs)))"
    by (metis append_take_drop_id concat_append map_append mset_append)
  then show ?thesis by (simp add: insert_at_def)
qed

lemma insert_at_nth: "k \<le> length xs \<Longrightarrow> insert_at k x xs ! k = x"
  by (simp add: insert_at_def nth_append)

lemma js_index_of_app: "a \<notin> set us \<Longrightarrow> js_index_of (us @ a # vs) a 0 = int (length us)"
  using js_find_index_app [of us "\<lambda>y. y = a" a vs] by (auto simp: js_index_of_def)

text \<open>Inserting a second copy and taking the first one out, as the code does within one parent.\<close>

lemma splice_moved:
  fixes k :: nat
  assumes "cs = us @ a # vs" "a \<notin> set us" "a \<notin> set vs"
  defines "j \<equiv> length us"
    and "from \<equiv> if int k \<le> js_index_of cs a 0 then int k + 1 else 0"
  shows "js_splice_out (js_index_of (insert_at k a cs) a from) (insert_at k a cs) =
      insert_at (if j < k then k - 1 else k) a (us @ vs) \<and> js_index_of (insert_at k a cs) a from \<noteq> -1"
proof -
  have idx: "js_index_of cs a 0 = int j"
    unfolding assms(1) j_def by (rule js_index_of_app [OF assms(2)])
  show ?thesis
  proof (cases "k \<le> j")
    case True
    define xs where "xs = take k us @ a # drop k us"
    have ins: "insert_at k a cs = xs @ a # vs" using True by (simp add: xs_def insert_at_def assms(1) j_def)
    have "\<forall>x \<in> set (drop k us). \<not> x = a" using assms(2) by (auto dest: in_set_dropD)
    note found = js_find_index_app [of "drop k us" "\<lambda>y. y = a" a vs, OF this refl]
    have "drop (Suc k) (xs @ a # vs) = drop k us @ a # vs" using True by (simp add: xs_def j_def)
    then have "js_index_of (insert_at k a cs) a (int k + 1) = int (length xs)"
      using found True by (simp add: js_index_of_def ins nat_add_distrib xs_def j_def)
    then show ?thesis
      using True by (simp add: from_def idx ins) (simp add: xs_def insert_at_def j_def)
  next
    case False
    then obtain m where m: "k = Suc (j + m)" using less_iff_Suc_add [of j k] by auto
    have ins: "insert_at k a cs = us @ a # insert_at (k - Suc j) a vs"
      by (simp add: m insert_at_def assms(1) j_def)
    have "js_index_of (insert_at k a cs) a 0 = int (length us)"
      using assms(2) js_find_index_app [of us "\<lambda>y. y = a" a "insert_at (k - Suc j) a vs"]
      by (auto simp: js_index_of_def ins)
    then show ?thesis
      using False by (simp add: from_def idx ins) (simp add: insert_at_def j_def)
  qed
qed

text \<open>The new leaf becomes a child of a split, or the sibling of a leaf below a new node.\<close>

fun add_leaf_at :: "nat \<Rightarrow> ref \<Rightarrow> string \<Rightarrow> ref \<Rightarrow> string \<Rightarrow> string \<Rightarrow> jsnum \<Rightarrow> ltree \<Rightarrow> ltree" where
  "add_leaf_at k q u a i b z (Leaf sa si sb sf sz) =
     Split sa u sf sz
       (insert_at k (Leaf a i b (reverseFlexDirection sf) z) [Leaf q si sb (reverseFlexDirection sf) DefaultNodeSize])"
| "add_leaf_at k q u a i b z (Split sa si sf sz ts) =
     Split sa si sf sz (insert_at k (Leaf a i b (reverseFlexDirection sf) z) ts)"

lemma leaves_add_leaf_at:
  "\<exists>xs ys. leaves s = xs @ ys \<and> leaves (add_leaf_at k q u a i b z s) = xs @ \<lparr>le_nodeid = i, le_blockid = b\<rparr> # ys"
proof (cases s)
  case (Leaf sa si sb sf sz)
  then show ?thesis
    by (cases k) (auto simp: insert_at_def intro: exI [of _ "leaves s"] exI [of _ "[]"])
next
  case (Split sa si sf sz ts)
  have "concat (map leaves ts) = concat (map leaves (take k ts)) @ concat (map leaves (drop k ts))"
    by (metis append_take_drop_id concat_append map_append)
  then show ?thesis by (auto simp: Split insert_at_def)
qed

lemma add_leaf_at_simps [simp]:
  "t_ref (add_leaf_at k q u a i b z s) = t_ref s" "t_flex (add_leaf_at k q u a i b z s) = t_flex s"
  "t_size (add_leaf_at k q u a i b z s) = t_size s"
  by (cases s; simp)+

lemma foldr_max_insert_at: "foldr max (insert_at k (1 :: nat) ms) 0 \<le> max 1 (foldr max ms 0)"
proof -
  have *: "foldr max xs b = max (foldr max xs 0) b" for xs and b :: nat
    by (induction xs) auto
  have "foldr max ms 0 = max (foldr max (take k ms) 0) (foldr max (drop k ms) 0)"
    using * [of "take k ms" "foldr max (drop k ms) 0"] by (metis append_take_drop_id foldr_append)
  then show ?thesis
    using * [of "take k ms" "max 1 (foldr max (drop k ms) 0)"] by (auto simp: insert_at_def max_def)
qed

lemma height_add_leaf_at: "height (add_leaf_at k q u a i b z s) \<le> Suc (height s)"
proof (cases s)
  case (Leaf sa si sb sf sz)
  then show ?thesis by (cases k) (auto simp: insert_at_def)
next
  case (Split sa si sf sz ts)
  then show ?thesis using foldr_max_insert_at [of k "map height ts"] by (simp add: map_insert_at)
qed

section \<open>The code's way of adding it\<close>

lemma addChildAt_cells:
  assumes "cells h p = Some (node_of s)" "cells h a = Some (leaf_node i b f z)" "a \<noteq> p" "wf_store h" "p = t_ref s"
  defines "q \<equiv> nextRef h" and "rf \<equiv> reverseFlexDirection (t_flex s)"
  shows "\<exists>h'. addChildAt p (Some (int k)) [a] h = (Inr (), h') \<and>
    cells h' = (if is_split s then cells h
                else (cells h)(q := Some (leaf_node (t_id s) (le_blockid (hd (leaves s))) rf DefaultNodeSize)))
      (a := Some (leaf_node i b rf z), p := Some (node_of (add_leaf_at k q (uuids h (drawn h)) a i b z s))) \<and>
    nextRef h' = (if is_split s then q else Suc q) \<and> stackDepth h' = stackDepth h"
proof (cases s)
  case (Split sa si sf sz ts)
  obtain h1 where h1: "childToAdd sa a h = (Inr [a], h1)"
    "cells h1 = (cells h)(a := Some (leaf_node i b (reverseFlexDirection sf) z))"
    "nextRef h1 = nextRef h" "uuids h1 = uuids h" "drawn h1 = drawn h" "stackDepth h1 = stackDepth h"
    using childToAdd_leaf [OF assms(2,1,3)] assms(5) Split by auto
  show ?thesis
    using h1 assms(1,3,5) Split
    by (auto simp: addChildAt_def getNode_def insertChildren_at map_insert_at q_def rf_def)
next
  case (Leaf sa si sb sf sz)
  have cell: "cells h sa = Some (leaf_node si sb sf sz)" using assms(1,5) Leaf by (simp add: leaf_node_def)
  have ne: "sa \<noteq> q" "a \<noteq> q" "a \<noteq> sa"
    using wf_store_cell [OF assms(4) cell] wf_store_cell [OF assms(4,2)] assms(3,5) Leaf by (auto simp: q_def)
  define top where "top = \<lparr>node_id = uuids h (drawn h), node_data = None, node_children = Some [q],
    node_flex = sf, node_size = sz\<rparr>"
  obtain h1 where h1: "addIntermediateNode sa h = (Inr q, h1)"
    "cells h1 = (cells h)(q := Some (leaf_node si sb (reverseFlexDirection sf) DefaultNodeSize), sa := Some top)"
    "nextRef h1 = Suc q" "stackDepth h1 = stackDepth h"
    using addIntermediateNode_leaf [of h sa si sb sf sz] assms(4) cell
    by (auto simp: q_def top_def represents_Leaf leaf_node_def)
  have "cells h1 a = Some (leaf_node i b f z)" "cells h1 sa = Some top" using h1(2) ne assms(2) by auto
  from childToAdd_leaf [OF this ne(3)] obtain h2 where h2: "childToAdd sa a h1 = (Inr [a], h2)"
    "cells h2 = (cells h1)(a := Some (leaf_node i b (reverseFlexDirection sf) z))"
    "nextRef h2 = nextRef h1" "stackDepth h2 = stackDepth h1"
    by (auto simp: top_def)
  have cells2: "cells h2 sa = Some top" using h2(2) h1(2) ne by simp
  define h3 where "h3 = setNode sa (top\<lparr>node_children := Some (insert_at k a [q])\<rparr>) h2"
  have "addChildAt sa (Some (int k)) [a] h = (Inr (), h3)"
    using cell h1(1) h2(1) cells2
    by (simp add: addChildAt_def getNode_def leaf_node_def insertChildren_at h3_def top_def)
  moreover have "cells h3 = (cells h)(q := Some (leaf_node si sb (reverseFlexDirection sf) DefaultNodeSize),
      a := Some (leaf_node i b (reverseFlexDirection sf) z),
      sa := Some (node_of (add_leaf_at k q (uuids h (drawn h)) a i b z s)))"
    using ne by (auto simp: h3_def h2(2) h1(2) top_def Leaf fun_eq_iff map_insert_at)
  moreover have "nextRef h3 = Suc (nextRef h)" "stackDepth h3 = stackDepth h"
    using h1(3,4) h2(3,4) by (simp_all add: h3_def q_def)
  ultimately show ?thesis using assms(5) by (simp add: Leaf q_def rf_def)
qed

text \<open>The node of the target only depends on what the store holds of it.\<close>

lemma node_of_add_leaf_at:
  "node_of s = node_of s' \<Longrightarrow> t_ref s = t_ref s' \<Longrightarrow>
    node_of (add_leaf_at k q u a i b z s) = node_of (add_leaf_at k q u a i b z s') \<and>
    is_split s = is_split s' \<and> (\<not> is_split s \<longrightarrow> s = s')"
  by (cases s; cases s') (auto simp: map_insert_at)

lemma leaf_added_world:
  fixes z :: jsnum and k :: nat and b :: string
  assumes w: "tree_world (h, ts) t" and s: "s \<in> set (subtrees t)"
    and a: "cells h a \<noteq> None" "a \<notin> set (refs t)" "i \<notin> set (ids t)"
    and u: "u \<notin> set (ids t)" "u \<noteq> i" and ht: "height t < stackDepth h" and ts': "rootNode ts' = rootNode ts"
  defines "q \<equiv> nextRef h" and "rf \<equiv> reverseFlexDirection (t_flex s)"
  defines "g \<equiv> add_leaf_at k q u a i b z"
  assumes h': "cells h' = (if is_split s then cells h
        else (cells h)(q := Some (leaf_node (t_id s) (le_blockid (hd (leaves s))) rf DefaultNodeSize)))
      (a := Some (leaf_node i b rf z), t_ref s := Some (node_of (g s)))"
    "nextRef h' = (if is_split s then q else Suc q)" "stackDepth h' = stackDepth h"
  shows "tree_world (h', ts') (edit (t_ref s) g t)"
proof -
  note wD = tree_worldD [OF w, simplified]
  have rs: "represents h s" "distinct (refs s)" "a \<notin> set (refs s)"
    using represents_subtree [OF wD(2) s] distinct_subtree(1) [OF s wD(3)] subtree_refs [OF s] a(2) by auto
  have cs: "cells h (t_ref s) = Some (node_of s)" using represents_root [OF rs(1)] .
  have low: "c < q" if c: "c \<in> set (refs t)" for c
  proof -
    obtain v where "v \<in> set (subtrees t)" "t_ref v = c" using c by (auto simp: refs_def)
    then show ?thesis
      using represents_root [OF represents_subtree [OF wD(2)]] wf_store_cell [OF wD(1)] by (fastforce simp: q_def)
  qed
  have aq: "a < q" "a \<noteq> undef" using a(1) wf_store_cell [OF wD(1)] by (auto simp: q_def)
  have sq: "t_ref s < q" using low subtree_refs [OF s] root_in(1) [of s] by blast
  have as: "a \<noteq> t_ref s" using rs(3) root_in(1) [of s] by metis
  have same: "cells h' c = cells h c" if "c < q" "c \<noteq> a" "c \<noteq> t_ref s" for c
    using that h'(1) by auto
  have kids': "represents h' c" if c: "c \<in> set (kids s)" for c
  proof -
    have "x < q \<and> x \<noteq> a \<and> x \<noteq> t_ref s" if "x \<in> set (refs c)" for x
      using that low subtree_refs [OF s] kid_refs [OF c] rs(3) root_ref_not_in_kid [OF rs(2) c] by blast
    then have "represents h' c \<longleftrightarrow> represents h c" using same by (intro represents_cong) auto
    then show ?thesis using represents_kid [OF rs(1) c] by simp
  qed
  have "represents h' (g s)"
  proof (cases s)
    case (Leaf sa si sb sf sz)
    then show ?thesis
      using h'(1) as aq sq
      by (auto simp: g_def represents_Split represents_Leaf leaf_node_def rf_def)
  next
    case (Split sa si sf sz ss)
    then show ?thesis
      using h'(1) as kids' by (auto simp: g_def represents_Split represents_Leaf leaf_node_def rf_def)
  qed
  then have rep: "represents h' (edit (t_ref s) g t)"
  proof (rule represents_edit [OF wD(2,3) s, rotated])
    show "cells h' c = cells h c" if "c \<in> set (refs t)" "c \<notin> set (refs s)" for c
      using that low [OF that(1)] a(2) root_in(1) [of s] by (intro same) metis+
  qed (simp add: g_def)
  have wf: "wf_store h'"
    using wD(1) h'(1,2) aq sq wf_store_cell [OF wD(1) cs] by (auto simp: wf_store_def q_def undef_def)
  have "mset (refs (edit (t_ref s) g t)) + mset (refs s) = mset (refs t) + mset (refs (g s))"
    "mset (ids (edit (t_ref s) g t)) + mset (ids s) = mset (ids t) + mset (ids (g s))"
    unfolding refs_def ids_def mset_map by (rule edit_mset [OF wD(3) s], simp)+
  moreover have "mset (refs (g s)) = mset (refs s) + mset (if is_split s then [a] else [q, a])"
    "mset (ids (g s)) = mset (ids s) + mset (if is_split s then [i] else [u, i])"
    by (cases s; simp add: g_def mset_concat_insert_at)+
  moreover have "distinct (refs t @ (if is_split s then [a] else [q, a]))"
    "distinct (ids t @ (if is_split s then [i] else [u, i]))"
    using wD(3,4) a(2,3) u aq low by auto
  ultimately have "distinct (refs (edit (t_ref s) g t))" "distinct (ids (edit (t_ref s) g t))"
    using distinct_from_mset by (metis add_diff_cancel_left' mset_subset_eq_add_left)+
  moreover have "height (edit (t_ref s) g t) \<le> stackDepth h'"
    using height_edit [OF wD(3) s, of g] height_add_leaf_at ht h'(3) by (fastforce simp: g_def)
  moreover have "t_ref (edit (t_ref s) g t) = t_ref t" by (cases t) (auto simp: g_def)
  ultimately show ?thesis using rep wf wD(6) ts' by (simp add: tree_world_def)
qed

lemma leaves_edit_at:
  assumes "distinct (refs t)" "s \<in> set (subtrees t)"
    and "\<exists>xs ys. leaves s = xs @ ys \<and> leaves (g s) = xs @ e # ys"
  shows "\<exists>xs ys. leaves t = xs @ ys \<and> leaves (edit (t_ref s) g t) = xs @ e # ys"
  using assms(1,2)
proof (induction rule: edit_induct)
  case (below a i f z xs c c' ys)
  then obtain us vs where "leaves c = us @ vs" "leaves c' = us @ e # vs" by blast
  then show ?case
    by (intro exI [of _ "concat (map leaves xs) @ us"] exI [of _ "vs @ concat (map leaves ys)"]) simp
qed (rule assms(3))

section \<open>The tree without the leaf\<close>

lemma subtree_remove_id:
  "s \<in> set (subtrees t) \<Longrightarrow> \<forall>c \<in> set (subtrees t). t_id c = i \<longrightarrow> \<not> is_split c \<Longrightarrow> t_id s \<noteq> i \<Longrightarrow>
    remove_id i s \<in> set (subtrees (remove_id i t))"
proof (induction t rule: ltree_kids_induct)
  case (step t)
  show ?case
  proof (cases "s = t")
    case False
    then obtain a j f z ts where t: "t = Split a j f z ts" using step.prems(1) by (cases t) auto
    with False step.prems(1) obtain d where d: "d \<in> set ts" "s \<in> set (subtrees d)" by auto
    have "t_id d \<noteq> i"
    proof
      assume i: "t_id d = i"
      have "d \<in> set (subtrees t)" using d(1) t kid_subtree [of d t t] by simp
      then have "\<not> is_split d" using step.prems(2) i by blast
      then have "s = d" using d(2) by (cases d) auto
      with i step.prems(3) show False by simp
    qed
    moreover have "remove_id i s \<in> set (subtrees (remove_id i d))"
      using step.IH [of d] d t step.prems by auto
    ultimately show ?thesis using d(1) t by auto
  qed simp
qed

lemma find_sub_self: "distinct (ids t) \<Longrightarrow> s \<in> set (subtrees t) \<Longrightarrow> find_sub (t_id s) t = Some s"
  using find_sub_in [of "t_id s" t] subtree_ids [of s t] root_in(2) [of s] subtree_by_id [of t _ s] by blast

lemma removed_world:
  assumes "tree_world (h, ts) t" "p \<in> set (subtrees t)" "is_split p" "c \<in> set (kids p)"
  defines "h1 \<equiv> setNode (t_ref p) (node_of (drop_kid (t_id c) p)) h"
  shows "tree_world (h1, ts) (remove_id (t_id c) t)"
proof -
  note wD = tree_worldD [OF assms(1), simplified]
  have rp: "represents h p" using represents_subtree [OF wD(2) assms(2)] .
  have "represents h1 (remove_id (t_id c) t)"
    unfolding remove_id_edit [OF wD(3,4) assms(2,4) refl]
  proof (rule represents_edit [OF wD(2,3) assms(2)])
    show "represents h1 (drop_kid (t_id c) p)"
      unfolding h1_def by (rule represents_drop_kid [OF rp assms(3) distinct_subtree(1) [OF assms(2) wD(3)]])
    show "t_ref (drop_kid (t_id c) p) = t_ref p" by (cases p) auto
  qed (auto simp: h1_def)
  then show ?thesis
    using wD height_remove_id [of "t_id c" t] distinct_remove_id [of t "t_id c"] represents_root [OF rp]
    by (auto simp: tree_world_def h1_def wf_store_setNode)
qed

lemma subtree_remove_id_elim:
  "s' \<in> set (subtrees (remove_id i t)) \<Longrightarrow> t_id t \<noteq> i \<Longrightarrow>
    \<exists>s \<in> set (subtrees t). s' = remove_id i s \<and> t_id s \<noteq> i"
proof (induction t rule: ltree_kids_induct)
  case (step t)
  show ?case
  proof (cases "s' = remove_id i t")
    case True
    then show ?thesis using step.prems(2) by (intro bexI [of _ t]) auto
  next
    case False
    then obtain a j f z ts where t: "t = Split a j f z ts" using step.prems(1) by (cases t) auto
    with False step.prems(1) obtain d where "d \<in> set ts" "t_id d \<noteq> i" "s' \<in> set (subtrees (remove_id i d))" by auto
    then show ?thesis using step.IH [of d] t by auto
  qed
qed

lemma removed_gone:
  assumes "distinct (refs t)" "c \<in> set (subtrees t)" "t_id t \<noteq> t_id c"
  shows "t_id c \<notin> set (ids (remove_id (t_id c) t))" "t_ref c \<notin> set (refs (remove_id (t_id c) t))"
proof -
  show "t_id c \<notin> set (ids (remove_id (t_id c) t))"
  proof
    assume "t_id c \<in> set (ids (remove_id (t_id c) t))"
    then obtain s' where "s' \<in> set (subtrees (remove_id (t_id c) t))" "t_id s' = t_id c" by (auto simp: ids_def)
    with subtree_remove_id_elim [OF this(1) assms(3)] show False by auto
  qed
  show "t_ref c \<notin> set (refs (remove_id (t_id c) t))"
  proof
    assume "t_ref c \<in> set (refs (remove_id (t_id c) t))"
    then obtain s' where "s' \<in> set (subtrees (remove_id (t_id c) t))" "t_ref s' = t_ref c" by (auto simp: refs_def)
    with subtree_remove_id_elim [OF this(1) assms(3)] obtain s where
      "s \<in> set (subtrees t)" "t_ref s = t_ref c" "t_id s \<noteq> t_id c" by auto
    then show False using subtree_by_ref [OF assms(1) _ assms(2)] by blast
  qed
qed

section \<open>Moving the leaf\<close>

text \<open>
  Where the leaf goes: to index \<open>k\<close> of the target, one less when it comes from before that index of
  the same parent; with its own size there, with the default size below another parent.
\<close>

definition moved_index :: "ltree \<Rightarrow> ltree \<Rightarrow> string \<Rightarrow> nat \<Rightarrow> nat" where
  "moved_index old new i k =
     (if t_id old = t_id new \<and> js_find_index (\<lambda>c. t_id c = i) (kids old) < int k then k - 1 else k)"

definition moved_size :: "ltree \<Rightarrow> ltree \<Rightarrow> jsnum \<Rightarrow> jsnum" where
  "moved_size old new z = (if t_id old = t_id new then z else DefaultNodeSize)"

lemma moveNode_world:
  fixes k :: nat
  assumes w: "tree_world w t" and c: "Leaf a i b f z \<in> set (subtrees t)" "t_id t \<noteq> i"
    and old: "parent_walk i t = Some old"
    and new: "new \<in> set (subtrees t)" "t_id new \<noteq> i" "t_id new \<noteq> []"
    and u: "uuids (fst w) (drawn (fst w)) \<notin> set (ids t)" and ht: "height t < stackDepth (fst w)"
  defines "action \<equiv> \<lparr>mv_index = Some (int k), mv_parentId = Some (t_id new), mv_insertAtRoot = False, mv_node = a\<rparr>"
    and "g \<equiv> add_leaf_at (moved_index old new i k) (nextRef (fst w)) (uuids (fst w) (drawn (fst w))) a i b (moved_size old new z)"
  shows "\<exists>h'. moveNode action w = (Inr (), (h', bumped (snd w))) \<and>
    tree_world (h', bumped (snd w)) (edit (t_ref new) g (remove_id i t))"
proof -
  obtain h ts where hts: "w = (h, ts)" by (cases w)
  note wD = tree_worldD [OF w, unfolded hts, simplified]
  define c where "c = Leaf a i b f z"
  have cc: "c \<in> set (subtrees t)" "t_id c = i" "t_ref c = a" using c by (simp_all add: c_def)
  have cella: "cells h a = Some (leaf_node i b f z)"
    using represents_root [OF represents_subtree [OF wD(2) cc(1)]] by (simp add: c_def leaf_node_def)
  obtain c' where c': "old \<in> set (subtrees t)" "is_split old" "c' \<in> set (kids old)" "t_id c' = i"
    using parent_walk_Some(1) [OF old] by auto
  have "c' = c" using subtree_by_id [OF wD(4)] kid_subtree [OF c'(3,1)] cc c'(4) by metis
  with c' have ck: "c \<in> set (kids old)" by simp
  have rold: "represents h old" using represents_subtree [OF wD(2) c'(1)] .
  have rnew: "represents h new" using represents_subtree [OF wD(2) new(1)] .
  obtain us vs where kids: "kids old = us @ c # vs" using ck by (meson split_list)
  have dk: "distinct (map t_id (kids old))" using distinct_kid_ids distinct_subtree(2) [OF c'(1) wD(4)] by blast
  have idu: "i \<notin> t_id ` set us" "i \<notin> t_id ` set vs" using dk cc(2) by (auto simp: kids)
  have dr: "a \<notin> t_ref ` set us" "a \<notin> t_ref ` set vs"
    using distinct_concat_heads [of refs "kids old" t_ref] distinct_subtree(1) [OF c'(1) wD(3)] cc(3)
    by (auto simp: kids refs_unfold [of old])
  have "filter (\<lambda>d. t_id d \<noteq> i) us = us" "filter (\<lambda>d. t_id d \<noteq> i) vs = vs"
    using idu by (auto intro!: filter_True)
  then have drop: "kids (drop_kid i old) = us @ vs" using c'(2) kids cc(2) by (cases old) simp_all
  have find: "findNode h (t_ref t) i = Inr (Some a)" "findNode h (t_ref t) (t_id new) = Inr (Some (t_ref new))"
    "findParent h (t_ref t) i = Inr (Some (t_ref old))"
    using tree_world_findNode [OF w, of i] tree_world_findNode [OF w, of "t_id new"] tree_world_findParent [OF w, of i]
      find_sub_self [OF wD(4) cc(1)] find_sub_self [OF wD(4) new(1)]
    by (simp_all only: hts fst_conv cc(2,3) old option.map)
  have ane: "a \<noteq> t_ref old" "a \<noteq> t_ref new"
    using root_ref_not_in_kid [OF distinct_subtree(1) [OF c'(1) wD(3)] ck] root_in(1) [of c] cc(3)
      subtree_by_ref [OF wD(3) cc(1) new(1)] cc(2) new(2) by auto
  define h1 where "h1 = setNode (t_ref old) (node_of (drop_kid i old)) h"
  have w1: "tree_world (h1, ts) (remove_id i t)"
    using removed_world [OF _ c'(1,2) ck] w cc(2) by (simp add: hts h1_def)
  have "\<not> is_split d" if "d \<in> set (subtrees t)" "t_id d = i" for d
    using subtree_by_id [OF wD(4) that(1) cc(1)] that(2) cc(2) by (simp add: c_def)
  then have new1: "remove_id i new \<in> set (subtrees (remove_id i t))"
    by (intro subtree_remove_id) (use new in auto)
  define q where "q = nextRef h"
  define uu where "uu = uuids h (drawn h)"
  have g: "g = add_leaf_at (moved_index old new i k) q uu a i b (moved_size old new z)"
    by (simp add: g_def q_def uu_def hts)
  have n1: "t_ref (remove_id i new) = t_ref new" by simp
  have cellnew: "cells h (t_ref new) = Some (node_of new)" using represents_root [OF rnew] .
  have cellold: "cells h (t_ref old) = Some (node_of old)" using represents_root [OF rold] .
  have h1new: "cells h1 (t_ref new) = Some (node_of (remove_id i new))"
    using represents_root [OF represents_subtree [OF tree_worldD(2) [OF w1] new1]] by simp
  have sp: "is_split (remove_id i new) = is_split new" by (cases new) auto
  have fl: "t_flex (remove_id i new) = t_flex new" by (cases new) auto
  have oldkids: "node_children (node_of old) = Some (map t_ref us @ a # map t_ref vs)"
    using c'(2) kids cc(3) by (simp add: node_children_node_of)
  have "kids (remove_id i old) = map (remove_id i) (us @ vs)"
    using c'(2) drop by (cases old) auto
  then have kids1: "map t_ref (kids (remove_id i old)) = map t_ref us @ map t_ref vs" by (simp add: o_def)
  have "\<exists>h'. moveNode action w = (Inr (), (h', bumped ts)) \<and>
    cells h' = (if is_split new then cells h1
        else (cells h1)(q := Some (leaf_node (t_id new) (le_blockid (hd (leaves new))) (reverseFlexDirection (t_flex new)) DefaultNodeSize)))
      (a := Some (leaf_node i b (reverseFlexDirection (t_flex new)) (moved_size old new z)),
       t_ref new := Some (node_of (g (remove_id i new)))) \<and>
    nextRef h' = (if is_split new then q else Suc q) \<and> stackDepth h' = stackDepth h"
  proof (cases "t_id old = t_id new")
    case True
    then have on: "old = new" using subtree_by_id [OF wD(4) c'(1) new(1)] by simp
    define cs where "cs = map t_ref us @ a # map t_ref vs"
    define start where "start = (if int k \<le> js_index_of cs a 0 then int k + 1 else 0)"
    have "js_find_index (\<lambda>c. t_id c = i) (kids old) = int (length us)"
      unfolding kids by (rule js_find_index_app) (use idu(1) cc(2) in \<open>auto simp: image_iff\<close>)
    moreover define k' where "k' = moved_index old new i k"
    ultimately have k': "k' = (if length us < k then k - 1 else k)"
      by (simp add: moved_index_def True)
    note sm = splice_moved [OF cs_def, of k, folded start_def]
    obtain hA where hA: "addChildAt (t_ref old) (Some (int k)) [a] h = (Inr (), hA)"
      "cells hA = (cells h)(a := Some (leaf_node i b (reverseFlexDirection (t_flex old)) z),
        t_ref old := Some (node_of (add_leaf_at k q uu a i b z old)))"
      "nextRef hA = q" "stackDepth hA = stackDepth h"
      using addChildAt_cells [OF cellold cella ane(1) wD(1) refl, of k] c'(2) by (auto simp: q_def uu_def)
    have kidsA: "node_children (node_of (add_leaf_at k q uu a i b z old)) = Some (insert_at k a cs)"
      using c'(2) kids cc(3) by (cases old) (simp_all add: map_insert_at cs_def)
    define n where "n = (node_of (add_leaf_at k q uu a i b z old))\<lparr>node_children :=
      Some (js_splice_out (js_index_of (insert_at k a cs) a start) (insert_at k a cs))\<rparr>"
    have rem: "removeChild (t_ref old) a start hA = (Inr (), setNode (t_ref old) n hA)"
      using sm dr kidsA by (simp add: removeChild_def getNode_def hA(2) n_def Let_def)
    have "n = node_of (g (remove_id i old))"
      unfolding g k'_def [symmetric]
      using sm dr c'(2) kids1 by (cases old) (simp_all add: n_def k' map_insert_at)
    moreover have "moveNode action w = (Inr (), (setNode (t_ref old) n hA, bumped ts))"
      using cella cellold find hA(1) rem wD(6) oldkids new(3) True
      by (simp add: moveNode_def action_def hts getNode_def leaf_node_def on onStore_def bumpGeneration_def
          modifyState_def bumped_def start_def cs_def)
    ultimately show ?thesis
      using c'(2) ane hA(3,4)
      by (auto simp: on [symmetric] hA(2) h1_def moved_size_def fun_eq_iff)
  next
    case False
    then have on: "t_ref old \<noteq> t_ref new" using subtree_by_ref [OF wD(3) c'(1) new(1)] by auto
    define h0 where "h0 = setNode a (leaf_node i b f DefaultNodeSize) h"
    have h0: "cells h0 (t_ref new) = Some (node_of new)" "cells h0 a = Some (leaf_node i b f DefaultNodeSize)"
      "wf_store h0" "nextRef h0 = q" "uuids h0 (drawn h0) = uu"
      using cellnew ane cella wD(1) by (simp_all add: h0_def wf_store_setNode q_def uu_def)
    have oq: "t_ref old \<noteq> q" "a \<noteq> q" "t_ref new \<noteq> q"
      using wf_store_cell [OF wD(1) cellold] wf_store_cell [OF wD(1) cella] wf_store_cell [OF wD(1) cellnew]
      by (auto simp: q_def)
    obtain hA where hA: "addChildAt (t_ref new) (Some (int k)) [a] h0 = (Inr (), hA)"
      "cells hA = (if is_split new then cells h0 else (cells h0)(q := Some (leaf_node (t_id new) (le_blockid (hd (leaves new)))
          (reverseFlexDirection (t_flex new)) DefaultNodeSize)))
        (a := Some (leaf_node i b (reverseFlexDirection (t_flex new)) DefaultNodeSize),
         t_ref new := Some (node_of (add_leaf_at k q uu a i b DefaultNodeSize new)))"
      "nextRef hA = (if is_split new then q else Suc q)" "stackDepth hA = stackDepth h"
      using addChildAt_cells [OF h0(1,2) ane(2) h0(3) refl, of k] unfolding h0(4,5) by (auto simp: h0_def)
    have oldA: "cells hA (t_ref old) = Some (node_of old)"
      using on oq ane cellold by (simp add: hA(2) h0_def)
    have dropnode: "node_of (drop_kid i old) = (node_of old)\<lparr>node_children := Some (map t_ref us @ map t_ref vs)\<rparr>"
      using c'(2) drop by (cases old) auto
    have rem: "removeChild (t_ref old) a 0 hA = (Inr (), setNode (t_ref old) (node_of (drop_kid i old)) hA)"
      using dr js_index_of_app [of a "map t_ref us" "map t_ref vs"] js_splice_out_app [of "map t_ref us" a "map t_ref vs"]
      by (simp add: removeChild_def getNode_def oldA oldkids dropnode)
    have "node_of (remove_id i new) = node_of new" using h1new cellnew on by (simp add: h1_def)
    then have gnew: "node_of (g (remove_id i new)) = node_of (add_leaf_at k q uu a i b DefaultNodeSize new)"
      using node_of_add_leaf_at [of "remove_id i new" new] False by (simp add: g moved_index_def moved_size_def)
    have "modifyNode a (\<lambda>n. n\<lparr>node_size := DefaultNodeSize\<rparr>) h = (Inr (), h0)"
      using cella by (simp add: h0_def leaf_node_def)
    then have "moveNode action w = (Inr (), (setNode (t_ref old) (node_of (drop_kid i old)) hA, bumped ts))"
      using cella cellold cellnew find hA(1) rem wD(6) new(3) False
      by (simp add: moveNode_def action_def hts getNode_def leaf_node_def onStore_def bumpGeneration_def
          modifyState_def bumped_def)
    then show ?thesis
      using on oq ane hA(3,4) False
      by (auto simp: gnew hA(2) h0_def h1_def moved_size_def fun_eq_iff)
  qed
  then obtain h' where h': "moveNode action w = (Inr (), (h', bumped ts))"
    "cells h' = (if is_split new then cells h1
        else (cells h1)(q := Some (leaf_node (t_id new) (le_blockid (hd (leaves new))) (reverseFlexDirection (t_flex new)) DefaultNodeSize)))
      (a := Some (leaf_node i b (reverseFlexDirection (t_flex new)) (moved_size old new z)),
       t_ref new := Some (node_of (g (remove_id i new))))"
    "nextRef h' = (if is_split new then q else Suc q)" "stackDepth h' = stackDepth h"
    by blast
  have q1: "q = nextRef h1" by (simp add: q_def h1_def)
  have leafnew: "\<not> is_split new \<Longrightarrow> remove_id i new = new" by (cases new) auto
  have "tree_world (h', bumped ts) (edit (t_ref (remove_id i new)) g (remove_id i t))"
    unfolding g q1
  proof (rule leaf_added_world [OF w1 new1])
    show "cells h1 a \<noteq> None" using cella ane by (simp add: h1_def)
    show "a \<notin> set (refs (remove_id i t))" "i \<notin> set (ids (remove_id i t))"
      using removed_gone [OF wD(3) cc(1)] c(2) cc by auto
    show "uu \<notin> set (ids (remove_id i t))" "uu \<noteq> i"
      using u subseq_remove_id(2) [of i t, THEN list_emb_set] subtree_ids [OF cc(1)] root_in(2) [of c] cc(2)
      by (auto simp: uu_def hts)
    show "height (remove_id i t) < stackDepth h1"
      using height_remove_id [of i t] ht by (simp add: h1_def hts)
  qed (use h' leafnew in \<open>auto simp: bumped_def h1_def q_def [symmetric] sp fl g\<close>)
  then show ?thesis using h'(1) by (auto simp: hts)
qed

end
