(* ===== verification/LayoutProps.thy ===== *)
theory LayoutProps
  imports LayoutSwap LayoutWrap LayoutMove
begin

text \<open>
  The properties of the layout tree operations, each with a witness on a small layout: a root
  row of the block \<open>b1\<close> and a column of the blocks \<open>b2\<close> and \<open>b3\<close>.
\<close>

section \<open>A small layout\<close>

abbreviation leaf10 :: "ref \<Rightarrow> string \<Rightarrow> string \<Rightarrow> flexDirection \<Rightarrow> ltree" where
  "leaf10 a i b f \<equiv> Leaf a i b f (Fin 10)"

definition demoTree :: ltree where
  "demoTree =
     Split 1 ''root'' Row (Fin 10)
       [leaf10 2 ''n1'' ''b1'' Column,
        Split 3 ''col'' Column (Fin 10) [leaf10 4 ''n2'' ''b2'' Row, leaf10 5 ''n3'' ''b3'' Row]]"

text \<open>The node at reference 6 is not in the tree yet.\<close>

definition demoStore :: layoutStore where
  "demoStore =
     \<lparr>cells = (\<lambda>a. if a = 6 then Some (leaf_node ''n4'' ''b4'' Row (Fin 10))
                   else map_option node_of (find (\<lambda>s. t_ref s = a) (subtrees demoTree))),
      nextRef = 7, uuids = (\<lambda>k. replicate (Suc k) (CHR ''u'')), drawn = 0, stackDepth = 10\<rparr>"

definition demoState :: layoutTreeState where
  "demoState =
     \<lparr>rootNode = 1, focusedNodeId = Some ''n2'', magnifiedNodeId = None, leafOrder = None,
      pendingBackendActions = None, generation = 7\<rparr>"

abbreviation demoWorld :: treeWorld where
  "demoWorld \<equiv> (demoStore, demoState)"

lemma demo_subtrees:
  "subtrees demoTree =
     [demoTree, leaf10 2 ''n1'' ''b1'' Column,
      Split 3 ''col'' Column (Fin 10) [leaf10 4 ''n2'' ''b2'' Row, leaf10 5 ''n3'' ''b3'' Row],
      leaf10 4 ''n2'' ''b2'' Row, leaf10 5 ''n3'' ''b3'' Row]"
  by (simp add: demoTree_def)

lemma demo_facts [simp]:
  "t_ref demoTree = 1" "t_id demoTree = ''root''" "height demoTree = 3"
  "refs demoTree = [1, 2, 3, 4, 5]" "ids demoTree = [''root'', ''n1'', ''col'', ''n2'', ''n3'']"
  by (simp_all add: demoTree_def)

lemma demo_world: "tree_world demoWorld demoTree"
proof -
  have "cells demoStore (t_ref s) = Some (node_of s)" if "s \<in> set (subtrees demoTree)" for s
    using that demo_subtrees by (auto simp: demoStore_def demo_subtrees)
  moreover have "wf_store demoStore"
    by (auto simp: wf_store_def demoStore_def demo_subtrees find_None_iff undef_def leaf_node_def)
  ultimately show ?thesis
    by (simp add: tree_world_def represents_def demoState_def) (simp add: demoStore_def)
qed

lemma demo_insertable: "insertable demoWorld demoTree 6 ''n4'' ''b4'' Row (Fin 10)"
  by (simp add: insertable_def demoStore_def)

lemma demo_shapes: "max_kids DEFAULT_MAX_CHILDREN demoTree" "alternating demoTree" "no_empty demoTree"
  by (simp_all add: max_kids_def alternating_def everywhere_def shape_def no_empty_def demo_subtrees
      DEFAULT_MAX_CHILDREN_def) (simp_all add: demoTree_def)

lemma demo_find:
  "find_sub ''n1'' demoTree = Some (leaf10 2 ''n1'' ''b1'' Column)"
  "find_sub ''n2'' demoTree = Some (leaf10 4 ''n2'' ''b2'' Row)"
  "find_sub ''n3'' demoTree = Some (leaf10 5 ''n3'' ''b3'' Row)"
  by (simp_all add: find_sub_def demo_subtrees)

lemma demo_swappable: "swappable ''n1'' ''n3'' demoTree"
  by (simp add: swappable_def demo_find)

lemma demo_swapped: "height (swap_ids ''n1'' ''n3'' demoTree) = 3"
  unfolding swap_ids_def demo_find by (simp add: demoTree_def)

section \<open>Deletion\<close>

text \<open>
  C1: deleting a node other than the root removes exactly the leaves of its subtree from the
  layout and keeps the order of the others, ends without an exception in a layout that is
  again a tree, counts the generation up and drops the focus if the node had it.
\<close>

theorem deleteNode_removes_subtree:
  assumes "tree_world w t" "i \<noteq> []" "t_id t \<noteq> i" "find_sub i t = Some s"
  shows "\<exists>h' ts'. deleteNode i w = (Inr (), (h', ts')) \<and> tree_world (h', ts') (remove_id i t) \<and>
    leaves (remove_id i t) = filter (\<lambda>e. le_nodeid e \<notin> set (ids s)) (leaves t) \<and>
    generation ts' = generation (snd w) + 1 \<and>
    focusedNodeId ts' = (if focusedNodeId (snd w) = Some i then None else focusedNodeId (snd w))"
proof -
  have "i \<in> set (ids t)" using assms(4) find_sub_None [of i t] by auto
  then show ?thesis
    using deleteNode_world [OF assms(1-3)] leaves_remove_id [OF tree_worldD(4) [OF assms(1)] assms(4,3)]
    by (fastforce simp: bumped_def clear_focus_def)
qed

theorem deleteNode_removes_subtree_witness:
  "\<exists>h' ts'. deleteNode ''n2'' demoWorld = (Inr (), (h', ts')) \<and> tree_world (h', ts') (remove_id ''n2'' demoTree) \<and>
    leaves (remove_id ''n2'' demoTree) =
      filter (\<lambda>e. le_nodeid e \<notin> set (ids (leaf10 4 ''n2'' ''b2'' Row))) (leaves demoTree) \<and>
    generation ts' = generation (snd demoWorld) + 1 \<and>
    focusedNodeId ts' =
      (if focusedNodeId (snd demoWorld) = Some ''n2'' then None else focusedNodeId (snd demoWorld))"
  by (rule deleteNode_removes_subtree [OF demo_world]) (simp_all add: demo_find)

section \<open>Insertion\<close>

text \<open>
  C2: inserting a fresh leaf always finds a place: the layout gains exactly that leaf, the order
  of the others is kept, no node gets more than five children, directions still alternate, the
  tree grows by at most one level, and the node takes the focus when it is asked to.
\<close>

theorem insertNode_adds_leaf:
  assumes "tree_world w t" "insertable w t a i b f z" "max_kids DEFAULT_MAX_CHILDREN t" "alternating t"
  shows "\<exists>h' ts' t' xs ys.
    insertNode \<lparr>ins_node = a, ins_magnified = mag, ins_focused = foc\<rparr> w = (Inr (), (h', ts')) \<and>
    tree_world (h', ts') t' \<and> leaves t = xs @ ys \<and>
    leaves t' = xs @ \<lparr>le_nodeid = i, le_blockid = b\<rparr> # ys \<and>
    max_kids DEFAULT_MAX_CHILDREN t' \<and> alternating t' \<and> height t' \<le> Suc (height t) \<and>
    generation ts' = generation (snd w) + 1 \<and>
    focusedNodeId ts' = (if mag \<or> foc then Some i else focusedNodeId (snd w)) \<and>
    magnifiedNodeId ts' = (if mag then Some i else magnifiedNodeId (snd w))"
proof -
  define g where "g = add_leaf (nextRef (fst w)) (uuids (fst w) (drawn (fst w))) a i b z"
  obtain s h' where s: "s \<in> set (subtrees t)" "is_split s \<longrightarrow> length (kids s) < DEFAULT_MAX_CHILDREN"
    "insertNode \<lparr>ins_node = a, ins_magnified = mag, ins_focused = foc\<rparr> w =
      (Inr (), (h', bumped (focusInserted mag foc i (snd w))))"
    "tree_world (h', bumped (focusInserted mag foc i (snd w))) (edit (t_ref s) g t)"
    using insertNode_world [OF assms(1,2), of mag foc] by (auto simp: g_def)
  have d: "distinct (refs t)" using tree_worldD(3) [OF assms(1)] .
  have sub: "everywhere Q t \<Longrightarrow> everywhere Q s" for Q
    using s(1) by (auto simp: everywhere_def intro: subtree_trans)
  have shapes: "max_kids DEFAULT_MAX_CHILDREN (g s)" "alternating (g s)"
    using everywhere_add_leaf(1) [of DEFAULT_MAX_CHILDREN s] everywhere_add_leaf(2) [of s] s(2) assms(3,4) sub
    by (auto simp: g_def max_kids_def alternating_def DEFAULT_MAX_CHILDREN_def)
  obtain xs ys where "leaves t = xs @ ys" "leaves (edit (t_ref s) g t) = xs @ \<lparr>le_nodeid = i, le_blockid = b\<rparr> # ys"
    using leaves_edit [OF d s(1), of g] by (auto simp: g_def)
  moreover have "max_kids DEFAULT_MAX_CHILDREN (edit (t_ref s) g t)" "alternating (edit (t_ref s) g t)"
    using everywhere_edit [OF d s(1)] shapes assms(3,4)
    by (auto simp: max_kids_def alternating_def g_def)
  moreover have "height (edit (t_ref s) g t) \<le> Suc (height t)"
    by (rule height_edit [OF d s(1)]) (simp add: g_def height_add_leaf)
  ultimately show ?thesis
    using s(3,4) by (intro exI [of _ h'] exI [of _ "bumped (focusInserted mag foc i (snd w))"]
        exI [of _ "edit (t_ref s) g t"] exI [of _ xs] exI [of _ ys])
      (simp add: bumped_def focusInserted_def)
qed

theorem insertNode_adds_leaf_witness:
  "\<exists>h' ts' t' xs ys.
    insertNode \<lparr>ins_node = 6, ins_magnified = False, ins_focused = True\<rparr> demoWorld = (Inr (), (h', ts')) \<and>
    tree_world (h', ts') t' \<and> leaves demoTree = xs @ ys \<and>
    leaves t' = xs @ \<lparr>le_nodeid = ''n4'', le_blockid = ''b4''\<rparr> # ys \<and>
    max_kids DEFAULT_MAX_CHILDREN t' \<and> alternating t' \<and> height t' \<le> Suc (height demoTree) \<and>
    generation ts' = generation (snd demoWorld) + 1 \<and>
    focusedNodeId ts' = (if False \<or> True then Some ''n4'' else focusedNodeId (snd demoWorld)) \<and>
    magnifiedNodeId ts' = (if False then Some ''n4'' else magnifiedNodeId (snd demoWorld))"
  by (rule insertNode_adds_leaf [OF demo_world demo_insertable demo_shapes(1,2)])

section \<open>Moving\<close>

text \<open>
  C3: moving a leaf into another node, or to another place below its parent, ends without an
  exception in a layout that is again a tree: the leaf has left its place and stands at the asked
  index of the target, one less when it left a place before it; every other leaf is still there, in
  the same order.
\<close>

theorem moveNode_moves_leaf:
  fixes k :: nat
  assumes "tree_world w t" "Leaf a i b f z \<in> set (subtrees t)" "t_id t \<noteq> i" "parent_walk i t = Some old"
    "new \<in> set (subtrees t)" "t_id new \<noteq> i" "t_id new \<noteq> []"
    "uuids (fst w) (drawn (fst w)) \<notin> set (ids t)" "height t < stackDepth (fst w)"
  defines "g \<equiv> add_leaf_at (moved_index old new i k) (nextRef (fst w)) (uuids (fst w) (drawn (fst w))) a i b (moved_size old new z)"
  shows "\<exists>h' xs ys. moveNode \<lparr>mv_index = Some (int k), mv_parentId = Some (t_id new), mv_insertAtRoot = False, mv_node = a\<rparr> w =
      (Inr (), (h', bumped (snd w))) \<and>
    tree_world (h', bumped (snd w)) (edit (t_ref new) g (remove_id i t)) \<and>
    filter (\<lambda>e. le_nodeid e \<noteq> i) (leaves t) = xs @ ys \<and>
    leaves (edit (t_ref new) g (remove_id i t)) = xs @ \<lparr>le_nodeid = i, le_blockid = b\<rparr> # ys"
proof -
  note wD = tree_worldD [OF assms(1)]
  have one: "find_sub i t = Some (Leaf a i b f z)" using find_sub_self [OF wD(4) assms(2)] by simp
  have "\<not> is_split d" if "d \<in> set (subtrees t)" "t_id d = i" for d
    using subtree_by_id [OF wD(4) that(1) assms(2)] that(2) by simp
  then have new: "remove_id i new \<in> set (subtrees (remove_id i t))"
    by (intro subtree_remove_id) (use assms(5,6) in auto)
  have "leaves (remove_id i t) = filter (\<lambda>e. le_nodeid e \<noteq> i) (leaves t)"
    using leaves_remove_id [OF wD(4) one assms(3)] by simp
  moreover have "\<exists>xs ys. leaves (remove_id i t) = xs @ ys \<and>
      leaves (edit (t_ref (remove_id i new)) g (remove_id i t)) = xs @ \<lparr>le_nodeid = i, le_blockid = b\<rparr> # ys"
    by (rule leaves_edit_at [OF distinct_remove_id(1) [OF wD(3)] new]) (simp add: g_def leaves_add_leaf_at)
  ultimately show ?thesis
    using moveNode_world [OF assms(1-9), of k] by (auto simp: g_def)
qed

lemma demo_parent: "parent_walk ''n1'' demoTree = Some demoTree"
  by (simp add: demoTree_def)

theorem moveNode_moves_leaf_witness:
  "\<exists>h' xs ys. moveNode \<lparr>mv_index = Some (int 1), mv_parentId = Some (t_id (leaf10 5 ''n3'' ''b3'' Row)),
      mv_insertAtRoot = False, mv_node = 2\<rparr> demoWorld = (Inr (), (h', bumped (snd demoWorld))) \<and>
    filter (\<lambda>e. le_nodeid e \<noteq> ''n1'') (leaves demoTree) = xs @ ys"
proof -
  have "Leaf 2 ''n1'' ''b1'' Column (Fin 10) \<in> set (subtrees demoTree)" "leaf10 5 ''n3'' ''b3'' Row \<in> set (subtrees demoTree)"
    "t_id demoTree \<noteq> ''n1''" "t_id (leaf10 5 ''n3'' ''b3'' Row) \<noteq> ''n1''" "t_id (leaf10 5 ''n3'' ''b3'' Row) \<noteq> []"
    "uuids (fst demoWorld) (drawn (fst demoWorld)) \<notin> set (ids demoTree)" "height demoTree < stackDepth (fst demoWorld)"
    by (simp_all add: demo_subtrees) (simp_all add: demoStore_def)
  from moveNode_moves_leaf [OF demo_world this(1,3) demo_parent this(2,4,5,6,7), of 1] show ?thesis by blast
qed

section \<open>Swapping\<close>

text \<open>
  C6: swapping two nodes, neither of them the root nor above the other, exchanges their subtrees
  in place: each keeps everything but its size, which it takes over from the other, and the
  nodes of the layout stay the same.
\<close>

theorem swapNode_exchanges:
  assumes "tree_world w t" "swappable i j t" "find_sub i t = Some s1" "find_sub j t = Some s2"
    "height (swap_ids i j t) \<le> stackDepth (fst w)"
  shows "\<exists>h'. swapNode i j w = (Inr (), (h', bumped (snd w))) \<and>
    tree_world (h', bumped (snd w)) (swap_ids i j t) \<and>
    mset (ids (swap_ids i j t)) = mset (ids t) \<and>
    find_sub i (swap_ids i j t) = Some (set_size (t_size s2) s1) \<and>
    find_sub j (swap_ids i j t) = Some (set_size (t_size s1) s2)"
  using tree_world_swap [OF assms(1,2,5)] swap_ids_found [OF assms(2) tree_worldD(4) [OF assms(1)] assms(3,4)]
  by blast

theorem swapNode_exchanges_witness:
  "\<exists>h'. swapNode ''n1'' ''n3'' demoWorld = (Inr (), (h', bumped (snd demoWorld))) \<and>
    tree_world (h', bumped (snd demoWorld)) (swap_ids ''n1'' ''n3'' demoTree) \<and>
    mset (ids (swap_ids ''n1'' ''n3'' demoTree)) = mset (ids demoTree) \<and>
    find_sub ''n1'' (swap_ids ''n1'' ''n3'' demoTree) =
      Some (set_size (t_size (leaf10 5 ''n3'' ''b3'' Row)) (leaf10 2 ''n1'' ''b1'' Column)) \<and>
    find_sub ''n3'' (swap_ids ''n1'' ''n3'' demoTree) =
      Some (set_size (t_size (leaf10 2 ''n1'' ''b1'' Column)) (leaf10 5 ''n3'' ''b3'' Row))"
  by (rule swapNode_exchanges [OF demo_world demo_swappable demo_find(1,3)]) (simp add: demo_swapped, simp add: demoStore_def)

text \<open>
  Swapping the same two nodes a second time gives the layout back that the first swap
  started from.
\<close>

theorem swapNode_twice_restores:
  assumes "tree_world w t" "swappable i j t" "height (swap_ids i j t) \<le> stackDepth (fst w)"
  shows "\<exists>w' h''. swapNode i j w = (Inr (), w') \<and> swapNode i j w' = (Inr (), (h'', bumped (bumped (snd w)))) \<and>
    tree_world (h'', bumped (bumped (snd w))) t"
proof -
  note d = tree_worldD(4,5) [OF assms(1)]
  obtain h' where h': "swapNode i j w = (Inr (), (h', bumped (snd w)))"
    "tree_world (h', bumped (snd w)) (swap_ids i j t)" "stackDepth h' = stackDepth (fst w)"
    using tree_world_swap [OF assms] by blast
  have "height (swap_ids i j (swap_ids i j t)) \<le> stackDepth h'"
    using swap_ids_twice(2) [OF assms(2) d(1)] d(2) h'(3) by simp
  then show ?thesis
    using h'(1) tree_world_swap [OF h'(2) swap_ids_twice(1) [OF assms(2) d(1)]]
      swap_ids_twice(2) [OF assms(2) d(1)] by auto
qed

theorem swapNode_twice_restores_witness:
  "\<exists>w' h''. swapNode ''n1'' ''n3'' demoWorld = (Inr (), w') \<and>
    swapNode ''n1'' ''n3'' w' = (Inr (), (h'', bumped (bumped (snd demoWorld)))) \<and>
    tree_world (h'', bumped (bumped (snd demoWorld))) demoTree"
  by (rule swapNode_twice_restores [OF demo_world demo_swappable]) (simp add: demo_swapped, simp add: demoStore_def)

section \<open>Resizing\<close>

text \<open>
  A list of resize operations on nodes of the layout, with sizes between 0 and 100, sets
  these sizes one after the other, changes nothing else and counts the generation up.
\<close>

theorem resizeNode_sets_sizes:
  assumes "tree_world w t" "\<forall>r \<in> set ops. valid_resize t r"
  shows "\<exists>h'. resizeNode (Some ops) w = (Inr (), (h', bumped (snd w))) \<and>
    tree_world (h', bumped (snd w)) (resize_all ops t)"
  by (rule resizeNode_world [OF assms])

theorem resizeNode_sets_sizes_witness:
  "\<exists>h'. resizeNode (Some [\<lparr>rs_nodeId = ''n2'', rs_size = Fin 30\<rparr>, \<lparr>rs_nodeId = ''n3'', rs_size = Fin 70\<rparr>]) demoWorld =
      (Inr (), (h', bumped (snd demoWorld))) \<and>
    tree_world (h', bumped (snd demoWorld))
      (resize_all [\<lparr>rs_nodeId = ''n2'', rs_size = Fin 30\<rparr>, \<lparr>rs_nodeId = ''n3'', rs_size = Fin 70\<rparr>] demoTree)"
  by (rule resizeNode_sets_sizes [OF demo_world]) (simp add: valid_resize_def less_jsnum_def)

text \<open>
  An operation with a size outside the bounds stops the loop: the operations before it stay
  applied, those after it are not, and the generation is not counted up, so that the change is
  neither laid out nor saved.
\<close>

theorem resizeNode_invalid_size_stops:
  assumes "tree_world w t" "\<forall>r \<in> set done1. valid_resize t r"
    and "rs_size bad < Fin 0 \<or> Fin 100 < rs_size bad"
  shows "\<exists>h'. resizeNode (Some (done1 @ bad # rest)) w = (Inr (), (h', snd w)) \<and>
    tree_world (h', snd w) (resize_all done1 t)"
proof -
  obtain h' where h': "resizeLoop done1 w = (Inr True, (h', snd w))" "tree_world (h', snd w) (resize_all done1 t)"
    using resizeLoop_world [OF assms(1,2)] by blast
  have "resizeLoop (done1 @ bad # rest) w = (Inr False, (h', snd w))"
    using h'(1) assms(3) resizeLoop_append [of done1 "bad # rest" w] by auto
  with h'(2) show ?thesis by (simp add: resizeNode_def)
qed

theorem resizeNode_invalid_size_stops_witness:
  "\<exists>h'. resizeNode (Some ([\<lparr>rs_nodeId = ''n2'', rs_size = Fin 30\<rparr>] @ \<lparr>rs_nodeId = ''n3'', rs_size = Fin 101\<rparr> # [])) demoWorld =
      (Inr (), (h', snd demoWorld)) \<and>
    tree_world (h', snd demoWorld) (resize_all [\<lparr>rs_nodeId = ''n2'', rs_size = Fin 30\<rparr>] demoTree)"
  by (rule resizeNode_invalid_size_stops [OF demo_world]) (simp_all add: valid_resize_def)

section \<open>Balancing\<close>

text \<open>
  C7: a balancing pass over a tree whose splits have children ends without an exception, keeps
  every block and their order, keeps directions alternating, leaves no split with a single leaf,
  and touches no node outside the tree.
\<close>

theorem balanceNode_keeps_blocks:
  assumes "represents h t" "wf_store h" "distinct (refs t)" "no_empty t" "height t \<le> stackDepth h"
  shows "\<exists>h'. balanceNode (t_ref t) None None (h, x) = (Inr (t_ref t), (h', x)) \<and>
    represents h' (balance t) \<and> leaves (balance t) = leaves t \<and> lean (balance t) \<and>
    (alternating t \<longrightarrow> alternating (balance t)) \<and>
    (\<forall>a. a \<notin> set (refs t) \<longrightarrow> cells h' a = cells h a)"
  using balanceNode_represents [OF assms, of x] leaves_balance [of t] lean_balance [of t] balance_alternating [of t]
  by blast

theorem balanceNode_keeps_blocks_witness:
  "\<exists>h'. balanceNode (t_ref demoTree) None None (demoStore, ()) = (Inr (t_ref demoTree), (h', ())) \<and>
    represents h' (balance demoTree) \<and> leaves (balance demoTree) = leaves demoTree \<and> lean (balance demoTree) \<and>
    (alternating demoTree \<longrightarrow> alternating (balance demoTree)) \<and>
    (\<forall>a. a \<notin> set (refs demoTree) \<longrightarrow> cells h' a = cells demoStore a)"
  by (rule balanceNode_keeps_blocks)
    (use tree_worldD [OF demo_world] demo_shapes(3) in simp_all)

section \<open>Search\<close>

text \<open>
  C9: \<open>findNode\<close> and \<open>findParent\<close> return without exhausting the stack: the first node in
  preorder with the identifier, and for a node other than the root the node it is a child of.
\<close>

theorem search_finds_node_and_parent:
  assumes "tree_world w t"
  shows "findNode (fst w) (t_ref t) i = Inr (map_option t_ref (find (\<lambda>s. t_id s = i) (subtrees t))) \<and>
    (if t_id t = i \<or> i \<notin> set (ids t) then findParent (fst w) (t_ref t) i = Inr None
     else \<exists>p c. p \<in> set (subtrees t) \<and> c \<in> set (kids p) \<and> t_id c = i \<and>
       findParent (fst w) (t_ref t) i = Inr (Some (t_ref p)))"
proof (cases "parent_walk i t")
  case None
  then show ?thesis
    using tree_world_findNode [OF assms, of i] tree_world_findParent [OF assms, of i] parent_walk_None(1) [of i t]
    by (simp add: find_sub_def)
next
  case (Some p)
  moreover have "\<not> (t_id t = i \<or> i \<notin> set (ids t))" using parent_walk_None(1) [of i t] Some by simp
  ultimately show ?thesis
    using tree_world_findNode [OF assms, of i] tree_world_findParent [OF assms, of i] parent_walk_Some(1) [OF Some]
    by (auto simp: find_sub_def)
qed

theorem search_finds_node_and_parent_witness:
  "findNode (fst demoWorld) (t_ref demoTree) ''n3'' =
     Inr (map_option t_ref (find (\<lambda>s. t_id s = ''n3'') (subtrees demoTree))) \<and>
    (if t_id demoTree = ''n3'' \<or> ''n3'' \<notin> set (ids demoTree) then findParent (fst demoWorld) (t_ref demoTree) ''n3'' = Inr None
     else \<exists>p c. p \<in> set (subtrees demoTree) \<and> c \<in> set (kids p) \<and> t_id c = ''n3'' \<and>
       findParent (fst demoWorld) (t_ref demoTree) ''n3'' = Inr (Some (t_ref p)))"
  by (rule search_finds_node_and_parent [OF demo_world])

section \<open>Dropping a node\<close>

text \<open>
  What a drop in the centre of a tile comes to: a swap of two tiles that are not the root;
  but when the root is the target, a move without a node, which throws when it is committed, and
  when the root itself is dropped, an exception at once.
\<close>

theorem centre_drop_outcome:
  assumes "tree_world w t" "i \<in> set (ids t)" "j \<in> set (ids t)" "i \<noteq> []" "j \<noteq> []" "i \<noteq> j"
  shows "computeMoveNode (fst w) (snd w) i j (Some DropCenter) =
      (if j = t_id t then Inl TypeError
       else if i = t_id t then Inr (Some (Move noMoveOperation))
       else Inr (Some (Swap i j))) \<and>
    moveNode noMoveOperation w = (Inl TypeError, w)"
    (is "?move \<and> _")
proof
  note wD = tree_worldD [OF assms(1)]
  obtain s where s: "find_sub i t = Some s" "s \<in> set (subtrees t)" using find_sub_in [OF assms(2)] by blast
  obtain s' where s': "find_sub j t = Some s'" using find_sub_in [OF assms(3)] by blast
  have nd: "getNode (fst w) (t_ref s) = Inr (node_of s)"
    using wD(2) s(2) by (simp add: represents_def getNode_def)
  have parent: "findParent (fst w) (t_ref t) j = Inr (map_option t_ref (parent_walk j t))"
    by (rule tree_world_findParent [OF assms(1)])
  have swap: ?move if "j \<noteq> t_id t" "i \<noteq> t_id t"
    using that assms(4-6) s s' by (simp add: computeMoveNode_def wD(6,8) tree_world_findNode [OF assms(1)])
  have other: "computeMoveNode (fst w) (snd w) i j (Some DropCenter) = finishMove (fst w) (t_ref t) j None"
    if "j = t_id t \<or> i = t_id t"
    using that assms(4-6) s s'
    by (auto simp: computeMoveNode_def wD(6,8) tree_world_findNode [OF assms(1)] nd moveOperationFor_def)
  show ?move
  proof (cases "j = t_id t \<or> i = t_id t")
    case root: True
    show ?thesis
    proof (cases "parent_walk j t")
      case None
      then have "j = t_id t" using parent_walk_None(1) [of j t] assms(3) by auto
      moreover have "finishMove (fst w) (t_ref t) j None = Inl TypeError"
        by (simp add: finishMove_def parent None)
      ultimately show ?thesis using other root by simp
    next
      case (Some p)
      then have "j \<noteq> t_id t" using parent_walk_None(1) [of j t] by auto
      have pn: "getNode (fst w) (t_ref p) = Inr (node_of p)"
        using wD(2) parent_walk_Some(1) [OF Some] by (simp add: represents_def getNode_def)
      have "finishMove (fst w) (t_ref t) j None = Inr (Some (Move noMoveOperation))"
        by (simp add: finishMove_def parent Some pn)
      with \<open>j \<noteq> t_id t\<close> show ?thesis using other root assms(6) by auto
    qed
  qed (use swap in simp)
  show "moveNode noMoveOperation w = (Inl TypeError, w)"
    using wD(1) by (simp add: moveNode_def noMoveOperation_def getNode_def wf_store_def)
qed

theorem centre_drop_outcome_witness:
  "computeMoveNode (fst demoWorld) (snd demoWorld) ''root'' ''n2'' (Some DropCenter) =
      (if ''n2'' = t_id demoTree then Inl TypeError
       else if ''root'' = t_id demoTree then Inr (Some (Move noMoveOperation))
       else Inr (Some (Swap ''root'' ''n2''))) \<and>
    moveNode noMoveOperation demoWorld = (Inl TypeError, demoWorld)"
  by (rule centre_drop_outcome [OF demo_world]) simp_all

definition outer_along :: "dropDirection \<Rightarrow> flexDirection option" where
  "outer_along d =
     (case d of OuterTop \<Rightarrow> Some Column | OuterBottom \<Rightarrow> Some Column
      | OuterLeft \<Rightarrow> Some Row | OuterRight \<Rightarrow> Some Row | _ \<Rightarrow> None)"

text \<open>
  A drop on the outer edge of the root, along the root's own axis, throws whatever node is
  dropped: the grandparent is read off a parent that does not exist.
\<close>

theorem outer_drop_on_root_throws:
  assumes "tree_world w t" "t_id t \<noteq> []" "j \<noteq> []" "j \<noteq> t_id t" "j \<in> set (ids t)"
    and "outer_along d = Some (t_flex t)"
  shows "computeMoveNode (fst w) (snd w) (t_id t) j (Some d) = Inl TypeError"
proof -
  note wD = tree_worldD [OF assms(1)]
  obtain s' where s': "find_sub j t = Some s'" using find_sub_in [OF assms(5)] by blast
  have root: "find_sub (t_id t) t = Some t" by (simp add: find_sub_unfold)
  have none: "parent_walk (t_id t) t = None" by (simp add: parent_walk_None)
  have parent: "findParent (fst w) (t_ref t) (t_id t) = Inr None"
    by (simp add: tree_world_findParent [OF assms(1)] none)
  have "moveOperationFor (fst w) (t_ref t) True (node_of t) (t_id t) a d = Inl TypeError" for a
    using assms(6) by (cases d) (simp_all add: moveOperationFor_def moveOuter_def outer_along_def parent)
  moreover have "d \<noteq> DropCenter" using assms(6) by (auto simp: outer_along_def)
  ultimately show ?thesis
    using assms(2-4) s'
    by (simp add: computeMoveNode_def wD(6,8) tree_world_findNode [OF assms(1)] root)
qed

theorem outer_drop_on_root_throws_witness:
  "computeMoveNode (fst demoWorld) (snd demoWorld) (t_id demoTree) ''n2'' (Some OuterLeft) = Inl TypeError"
  by (rule outer_drop_on_root_throws [OF demo_world]) (simp_all add: outer_along_def, simp add: demoTree_def)

section \<open>Wrapping a node\<close>

text \<open>
  Pushing a node down below itself keeps every block in its place and the directions
  alternating, moves the node's identifier to the node that is returned, and writes to no other
  node of the store.
\<close>

theorem addIntermediateNode_wraps:
  assumes "represents h t" "wf_store h" "distinct (refs t)" "is_split t \<longrightarrow> kids t \<noteq> []"
  shows "\<exists>q h' t'. addIntermediateNode (t_ref t) h = (Inr q, h') \<and> represents h' t' \<and> wf_store h' \<and>
    t_ref t' = t_ref t \<and> map t_ref (kids t') = [q] \<and> t_id (hd (kids t')) = t_id t \<and>
    leaves t' = leaves t \<and> (alternating t \<longrightarrow> alternating t') \<and>
    (\<forall>a. a \<noteq> t_ref t \<longrightarrow> a < nextRef h \<longrightarrow> cells h' a = cells h a)"
proof -
  let ?t' = "wrap (nextRef h) (Suc (nextRef h)) (uuids h (drawn h)) (uuids h (Suc (drawn h))) t"
  obtain q h' where "addIntermediateNode (t_ref t) h = (Inr q, h')" "t_ref (hd (kids ?t')) = q" "represents h' ?t'"
    "wf_store h'" "\<forall>a. a \<noteq> t_ref t \<longrightarrow> a < nextRef h \<longrightarrow> cells h' a = cells h a"
    using addIntermediateNode_wrap [OF assms] by blast
  moreover have "t_ref ?t' = t_ref t \<and> map t_ref (kids ?t') = [t_ref (hd (kids ?t'))] \<and> t_id (hd (kids ?t')) = t_id t"
    by (cases t) simp_all
  ultimately show ?thesis
    using leaves_wrap alternating_wrap by (intro exI [of _ q] exI [of _ h'] exI [of _ ?t']) simp
qed

theorem addIntermediateNode_wraps_witness:
  "\<exists>q h' t'. addIntermediateNode (t_ref demoTree) demoStore = (Inr q, h') \<and> represents h' t' \<and> wf_store h' \<and>
    t_ref t' = t_ref demoTree \<and> map t_ref (kids t') = [q] \<and> t_id (hd (kids t')) = t_id demoTree \<and>
    leaves t' = leaves demoTree \<and> (alternating demoTree \<longrightarrow> alternating t') \<and>
    (\<forall>a. a \<noteq> t_ref demoTree \<longrightarrow> a < nextRef demoStore \<longrightarrow> cells h' a = cells demoStore a)"
  by (rule addIntermediateNode_wraps) (use tree_worldD [OF demo_world] in \<open>simp_all, simp add: demoTree_def\<close>)

end
