(* ===== verification/LayoutGeneration.thy ===== *)
theory LayoutGeneration
  imports LayoutModel
begin

text \<open>
  The generation of the tree state never goes back, whatever an operation does and however it
  ends. The rules follow the combinators the operations are written with.
\<close>

named_theorems gen_rules "a result whose state has at least the given generation"

definition gen_ok :: "int \<Rightarrow> (js_error + 'a) \<times> treeWorld \<Rightarrow> bool" where
  "gen_ok g r \<longleftrightarrow> g \<le> generation (snd (snd r))"

lemma gen_ok_Pair [simp]: "gen_ok g (r, w) \<longleftrightarrow> g \<le> generation (snd w)"
  by (simp add: gen_ok_def)

lemma gen_andThen [gen_rules]:
  assumes "gen_ok g r" "\<And>x w'. g \<le> generation (snd w') \<Longrightarrow> gen_ok g (k x w')"
  shows "gen_ok g (andThen r k)"
proof (cases r rule: prod.exhaust)
  case (Pair x w)
  with assms show ?thesis by (cases x) auto
qed

lemma gen_withVal [gen_rules]:
  "g \<le> generation (snd w) \<Longrightarrow> (\<And>x. gen_ok g (k x)) \<Longrightarrow> gen_ok g (withVal r w k)"
  by (cases r) auto

lemma gen_onStore [gen_rules]: "g \<le> generation (snd w) \<Longrightarrow> gen_ok g (onStore f w)"
  by (simp add: onStore_def split: prod.split)

lemma gen_bump [gen_rules]: "g \<le> generation (snd w) \<Longrightarrow> gen_ok g (bumpGeneration w)"
  by (simp add: bumpGeneration_def)

lemma gen_modify [gen_rules]: "g \<le> generation (f (snd w)) \<Longrightarrow> gen_ok g (modifyState f w)"
  by (simp add: modifyState_def)

lemma gen_if [gen_rules]: "gen_ok g a \<Longrightarrow> gen_ok g b \<Longrightarrow> gen_ok g (if P then a else b)"
  by simp

lemma gen_option [gen_rules]:
  "gen_ok g a \<Longrightarrow> (\<And>x. gen_ok g (b x)) \<Longrightarrow> gen_ok g (case z of None \<Rightarrow> a | Some x \<Rightarrow> b x)"
  by (cases z) auto

lemma gen_prod [gen_rules]: "(\<And>x y. gen_ok g (b x y)) \<Longrightarrow> gen_ok g (case z of (x, y) \<Rightarrow> b x y)"
  by (cases z) auto

lemma gen_return [gen_rules]: "g \<le> generation (snd w) \<Longrightarrow> gen_ok g (r, w)"
  by simp

lemma generation_focusInserted [simp]: "generation (focusInserted m f i ts) = generation ts"
  by (simp add: focusInserted_def Let_def)

lemma gen_moveNode: "g \<le> generation (snd w) \<Longrightarrow> gen_ok g (moveNode action w)"
  unfolding moveNode_def Let_def by (intro gen_rules) simp_all

lemma gen_insertNode: "g \<le> generation (snd w) \<Longrightarrow> gen_ok g (insertNode action w)"
  unfolding insertNode_def by (intro gen_rules) simp_all

lemma gen_insertNodeAtIndex: "g \<le> generation (snd w) \<Longrightarrow> gen_ok g (insertNodeAtIndex action idxs w)"
  unfolding insertNodeAtIndex_def by (intro gen_rules) simp_all

lemma gen_swapNode: "g \<le> generation (snd w) \<Longrightarrow> gen_ok g (swapNode i j w)"
  unfolding swapNode_def Let_def by (intro gen_rules) simp_all

lemma gen_deleteNode: "g \<le> generation (snd w) \<Longrightarrow> gen_ok g (deleteNode i w)"
  unfolding deleteNode_def Let_def by (intro gen_rules) simp_all

lemma gen_resizeLoop: "g \<le> generation (snd w) \<Longrightarrow> gen_ok g (resizeLoop ops w)"
proof (induction ops arbitrary: w)
  case (Cons r ops)
  then show ?case unfolding resizeLoop.simps by (intro gen_rules) simp_all
qed simp

lemma gen_resizeNode: "g \<le> generation (snd w) \<Longrightarrow> gen_ok g (resizeNode ops w)"
  unfolding resizeNode_def by (intro gen_rules gen_resizeLoop) simp_all

lemma gen_focusNode: "g \<le> generation (snd w) \<Longrightarrow> gen_ok g (focusNode i w)"
  unfolding focusNode_def by (intro gen_rules) simp_all

lemma gen_magnifyNodeToggle: "g \<le> generation (snd w) \<Longrightarrow> gen_ok g (magnifyNodeToggle i w)"
  unfolding magnifyNodeToggle_def by (intro gen_rules) simp_all

lemma gen_clearTree: "g \<le> generation (snd w) \<Longrightarrow> gen_ok g (clearTree w)"
  unfolding clearTree_def by (intro gen_rules) simp_all

lemmas gen_ops = gen_moveNode gen_insertNode gen_insertNodeAtIndex gen_swapNode gen_deleteNode
  gen_resizeNode gen_focusNode gen_magnifyNodeToggle gen_clearTree

section \<open>The model\<close>

definition grown :: "int \<Rightarrow> (js_error + 'a) \<times> modelWorld \<Rightarrow> bool" where
  "grown g r \<longleftrightarrow> g \<le> generation (treeState (snd (snd r)))"

named_theorems grown_rules "a result whose model has at least the given generation"

lemma grown_Pair [simp]: "grown g (r, w) \<longleftrightarrow> g \<le> generation (treeState (snd w))"
  by (simp add: grown_def)

lemma grown_andThen [grown_rules]:
  assumes "grown g r" "\<And>x w'. g \<le> generation (treeState (snd w')) \<Longrightarrow> grown g (k x w')"
  shows "grown g (andThen r k)"
proof (cases r rule: prod.exhaust)
  case (Pair x w)
  with assms show ?thesis by (cases x) auto
qed

lemma grown_withVal [grown_rules]:
  "g \<le> generation (treeState (snd w)) \<Longrightarrow> (\<And>x. grown g (k x)) \<Longrightarrow> grown g (withVal r w k)"
  by (cases r) auto

lemma grown_onTree [grown_rules]:
  "gen_ok g (f (fst w, treeState (snd w))) \<Longrightarrow> grown g (onTree f w)"
  by (cases "f (fst w, treeState (snd w))") (auto simp: onTree_def)

lemma grown_modify [grown_rules]: "g \<le> generation (treeState (f (snd w))) \<Longrightarrow> grown g (modifyModel f w)"
  by (simp add: modifyModel_def)

lemma grown_if [grown_rules]: "grown g a \<Longrightarrow> grown g b \<Longrightarrow> grown g (if P then a else b)"
  by simp

lemma grown_option [grown_rules]:
  "grown g a \<Longrightarrow> (\<And>x. grown g (b x)) \<Longrightarrow> grown g (case z of None \<Rightarrow> a | Some x \<Rightarrow> b x)"
  by (cases z) auto

lemma grown_list [grown_rules]:
  "grown g a \<Longrightarrow> (\<And>x xs. grown g (b x xs)) \<Longrightarrow> grown g (case z of [] \<Rightarrow> a | x # xs \<Rightarrow> b x xs)"
  by (cases z) auto

lemma grown_return [grown_rules]: "g \<le> generation (treeState (snd w)) \<Longrightarrow> grown g (r, w)"
  by simp

lemma grown_validateFocusedNode: "g \<le> generation (treeState (snd w)) \<Longrightarrow> grown g (validateFocusedNode lo w)"
  unfolding validateFocusedNode_def Let_def by (intro grown_rules) simp_all

lemma generation_cleanup [simp]: "treeState (cleanupNodeModels lo m) = treeState m"
  by (simp add: cleanupNodeModels_def)

lemma generation_magnified: "validateMagnifiedNode lo ps m = (ps', m') \<Longrightarrow> generation (treeState m') = generation (treeState m)"
  by (auto simp: validateMagnifiedNode_def split: list.splits)

lemma grown_finish:
  assumes "g \<le> generation (treeState (snd v))"
  shows "grown g (let (props, m) = validateMagnifiedNode lo ps (snd v); m = cleanupNodeModels lo m in
    (Inr (), (fst v, m\<lparr>leafs := l, modelLeafOrder := lo, additionalProps := props\<rparr>)))"
  using assms generation_magnified by (auto simp: Let_def split: prod.split)

lemma grown_update:
  assumes "g \<le> generation (treeState m)"
  shows "grown g (let (r, (h, (newAdditionalProps, newLeafs))) = s; w = (h, m) in
    withVal r w (\<lambda>_.
    withVal (getLeafOrder h newLeafs newAdditionalProps) w (\<lambda>lo.
    andThen (modifyModel (\<lambda>m. m\<lparr>treeState := (treeState m)\<lparr>leafOrder := Some lo\<rparr>\<rparr>) w) (\<lambda>_ w.
    andThen (validateFocusedNode lo w) (\<lambda>_ w.
    let (props, m) = validateMagnifiedNode lo newAdditionalProps (snd w); m = cleanupNodeModels lo m in
    (Inr (), (fst w, m\<lparr>leafs := sort_key (leafIdKey h) newLeafs, modelLeafOrder := lo,
                       additionalProps := props\<rparr>)))))))"
proof (cases s)
  case (fields r h ps ls)
  show ?thesis
    unfolding fields prod.case Let_def [of "(h, m)"] Let_def [of "(r, _)"]
    by (intro grown_withVal grown_andThen grown_modify grown_validateFocusedNode grown_finish)
      (use assms in simp_all)
qed

lemma grown_updateTree:
  assumes "g \<le> generation (treeState (snd w))"
  shows "grown g (updateTree b w)"
proof (cases "displayContainer (snd w)")
  case None
  with assms show ?thesis by (simp add: updateTree_def)
next
  case (Some c)
  show ?thesis
    unfolding updateTree_def Some option.case
      Let_def [of "frameOf _ _"] Let_def [of "rootNode _"] Let_def [of "Some _"]
    by (rule grown_update [OF assms])
qed

lemma grown_setTreeStateAtom: "g \<le> generation (treeState (snd w)) \<Longrightarrow> grown g (setTreeStateAtom bump w)"
  unfolding setTreeStateAtom_def by (intro grown_rules gen_rules) simp_all

lemma grown_afterReduce: "g \<le> generation (treeState (snd w)) \<Longrightarrow> grown g (afterReduce s w)"
  unfolding afterReduce_def by (intro grown_rules grown_updateTree grown_setTreeStateAtom) simp_all

lemma grown_treeReducer_rec:
  "g \<le> generation (treeState (snd w)) \<Longrightarrow> grown g (treeReducer_rec d action s w)"
proof (induction d arbitrary: action s w)
  case (Suc d)
  have "grown g (case action of
      ComputeMove nodeId nodeToMoveId direction \<Rightarrow>
        withVal (computeMoveNode (fst w) (treeState (snd w)) nodeId nodeToMoveId direction) w (\<lambda>a. setPending a w)
    | Move m \<Rightarrow> onTree (moveNode m) w
    | InsertNode a \<Rightarrow> onTree (insertNode a) w
    | InsertNodeAtIndex a idxs \<Rightarrow> onTree (insertNodeAtIndex a idxs) w
    | DeleteNode i \<Rightarrow> onTree (deleteNode i) w
    | Swap i j \<Rightarrow> onTree (swapNode i j) w
    | ResizeNode ops \<Rightarrow> onTree (resizeNode ops) w
    | SetPendingAction a \<Rightarrow> (case a of None \<Rightarrow> (Inr (), w) | Some _ \<Rightarrow> setPending a w)
    | ClearPendingAction \<Rightarrow> setPending None w
    | CommitPendingAction \<Rightarrow>
        (case pendingTreeAction (snd w) of
           None \<Rightarrow> (Inr (), w)
         | Some a \<Rightarrow> andThen (treeReducer_rec d a True w) (\<lambda>_ w. setPending None w))
    | FocusNode i \<Rightarrow> onTree (focusNode i) w
    | MagnifyNodeToggle i \<Rightarrow> onTree (magnifyNodeToggle i) w
    | ClearTree \<Rightarrow> onTree clearTree w)"
    using Suc.prems
    by (cases action) (auto simp: setPending_def intro!: grown_rules gen_ops Suc.IH)
  then show ?case unfolding treeReducer_rec.simps by (intro grown_andThen grown_afterReduce)
qed simp

end
