(* ===== verification/LayoutModelProps.thy ===== *)
theory LayoutModelProps
  imports LayoutView LayoutProps LayoutGeneration
begin

text \<open>
  The properties of the layout model: the focus stack, the generation counter that ties the
  tree state to the persisted one, resizing with the mouse, and keyboard navigation.
\<close>

section \<open>The focus stack\<close>

lemma pruneStack_acc:
  "distinct acc \<Longrightarrow> distinct (pruneStack lo is acc) \<and>
    set (pruneStack lo is acc) = set acc \<union> {i \<in> set is. inLeafOrder lo i} \<and>
    (\<exists>ys. pruneStack lo is acc = acc @ ys)"
proof (induction "is" arbitrary: acc)
  case (Cons i "is")
  show ?case
  proof (cases "inLeafOrder lo i \<and> i \<notin> set acc")
    case True
    then have "distinct (acc @ [i])" using Cons.prems by simp
    from Cons.IH [OF this] True show ?thesis by auto
  next
    case False
    with Cons.IH [OF Cons.prems] show ?thesis by auto
  qed
qed simp

lemma pruneStack_hd:
  "i \<in> set is \<Longrightarrow> inLeafOrder lo i \<Longrightarrow> hd (pruneStack lo is []) = the (find (inLeafOrder lo) is)"
proof (induction "is")
  case (Cons j "is")
  show ?case
  proof (cases "inLeafOrder lo j")
    case True
    obtain ys where "pruneStack lo is [j] = [j] @ ys" using pruneStack_acc [of "[j]" lo "is"] by auto
    with True show ?thesis by simp
  next
    case False
    with Cons show ?thesis by auto
  qed
qed simp

text \<open>The focus after validation: the tree state's own, else the most recent live one, else the first leaf.\<close>

definition validFocus :: "leafOrderEntry list \<Rightarrow> layoutModel \<Rightarrow> string option" where
  "validFocus lo m =
     (if focusedNodeId (treeState m) \<noteq> None \<and> focusedNodeId (treeState m) \<noteq> Some []
      then focusedNodeId (treeState m)
      else case find (inLeafOrder lo) (focusedNodeIdStack m) of
        Some i \<Rightarrow> Some i
      | None \<Rightarrow> (case lo of [] \<Rightarrow> None | e # _ \<Rightarrow> Some (le_nodeid e)))"

lemma pruneStack_cases:
  obtains (none) "pruneStack lo is [] = []" "find (inLeafOrder lo) is = None"
  | (some) i ys where "pruneStack lo is [] = i # ys" "find (inLeafOrder lo) is = Some i"
proof (cases "pruneStack lo is []")
  case Nil
  then have "find (inLeafOrder lo) is = None"
    using pruneStack_acc [of "[]" lo "is"] by (auto simp: find_None_iff)
  with Nil show ?thesis by (rule none)
next
  case (Cons i ys)
  then have "i \<in> set is" "inLeafOrder lo i" using pruneStack_acc [of "[]" lo "is"] by auto
  then have "hd (pruneStack lo is []) = the (find (inLeafOrder lo) is)" "find (inLeafOrder lo) is \<noteq> None"
    using pruneStack_hd by (auto simp: find_None_iff)
  with Cons show ?thesis by (intro some) auto
qed

lemma validateFocusedNode_valid:
  assumes "lo \<noteq> []" "focusedNodeId (treeState m) \<noteq> stackTop m"
  shows "\<exists>below. validateFocusedNode lo (h, m) = (Inr (),
      (h, m\<lparr>treeState := (treeState m)\<lparr>focusedNodeId := validFocus lo m\<rparr>,
           focusedNodeIdStack := the (validFocus lo m) # below\<rparr>)) \<and>
    validFocus lo m \<noteq> None \<and> distinct below \<and> set below \<subseteq> {i \<in> set (focusedNodeIdStack m). inLeafOrder lo i}"
proof -
  let ?f = "focusedNodeId (treeState m)"
  have acc: "distinct (pruneStack lo (focusedNodeIdStack m) [])"
    "set (pruneStack lo (focusedNodeIdStack m) []) = {i \<in> set (focusedNodeIdStack m). inLeafOrder lo i}"
    using pruneStack_acc [of "[]" lo "focusedNodeIdStack m"] by auto
  show ?thesis
  proof (cases "?f = None \<or> ?f = Some []")
    case False
    then obtain i where "?f = Some i" "i \<noteq> []" by auto
    then show ?thesis
      using acc assms(2)
      by (intro exI [of _ "pruneStack lo (focusedNodeIdStack m) []"])
        (simp add: validateFocusedNode_def modifyModel_def Let_def validFocus_def)
  next
    case True
    show ?thesis
    proof (cases rule: pruneStack_cases [of lo "focusedNodeIdStack m"])
      case none
      then show ?thesis
        using True acc assms by (cases lo)
          (auto simp: validateFocusedNode_def modifyModel_def Let_def validFocus_def)
    next
      case (some i ys)
      then show ?thesis
        using True acc assms(2) by (intro exI [of _ ys])
          (auto simp: validateFocusedNode_def modifyModel_def Let_def validFocus_def)
    qed
  qed
qed

text \<open>
  C11: validating the focus never throws while there is a leaf. If the tree state and the stack
  disagree, both end up at the valid focus, the stack below its top holds only leaves of the
  layout, none of them twice, and nothing else of the model changes.
\<close>

theorem validateFocusedNode_agrees:
  assumes "lo \<noteq> []" "focusedNodeId (treeState m) \<noteq> stackTop m"
  shows "\<exists>below. validateFocusedNode lo (h, m) = (Inr (),
      (h, m\<lparr>treeState := (treeState m)\<lparr>focusedNodeId := validFocus lo m\<rparr>,
           focusedNodeIdStack := the (validFocus lo m) # below\<rparr>)) \<and>
    validFocus lo m \<noteq> None \<and> distinct below \<and> set below \<subseteq> {i \<in> set (focusedNodeIdStack m). inLeafOrder lo i}"
  using assms by (rule validateFocusedNode_valid)

text \<open>A model with a focus stack, one entry of which is stale.\<close>

definition demoAtom :: layoutAtomState where
  "demoAtom =
     \<lparr>la_loaded = True, la_rootnode = 1, la_focusednodeid = Some ''n2'', la_magnifiednodeid = None,
      la_leaforder = None, la_pending = None, la_generation = 6\<rparr>"

definition demoModel :: layoutModel where
  "demoModel = (initialLayoutModel demoAtom None)
     \<lparr>treeState := demoState, lastTreeStateGeneration := 6,
      focusedNodeIdStack := [''gone'', ''n1'', ''n2''],
      displayContainer := Some \<lparr>dim_top = Fin 0, dim_left = Fin 0, dim_width = Fin 100, dim_height = Fin 100\<rparr>\<rparr>"

definition demoLeafOrder :: "leafOrderEntry list" where
  "demoLeafOrder = leaves demoTree"

definition demoBlurred :: layoutModel where
  "demoBlurred = demoModel\<lparr>treeState := demoState\<lparr>focusedNodeId := None\<rparr>\<rparr>"

lemmas demo_model_simps = demoModel_def demoBlurred_def demoState_def initialLayoutModel_def demoAtom_def

theorem validateFocusedNode_agrees_witness:
  "\<exists>below. validateFocusedNode demoLeafOrder (demoStore, demoBlurred) = (Inr (),
      (demoStore, demoBlurred\<lparr>treeState := (treeState demoBlurred)\<lparr>focusedNodeId := validFocus demoLeafOrder demoBlurred\<rparr>,
           focusedNodeIdStack := the (validFocus demoLeafOrder demoBlurred) # below\<rparr>)) \<and>
    validFocus demoLeafOrder demoBlurred \<noteq> None \<and> distinct below \<and>
    set below \<subseteq> {i \<in> set (focusedNodeIdStack demoBlurred). inLeafOrder demoLeafOrder i}"
  by (rule validateFocusedNode_agrees)
    (simp add: demoLeafOrder_def demoTree_def, simp add: stackTop_def demo_model_simps)

text \<open>
  Clearing the layout throws after the tree is gone whenever a node had the focus and the
  layout is on the screen: the focus falls on the first leaf of an empty leaf order.
\<close>

theorem clearTree_with_focus_throws:
  assumes "displayContainer m \<noteq> None" "focusedNodeIdStack m \<noteq> []" "0 < stackDepth h"
    and "lastTreeStateGeneration m \<le> generation (treeState m)"
  shows "\<exists>m'. treeReducer ClearTree setState (h, m) = (Inl TypeError, (h, m')) \<and>
    rootNode (treeState m') = undef \<and> treeStateAtom m' = treeStateAtom m"
proof -
  obtain d where d: "stackDepth h = Suc d" using assms(3) by (cases "stackDepth h") auto
  obtain c where c: "displayContainer m = Some c" using assms(1) by auto
  obtain i st where st: "focusedNodeIdStack m = i # st" using assms(2) by (cases "focusedNodeIdStack m") auto
  define m1 where "m1 = m\<lparr>treeState := (treeState m)\<lparr>rootNode := undef, leafOrder := None, focusedNodeId := None,
    magnifiedNodeId := None, generation := generation (treeState m) + 1\<rparr>\<rparr>"
  define m2 where "m2 = (if modelMagnifiedNodeId m1 \<noteq> None
    then m1\<lparr>lastMagnifiedNodeId := modelMagnifiedNodeId m1, modelMagnifiedNodeId := None\<rparr> else m1)"
  have clear: "onTree clearTree (h, m) = (Inr (), (h, m1))"
    by (simp add: onTree_def clearTree_def modifyState_def bumpGeneration_def m1_def)
  have m2: "displayContainer m2 = Some c" "rootNode (treeState m2) = undef" "focusedNodeIdStack m2 = i # st"
    "focusedNodeId (treeState m2) = None" "treeStateAtom m2 = treeStateAtom m"
    by (simp_all add: m2_def m1_def c st)
  have prune: "pruneStack [] xs ys = ys" for xs ys
    by (induction xs arbitrary: ys) (simp_all add: inLeafOrder_def)
  have update: "\<exists>m'. updateTree True (h, m2) = (Inl TypeError, (h, m')) \<and>
      rootNode (treeState m') = undef \<and> treeStateAtom m' = treeStateAtom m"
    using m2 by (simp add: updateTree_def balanceNode_def walkNodes_def d getLeafOrder_def modifyModel_def
        validateFocusedNode_def stackTop_def prune inLeafOrder_def Let_def)
  have after: "afterReduce setState (h, m1) = (Inl TypeError, snd (updateTree True (h, m2)))"
    using update assms(4) by (auto simp: afterReduce_def m1_def m2_def modifyModel_def)
  show ?thesis
    using update after clear by (auto simp: treeReducer_def d)
qed

theorem clearTree_with_focus_throws_witness:
  "\<exists>m'. treeReducer ClearTree True (demoStore, demoModel) = (Inl TypeError, (demoStore, m')) \<and>
    rootNode (treeState m') = undef \<and> treeStateAtom m' = treeStateAtom demoModel"
  by (rule clearTree_with_focus_throws) (simp_all add: demo_model_simps, simp add: demoStore_def)

section \<open>The persisted state\<close>

text \<open>
  Saving the tree state and reading back the update that the save triggers changes nothing:
  the model does not react to its own writes.
\<close>

theorem save_then_update_is_stable:
  assumes "la_loaded (treeStateAtom m)" "la_generation (treeStateAtom m) \<le> generation (treeState m)"
    and "rootNode (treeState m) \<noteq> undef" "0 \<le> generation (treeState m)"
    and "\<not> hasActions (pendingBackendActions (treeState m))"
  shows "\<exists>m'. setTreeStateAtom True (h, m) = (Inr (), (h, m')) \<and>
    onTreeStateAtomUpdated False (h, m') = (Inr (), (h, m')) \<and>
    readTreeState (treeStateAtom m') = Some ((treeState m')\<lparr>leafOrder := None, pendingBackendActions := None\<rparr>)"
  using assms
  by (auto simp: setTreeStateAtom_def onTree_def bumpGeneration_def modifyModel_def onTreeStateAtomUpdated_def
      needsUpdate_def readTreeState_def writeTreeState_def Let_def hasActions_def)

theorem save_then_update_is_stable_witness:
  "\<exists>m'. setTreeStateAtom True (demoStore, demoModel) = (Inr (), (demoStore, m')) \<and>
    onTreeStateAtomUpdated False (demoStore, m') = (Inr (), (demoStore, m')) \<and>
    readTreeState (treeStateAtom m') = Some ((treeState m')\<lparr>leafOrder := None, pendingBackendActions := None\<rparr>)"
  by (rule save_then_update_is_stable) (simp_all add: demo_model_simps hasActions_def undef_def)

section \<open>Keyboard navigation\<close>

definition finite_dims :: "dimensions \<Rightarrow> bool" where
  "finite_dims b \<longleftrightarrow>
     (\<exists>t l w h. b = \<lparr>dim_top = Fin t, dim_left = Fin l, dim_width = Fin w, dim_height = Fin h\<rparr>)"

text \<open>How far a point is from leaving the container in a direction.\<close>

fun room :: "navigateDirection \<Rightarrow> rat \<Rightarrow> rat \<Rightarrow> rat \<Rightarrow> rat \<Rightarrow> rat" where
  "room NavUp maxX maxY x y = y"
| "room NavDown maxX maxY x y = maxY - y"
| "room NavLeft maxX maxY x y = x"
| "room NavRight maxX maxY x y = maxX - x"

lemma navigationLoop_returns:
  "room d X Y x y < 10 * of_nat k + 10 \<Longrightarrow>
    \<exists>r. navigationLoop ps (Fin X) (Fin Y) (navigateDirectionToOffset d) \<lparr>pt_x = Fin x, pt_y = Fin y\<rparr> = Some r \<and>
      (\<forall>i. r = Some i \<longrightarrow> i \<in> fst ` set ps)"
proof (induction k arbitrary: x y)
  case 0
  then show ?case
    by (subst navigationLoop.simps) (cases d; simp add: Let_def advance_def outside_def)
next
  case (Suc k)
  let ?p = "advance (navigateDirectionToOffset d) \<lparr>pt_x = Fin x, pt_y = Fin y\<rparr>"
  obtain x' y' where p: "?p = \<lparr>pt_x = Fin x', pt_y = Fin y'\<rparr>" "room d X Y x' y' = room d X Y x y - 10"
    by (cases d) (simp_all add: advance_def)
  have "room d X Y x' y' < 10 * of_nat k + 10" using Suc.prems p(2) by (simp add: algebra_simps)
  note IH = Suc.IH [OF this]
  have hit: "findNodeAtPoint qs q = Some i \<Longrightarrow> i \<in> fst ` set qs" for qs q i
    by (induction qs) (auto split: if_splits)
  show ?case
    using IH hit by (subst navigationLoop.simps) (simp add: Let_def p(1) split: option.split)
qed

lemma room_bound: "\<exists>k. room d X Y x y < 10 * of_nat k + 10"
proof -
  obtain k where "room d X Y x y < of_nat k" using reals_Archimedean2 by blast
  also have "(of_nat k :: rat) \<le> 10 * of_nat k + 10" by simp
  finally show ?thesis ..
qed

lemma map_get_set_cases: "map_get (map_set k v m) j = Some x \<Longrightarrow> (j = k \<and> x = v) \<or> map_get m j = Some x"
  by (auto split: if_splits)

lemma nodePositions_rects:
  assumes "nodePositions h m = Inr ps" "map_get ps i = Some r"
  shows "\<exists>j. getNodeRectById m j = Some r"
proof -
  have "map_get (foldl (\<lambda>positions n. case getNodeRectById m (node_id n) of
          None \<Rightarrow> positions | Some pos \<Rightarrow> map_set (node_id n) pos positions) acc ns) i = Some r \<Longrightarrow>
      map_get acc i = Some r \<or> (\<exists>j. getNodeRectById m j = Some r)" for ns acc
  proof (induction ns arbitrary: acc)
    case (Cons n ns)
    show ?case
    proof (cases "getNodeRectById m (node_id n)")
      case None
      then show ?thesis using Cons by simp
    next
      case (Some q)
      then have "map_get (map_set (node_id n) q acc) i = Some r \<or> (\<exists>j. getNodeRectById m j = Some r)"
        using Cons.IH [of "map_set (node_id n) q acc"] Cons.prems by (simp del: js_map_laws)
      then show ?thesis using Some by (auto split: if_splits)
    qed
  qed simp
  from this [of "[]"] show ?thesis
    using assms by (auto simp: nodePositions_def bindR_eq_Inr)
qed

text \<open>
  C12: moving the focus with the arrow keys always comes to an end when the tiles and the
  container have finite sizes: the search leaves the container or meets a tile.
\<close>

theorem arrow_navigation_returns:
  assumes "\<And>i r. getNodeRectById m i = Some r \<Longrightarrow> finite_dims r"
    and "\<And>b. displayContainer m = Some b \<Longrightarrow> finite_dims b"
  shows "switchNodeFocusInDirection d (h, m) \<noteq> None"
proof -
  have loop: "navigationLoop qs (dim_left b + dim_width b) (dim_top b + dim_height b)
      (navigateDirectionToOffset d) (getCenter r) \<noteq> None"
    if fin: "finite_dims b" "finite_dims r" for qs b r
  proof -
    obtain t l w u where b: "b = \<lparr>dim_top = Fin t, dim_left = Fin l, dim_width = Fin w, dim_height = Fin u\<rparr>"
      using fin(1) by (auto simp: finite_dims_def)
    obtain x y where r: "getCenter r = \<lparr>pt_x = Fin x, pt_y = Fin y\<rparr>"
      using fin(2) by (auto simp: finite_dims_def getCenter_def)
    obtain k where "room d (l + w) (t + u) x y < 10 * of_nat k + 10" using room_bound by blast
    from navigationLoop_returns [OF this, of qs] show ?thesis by (auto simp: b r)
  qed
  show ?thesis
  proof (cases "\<exists>i ps r b. stackTop m = Some i \<and> i \<noteq> [] \<and> nodePositions h m = Inr ps \<and>
      map_get ps i = Some r \<and> displayContainer m = Some b")
    case True
    then obtain i ps r b where c: "stackTop m = Some i" "i \<noteq> []" "nodePositions h m = Inr ps"
      "map_get ps i = Some r" "displayContainer m = Some b" by blast
    have "finite_dims b" "finite_dims r" using assms c(3-5) nodePositions_rects by blast+
    from loop [OF this] show ?thesis by (simp add: switchNodeFocusInDirection_def c)
  next
    case False
    then show ?thesis
      by (simp add: switchNodeFocusInDirection_def del: not_None_eq split: option.split list.split sum.split) (auto simp del: not_None_eq)
  qed
qed

theorem arrow_navigation_returns_witness:
  "switchNodeFocusInDirection NavLeft (demoStore, demoModel) \<noteq> None"
  by (rule arrow_navigation_returns)
    (auto simp: finite_dims_def getNodeRectById_def getNodeAdditionalPropertiesById_def demo_model_simps)

section \<open>Generations\<close>

text \<open>
  Whatever action the reducer runs, and whether it ends normally or throws, the generation of
  the tree state does not go back.
\<close>

theorem reducer_generation_monotone:
  "generation (treeState (snd w)) \<le> generation (treeState (snd (snd (treeReducer action setState w))))"
  using grown_treeReducer_rec [of "generation (treeState (snd w))" w] by (simp add: treeReducer_def grown_def)

end
