(* ===== verification/LayoutGeometryProps.thy ===== *)
theory LayoutGeometryProps
  imports LayoutGeometry
begin

text \<open>
  The properties of the geometry: the side of a tile a drop falls on is the nearest edge, and
  the rectangles of a node's children tile the rectangle of the node.
\<close>

section \<open>The side of a drop\<close>

text \<open>The point is given relative to the box: from 0 to 1 across its width and its height.\<close>

definition nearestEdge :: "rat \<Rightarrow> rat \<Rightarrow> dropDirection" where
  "nearestEdge u v =
     (let m = min (min u (1 - u)) (min v (1 - v)); outer = (m < 1 / 5) in
      if v = m then (if outer then OuterTop else DropTop)
      else if 1 - v = m then (if outer then OuterBottom else DropBottom)
      else if u = m then (if outer then OuterLeft else DropLeft)
      else (if outer then OuterRight else DropRight))"

definition dropSpec :: "rat \<Rightarrow> rat \<Rightarrow> dropDirection option" where
  "dropSpec u v =
     (if u < 0 \<or> 1 < u \<or> v < 0 \<or> 1 < v then None
      else if 2 / 5 < u \<and> u < 3 / 5 \<and> 2 / 5 < v \<and> v < 3 / 5 then Some DropCenter
      else if u = v \<or> u + v = 1 then None
      else Some (nearestEdge u v))"

lemma nearestEdge_code:
  assumes "u \<noteq> v" "u + v \<noteq> 1"
  defines "outer \<equiv> min (min u (1 - u)) (min v (1 - v)) < 1 / 5"
  shows "dropDirections ! (let code = (if 1 < u + v then 1 else 0); code = (if u < v then 5 - (code + 2) else code)
      in if outer then code + 4 else code) = nearestEdge u v"
proof -
  consider (top) "v < u" "u + v < 1" | (right) "v < u" "1 < u + v" | (bottom) "u < v" "1 < u + v" | (left) "u < v" "u + v < 1"
    using assms(1,2) by linarith
  then show ?thesis
  proof cases
    case top
    then have "min (min u (1 - u)) (min v (1 - v)) = v" by (simp add: min_def)
    with top show ?thesis by (simp add: nearestEdge_def outer_def Let_def dropDirections_def)
  next
    case right
    then have "min (min u (1 - u)) (min v (1 - v)) = 1 - u" by (simp add: min_def)
    with right show ?thesis by (simp add: nearestEdge_def outer_def Let_def dropDirections_def)
  next
    case bottom
    then have "min (min u (1 - u)) (min v (1 - v)) = 1 - v" by (simp add: min_def)
    with bottom show ?thesis by (simp add: nearestEdge_def outer_def Let_def dropDirections_def)
  next
    case left
    then have "min (min u (1 - u)) (min v (1 - v)) = u" by (simp add: min_def)
    with left show ?thesis by (simp add: nearestEdge_def outer_def Let_def dropDirections_def)
  qed
qed

lemma scaled_less:
  fixes u w c x :: rat
  assumes "0 < w" "x = c * w"
  shows "u * w < x \<longleftrightarrow> u < c" "x < u * w \<longleftrightarrow> c < u"
  using assms by auto

lemma sign_scaled:
  fixes d k :: rat
  assumes "0 < k"
  shows "d * k = 0 \<longleftrightarrow> d = 0" "0 < d * k \<longleftrightarrow> 0 < d"
  using assms by (auto simp: zero_less_mult_iff)

text \<open>
  C14: on a box with positive sizes, a drop outside it is none, one in the middle fifth is in the
  centre, one on a diagonal is none, and any other falls on the nearest edge of the box, as an
  outer drop when it is within a fifth of that edge.
\<close>

theorem drop_falls_on_nearest_edge:
  assumes "0 < w" "0 < h"
  shows "determineDropDirection (Some \<lparr>dim_top = Fin t, dim_left = Fin l, dim_width = Fin w, dim_height = Fin h\<rparr>)
      (Some \<lparr>pt_x = Fin (l + u * w), pt_y = Fin (t + v * h)\<rparr>) = dropSpec u v"
proof -
  have bounds: "u * w < 0 \<longleftrightarrow> u < 0" "w < u * w \<longleftrightarrow> 1 < u" "v * h < 0 \<longleftrightarrow> v < 0" "h < v * h \<longleftrightarrow> 1 < v"
    using assms by (auto simp: mult_less_0_iff)
  have fifths: "2 * w / 5 < u * w \<longleftrightarrow> 2 / 5 < u" "u * w < 3 * w / 5 \<longleftrightarrow> u < 3 / 5"
    "2 * h / 5 < v * h \<longleftrightarrow> 2 / 5 < v" "v * h < 3 * h / 5 \<longleftrightarrow> v < 3 / 5"
    "u * w < w / 5 \<longleftrightarrow> u < 1 / 5" "w - w / 5 < u * w \<longleftrightarrow> 4 / 5 < u"
    "v * h < h / 5 \<longleftrightarrow> v < 1 / 5" "h - h / 5 < v * h \<longleftrightarrow> 4 / 5 < v"
    by (rule scaled_less [OF assms(1)] scaled_less [OF assms(2)]; simp)+
  have wh: "0 < w * h" using assms by simp
  have diag: "v * h * w - u * w * h = (v - u) * (w * h)" "v * h * w + u * w * h - h * w = (u + v - 1) * (w * h)"
    by (simp_all add: algebra_simps)
  have signs: "(v - u) * (w * h) = 0 \<longleftrightarrow> u = v" "0 < (v - u) * (w * h) \<longleftrightarrow> u < v"
    "(u + v - 1) * (w * h) = 0 \<longleftrightarrow> u + v = 1" "0 < (u + v - 1) * (w * h) \<longleftrightarrow> 1 < u + v"
    using sign_scaled [OF wh, of "v - u"] sign_scaled [OF wh, of "u + v - 1"] by auto
  have outer: "(v < 1 / 5 \<or> 4 / 5 < v \<or> u < 1 / 5 \<or> 4 / 5 < u) =
      (min (min u (1 - u)) (min v (1 - v)) < 1 / 5)"
    by (auto simp: min_def)
  have five: "js_div (Fin x) (Fin 5) = Fin (x / 5)" for x by simp
  show ?thesis
    using nearestEdge_code [of u v]
    unfolding determineDropDirection_def dropSpec_def option.case prod.case Let_def
    by (simp only: dimensions.simps point.simps jsnum_fin five add_diff_cancel_left' jsnum.inject
        bounds fifths diag signs outer cong: if_cong)
      (auto simp del: divide_less_eq_numeral1 less_divide_eq_numeral1)
qed

theorem drop_falls_on_nearest_edge_witness:
  "determineDropDirection (Some \<lparr>dim_top = Fin 10, dim_left = Fin 20, dim_width = Fin 200, dim_height = Fin 100\<rparr>)
      (Some \<lparr>pt_x = Fin (20 + (1 / 2) * 200), pt_y = Fin (10 + (1 / 4) * 100)\<rparr>) = dropSpec (1 / 2) (1 / 4)"
  by (rule drop_falls_on_nearest_edge) simp_all

section \<open>Tiling\<close>

text \<open>
  The part of a box that starts at an offset along the node's axis, both in the units of the
  node sizes, of which there are \<open>r\<close> to a pixel.
\<close>

definition slice :: "bool \<Rightarrow> rat \<Rightarrow> rat \<Rightarrow> rat \<Rightarrow> rat \<Rightarrow> rat \<Rightarrow> rat \<Rightarrow> rat \<Rightarrow> dimensions" where
  "slice row t l w h r off sz =
     (if row then \<lparr>dim_top = Fin t, dim_left = Fin (l + off / r), dim_width = Fin (sz / r), dim_height = Fin h\<rparr>
      else \<lparr>dim_top = Fin (t + off / r), dim_left = Fin l, dim_width = Fin w, dim_height = Fin (sz / r)\<rparr>)"

abbreviation box :: "rat \<Rightarrow> rat \<Rightarrow> rat \<Rightarrow> rat \<Rightarrow> dimensions" where
  "box t l w h \<equiv> \<lparr>dim_top = Fin t, dim_left = Fin l, dim_width = Fin w, dim_height = Fin h\<rparr>"

lemma childRect_slice:
  assumes "r \<noteq> 0"
  shows "childRect row (box t l w h) (Fin r) None (Fin s) = slice row t l w h r 0 s"
    and "childRect row (box t l w h) (Fin r) (Some (slice row t l w h r off s0)) (Fin s) =
      slice row t l w h r (off + s0) s"
  using assms by (cases row; simp add: childRect_def slice_def add_divide_distrib)+

text \<open>The handle between two children is centred on their border.\<close>

lemma handle_centre:
  assumes "lf_resizeHandleSizePx f = Fin p"
  shows "rh_centerPx (resizeHandleFor n (lf_resizeHandleSizePx f) i (slice (node_flex n = Row) t l w h r off s)) =
    Fin ((if node_flex n = Row then l else t) + (off + s) / r)"
  by (simp add: resizeHandleFor_def slice_def assms Let_def add_divide_distrib)

definition childProps :: "string \<Rightarrow> nat \<Rightarrow> dimensions \<Rightarrow> layoutNodeAdditionalProps" where
  "childProps key i r =
     (emptyProps (key @ show_nat i))\<lparr>ap_rect := Some r, ap_transform := Some (setTransform r True True)\<rparr>"

lemma layoutChildren_outside:
  "j \<notin> node_id ` fst ` set cs \<Longrightarrow>
    map_get (snd (layoutChildren f n key nr ratio cs i last1 hs props)) j = map_get props j"
  by (induction cs arbitrary: i last1 hs props) (auto simp: Let_def)

lemma layoutChildren_slices:
  assumes "r \<noteq> 0" "length ss = length ns" "distinct (map node_id ns)" "k < length ns"
    and "\<forall>s. childRect (node_flex n = Row) (box t l w h) (Fin r) last1 (Fin s) =
      slice (node_flex n = Row) t l w h r off s"
  shows "map_get (snd (layoutChildren f n key (box t l w h) (Fin r) (zip ns (map Fin ss)) i last1 hs props)) (node_id (ns ! k)) =
    Some (childProps key (i + k) (slice (node_flex n = Row) t l w h r (off + sum_list (take k ss)) (ss ! k)))"
  using assms(2-5)
proof (induction ns arbitrary: ss k i last1 off hs props)
  case (Cons c ns)
  then obtain s ss' where ss: "ss = s # ss'" "length ss' = length ns" by (cases ss) auto
  let ?sl = "slice (node_flex n = Row) t l w h r"
  have rect: "childRect (node_flex n = Row) (box t l w h) (Fin r) last1 (Fin s) = ?sl off s"
    using Cons.prems(4) by blast
  have nxt: "\<forall>s'. childRect (node_flex n = Row) (box t l w h) (Fin r) (Some (?sl off s)) (Fin s') = ?sl (off + s) s'"
    using childRect_slice(2) [OF assms(1)] by simp
  show ?case
  proof (cases k)
    case 0
    have "node_id c \<notin> node_id ` fst ` set (zip ns (map Fin ss'))"
      using Cons.prems(2) by (auto dest: set_zip_leftD)
    then show ?thesis
      by (simp add: 0 ss rect Let_def layoutChildren_outside childProps_def)
  next
    case (Suc k')
    then show ?thesis
      using Cons.IH [of ss' k' "Some (?sl off s)" "off + s"] Cons.prems nxt ss
      by (simp add: rect Let_def add.assoc)
  qed
qed simp

lemma layoutChildren_handles:
  assumes "r \<noteq> 0" "length ss = length ns" "lf_resizeHandleSizePx f = Fin p"
    and "last1 = Some (slice (node_flex n = Row) t l w h r off sz)"
  shows "map rh_centerPx (fst (layoutChildren f n key (box t l w h) (Fin r) (zip ns (map Fin ss)) i last1 hs props)) =
    map rh_centerPx hs @
      map (\<lambda>k. Fin ((if node_flex n = Row then l else t) + (off + sz + sum_list (take k ss)) / r)) [0 ..< length ns]"
  using assms(2,4)
proof (induction ns arbitrary: ss i last1 off sz hs props)
  case (Cons c ns)
  then obtain s ss' where ss: "ss = s # ss'" "length ss' = length ns" by (cases ss) auto
  let ?sl = "slice (node_flex n = Row) t l w h r"
  have rect: "childRect (node_flex n = Row) (box t l w h) (Fin r) (Some (?sl off sz)) (Fin s) = ?sl (off + sz) s"
    using childRect_slice(2) [OF assms(1)] .
  have "[0 ..< Suc (length ns)] = 0 # map Suc [0 ..< length ns]" by (simp add: map_Suc_upt upt_conv_Cons del: upt_Suc)
  then show ?case
    using Cons.IH [OF ss(2) refl, of "Suc i" "off + sz" s] Cons.prems(2) rect
    by (simp add: ss Let_def handle_centre [OF assms(3)] o_def add.assoc del: upt_Suc)
qed simp

lemma foldl_sizes: "foldl (+) (Fin a) (map Fin ss) = Fin (a + sum_list ss)"
  by (induction ss arbitrary: a) (simp_all add: add.assoc)

text \<open>
  C13: laying out a node gives its children rectangles that tile the node's own: one after the
  other along its axis from its edge, in proportion to their sizes, the last one ending at its
  far edge, and full across the axis. Between any two children there is a resize handle, centred
  on their border. The node itself keeps its rectangle.
\<close>

theorem children_tile_their_parent:
  assumes "map_get props (node_id n) = Some q" "ap_rect q = Some (box t l w h)"
    and "cells st (lf_rootNode f) = Some rn" "node_id rn \<noteq> node_id n"
    and "mapR (getNode st) cs = Inr ns" "map node_size ns = map Fin ss" "ss \<noteq> []"
    and "lf_resizeAction f = None" "lf_resizeHandleSizePx f = Fin p"
    and "distinct (map node_id ns)" "node_id n \<notin> set (map node_id ns)"
    and "0 < sum_list ss" "0 < (if node_flex n = Row then w else h)"
  defines "r \<equiv> sum_list ss / (if node_flex n = Row then w else h)"
    and "row \<equiv> node_flex n = Row"
  shows "\<exists>props' q' handles. updateInnerNode f st n cs props = Inr props' \<and>
    (\<forall>k < length ns. map_get props' (node_id (ns ! k)) =
      Some (childProps (ap_treeKey q) k (slice row t l w h r (sum_list (take k ss)) (ss ! k)))) \<and>
    (sum_list ss) / r = (if row then w else h) \<and>
    map_get props' (node_id n) = Some q' \<and> ap_rect q' = Some (box t l w h) \<and>
    ap_resizeHandles q' = Some handles \<and>
    map rh_centerPx handles = map (\<lambda>k. Fin ((if row then l else t) + sum_list (take (Suc k) ss) / r)) [0 ..< length ns - 1]"
proof -
  have r: "r \<noteq> 0" "(if row then w else h) \<noteq> 0" using assms(12,13) by (auto simp: r_def row_def)
  have len: "length ss = length ns" using assms(6) by (metis length_map)
  obtain c ns' where ns: "ns = c # ns'" using len assms(7) by (cases ns) auto
  obtain s ss' where ss: "ss = s # ss'" using assms(7) by (cases ss) auto
  have sizes: "mapR (getNodeSize (lf_resizeAction f)) ns = Inr (map Fin ss)"
    using mapR_pure [of ns "getNodeSize None" node_size] assms(6,8) by (simp add: getNodeSize_def)
  have ratio: "js_div (Fin (sum_list ss)) (if row then Fin w else Fin h) = Fin r"
    using r(2) unfolding r_def row_def by (cases "node_flex n = Row") simp_all
  define lc where "lc = layoutChildren f n (ap_treeKey q) (box t l w h) (Fin r) (zip ns (map Fin ss)) 0 None [] props"
  define q' where "q' = q\<lparr>ap_pixelToSizeRatio := Some (Fin r), ap_resizeHandles := Some (fst lc)\<rparr>"
  define props' where "props' = map_set (node_id n) q' (snd lc)"
  have rootNode1: "getNode st (lf_rootNode f) = Inr rn" using assms(3) by simp
  have run: "updateInnerNode f st n cs props = Inr props'"
    using assms(1,2,4,5) sizes ratio
    by (cases "node_flex n = Row") (simp_all add: updateInnerNode_def rootNode1 foldl_sizes lc_def q'_def props'_def row_def Let_def
        del: js_div.simps js_div_fin split: prod.split)
  have kids: "map_get props' (node_id (ns ! k)) =
      Some (childProps (ap_treeKey q) k (slice row t l w h r (sum_list (take k ss)) (ss ! k)))"
    if k: "k < length ns" for k
  proof -
    have "\<forall>s. childRect (node_flex n = Row) (box t l w h) (Fin r) None (Fin s) = slice (node_flex n = Row) t l w h r 0 s"
      using childRect_slice(1) [OF r(1)] by simp
    from layoutChildren_slices [OF r(1) len assms(10) k this, of f "ap_treeKey q" 0 "[]" props]
    have "map_get (snd lc) (node_id (ns ! k)) =
        Some (childProps (ap_treeKey q) k (slice row t l w h r (sum_list (take k ss)) (ss ! k)))"
      by (simp add: lc_def row_def)
    moreover have "node_id (ns ! k) \<in> set (map node_id ns)" using k by simp
    then have "node_id (ns ! k) \<noteq> node_id n" using assms(11) by metis
    ultimately show ?thesis by (simp add: props'_def)
  qed
  have "map rh_centerPx (fst lc) = map (\<lambda>k. Fin ((if row then l else t) + sum_list (take (Suc k) ss) / r)) [0 ..< length ns']"
    using layoutChildren_handles [where f = f and n = n and ss = ss' and ns = ns' and t = t and l = l and w = w and h = h
        and off = 0 and sz = s and key = "ap_treeKey q" and i = "Suc 0" and hs = "[]", OF r(1) _ assms(9) refl]
      len ns ss childRect_slice(1) [OF r(1), of "node_flex n = Row" t l w h s]
    by (simp add: lc_def row_def Let_def)
  then show ?thesis
    using run kids r assms(2) ns
    by (intro exI [of _ props'] exI [of _ q'] exI [of _ "fst lc"])
      (simp add: props'_def q'_def r_def row_def del: upt_Suc)
qed

text \<open>A column of two tiles, in a box of 100 by 60 pixels.\<close>

definition demoColumn :: layoutNode where
  "demoColumn = \<lparr>node_id = ''col'', node_data = None, node_children = Some [2, 3], node_flex = Column, node_size = Fin 10\<rparr>"

definition demoTile :: "string \<Rightarrow> layoutNode" where
  "demoTile i = \<lparr>node_id = i, node_data = Some i, node_children = None, node_flex = Row, node_size = Fin 10\<rparr>"

definition demoFrame :: layoutFrame where
  "demoFrame = \<lparr>lf_container = box 0 0 100 60, lf_rootNode = 1, lf_magnifiedNodeId = None,
     lf_lastMagnifiedNodeId = None, lf_resizeHandleSizePx = Fin 6, lf_resizeAction = None\<rparr>"

definition demoCells :: layoutStore where
  "demoCells = \<lparr>cells = [1 \<mapsto> demoTile ''root'', 2 \<mapsto> demoTile ''a'', 3 \<mapsto> demoTile ''b''],
     nextRef = 4, uuids = (\<lambda>_. []), drawn = 0, stackDepth = 9\<rparr>"

definition demoProps :: additionalPropsMap where
  "demoProps = [(''col'', (emptyProps ''01'')\<lparr>ap_rect := Some (box 0 0 100 60)\<rparr>)]"

theorem children_tile_their_parent_witness:
  "\<exists>props' q' handles. updateInnerNode demoFrame demoCells demoColumn [2, 3] demoProps = Inr props' \<and>
    (\<forall>k < length [demoTile ''a'', demoTile ''b'']. map_get props' (node_id ([demoTile ''a'', demoTile ''b''] ! k)) =
      Some (childProps (ap_treeKey ((emptyProps ''01'')\<lparr>ap_rect := Some (box 0 0 100 60)\<rparr>)) k
        (slice (node_flex demoColumn = Row) 0 0 100 60 (sum_list [10, 10] / (if node_flex demoColumn = Row then 100 else 60))
          (sum_list (take k [10, 10])) ([10, 10] ! k)))) \<and>
    (sum_list [10, 10]) / (sum_list [10, 10] / (if node_flex demoColumn = Row then 100 else 60)) =
      (if node_flex demoColumn = Row then 100 else (60 :: rat)) \<and>
    map_get props' (node_id demoColumn) = Some q' \<and> ap_rect q' = Some (box 0 0 100 60) \<and>
    ap_resizeHandles q' = Some handles \<and>
    map rh_centerPx handles = map (\<lambda>k. Fin ((if node_flex demoColumn = Row then 0 else 0) +
      sum_list (take (Suc k) [10, 10]) / (sum_list [10, 10] / (if node_flex demoColumn = Row then 100 else 60))))
        [0 ..< length [demoTile ''a'', demoTile ''b''] - 1]"
proof (rule children_tile_their_parent)
  show "map_get demoProps (node_id demoColumn) = Some ((emptyProps ''01'')\<lparr>ap_rect := Some (box 0 0 100 60)\<rparr>)"
    by (simp add: demoProps_def demoColumn_def map_get_Cons)
  show "cells demoCells (lf_rootNode demoFrame) = Some (demoTile ''root'')"
    by (simp add: demoCells_def demoFrame_def)
  show "mapR (getNode demoCells) [2, 3] = Inr [demoTile ''a'', demoTile ''b'']"
    by (simp add: getNode_def demoCells_def)
qed (simp_all add: demoColumn_def demoTile_def demoFrame_def)

end
