(* ===== verification/LayoutTyping.thy ===== *)
theory LayoutTyping
  imports LayoutProps
begin

text \<open>
  The type of a layout node (types.ts: a node has either data, and is a leaf, or children) as a
  property of the store, and that the edits of a layout keep it and do not throw: progress and
  preservation over sequences of insertions, deletions, swaps, resizes and moves.
\<close>

section \<open>The tree of a world\<close>

lemma represents_cell: "represents h t \<Longrightarrow> cells h (t_ref t) = Some (node_of t)"
  by (simp add: represents_def)

lemma represents_unique:
  "represents h t \<Longrightarrow> represents h t' \<Longrightarrow> t_ref t = t_ref t' \<Longrightarrow> t = t'"
proof (induction t arbitrary: t')
  case (Leaf a i b f s)
  from represents_cell [OF Leaf.prems(1)] represents_cell [OF Leaf.prems(2)] Leaf.prems(3)
  show ?case by (cases t') simp_all
next
  case (Split a i f s ts)
  from represents_cell [OF Split.prems(1)] represents_cell [OF Split.prems(2)] Split.prems(3)
  obtain ts' where t': "t' = Split a i f s ts'" "map t_ref ts = map t_ref ts'"
    by (cases t') auto
  have rt: "represents h x" if "x \<in> set ts" for x using represents_kid [OF Split.prems(1)] that by simp
  have rt': "represents h x" if "x \<in> set ts'" for x using represents_kid [OF Split.prems(2)] that t'(1) by simp
  have "ts = ts'"
  proof (rule nth_equalityI)
    show len: "length ts = length ts'" using t'(2) by (metis length_map)
    fix k assume "k < length ts"
    then show "ts ! k = ts' ! k"
      using Split.IH [of "ts ! k" "ts' ! k"] rt [of "ts ! k"] rt' [of "ts' ! k"] t'(2) len by (metis nth_map nth_mem)
  qed
  with t'(1) show ?case by simp
qed

lemma tree_world_unique: "tree_world w t \<Longrightarrow> tree_world w t' \<Longrightarrow> t = t'"
  by (rule represents_unique [of "fst w"]) (simp_all add: tree_world_def)

section \<open>Edits\<close>

datatype layoutEdit =
    EInsert ref bool bool
  | EDelete string
  | ESwap string string
  | EResize "resizeNodeOperation list"
  | EMove ref string nat

fun runEdit :: "layoutEdit \<Rightarrow> treeWorld \<Rightarrow> (js_error + unit) \<times> treeWorld" where
  "runEdit (EInsert a mag foc) w = insertNode \<lparr>ins_node = a, ins_magnified = mag, ins_focused = foc\<rparr> w"
| "runEdit (EDelete i) w = deleteNode i w"
| "runEdit (ESwap i j) w = swapNode i j w"
| "runEdit (EResize ops) w = resizeNode (Some ops) w"
| "runEdit (EMove a p k) w =
     moveNode \<lparr>mv_index = Some (int k), mv_parentId = Some p, mv_insertAtRoot = False, mv_node = a\<rparr> w"

text \<open>
  What the callers of an edit see to: an inserted node is a new leaf, a deleted or swapped one is in
  the tree below the root, swapped ones are not above each other, a leaf is moved to another node, and the
  tree stays within the depth that the recursion of the code can walk.
\<close>

fun editLegal :: "treeWorld \<Rightarrow> ltree \<Rightarrow> layoutEdit \<Rightarrow> bool" where
  "editLegal w t (EInsert a mag foc) =
     (case cells (fst w) a of
        None \<Rightarrow> False
      | Some n \<Rightarrow> (case node_data n of None \<Rightarrow> False | Some b \<Rightarrow> insertable w t a (node_id n) b (node_flex n) (node_size n)))"
| "editLegal w t (EDelete i) \<longleftrightarrow> i \<noteq> [] \<and> t_id t \<noteq> i \<and> i \<in> set (ids t)"
| "editLegal w t (ESwap i j) \<longleftrightarrow> swappable i j t \<and> height (swap_ids i j t) \<le> stackDepth (fst w)"
| "editLegal w t (EResize ops) \<longleftrightarrow> (\<forall>r \<in> set ops. valid_resize t r)"
| "editLegal w t (EMove a p k) \<longleftrightarrow>
     a \<in> set (refs t) \<and> a \<noteq> t_ref t \<and> p \<in> set (ids t) \<and> p \<noteq> [] \<and>
     (case cells (fst w) a of None \<Rightarrow> False | Some n \<Rightarrow> node_data n \<noteq> None \<and> node_id n \<noteq> p) \<and>
     uuids (fst w) (drawn (fst w)) \<notin> set (ids t) \<and> height t < stackDepth (fst w)"

inductive edited :: "treeWorld \<Rightarrow> layoutEdit list \<Rightarrow> treeWorld \<Rightarrow> bool" where
  edited_none: "edited w [] w"
| edited_more: "edited w es w1 \<Longrightarrow> tree_world w1 t \<Longrightarrow> editLegal w1 t e \<Longrightarrow> runEdit e w1 = (r, w2) \<Longrightarrow> edited w (es @ [e]) w2"

text \<open>A node as its type has it, with children among the given ones.\<close>

definition typedNode :: "ref set \<Rightarrow> layoutNode \<Rightarrow> bool" where
  "typedNode R n \<longleftrightarrow> (node_data n = None \<longleftrightarrow> node_children n \<noteq> None) \<and> (\<forall>cs. node_children n = Some cs \<longrightarrow> set cs \<subseteq> R)"

lemma tree_world_typed:
  assumes "tree_world w t" "a \<in> set (refs t)"
  shows "\<exists>n. cells (fst w) a = Some n \<and> typedNode (set (refs t)) n"
proof -
  obtain s where s: "s \<in> set (subtrees t)" "a = t_ref s" using assms(2) by (auto simp: refs_def)
  then have "cells (fst w) a = Some (node_of s)" using tree_worldD(2) [OF assms(1)] by (simp add: represents_def)
  moreover have "t_ref c \<in> set (refs t)" if "c \<in> set (kids s)" for c
    using kid_subtree [OF that s(1)] by (auto simp: refs_def)
  then have "typedNode (set (refs t)) (node_of s)"
    by (cases s) (auto simp: typedNode_def)
  ultimately show ?thesis by blast
qed

text \<open>Progress: a legal edit does not throw, and leaves a tree.\<close>

lemma runEdit_progress:
  assumes "tree_world w t" "editLegal w t e"
  shows "\<exists>w' t'. runEdit e w = (Inr (), w') \<and> tree_world w' t'"
proof (cases e)
  case (EInsert a mag foc)
  with assms(2) obtain n :: layoutNode and b where "insertable w t a (node_id n) b (node_flex n) (node_size n)"
    by (cases "cells (fst w) a"; cases "node_data (the (cells (fst w) a))") auto
  from insertNode_world [OF assms(1) this, of mag foc] EInsert show ?thesis by auto
next
  case (EDelete i)
  with deleteNode_world [OF assms(1), of i] assms(2) show ?thesis by auto
next
  case (ESwap i j)
  with tree_world_swap [OF assms(1), of i j] assms(2) show ?thesis by auto
next
  case (EResize ops)
  with resizeNode_world [OF assms(1), of ops] assms(2) show ?thesis by auto
next
  case (EMove a p k)
  note wD = tree_worldD [OF assms(1)]
  from EMove assms(2) have ap: "a \<in> set (refs t)" "a \<noteq> t_ref t" "p \<in> set (ids t)" "p \<noteq> []"
    "uuids (fst w) (drawn (fst w)) \<notin> set (ids t)" "height t < stackDepth (fst w)" by auto
  obtain s where s: "s \<in> set (subtrees t)" "t_ref s = a" using ap(1) by (auto simp: refs_def)
  have cell: "cells (fst w) a = Some (node_of s)" using wD(2) s by (auto simp: represents_def)
  with EMove assms(2) obtain i b f z where leaf: "s = Leaf a i b f z" "i \<noteq> p" using s(2) by (cases s) auto
  obtain new where new: "new \<in> set (subtrees t)" "t_id new = p" using find_sub_in [OF ap(3)] by blast
  have ti: "t_id t \<noteq> i"
  proof
    assume "t_id t = i"
    then have "t = s" using subtree_by_id [OF wD(4) self_in_subtrees s(1)] leaf(1) by simp
    with ap(2) s(2) show False by simp
  qed
  have "i \<in> set (ids t)" using s(1) leaf(1) by (force simp: ids_def)
  then obtain old where "parent_walk i t = Some old" using parent_walk_None(1) [of i t] ti by (cases "parent_walk i t") auto
  from moveNode_world [OF assms(1) _ ti this new(1), of a b f z k] s(1) leaf new(2) ap(4-6) EMove show ?thesis by auto
qed

lemma edited_tree: "edited w es w' \<Longrightarrow> tree_world w t \<Longrightarrow> \<exists>t'. tree_world w' t'"
proof (induction rule: edited.induct)
  case (edited_more w es w1 t1 e r w2)
  then show ?case using runEdit_progress [OF edited_more.hyps(2,3)] by auto
qed auto

text \<open>
  C8: a layout keeps its type: after any sequence of legal insertions, deletions, swaps,
  resizes and moves, the store still holds a tree in which every node has either data or children, and all
  children are nodes of the tree; and the next legal edit ends without an exception.
\<close>

theorem layout_keeps_its_type:
  assumes "edited w es w'" "tree_world w t"
  shows "\<exists>t'. tree_world w' t' \<and>
    (\<forall>a \<in> set (refs t'). \<exists>n. cells (fst w') a = Some n \<and> typedNode (set (refs t')) n) \<and>
    (\<forall>e. editLegal w' t' e \<longrightarrow> fst (runEdit e w') = Inr ())"
proof -
  obtain t' where t': "tree_world w' t'" using edited_tree [OF assms] by blast
  moreover have "fst (runEdit e w') = Inr ()" if "editLegal w' t' e" for e
    using runEdit_progress [OF t' that] by auto
  ultimately show ?thesis using tree_world_typed [OF t'] by blast
qed

theorem layout_keeps_its_type_witness:
  "\<exists>t'. tree_world (snd (deleteNode ''n2'' demoWorld)) t' \<and>
    (\<forall>a \<in> set (refs t'). \<exists>n. cells (fst (snd (deleteNode ''n2'' demoWorld))) a = Some n \<and> typedNode (set (refs t')) n) \<and>
    (\<forall>e. editLegal (snd (deleteNode ''n2'' demoWorld)) t' e \<longrightarrow> fst (runEdit e (snd (deleteNode ''n2'' demoWorld))) = Inr ())"
proof (rule layout_keeps_its_type [OF _ demo_world])
  have "runEdit (EDelete ''n2'') demoWorld = (fst (deleteNode ''n2'' demoWorld), snd (deleteNode ''n2'' demoWorld))" by simp
  from edited_more [OF edited_none demo_world _ this]
  show "edited demoWorld ([] @ [EDelete ''n2'']) (snd (deleteNode ''n2'' demoWorld))" by simp
qed

end
