(* ===== verification/TileLayout.thy ===== *)
theory TileLayout
  imports LayoutModelProps
begin

text \<open>
  The component of the tile layout (frontend/layout/lib/TileLayout.tsx): how dragging a tile, the
  pointer on a resize handle and mounting become calls of the layout model; the preview image of a
  dragged tile; the debounced inner rectangle (layoutModelHooks.ts) and the map of references
  (nodeRefMap.ts). The library for drag and drop calls the handlers: what its monitor says
  (whether the pointer is directly over a target, the dragged node, the pointer) are arguments, and
  a call is one that its throttle or debounce lets through.
\<close>

section \<open>Dragging a tile\<close>

text \<open>A magnified tile cannot be dragged, and a tile cannot be dropped on itself.\<close>

definition canDrag :: "layoutNodeAdditionalProps option \<Rightarrow> bool" where
  "canDrag addlProps \<longleftrightarrow> \<not> (case addlProps of None \<Rightarrow> False | Some p \<Rightarrow> ap_isMagnifiedNode p)"

definition canDrop :: "bool \<Rightarrow> string \<Rightarrow> string \<Rightarrow> bool" where
  "canDrop isOverShallow dragItemId nodeId \<longleftrightarrow> isOverShallow \<and> dragItemId \<noteq> nodeId"

text \<open>The pointer relative to the container.\<close>

definition relativeTo :: "dimensions \<Rightarrow> point \<Rightarrow> point" where
  "relativeTo containerRect p =
     \<lparr>pt_x = pt_x p - dim_left containerRect, pt_y = pt_y p - dim_top containerRect\<rparr>"

definition hoverOverlay :: "string \<Rightarrow> bool \<Rightarrow> string \<Rightarrow> point \<Rightarrow> modelWorld \<Rightarrow> (js_error + unit) \<times> modelWorld" where
  "hoverOverlay nodeId isOverShallow dragItemId clientOffset w =
     (if \<not> isOverShallow then (Inr (), w)
      else
        (case (displayContainer (snd w), getNodeRectById (snd w) nodeId) of
           (Some containerRect, Some rect) \<Rightarrow>
             if canDrop isOverShallow dragItemId nodeId then
               treeReducer (ComputeMove nodeId dragItemId
                 (determineDropDirection (Some rect) (Some (relativeTo containerRect clientOffset)))) True w
             else treeReducer ClearPendingAction True w
         | _ \<Rightarrow> treeReducer ClearPendingAction True w))"

definition dropOverlay :: "bool \<Rightarrow> modelWorld \<Rightarrow> (js_error + unit) \<times> modelWorld" where
  "dropOverlay didDrop w = (if \<not> didDrop then onDrop w else (Inr (), w))"

text \<open>The check of the pointer, which clears the preview once the pointer has left the container.\<close>

definition outsideContainer :: "dimensions \<Rightarrow> point \<Rightarrow> bool" where
  "outsideContainer r p \<longleftrightarrow>
     (let n = relativeTo r p in
      pt_x n \<le> Fin 0 \<or> dim_width r \<le> pt_x n \<or> pt_y n \<le> Fin 0 \<or> dim_height r \<le> pt_y n)"

definition checkForCursorBounds :: "point option \<Rightarrow> point option \<Rightarrow> modelWorld \<Rightarrow> (js_error + unit) \<times> modelWorld" where
  "checkForCursorBounds dragClientOffset getCursorPoint w =
     (case (case dragClientOffset of Some p \<Rightarrow> Some p | None \<Rightarrow> getCursorPoint, displayContainer (snd w)) of
        (Some p, Some r) \<Rightarrow> if outsideContainer r p then treeReducer ClearPendingAction True w else (Inr (), w)
      | _ \<Rightarrow> (Inr (), w))"

definition setActiveDrag :: "bool \<Rightarrow> layoutModel \<Rightarrow> layoutModel" where
  "setActiveDrag b m = m\<lparr>activeDrag := b\<rparr>"

text \<open>What happens between picking a tile up and dropping it.\<close>

datatype dragEvent =
    HoverTile string bool point                   \<comment> \<open>the tile, whether nothing lies over it, the pointer\<close>
  | CursorCheck "point option" "point option"

fun dragStep :: "string \<Rightarrow> dragEvent \<Rightarrow> modelWorld \<Rightarrow> modelWorld" where
  "dragStep dragItemId (HoverTile nodeId shallow p) w = snd (hoverOverlay nodeId shallow dragItemId p w)"
| "dragStep dragItemId (CursorCheck p c) w = snd (checkForCursorBounds p c w)"

section \<open>Resize handles\<close>

text \<open>The pointer that a handle has captured.\<close>

definition onPointerCapture :: "int \<Rightarrow> int option \<Rightarrow> int option" where
  "onPointerCapture pointerId tracking = Some pointerId"

definition handlePointerMove ::
  "resizeHandleProps \<Rightarrow> int \<Rightarrow> jsnum \<Rightarrow> jsnum \<Rightarrow> int option \<Rightarrow> modelWorld \<Rightarrow> (js_error + unit) \<times> modelWorld" where
  "handlePointerMove handle pointerId clientX clientY tracking w =
     (if tracking = Some pointerId then onResizeMove handle clientX clientY w else (Inr (), w))"

definition onPointerRelease :: "int option \<Rightarrow> modelWorld \<Rightarrow> int option \<times> (js_error + unit) \<times> modelWorld" where
  "onPointerRelease tracking w = (None, onResizeEnd w)"

section \<open>Mounting\<close>

definition tileMounted :: "modelWorld \<Rightarrow> (js_error + unit) \<times> modelWorld" where
  "tileMounted w = onTreeStateAtomUpdated True w"

text \<open>Animations begin 50 milliseconds after mounting, and rest while something is resized.\<close>

record tileLayoutState =
  tl_animate :: bool
  tl_ready :: bool

definition mountTimeout :: "tileLayoutState \<Rightarrow> tileLayoutState" where
  "mountTimeout t = t\<lparr>tl_animate := True, tl_ready := True\<rparr>"

definition animates :: "tileLayoutState \<Rightarrow> layoutModel \<Rightarrow> bool" where
  "animates t m \<longleftrightarrow> tl_animate t \<and> \<not> isResizing m"

text \<open>The classes of a displayed tile besides \<open>tile-node\<close>.\<close>

definition tileClasses :: "bool \<Rightarrow> layoutNodeAdditionalProps option \<Rightarrow> string list" where
  "tileClasses isDragging addlProps =
     (if isDragging then [''dragging''] else []) @
     (case addlProps of
        None \<Rightarrow> []
      | Some p \<Rightarrow> (if ap_isMagnifiedNode p then [''magnified''] else []) @
                  (if ap_isLastMagnifiedNode p then [''last-magnified''] else []))"

section \<open>The preview image\<close>

definition DragPreviewWidth :: rat where "DragPreviewWidth = 300"
definition DragPreviewHeight :: rat where "DragPreviewHeight = 300"

text \<open>Generations count the renderings of the preview element; an image is the generation it shows.\<close>

record previewState =
  pv_elementGeneration :: nat
  pv_imageGeneration :: nat
  pv_image :: "nat option"
  pv_rendering :: "nat list"            \<comment> \<open>conversions under way\<close>
  pv_dragPreview :: "nat option"        \<comment> \<open>the image handed to the drag source\<close>

definition newPreview :: previewState where
  "newPreview = \<lparr>pv_elementGeneration = 0, pv_imageGeneration = 0, pv_image = None, pv_rendering = [], pv_dragPreview = None\<rparr>"

definition previewRendered :: "previewState \<Rightarrow> previewState" where
  "previewRendered p = p\<lparr>pv_elementGeneration := pv_elementGeneration p + 1\<rparr>"

definition previewOffset :: "rat \<Rightarrow> rat \<times> rat" where
  "previewOffset devicePixelRatio =
     ((DragPreviewWidth * devicePixelRatio - DragPreviewWidth) / 2 + 10,
      (DragPreviewHeight * devicePixelRatio - DragPreviewHeight) / 2 + 10)"

text \<open>The pointer enters the tile.\<close>

definition generatePreviewImage :: "bool \<Rightarrow> previewState \<Rightarrow> previewState" where
  "generatePreviewImage mounted p =
     (if pv_image p \<noteq> None \<and> pv_elementGeneration p = pv_imageGeneration p then p\<lparr>pv_dragPreview := pv_image p\<rparr>
      else if mounted then
        p\<lparr>pv_imageGeneration := pv_elementGeneration p, pv_rendering := pv_rendering p @ [pv_elementGeneration p]\<rparr>
      else p)"

definition pngReady :: "previewState \<Rightarrow> previewState" where
  "pngReady p =
     (case pv_rendering p of
        [] \<Rightarrow> p
      | g # gs \<Rightarrow> p\<lparr>pv_image := Some g, pv_dragPreview := Some g, pv_rendering := gs\<rparr>)"

section \<open>The inner rectangle and the references\<close>

record 'a debounced =
  db_shown :: "'a option"
  db_waiting :: "'a option"

definition innerRectChanged :: "bool \<Rightarrow> bool \<Rightarrow> bool \<Rightarrow> 'a \<Rightarrow> 'a debounced \<Rightarrow> 'a debounced" where
  "innerRectChanged prefersReducedMotion isMagnified nodeIsResizing rect d =
     (if prefersReducedMotion \<or> isMagnified \<or> nodeIsResizing then d\<lparr>db_shown := Some rect\<rparr>
      else d\<lparr>db_waiting := Some rect\<rparr>)"

definition debounceFires :: "'a debounced \<Rightarrow> 'a debounced" where
  "debounceFires d = (case db_waiting d of None \<Rightarrow> d | Some r \<Rightarrow> \<lparr>db_shown = Some r, db_waiting = None\<rparr>)"

record 'r nodeRefMap =
  nr_map :: "(string, 'r) js_map"
  nr_generation :: nat

definition refMapSet :: "string \<Rightarrow> 'r \<Rightarrow> 'r nodeRefMap \<Rightarrow> 'r nodeRefMap" where
  "refMapSet i r m = m\<lparr>nr_map := map_set i r (nr_map m), nr_generation := nr_generation m + 1\<rparr>"

definition refMapDelete :: "string \<Rightarrow> 'r nodeRefMap \<Rightarrow> 'r nodeRefMap" where
  "refMapDelete i m =
     (if map_has (nr_map m) i then m\<lparr>nr_map := map_delete i (nr_map m), nr_generation := nr_generation m + 1\<rparr> else m)"

definition refMapGet :: "string \<Rightarrow> 'r nodeRefMap \<Rightarrow> 'r option" where
  "refMapGet i m = map_get (nr_map m) i"

section \<open>Properties\<close>

text \<open>What a hover shows, read off the layout as it was before the drag.\<close>

fun shownAfter :: "modelWorld \<Rightarrow> string \<Rightarrow> dragEvent \<Rightarrow> layoutTreeAction option \<Rightarrow> layoutTreeAction option" where
  "shownAfter w dragItemId (HoverTile nodeId shallow p) a =
     (if \<not> shallow then a
      else
        (case (displayContainer (snd w), getNodeRectById (snd w) nodeId) of
           (Some c, Some rect) \<Rightarrow>
             if dragItemId = nodeId then None
             else (case computeMoveNode (fst w) (treeState (snd w)) nodeId dragItemId
                     (determineDropDirection (Some rect) (Some (relativeTo c p))) of
                Inl _ \<Rightarrow> a
              | Inr b \<Rightarrow> b)
         | _ \<Rightarrow> None))"
| "shownAfter w dragItemId (CursorCheck p c) a =
     (case (case p of Some q \<Rightarrow> Some q | None \<Rightarrow> c, displayContainer (snd w)) of
        (Some q, Some r) \<Rightarrow> if outsideContainer r q then None else a
      | _ \<Rightarrow> a)"

text \<open>A model that has saved its tree state.\<close>

definition settled :: "modelWorld \<Rightarrow> bool" where
  "settled w \<longleftrightarrow> generation (treeState (snd w)) \<le> lastTreeStateGeneration (snd w) \<and> 0 < stackDepth (fst w)"

definition withPending :: "layoutTreeAction option \<Rightarrow> modelWorld \<Rightarrow> modelWorld" where
  "withPending a w = (fst w, (snd w)\<lparr>pendingTreeAction := a\<rparr>)"

lemma reduce_pending:
  assumes "settled w"
  shows "snd (treeReducer (ComputeMove i j d) True w) =
      withPending (case computeMoveNode (fst w) (treeState (snd w)) i j d of
        Inl _ \<Rightarrow> pendingTreeAction (snd w) | Inr b \<Rightarrow> b) w"
    "treeReducer ClearPendingAction True w = (Inr (), withPending None w)"
proof -
  obtain h m where w: "w = (h, m)" by (cases w)
  obtain d' where d: "stackDepth h = Suc d'" using assms by (cases "stackDepth h") (auto simp: settled_def w)
  have g: "\<not> lastTreeStateGeneration m < generation (treeState m)" using assms by (simp add: settled_def w)
  show "treeReducer ClearPendingAction True w = (Inr (), withPending None w)"
    using g by (simp add: treeReducer_def w d setPending_def modifyModel_def afterReduce_def withPending_def)
  show "snd (treeReducer (ComputeMove i j d) True w) =
      withPending (case computeMoveNode (fst w) (treeState (snd w)) i j d of
        Inl _ \<Rightarrow> pendingTreeAction (snd w) | Inr b \<Rightarrow> b) w"
    using g by (cases "computeMoveNode h (treeState m) i j d")
      (simp_all add: treeReducer_def w d setPending_def modifyModel_def afterReduce_def withPending_def)
qed

lemma dragStep_pending:
  assumes "settled w"
  shows "dragStep i e (withPending a w) = withPending (shownAfter w i e a) w"
proof -
  have s: "settled (withPending a w)" using assms by (simp add: settled_def withPending_def)
  show ?thesis
    using reduce_pending [OF s]
    by (cases e)
      (auto simp: hoverOverlay_def canDrop_def checkForCursorBounds_def withPending_def getNodeRectById_def
        getNodeAdditionalPropertiesById_def split: option.split sum.split)
qed

definition demoPoint :: point where
  "demoPoint = \<lparr>pt_x = Fin 5, pt_y = Fin 5\<rparr>"

lemma drag_pending:
  assumes "settled w"
  shows "fold (dragStep i) es w = withPending (fold (shownAfter w i) es (pendingTreeAction (snd w))) w"
proof -
  have "fold (dragStep i) es (withPending a w) = withPending (fold (shownAfter w i) es a) w" for a
    by (induction es arbitrary: a) (simp_all add: dragStep_pending [OF assms])
  from this [of "pendingTreeAction (snd w)"] show ?thesis by (simp add: withPending_def)
qed

text \<open>
  C5: a drag is only a preview until the drop: whatever tiles the pointer hovers over and however
  often it leaves the container, the nodes, the tree, the focus and the generation stay as they were
  when the tile was picked up, and the pending action is what the last of these events shows of
  that layout, also when computing a move has thrown in between.
\<close>

theorem drag_is_only_a_preview:
  assumes "settled w"
  shows "fold (dragStep i) es w = withPending (fold (shownAfter w i) es (pendingTreeAction (snd w))) w"
  using assms by (rule drag_pending)

theorem drag_is_only_a_preview_witness:
  "fold (dragStep ''n1'') [HoverTile ''n2'' False demoPoint, CursorCheck None None] (demoStore, demoModel\<lparr>lastTreeStateGeneration := 7\<rparr>) =
    withPending (fold (shownAfter (demoStore, demoModel\<lparr>lastTreeStateGeneration := 7\<rparr>) ''n1'')
      [HoverTile ''n2'' False demoPoint, CursorCheck None None] None) (demoStore, demoModel\<lparr>lastTreeStateGeneration := 7\<rparr>)"
proof -
  have "settled (demoStore, demoModel\<lparr>lastTreeStateGeneration := 7\<rparr>)"
    by (simp add: settled_def demo_model_simps demoStore_def)
  from drag_is_only_a_preview [OF this, of "''n1''" "[HoverTile ''n2'' False demoPoint, CursorCheck None None]"]
  show ?thesis by (simp add: demo_model_simps)
qed

text \<open>A tile dropped after the pointer has left the container is back where it was.\<close>

theorem drop_outside_restores:
  assumes "settled w" "displayContainer (snd w) = Some r" "outsideContainer r q"
  shows "dropOverlay did (fold (dragStep i) (es @ [CursorCheck (Some q) c]) w) = (Inr (), withPending None w)"
  using drag_pending [OF assms(1), of i "es @ [CursorCheck (Some q) c]"] assms(2,3)
  by (simp add: dropOverlay_def onDrop_def withPending_def)

text \<open>
  A preview image may be out of date: when the element was rendered again and the pointer enters the
  tile twice before the new image is ready, the old one is handed to the drag source.
\<close>

theorem stale_preview_image:
  assumes "pv_image p = Some g" "pv_elementGeneration p \<noteq> pv_imageGeneration p"
  shows "pv_dragPreview (generatePreviewImage True (generatePreviewImage True p)) = Some g"
  using assms by (simp add: generatePreviewImage_def)

end
