(* ===== verification/LayoutPass.thy ===== *)
theory LayoutPass
  imports TileLayout
begin

text \<open>
  The pass over the layout that follows every action (\<open>LayoutModel.updateTree\<close>): it balances the
  tree and, on the way, gives every node its place on the screen and collects the leaves. The
  callback of the walk relies on the balancing before it; here both are taken together, and then
  the whole reducer.
\<close>

section \<open>Rectangles\<close>

definition has_rect :: "additionalPropsMap \<Rightarrow> string \<Rightarrow> bool" where
  "has_rect props i \<longleftrightarrow> (\<exists>p. map_get props i = Some p \<and> ap_rect p \<noteq> None)"

lemma has_rect_set: "has_rect (map_set i p props) j \<longleftrightarrow> (if i = j then ap_rect p \<noteq> None else has_rect props j)"
  by (auto simp: has_rect_def)

lemma layoutChildren_rects:
  "layoutChildren f n k r ratio cs i l hs props = (hs', props') \<Longrightarrow>
    has_rect props j \<or> j \<in> (\<lambda>c. node_id (fst c)) ` set cs \<Longrightarrow> has_rect props' j"
proof (induction cs arbitrary: i l hs props)
  case (Cons c cs)
  define q where "q = map_set (node_id (fst c)) ((emptyProps (k @ show_nat i))
      \<lparr>ap_rect := Some (childRect (node_flex n = Row) r ratio l (snd c)),
       ap_transform := Some (setTransform (childRect (node_flex n = Row) r ratio l (snd c)) True True)\<rparr>) props"
  have "has_rect q j \<or> j \<in> (\<lambda>c. node_id (fst c)) ` set cs"
    using Cons.prems(2) by (auto simp: q_def has_rect_set)
  with Cons.IH show ?case using Cons.prems(1) by (simp add: Let_def q_def [symmetric])
qed simp

lemma getNodeSize_ok: "ra \<noteq> Some None \<Longrightarrow> \<exists>z. getNodeSize ra n = Inr z"
  by (cases ra) (auto simp: getNodeSize_def split: option.split)

lemma mapR_ok: "(\<And>x. x \<in> set xs \<Longrightarrow> \<exists>y. f x = Inr y) \<Longrightarrow> \<exists>ys. mapR f xs = Inr ys \<and> length ys = length xs"
  by (induction xs) fastforce+

text \<open>The callback at a split that has a rectangle, or is the root: each of its children gets one.\<close>

lemma helper_split:
  assumes cell: "cells h a = Some (node_of (Split a i f s us))" "us \<noteq> []" "\<forall>u \<in> set us. represents h u"
    and root: "cells h (lf_rootNode fr) \<noteq> None" "a = lf_rootNode fr \<or> has_rect props i"
    and ra: "lf_resizeAction fr \<noteq> Some None" and i: "i \<notin> t_id ` set us"
  shows "\<exists>props'. updateTreeHelper fr a (h, props, ls) = (Inr (), (h, props', ls)) \<and>
    (\<forall>j. has_rect props j \<longrightarrow> has_rect props' j) \<and> (\<forall>u \<in> set us. has_rect props' (t_id u))"
proof -
  let ?n = "node_of (Split a i f s us)"
  obtain rn where rn: "cells h (lf_rootNode fr) = Some rn" using root(1) by blast
  define ap where "ap = (case map_get props i of Some p \<Rightarrow> p | None \<Rightarrow> emptyProps ''0'')"
  obtain nr where nr: "(if i = node_id rn then Some (getBoundingRect fr) else ap_rect ap) = Some nr"
  proof (cases "i = node_id rn")
    case False
    then have "a \<noteq> lf_rootNode fr" using rn cell(1) by auto
    then obtain p where "map_get props i = Some p" "ap_rect p \<noteq> None" using root(2) by (auto simp: has_rect_def)
    then show ?thesis using False that by (auto simp: ap_def)
  qed (use that in simp)
  have kids: "mapR (getNode h) (map t_ref us) = Inr (map node_of us)"
    using mapR_pure [of us "\<lambda>u. getNode h (t_ref u)" node_of] cell(3) represents_root
    by (auto simp: mapR_map getNode_def)
  obtain sizes where sizes: "mapR (getNodeSize (lf_resizeAction fr)) (map node_of us) = Inr sizes" "length sizes = length us"
    using mapR_ok [of "map node_of us" "getNodeSize (lf_resizeAction fr)"] getNodeSize_ok [OF ra] by auto
  define ratio where "ratio = js_div (foldl (+) (Fin 0) sizes) (if f = Row then dim_width nr else dim_height nr)"
  obtain hs q where q: "layoutChildren fr ?n (ap_treeKey ap) nr ratio (zip (map node_of us) sizes) 0 None [] props = (hs, q)"
    by fastforce
  define props' where "props' = map_set i (ap\<lparr>ap_pixelToSizeRatio := Some ratio, ap_resizeHandles := Some hs\<rparr>) q"
  have "updateInnerNode fr h ?n (map t_ref us) props = Inr props'"
    using nr rn kids sizes q
    by (simp add: updateInnerNode_def getNode_def ap_def [symmetric] ratio_def [symmetric] props'_def Let_def)
  then have run: "updateTreeHelper fr a (h, props, ls) = (Inr (), (h, props', ls))"
    using cell(1,2) by (simp add: updateTreeHelper_def getNode_def)
  have kidq: "has_rect q (t_id u)" if "u \<in> set us" for u
  proof (rule layoutChildren_rects [OF q])
    have "node_of u \<in> fst ` set (zip (map node_of us) sizes)"
      using that sizes(2) by (metis image_eqI length_map list.set_map map_fst_zip)
    then have "node_id (node_of u) \<in> node_id ` fst ` set (zip (map node_of us) sizes)" by (rule imageI)
    then show "has_rect props (t_id u) \<or> t_id u \<in> (\<lambda>c. node_id (fst c)) ` set (zip (map node_of us) sizes)"
      by (simp add: image_image)
  qed
  have keep: "has_rect q j" if "has_rect props j" for j using layoutChildren_rects [OF q] that by blast
  have "has_rect props' j" if j: "has_rect props j" for j
    using keep [OF j] j by (auto simp: props'_def has_rect_set has_rect_def ap_def)
  moreover have "has_rect props' (t_id u)" if "u \<in> set us" for u
    using kidq [OF that] i that by (auto simp: props'_def has_rect_set)
  ultimately show ?thesis using run by blast
qed

lemma helper_leaf:
  assumes "cells h a = Some (node_of (Leaf a i b f s))"
  shows "\<exists>props'. updateTreeHelper fr a (h, props, ls) = (Inr (), (h, props', ls @ [a])) \<and>
    (\<forall>j. has_rect props j \<longrightarrow> has_rect props' j)"
proof -
  define props' where "props' = (case map_get props i of
      None \<Rightarrow> props | Some p \<Rightarrow> map_set i (leafProps fr i p) props)"
  have "updateTreeHelper fr a (h, props, ls) = (Inr (), (h, props', ls @ [a]))"
    using assms by (simp add: updateTreeHelper_def getNode_def props'_def split: option.split)
  moreover have "has_rect props' j" if "has_rect props j" for j
    using that by (auto simp: props'_def has_rect_set has_rect_def leafProps_def Let_def split: option.split)
  ultimately show ?thesis by blast
qed

section \<open>Identifiers\<close>

text \<open>Balancing keeps references and identifiers apart: both are the keys of nodes.\<close>

lemma mset_concat_mono:
  "(\<And>x. x \<in> set xs \<Longrightarrow> mset (f x) \<subseteq># mset (g x)) \<Longrightarrow> mset (concat (map f xs)) \<subseteq># mset (concat (map g xs))"
  by (induction xs) (auto intro: subset_mset.add_mono)

definition node_keys :: "(ltree \<Rightarrow> 'a list) \<Rightarrow> (ltree \<Rightarrow> 'a) \<Rightarrow> bool" where
  "node_keys K k \<longleftrightarrow>
     (\<forall>t. K t = k t # concat (map K (kids t))) \<and> (\<forall>f t. K (fix_flex f t) = K t) \<and>
     (\<forall>a i f s us ts. mset (K (collapse a i f s us)) \<subseteq># add_mset (k (Split a i f s ts)) (mset (concat (map K us))))"

lemma node_keysD:
  assumes "node_keys K k"
  shows "K t = k t # concat (map K (kids t))" "K (fix_flex f t) = K t"
    "mset (K (collapse a i f s us)) \<subseteq># add_mset (k (Split a i f s ts)) (mset (concat (map K us)))"
  using assms unfolding node_keys_def by blast+

lemma node_keys_ids: "node_keys ids t_id"
  by (auto simp: node_keys_def collapse_def ids_unfold split: list.splits ltree.splits)

lemma node_keys_refs: "node_keys refs t_ref"
  by (auto simp: node_keys_def collapse_def refs_unfold split: list.splits ltree.splits)

lemma mset_balance_child:
  assumes "node_keys K k"
  shows "mset (concat (map K (balance_child f c))) \<subseteq># mset (K c)"
proof (cases "kids c")
  case (Cons o1 os)
  have "mset (concat (map K (kids o1))) \<subseteq># mset (K o1)" by (subst node_keysD(1) [OF assms, of o1]) simp
  moreover have "os = [] \<Longrightarrow> mset (K o1) \<subseteq># mset (K c)" using Cons by (subst node_keysD(1) [OF assms, of c]) simp
  ultimately show ?thesis
    using Cons node_keysD(2) [OF assms] subset_mset.order_trans by (auto simp: balance_child_def split: list.splits)
qed (simp add: balance_child_def node_keysD(2) [OF assms])

lemma mset_balance_children:
  assumes "node_keys K k"
  shows "mset (concat (map K (concat (map (balance_child f) ts)))) \<subseteq># mset (concat (map K ts))"
proof (induction ts)
  case (Cons c ts)
  then show ?case using mset_balance_child [OF assms, of f c] by (auto intro: subset_mset.add_mono)
qed simp

lemma mset_balance:
  assumes "node_keys K k"
  shows "mset (K (balance t)) \<subseteq># mset (K t)"
proof (induction t rule: balance.induct)
  case (2 a i f s ts)
  let ?us = "concat (map (balance_child f) ts)"
  have c: "mset (K (balance (Split a i f s ts))) \<subseteq># add_mset (k (Split a i f s ts)) (mset (concat (map K (map balance ?us))))"
    unfolding balance.simps by (rule node_keysD(3) [OF assms])
  have "mset (concat (map K (map balance ?us))) \<subseteq># mset (concat (map K ?us))"
    unfolding map_map by (rule mset_concat_mono) (use 2 in simp)
  then have "mset (concat (map K (map balance ?us))) \<subseteq># mset (concat (map K ts))"
    by (rule subset_mset.order_trans) (rule mset_balance_children [OF assms])
  then have le: "add_mset (k (Split a i f s ts)) (mset (concat (map K (map balance ?us)))) \<subseteq>#
      add_mset (k (Split a i f s ts)) (mset (concat (map K ts)))" by (simp only: mset_subset_eq_add_mset_cancel)
  have t: "mset (K (Split a i f s ts)) = add_mset (k (Split a i f s ts)) (mset (concat (map K ts)))"
    using node_keysD(1) [OF assms, of "Split a i f s ts"] by simp
  show ?case unfolding t by (rule subset_mset.order_trans [OF c le])
qed simp

lemma distinct_submset: "mset xs \<subseteq># mset ys \<Longrightarrow> distinct ys \<Longrightarrow> distinct xs"
  by (metis distinct_count_atmost_1 mset_subset_eqD mset_subset_eq_count set_mset_mset le_antisym le_zero_eq
      less_one linorder_not_le not_in_iff)

section \<open>The walk\<close>

definition balance_before_cb :: "'u walkCallback \<Rightarrow> 'u walkCallback" where
  "balance_before_cb cb = Some (\<lambda>node s. andThen (onStore (balanceBefore node) s) (\<lambda>_ s. runCallback cb node s))"

text \<open>What a walk of a subtree comes to.\<close>

definition passes ::
  "(ref \<Rightarrow> propsAndLeafs walkState \<Rightarrow> (js_error + unit) \<times> propsAndLeafs walkState) \<Rightarrow>
     ltree \<Rightarrow> layoutStore \<Rightarrow> additionalPropsMap \<Rightarrow> ref list \<Rightarrow> bool" where
  "passes walk u g props ls \<longleftrightarrow>
     (\<exists>g' props' ls'. walk (t_ref u) (g, props, ls) = (Inr (), (g', props', ls @ ls')) \<and>
        represents g' (balance u) \<and> (\<forall>b. b \<notin> set (refs u) \<longrightarrow> cells g' b = cells g b) \<and> wf_store g' \<and>
        set ls' \<subseteq> set (refs u) \<and> mapR (leafEntry g') ls' = Inr (leaves u) \<and>
        (\<forall>j. has_rect props j \<longrightarrow> has_rect props' j))"

lemma mapR_append: "mapR f (xs @ ys) = bindR (mapR f xs) (\<lambda>us. bindR (mapR f ys) (\<lambda>vs. Inr (us @ vs)))"
proof (induction xs)
  case (Cons x xs)
  then show ?case by (cases "f x"; cases "mapR f xs"; cases "mapR f ys") simp_all
qed (cases "mapR f ys"; simp)

lemma leafEntries_cong:
  "(\<And>a. a \<in> set ls \<Longrightarrow> cells h' a = cells h a) \<Longrightarrow> mapR (leafEntry h') ls = mapR (leafEntry h) ls"
  by (induction ls) (auto simp: leafEntry_def getNode_def)

lemma passes_list:
  assumes walk: "\<And>u g props ls. u \<in> set us \<Longrightarrow> represents g u \<Longrightarrow> wf_store g \<Longrightarrow> cells g rr \<noteq> None \<Longrightarrow> rr \<notin> set (refs u) \<Longrightarrow>
      has_rect props (t_id u) \<Longrightarrow> passes walk u g props ls"
    and "\<forall>u \<in> set us. represents h u \<and> has_rect props (t_id u)" "distinct (concat (map refs us))" "wf_store h"
    and "cells h rr \<noteq> None" "rr \<notin> set (concat (map refs us))"
  shows "\<exists>h' props' ls'. forEachS walk (map t_ref us) (h, props, ls) = (Inr (), (h', props', ls @ ls')) \<and>
    (\<forall>u \<in> set us. represents h' (balance u)) \<and>
    (\<forall>b. b \<notin> set (concat (map refs us)) \<longrightarrow> cells h' b = cells h b) \<and> wf_store h' \<and>
    set ls' \<subseteq> set (concat (map refs us)) \<and> mapR (leafEntry h') ls' = Inr (concat (map leaves us)) \<and>
    (\<forall>j. has_rect props j \<longrightarrow> has_rect props' j)"
  using assms
proof (induction us arbitrary: h props ls)
  case (Cons c cs)
  have "passes walk c h props ls"
    by (rule Cons.prems(1)) (use Cons.prems(2,4,5,6) in auto)
  then obtain h1 props1 ls1 where h1: "walk (t_ref c) (h, props, ls) = (Inr (), (h1, props1, ls @ ls1))"
    "represents h1 (balance c)" "\<forall>b. b \<notin> set (refs c) \<longrightarrow> cells h1 b = cells h b"
    "wf_store h1" "set ls1 \<subseteq> set (refs c)"
    "mapR (leafEntry h1) ls1 = Inr (leaves c)" "\<forall>j. has_rect props j \<longrightarrow> has_rect props1 j"
    unfolding passes_def by blast
  have disj: "set (refs c) \<inter> set (concat (map refs cs)) = {}" using Cons.prems(3) by simp
  have keep: "\<forall>d \<in> set cs. represents h1 d \<and> has_rect props1 (t_id d)"
  proof
    fix d assume d: "d \<in> set cs"
    have "b \<notin> set (refs c)" if "b \<in> set (refs d)" for b using that disj d by auto
    then have "represents h1 d" using h1(3) d Cons.prems(2) by (subst represents_cong [of d h1 h]) auto
    then show "represents h1 d \<and> has_rect props1 (t_id d)" using d Cons.prems(2) h1(7) by auto
  qed
  have rr: "cells h1 rr \<noteq> None" "rr \<notin> set (concat (map refs cs))" using Cons.prems(5,6) h1(3) by auto
  have dist: "distinct (concat (map refs cs))" using Cons.prems(3) by simp
  obtain h2 props2 ls2 where h2: "forEachS walk (map t_ref cs) (h1, props1, ls @ ls1) = (Inr (), (h2, props2, (ls @ ls1) @ ls2))"
    "\<forall>u \<in> set cs. represents h2 (balance u)"
    "\<forall>b. b \<notin> set (concat (map refs cs)) \<longrightarrow> cells h2 b = cells h1 b"
    "wf_store h2" "set ls2 \<subseteq> set (concat (map refs cs))"
    "mapR (leafEntry h2) ls2 = Inr (concat (map leaves cs))" "\<forall>j. has_rect props1 j \<longrightarrow> has_rect props2 j"
    using Cons.IH [OF Cons.prems(1) keep dist h1(4) rr, of "ls @ ls1"] by auto
  have stay: "cells h2 b = cells h1 b" if "b \<in> set (refs c)" for b
    using that disj h2(3) by (metis disjoint_iff)
  have "represents h2 (balance c)"
  proof -
    have "cells h2 b = cells h1 b" if "b \<in> set (refs (balance c))" for b
      using that refs_balance [of c] stay by blast
    then show ?thesis using h1(2) by (subst represents_cong [of "balance c" h2 h1]) auto
  qed
  moreover have "mapR (leafEntry h2) ls1 = Inr (leaves c)"
    using h1(5,6) stay by (subst leafEntries_cong [of ls1 h2 h1]) auto
  moreover have "mapR (leafEntry h2) (ls1 @ ls2) = Inr (leaves c @ concat (map leaves cs))"
    using calculation(2) h2(6) by (simp add: mapR_append)
  moreover have "forEachS walk (map t_ref (c # cs)) (h, props, ls) = (Inr (), (h2, props2, ls @ (ls1 @ ls2)))"
    using h1(1) h2(1) by simp
  moreover have "set (ls1 @ ls2) \<subseteq> set (concat (map refs (c # cs)))" using h1(5) h2(5) by auto
  moreover have "cells h2 b = cells h b" if "b \<notin> set (concat (map refs (c # cs)))" for b
    using that h1(3) h2(3) by auto
  ultimately show ?case
    using h1(7) h2(2,4,7) by (intro exI [of _ h2] exI [of _ props2] exI [of _ "ls1 @ ls2"]) auto
qed simp

lemma pass_walk:
  assumes "represents h t" "wf_store h" "distinct (refs t)" "distinct (ids t)" "no_empty t" "height t \<le> d"
    and "cells h (lf_rootNode fr) \<noteq> None"
    and "t_ref t = lf_rootNode fr \<or> has_rect props (t_id t) \<and> lf_rootNode fr \<notin> set (refs t)"
    and ra: "lf_resizeAction fr \<noteq> Some None"
  shows "passes (walkNodes_rec d (balance_before_cb (Some (updateTreeHelper fr))) balance_after) t h props ls"
  using assms(1-8)
proof (induction t arbitrary: h d props ls rule: balance.induct)
  case (1 a i b f s h d props ls)
  obtain d' where d: "d = Suc d'" using 1(6) by (cases d) auto
  have cell: "cells h a = Some (node_of (Leaf a i b f s))" using 1(1) by (simp add: represents_Leaf)
  have c: "getNode h a = Inr (node_of (Leaf a i b f s))" "a \<noteq> undef"
    using 1(1,2) represents_ref_not_undef [of h "Leaf a i b f s"] by (simp_all add: represents_Leaf getNode_def)
  obtain props' where p: "updateTreeHelper fr a (h, props, ls) = (Inr (), (h, props', ls @ [a]))"
    "\<forall>j. has_rect props j \<longrightarrow> has_rect props' j" using helper_leaf [OF cell] by blast
  have run: "walkNodes_rec d (balance_before_cb (Some (updateTreeHelper fr))) balance_after a (h, props, ls) =
      (Inr (), (h, props', ls @ [a]))"
    using p(1) by (simp add: d c balance_before_cb_def balance_after_def onStore_Pair balanceBefore_def
        balanceAfter_def validateNode_def runCallback_def)
  show ?case
    unfolding passes_def
    using run 1(1,2) p(2) cell
    by (intro exI [of _ h] exI [of _ props'] exI [of _ "[a]"]) (simp add: leafEntry_def getNode_def)
next
  case (2 a i f s ts h d props ls)
  let ?t = "Split a i f s ts"
  let ?us = "concat (map (balance_child f) ts)"
  let ?rr = "lf_rootNode fr"
  let ?walk = "\<lambda>d. walkNodes_rec d (balance_before_cb (Some (updateTreeHelper fr))) balance_after"
  obtain d' where d: "d = Suc d'" using 2(7) by (cases d) auto
  have cell: "cells h a = Some (node_of ?t)" "a \<noteq> undef"
    using 2(2,3) represents_ref_not_undef [of h ?t] by (simp_all add: represents_Split)
  have out: "a \<notin> set (concat (map refs ts))" and dist: "distinct (concat (map refs ts))" using 2(4) by auto
  have outi: "i \<notin> set (concat (map ids ts))" and disti: "distinct (concat (map ids ts))" using 2(5) by auto
  have kids: "\<forall>c \<in> set ts. represents h c \<and> no_empty c"
    using 2(2,6) no_empty_kid [OF 2(6)] by (auto simp: represents_Split)
  have disti2: "distinct (concat (map ids ?us))"
    by (rule distinct_submset [OF mset_balance_children [OF node_keys_ids] disti])
  have outi2: "i \<notin> set (concat (map ids ?us))"
    using outi mset_subset_eqD [OF mset_balance_children [OF node_keys_ids, of f ts]] by (metis set_mset_mset)
  have outi3: "i \<notin> t_id ` set ?us"
  proof
    assume "i \<in> t_id ` set ?us"
    then obtain u where "u \<in> set ?us" "t_id u = i" by blast
    then have "i \<in> set (concat (map ids ?us))" using root_in(2) [of u] by (auto simp del: root_in)
    then show False using outi2 by blast
  qed
  have ne: "?us \<noteq> []"
    using no_empty_split [OF 2(6)] kids balance_child_nonempty by (cases ts) auto
  obtain h1 where h1: "mapS (balanceChild a) (map t_ref ts) h =
      (Inr (map (\<lambda>c. map t_ref (balance_child f c)) ts), h1)"
    "\<forall>u \<in> set ?us. represents h1 u" "\<forall>b. b \<notin> set (concat (map refs ts)) \<longrightarrow> cells h1 b = cells h b" "wf_store h1"
    using balanceChildren_step [OF kids cell(1) _ out dist 2(3), of f] by auto
  have sub: "set (concat (map refs ?us)) \<subseteq> set (concat (map refs ts))"
    using refs_balance_child [of f] by fastforce
  have cell1: "cells h1 a = Some (node_of ?t)" using h1(3) out cell by auto
  define h2 where "h2 = setNode a (node_of (Split a i f s ?us)) h1"
  have before: "balanceBefore a h = (Inr (), h2)"
    using validate_node_of [OF 2(6)] cell1
    by (simp add: balanceBefore_def getNode_Some [OF cell(1)] h1(1) h2_def map_concat o_def)
  have h2: "wf_store h2" "cells h2 a = Some (node_of (Split a i f s ?us))"
    using h1 cell1 by (auto simp: h2_def wf_store_setNode)
  have reps2: "\<forall>u \<in> set ?us. represents h2 u"
  proof
    fix u assume u: "u \<in> set ?us"
    then have "set (refs u) \<subseteq> set (concat (map refs ts))" using sub by fastforce
    with out have "a \<notin> set (refs u)" by blast
    then show "represents h2 u" using u h1(2) by (simp add: h2_def represents_setNode del: set_concat)
  qed
  have rr: "?rr = a \<or> ?rr \<notin> set (concat (map refs ts))" using 2(9) by auto
  then have rr2: "cells h2 ?rr \<noteq> None" using h1(3) 2(8) by (auto simp: h2_def)
  have rrout: "?rr \<notin> set (concat (map refs ?us))" using rr out sub by blast
  obtain props1 where p1: "updateTreeHelper fr a (h2, props, ls) = (Inr (), (h2, props1, ls))"
    "\<forall>j. has_rect props j \<longrightarrow> has_rect props1 j" "\<forall>u \<in> set ?us. has_rect props1 (t_id u)"
    using helper_split [OF h2(2) ne reps2 rr2 _ ra outi3, of props ls] 2(9) by auto
  have IH: "passes (?walk d') u g ps ks"
    if u: "u \<in> set ?us" "represents g u" "wf_store g" "cells g ?rr \<noteq> None" "?rr \<notin> set (refs u)" "has_rect ps (t_id u)"
    for u g ps ks
  proof (rule 2(1) [OF u(1-3)])
    obtain c where c: "c \<in> set ts" "u \<in> set (balance_child f c)" using u by auto
    show "distinct (refs u)"
      using distinct_concat_map_elem [OF distinct_balance_children [OF dist] u(1)] .
    show "distinct (ids u)"
      using distinct_concat_map_elem [OF disti2 u(1)] .
    show "no_empty u" using kids c no_empty_balance_child by blast
    show "height u \<le> d'"
      using height_balance_child [OF c(2)] height_kid [of c ?t] c(1) 2(7) d by simp
  qed (use u in auto)
  obtain h3 props2 ls2 where h3: "forEachS (?walk d') (map t_ref ?us) (h2, props1, ls) = (Inr (), (h3, props2, ls @ ls2))"
    "\<forall>u \<in> set ?us. represents h3 (balance u)"
    "\<forall>b. b \<notin> set (concat (map refs ?us)) \<longrightarrow> cells h3 b = cells h2 b" "wf_store h3"
    "set ls2 \<subseteq> set (concat (map refs ?us))" "mapR (leafEntry h3) ls2 = Inr (concat (map leaves ?us))"
    "\<forall>j. has_rect props1 j \<longrightarrow> has_rect props2 j"
  proof -
    have "\<forall>u \<in> set ?us. represents h2 u \<and> has_rect props1 (t_id u)" using reps2 p1(3) by blast
    from passes_list [of ?us ?rr "?walk d'" h2 props1 ls, OF IH this distinct_balance_children [OF dist] h2(1) rr2 rrout]
    show ?thesis using that by blast
  qed
  have out2: "a \<notin> set (concat (map refs ?us))" using out sub by blast
  have cell3: "cells h3 a = Some (node_of (Split a i f s (map balance ?us)))"
    using h3(3) h2(2) out2 by (simp add: o_def del: set_concat)
  have "set (concat (map refs (map balance vs))) \<subseteq> set (concat (map refs vs))" for vs
    using refs_balance by (induction vs) auto
  then have "a \<notin> set (concat (map refs (map balance ?us)))"
    using out2 by (meson subsetD)
  then obtain h4 where h4: "balanceAfter a h3 = (Inr (), h4)" "represents h4 (balance ?t)"
    "\<forall>b. b \<noteq> a \<longrightarrow> cells h4 b = cells h3 b" "wf_store h4"
    using balanceAfter_step [OF cell3 _ _ h3(4)] h3(2) by auto
  have run: "?walk d a (h, props, ls) = (Inr (), (h4, props2, ls @ ls2))"
    using h3(1) h4(1) cell(2) h2(2) p1(1)
    by (simp add: d balance_before_cb_def balance_after_def onStore_Pair before runCallback_def getNode_def)
  have frame: "cells h4 b = cells h b" if "b \<notin> set (refs ?t)" for b
  proof -
    have b: "b \<noteq> a" "b \<notin> set (concat (map refs ts))" using that by auto
    then have "b \<notin> set (concat (map refs ?us))" using sub by blast
    with b show ?thesis using h4(3) h3(3) h1(3) by (simp add: h2_def del: set_concat)
  qed
  have "mapR (leafEntry h4) ls2 = mapR (leafEntry h3) ls2"
    by (rule leafEntries_cong) (use h4(3) h3(5) out2 in \<open>metis subsetD\<close>)
  moreover have "concat (map leaves ?us) = concat (map leaves ts)"
    by (induction ts) (simp_all add: leaves_balance_child)
  ultimately have "mapR (leafEntry h4) ls2 = Inr (leaves ?t)" using h3(6) by simp
  moreover have "set ls2 \<subseteq> set (refs ?t)" using h3(5) sub by auto
  ultimately show ?case
    unfolding passes_def using run frame h4(2,4) h3(7) p1(2)
    by (intro exI [of _ h4] exI [of _ props2] exI [of _ ls2]) auto
qed

section \<open>The depth of the stack\<close>

definition depth_kept :: "nat \<Rightarrow> ('e + 'a) \<times> layoutStore \<Rightarrow> bool" where
  "depth_kept d r \<longleftrightarrow> stackDepth (snd r) = d"

lemma depth_andThen: "depth_kept d a \<Longrightarrow> (\<And>x h. stackDepth h = d \<Longrightarrow> depth_kept d (b x h)) \<Longrightarrow> depth_kept d (andThen a b)"
  by (cases a; cases "fst a") (auto simp: depth_kept_def)

lemma depth_withVal: "stackDepth h = d \<Longrightarrow> (\<And>x. depth_kept d (b x)) \<Longrightarrow> depth_kept d (withVal v h b)"
  by (cases v) (auto simp: depth_kept_def)

lemma depth_modifyNode: "stackDepth h = d \<Longrightarrow> depth_kept d (modifyNode a f h)"
  by (auto simp: depth_kept_def modifyNode_def setNode_def split: option.split)

lemma depth_return: "stackDepth h = d \<Longrightarrow> depth_kept d (r, h)"
  by (simp add: depth_kept_def)

lemma depth_mapS: "(\<And>x h. stackDepth h = d \<Longrightarrow> depth_kept d (f x h)) \<Longrightarrow> stackDepth h = d \<Longrightarrow> depth_kept d (mapS f xs h)"
  by (induction xs arbitrary: h) (auto intro!: depth_andThen depth_return)

lemma depth_balanceChild: "stackDepth h = d \<Longrightarrow> depth_kept d (balanceChild a c h)"
  unfolding balanceChild_def
  by (intro depth_withVal depth_andThen) (auto intro!: depth_withVal depth_modifyNode depth_return split: option.split list.split)

lemma depth_balanceBefore: "stackDepth h = d \<Longrightarrow> depth_kept d (balanceBefore a h)"
  unfolding balanceBefore_def
  by (intro depth_withVal)
    (auto intro!: depth_andThen depth_mapS depth_balanceChild depth_modifyNode depth_return split: option.split)

lemma depth_balanceAfter: "stackDepth h = d \<Longrightarrow> depth_kept d (balanceAfter a h)"
  unfolding balanceAfter_def
  by (intro depth_withVal)
    (auto intro!: depth_andThen depth_withVal depth_modifyNode depth_return split: option.split list.split)

definition depth_walk :: "nat \<Rightarrow> ('e + 'a) \<times> 'u walkState \<Rightarrow> bool" where
  "depth_walk d r \<longleftrightarrow> stackDepth (fst (snd r)) = d"

lemma depth_walk_andThen:
  "depth_walk d a \<Longrightarrow> (\<And>x s. stackDepth (fst s) = d \<Longrightarrow> depth_walk d (b x s)) \<Longrightarrow> depth_walk d (andThen a b)"
  by (cases a; cases "fst a") (auto simp: depth_walk_def)

lemma depth_walk_onStore: "depth_kept d (f (fst s)) \<Longrightarrow> depth_walk d (onStore f s)"
  by (auto simp: depth_walk_def depth_kept_def onStore_def split: prod.split)

lemma depth_walk_forEachS:
  "(\<And>x s. stackDepth (fst s) = d \<Longrightarrow> depth_walk d (f x s)) \<Longrightarrow> stackDepth (fst s) = d \<Longrightarrow> depth_walk d (forEachS f xs s)"
proof (induction xs arbitrary: s)
  case (Cons x xs)
  have "depth_walk d (andThen (f x s) (\<lambda>_ s. forEachS f xs s))"
    by (rule depth_walk_andThen) (use Cons in auto)
  then show ?case by simp
qed (simp add: depth_walk_def)

lemma depth_walkNodes:
  assumes "\<And>node s. stackDepth (fst s) = d \<Longrightarrow> depth_walk d (runCallback before node s)"
    "\<And>node s. stackDepth (fst s) = d \<Longrightarrow> depth_walk d (runCallback after node s)"
  shows "stackDepth (fst s) = d \<Longrightarrow> depth_walk d (walkNodes_rec k before after node s)"
proof (induction k arbitrary: node s)
  case (Suc k)
  have inner: "depth_walk d (withVal (getNode (fst s) node) s (\<lambda>n.
        andThen (case node_children n of None \<Rightarrow> (Inr (), s)
                 | Some cs \<Rightarrow> forEachS (walkNodes_rec k before after) cs s) (\<lambda>_ s. runCallback after node s)))"
    if s: "stackDepth (fst s) = d" for s
  proof (cases "getNode (fst s) node")
    case (Inr n)
    have "depth_walk d (case node_children n of None \<Rightarrow> (Inr (), s)
        | Some cs \<Rightarrow> forEachS (walkNodes_rec k before after) cs s)"
      using s depth_walk_forEachS [of d "walkNodes_rec k before after", OF Suc.IH]
      by (auto simp: depth_walk_def split: option.split)
    then have "depth_walk d (andThen (case node_children n of None \<Rightarrow> (Inr (), s)
        | Some cs \<Rightarrow> forEachS (walkNodes_rec k before after) cs s) (\<lambda>_ s. runCallback after node s))"
      by (rule depth_walk_andThen) (rule assms(2))
    then show ?thesis unfolding Inr by simp
  qed (use s in \<open>simp add: depth_walk_def\<close>)
  show ?case
  proof (cases "node = undef")
    case False
    then show ?thesis
      by (simp only: walkNodes_rec.simps if_False) (rule depth_walk_andThen [OF assms(1) [OF Suc.prems] inner])
  qed (use Suc.prems in \<open>simp add: depth_walk_def\<close>)
qed (simp add: depth_walk_def)

lemma depth_pass:
  "stackDepth (fst s) = d \<Longrightarrow>
    depth_walk d (walkNodes_rec k (balance_before_cb (Some (updateTreeHelper fr))) balance_after node s)"
proof (rule depth_walkNodes)
  have helper: "depth_walk d (updateTreeHelper fr a s)" if s: "stackDepth (fst s) = d" for a s
  proof -
    obtain h props ls where hs: "s = (h, props, ls)" by (cases s)
    show ?thesis
      using s by (cases "getNode h a") (auto simp: hs updateTreeHelper_def depth_walk_def withVal_def split: sum.split)
  qed
  show "depth_walk d (runCallback (balance_before_cb (Some (updateTreeHelper fr))) a s)"
    if "stackDepth (fst s) = d" for a s
    using that helper
    by (auto simp: balance_before_cb_def runCallback_def intro!: depth_walk_andThen depth_walk_onStore depth_balanceBefore)
  show "depth_walk d (runCallback balance_after a s)" if "stackDepth (fst s) = d" for a and s :: "propsAndLeafs walkState"
    using that
    by (auto simp: balance_after_def runCallback_def depth_walk_def [of _ "(Inr (), _)"]
        intro!: depth_walk_andThen depth_walk_onStore depth_balanceAfter)
qed

lemma height_collapse: "height (collapse a i f s us) \<le> Suc (foldr max (map height us) 0)"
  by (auto simp: collapse_def split: list.splits ltree.splits)

lemma height_balance: "height (balance t) \<le> height t"
proof (induction t rule: balance.induct)
  case (2 a i f s ts)
  let ?us = "concat (map (balance_child f) ts)"
  have el: "foldr max ms 0 \<le> n" if "\<forall>m \<in> set ms. m \<le> n" for ms :: "nat list" and n
    using that by (induction ms) auto
  have le: "m \<le> foldr max ms 0" if "m \<in> set ms" for ms :: "nat list" and m
    using that by (induction ms) auto
  have "height u \<le> foldr max (map height ts) 0" if u: "u \<in> set ?us" for u
  proof -
    obtain c where c: "c \<in> set ts" "u \<in> set (balance_child f c)" using u by auto
    then have "height c \<le> foldr max (map height ts) 0" by (intro le) auto
    with height_balance_child [OF c(2)] show ?thesis by simp
  qed
  then have "height (balance u) \<le> foldr max (map height ts) 0" if "u \<in> set ?us" for u
    using 2 [OF that] that by fastforce
  then have "foldr max (map height (map balance ?us)) 0 \<le> foldr max (map height ts) 0"
    by (intro el) auto
  then show ?case using height_collapse [of a i f s "map balance ?us"] by simp
qed simp

section \<open>The pass\<close>

text \<open>What the pass keeps of a model.\<close>

definition same_settings :: "layoutModel \<Rightarrow> layoutModel \<Rightarrow> bool" where
  "same_settings m m' \<longleftrightarrow>
     generation (treeState m') = generation (treeState m) \<and> rootNode (treeState m') = rootNode (treeState m) \<and>
     lastTreeStateGeneration m' = lastTreeStateGeneration m \<and> pendingTreeAction m' = pendingTreeAction m \<and>
     displayContainer m' = displayContainer m \<and> treeStateAtom m' = treeStateAtom m \<and> resizeCtx m' = resizeCtx m"

lemma validateFocusedNode_settings:
  assumes "lo \<noteq> []"
  shows "\<exists>m'. validateFocusedNode lo (h, m) = (Inr (), (h, m')) \<and> same_settings m m' \<and>
    leafOrder (treeState m') = leafOrder (treeState m) \<and> focusedNodeId (treeState m') = stackTop m'"
proof (cases "focusedNodeId (treeState m) = stackTop m")
  case True
  then show ?thesis by (auto simp: validateFocusedNode_def same_settings_def)
next
  case False
  from validateFocusedNode_valid [OF assms this, of h] obtain below where
    "validateFocusedNode lo (h, m) = (Inr (), (h, m\<lparr>treeState := (treeState m)\<lparr>focusedNodeId := validFocus lo m\<rparr>,
       focusedNodeIdStack := the (validFocus lo m) # below\<rparr>))" "validFocus lo m \<noteq> None" by blast
  then show ?thesis by (auto simp: same_settings_def stackTop_def)
qed

lemma validateMagnifiedNode_settings:
  "validateMagnifiedNode lo props m = (props', m') \<Longrightarrow> same_settings m m' \<and>
    leafOrder (treeState m') = leafOrder (treeState m) \<and> focusedNodeId (treeState m') = focusedNodeId (treeState m) \<and>
    stackTop m' = stackTop m"
  by (auto simp: validateMagnifiedNode_def same_settings_def stackTop_def split: list.splits)

lemma same_settings_trans: "same_settings m1 m2 \<Longrightarrow> same_settings m2 m3 \<Longrightarrow> same_settings m1 m3"
  by (auto simp: same_settings_def)

lemma leaves_nonempty: "no_empty t \<Longrightarrow> leaves t \<noteq> []"
proof (induction t rule: ltree_kids_induct)
  case (step t)
  show ?case
  proof (cases t)
    case (Split a i f s ts)
    then obtain c cs where "ts = c # cs" using no_empty_split [OF step.prems] by (cases ts) auto
    then show ?thesis using step.IH [of c] no_empty_kid [OF step.prems, of c] Split by auto
  qed simp
qed

lemma updateTree_passes:
  assumes w: "tree_world (h, treeState m) t" and ne: "no_empty t"
    and dc: "displayContainer m = Some container" and pend: "pendingTreeAction m \<noteq> Some (ResizeNode None)"
  shows "\<exists>h' m'. updateTree True (h, m) = (Inr (), (h', m')) \<and> tree_world (h', treeState m') (balance t) \<and>
    mset (modelLeafOrder m') = mset (leaves t) \<and> leafOrder (treeState m') = Some (modelLeafOrder m') \<and>
    focusedNodeId (treeState m') = stackTop m' \<and> same_settings m m' \<and> stackDepth h' = stackDepth h"
proof -
  note wD = tree_worldD [OF w, simplified]
  define fr where "fr = frameOf m container"
  have fr: "lf_rootNode fr = t_ref t" "lf_resizeAction fr \<noteq> Some None"
    using wD(6) pend by (auto simp: fr_def frameOf_def split: option.split layoutTreeAction.split)
  have "passes (walkNodes_rec (stackDepth h) (balance_before_cb (Some (updateTreeHelper fr))) balance_after) t h [] []"
    by (rule pass_walk [OF wD(2,1,3,4) ne wD(5)]) (use fr wD(8) in \<open>auto simp: getNode_def split: option.splits\<close>)
  then obtain g props ls where g: "walkNodes_rec (stackDepth h) (balance_before_cb (Some (updateTreeHelper fr))) balance_after
      (t_ref t) (h, [], []) = (Inr (), (g, props, ls))" "represents g (balance t)" "wf_store g"
    "mapR (leafEntry g) ls = Inr (leaves t)" by (auto simp: passes_def)
  have depth: "stackDepth g = stackDepth h"
    using depth_pass [of "(h, [], [])" "stackDepth h" "stackDepth h" fr "t_ref t"] g(1) by (simp add: depth_walk_def)
  have bal: "balanceNode (t_ref t) (Some (updateTreeHelper fr)) None (h, [], []) = (Inr (t_ref t), (g, props, ls))"
    using g(1) by (simp add: balanceNode_def walkNodes_def balance_before_cb_def [symmetric] balance_after_def [symmetric])
  define lo where "lo = sort_key (\<lambda>e. treeKeyOf props (le_nodeid e)) (leaves t)"
  have order: "getLeafOrder g ls props = Inr lo" using g(4) by (simp add: getLeafOrder_def lo_def)
  have "lo \<noteq> []" using leaves_nonempty [OF ne] by (metis lo_def length_0_conv length_sort)
  define m1 where "m1 = m\<lparr>treeState := (treeState m)\<lparr>leafOrder := Some lo\<rparr>\<rparr>"
  obtain m2 where m2: "validateFocusedNode lo (g, m1) = (Inr (), (g, m2))" "same_settings m1 m2"
    "leafOrder (treeState m2) = Some lo" "focusedNodeId (treeState m2) = stackTop m2"
    using validateFocusedNode_settings [OF \<open>lo \<noteq> []\<close>, of g m1] by (auto simp: m1_def)
  obtain ps m3 where m3: "validateMagnifiedNode lo props m2 = (ps, m3)" by fastforce
  note m3' = validateMagnifiedNode_settings [OF m3]
  define m' where "m' = (cleanupNodeModels lo m3)\<lparr>leafs := sort_key (leafIdKey g) ls, modelLeafOrder := lo, additionalProps := ps\<rparr>"
  have "updateTree True (h, m) = (Inr (), (g, m'))"
    using dc wD(6) bal order m2(1) m3
    by (simp add: updateTree_def fr_def [symmetric] modifyModel_def m1_def [symmetric] m'_def Let_def)
  moreover have same: "same_settings m m'"
    using m2(2) m3' by (auto simp: same_settings_def m1_def m'_def cleanupNodeModels_def)
  moreover have "tree_world (g, treeState m') (balance t)"
    using g(2,3) same wD(6) depth wD(5) height_balance [of t]
      distinct_submset [OF mset_balance [OF node_keys_ids] wD(4)]
      distinct_submset [OF mset_balance [OF node_keys_refs] wD(3)]
    by (simp add: tree_world_def same_settings_def)
  moreover have "leafOrder (treeState m') = Some (modelLeafOrder m')" "focusedNodeId (treeState m') = stackTop m'"
    "mset (modelLeafOrder m') = mset (leaves t)"
    using m2(3,4) m3' by (simp_all add: m'_def cleanupNodeModels_def stackTop_def lo_def)
  ultimately show ?thesis using depth by blast
qed

section \<open>Dropping a tile on another\<close>

lemma leaves_subtrees:
  "leaves t = concat (map (\<lambda>u. case content u of Inl b \<Rightarrow> [\<lparr>le_nodeid = t_id u, le_blockid = b\<rparr>] | Inr _ \<Rightarrow> []) (subtrees t))"
proof (induction t)
  case (Split a i f s ts)
  then have "concat (map leaves ts) = concat (map (\<lambda>u. case content u of Inl b \<Rightarrow> [\<lparr>le_nodeid = t_id u, le_blockid = b\<rparr>]
      | Inr _ \<Rightarrow> []) (concat (map subtrees ts)))" by (induction ts) simp_all
  then show ?case by simp
qed simp

text \<open>A swap keeps the blocks, and no node loses its last child.\<close>

lemma swap_ids_content:
  assumes "swappable i j t" "distinct (ids t)"
  shows "mset (leaves (swap_ids i j t)) = mset (leaves t)" "no_empty t \<Longrightarrow> no_empty (swap_ids i j t)"
proof -
  define key where "key = (\<lambda>u. case content u of Inl b \<Rightarrow> [\<lparr>le_nodeid = t_id u, le_blockid = b\<rparr>] | Inr _ \<Rightarrow> [])"
  have "mset (map key (subtrees (swap_ids i j t))) = mset (map key (subtrees t))"
    by (rule swap_ids_perm [OF assms]) (simp add: key_def split: sum.split)
  then have "sum_mset (image_mset mset (mset (map key (subtrees (swap_ids i j t))))) = sum_mset (image_mset mset (mset (map key (subtrees t))))"
    by simp
  then show "mset (leaves (swap_ids i j t)) = mset (leaves t)"
    by (simp add: leaves_subtrees mset_concat key_def [symmetric] multiset.map_comp o_def flip: sum_mset_sum_list)
  have "mset (map content (subtrees (swap_ids i j t))) = mset (map content (subtrees t))"
    by (rule swap_ids_perm [OF assms]) simp
  then have "content ` set (subtrees (swap_ids i j t)) = content ` set (subtrees t)"
    by (metis list.set_map set_mset_mset)
  moreover have "no_empty u \<longleftrightarrow> Inr True \<notin> content ` set (subtrees u)" for u
  proof -
    have "is_split v \<and> kids v = [] \<longleftrightarrow> content v = Inr True" for v by (cases v) simp_all
    then show ?thesis unfolding no_empty_def image_iff by metis
  qed
  ultimately show "no_empty t \<Longrightarrow> no_empty (swap_ids i j t)" by simp
qed

lemma tree_world_generation:
  "rootNode ts' = rootNode ts \<Longrightarrow> tree_world (h, ts') t = tree_world (h, ts) t"
  by (simp add: tree_world_def)

text \<open>What an action that changed the tree comes to: the pass, and the tree state is saved.\<close>

lemma afterReduce_passes:
  assumes w: "tree_world (h, treeState m) t" and ne: "no_empty t"
    and dc: "displayContainer m = Some container" and pend: "pendingTreeAction m \<noteq> Some (ResizeNode None)"
    and gen: "lastTreeStateGeneration m < generation (treeState m)"
  shows "\<exists>h' m'. afterReduce True (h, m) = (Inr (), (h', m')) \<and> tree_world (h', treeState m') (balance t) \<and>
    mset (modelLeafOrder m') = mset (leaves t) \<and> focusedNodeId (treeState m') = stackTop m' \<and>
    lastTreeStateGeneration m' = generation (treeState m') \<and> treeStateAtom m' = writeTreeState (treeState m') (treeStateAtom m) \<and>
    pendingTreeAction m' = pendingTreeAction m \<and> stackDepth h' = stackDepth h \<and> resizeCtx m' = resizeCtx m"
proof -
  define m1 where "m1 = (if modelMagnifiedNodeId m \<noteq> magnifiedNodeId (treeState m)
    then m\<lparr>lastMagnifiedNodeId := modelMagnifiedNodeId m, modelMagnifiedNodeId := magnifiedNodeId (treeState m)\<rparr> else m)"
  have m1: "treeState m1 = treeState m" "displayContainer m1 = Some container" "pendingTreeAction m1 = pendingTreeAction m"
    "treeStateAtom m1 = treeStateAtom m" "resizeCtx m1 = resizeCtx m"
    using dc by (simp_all add: m1_def)
  have "tree_world (h, treeState m1) t" "pendingTreeAction m1 \<noteq> Some (ResizeNode None)" using w pend m1 by simp_all
  from updateTree_passes [OF this(1) ne m1(2) this(2)] obtain h' m2 where
    u: "updateTree True (h, m1) = (Inr (), (h', m2))" "tree_world (h', treeState m2) (balance t)"
      "mset (modelLeafOrder m2) = mset (leaves t)" "focusedNodeId (treeState m2) = stackTop m2" "same_settings m1 m2"
      "stackDepth h' = stackDepth h" by blast
  define s where "s = bumped (treeState m2)"
  define m' where "m' = m2\<lparr>treeState := s, lastTreeStateGeneration := generation s, treeStateAtom := writeTreeState s (treeStateAtom m)\<rparr>"
  have "afterReduce True (h, m) = (Inr (), (h', m'))"
    using gen u(1,5) m1(4)
    by (auto simp: afterReduce_def m1_def modifyModel_def setTreeStateAtom_def onTree_def bumpGeneration_def bumped_def
        same_settings_def m'_def s_def split: if_splits)
  moreover have "tree_world (h', treeState m') (balance t)"
    using u(2) tree_world_generation [of s "treeState m2"] by (simp add: m'_def s_def bumped_def)
  ultimately show ?thesis
    using u(3-6) m1 by (intro exI [of _ h'] exI [of _ m']) (simp add: m'_def s_def bumped_def stackTop_def same_settings_def)
qed

text \<open>Committing an action that acts on the tree alone.\<close>

lemma commit_passes:
  assumes f: "\<And>d w. treeReducer_rec (Suc d) a True w = andThen (onTree f w) (\<lambda>_ w. afterReduce True w)"
    and pend: "pendingTreeAction m = Some a" "a \<noteq> ResizeNode None"
    and dc: "displayContainer m = Some container" and depth: "1 < stackDepth h"
    and step: "f (h, treeState m) = (Inr (), (h1, s1))" "tree_world (h1, s1) t" "no_empty t"
      "lastTreeStateGeneration m < generation s1" "stackDepth h1 = stackDepth h"
  shows "\<exists>h' m'. onDrop (h, m) = (Inr (), (h', m')) \<and> tree_world (h', treeState m') (balance t) \<and>
    mset (modelLeafOrder m') = mset (leaves t) \<and> focusedNodeId (treeState m') = stackTop m' \<and>
    lastTreeStateGeneration m' = generation (treeState m') \<and> treeStateAtom m' = writeTreeState (treeState m') (treeStateAtom m) \<and>
    pendingTreeAction m' = None \<and> resizeCtx m' = resizeCtx m"
proof -
  obtain d where d: "stackDepth h = Suc (Suc d)" using depth by (cases "stackDepth h"; cases "stackDepth h - 1") auto
  define m1 where "m1 = m\<lparr>treeState := s1\<rparr>"
  have "tree_world (h1, treeState m1) t" "displayContainer m1 = Some container"
    "pendingTreeAction m1 \<noteq> Some (ResizeNode None)" "lastTreeStateGeneration m1 < generation (treeState m1)"
    using step dc pend by (simp_all add: m1_def)
  from afterReduce_passes [OF this(1) step(3) this(2-4)] obtain h' m2 where
    r: "afterReduce True (h1, m1) = (Inr (), (h', m2))" "tree_world (h', treeState m2) (balance t)"
      "mset (modelLeafOrder m2) = mset (leaves t)" "focusedNodeId (treeState m2) = stackTop m2"
      "lastTreeStateGeneration m2 = generation (treeState m2)"
      "treeStateAtom m2 = writeTreeState (treeState m2) (treeStateAtom m)" "resizeCtx m2 = resizeCtx m"
    by (auto simp: m1_def)
  define m' where "m' = m2\<lparr>pendingTreeAction := None\<rparr>"
  have "treeReducer_rec (Suc d) a True (h, m) = (Inr (), (h', m2))"
    unfolding f using step(1) r(1) by (simp add: onTree_def m1_def)
  then have "onDrop (h, m) = (Inr (), (h', m'))"
    using pend r(5) by (simp add: onDrop_def treeReducer_def d setPending_def modifyModel_def afterReduce_def m'_def)
  then show ?thesis using r(2-7) by (intro exI [of _ h'] exI [of _ m']) (simp add: m'_def stackTop_def)
qed

text \<open>
  C4: a drop on the middle of another tile, from picking the tile up to the saved layout: whatever the
  pointer passed over before, when the last thing shown is the exchange of the two tiles, the drop
  exchanges them, balances the tree, keeps every block, leaves nothing pending, and saves the layout
  with the focus on a tile that the focus stack agrees with.
\<close>

theorem dropped_tiles_change_places:
  assumes "tree_world (h, treeState m) t" "no_empty t" "displayContainer m = Some container"
    and "lastTreeStateGeneration m = generation (treeState m)" "1 < stackDepth h"
    and "fold (shownAfter (h, m) k) es (pendingTreeAction m) = Some (Swap i j)"
    and "swappable i j t" "height (swap_ids i j t) \<le> stackDepth h"
  shows "\<exists>h' m'. dropOverlay False (fold (dragStep k) es (h, m)) = (Inr (), (h', m')) \<and>
    tree_world (h', treeState m') (balance (swap_ids i j t)) \<and> mset (modelLeafOrder m') = mset (leaves t) \<and>
    pendingTreeAction m' = None \<and> focusedNodeId (treeState m') = stackTop m' \<and>
    lastTreeStateGeneration m' = generation (treeState m') \<and>
    treeStateAtom m' = writeTreeState (treeState m') (treeStateAtom m)"
proof -
  define m0 where "m0 = m\<lparr>pendingTreeAction := Some (Swap i j)\<rparr>"
  have drag: "fold (dragStep k) es (h, m) = (h, m0)"
    using drag_pending [of "(h, m)" k es] assms(4-6) by (simp add: settled_def withPending_def m0_def)
  obtain h1 where h1: "swapNode i j (h, treeState m) = (Inr (), (h1, bumped (treeState m)))"
    "tree_world (h1, bumped (treeState m)) (swap_ids i j t)" "stackDepth h1 = stackDepth h"
    using tree_world_swap [OF assms(1,7)] assms(8) by auto
  note c = swap_ids_content [OF assms(7) tree_worldD(4) [OF assms(1)]]
  have m0: "pendingTreeAction m0 = Some (Swap i j)" "displayContainer m0 = Some container"
    "swapNode i j (h, treeState m0) = (Inr (), (h1, bumped (treeState m)))"
    "lastTreeStateGeneration m0 < generation (bumped (treeState m))" "treeStateAtom m0 = treeStateAtom m"
    using assms(3,4) h1(1) by (simp_all add: m0_def bumped_def)
  have f: "treeReducer_rec (Suc d) (Swap i j) True w = andThen (onTree (swapNode i j) w) (\<lambda>_ w. afterReduce True w)" for d w
    by simp
  have "no_empty (swap_ids i j t)" by (rule c(2) [OF assms(2)])
  from commit_passes [OF f m0(1) _ m0(2) assms(5) m0(3) h1(2) this m0(4) h1(3)]
  show ?thesis unfolding drag by (simp add: dropOverlay_def c(1) m0(5)) blast
qed

lemma centre_shows_swap:
  assumes "tree_world w t" "i \<in> set (ids t)" "j \<in> set (ids t)" "i \<noteq> []" "j \<noteq> []" "i \<noteq> j" "j \<noteq> t_id t" "i \<noteq> t_id t"
  shows "computeMoveNode (fst w) (snd w) i j (Some DropCenter) = Inr (Some (Swap i j))"
proof -
  obtain s s' where "find_sub i t = Some s" "find_sub j t = Some s'"
    using find_sub_in [OF assms(2)] find_sub_in [OF assms(3)] by blast
  with assms(4-8) show ?thesis
    by (simp add: computeMoveNode_def tree_worldD(6,8) [OF assms(1)] tree_world_findNode [OF assms(1)])
qed

text \<open>The model with the tile of \<open>n1\<close> in the left half of the screen.\<close>

definition demoShown :: layoutModel where
  "demoShown = demoModel\<lparr>lastTreeStateGeneration := 7,
     additionalProps := [(''n1'', (emptyProps ''00'')\<lparr>ap_rect :=
       Some \<lparr>dim_top = Fin 0, dim_left = Fin 0, dim_width = Fin 50, dim_height = Fin 100\<rparr>\<rparr>)]\<rparr>"

abbreviation demoHovers :: "dragEvent list" where
  "demoHovers \<equiv> [CursorCheck None None, HoverTile ''n1'' True \<lparr>pt_x = Fin 25, pt_y = Fin 50\<rparr>]"

lemma demo_hovers: "fold (shownAfter (demoStore, demoShown) ''n3'') demoHovers (pendingTreeAction demoShown) = Some (Swap ''n1'' ''n3'')"
proof -
  have dir: "determineDropDirection (Some \<lparr>dim_top = Fin 0, dim_left = Fin 0, dim_width = Fin 50, dim_height = Fin 100\<rparr>)
      (Some \<lparr>pt_x = Fin 25, pt_y = Fin 50\<rparr>) = Some DropCenter"
    by (simp add: determineDropDirection_def Let_def less_jsnum_def)
  have "computeMoveNode demoStore demoState ''n1'' ''n3'' (Some DropCenter) = Inr (Some (Swap ''n1'' ''n3''))"
    using centre_shows_swap [OF demo_world, of "''n1''" "''n3''"] by simp
  moreover have "treeState demoShown = demoState" "pendingTreeAction demoShown = None"
    "displayContainer demoShown = Some \<lparr>dim_top = Fin 0, dim_left = Fin 0, dim_width = Fin 100, dim_height = Fin 100\<rparr>"
    "getNodeRectById demoShown ''n1'' = Some \<lparr>dim_top = Fin 0, dim_left = Fin 0, dim_width = Fin 50, dim_height = Fin 100\<rparr>"
    by (simp_all add: demoShown_def demo_model_simps getNodeRectById_def getNodeAdditionalPropertiesById_def map_get_def)
  ultimately show ?thesis by (simp add: relativeTo_def dir)
qed

theorem dropped_tiles_change_places_witness:
  "\<exists>h' m'. dropOverlay False (fold (dragStep ''n3'') demoHovers (demoStore, demoShown)) = (Inr (), (h', m')) \<and>
    mset (modelLeafOrder m') = mset (leaves demoTree) \<and> pendingTreeAction m' = None"
proof -
  have s: "treeState demoShown = demoState" "lastTreeStateGeneration demoShown = generation (treeState demoShown)"
    "displayContainer demoShown = Some \<lparr>dim_top = Fin 0, dim_left = Fin 0, dim_width = Fin 100, dim_height = Fin 100\<rparr>"
    "1 < stackDepth demoStore" "height (swap_ids ''n1'' ''n3'' demoTree) \<le> stackDepth demoStore"
    by (simp_all add: demoShown_def demo_model_simps demo_swapped) (simp_all add: demoStore_def)
  show ?thesis
    using dropped_tiles_change_places [where h = demoStore and m = demoShown, unfolded s(1), OF demo_world demo_shapes(3) s(3)
        _ s(4) demo_hovers demo_swappable s(5)] s(1,2) by auto
qed

end
