(* ===== verification/LayoutResize.thy ===== *)
theory LayoutResize
  imports LayoutPass
begin

text \<open>
  Dragging a resize handle, from the first move of the pointer to its release: the context that the
  first move saves, the pending sizes that the moves show (\<open>LayoutModel.onResizeMove\<close>), the pass over
  the layout that shows them without touching the tree, and the release that commits the last of them
  (\<open>LayoutModel.onResizeEnd\<close>).
\<close>

section \<open>Laying out without balancing\<close>





section \<open>Moving the handle\<close>








section \<open>The whole drag\<close>


















end
