(* ===== verification/Json.thy ===== *)
theory Json
  imports JsNumber
begin

text \<open>
  JSON-like values of the language: the values that reach ijson.ts, \<open>jsonDeepEqual\<close> and the
  messages of the rpc layer. An object is the association list of its own properties in
  insertion order; \<open>JUndef\<close> is \<open>undefined\<close>, which is also the hole of a sparse array.
  Properties inherited from \<open>Object.prototype\<close> are not modelled.
\<close>

datatype json =
    JUndef
  | JNull
  | JBool bool
  | JNum jsnum
  | JStr string
  | JArr "json list"
  | JObj "(string \<times> json) list"

text \<open>\<open>v == null\<close>.\<close>

definition isNullish :: "json \<Rightarrow> bool" where
  "isNullish v \<longleftrightarrow> v = JUndef \<or> v = JNull"

fun isArray :: "json \<Rightarrow> bool" where
  "isArray (JArr _) = True"
| "isArray _ = False"

fun isObject :: "json \<Rightarrow> bool" where
  "isObject (JObj _) = True"
| "isObject _ = False"

text \<open>The truthiness of a value.\<close>

fun truthy :: "json \<Rightarrow> bool" where
  "truthy JUndef = False"
| "truthy JNull = False"
| "truthy (JBool b) = b"
| "truthy (JNum n) = js_truthy n"
| "truthy (JStr s) = (s \<noteq> [])"
| "truthy (JArr _) = True"
| "truthy (JObj _) = True"

datatype typeofTag = TUndefined | TObject | TBoolean | TNumber | TString

fun typeof :: "json \<Rightarrow> typeofTag" where
  "typeof JUndef = TUndefined"
| "typeof JNull = TObject"
| "typeof (JBool _) = TBoolean"
| "typeof (JNum _) = TNumber"
| "typeof (JStr _) = TString"
| "typeof (JArr _) = TObject"
| "typeof (JObj _) = TObject"

text \<open>Own enumerable properties, in order, and the value of a property.\<close>

fun entries :: "json \<Rightarrow> (string \<times> json) list" where
  "entries (JArr xs) = zip (map show_nat [0..<length xs]) xs"
| "entries (JObj kvs) = kvs"
| "entries _ = []"

definition getProp :: "json \<Rightarrow> string \<Rightarrow> json" where
  "getProp v k = (case map_of (entries v) k of None \<Rightarrow> JUndef | Some x \<Rightarrow> x)"

text \<open>\<open>arr[i]\<close> for a number: \<open>undefined\<close> unless \<open>i\<close> is the index of an element.\<close>

definition is_integer :: "jsnum \<Rightarrow> bool" where
  "is_integer n = (case n of Fin r \<Rightarrow> r = of_int \<lfloor>r\<rfloor> | _ \<Rightarrow> False)"

definition js_index :: "jsnum \<Rightarrow> int option" where
  "js_index n = (case n of Fin r \<Rightarrow> if r = of_int \<lfloor>r\<rfloor> then Some \<lfloor>r\<rfloor> else None | _ \<Rightarrow> None)"

definition elemAt :: "json list \<Rightarrow> jsnum \<Rightarrow> json" where
  "elemAt xs n =
     (case js_index n of
        None \<Rightarrow> JUndef
      | Some i \<Rightarrow> (case js_at xs i of None \<Rightarrow> JUndef | Some x \<Rightarrow> x))"

text \<open>\<open>arr[i] = v\<close> at an index: an index past the end leaves holes before it.\<close>

definition setElem :: "nat \<Rightarrow> json \<Rightarrow> json list \<Rightarrow> json list" where
  "setElem i v xs =
     (if i < length xs then xs[i := v] else xs @ replicate (i - length xs) JUndef @ [v])"

lemma js_index_nat [simp]: "js_index (Fin (of_nat n)) = Some (int n)"
  by (simp add: js_index_def)

lemma js_index_Some: "js_index n = Some i \<longleftrightarrow> n = Fin (of_int i)"
  by (cases n) (auto simp: js_index_def)

lemma is_integer_iff: "is_integer n \<longleftrightarrow> js_index n \<noteq> None"
  by (cases n) (auto simp: is_integer_def js_index_def)

lemma elemAt_nat [simp]: "elemAt xs (Fin (of_nat i)) = (if i < length xs then xs ! i else JUndef)"
  by (simp add: elemAt_def js_at_def)

lemma length_setElem: "length (setElem i v xs) = max (length xs) (Suc i)"
  by (simp add: setElem_def)

lemma nth_setElem:
  "j < length (setElem i v xs) \<Longrightarrow>
    setElem i v xs ! j = (if j = i then v else if j < length xs then xs ! j else JUndef)"
  by (auto simp: setElem_def nth_append nth_list_update split: if_splits)

lemma getProp_JObj: "getProp (JObj kvs) k = (case map_get kvs k of None \<Rightarrow> JUndef | Some x \<Rightarrow> x)"
  by (simp add: getProp_def map_get_def)

section \<open>Deep equality\<close>

text \<open>\<open>v1 === v2\<close> on the primitive values; two objects are distinct objects here.\<close>

fun strictEq :: "json \<Rightarrow> json \<Rightarrow> bool" where
  "strictEq (JNum a) (JNum b) = js_num_eq a b"
| "strictEq (JArr _) _ = False"
| "strictEq (JObj _) _ = False"
| "strictEq v w = (v = w)"

function (sequential) jsonDeepEqual :: "json \<Rightarrow> json \<Rightarrow> bool" where
  "jsonDeepEqual (JArr xs) (JArr ys) =
     (length xs = length ys \<and> (\<forall>(x, y) \<in> set (zip xs ys). jsonDeepEqual x y))"
| "jsonDeepEqual v1 v2 =
     (if strictEq v1 v2 then True
      else if typeof v1 \<noteq> typeof v2 then False
      else if isNullish v1 \<noteq> isNullish v2 then False
      else if typeof v1 = TObject then
        length (entries v1) = length (entries v2) \<and>
        (\<forall>(k, x) \<in> set (entries v1). jsonDeepEqual x (getProp v2 k))
      else False)"
  by pat_completeness auto

lemma entries_size: "(k, x) \<in> set (entries v) \<Longrightarrow> size x < size v"
proof (cases v)
  case (JArr xs)
  assume "(k, x) \<in> set (entries v)"
  with JArr have "x \<in> set xs" by (auto dest: set_zip_rightD)
  with JArr show ?thesis by (auto dest: size_list_estimation' [of x xs "size x" size])
next
  case (JObj kvs)
  assume "(k, x) \<in> set (entries v)"
  with JObj have "size x \<le> size_list (size_prod (\<lambda>_. 0) size) kvs"
    by (intro size_list_estimation' [of "(k, x)"]) auto
  with JObj show ?thesis by simp
qed auto

termination jsonDeepEqual
proof (relation "measure (\<lambda>(v, w). size v)", goal_cases)
  case (2 xs ys z x y)
  then have "x \<in> set xs" by (auto dest: set_zip_leftD)
  then show ?case by (auto dest: size_list_estimation' [of x xs "size x" size])
qed (auto dest!: entries_size simp del: entries.simps)

end
