(* ===== verification/IJson.thy ===== *)
theory IJson
  imports Json
begin

text \<open>
  Incremental JSON (frontend/util/ijson.ts): reading and writing a value at a path and the
  three commands built on it. The code mutates \<open>obj\<close> in place and returns it; every mutation
  comes after the last point that can throw, so the returned value describes the effect and a
  throwing call leaves the value as it was. A path is an array of strings and numbers; other
  parts are kept in the model because the code checks for them. Error messages keep their
  constant part, and formatPath's output where the code appends it; the printing of
  numbers is the parameter \<open>numStr\<close>.
\<close>

section \<open>Formatting\<close>

definition is_ident_start :: "char \<Rightarrow> bool" where
  "is_ident_start c \<longleftrightarrow>
     (of_char c :: nat) \<in> {97..122} \<or> (of_char c :: nat) \<in> {65..90} \<or> c = CHR ''_''"

definition is_digit :: "char \<Rightarrow> bool" where
  "is_digit c \<longleftrightarrow> (of_char c :: nat) \<in> {48..57}"

text \<open>\<open>/^[a-zA-Z_][a-zA-Z0-9_]*$/\<close>\<close>

fun simplePathStrRe :: "string \<Rightarrow> bool" where
  "simplePathStrRe [] = False"
| "simplePathStrRe (c # cs) = (is_ident_start c \<and> list_all (\<lambda>d. is_ident_start d \<or> is_digit d) cs)"

text \<open>\<open>JSON.stringify\<close> of a string.\<close>

definition hex_digit :: "nat \<Rightarrow> char" where
  "hex_digit d = (if d < 10 then char_of (48 + d) else char_of (87 + d))"

definition json_escape :: "char \<Rightarrow> string" where
  "json_escape c =
     (let n = (of_char c :: nat) in
      if n = 34 then [CHR 0x5C, CHR 0x22]
      else if n = 92 then [CHR 0x5C, CHR 0x5C]
      else if n = 8 then [CHR 0x5C, CHR ''b'']
      else if n = 9 then [CHR 0x5C, CHR ''t'']
      else if n = 10 then [CHR 0x5C, CHR ''n'']
      else if n = 12 then [CHR 0x5C, CHR ''f'']
      else if n = 13 then [CHR 0x5C, CHR ''r'']
      else if n < 32 then
        [CHR 0x5C, CHR ''u'', CHR ''0'', CHR ''0'', hex_digit (n div 16), hex_digit (n mod 16)]
      else [c])"

definition stringifyString :: "string \<Rightarrow> string" where
  "stringifyString s = CHR 0x22 # concat (map json_escape s) @ [CHR 0x22]"

definition formatPathPart :: "(jsnum \<Rightarrow> string) \<Rightarrow> json \<Rightarrow> string" where
  "formatPathPart numStr p =
     (case p of
        JStr s \<Rightarrow> if simplePathStrRe s then ''.'' @ s else ''['' @ stringifyString s @ '']''
      | JNum n \<Rightarrow> ''['' @ numStr n @ '']''
      | _ \<Rightarrow> ''.*'')"

text \<open>A path that is not an array: a string iterates its characters, the rest throws.\<close>

fun formatPath :: "(jsnum \<Rightarrow> string) \<Rightarrow> json \<Rightarrow> js_error + string" where
  "formatPath numStr (JArr ps) = Inr (''$'' @ concat (map (formatPathPart numStr) ps))"
| "formatPath numStr (JStr s) =
     Inr (''$'' @ concat (map (\<lambda>c. formatPathPart numStr (JStr [c])) s))"
| "formatPath numStr (JObj kvs) =
     (if getProp (JObj kvs) ''length'' = JNum (Fin 0) then Inr ''$'' else Inl TypeError)"
| "formatPath numStr _ = Inl TypeError"

section \<open>Reading\<close>

fun getPath :: "json \<Rightarrow> json list \<Rightarrow> js_error + json" where
  "getPath cur [] = Inr cur"
| "getPath cur (pathPart # path) =
     (if isNullish cur then Inr JNull
      else case pathPart of
        JStr k \<Rightarrow> if isObject cur then getPath (getProp cur k) path else Inr JNull
      | JNum n \<Rightarrow> (case cur of JArr xs \<Rightarrow> getPath (elemAt xs n) path | _ \<Rightarrow> Inr JNull)
      | _ \<Rightarrow> Inl (Error ''Invalid path part: ''))"

section \<open>Writing\<close>

record setPathOpts =
  op_force :: bool
  op_remove :: bool
  op_combine :: "(json \<Rightarrow> json \<Rightarrow> bool \<Rightarrow> js_error + json) option"  \<comment> \<open>old, new, force\<close>

definition noOpts :: setPathOpts where
  "noOpts = \<lparr>op_force = False, op_remove = False, op_combine = None\<rparr>"

definition combineFn_arrayAppend :: "json \<Rightarrow> json \<Rightarrow> bool \<Rightarrow> js_error + json" where
  "combineFn_arrayAppend oldVal newVal force =
     (if isNullish oldVal then Inr (JArr [newVal])
      else case oldVal of
        JArr xs \<Rightarrow> Inr (JArr (xs @ [newVal]))
      | _ \<Rightarrow> if \<not> force then Inl (Error ''Cannot append to non-array: '') else Inr (JArr [newVal]))"

definition isPathPart :: "json \<Rightarrow> bool" where
  "isPathPart p = (case p of JStr _ \<Rightarrow> True | JNum _ \<Rightarrow> True | _ \<Rightarrow> False)"

fun checkPath :: "json \<Rightarrow> bool" where
  "checkPath (JArr ps) = list_all isPathPart ps"
| "checkPath _ = False"

fun isEmpty :: "json \<Rightarrow> bool" where
  "isEmpty JUndef = True"
| "isEmpty JNull = True"
| "isEmpty (JArr xs) = (xs = [])"
| "isEmpty (JObj kvs) = (kvs = [])"
| "isEmpty _ = False"

definition removeFromArr :: "json list \<Rightarrow> nat \<Rightarrow> json" where
  "removeFromArr arr idx =
     (if length arr \<le> idx then JArr arr
      else if idx = length arr - 1 then
        (if length arr = 1 then JNull else JArr (butlast arr))
      else JArr (arr[idx := JNull]))"

definition removeFromObj :: "(string \<times> json) list \<Rightarrow> string \<Rightarrow> json" where
  "removeFromObj obj k =
     (let obj = map_delete k obj in if isEmpty (JObj obj) then JNull else JObj obj)"

text \<open>
  The container a path part is applied to: the present one, an empty one in place of
  \<open>undefined\<close>, \<open>null\<close> or (with \<open>force\<close>) a value of another type. \<open>Inr None\<close> is the early
  return of a removal below nothing.
\<close>

definition objectFor :: "json \<Rightarrow> setPathOpts \<Rightarrow> js_error + (string \<times> json) list option" where
  "objectFor obj opts =
     (if isNullish obj then (if op_remove opts then Inr None else Inr (Some []))
      else case obj of
        JObj kvs \<Rightarrow> Inr (Some kvs)
      | _ \<Rightarrow> if op_force opts then Inr (Some []) else Inl (Error ''Cannot set path on non-object: ''))"

definition arrayFor :: "json \<Rightarrow> setPathOpts \<Rightarrow> js_error + json list option" where
  "arrayFor obj opts =
     (if isNullish obj then (if op_remove opts then Inr None else Inr (Some []))
      else case obj of
        JArr xs \<Rightarrow> Inr (Some xs)
      | _ \<Rightarrow> if op_force opts then Inr (Some []) else Inl (Error ''Cannot set path on non-array: ''))"

fun setPathInternal :: "json \<Rightarrow> json list \<Rightarrow> json \<Rightarrow> setPathOpts \<Rightarrow> js_error + json" where
  "setPathInternal obj [] value opts =
     (case op_combine opts of
        Some f \<Rightarrow> f obj value (op_force opts)
      | None \<Rightarrow> Inr value)"
| "setPathInternal obj (JStr k # path) value opts =
     bindR (objectFor obj opts) (\<lambda>container.
     case container of
       None \<Rightarrow> Inr JNull
     | Some kvs \<Rightarrow>
         if op_remove opts \<and> path = [] then Inr (removeFromObj kvs k)
         else
           bindR (setPathInternal (getProp (JObj kvs) k) path value opts) (\<lambda>newVal.
           if op_remove opts \<and> isNullish newVal then Inr (removeFromObj kvs k)
           else Inr (JObj (map_set k newVal kvs))))"
| "setPathInternal obj (JNum n # path) value opts =
     (if n < Fin 0 \<or> \<not> is_integer n then Inl (Error ''Invalid path part: '')
      else
        bindR (arrayFor obj opts) (\<lambda>container.
        case container of
          None \<Rightarrow> Inr JNull
        | Some xs \<Rightarrow>
            let i = nat (the (js_index n)) in
            if op_remove opts \<and> path = [] then Inr (removeFromArr xs i)
            else
              bindR (setPathInternal (elemAt xs n) path value opts) (\<lambda>newVal.
              if op_remove opts \<and> isNullish newVal then Inr (removeFromArr xs i)
              else Inr (JArr (setElem i newVal xs)))))"
| "setPathInternal obj (_ # path) value opts = Inl (Error ''Invalid path part: '')"

definition setPath ::
  "(jsnum \<Rightarrow> string) \<Rightarrow> json \<Rightarrow> json \<Rightarrow> json \<Rightarrow> setPathOpts option \<Rightarrow> js_error + json" where
  "setPath numStr obj path value opts =
     (let opts = (case opts of None \<Rightarrow> noOpts | Some opts \<Rightarrow> opts) in
      if op_remove opts \<and> \<not> isNullish value
      then Inl (Error ''Cannot set value and remove at the same time'')
      else
        let path = (if isNullish path then JArr [] else path) in
        case path of
          JArr ps \<Rightarrow>
            if checkPath path then setPathInternal obj ps value opts
            else bindR (formatPath numStr path) (\<lambda>s. Inl (Error (''Invalid path: '' @ s)))
        | _ \<Rightarrow> bindR (formatPath numStr path) (\<lambda>s. Inl (Error (''Invalid path: '' @ s))))"

section \<open>Commands\<close>

definition getCommandPath :: "json \<Rightarrow> json" where
  "getCommandPath command =
     (if isNullish (getProp command ''path'') then JArr [] else getProp command ''path'')"

definition applyCommand :: "(jsnum \<Rightarrow> string) \<Rightarrow> json \<Rightarrow> json \<Rightarrow> js_error + json" where
  "applyCommand numStr data command =
     (if isNullish command then Inl (Error ''Invalid command (null)'')
      else if \<not> isObject command then Inl (Error ''Invalid command (not an object): '')
      else
        let commandType = getProp command ''type'' in
        if isNullish commandType then Inl (Error ''Invalid command (no type): '')
        else
          let path = getCommandPath command in
          if \<not> checkPath path
          then bindR (formatPath numStr path) (\<lambda>s. Inl (Error (''Invalid command path: '' @ s)))
          else if commandType = JStr ''set'' then
            setPath numStr data path (getProp command ''value'') None
          else if commandType = JStr ''del'' then
            setPath numStr data path JNull (Some (noOpts\<lparr>op_remove := True\<rparr>))
          else if commandType = JStr ''append'' then
            setPath numStr data path (getProp command ''value'')
              (Some (noOpts\<lparr>op_combine := Some combineFn_arrayAppend\<rparr>))
          else Inl (Error ''Invalid command type: ''))"

end
