(* ===== verification/IJsonProps.thy ===== *)
theory IJsonProps
  imports IJson "HOL-Library.Sublist"
begin

text \<open>
  Properties of the incremental JSON commands: what a command writes is read back at its path,
  and a path that leaves the one of the command reads as before.
\<close>

section \<open>Reading after writing\<close>

text \<open>Two reads agree when they are equal, or both find nothing.\<close>

definition sameRead :: "js_error + json \<Rightarrow> js_error + json \<Rightarrow> bool" where
  "sameRead a b \<longleftrightarrow> a = b \<or> (\<exists>x y. a = Inr x \<and> b = Inr y \<and> isNullish x \<and> isNullish y)"

lemma sameRead_refl [simp, intro]: "sameRead a a"
  by (simp add: sameRead_def)

lemma sameRead_trans: "sameRead a b \<Longrightarrow> sameRead b c \<Longrightarrow> sameRead a c"
  by (auto simp: sameRead_def)

lemma sameRead_sym: "sameRead a b \<Longrightarrow> sameRead b a"
  by (auto simp: sameRead_def)

lemma nullish_values [simp]: "isNullish JNull" "isNullish JUndef" "\<not> isNullish (JObj kvs)" "\<not> isNullish (JArr xs)"
  "\<not> isNullish (JStr s)" "\<not> isNullish (JNum n)" "\<not> isNullish (JBool b)"
  by (simp_all add: isNullish_def)

lemma getPath_nullish: "isNullish v \<Longrightarrow> \<exists>w. getPath v path = Inr w \<and> isNullish w"
  by (cases path) auto

lemma sameRead_nullish: "isNullish v \<Longrightarrow> isNullish w \<Longrightarrow> sameRead (getPath v path) (getPath w path)"
  using getPath_nullish [of v path] getPath_nullish [of w path] by (auto simp: sameRead_def)

lemma getProp_set: "getProp (JObj (map_set k v kvs)) j = (if j = k then v else getProp (JObj kvs) j)"
  by (simp add: getProp_JObj)

lemma getProp_removed:
  "sameRead (getPath (getProp (removeFromObj kvs k) j) path)
    (if j = k then Inr JNull else getPath (getProp (JObj kvs) j) path)"
proof -
  have "getProp (removeFromObj kvs k) j = (if j = k then JUndef else getProp (JObj kvs) j)"
  proof (cases "map_delete k kvs = []")
    case True
    then have "map_get kvs j = None" if "j \<noteq> k" using jm.get_del [of k kvs j] that by simp
    with True show ?thesis by (auto simp: removeFromObj_def getProp_JObj getProp_def [of JNull])
  qed (simp add: removeFromObj_def getProp_JObj)
  moreover have "sameRead (getPath JUndef path) (Inr JNull)"
    using getPath_nullish [of JUndef path] by (auto simp: sameRead_def)
  ultimately show ?thesis by simp
qed

text \<open>Array elements are read at an index that the write has checked.\<close>

lemma checked_index: "\<not> n < Fin 0 \<Longrightarrow> is_integer n \<Longrightarrow> \<exists>i. n = Fin (of_nat i) \<and> nat (the (js_index n)) = i"
proof -
  assume "\<not> n < Fin 0" "is_integer n"
  then obtain z where "n = Fin (of_int z)" "0 \<le> z"
    by (cases n) (auto simp: is_integer_def)
  then show ?thesis by (intro exI [of _ "nat z"]) (simp add: js_index_def)
qed

lemma elemAt_setElem: "elemAt (setElem i v xs) n = (if n = Fin (of_nat i) then v else elemAt xs n)"
proof (cases "js_index n")
  case None
  then have "n \<noteq> Fin (of_nat i)" by auto
  with None show ?thesis by (simp add: elemAt_def)
next
  case (Some z)
  then have n: "n = Fin (of_int z)" by (simp add: js_index_Some)
  show ?thesis
  proof (cases "0 \<le> z")
    case True
    then obtain j where "z = int j" using nonneg_int_cases by blast
    then show ?thesis using n by (auto simp: nth_setElem length_setElem)
  qed (use n Some in \<open>auto simp: elemAt_def js_at_def\<close>)
qed

text \<open>What a write that is not a removal does at the first part of its path.\<close>

lemma objectFor_read:
  assumes "objectFor obj opts = Inr (Some kvs)" "\<not> op_force opts"
  shows "sameRead (getPath obj (JStr k # path)) (getPath (getProp (JObj kvs) k) path)"
  using assms getPath_nullish [of "getProp (JObj kvs) k" path]
  by (auto simp: objectFor_def sameRead_def getProp_JObj split: json.splits if_splits)

lemma elemAt_Nil [simp]: "elemAt [] n = JUndef"
  by (auto simp: elemAt_def js_at_def split: option.split)

lemma arrayFor_read:
  assumes "arrayFor obj opts = Inr (Some xs)" "\<not> op_force opts"
  shows "sameRead (getPath obj (JNum n # path)) (getPath (elemAt xs n) path)"
  using assms getPath_nullish [of "elemAt xs n" path]
  by (auto simp: arrayFor_def sameRead_def split: json.splits if_splits)

lemma set_get:
  "setPathInternal obj ps v opts = Inr obj' \<Longrightarrow> \<not> op_remove opts \<Longrightarrow> \<not> op_force opts \<Longrightarrow>
    \<exists>old w. sameRead (getPath obj ps) (Inr old) \<and>
      (case op_combine opts of None \<Rightarrow> w = v | Some f \<Rightarrow> f old v False = Inr w) \<and> getPath obj' ps = Inr w"
proof (induction obj ps v opts arbitrary: obj' rule: setPathInternal.induct)
  case (1 obj v opts)
  then show ?case by (auto split: option.splits)
next
  case (2 obj k path v opts)
  from "2.prems" obtain kvs newVal where c: "objectFor obj opts = Inr (Some kvs)"
    and new: "setPathInternal (getProp (JObj kvs) k) path v opts = Inr newVal"
    and obj': "obj' = JObj (map_set k newVal kvs)"
    by (auto simp: bindR_eq_Inr objectFor_def split: option.splits if_splits json.splits)
  from "2.IH" [OF _ new] "2.prems"(2,3) obtain old w where
    "sameRead (getPath (getProp (JObj kvs) k) path) (Inr old)"
    "case op_combine opts of None \<Rightarrow> w = v | Some f \<Rightarrow> f old v False = Inr w" "getPath newVal path = Inr w"
    by blast
  moreover have "getPath obj' (JStr k # path) = getPath newVal path" by (simp add: obj' getProp_set)
  ultimately show ?case
    using sameRead_trans [OF objectFor_read [OF c "2.prems"(3)]] by metis
next
  case (3 obj n path v opts)
  from "3.prems" obtain xs newVal where c: "arrayFor obj opts = Inr (Some xs)"
    and n: "\<not> n < Fin 0" "is_integer n"
    and new: "setPathInternal (elemAt xs n) path v opts = Inr newVal"
    and obj': "obj' = JArr (setElem (nat (the (js_index n))) newVal xs)"
    by (auto simp: bindR_eq_Inr arrayFor_def Let_def split: option.splits if_splits json.splits)
  obtain i where "n = Fin (of_nat i)" "nat (the (js_index n)) = i" using checked_index [OF n] by blast
  then have "getPath obj' (JNum n # path) = getPath newVal path" by (simp add: obj' elemAt_setElem del: elemAt_nat)
  moreover from "3.IH" [OF _ _ _ new] "3.prems"(2,3) n obtain old w where
    "sameRead (getPath (elemAt xs n) path) (Inr old)"
    "case op_combine opts of None \<Rightarrow> w = v | Some f \<Rightarrow> f old v False = Inr w" "getPath newVal path = Inr w"
    by blast
  ultimately show ?case
    using sameRead_trans [OF arrayFor_read [OF c "3.prems"(3)]] by metis
qed auto

section \<open>Reading after a removal\<close>

lemma removed_elem:
  "sameRead (getPath (removeFromArr xs i) (JNum n # path))
    (if n = Fin (of_nat i) then Inr JNull else getPath (elemAt xs n) path)"
proof (cases "i < length xs")
  case False
  then show ?thesis
    using getPath_nullish [of JUndef path] by (auto simp: removeFromArr_def sameRead_def)
next
  case True
  have nul: "sameRead (getPath JUndef path) (Inr JNull)" "sameRead (getPath JNull path) (Inr JNull)"
    using getPath_nullish [of JUndef path] getPath_nullish [of JNull path] by (auto simp: sameRead_def)
  have at: "sameRead (getPath (elemAt ys n) path) (if n = Fin (of_nat i) then Inr JNull else getPath (elemAt xs n) path)"
    if b: "length ys \<le> length xs" "\<And>j. j < length ys \<Longrightarrow> j \<noteq> i \<Longrightarrow> ys ! j = xs ! j"
      "i < length ys \<Longrightarrow> isNullish (ys ! i)" "\<And>j. length ys \<le> j \<Longrightarrow> j < length xs \<Longrightarrow> j = i" for ys
  proof (cases "\<exists>j. n = Fin (of_nat j)")
    case True
    then obtain j where n: "n = Fin (of_nat j)" by blast
    show ?thesis
    proof (cases "j = i")
      case True
      then have "isNullish (elemAt ys n)" using b(3) by (simp add: n)
      then show ?thesis using True getPath_nullish [of "elemAt ys n" path] by (auto simp: n sameRead_def)
    next
      case False
      then have "elemAt ys n = elemAt xs n" using b(1,2,4) by (force simp: n)
      with False show ?thesis by (simp add: n)
    qed
  next
    case False
    then have "elemAt zs n = JUndef" for zs
      using js_index_Some [of n] nonneg_int_cases
      by (auto simp: elemAt_def js_at_def split: option.split) (metis of_int_of_nat_eq)
    with False show ?thesis by (metis sameRead_refl)
  qed
  show ?thesis
  proof (cases "i = length xs - 1")
    case last: True
    show ?thesis
    proof (cases "length xs = 1")
      case True
      then have "removeFromArr xs i = JNull" using last by (simp add: removeFromArr_def)
      moreover have "sameRead (Inr JNull) (if n = Fin (of_nat i) then Inr JNull else getPath (elemAt xs n) path)"
        using at [of "[]"] nul(1) True last by (simp add: sameRead_def) (metis)
      ultimately show ?thesis by simp
    next
      case False
      then have "removeFromArr xs i = JArr (butlast xs)" using last \<open>i < length xs\<close> by (simp add: removeFromArr_def)
      then show ?thesis using at [of "butlast xs"] last by (auto simp: nth_butlast)
    qed
  next
    case False
    then have "removeFromArr xs i = JArr (xs[i := JNull])" using True by (simp add: removeFromArr_def)
    then show ?thesis using at [of "xs[i := JNull]"] by (auto simp: nth_list_update)
  qed
qed

lemma removed_prop:
  "sameRead (getPath (removeFromObj kvs k) (JStr j # path))
    (if j = k then Inr JNull else getPath (getProp (JObj kvs) j) path)"
proof (cases "map_delete k kvs = []")
  case True
  then have r: "removeFromObj kvs k = JNull" by (simp add: removeFromObj_def)
  have "sameRead (getPath JNull (JStr j # path)) (getPath (getProp JNull j) path)"
    using sameRead_nullish [of JNull JUndef path] getPath_nullish [of JUndef path]
    by (auto simp: getProp_def sameRead_def)
  then show ?thesis using getProp_removed [of kvs k j path] unfolding r by (rule sameRead_trans)
next
  case False
  then have "removeFromObj kvs k = JObj (map_delete k kvs)" by (simp add: removeFromObj_def)
  then show ?thesis using getProp_removed [of kvs k j path] by simp
qed

section \<open>A command leaves the other paths alone\<close>

text \<open>
  Every write, removal or not, keeps what is read at a path that parts from its own.
\<close>

lemma parallel_Cons: "parallel (x # xs) (y # ys) \<longleftrightarrow> x \<noteq> y \<or> parallel xs ys"
  by (auto simp: parallel_def)

text \<open>One level: what the container reads, given what the element below it reads.\<close>

lemma object_frame:
  assumes c: "objectFor obj opts = Inr (Some kvs)" "\<not> op_force opts"
    and w: "obj' = JObj (map_set k newVal kvs) \<or> obj' = removeFromObj kvs k \<and> (path = [] \<or> isNullish newVal)"
    and p: "parallel (JStr k # path) (q # rest)" "isPathPart q"
    and below: "parallel path rest \<Longrightarrow> sameRead (getPath newVal rest) (getPath (getProp (JObj kvs) k) rest)"
  shows "sameRead (getPath obj' (q # rest)) (getPath obj (q # rest))"
proof (cases q)
  case (JStr j)
  have "sameRead (getPath obj' (q # rest)) (getPath (getProp (JObj kvs) j) rest)"
  proof (cases "j = k")
    case True
    with p JStr have par: "parallel path rest" by (simp add: parallel_Cons)
    then have "path \<noteq> []" by auto
    have "sameRead (getPath obj' (q # rest)) (getPath newVal rest)"
    proof (cases "obj' = JObj (map_set k newVal kvs)")
      case False
      with w \<open>path \<noteq> []\<close> have r: "obj' = removeFromObj kvs k" "isNullish newVal" by auto
      then have "sameRead (Inr JNull) (getPath newVal rest)"
        using getPath_nullish [of newVal rest] by (auto simp: sameRead_def)
      moreover have "sameRead (getPath obj' (q # rest)) (Inr JNull)"
        using removed_prop [of kvs k k rest] by (simp only: JStr True r(1) refl if_True)
      ultimately show ?thesis by (metis sameRead_trans)
    qed (simp add: JStr True getProp_set)
    then show ?thesis using below [OF par] sameRead_trans True by blast
  next
    case False
    then have "sameRead (getPath (removeFromObj kvs k) (q # rest)) (getPath (getProp (JObj kvs) j) rest)"
      using removed_prop [of kvs k j rest] by (simp only: JStr if_False)
    then show ?thesis using w False by (elim disjE) (simp_all add: JStr getProp_set)
  qed
  then show ?thesis
    using sameRead_sym [OF objectFor_read [OF c, of j rest]] sameRead_trans by (metis JStr)
next
  case (JNum m)
  then show ?thesis
    using c w by (auto simp: objectFor_def removeFromObj_def Let_def split: json.splits if_splits)
qed (use p in \<open>simp_all add: isPathPart_def\<close>)

lemma array_frame:
  assumes c: "arrayFor obj opts = Inr (Some xs)" "\<not> op_force opts" and n: "n = Fin (of_nat i)"
    and w: "obj' = JArr (setElem i newVal xs) \<or> obj' = removeFromArr xs i \<and> (path = [] \<or> isNullish newVal)"
    and p: "parallel (JNum n # path) (q # rest)" "isPathPart q"
    and below: "parallel path rest \<Longrightarrow> sameRead (getPath newVal rest) (getPath (elemAt xs n) rest)"
  shows "sameRead (getPath obj' (q # rest)) (getPath obj (q # rest))"
proof (cases q)
  case (JNum m)
  have "sameRead (getPath obj' (q # rest)) (getPath (elemAt xs m) rest)"
  proof (cases "m = n")
    case True
    with p JNum have par: "parallel path rest" by (simp add: parallel_Cons)
    then have "path \<noteq> []" by auto
    have "sameRead (getPath obj' (q # rest)) (getPath newVal rest)"
    proof (cases "obj' = JArr (setElem i newVal xs)")
      case False
      with w \<open>path \<noteq> []\<close> have r: "obj' = removeFromArr xs i" "isNullish newVal" by auto
      then have "sameRead (Inr JNull) (getPath newVal rest)"
        using getPath_nullish [of newVal rest] by (auto simp: sameRead_def)
      moreover have "sameRead (getPath obj' (q # rest)) (Inr JNull)"
        using removed_elem [of xs i n rest] by (simp only: JNum True n r(1) refl if_True)
      ultimately show ?thesis by (metis sameRead_trans)
    qed (simp add: JNum True n elemAt_setElem del: elemAt_nat)
    then show ?thesis using below [OF par] sameRead_trans True by blast
  next
    case False
    then have "sameRead (getPath (removeFromArr xs i) (q # rest)) (getPath (elemAt xs m) rest)"
      using removed_elem [of xs i m rest] n by (simp only: JNum if_False)
    then show ?thesis using w False n by (elim disjE) (simp_all add: JNum elemAt_setElem del: elemAt_nat)
  qed
  then show ?thesis
    using sameRead_sym [OF arrayFor_read [OF c, of m rest]] sameRead_trans by (metis JNum)
next
  case (JStr j)
  then show ?thesis
    using c w by (auto simp: arrayFor_def removeFromArr_def split: json.splits if_splits)
qed (use p in \<open>simp_all add: isPathPart_def\<close>)

lemma set_frame:
  "setPathInternal obj ps v opts = Inr obj' \<Longrightarrow> \<not> op_force opts \<Longrightarrow> parallel ps qs \<Longrightarrow> list_all isPathPart qs \<Longrightarrow>
    sameRead (getPath obj' qs) (getPath obj qs)"
proof (induction obj ps v opts arbitrary: obj' qs rule: setPathInternal.induct)
  case (2 obj k path v opts)
  obtain q rest where qs: "qs = q # rest" "isPathPart q" "list_all isPathPart rest"
    using "2.prems"(3,4) by (cases qs) auto
  obtain container where c: "objectFor obj opts = Inr container"
    using "2.prems"(1) by (auto simp: bindR_eq_Inr)
  show ?case
  proof (cases container)
    case None
    with c "2.prems"(1) have "obj' = JNull" "isNullish obj"
      by (auto simp: objectFor_def split: if_splits json.splits)
    then show ?thesis by (simp add: sameRead_nullish)
  next
    case (Some kvs)
    show ?thesis
    proof (cases "op_remove opts \<and> path = []")
      case True
      with "2.prems" c Some show ?thesis
        by (intro object_frame [of obj opts kvs obj' k JNull path q rest, folded qs(1)])
          (auto simp: qs)
    next
      case False
      with "2.prems"(1) c Some obtain newVal where
        new: "setPathInternal (getProp (JObj kvs) k) path v opts = Inr newVal"
        and obj': "obj' = JObj (map_set k newVal kvs) \<or> obj' = removeFromObj kvs k \<and> (path = [] \<or> isNullish newVal)"
        by (auto simp: bindR_eq_Inr split: if_splits)
      show ?thesis
        using object_frame [OF c [unfolded Some] "2.prems"(2) obj' "2.prems"(3) [unfolded qs(1)] qs(2)]
          "2.IH" [OF False new "2.prems"(2) _ qs(3)] unfolding qs(1) by blast
    qed
  qed
next
  case (3 obj n path v opts)
  obtain q rest where qs: "qs = q # rest" "isPathPart q" "list_all isPathPart rest"
    using "3.prems"(3,4) by (cases qs) auto
  have n: "\<not> n < Fin 0" "is_integer n" using "3.prems"(1) by (auto split: if_splits)
  then obtain i where i: "n = Fin (of_nat i)" "nat (the (js_index n)) = i" using checked_index by blast
  obtain container where c: "arrayFor obj opts = Inr container"
    using "3.prems"(1) n by (auto simp: bindR_eq_Inr)
  show ?case
  proof (cases container)
    case None
    with c "3.prems"(1) n have "obj' = JNull" "isNullish obj"
      by (auto simp: arrayFor_def split: if_splits json.splits)
    then show ?thesis by (simp add: sameRead_nullish)
  next
    case (Some xs)
    show ?thesis
    proof (cases "op_remove opts \<and> path = []")
      case True
      with "3.prems" c Some n i show ?thesis
        by (intro array_frame [of obj opts xs n i obj' JNull path q rest, folded qs(1)])
          (auto simp: qs)
    next
      case False
      with "3.prems"(1) c Some n i obtain newVal where
        new: "setPathInternal (elemAt xs n) path v opts = Inr newVal"
        and obj': "obj' = JArr (setElem i newVal xs) \<or> obj' = removeFromArr xs i \<and> (path = [] \<or> isNullish newVal)"
        by (auto simp: bindR_eq_Inr Let_def split: if_splits)
      have "parallel path rest \<Longrightarrow> sameRead (getPath newVal rest) (getPath (elemAt xs n) rest)"
        using "3.IH" [OF _ refl _ new "3.prems"(2) _ qs(3)] n False i(2) by blast
      then show ?thesis
        using array_frame [OF c [unfolded Some] "3.prems"(2) i(1) obj' "3.prems"(3) [unfolded qs(1)] qs(2)]
        unfolding qs(1) by blast
    qed
  qed
qed auto

lemma removed_prop_same: "sameRead (getPath (removeFromObj kvs k) (JStr k # path)) (Inr JNull)"
  using removed_prop [of kvs k k path] by (simp only: refl if_True)

lemma removed_elem_same: "sameRead (getPath (removeFromArr xs i) (JNum (Fin (of_nat i)) # path)) (Inr JNull)"
  using removed_elem [of xs i "Fin (of_nat i)" path] by (simp only: refl if_True)

lemma del_get:
  "setPathInternal obj ps v opts = Inr obj' \<Longrightarrow> isNullish v \<Longrightarrow> op_remove opts \<Longrightarrow> op_combine opts = None \<Longrightarrow>
    sameRead (getPath obj' ps) (Inr JNull)"
proof (induction obj ps v opts arbitrary: obj' rule: setPathInternal.induct)
  case (1 obj v opts)
  then show ?case by (auto simp: sameRead_def)
next
  case (2 obj k path v opts)
  then obtain container where c: "objectFor obj opts = Inr container" by (auto simp: bindR_eq_Inr)
  consider "obj' = JNull" | kvs where "obj' = removeFromObj kvs k"
    | kvs newVal where "setPathInternal (getProp (JObj kvs) k) path v opts = Inr newVal" "path \<noteq> []"
        "obj' = JObj (map_set k newVal kvs)"
    using "2.prems"(1,3) c by (cases container) (auto simp: bindR_eq_Inr split: if_splits)
  then show ?case
  proof cases
    case 3
    then show ?thesis using "2.IH" [OF _ 3(1)] "2.prems" by (simp add: getProp_set)
  qed (simp_all only: removed_prop_same, simp)
next
  case (3 obj n path v opts)
  have n: "\<not> n < Fin 0" "is_integer n" using "3.prems"(1) by (auto split: if_splits)
  then obtain i where i: "n = Fin (of_nat i)" "nat (the (js_index n)) = i" using checked_index by blast
  obtain container where c: "arrayFor obj opts = Inr container"
    using "3.prems"(1) n by (auto simp: bindR_eq_Inr)
  consider "obj' = JNull" | xs where "obj' = removeFromArr xs i"
    | xs newVal where "setPathInternal (elemAt xs n) path v opts = Inr newVal" "path \<noteq> []"
        "obj' = JArr (setElem i newVal xs)"
    using "3.prems"(1,3) n c i(2) by (cases container) (auto simp: bindR_eq_Inr Let_def split: if_splits)
  then show ?case
  proof cases
    case 3
    then have "sameRead (getPath newVal path) (Inr JNull)"
      using "3.IH" [OF _ refl _ 3(1)] "3.prems" n by simp
    then show ?thesis by (simp add: 3 i elemAt_setElem del: elemAt_nat)
  qed (simp_all only: removed_elem_same i, simp)
qed auto

section \<open>The commands\<close>

text \<open>A command object, as the backend sends it.\<close>

definition commandOf :: "string \<Rightarrow> json list \<Rightarrow> json \<Rightarrow> json" where
  "commandOf ty ps v = JObj [(''type'', JStr ty), (''path'', JArr ps), (''value'', v)]"

lemma commandOf_simps [simp]:
  "isNullish (commandOf ty ps v) = False" "isObject (commandOf ty ps v)"
  "getProp (commandOf ty ps v) ''type'' = JStr ty" "getCommandPath (commandOf ty ps v) = JArr ps"
  "getProp (commandOf ty ps v) ''value'' = v"
  by (simp_all add: commandOf_def getProp_def getCommandPath_def)

lemma applyCommand_type:
  "applyCommand numStr data (commandOf ty ps v) = Inr data' \<Longrightarrow> ty = ''set'' \<or> ty = ''append'' \<or> ty = ''del''"
  by (auto simp: applyCommand_def Let_def bindR_eq_Inr split: if_splits)

lemma applyCommand_set:
  "applyCommand numStr data (commandOf ''set'' ps v) = Inr data' \<Longrightarrow>
    setPathInternal data ps v noOpts = Inr data'"
  by (auto simp: applyCommand_def setPath_def noOpts_def Let_def bindR_eq_Inr split: if_splits)

lemma applyCommand_append:
  "applyCommand numStr data (commandOf ''append'' ps v) = Inr data' \<Longrightarrow>
    setPathInternal data ps v (noOpts\<lparr>op_combine := Some combineFn_arrayAppend\<rparr>) = Inr data'"
  by (auto simp: applyCommand_def setPath_def noOpts_def Let_def bindR_eq_Inr split: if_splits)

lemma applyCommand_del:
  "applyCommand numStr data (commandOf ''del'' ps v) = Inr data' \<Longrightarrow>
    setPathInternal data ps JNull (noOpts\<lparr>op_remove := True\<rparr>) = Inr data'"
  by (auto simp: applyCommand_def setPath_def noOpts_def Let_def bindR_eq_Inr split: if_splits)

text \<open>
  C25: after a command that succeeds, reading its path gives what the command says: the value for
  a set, the elements that were there and the value for an append, nothing for a deletion.
\<close>

theorem command_reads_back:
  assumes "applyCommand numStr data (commandOf ty ps v) = Inr data'"
  shows "ty = ''set'' \<and> getPath data' ps = Inr v \<or>
    ty = ''append'' \<and> (\<exists>xs. getPath data' ps = Inr (JArr (xs @ [v])) \<and>
      (getPath data ps = Inr (JArr xs) \<or> xs = [] \<and> sameRead (getPath data ps) (Inr JNull))) \<or>
    ty = ''del'' \<and> sameRead (getPath data' ps) (Inr JNull)"
proof -
  from applyCommand_type [OF assms] consider "ty = ''set''" | "ty = ''append''" | "ty = ''del''" by blast
  then show ?thesis
  proof cases
    case 1
    then show ?thesis using set_get [OF applyCommand_set [OF assms [unfolded 1]]] by (auto simp: noOpts_def)
  next
    case 2
    from set_get [OF applyCommand_append [OF assms [unfolded 2]]]
    obtain old w where "sameRead (getPath data ps) (Inr old)" "combineFn_arrayAppend old v False = Inr w"
      "getPath data' ps = Inr w" by (auto simp: noOpts_def)
    with 2 show ?thesis
      by (auto simp: combineFn_arrayAppend_def sameRead_def split: if_splits json.splits)
  next
    case 3
    then show ?thesis
      using del_get [OF applyCommand_del [OF assms [unfolded 3]]] by (auto simp: noOpts_def sameRead_def)
  qed
qed

text \<open>
  C26: a command that succeeds leaves alone what is read at every path that parts from its own, up
  to the difference between a missing value and null.
\<close>

theorem command_frame:
  assumes "applyCommand numStr data (commandOf ty ps v) = Inr data'" "parallel ps qs" "list_all isPathPart qs"
  shows "sameRead (getPath data' qs) (getPath data qs)"
proof -
  obtain x opts where "setPathInternal data ps x opts = Inr data'" "\<not> op_force opts"
    using applyCommand_type [OF assms(1)] applyCommand_set applyCommand_append applyCommand_del assms(1)
    by (fastforce simp: noOpts_def)
  then show ?thesis using set_frame assms(2,3) by blast
qed

section \<open>Witnesses\<close>

definition demoDoc :: json where
  "demoDoc = JObj [(''a'', JArr [JNum (Fin 1)]), (''b'', JStr ''x'')]"

lemma demo_append:
  "applyCommand numStr demoDoc (commandOf ''append'' [JStr ''a''] (JNum (Fin 2))) =
    Inr (JObj [(''a'', JArr [JNum (Fin 1), JNum (Fin 2)]), (''b'', JStr ''x'')])"
  by (simp add: applyCommand_def setPath_def noOpts_def demoDoc_def Let_def objectFor_def isPathPart_def
      combineFn_arrayAppend_def getProp_JObj map_get_def map_set_def)

theorem command_reads_back_witness:
  "\<exists>xs. getPath (JObj [(''a'', JArr [JNum (Fin 1), JNum (Fin 2)]), (''b'', JStr ''x'')]) [JStr ''a''] =
    Inr (JArr (xs @ [JNum (Fin 2)]))"
  using command_reads_back [OF demo_append] by auto

theorem command_frame_witness:
  "sameRead (getPath (JObj [(''a'', JArr [JNum (Fin 1), JNum (Fin 2)]), (''b'', JStr ''x'')]) [JStr ''b''])
    (getPath demoDoc [JStr ''b''])"
  by (rule command_frame [OF demo_append]) (simp_all add: parallel_Cons isPathPart_def)

end
