(* ===== verification/Util.thy ===== *)
theory Util
  imports Json
begin

text \<open>
  The helpers of frontend/util/util.ts. Promises are numbered, and their settling is an event;
  the closures with a private variable (\<open>lazy\<close>, the throttled and debounced atoms) are a state
  and its operations. \<open>clsx\<close>, the grapheme segmenter of \<open>Intl\<close> and the timers of
  throttle-debounce are parameters or events.
\<close>

section \<open>Strings\<close>

definition isBlank :: "string option \<Rightarrow> bool" where
  "isBlank str \<longleftrightarrow> str = None \<or> str = Some []"

definition makeConnRoute :: "string option \<Rightarrow> string" where
  "makeConnRoute conn = (if isBlank conn then ''conn:local'' else ''conn:'' @ the conn)"

definition is_lower_alnum_dash :: "char \<Rightarrow> bool" where
  "is_lower_alnum_dash c \<longleftrightarrow>
     (of_char c :: nat) \<in> {97..122} \<or> (of_char c :: nat) \<in> {48..57} \<or> c = CHR ''-''"

text \<open>\<open>[a-z0-9-]+\<close> up to the end of the string.\<close>

definition iconNameRe :: "string \<Rightarrow> bool" where
  "iconNameRe s \<longleftrightarrow> s \<noteq> [] \<and> list_all is_lower_alnum_dash s"

definition stripPrefix :: "string \<Rightarrow> string \<Rightarrow> string" where
  "stripPrefix p s = (if js_is_prefix p s then drop (length p) s else s)"

definition makeIconClass ::
  "(string option list \<Rightarrow> string) \<Rightarrow> string option \<Rightarrow> bool \<Rightarrow> bool \<Rightarrow> string option" where
  "makeIconClass clsx icon fw spin =
     (case icon of
        None \<Rightarrow> None
      | Some icon \<Rightarrow>
          let mods = [if fw then Some ''fa-fw'' else None, if spin then Some ''fa-spin'' else None] in
          if iconNameRe (stripPrefix ''solid@'' icon) then
            Some (clsx (Some (''fa fa-sharp fa-solid fa-'' @ stripPrefix ''solid@'' icon) # mods))
          else if js_is_prefix ''regular@'' icon \<and> iconNameRe (stripPrefix ''regular@'' icon) then
            Some (clsx (Some (''fa fa-sharp fa-regular fa-'' @ stripPrefix ''regular@'' icon) # mods))
          else None)"

text \<open>
  \<open>encodeURIComponent\<close> of the language: the unreserved characters stay, every other one is the
  escape of its UTF-8 bytes (one byte below 128, two for the other characters of a string).
\<close>

definition uriUnreserved :: "char \<Rightarrow> bool" where
  "uriUnreserved c \<longleftrightarrow>
     (of_char c :: nat) \<in> {97..122} \<or> (of_char c :: nat) \<in> {65..90} \<or> (of_char c :: nat) \<in> {48..57} \<or>
     c \<in> set ''-_.!~*()'' \<or> c = CHR 0x27"

definition hexUpper :: "nat \<Rightarrow> char" where
  "hexUpper d = (if d < 10 then char_of (48 + d) else char_of (55 + d))"

definition percentByte :: "nat \<Rightarrow> string" where
  "percentByte n = [CHR ''%'', hexUpper (n div 16), hexUpper (n mod 16)]"

definition encodeURIChar :: "char \<Rightarrow> string" where
  "encodeURIChar c =
     (let n = (of_char c :: nat) in
      if uriUnreserved c then [c]
      else if n < 128 then percentByte n
      else percentByte (192 + n div 64) @ percentByte (128 + n mod 64))"

definition encodeURIComponent :: "string \<Rightarrow> string" where
  "encodeURIComponent s = concat (map encodeURIChar s)"

definition makeExternLink :: "string \<Rightarrow> string" where
  "makeExternLink url = ''https://extern?'' @ encodeURIComponent url"

definition countGraphemes :: "(string \<Rightarrow> string list) \<Rightarrow> string option \<Rightarrow> nat" where
  "countGraphemes segment str = (case str of None \<Rightarrow> 0 | Some s \<Rightarrow> length (segment s))"

section \<open>Numbers and settings\<close>

definition boundNumber :: "jsnum option \<Rightarrow> jsnum \<Rightarrow> jsnum \<Rightarrow> jsnum option" where
  "boundNumber num lo hi =
     (case num of
        None \<Rightarrow> None
      | Some n \<Rightarrow> if n = NaN then None else Some (js_min (js_max n lo) hi))"

definition getPrefixedSettings ::
  "(string, json) js_map option \<Rightarrow> string option \<Rightarrow> (string, json) js_map" where
  "getPrefixedSettings settings prefix =
     (case (settings, prefix) of
        (Some s, Some p) \<Rightarrow>
          if isBlank prefix then []
          else filter (\<lambda>(key, _). key = p \<or> js_is_prefix (p @ '':'') key) s
      | _ \<Rightarrow> [])"

section \<open>Promises\<close>

text \<open>
  \<open>promiseWeakMap\<close>: the last seen value, pending flag and error of every promise asked for.
  A promise settles once; its callbacks then update the entry, if there is one.
\<close>

record 'a resolvedValue =
  rv_pending :: bool
  rv_error :: "string option"
  rv_value :: "'a option"

datatype 'a settlement = Fulfilled 'a | Rejected string

type_synonym 'a promiseMap = "(nat, 'a resolvedValue) js_map"

definition getPromiseState ::
  "nat option \<Rightarrow> 'a promiseMap \<Rightarrow> ('a option \<times> bool \<times> string option) \<times> 'a promiseMap" where
  "getPromiseState promise m =
     (case promise of
        None \<Rightarrow> ((None, False, None), m)
      | Some p \<Rightarrow>
          (case map_get m p of
             Some v \<Rightarrow> ((rv_value v, rv_pending v, rv_error v), m)
           | None \<Rightarrow>
               let v = \<lparr>rv_pending = True, rv_error = None, rv_value = None\<rparr> in
               ((rv_value v, rv_pending v, rv_error v), map_set p v m)))"

text \<open>The callbacks given to \<open>promise.then\<close>, run when the promise has settled.\<close>

definition settlePromise :: "nat \<Rightarrow> 'a settlement \<Rightarrow> 'a promiseMap \<Rightarrow> 'a promiseMap" where
  "settlePromise p s m =
     (case map_get m p of
        None \<Rightarrow> m
      | Some v \<Rightarrow>
          map_set p
            (case s of
               Fulfilled x \<Rightarrow> \<lparr>rv_pending = False, rv_error = None, rv_value = Some x\<rparr>
             | Rejected e \<Rightarrow> v\<lparr>rv_pending := False, rv_error := Some e\<rparr>) m)"

definition getPromiseValue :: "nat option \<Rightarrow> 'a option \<Rightarrow> 'a promiseMap \<Rightarrow> 'a option \<times> 'a promiseMap" where
  "getPromiseValue promise dflt m =
     (let ((value, pending, error), m) = getPromiseState promise m in
      (if pending \<or> (error \<noteq> None \<and> error \<noteq> Some []) then dflt else value, m))"

datatype 'a loadable = Loading | HasData 'a | HasError

fun jotaiLoadableValue :: "'a loadable \<Rightarrow> 'a \<Rightarrow> 'a" where
  "jotaiLoadableValue (HasData v) dflt = v"
| "jotaiLoadableValue _ dflt = dflt"

section \<open>Closures with a private variable\<close>

text \<open>\<open>lazy\<close>: the callback is a state transformer; its result is kept after the first call.\<close>

definition lazyCall :: "('s \<Rightarrow> 'a \<times> 's) \<Rightarrow> 'a option \<times> 's \<Rightarrow> 'a \<times> ('a option \<times> 's)" where
  "lazyCall callback st =
     (case st of
        (Some res, s) \<Rightarrow> (res, (Some res, s))
      | (None, s) \<Rightarrow> (let (res, s) = callback s in (res, (Some res, s))))"

primrec lazyCalls :: "nat \<Rightarrow> ('s \<Rightarrow> 'a \<times> 's) \<Rightarrow> 'a option \<times> 's \<Rightarrow> 'a list \<times> ('a option \<times> 's)" where
  "lazyCalls 0 callback st = ([], st)"
| "lazyCalls (Suc n) callback st =
     (let (r, st) = lazyCall callback st; (rs, st) = lazyCalls n callback st in (r # rs, st))"

text \<open>
  An atom with a delayed copy (\<open>atomWithThrottle\<close> and \<open>atomWithDebounce\<close>): a write sets the
  current value and hands the update to the timer, which copies the current value when it
  fires. When it fires is up to the library: a throttle runs the first call at once.
\<close>

record 'a delayedAtom =
  da_current :: 'a
  da_delayed :: 'a
  da_scheduled :: bool

datatype 'a stateAction = SetTo 'a | UpdateBy "'a \<Rightarrow> 'a"

definition delayedInit :: "'a \<Rightarrow> 'a delayedAtom" where
  "delayedInit v = \<lparr>da_current = v, da_delayed = v, da_scheduled = False\<rparr>"

definition delayedWrite :: "'a stateAction \<Rightarrow> 'a delayedAtom \<Rightarrow> 'a delayedAtom" where
  "delayedWrite u a =
     a\<lparr>da_current := (case u of SetTo v \<Rightarrow> v | UpdateBy f \<Rightarrow> f (da_current a)), da_scheduled := True\<rparr>"

definition delayedFire :: "'a delayedAtom \<Rightarrow> 'a delayedAtom" where
  "delayedFire a = (if da_scheduled a then a\<lparr>da_delayed := da_current a, da_scheduled := False\<rparr> else a)"

end
