(* ===== verification/HistoryUtil.thy ===== *)
theory HistoryUtil
  imports Util
begin

text \<open>
  The back and forward history of a block's url or file (frontend/util/historyutil.ts). An
  update is the object the functions return: the new value, and the history fields it sets;
  a field that the returned object lacks leaves the block's metadata as it is.
\<close>

definition MaxHistory :: nat where
  "MaxHistory = 20"

record historyMeta =
  hm_history :: "string list option"
  hm_forward :: "string list option"

record historyUpdate =
  hu_val :: string
  hu_history :: "string list option"
  hu_forward :: "string list option"

text \<open>
  The null check compares a boolean with \<open>null\<close> and never holds, so an absent path throws.
\<close>

definition getParentDirectory :: "string option \<Rightarrow> js_error + string" where
  "getParentDirectory path =
     (case path of
        None \<Rightarrow> Inl TypeError
      | Some p \<Rightarrow>
          if p = ''/'' then Inr ''/''
          else
            let splitPath = butlast (js_split (CHR ''/'') p) in
            if length splitPath = 1 \<and> hd splitPath = [] then Inr ''/''
            else Inr (js_join (CHR ''/'') splitPath))"

definition metaHistory :: "historyMeta option \<Rightarrow> string list" where
  "metaHistory m =
     (case m of None \<Rightarrow> [] | Some m \<Rightarrow> (case hm_history m of None \<Rightarrow> [] | Some h \<Rightarrow> h))"

definition metaForward :: "historyMeta option \<Rightarrow> string list" where
  "metaForward m =
     (case m of None \<Rightarrow> [] | Some m \<Rightarrow> (case hm_forward m of None \<Rightarrow> [] | Some h \<Rightarrow> h))"

definition goHistoryBack :: "string \<Rightarrow> historyMeta option \<Rightarrow> bool \<Rightarrow> js_error + historyUpdate option" where
  "goHistoryBack curVal meta backToParent =
     (let history = metaHistory meta; historyForward = metaForward meta in
      if history = [] then
        (if backToParent then
           bindR (getParentDirectory (Some curVal)) (\<lambda>parentDir.
           if parentDir = curVal then Inr None
           else
             Inr (Some \<lparr>hu_val = parentDir, hu_history = None,
                        hu_forward = Some (take MaxHistory (curVal # historyForward))\<rparr>))
         else Inr None)
      else
        Inr (Some \<lparr>hu_val = last history, hu_history = Some (butlast history),
                   hu_forward = Some (curVal # historyForward)\<rparr>))"

text \<open>\<open>history.push(v)\<close>, then \<open>shift\<close> when the history is longer than the bound.\<close>

definition pushHistory :: "string \<Rightarrow> string list \<Rightarrow> string list" where
  "pushHistory v history =
     (let history = history @ [v] in
      if MaxHistory < length history then tl history else history)"

definition goHistoryForward :: "string \<Rightarrow> historyMeta option \<Rightarrow> historyUpdate option" where
  "goHistoryForward curVal meta =
     (case metaForward meta of
        [] \<Rightarrow> None
      | lastVal # historyForward \<Rightarrow>
          Some \<lparr>hu_val = lastVal, hu_history = Some (pushHistory curVal (metaHistory meta)),
                hu_forward = Some historyForward\<rparr>)"

definition goHistory :: "string \<Rightarrow> string \<Rightarrow> historyMeta option \<Rightarrow> historyUpdate" where
  "goHistory curVal newVal meta =
     \<lparr>hu_val = newVal, hu_history = Some (pushHistory curVal (metaHistory meta)), hu_forward = Some []\<rparr>"

section \<open>The history as a cursor\<close>

text \<open>
  The specification: the values visited, oldest first, and the position of the current one, with
  at most twenty values before it.
\<close>

type_synonym cursor = "string list \<times> nat"

fun cursorBack :: "cursor \<Rightarrow> cursor option" where
  "cursorBack (vs, p) = (if p = 0 then None else Some (vs, p - 1))"

fun dropOldest :: "cursor \<Rightarrow> cursor" where
  "dropOldest (vs, p) = (if 20 < p then (tl vs, p - 1) else (vs, p))"

fun cursorForward :: "cursor \<Rightarrow> cursor option" where
  "cursorForward (vs, p) = (if p + 1 = length vs then None else Some (dropOldest (vs, p + 1)))"

fun cursorVisit :: "string \<Rightarrow> cursor \<Rightarrow> cursor" where
  "cursorVisit v (vs, p) = dropOldest (take (p + 1) vs @ [v], p + 1)"

text \<open>The state of a block: its value and metadata. An update replaces the fields that it has.\<close>

fun applyUpdate :: "string \<times> historyMeta \<Rightarrow> historyUpdate \<Rightarrow> string \<times> historyMeta" where
  "applyUpdate (cur, m) u =
     (hu_val u, \<lparr>hm_history = (case hu_history u of None \<Rightarrow> hm_history m | Some h \<Rightarrow> Some h),
                 hm_forward = (case hu_forward u of None \<Rightarrow> hm_forward m | Some f \<Rightarrow> Some f)\<rparr>)"

fun cursorOf :: "string \<times> historyMeta \<Rightarrow> cursor" where
  "cursorOf (cur, m) = (metaHistory (Some m) @ cur # metaForward (Some m), length (metaHistory (Some m)))"

lemma take_butlast_last: "h \<noteq> [] \<Longrightarrow> butlast h @ last h # xs = h @ xs"
  by (metis append.assoc append_Cons append_Nil append_butlast_last_id)

text \<open>
  The history of a block refines the cursor: going back moves it one value down, going forward
  one up, a new value replaces the values after it, and the oldest value is dropped when more
  than twenty would be before it. Back at the first value and forward at the last do nothing.
\<close>

theorem history_is_a_cursor:
  fixes m :: historyMeta
  shows "map_option (cursorOf \<circ> applyUpdate (cur, m)) (case goHistoryBack cur (Some m) False of Inl e \<Rightarrow> None | Inr u \<Rightarrow> u) =
      cursorBack (cursorOf (cur, m)) \<and>
    map_option (cursorOf \<circ> applyUpdate (cur, m)) (goHistoryForward cur (Some m)) = cursorForward (cursorOf (cur, m)) \<and>
    cursorOf (applyUpdate (cur, m) (goHistory cur v (Some m))) = cursorVisit v (cursorOf (cur, m))"
proof (intro conjI)
  obtain h f where hf: "metaHistory (Some m) = h" "metaForward (Some m) = f" by blast
  show "map_option (cursorOf \<circ> applyUpdate (cur, m)) (case goHistoryBack cur (Some m) False of Inl e \<Rightarrow> None | Inr u \<Rightarrow> u) =
      cursorBack (cursorOf (cur, m))"
    by (simp add: goHistoryBack_def hf take_butlast_last) (simp add: metaHistory_def metaForward_def take_butlast_last)
  show "map_option (cursorOf \<circ> applyUpdate (cur, m)) (goHistoryForward cur (Some m)) = cursorForward (cursorOf (cur, m))"
    by (cases f) (auto simp: goHistoryForward_def hf pushHistory_def MaxHistory_def metaHistory_def [of "Some _"]
        metaForward_def [of "Some _"] Let_def tl_append split: list.split)
  show "cursorOf (applyUpdate (cur, m) (goHistory cur v (Some m))) = cursorVisit v (cursorOf (cur, m))"
    by (auto simp: goHistory_def hf pushHistory_def MaxHistory_def metaHistory_def [of "Some _"]
        metaForward_def [of "Some _"] Let_def tl_append split: list.split)
qed

end
