(* ===== verification/UiModels.thy ===== *)
theory UiModels
  imports Util
begin

text \<open>
  The small models of the user interface: which block an element belongs to
  (frontend/util/focusutil.ts), the stack of open modals (app/store/modalmodel.ts) and the
  context menu with its click handlers (app/store/contextmenu.ts).
\<close>

section \<open>Focus\<close>

text \<open>
  An element of the document: its tag, \<open>id\<close>, \<open>className\<close>, \<open>data-blockid\<close> and its parent. An
  event target is also a text node, with the element around it, or something else.
\<close>

datatype element =
  Element (elTag: string) (elId: "string option") (elClass: "string option")
    (elBlockId: "string option") (elParent: "element option")

datatype eventTarget = HtmlElement element | TextNode "element option" | OtherTarget

fun findBlockId :: "element option \<Rightarrow> string option" where
  "findBlockId None = None"
| "findBlockId (Some (Element tag i cls blockid parent)) =
     (case blockid of Some b \<Rightarrow> Some b | None \<Rightarrow> findBlockId parent)"

definition describeElement :: "element \<Rightarrow> string" where
  "describeElement elem =
     (let blockId = findBlockId (Some elem);
          rtn = map (\<lambda>c. if (of_char c :: nat) \<in> {65..90} then char_of ((of_char c :: nat) + 32) else c)
                  (elTag elem);
          rtn = (if \<not> isBlank (elId elem) then rtn @ ''#'' @ the (elId elem) else rtn);
          rtn = (if \<not> isBlank (elClass elem) then rtn @ ''.'' @ the (elClass elem) else rtn)
      in case blockId of None \<Rightarrow> rtn | Some b \<Rightarrow> rtn @ '' ['' @ take 8 b @ '']'')"

definition getElemAsStr :: "eventTarget option \<Rightarrow> string" where
  "getElemAsStr elem =
     (case elem of
        None \<Rightarrow> ''null''
      | Some (HtmlElement e) \<Rightarrow> describeElement e
      | Some (TextNode (Some e)) \<Rightarrow> describeElement e
      | Some (TextNode None) \<Rightarrow> ''unknown''
      | Some OtherTarget \<Rightarrow> ''unknown'')"

record docSelection =
  sel_rangeCount :: nat
  sel_isCollapsed :: bool
  sel_anchor :: "eventTarget option"

definition hasSelection :: "docSelection option \<Rightarrow> bool" where
  "hasSelection sel =
     (case sel of None \<Rightarrow> False | Some s \<Rightarrow> 0 < sel_rangeCount s \<and> \<not> sel_isCollapsed s)"

text \<open>A block id is used when it is not empty.\<close>

definition nonEmpty :: "string option \<Rightarrow> string option" where
  "nonEmpty s = (if s = Some [] then None else s)"

definition anchorBlockId :: "docSelection option \<Rightarrow> string option" where
  "anchorBlockId sel =
     (case sel of
        None \<Rightarrow> None
      | Some s \<Rightarrow>
          if sel_anchor s \<noteq> None \<and> 0 < sel_rangeCount s \<and> \<not> sel_isCollapsed s then
            (case the (sel_anchor s) of
               HtmlElement e \<Rightarrow> nonEmpty (findBlockId (Some e))
             | TextNode (Some e) \<Rightarrow> nonEmpty (findBlockId (Some e))
             | _ \<Rightarrow> None)
          else None)"

definition focusedBlockId :: "eventTarget option \<Rightarrow> docSelection option \<Rightarrow> string option" where
  "focusedBlockId activeElement sel =
     (case activeElement of
        Some (HtmlElement e) \<Rightarrow>
          (case nonEmpty (findBlockId (Some e)) of
             Some b \<Rightarrow> Some b
           | None \<Rightarrow> anchorBlockId sel)
      | _ \<Rightarrow> anchorBlockId sel)"

section \<open>Modals\<close>

record 'p modal =
  md_displayName :: string
  md_props :: "'p option"

definition pushModal :: "string \<Rightarrow> 'p option \<Rightarrow> 'p modal list \<Rightarrow> 'p modal list" where
  "pushModal displayName props modals = modals @ [\<lparr>md_displayName = displayName, md_props = props\<rparr>]"

text \<open>The second component tells whether the callback is run.\<close>

definition popModal :: "bool \<Rightarrow> 'p modal list \<Rightarrow> 'p modal list \<times> bool" where
  "popModal hasCallback modals =
     (if 0 < length modals then (butlast modals, hasCallback) else (modals, False))"

definition hasOpenModals :: "'p modal list \<Rightarrow> bool" where
  "hasOpenModals modals \<longleftrightarrow> 0 < length modals"

definition isModalOpen :: "string \<Rightarrow> 'p modal list \<Rightarrow> bool" where
  "isModalOpen displayName modals \<longleftrightarrow> list_ex (\<lambda>m. md_displayName m = displayName) modals"

section \<open>Context menu\<close>

text \<open>
  A menu item of the application, with the handler of its click, and the item handed to
  Electron, with an identifier from \<open>crypto.randomUUID\<close> in its place.
\<close>

datatype 'h menuItem =
  MenuItem (mi_role: "string option") (mi_type: "string option") (mi_label: "string option")
    (mi_click: "'h option") (mi_submenu: "'h menuItem list option")

datatype electronItem =
  ElectronItem (ei_role: "string option") (ei_type: "string option") (ei_label: "string option")
    (ei_id: string) (ei_submenu: "electronItem list option")

record 'h contextMenuModel =
  cm_handlers :: "(string, 'h) js_map"
  cm_drawn :: nat

fun convertItem :: "(nat \<Rightarrow> string) \<Rightarrow> 'h menuItem \<Rightarrow> 'h contextMenuModel \<Rightarrow> electronItem \<times> 'h contextMenuModel"
and convertMenu :: "(nat \<Rightarrow> string) \<Rightarrow> 'h menuItem list \<Rightarrow> 'h contextMenuModel \<Rightarrow> electronItem list \<times> 'h contextMenuModel" where
  "convertItem uuid (MenuItem role ty label click submenu) m =
     (let i = uuid (cm_drawn m);
          m = m\<lparr>cm_drawn := Suc (cm_drawn m)\<rparr>;
          m = (case click of None \<Rightarrow> m | Some h \<Rightarrow> m\<lparr>cm_handlers := map_set i h (cm_handlers m)\<rparr>)
      in case submenu of
           None \<Rightarrow> (ElectronItem role ty label i None, m)
         | Some items \<Rightarrow>
             (let (sub, m) = convertMenu uuid items m in (ElectronItem role ty label i (Some sub), m)))"
| "convertMenu uuid [] m = ([], m)"
| "convertMenu uuid (item # items) m =
     (let (e, m) = convertItem uuid item m; (es, m) = convertMenu uuid items m in (e # es, m))"

definition showContextMenu :: "(nat \<Rightarrow> string) \<Rightarrow> 'h menuItem list \<Rightarrow> 'h contextMenuModel \<Rightarrow> electronItem list \<times> 'h contextMenuModel" where
  "showContextMenu uuid menu m = convertMenu uuid menu (m\<lparr>cm_handlers := []\<rparr>)"

text \<open>The handler that runs for a click, if any.\<close>

definition handleContextMenuClick :: "string \<Rightarrow> 'h contextMenuModel \<Rightarrow> 'h option" where
  "handleContextMenuClick i m = map_get (cm_handlers m) i"

section \<open>Clicks run the handler of their item\<close>

text \<open>The items of a menu and of the converted menu in the order of their identifiers.\<close>

fun flatMenu :: "'h menuItem list \<Rightarrow> 'h menuItem list" where
  "flatMenu [] = []"
| "flatMenu (MenuItem r t l c sub # items) =
     MenuItem r t l c sub # (case sub of None \<Rightarrow> [] | Some xs \<Rightarrow> flatMenu xs) @ flatMenu items"

fun flatElectron :: "electronItem list \<Rightarrow> electronItem list" where
  "flatElectron [] = []"
| "flatElectron (ElectronItem r t l i sub # items) =
     ElectronItem r t l i sub # (case sub of None \<Rightarrow> [] | Some xs \<Rightarrow> flatElectron xs) @ flatElectron items"

text \<open>What is shown of an item.\<close>

definition shownAs :: "'h menuItem \<Rightarrow> electronItem \<Rightarrow> bool" where
  "shownAs x e \<longleftrightarrow> ei_role e = mi_role x \<and> ei_type e = mi_type x \<and> ei_label e = mi_label x"

text \<open>The handlers that the items register, the first with the identifier number \<open>n\<close>.\<close>

primrec clicksOf :: "(nat \<Rightarrow> string) \<Rightarrow> nat \<Rightarrow> 'h menuItem list \<Rightarrow> string \<rightharpoonup> 'h" where
  "clicksOf uuid n [] = Map.empty"
| "clicksOf uuid n (x # xs) =
     (case mi_click x of None \<Rightarrow> Map.empty | Some h \<Rightarrow> [uuid n \<mapsto> h]) ++ clicksOf uuid (Suc n) xs"

lemma clicksOf_append: "clicksOf uuid n (xs @ ys) = clicksOf uuid n xs ++ clicksOf uuid (n + length xs) ys"
  by (induction xs arbitrary: n) (simp_all add: map_add_assoc)

lemma clicksOf_other: "i \<notin> uuid ` {n..<n + length xs} \<Longrightarrow> clicksOf uuid n xs i = None"
proof (induction xs arbitrary: n)
  case (Cons x xs)
  then have "i \<noteq> uuid n" "i \<notin> uuid ` {Suc n..<Suc n + length xs}" by auto
  with Cons.IH [of "Suc n"] show ?case by (simp add: map_add_def split: option.split)
qed simp

lemma clicksOf_item:
  assumes "inj uuid" "j < length xs"
  shows "clicksOf uuid n xs (uuid (n + j)) = mi_click (xs ! j)"
  using assms(2)
proof (induction xs arbitrary: n j)
  case (Cons x xs)
  show ?case
  proof (cases j)
    case 0
    have "uuid n \<notin> uuid ` {Suc n..<Suc n + length xs}"
      using assms(1) by (auto dest: injD)
    from clicksOf_other [OF this] show ?thesis using 0 by (simp add: map_add_def split: option.split)
  next
    case (Suc k)
    then have "clicksOf uuid (Suc n) xs (uuid (n + j)) = mi_click (xs ! k)"
      using Cons.IH [of k "Suc n"] Cons.prems by simp
    moreover have "uuid (n + j) \<noteq> uuid n" using assms(1) Suc by (auto dest: injD)
    ultimately show ?thesis using Suc by (auto simp: map_add_def split: option.splits)
  qed
qed simp

text \<open>What converting does to the model and makes of the items.\<close>

definition converted ::
  "(nat \<Rightarrow> string) \<Rightarrow> 'h contextMenuModel \<Rightarrow> 'h menuItem list \<Rightarrow> electronItem list \<Rightarrow> 'h contextMenuModel \<Rightarrow> bool" where
  "converted uuid m items es m' \<longleftrightarrow>
     cm_drawn m' = cm_drawn m + length items \<and> list_all2 shownAs items es \<and>
     map ei_id es = map uuid [cm_drawn m..<cm_drawn m'] \<and>
     map_get (cm_handlers m') = map_get (cm_handlers m) ++ clicksOf uuid (cm_drawn m) items"

lemma converted_append:
  "converted uuid m xs es m1 \<Longrightarrow> converted uuid m1 ys fs m2 \<Longrightarrow> converted uuid m (xs @ ys) (es @ fs) m2"
  using upt_add_eq_append [of "cm_drawn m" "cm_drawn m + length xs" "length ys"]
  by (auto simp: converted_def clicksOf_append map_add_assoc list_all2_appendI)

lemma convert_spec:
  "convertItem uuid item m = (e, m') \<Longrightarrow> converted uuid m (flatMenu [item]) (flatElectron [e]) m'"
  "convertMenu uuid items m = (es, m') \<Longrightarrow> converted uuid m (flatMenu items) (flatElectron es) m'"
proof (induction uuid item m and uuid items m arbitrary: e m' and es m' rule: convertItem_convertMenu.induct)
  case (1 uuid role ty label click submenu m)
  define m1 where "m1 = (case click of None \<Rightarrow> m\<lparr>cm_drawn := Suc (cm_drawn m)\<rparr>
    | Some h \<Rightarrow> m\<lparr>cm_drawn := Suc (cm_drawn m), cm_handlers := map_set (uuid (cm_drawn m)) h (cm_handlers m)\<rparr>)"
  have this_item: "converted uuid m [MenuItem role ty label click submenu]
      [ElectronItem role ty label (uuid (cm_drawn m)) sub] m1" for sub
    by (auto simp: converted_def shownAs_def m1_def split: option.split)
  show ?case
  proof (cases submenu)
    case None
    with "1.prems" have "e = ElectronItem role ty label (uuid (cm_drawn m)) None \<and> m' = m1"
      by (auto simp: m1_def Let_def split: option.splits)
    with None this_item show ?thesis by simp
  next
    case (Some items)
    obtain sub m2 where sub: "convertMenu uuid items m1 = (sub, m2)" by (rule prod.exhaust)
    have "converted uuid m1 (flatMenu items) (flatElectron sub) m2"
      using "1.IH" [OF refl refl _ Some, of m1] sub by (simp add: m1_def split: option.splits)
    moreover have "e = ElectronItem role ty label (uuid (cm_drawn m)) (Some sub) \<and> m' = m2"
      using "1.prems" sub Some by (auto simp: m1_def Let_def split: option.splits)
    ultimately show ?thesis using converted_append [OF this_item [of "Some sub"]] Some by fastforce
  qed
next
  case (2 uuid m)
  then show ?case by (simp add: converted_def)
next
  case (3 uuid item items m)
  obtain e m1 where e: "convertItem uuid item m = (e, m1)" by (rule prod.exhaust)
  obtain fs m2 where fs: "convertMenu uuid items m1 = (fs, m2)" by (rule prod.exhaust)
  have "flatMenu (item # items) = flatMenu [item] @ flatMenu items"
    "flatElectron (e # fs) = flatElectron [e] @ flatElectron fs"
    by (cases item; cases e; simp)+
  with "3.IH"(1) [OF e] "3.IH"(2) [OF e [symmetric] refl fs] "3.prems" e fs show ?case
    by (auto dest: converted_append)
qed

text \<open>
  The converted menu shows the items of the application's menu, those of submenus included,
  in the same order, and clicking one runs the handler of that item, if it has one; the handlers
  of menus that were open before are gone.
\<close>

theorem click_runs_its_handler:
  assumes "inj uuid" "showContextMenu uuid menu m = (es, m')"
  shows "list_all2 (\<lambda>x e. shownAs x e \<and> handleContextMenuClick (ei_id e) m' = mi_click x)
      (flatMenu menu) (flatElectron es) \<and>
    (\<forall>i. handleContextMenuClick i m' \<noteq> None \<longrightarrow> i \<in> set (map ei_id (flatElectron es)))"
proof -
  have c: "converted uuid (m\<lparr>cm_handlers := []\<rparr>) (flatMenu menu) (flatElectron es) m'"
    using assms(2) by (intro convert_spec(2)) (simp add: showContextMenu_def)
  then have h: "handleContextMenuClick i m' = clicksOf uuid (cm_drawn m) (flatMenu menu) i" for i
    by (simp add: converted_def handleContextMenuClick_def map_add_def split: option.split)
  have len: "length (flatElectron es) = length (flatMenu menu)" "cm_drawn m' = cm_drawn m + length (flatMenu menu)"
    using c by (auto simp: converted_def dest: list_all2_lengthD)
  have ids: "map ei_id (flatElectron es) = map uuid [cm_drawn m..<cm_drawn m']"
    using c by (simp add: converted_def)
  have "ei_id (flatElectron es ! j) = uuid (cm_drawn m + j)" if "j < length (flatMenu menu)" for j
  proof -
    have "ei_id (flatElectron es ! j) = map ei_id (flatElectron es) ! j" using that len by simp
    also have "\<dots> = uuid (cm_drawn m + j)" unfolding ids using that len by simp
    finally show ?thesis .
  qed
  moreover have "i \<in> uuid ` {cm_drawn m..<cm_drawn m + length (flatMenu menu)}" if "handleContextMenuClick i m' \<noteq> None" for i
    using clicksOf_other [of i uuid "cm_drawn m" "flatMenu menu"] that unfolding h by blast
  ultimately show ?thesis
    using c len by (auto simp: converted_def list_all2_conv_all_nth h clicksOf_item [OF assms(1)] ids)
qed

theorem click_runs_its_handler_witness:
  "let uuid = (\<lambda>n. replicate n (CHR ''u''));
       menu = [MenuItem None None (Some ''Copy'') (Some 1) None,
               MenuItem None None (Some ''More'') None (Some [MenuItem None None (Some ''Cut'') (Some (2 :: nat)) None])];
       (es, m') = showContextMenu uuid menu \<lparr>cm_handlers = [], cm_drawn = 0\<rparr>
   in list_all2 (\<lambda>x e. shownAs x e \<and> handleContextMenuClick (ei_id e) m' = mi_click x)
        (flatMenu menu) (flatElectron es)"
  unfolding Let_def prod.case_eq_if
  by (rule click_runs_its_handler [THEN conjunct1]) (auto intro!: injI dest: arg_cong [where f = length])

end
