(* ===== verification/RpcTypes.thy ===== *)
theory RpcTypes
  imports Util
begin

text \<open>
  The messages of the rpc layer (frontend/types/gotypes.d.ts): rpc messages, events and
  subscription requests, with absent fields as \<open>None\<close> and untyped data as a JSON value.
\<close>

record rpcMessage =
  rm_command :: "string option"
  rm_reqid :: "string option"
  rm_resid :: "string option"
  rm_timeout :: "nat option"
  rm_route :: "string option"
  rm_source :: "string option"
  rm_cont :: bool
  rm_cancel :: bool
  rm_error :: "string option"
  rm_data :: json

text \<open>The empty message \<open>{}\<close>.\<close>

definition emptyMsg :: rpcMessage where
  "emptyMsg =
     \<lparr>rm_command = None, rm_reqid = None, rm_resid = None, rm_timeout = None, rm_route = None,
      rm_source = None, rm_cont = False, rm_cancel = False, rm_error = None, rm_data = JUndef\<rparr>"

record rpcOpts =
  ro_timeout :: "nat option"
  ro_noresponse :: bool
  ro_route :: "string option"

record waveEvent =
  we_event :: string
  we_scopes :: "string list option"
  we_data :: json

record subscriptionRequest =
  sr_event :: string
  sr_scopes :: "string list"
  sr_allscopes :: bool

end
