(* ===== verification/Wps.thy ===== *)
theory Wps
  imports RpcTypes
begin

text \<open>
  The publish-subscribe client (frontend/app/store/wps.ts): the subscriptions of the window
  to backend events, the subscription command each change sends upstream, the dispatch of an
  event to the handlers, and the reference counted subjects of file events. A handler is an
  identifier; running it is recorded, and what it does in turn is not modelled.
\<close>

section \<open>Event subscriptions\<close>

record 'h eventSubject =
  es_id :: string
  es_handler :: 'h
  es_scope :: "string option"

record 'h eventSubscription =
  sub_eventType :: string
  sub_handler :: "'h option"
  sub_scope :: "string option"

record eventUnsubscribe =
  un_id :: string
  un_eventType :: string

datatype subCommand = EventSub subscriptionRequest | EventUnsub string

record 'h wpsState =
  wp_subjects :: "(string, 'h eventSubject list) js_map"
  wp_sent :: "subCommand list"              \<comment> \<open>the messages given to \<open>sendRawRpcMessage\<close>\<close>
  wp_uuids :: "nat \<Rightarrow> string"
  wp_drawn :: nat

text \<open>The loop over the subjects: a blank scope asks for all scopes and ends it.\<close>

primrec collectScopes :: "'h eventSubject list \<Rightarrow> string list \<Rightarrow> string list \<times> bool" where
  "collectScopes [] scopes = (scopes, False)"
| "collectScopes (s # ss) scopes =
     (if isBlank (es_scope s) then ([], True) else collectScopes ss (scopes @ [the (es_scope s)]))"

definition makeWaveReSubCommand :: "string \<Rightarrow> 'h wpsState \<Rightarrow> subCommand" where
  "makeWaveReSubCommand eventType st =
     (case map_get (wp_subjects st) eventType of
        None \<Rightarrow> EventUnsub eventType
      | Some subjects \<Rightarrow>
          let (scopes, allscopes) = collectScopes subjects [] in
          EventSub \<lparr>sr_event = eventType, sr_scopes = scopes, sr_allscopes = allscopes\<rparr>)"

definition updateWaveEventSub :: "string \<Rightarrow> 'h wpsState \<Rightarrow> 'h wpsState" where
  "updateWaveEventSub eventType st = st\<lparr>wp_sent := wp_sent st @ [makeWaveReSubCommand eventType st]\<rparr>"

definition wpsReconnectHandler :: "'h wpsState \<Rightarrow> 'h wpsState" where
  "wpsReconnectHandler st = fold updateWaveEventSub (map fst (wp_subjects st)) st"

text \<open>An insertion ordered \<open>Set\<close>.\<close>

definition set_add :: "'a \<Rightarrow> 'a list \<Rightarrow> 'a list" where
  "set_add x xs = (if x \<in> set xs then xs else xs @ [x])"

text \<open>
  The loop over the subscriptions. A subscription without a handler makes the function return
  at once, without the messages for those registered before it: the flag is then False.
\<close>

primrec subscribeLoop ::
  "'h eventSubscription list \<Rightarrow> eventUnsubscribe list \<Rightarrow> string list \<Rightarrow> 'h wpsState \<Rightarrow>
     bool \<times> eventUnsubscribe list \<times> string list \<times> 'h wpsState" where
  "subscribeLoop [] unsubs types st = (True, unsubs, types, st)"
| "subscribeLoop (s # ss) unsubs types st =
     (case sub_handler s of
        None \<Rightarrow> (False, unsubs, types, st)
      | Some h \<Rightarrow>
          let i = wp_uuids st (wp_drawn st);
              subjects = (case map_get (wp_subjects st) (sub_eventType s) of
                            None \<Rightarrow> [] | Some xs \<Rightarrow> xs);
              subcont = \<lparr>es_id = i, es_handler = h, es_scope = sub_scope s\<rparr>;
              st = st\<lparr>wp_drawn := Suc (wp_drawn st),
                      wp_subjects := map_set (sub_eventType s) (subjects @ [subcont]) (wp_subjects st)\<rparr>
          in subscribeLoop ss (unsubs @ [\<lparr>un_id = i, un_eventType = sub_eventType s\<rparr>])
               (set_add (sub_eventType s) types) st)"

text \<open>The result is what the returned function unsubscribes, or \<open>None\<close> for no function.\<close>

definition waveEventSubscribe ::
  "'h eventSubscription list \<Rightarrow> 'h wpsState \<Rightarrow> eventUnsubscribe list option \<times> 'h wpsState" where
  "waveEventSubscribe subscriptions st =
     (let (completed, unsubs, types, st) = subscribeLoop subscriptions [] [] st in
      if completed then (Some unsubs, fold updateWaveEventSub types st) else (None, st))"

primrec unsubscribeLoop ::
  "eventUnsubscribe list \<Rightarrow> string list \<Rightarrow> 'h wpsState \<Rightarrow> bool \<times> string list \<times> 'h wpsState" where
  "unsubscribeLoop [] types st = (True, types, st)"
| "unsubscribeLoop (u # us) types st =
     (case map_get (wp_subjects st) (un_eventType u) of
        None \<Rightarrow> (False, types, st)
      | Some subjects \<Rightarrow>
          let idx = js_find_index (\<lambda>s. es_id s = un_id u) subjects in
          if idx = -1 then (False, types, st)
          else
            let subjects = js_splice_out idx subjects;
                st = st\<lparr>wp_subjects :=
                  (if subjects = [] then map_delete (un_eventType u) (wp_subjects st)
                   else map_set (un_eventType u) subjects (wp_subjects st))\<rparr>
            in unsubscribeLoop us (set_add (un_eventType u) types) st)"

definition waveEventUnsubscribe :: "eventUnsubscribe list \<Rightarrow> 'h wpsState \<Rightarrow> 'h wpsState" where
  "waveEventUnsubscribe unsubscribes st =
     (let (completed, types, st) = unsubscribeLoop unsubscribes [] st in
      if completed then fold updateWaveEventSub types st else st)"

text \<open>The handlers an event runs, in order.\<close>

definition subjectMatches :: "waveEvent \<Rightarrow> 'h eventSubject \<Rightarrow> bool" where
  "subjectMatches event s =
     (if isBlank (es_scope s) then True
      else case we_scopes event of
        None \<Rightarrow> False
      | Some scopes \<Rightarrow> the (es_scope s) \<in> set scopes)"

definition handleWaveEvent :: "waveEvent \<Rightarrow> 'h wpsState \<Rightarrow> 'h list" where
  "handleWaveEvent event st =
     (case map_get (wp_subjects st) (we_event event) of
        None \<Rightarrow> []
      | Some subjects \<Rightarrow> map es_handler (filter (subjectMatches event) subjects))"

section \<open>File subjects\<close>

text \<open>
  A subject is an object with a reference count; its \<open>release\<close> closes over the key it was
  created under. Subjects are numbered in the order of their creation.
\<close>

record fileSubject =
  fs_key :: string
  fs_refCount :: int
  fs_completed :: bool

record fileSubjectState =
  fss_map :: "(string, nat) js_map"
  fss_subjects :: "fileSubject list"

definition getFileSubject :: "string \<Rightarrow> string \<Rightarrow> fileSubjectState \<Rightarrow> nat \<times> fileSubjectState" where
  "getFileSubject zoneId fileName st =
     (let subjectKey = zoneId @ ''|'' @ fileName;
          (subject, st) =
            (case map_get (fss_map st) subjectKey of
               Some s \<Rightarrow> (s, st)
             | None \<Rightarrow>
                 (let s = length (fss_subjects st) in
                  (s, st\<lparr>fss_subjects := fss_subjects st @
                           [\<lparr>fs_key = subjectKey, fs_refCount = 0, fs_completed = False\<rparr>],
                        fss_map := map_set subjectKey s (fss_map st)\<rparr>)));
          x = fss_subjects st ! subject
      in (subject, st\<lparr>fss_subjects :=
            (fss_subjects st)[subject := x\<lparr>fs_refCount := fs_refCount x + 1\<rparr>]\<rparr>))"

definition releaseFileSubject :: "nat \<Rightarrow> fileSubjectState \<Rightarrow> fileSubjectState" where
  "releaseFileSubject subject st =
     (let x = fss_subjects st ! subject;
          count = fs_refCount x - 1;
          st = st\<lparr>fss_subjects := (fss_subjects st)[subject := x\<lparr>fs_refCount := count\<rparr>]\<rparr>
      in if count = 0 then
           st\<lparr>fss_subjects := (fss_subjects st)[subject :=
                 x\<lparr>fs_refCount := count, fs_completed := True\<rparr>],
              fss_map := map_delete (fs_key x) (fss_map st)\<rparr>
         else st)"

section \<open>Properties\<close>

text \<open>The subjects of an event type, and the invariant that every list in the map has one.\<close>

definition subjectsOf :: "'h wpsState \<Rightarrow> string \<Rightarrow> 'h eventSubject list" where
  "subjectsOf st e = (case map_get (wp_subjects st) e of None \<Rightarrow> [] | Some xs \<Rightarrow> xs)"

definition wf_wps :: "'h wpsState \<Rightarrow> bool" where
  "wf_wps st \<longleftrightarrow>
     (\<forall>e xs. map_get (wp_subjects st) e = Some xs \<longrightarrow> xs \<noteq> []) \<and>
     (\<forall>e. \<forall>s \<in> set (subjectsOf st e). es_id s \<in> wp_uuids st ` {..< wp_drawn st}) \<and> inj (wp_uuids st)"

lemma updateWaveEventSub_simps [simp]:
  "wp_subjects (updateWaveEventSub e st) = wp_subjects st"
  "wp_uuids (updateWaveEventSub e st) = wp_uuids st" "wp_drawn (updateWaveEventSub e st) = wp_drawn st"
  by (simp_all add: updateWaveEventSub_def)

lemma fold_updateWaveEventSub [simp]:
  "wp_subjects (fold updateWaveEventSub es st) = wp_subjects st"
  "wp_uuids (fold updateWaveEventSub es st) = wp_uuids st"
  "wp_drawn (fold updateWaveEventSub es st) = wp_drawn st"
  by (induction es arbitrary: st) simp_all

text \<open>The containers that a list of subscriptions adds, numbered from the next identifier.\<close>

fun newSubjects :: "(nat \<Rightarrow> string) \<Rightarrow> nat \<Rightarrow> 'h eventSubscription list \<Rightarrow> string \<Rightarrow> 'h eventSubject list" where
  "newSubjects uuid n [] e = []"
| "newSubjects uuid n (s # ss) e =
     (if sub_eventType s = e
      then [\<lparr>es_id = uuid n, es_handler = the (sub_handler s), es_scope = sub_scope s\<rparr>] else []) @
     newSubjects uuid (Suc n) ss e"

fun newUnsubs :: "(nat \<Rightarrow> string) \<Rightarrow> nat \<Rightarrow> 'h eventSubscription list \<Rightarrow> eventUnsubscribe list" where
  "newUnsubs uuid n [] = []"
| "newUnsubs uuid n (s # ss) =
     \<lparr>un_id = uuid n, un_eventType = sub_eventType s\<rparr> # newUnsubs uuid (Suc n) ss"

definition wellSubscribed :: "'h eventSubscription list \<Rightarrow> bool" where
  "wellSubscribed subs \<longleftrightarrow> list_all (\<lambda>s. sub_handler s \<noteq> None) subs"

lemma subscribeLoop_spec:
  assumes "wellSubscribed subs"
  shows "\<exists>types st'. subscribeLoop subs us ts st =
      (True, us @ newUnsubs (wp_uuids st) (wp_drawn st) subs, types, st') \<and>
    (\<forall>e. subjectsOf st' e = subjectsOf st e @ newSubjects (wp_uuids st) (wp_drawn st) subs e) \<and>
    (\<forall>e. map_get (wp_subjects st') e = None \<longleftrightarrow> subjectsOf st' e = [] \<and> map_get (wp_subjects st) e = None) \<and>
    wp_uuids st' = wp_uuids st \<and> wp_drawn st' = wp_drawn st + length subs \<and> wp_sent st' = wp_sent st"
  using assms
proof (induction subs arbitrary: us ts st)
  case Nil
  then show ?case by (auto simp: subjectsOf_def split: option.splits)
next
  case (Cons s ss)
  then obtain h where h: "sub_handler s = Some h" and ws: "wellSubscribed ss"
    by (auto simp: wellSubscribed_def)
  define c where "c = \<lparr>es_id = wp_uuids st (wp_drawn st), es_handler = h, es_scope = sub_scope s\<rparr>"
  define st1 where "st1 = st\<lparr>wp_drawn := Suc (wp_drawn st),
      wp_subjects := map_set (sub_eventType s) (subjectsOf st (sub_eventType s) @ [c]) (wp_subjects st)\<rparr>"
  have st1: "subjectsOf st1 e = subjectsOf st e @ (if sub_eventType s = e then [c] else [])" for e
    by (simp add: subjectsOf_def st1_def)
  have none: "map_get (wp_subjects st1) e = None \<longleftrightarrow> sub_eventType s \<noteq> e \<and> map_get (wp_subjects st) e = None" for e
    by (auto simp: st1_def)
  obtain types st' where IH: "subscribeLoop ss (us @ [\<lparr>un_id = wp_uuids st (wp_drawn st), un_eventType = sub_eventType s\<rparr>])
        (set_add (sub_eventType s) ts) st1 =
      (True, (us @ [\<lparr>un_id = wp_uuids st (wp_drawn st), un_eventType = sub_eventType s\<rparr>]) @
        newUnsubs (wp_uuids st1) (wp_drawn st1) ss, types, st')"
    "\<forall>e. subjectsOf st' e = subjectsOf st1 e @ newSubjects (wp_uuids st1) (wp_drawn st1) ss e"
    "\<forall>e. map_get (wp_subjects st') e = None \<longleftrightarrow> subjectsOf st' e = [] \<and> map_get (wp_subjects st1) e = None"
    "wp_uuids st' = wp_uuids st1" "wp_drawn st' = wp_drawn st1 + length ss" "wp_sent st' = wp_sent st1"
    using Cons.IH [OF ws] by blast
  have fields: "wp_uuids st1 = wp_uuids st" "wp_drawn st1 = Suc (wp_drawn st)" "wp_sent st1 = wp_sent st"
    by (simp_all add: st1_def)
  have "subscribeLoop (s # ss) us ts st = subscribeLoop ss
      (us @ [\<lparr>un_id = wp_uuids st (wp_drawn st), un_eventType = sub_eventType s\<rparr>]) (set_add (sub_eventType s) ts) st1"
    by (simp add: h Let_def st1_def c_def subjectsOf_def)
  moreover have "map_get (wp_subjects st') e = None \<longleftrightarrow> subjectsOf st' e = [] \<and> map_get (wp_subjects st) e = None" for e
    using IH(2,3) none [of e] st1 [of e] by auto
  ultimately show ?case
    using IH st1 fields by (intro exI [of _ types] exI [of _ st']) (simp add: c_def h)
qed

lemma waveEventSubscribe_spec:
  assumes "wellSubscribed subs"
  shows "\<exists>st'. waveEventSubscribe subs st = (Some (newUnsubs (wp_uuids st) (wp_drawn st) subs), st') \<and>
    (\<forall>e. subjectsOf st' e = subjectsOf st e @ newSubjects (wp_uuids st) (wp_drawn st) subs e) \<and>
    (\<forall>e. map_get (wp_subjects st') e = None \<longleftrightarrow> subjectsOf st' e = [] \<and> map_get (wp_subjects st) e = None) \<and>
    wp_uuids st' = wp_uuids st \<and> wp_drawn st' = wp_drawn st + length subs"
  using subscribeLoop_spec [OF assms, of "[]" "[]" st]
  by (auto simp: waveEventSubscribe_def subjectsOf_def)

lemma handleWaveEvent_subjects:
  "handleWaveEvent ev st = map es_handler (filter (subjectMatches ev) (subjectsOf st (we_event ev)))"
  by (simp add: handleWaveEvent_def subjectsOf_def split: option.split)

text \<open>The subscriptions an event is for.\<close>

definition wantsEvent :: "waveEvent \<Rightarrow> 'h eventSubscription \<Rightarrow> bool" where
  "wantsEvent ev s \<longleftrightarrow>
     sub_eventType s = we_event ev \<and>
     (isBlank (sub_scope s) \<or>
      (case we_scopes ev of None \<Rightarrow> False | Some scopes \<Rightarrow> the (sub_scope s) \<in> set scopes))"

lemma newSubjects_handlers:
  "map es_handler (filter (subjectMatches ev) (newSubjects uuid n subs (we_event ev))) =
    map (the \<circ> sub_handler) (filter (wantsEvent ev) subs)"
  by (induction subs arbitrary: n) (auto simp: wantsEvent_def subjectMatches_def split: option.splits)

text \<open>
  After subscribing, an event runs the handlers that it ran before and then, in order, those
  of exactly the new subscriptions that ask for its type, without a scope or with one of its
  scopes.
\<close>

theorem subscribe_adds_handlers:
  assumes "wellSubscribed subs"
  shows "handleWaveEvent ev (snd (waveEventSubscribe subs st)) =
    handleWaveEvent ev st @ map (the \<circ> sub_handler) (filter (wantsEvent ev) subs)"
proof -
  obtain st' where "snd (waveEventSubscribe subs st) = st'"
    "\<forall>e. subjectsOf st' e = subjectsOf st e @ newSubjects (wp_uuids st) (wp_drawn st) subs e"
    using waveEventSubscribe_spec [OF assms, of st] by auto
  then show ?thesis
    by (simp add: handleWaveEvent_subjects newSubjects_handlers)
qed

definition demoWps :: "nat wpsState" where
  "demoWps = \<lparr>wp_subjects = [], wp_sent = [], wp_uuids = (\<lambda>k. replicate k (CHR ''u'')), wp_drawn = 0\<rparr>"

definition demoSub :: "string \<Rightarrow> nat \<Rightarrow> string option \<Rightarrow> nat eventSubscription" where
  "demoSub e h sc = \<lparr>sub_eventType = e, sub_handler = Some h, sub_scope = sc\<rparr>"

theorem subscribe_adds_handlers_witness:
  "handleWaveEvent \<lparr>we_event = ''e'', we_scopes = Some [''b''], we_data = JNull\<rparr>
      (snd (waveEventSubscribe [demoSub ''e'' 1 None, demoSub ''e'' 2 (Some ''a''), demoSub ''e'' 3 (Some ''b'')] demoWps)) =
    handleWaveEvent \<lparr>we_event = ''e'', we_scopes = Some [''b''], we_data = JNull\<rparr> demoWps @
    map (the \<circ> sub_handler) (filter (wantsEvent \<lparr>we_event = ''e'', we_scopes = Some [''b''], we_data = JNull\<rparr>)
      [demoSub ''e'' 1 None, demoSub ''e'' 2 (Some ''a''), demoSub ''e'' 3 (Some ''b'')])"
  by (rule subscribe_adds_handlers) (simp add: wellSubscribed_def demoSub_def)

lemma collectScopes_spec:
  "collectScopes ss acc =
    (if \<exists>s \<in> set ss. isBlank (es_scope s) then ([], True) else (acc @ map (the \<circ> es_scope) ss, False))"
  by (induction ss arbitrary: acc) auto

text \<open>An identifier that was not drawn yet is not in use.\<close>

lemma fresh_id:
  assumes "wf_wps st" "wp_drawn st \<le> n"
  shows "\<forall>s \<in> set (subjectsOf st e). es_id s \<noteq> wp_uuids st n"
proof
  fix s assume "s \<in> set (subjectsOf st e)"
  then have "es_id s \<in> wp_uuids st ` {..< wp_drawn st}" "inj (wp_uuids st)"
    using assms(1) unfolding wf_wps_def by blast+
  then show "es_id s \<noteq> wp_uuids st n" using assms(2) by (fastforce dest: injD)
qed

lemma unsubscribeLoop_spec:
  assumes "wf_wps st0" "wp_drawn st0 \<le> n" "\<forall>e. subjectsOf st e = subjectsOf st0 e @ newSubjects (wp_uuids st0) n subs e"
    and "\<forall>e. map_get (wp_subjects st) e = None \<longleftrightarrow> subjectsOf st e = []"
  shows "\<exists>types st'. unsubscribeLoop (newUnsubs (wp_uuids st0) n subs) ts st = (True, types, st') \<and>
    (\<forall>e. map_get (wp_subjects st') e = map_get (wp_subjects st0) e)"
  using assms(2-4)
proof (induction subs arbitrary: n ts st)
  case Nil
  have "map_get (wp_subjects st) e = map_get (wp_subjects st0) e" for e
  proof (cases "map_get (wp_subjects st0) e")
    case None
    then show ?thesis using Nil(2,3) by (simp add: subjectsOf_def)
  next
    case (Some xs)
    then have "xs \<noteq> []" using assms(1) unfolding wf_wps_def by blast
    moreover have "subjectsOf st e = xs" using Nil(2) Some by (simp add: subjectsOf_def)
    ultimately show ?thesis using Nil(3) Some by (auto simp: subjectsOf_def split: option.splits)
  qed
  then show ?case by simp
next
  case (Cons s ss)
  let ?t = "sub_eventType s"
  define c where "c = \<lparr>es_id = wp_uuids st0 n, es_handler = the (sub_handler s), es_scope = sub_scope s\<rparr>"
  define rest where "rest = newSubjects (wp_uuids st0) (Suc n) ss ?t"
  have sub: "subjectsOf st ?t = subjectsOf st0 ?t @ c # rest"
    using Cons.prems(2) by (simp add: c_def rest_def)
  then have get: "map_get (wp_subjects st) ?t = Some (subjectsOf st0 ?t @ c # rest)"
    using Cons.prems(3) by (auto simp: subjectsOf_def split: option.splits)
  have idx: "js_find_index (\<lambda>x. es_id x = wp_uuids st0 n) (subjectsOf st0 ?t @ c # rest) = int (length (subjectsOf st0 ?t))"
    by (rule js_find_index_app) (use fresh_id [OF assms(1) Cons.prems(1)] in \<open>auto simp: c_def\<close>)
  define xs where "xs = subjectsOf st0 ?t @ rest"
  define st1 where "st1 = st\<lparr>wp_subjects :=
      (if xs = [] then map_delete ?t (wp_subjects st) else map_set ?t xs (wp_subjects st))\<rparr>"
  have "unsubscribeLoop (newUnsubs (wp_uuids st0) n (s # ss)) ts st =
      unsubscribeLoop (newUnsubs (wp_uuids st0) (Suc n) ss) (set_add ?t ts) st1"
    by (simp add: get idx Let_def st1_def xs_def)
  moreover have "subjectsOf st1 e = subjectsOf st0 e @ newSubjects (wp_uuids st0) (Suc n) ss e" for e
  proof (cases "e = ?t")
    case True
    then show ?thesis by (simp add: subjectsOf_def st1_def xs_def rest_def)
  next
    case False
    then have "subjectsOf st1 e = subjectsOf st e" by (simp add: subjectsOf_def st1_def)
    with False show ?thesis using Cons.prems(2) by simp
  qed
  moreover have "map_get (wp_subjects st1) e = None \<longleftrightarrow> subjectsOf st1 e = []" for e
    using Cons.prems(3) by (auto simp: subjectsOf_def st1_def split: option.splits)
  ultimately show ?case using Cons.IH [of "Suc n" st1 "set_add ?t ts"] Cons.prems(1) by simp
qed

text \<open>
  C20: calling the function that a subscription returns takes back exactly what it registered:
  every event type has the subscriptions that it had before.
\<close>

theorem unsubscribe_undoes_subscribe:
  assumes "wf_wps st" "wellSubscribed subs"
  shows "\<exists>us st'. waveEventSubscribe subs st = (Some us, st') \<and>
    (\<forall>e. map_get (wp_subjects (waveEventUnsubscribe us st')) e = map_get (wp_subjects st) e)"
proof -
  obtain st' where st': "waveEventSubscribe subs st = (Some (newUnsubs (wp_uuids st) (wp_drawn st) subs), st')"
    "\<forall>e. subjectsOf st' e = subjectsOf st e @ newSubjects (wp_uuids st) (wp_drawn st) subs e"
    "\<forall>e. map_get (wp_subjects st') e = None \<longleftrightarrow> subjectsOf st' e = [] \<and> map_get (wp_subjects st) e = None"
    using waveEventSubscribe_spec [OF assms(2), of st] by blast
  have "map_get (wp_subjects st') e = None \<longleftrightarrow> subjectsOf st' e = []" for e
    using st'(2,3) assms(1) by (auto simp: subjectsOf_def wf_wps_def split: option.splits)
  then obtain types st'' where
    "unsubscribeLoop (newUnsubs (wp_uuids st) (wp_drawn st) subs) [] st' = (True, types, st'')"
    "\<forall>e. map_get (wp_subjects st'') e = map_get (wp_subjects st) e"
    using unsubscribeLoop_spec [OF assms(1) order_refl st'(2), of "[]"] by blast
  with st'(1) show ?thesis by (auto simp: waveEventUnsubscribe_def)
qed

theorem unsubscribe_undoes_subscribe_witness:
  "\<exists>us st'. waveEventSubscribe [demoSub ''e'' 1 None, demoSub ''f'' 2 (Some ''a''), demoSub ''e'' 3 None] demoWps =
      (Some us, st') \<and>
    (\<forall>e. map_get (wp_subjects (waveEventUnsubscribe us st')) e = map_get (wp_subjects demoWps) e)"
proof (rule unsubscribe_undoes_subscribe)
  have "inj (\<lambda>k. replicate k (CHR ''u''))" by (rule injI) (metis length_replicate)
  then show "wf_wps demoWps" by (simp add: wf_wps_def demoWps_def subjectsOf_def)
qed (simp add: wellSubscribed_def demoSub_def)

section \<open>File subjects\<close>

text \<open>
  The states a file subject table can be in: every key of the map leads to a live subject of that
  key, and a subject is counted up and not completed while the map leads to it.
\<close>

definition wf_files :: "fileSubjectState \<Rightarrow> bool" where
  "wf_files st \<longleftrightarrow>
     (\<forall>key s. map_get (fss_map st) key = Some s \<longrightarrow>
        s < length (fss_subjects st) \<and> fs_key (fss_subjects st ! s) = key \<and>
        0 < fs_refCount (fss_subjects st ! s) \<and> \<not> fs_completed (fss_subjects st ! s))"

lemma wf_files_get:
  fixes z n :: string
  assumes "wf_files st"
  defines "key \<equiv> z @ ''|'' @ n"
  shows "wf_files (snd (getFileSubject z n st))"
    and "map_get (fss_map (snd (getFileSubject z n st))) key = Some (fst (getFileSubject z n st))"
    and "map_get (fss_map st) key = Some s \<Longrightarrow> fst (getFileSubject z n st) = s"
    and "fs_refCount (fss_subjects (snd (getFileSubject z n st)) ! fst (getFileSubject z n st)) =
      (case map_get (fss_map st) key of None \<Rightarrow> 1 | Some s \<Rightarrow> fs_refCount (fss_subjects st ! s) + 1)"
proof -
  have old: "s < length (fss_subjects st)" "fs_key (fss_subjects st ! s) = k" "0 < fs_refCount (fss_subjects st ! s)"
    "\<not> fs_completed (fss_subjects st ! s)" if "map_get (fss_map st) k = Some s" for k s
    using assms(1) that unfolding wf_files_def by blast+
  have "wf_files (snd (getFileSubject z n st)) \<and>
      map_get (fss_map (snd (getFileSubject z n st))) key = Some (fst (getFileSubject z n st)) \<and>
      (map_get (fss_map st) key = Some s \<longrightarrow> fst (getFileSubject z n st) = s) \<and>
      fs_refCount (fss_subjects (snd (getFileSubject z n st)) ! fst (getFileSubject z n st)) =
        (case map_get (fss_map st) key of None \<Rightarrow> 1 | Some s \<Rightarrow> fs_refCount (fss_subjects st ! s) + 1)"
  proof (cases "map_get (fss_map st) key")
    case None
    define x where "x = \<lparr>fs_key = key, fs_refCount = 1, fs_completed = False\<rparr>"
    have get: "getFileSubject z n st = (length (fss_subjects st),
        st\<lparr>fss_subjects := fss_subjects st @ [x], fss_map := map_set key (length (fss_subjects st)) (fss_map st)\<rparr>)"
      using None by (simp add: getFileSubject_def key_def x_def Let_def)
    have "wf_files (st\<lparr>fss_subjects := fss_subjects st @ [x], fss_map := map_set key (length (fss_subjects st)) (fss_map st)\<rparr>)"
      unfolding wf_files_def using old by (simp add: nth_append x_def less_Suc_eq)
    then show ?thesis using None by (simp add: get x_def)
  next
    case (Some r)
    define x where "x = (fss_subjects st ! r)\<lparr>fs_refCount := fs_refCount (fss_subjects st ! r) + 1\<rparr>"
    have get: "getFileSubject z n st = (r, st\<lparr>fss_subjects := (fss_subjects st)[r := x]\<rparr>)"
      using Some by (simp add: getFileSubject_def key_def x_def Let_def)
    have r: "fs_key x = key" "0 < fs_refCount x" "\<not> fs_completed x" "r < length (fss_subjects st)"
      using old [OF Some] by (simp_all add: x_def)
    have "fs_key (fss_subjects st ! r) = key" using old [OF Some] by simp
    then have "k = key" if "map_get (fss_map st) k = Some r" for k using old [OF that] by simp
    then have "wf_files (st\<lparr>fss_subjects := (fss_subjects st)[r := x]\<rparr>)"
      unfolding wf_files_def using old r by (auto simp: nth_list_update)
    then show ?thesis using Some r by (simp add: get x_def)
  qed
  then show "wf_files (snd (getFileSubject z n st))"
    and "map_get (fss_map (snd (getFileSubject z n st))) key = Some (fst (getFileSubject z n st))"
    and "map_get (fss_map st) key = Some s \<Longrightarrow> fst (getFileSubject z n st) = s"
    and "fs_refCount (fss_subjects (snd (getFileSubject z n st)) ! fst (getFileSubject z n st)) =
      (case map_get (fss_map st) key of None \<Rightarrow> 1 | Some s \<Rightarrow> fs_refCount (fss_subjects st ! s) + 1)"
    by blast+
qed

lemma wf_files_release:
  assumes "wf_files st" "map_get (fss_map st) key = Some s"
  defines "st' \<equiv> releaseFileSubject s st" and "c \<equiv> fs_refCount (fss_subjects st ! s)"
  shows "wf_files st'"
    and "map_get (fss_map st') j = (if j = key \<and> c = 1 then None else map_get (fss_map st) j)"
    and "fs_refCount (fss_subjects st' ! s) = c - 1"
    and "fs_completed (fss_subjects st' ! s) \<longleftrightarrow> c = 1"
proof -
  have old: "s < length (fss_subjects st)" "fs_key (fss_subjects st ! s) = k" "0 < fs_refCount (fss_subjects st ! s)"
    "\<not> fs_completed (fss_subjects st ! s)" if "map_get (fss_map st) k = Some s" for k s
    using assms(1) that unfolding wf_files_def by blast+
  note s = old [OF assms(2)]
  have only: "k = key" if "map_get (fss_map st) k = Some s" for k
    using old [OF that] s(2) by simp
  show "wf_files st'"
    unfolding wf_files_def st'_def releaseFileSubject_def Let_def
    using old only s by (auto simp: nth_list_update split: if_splits)
  show "map_get (fss_map st') j = (if j = key \<and> c = 1 then None else map_get (fss_map st) j)"
    by (simp add: st'_def releaseFileSubject_def c_def s(2) Let_def)
  show "fs_refCount (fss_subjects st' ! s) = c - 1" "fs_completed (fss_subjects st' ! s) \<longleftrightarrow> c = 1"
    using s by (simp_all add: st'_def releaseFileSubject_def c_def Let_def)
qed

text \<open>The same key asked for and released a number of times.\<close>

primrec getTimes :: "nat \<Rightarrow> string \<Rightarrow> string \<Rightarrow> fileSubjectState \<Rightarrow> fileSubjectState" where
  "getTimes 0 z n st = st"
| "getTimes (Suc k) z n st = snd (getFileSubject z n (getTimes k z n st))"

primrec releaseTimes :: "nat \<Rightarrow> nat \<Rightarrow> fileSubjectState \<Rightarrow> fileSubjectState" where
  "releaseTimes 0 s st = st"
| "releaseTimes (Suc k) s st = releaseFileSubject s (releaseTimes k s st)"

lemma getTimes_spec:
  assumes "wf_files st" "map_get (fss_map st) (z @ ''|'' @ n) = None" "0 < k"
  shows "wf_files (getTimes k z n st) \<and>
    (\<exists>s. map_get (fss_map (getTimes k z n st)) (z @ ''|'' @ n) = Some s \<and>
      fs_refCount (fss_subjects (getTimes k z n st) ! s) = int k)"
  using assms(3)
proof (induction k)
  case (Suc k)
  show ?case
  proof (cases k)
    case 0
    then show ?thesis using wf_files_get [OF assms(1), of z n] assms(2) by simp
  next
    case (Suc k')
    with Suc.IH obtain s where "wf_files (getTimes k z n st)"
      "map_get (fss_map (getTimes k z n st)) (z @ ''|'' @ n) = Some s"
      "fs_refCount (fss_subjects (getTimes k z n st) ! s) = int k" by auto
    then show ?thesis using wf_files_get [of "getTimes k z n st" z n] by simp
  qed
qed simp

lemma releaseTimes_spec:
  assumes "wf_files st" "map_get (fss_map st) key = Some s" "fs_refCount (fss_subjects st ! s) = int k" "m < k"
  shows "wf_files (releaseTimes m s st) \<and> map_get (fss_map (releaseTimes m s st)) key = Some s \<and>
    fs_refCount (fss_subjects (releaseTimes m s st) ! s) = int (k - m)"
  using assms(4)
proof (induction m)
  case (Suc m)
  then have IH: "wf_files (releaseTimes m s st)" "map_get (fss_map (releaseTimes m s st)) key = Some s"
    "fs_refCount (fss_subjects (releaseTimes m s st) ! s) = int (k - m)" by auto
  have "int (k - m) \<noteq> 1" using Suc.prems by simp
  then show ?case using wf_files_release [OF IH(1,2)] IH Suc.prems by (simp add: of_nat_diff)
qed (use assms in simp)

text \<open>
  A file subject that was asked for some number of times under a key is kept under that key
  until it has been released as often, and is completed and forgotten by the last release.
\<close>

theorem file_subject_lives_until_last_release:
  assumes "wf_files st" "map_get (fss_map st) (z @ ''|'' @ n) = None" "0 < k"
  shows "\<exists>s. map_get (fss_map (getTimes k z n st)) (z @ ''|'' @ n) = Some s \<and>
    (\<forall>m < k. map_get (fss_map (releaseTimes m s (getTimes k z n st))) (z @ ''|'' @ n) = Some s \<and>
      \<not> fs_completed (fss_subjects (releaseTimes m s (getTimes k z n st)) ! s)) \<and>
    map_get (fss_map (releaseTimes k s (getTimes k z n st))) (z @ ''|'' @ n) = None \<and>
    fs_completed (fss_subjects (releaseTimes k s (getTimes k z n st)) ! s)"
proof -
  let ?st = "getTimes k z n st" and ?key = "z @ ''|'' @ n"
  obtain s where s: "wf_files ?st" "map_get (fss_map ?st) ?key = Some s" "fs_refCount (fss_subjects ?st ! s) = int k"
    using getTimes_spec [OF assms] by blast
  have held: "map_get (fss_map (releaseTimes m s ?st)) ?key = Some s \<and>
      \<not> fs_completed (fss_subjects (releaseTimes m s ?st) ! s)" if "m < k" for m
    using releaseTimes_spec [OF s that] by (auto simp: wf_files_def)
  obtain k' where k: "k = Suc k'" using assms(3) by (cases k) auto
  have last: "wf_files (releaseTimes k' s ?st)" "map_get (fss_map (releaseTimes k' s ?st)) ?key = Some s"
    "fs_refCount (fss_subjects (releaseTimes k' s ?st) ! s) = 1"
    using releaseTimes_spec [OF s, of k'] k by simp_all
  have "releaseTimes k s ?st = releaseFileSubject s (releaseTimes k' s ?st)"
    unfolding k by simp
  then show ?thesis using held s(2) wf_files_release [OF last(1,2)] last(3) by auto
qed

theorem file_subject_lives_until_last_release_witness:
  "\<exists>s. map_get (fss_map (getTimes 2 ''z'' ''f'' \<lparr>fss_map = [], fss_subjects = []\<rparr>)) (''z'' @ ''|'' @ ''f'') = Some s \<and>
    (\<forall>m < 2. map_get (fss_map (releaseTimes m s (getTimes 2 ''z'' ''f'' \<lparr>fss_map = [], fss_subjects = []\<rparr>))) (''z'' @ ''|'' @ ''f'') = Some s \<and>
      \<not> fs_completed (fss_subjects (releaseTimes m s (getTimes 2 ''z'' ''f'' \<lparr>fss_map = [], fss_subjects = []\<rparr>)) ! s)) \<and>
    map_get (fss_map (releaseTimes 2 s (getTimes 2 ''z'' ''f'' \<lparr>fss_map = [], fss_subjects = []\<rparr>))) (''z'' @ ''|'' @ ''f'') = None \<and>
    fs_completed (fss_subjects (releaseTimes 2 s (getTimes 2 ''z'' ''f'' \<lparr>fss_map = [], fss_subjects = []\<rparr>)) ! s)"
  by (rule file_subject_lives_until_last_release) (simp_all add: wf_files_def)

end
