(* ===== verification/RefCount.thy ===== *)
theory RefCount
  imports Prelude
begin

text \<open>
  The interface of the tables that count references: an operation changes the count of an entry
  by its weight, and keeps the entry while the count stays positive. The file subjects and the
  cache of the object store are the two tables of the program.
\<close>

text \<open>A count that is positive now and after each of a sequence of changes.\<close>

primrec staysPositive :: "int \<Rightarrow> int list \<Rightarrow> bool" where
  "staysPositive c [] \<longleftrightarrow> 0 < c"
| "staysPositive c (w # ws) \<longleftrightarrow> 0 < c \<and> staysPositive (c + w) ws"

lemma staysPositive_now: "staysPositive c ws \<Longrightarrow> 0 < c"
  by (cases ws) simp_all

locale ref_counted =
  fixes wf :: "'s \<Rightarrow> bool"
    and step :: "'o \<Rightarrow> 's \<Rightarrow> 's"
    and kept :: "'r \<Rightarrow> 's \<Rightarrow> bool"
    and refs :: "'r \<Rightarrow> 's \<Rightarrow> int"
    and weight :: "'r \<Rightarrow> 'o \<Rightarrow> int"
  assumes wf_step: "wf s \<Longrightarrow> wf (step act s)"
    and kept_step: "wf s \<Longrightarrow> kept r s \<Longrightarrow> 0 < refs r s \<Longrightarrow> 0 < refs r s + weight r act \<Longrightarrow>
      kept r (step act s)"
    and refs_step: "wf s \<Longrightarrow> kept r s \<Longrightarrow> refs r (step act s) = refs r s + weight r act"
begin

lemma wf_run: "wf s \<Longrightarrow> wf (fold step acts s)"
  by (induction acts arbitrary: s) (simp_all add: wf_step)

text \<open>An entry is kept by every run in which its references outnumber its releases throughout.\<close>

lemma held:
  assumes "wf s" "kept r s" "staysPositive (refs r s) (map (weight r) acts)"
  shows "kept r (fold step acts s) \<and>
    refs r (fold step acts s) = refs r s + (\<Sum>act\<leftarrow>acts. weight r act)"
  using assms
proof (induction acts arbitrary: s)
  case (Cons act acts)
  then have "0 < refs r s" "staysPositive (refs r s + weight r act) (map (weight r) acts)" by simp_all
  then have "kept r (step act s)" "staysPositive (refs r (step act s)) (map (weight r) acts)"
    using kept_step [of s r act] refs_step [of s r act] Cons.prems by (auto dest: staysPositive_now)
  with Cons.IH [OF wf_step [OF Cons.prems(1), of act]] show ?case
    using refs_step [OF Cons.prems(1,2), of act] by simp
qed simp

end

end
