(* ===== verification/FileSubjects.thy ===== *)
theory FileSubjects
  imports Wps RefCount
begin

text \<open>
  The file subjects of wps.ts as a table of reference counts: any interleaving of asking for
  subjects, of any files, and releasing them.
\<close>

datatype fileOp = GetFile string string | ReleaseFile nat

text \<open>A subject is released by whom it was handed to, so only existing ones are.\<close>

fun fileStep :: "fileOp \<Rightarrow> fileSubjectState \<Rightarrow> fileSubjectState" where
  "fileStep (GetFile z n) st = snd (getFileSubject z n st)"
| "fileStep (ReleaseFile s) st = (if s < length (fss_subjects st) then releaseFileSubject s st else st)"

text \<open>The invariant of the table, with the converse: a counted subject is in the map.\<close>

definition wf_subjects :: "fileSubjectState \<Rightarrow> bool" where
  "wf_subjects st \<longleftrightarrow> wf_files st \<and>
     (\<forall>s < length (fss_subjects st). 0 < fs_refCount (fss_subjects st ! s) \<longrightarrow>
        map_get (fss_map st) (fs_key (fss_subjects st ! s)) = Some s)"

fun subjectKept :: "string \<times> nat \<Rightarrow> fileSubjectState \<Rightarrow> bool" where
  "subjectKept (key, s) st \<longleftrightarrow> map_get (fss_map st) key = Some s"

fun subjectRefs :: "string \<times> nat \<Rightarrow> fileSubjectState \<Rightarrow> int" where
  "subjectRefs (key, s) st = fs_refCount (fss_subjects st ! s)"

fun subjectWeight :: "string \<times> nat \<Rightarrow> fileOp \<Rightarrow> int" where
  "subjectWeight (key, s) (GetFile z n) = (if z @ ''|'' @ n = key then 1 else 0)"
| "subjectWeight (key, s) (ReleaseFile s') = (if s' = s then -1 else 0)"

text \<open>The three cases of the operations, as updates of the table.\<close>

lemma getFileSubject_new:
  assumes "map_get (fss_map st) (z @ ''|'' @ n) = None"
  shows "getFileSubject z n st = (length (fss_subjects st),
    st\<lparr>fss_subjects := fss_subjects st @ [\<lparr>fs_key = z @ ''|'' @ n, fs_refCount = 1, fs_completed = False\<rparr>],
       fss_map := map_set (z @ ''|'' @ n) (length (fss_subjects st)) (fss_map st)\<rparr>)"
  using assms by (simp add: getFileSubject_def Let_def)

lemma getFileSubject_old:
  assumes "map_get (fss_map st) (z @ ''|'' @ n) = Some s"
  shows "getFileSubject z n st = (s,
    st\<lparr>fss_subjects := (fss_subjects st)[s := (fss_subjects st ! s)\<lparr>fs_refCount := fs_refCount (fss_subjects st ! s) + 1\<rparr>]\<rparr>)"
  using assms by (simp add: getFileSubject_def Let_def)

lemma wf_subjectsD:
  assumes "wf_subjects st" "map_get (fss_map st) key = Some s"
  shows "s < length (fss_subjects st)" "fs_key (fss_subjects st ! s) = key"
    "0 < fs_refCount (fss_subjects st ! s)" "\<not> fs_completed (fss_subjects st ! s)"
  using assms by (auto simp: wf_subjects_def wf_files_def)

lemma wf_subjects_get: 
  assumes "wf_subjects st" shows "wf_subjects (snd (getFileSubject z n st))"
proof (cases "map_get (fss_map st) (z @ ''|'' @ n)")
  case None
  have "wf_files (snd (getFileSubject z n st))"
    using wf_files_get(1) assms by (simp add: wf_subjects_def)
  moreover have "fs_key (fss_subjects st ! s) \<noteq> z @ ''|'' @ n"
    if b: "s < length (fss_subjects st)" "0 < fs_refCount (fss_subjects st ! s)" for s
    using assms b None unfolding wf_subjects_def by (metis option.distinct(1))
  ultimately show ?thesis
    using assms by (auto simp: wf_subjects_def getFileSubject_new [OF None] nth_append less_Suc_eq)
next
  case (Some r)
  have "wf_files (snd (getFileSubject z n st))"
    using wf_files_get(1) assms by (simp add: wf_subjects_def)
  then show ?thesis
    using assms wf_subjectsD [OF assms Some] Some
    by (auto simp: wf_subjects_def getFileSubject_old [OF Some] nth_list_update)
qed

lemma releaseFileSubject_cases:
  "releaseFileSubject s st =
    (let c = fs_refCount (fss_subjects st ! s) - 1; x = (fss_subjects st ! s)\<lparr>fs_refCount := c\<rparr> in
     if c = 0 then st\<lparr>fss_subjects := (fss_subjects st)[s := x\<lparr>fs_completed := True\<rparr>],
                      fss_map := map_delete (fs_key (fss_subjects st ! s)) (fss_map st)\<rparr>
     else st\<lparr>fss_subjects := (fss_subjects st)[s := x]\<rparr>)"
  by (simp add: releaseFileSubject_def Let_def)

lemma wf_subjects_release:
  assumes "wf_subjects st" "s < length (fss_subjects st)"
  shows "wf_subjects (releaseFileSubject s st)"
proof (cases "0 < fs_refCount (fss_subjects st ! s)")
  case True
  then have m: "map_get (fss_map st) (fs_key (fss_subjects st ! s)) = Some s"
    using assms by (simp add: wf_subjects_def)
  have "wf_files (releaseFileSubject s st)"
    using wf_files_release(1) [OF _ m] assms by (simp add: wf_subjects_def)
  moreover have "fs_key (fss_subjects st ! r) \<noteq> fs_key (fss_subjects st ! s)"
    if b: "r < length (fss_subjects st)" "0 < fs_refCount (fss_subjects st ! r)" "r \<noteq> s" for r
    using assms(1) b m unfolding wf_subjects_def by (metis option.inject)
  ultimately show ?thesis
    using assms by (auto simp: wf_subjects_def releaseFileSubject_cases nth_list_update Let_def)
next
  case False
  then have "map_get (fss_map st) key \<noteq> Some s" for key
    using wf_subjectsD(3) [OF assms(1)] by blast
  with False assms show ?thesis
    by (auto simp: wf_subjects_def wf_files_def releaseFileSubject_cases nth_list_update Let_def)
qed

lemma refs_get:
  assumes "wf_subjects st" "map_get (fss_map st) key = Some s"
  shows "fs_refCount (fss_subjects (snd (getFileSubject z n st)) ! s) =
    fs_refCount (fss_subjects st ! s) + (if z @ ''|'' @ n = key then 1 else 0)"
proof (cases "map_get (fss_map st) (z @ ''|'' @ n)")
  case None
  have "z @ ''|'' @ n \<noteq> key" using None assms(2) by (metis option.distinct(1))
  then show ?thesis
    using wf_subjectsD(1) [OF assms] by (simp add: getFileSubject_new [OF None] nth_append)
next
  case (Some r)
  have "r = s \<longleftrightarrow> z @ ''|'' @ n = key"
    using wf_subjectsD(2) [OF assms(1)] Some assms(2) by (metis option.inject)
  moreover have "r < length (fss_subjects st)" using wf_subjectsD(1) [OF assms(1) Some] .
  ultimately show ?thesis by (auto simp: getFileSubject_old [OF Some])
qed

interpretation file_subjects: ref_counted wf_subjects fileStep subjectKept subjectRefs subjectWeight
proof unfold_locales
  show "wf_subjects (fileStep act st)" if "wf_subjects st" for st act
    using that by (cases act) (auto simp: wf_subjects_get wf_subjects_release)
  show "subjectKept r (fileStep act st)"
    if a: "wf_subjects st" "subjectKept r st" "0 < subjectRefs r st" "0 < subjectRefs r st + subjectWeight r act"
    for st r act
  proof -
    obtain key s where r: "r = (key, s)" by (cases r)
    note d = wf_subjectsD [OF a(1), of key s]
    show ?thesis
    proof (cases act)
      case (GetFile z n)
      then show ?thesis using a r
        by (cases "map_get (fss_map st) (z @ ''|'' @ n)") (auto simp: getFileSubject_new getFileSubject_old)
    next
      case (ReleaseFile s')
      have "fs_key (fss_subjects st ! s') \<noteq> key" if b: "s' \<noteq> s" "fs_refCount (fss_subjects st ! s') = 1" "s' < length (fss_subjects st)"
        using a(1,2) b r unfolding wf_subjects_def by auto
      with ReleaseFile a d show ?thesis by (auto simp: r releaseFileSubject_cases Let_def split: if_splits)
    qed
  qed
  show "subjectRefs r (fileStep act st) = subjectRefs r st + subjectWeight r act"
    if a: "wf_subjects st" "subjectKept r st" for st r act
  proof -
    obtain key s where r: "r = (key, s)" by (cases r)
    note d = wf_subjectsD [OF a(1), of key s]
    show ?thesis
    proof (cases act)
      case (GetFile z n)
      then show ?thesis using refs_get [OF a(1)] a(2) r by simp
    next
      case (ReleaseFile s')
      with a d show ?thesis by (auto simp: r releaseFileSubject_cases nth_list_update Let_def)
    qed
  qed
qed

text \<open>
  C21: whatever subjects are asked for and released in between, a subject stays under its key and
  is not completed as long as it was asked for more often than released at every moment, and a
  request for its key gets it.
\<close>

theorem referenced_file_subject_is_live:
  assumes "wf_subjects st" "map_get (fss_map st) (z @ ''|'' @ n) = Some s"
    and "staysPositive (fs_refCount (fss_subjects st ! s)) (map (subjectWeight (z @ ''|'' @ n, s)) acts)"
  shows "fst (getFileSubject z n (fold fileStep acts st)) = s \<and>
    \<not> fs_completed (fss_subjects (fold fileStep acts st) ! s) \<and>
    fs_refCount (fss_subjects (fold fileStep acts st) ! s) =
      fs_refCount (fss_subjects st ! s) + (\<Sum>act\<leftarrow>acts. subjectWeight (z @ ''|'' @ n, s) act)"
proof -
  have "map_get (fss_map (fold fileStep acts st)) (z @ ''|'' @ n) = Some s \<and>
    fs_refCount (fss_subjects (fold fileStep acts st) ! s) =
      fs_refCount (fss_subjects st ! s) + (\<Sum>act\<leftarrow>acts. subjectWeight (z @ ''|'' @ n, s) act)"
    using file_subjects.held [of st "(z @ ''|'' @ n, s)" acts] assms by simp
  then show ?thesis
    using wf_subjectsD(4) [OF file_subjects.wf_run [OF assms(1), of acts], of "z @ ''|'' @ n" s]
    by (simp add: getFileSubject_old)
qed

theorem referenced_file_subject_is_live_witness:
  "let st = \<lparr>fss_map = [(''z|f'', 0)], fss_subjects = [\<lparr>fs_key = ''z|f'', fs_refCount = 1, fs_completed = False\<rparr>]\<rparr>;
       acts = [GetFile ''z'' ''g'', GetFile ''z'' ''f'', ReleaseFile 1, ReleaseFile 0] in
   fst (getFileSubject ''z'' ''f'' (fold fileStep acts st)) = 0"
  unfolding Let_def
  by (rule referenced_file_subject_is_live [THEN conjunct1])
    (auto simp: wf_subjects_def wf_files_def map_get_def split: if_splits)

end
