(* ===== verification/Broker.thy ===== *)
theory Broker
  imports Wps
begin

text \<open>
  The broker of the backend (pkg/wps/wps.go, with StarMatchString of pkg/util/utilfn/utilfn.go) that
  the subscription commands of a window go to (pkg/wshrpc/wshserver/wshserver.go): its subscriptions by
  event, and to which routes it sends an event. With the client in \<open>Wps\<close> it makes the path of an event
  from the backend to a handler. A Go map is kept as a list of its entries; where the code ranges over
  one, the order does not matter.
\<close>

section \<open>Slices and scopes\<close>

definition RemoveElemFromSlice :: "'a list \<Rightarrow> 'a \<Rightarrow> 'a list" where
  "RemoveElemFromSlice arr x = remove1 x arr"

definition AddElemToSliceUniq :: "'a list \<Rightarrow> 'a \<Rightarrow> 'a list" where
  "AddElemToSliceUniq arr x = (if x \<in> set arr then arr else arr @ [x])"

definition scopeHasStarMatch :: "string \<Rightarrow> bool" where
  "scopeHasStarMatch scope \<longleftrightarrow> list_ex (\<lambda>part. part = ''*'' \<or> part = ''**'') (js_split (CHR '':'') scope)"

text \<open>The loop over the parts of a pattern.\<close>

fun starMatchParts :: "string list \<Rightarrow> string list \<Rightarrow> bool" where
  "starMatchParts [] ss = (ss = [])"
| "starMatchParts (p # ps) ss =
     (if p = ''**'' then ps = []
      else case ss of
        [] \<Rightarrow> False
      | s # ss \<Rightarrow> if p \<noteq> ''*'' \<and> p \<noteq> s then False else starMatchParts ps ss)"

definition StarMatchString :: "string \<Rightarrow> string \<Rightarrow> char \<Rightarrow> bool" where
  "StarMatchString pattern s delimiter = starMatchParts (js_split delimiter pattern) (js_split delimiter s)"

section \<open>Subscriptions\<close>

type_synonym scopeMap = "(string, string list) js_map"

record brokerSubscription =
  bs_AllSubs :: "string list"
  bs_ScopeSubs :: scopeMap
  bs_StarSubs :: scopeMap

record broker =
  br_SubMap :: "(string, brokerSubscription) js_map"

definition scopeRoutes :: "scopeMap \<Rightarrow> string \<Rightarrow> string list" where
  "scopeRoutes m scope = (case map_get m scope of None \<Rightarrow> [] | Some rs \<Rightarrow> rs)"

definition IsEmpty :: "brokerSubscription \<Rightarrow> bool" where
  "IsEmpty bs \<longleftrightarrow> bs_AllSubs bs = [] \<and> bs_ScopeSubs bs = [] \<and> bs_StarSubs bs = []"

definition removeStrFromScopeMap :: "string \<Rightarrow> string \<Rightarrow> scopeMap \<Rightarrow> scopeMap" where
  "removeStrFromScopeMap routeId scope m =
     (let scopeSubs = RemoveElemFromSlice (scopeRoutes m scope) routeId in
      if scopeSubs = [] then map_delete scope m else map_set scope scopeSubs m)"

definition addStrToScopeMap :: "string \<Rightarrow> string \<Rightarrow> scopeMap \<Rightarrow> scopeMap" where
  "addStrToScopeMap routeId scope m = map_set scope (AddElemToSliceUniq (scopeRoutes m scope) routeId) m"

definition unsubscribe_nolock :: "string \<Rightarrow> string \<Rightarrow> broker \<Rightarrow> broker" where
  "unsubscribe_nolock subRouteId eventName b =
     (case map_get (br_SubMap b) eventName of
        None \<Rightarrow> b
      | Some bs \<Rightarrow>
          let bs = \<lparr>bs_AllSubs = RemoveElemFromSlice (bs_AllSubs bs) subRouteId,
                    bs_ScopeSubs = fold (removeStrFromScopeMap subRouteId) (map fst (bs_ScopeSubs bs)) (bs_ScopeSubs bs),
                    bs_StarSubs = fold (removeStrFromScopeMap subRouteId) (map fst (bs_StarSubs bs)) (bs_StarSubs bs)\<rparr>
          in b\<lparr>br_SubMap := (if IsEmpty bs then map_delete eventName (br_SubMap b)
                              else map_set eventName bs (br_SubMap b))\<rparr>)"

definition addScope :: "string \<Rightarrow> string \<Rightarrow> brokerSubscription \<Rightarrow> brokerSubscription" where
  "addScope subRouteId scope bs =
     (if scopeHasStarMatch scope then bs\<lparr>bs_StarSubs := addStrToScopeMap subRouteId scope (bs_StarSubs bs)\<rparr>
      else bs\<lparr>bs_ScopeSubs := addStrToScopeMap subRouteId scope (bs_ScopeSubs bs)\<rparr>)"

definition brokerSubscribe :: "string \<Rightarrow> subscriptionRequest \<Rightarrow> broker \<Rightarrow> broker" where
  "brokerSubscribe subRouteId sub b =
     (if sr_event sub = [] then b
      else
        let b = unsubscribe_nolock subRouteId (sr_event sub) b;
            bs = (case map_get (br_SubMap b) (sr_event sub) of
                    None \<Rightarrow> \<lparr>bs_AllSubs = [], bs_ScopeSubs = [], bs_StarSubs = []\<rparr>
                  | Some bs \<Rightarrow> bs);
            bs = (if sr_allscopes sub then bs\<lparr>bs_AllSubs := AddElemToSliceUniq (bs_AllSubs bs) subRouteId\<rparr>
                  else fold (addScope subRouteId) (sr_scopes sub) bs)
        in b\<lparr>br_SubMap := map_set (sr_event sub) bs (br_SubMap b)\<rparr>)"

text \<open>The handlers of the commands: the route is the source of the message.\<close>

fun eventCommand :: "string \<Rightarrow> subCommand \<Rightarrow> broker \<Rightarrow> broker" where
  "eventCommand rpcSource (EventSub data) b = (if rpcSource = [] then b else brokerSubscribe rpcSource data b)"
| "eventCommand rpcSource (EventUnsub e) b = (if rpcSource = [] then b else unsubscribe_nolock rpcSource e b)"

section \<open>Events\<close>

definition eventScopes :: "waveEvent \<Rightarrow> string list" where
  "eventScopes ev = (case we_scopes ev of None \<Rightarrow> [] | Some scopes \<Rightarrow> scopes)"

definition getMatchingRouteIds :: "waveEvent \<Rightarrow> broker \<Rightarrow> string list" where
  "getMatchingRouteIds ev b =
     (case map_get (br_SubMap b) (we_event ev) of
        None \<Rightarrow> []
      | Some bs \<Rightarrow>
          remdups (bs_AllSubs bs @
            concat (map (\<lambda>scope.
              scopeRoutes (bs_ScopeSubs bs) scope @
              concat (map (\<lambda>starScope. if StarMatchString starScope scope (CHR '':'')
                                        then scopeRoutes (bs_StarSubs bs) starScope else [])
                          (map fst (bs_StarSubs bs))))
              (eventScopes ev))))"

section \<open>What a route is subscribed to\<close>

text \<open>Whether a route is among the routes that a subscription has for a scope of the given kind.\<close>

datatype subKind = AllSub | ScopeSub string | StarSub string

fun inSub :: "string \<Rightarrow> subKind \<Rightarrow> brokerSubscription \<Rightarrow> bool" where
  "inSub r AllSub bs \<longleftrightarrow> r \<in> set (bs_AllSubs bs)"
| "inSub r (ScopeSub s) bs \<longleftrightarrow> r \<in> set (scopeRoutes (bs_ScopeSubs bs) s)"
| "inSub r (StarSub s) bs \<longleftrightarrow> r \<in> set (scopeRoutes (bs_StarSubs bs) s)"

definition subscribed :: "string \<Rightarrow> string \<Rightarrow> subKind \<Rightarrow> broker \<Rightarrow> bool" where
  "subscribed r e k b \<longleftrightarrow> (case map_get (br_SubMap b) e of None \<Rightarrow> False | Some bs \<Rightarrow> inSub r k bs)"

lemma scopeRoutes_key: "r \<in> set (scopeRoutes m s) \<Longrightarrow> s \<in> set (map fst m)"
  using map_get_None_iff [of m s] by (auto simp: scopeRoutes_def split: option.splits)

lemma matching_subscribed:
  "r \<in> set (getMatchingRouteIds ev b) \<longleftrightarrow> subscribed r (we_event ev) AllSub b \<or>
    (\<exists>s \<in> set (eventScopes ev). subscribed r (we_event ev) (ScopeSub s) b \<or>
       (\<exists>p. StarMatchString p s (CHR '':'') \<and> subscribed r (we_event ev) (StarSub p) b))"
proof (cases "map_get (br_SubMap b) (we_event ev)")
  case (Some bs)
  have "(\<exists>p \<in> fst ` set (bs_StarSubs bs). StarMatchString p s (CHR '':'') \<and> r \<in> set (scopeRoutes (bs_StarSubs bs) p)) \<longleftrightarrow>
      (\<exists>p. StarMatchString p s (CHR '':'') \<and> r \<in> set (scopeRoutes (bs_StarSubs bs) p))" for s
    using scopeRoutes_key [of r "bs_StarSubs bs"] by auto
  then show ?thesis
    by (simp add: getMatchingRouteIds_def subscribed_def Some if_distrib [of set] image_iff) 
      (auto split: if_splits)
qed (simp add: getMatchingRouteIds_def subscribed_def)

text \<open>No route is twice in a list.\<close>

definition wf_scopes :: "scopeMap \<Rightarrow> bool" where
  "wf_scopes m \<longleftrightarrow> (\<forall>s. distinct (scopeRoutes m s))"

definition wf_sub :: "brokerSubscription \<Rightarrow> bool" where
  "wf_sub bs \<longleftrightarrow> distinct (bs_AllSubs bs) \<and> wf_scopes (bs_ScopeSubs bs) \<and> wf_scopes (bs_StarSubs bs)"

definition wf_broker :: "broker \<Rightarrow> bool" where
  "wf_broker b \<longleftrightarrow> (\<forall>e bs. map_get (br_SubMap b) e = Some bs \<longrightarrow> wf_sub bs)"

lemma scopeRoutes_Nil [simp]: "scopeRoutes [] s = []"
  by (simp add: scopeRoutes_def)

lemma scopeRoutes_remove:
  "scopeRoutes (removeStrFromScopeMap r s m) s' = (if s' = s then remove1 r (scopeRoutes m s) else scopeRoutes m s')"
  by (auto simp: removeStrFromScopeMap_def RemoveElemFromSlice_def Let_def scopeRoutes_def)

lemma scopeRoutes_add:
  "scopeRoutes (addStrToScopeMap r s m) s' =
    (if s' = s then AddElemToSliceUniq (scopeRoutes m s) r else scopeRoutes m s')"
  by (auto simp: addStrToScopeMap_def scopeRoutes_def)

lemma set_AddElem [simp]: "set (AddElemToSliceUniq arr x) = insert x (set arr)"
  by (auto simp: AddElemToSliceUniq_def)

lemma distinct_AddElem [simp]: "distinct arr \<Longrightarrow> distinct (AddElemToSliceUniq arr x)"
  by (simp add: AddElemToSliceUniq_def)

lemma wf_remove: "wf_scopes m \<Longrightarrow> wf_scopes (removeStrFromScopeMap r s m)"
  by (simp add: wf_scopes_def scopeRoutes_remove)

lemma removeAll_scopes:
  "wf_scopes m \<Longrightarrow> wf_scopes (fold (removeStrFromScopeMap r) ks m) \<and>
    set (scopeRoutes (fold (removeStrFromScopeMap r) ks m) s) =
      set (scopeRoutes m s) - (if s \<in> set ks then {r} else {})"
proof (induction ks arbitrary: m)
  case (Cons k ks)
  then have "distinct (scopeRoutes m s)" by (simp add: wf_scopes_def)
  then show ?case using Cons.IH [OF wf_remove [OF Cons.prems]] by (auto simp: scopeRoutes_remove)
qed simp

lemma removeAll_keys:
  assumes "wf_scopes m"
  shows "r' \<in> set (scopeRoutes (fold (removeStrFromScopeMap r) (map fst m) m) s) \<longleftrightarrow>
    r' \<in> set (scopeRoutes m s) \<and> r' \<noteq> r"
  using removeAll_scopes [OF assms, of r "map fst m" s] scopeRoutes_key [of r' m s] by auto

lemma subscribed_set:
  "subscribed r e k (b\<lparr>br_SubMap := map_set e' bs (br_SubMap b)\<rparr>) \<longleftrightarrow> (if e = e' then inSub r k bs else subscribed r e k b)"
  by (simp add: subscribed_def)

lemma wf_broker_set: "wf_broker b \<Longrightarrow> wf_sub bs \<Longrightarrow> wf_broker (b\<lparr>br_SubMap := map_set e bs (br_SubMap b)\<rparr>)"
  by (simp add: wf_broker_def)

lemma unsubscribed:
  assumes "wf_broker b"
  shows "wf_broker (unsubscribe_nolock r e b)"
    "subscribed r' e' k (unsubscribe_nolock r e b) \<longleftrightarrow> subscribed r' e' k b \<and> \<not> (r' = r \<and> e' = e)"
proof -
  show "wf_broker (unsubscribe_nolock r e b)"
    using assms removeAll_scopes
    by (auto simp: unsubscribe_nolock_def wf_broker_def wf_sub_def RemoveElemFromSlice_def Let_def split: option.split)
  show "subscribed r' e' k (unsubscribe_nolock r e b) \<longleftrightarrow> subscribed r' e' k b \<and> \<not> (r' = r \<and> e' = e)"
  proof (cases "map_get (br_SubMap b) e")
    case None
    then show ?thesis by (auto simp: unsubscribe_nolock_def subscribed_def)
  next
    case (Some bs)
    define bs' where "bs' = \<lparr>bs_AllSubs = RemoveElemFromSlice (bs_AllSubs bs) r,
      bs_ScopeSubs = fold (removeStrFromScopeMap r) (map fst (bs_ScopeSubs bs)) (bs_ScopeSubs bs),
      bs_StarSubs = fold (removeStrFromScopeMap r) (map fst (bs_StarSubs bs)) (bs_StarSubs bs)\<rparr>"
    have wf: "wf_sub bs" using assms Some by (simp add: wf_broker_def)
    then have bs': "inSub r' k bs' \<longleftrightarrow> inSub r' k bs \<and> r' \<noteq> r"
      by (cases k) (auto simp: bs'_def RemoveElemFromSlice_def wf_sub_def removeAll_keys)
    have "IsEmpty bs' \<Longrightarrow> \<not> inSub r' k bs'" by (cases k) (simp_all add: IsEmpty_def)
    moreover have "unsubscribe_nolock r e b =
        b\<lparr>br_SubMap := (if IsEmpty bs' then map_delete e (br_SubMap b) else map_set e bs' (br_SubMap b))\<rparr>"
      by (simp add: unsubscribe_nolock_def Some bs'_def Let_def)
    ultimately show ?thesis using bs' Some by (auto simp: subscribed_def)
  qed
qed

definition scopeKind :: "string \<Rightarrow> subKind" where
  "scopeKind scope = (if scopeHasStarMatch scope then StarSub scope else ScopeSub scope)"

lemma addScopes:
  "wf_sub bs \<Longrightarrow> wf_sub (fold (addScope r) scopes bs)"
  "inSub r' k (fold (addScope r) scopes bs) \<longleftrightarrow> inSub r' k bs \<or> r' = r \<and> k \<in> scopeKind ` set scopes"
proof (induction scopes arbitrary: bs)
  case (Cons s scopes)
  {
    case 1
    then have "wf_sub (addScope r s bs)" by (auto simp: wf_sub_def wf_scopes_def addScope_def scopeRoutes_add)
    then show ?case using Cons.IH(1) by simp
  next
    case 2
    have "inSub r' k (addScope r s bs) \<longleftrightarrow> inSub r' k bs \<or> r' = r \<and> k = scopeKind s"
      by (cases k) (auto simp: addScope_def scopeRoutes_add scopeKind_def)
    then show ?case using Cons.IH(2) by auto
  }
qed simp_all

lemma brokerSubscribed:
  assumes "wf_broker b" "sr_event sub \<noteq> []"
  shows "wf_broker (brokerSubscribe r sub b)"
    "subscribed r' e k (brokerSubscribe r sub b) \<longleftrightarrow>
      (if r' = r \<and> e = sr_event sub then (if sr_allscopes sub then k = AllSub else k \<in> scopeKind ` set (sr_scopes sub))
       else subscribed r' e k b)"
proof -
  define b1 where "b1 = unsubscribe_nolock r (sr_event sub) b"
  define bs where "bs = (case map_get (br_SubMap b1) (sr_event sub) of
      None \<Rightarrow> \<lparr>bs_AllSubs = [], bs_ScopeSubs = [], bs_StarSubs = []\<rparr> | Some bs \<Rightarrow> bs)"
  define bs' where "bs' = (if sr_allscopes sub then bs\<lparr>bs_AllSubs := AddElemToSliceUniq (bs_AllSubs bs) r\<rparr>
      else fold (addScope r) (sr_scopes sub) bs)"
  note b1 = unsubscribed [OF assms(1), where r = r and e = "sr_event sub", folded b1_def]
  have run: "brokerSubscribe r sub b = b1\<lparr>br_SubMap := map_set (sr_event sub) bs' (br_SubMap b1)\<rparr>"
    using assms(2) by (simp add: brokerSubscribe_def b1_def bs_def bs'_def Let_def)
  have bs: "wf_sub bs" "inSub r' k bs \<longleftrightarrow> subscribed r' (sr_event sub) k b1" for r' k
    using b1(1) by (auto simp: bs_def wf_broker_def wf_sub_def wf_scopes_def subscribed_def split: option.split)
      (cases k; simp)+
  have "wf_sub bs'" using bs(1) addScopes(1) by (simp add: bs'_def wf_sub_def)
  then show "wf_broker (brokerSubscribe r sub b)" unfolding run by (rule wf_broker_set [OF b1(1)])
  have all: "inSub r' k (bs\<lparr>bs_AllSubs := AddElemToSliceUniq (bs_AllSubs bs) r\<rparr>) \<longleftrightarrow> inSub r' k bs \<or> r' = r \<and> k = AllSub" for r' k
    by (cases k) auto
  then show "subscribed r' e k (brokerSubscribe r sub b) \<longleftrightarrow>
      (if r' = r \<and> e = sr_event sub then (if sr_allscopes sub then k = AllSub else k \<in> scopeKind ` set (sr_scopes sub))
       else subscribed r' e k b)"
    unfolding run by (auto simp: subscribed_set bs'_def addScopes(2) all bs(2) b1(2))
qed

section \<open>Which events reach the window\<close>

text \<open>How the broker compares the scope of a handler with a scope of an event.\<close>

definition brokerScopeMatches :: "string \<Rightarrow> string \<Rightarrow> bool" where
  "brokerScopeMatches scope s \<longleftrightarrow> (if scopeHasStarMatch scope then StarMatchString scope s (CHR '':'') else scope = s)"

lemma scopeKind_image [simp]:
  "ScopeSub s \<in> scopeKind ` A \<longleftrightarrow> s \<in> A \<and> \<not> scopeHasStarMatch s" "StarSub s \<in> scopeKind ` A \<longleftrightarrow> s \<in> A \<and> scopeHasStarMatch s"
  "AllSub \<notin> scopeKind ` A"
  by (auto simp: scopeKind_def)

lemma resubscribed_route:
  assumes "wf_broker b" "we_event ev \<noteq> []" "r \<noteq> []"
  shows "r \<in> set (getMatchingRouteIds ev (eventCommand r (makeWaveReSubCommand (we_event ev) st) b)) \<longleftrightarrow>
    (\<exists>s \<in> set (subjectsOf st (we_event ev)). isBlank (es_scope s) \<or>
      (\<exists>sc \<in> set (eventScopes ev). brokerScopeMatches (the (es_scope s)) sc))"
proof (cases "map_get (wp_subjects st) (we_event ev)")
  case None
  then show ?thesis
    using assms(3) unsubscribed(2) [OF assms(1)] by (simp add: makeWaveReSubCommand_def subjectsOf_def matching_subscribed)
next
  case (Some ss)
  define sub where "sub = (let (scopes, allscopes) = collectScopes ss [] in
      \<lparr>sr_event = we_event ev, sr_scopes = scopes, sr_allscopes = allscopes\<rparr>)"
  have run: "eventCommand r (makeWaveReSubCommand (we_event ev) st) b = brokerSubscribe r sub b"
    using assms(3) Some by (simp add: makeWaveReSubCommand_def sub_def Let_def split: prod.split)
  have e: "sr_event sub = we_event ev" by (simp add: sub_def split: prod.split)
  note iff = brokerSubscribed(2) [OF assms(1), where sub = sub and r = r and r' = r and e = "we_event ev", unfolded e, OF assms(2), simplified]
  show ?thesis
  proof (cases "\<exists>s \<in> set ss. isBlank (es_scope s)")
    case True
    then have "sr_allscopes sub" by (simp add: sub_def collectScopes_spec)
    then show ?thesis using True Some by (auto simp: run matching_subscribed iff subjectsOf_def)
  next
    case False
    then have "\<not> sr_allscopes sub" "sr_scopes sub = map (the \<circ> es_scope) ss" by (simp_all add: sub_def collectScopes_spec)
    then show ?thesis
      using False Some
      by (simp add: run matching_subscribed iff subjectsOf_def brokerScopeMatches_def del: image_iff) (auto split: if_splits)
  qed
qed

lemma handled_subjects:
  "handleWaveEvent ev st \<noteq> [] \<longleftrightarrow> (\<exists>s \<in> set (subjectsOf st (we_event ev)). isBlank (es_scope s) \<or>
    the (es_scope s) \<in> set (eventScopes ev))"
  by (auto simp: handleWaveEvent_subjects filter_empty_conv subjectMatches_def eventScopes_def split: option.splits)

lemma others_keep_routes:
  assumes "wf_broker b" "r' \<noteq> r"
  shows "r' \<in> set (getMatchingRouteIds ev' (eventCommand r (makeWaveReSubCommand e st) b)) \<longleftrightarrow>
    r' \<in> set (getMatchingRouteIds ev' b)"
proof -
  have "subscribed r' e' k (eventCommand r (makeWaveReSubCommand e st) b) \<longleftrightarrow> subscribed r' e' k b" for e' k
    using assms(2) unsubscribed(2) [OF assms(1)] brokerSubscribed(2) [OF assms(1)]
    by (cases "makeWaveReSubCommand e st"; cases "sr_event (case makeWaveReSubCommand e st of EventSub s \<Rightarrow> s) = []")
      (auto simp: brokerSubscribe_def)
  then show ?thesis by (simp add: matching_subscribed)
qed

text \<open>No handler of the event type has a scope with a wildcard.\<close>

definition noStarScopes :: "'h wpsState \<Rightarrow> string \<Rightarrow> bool" where
  "noStarScopes st e \<longleftrightarrow>
     list_all (\<lambda>s. case es_scope s of None \<Rightarrow> True | Some sc \<Rightarrow> \<not> scopeHasStarMatch sc) (subjectsOf st e)"

text \<open>
  C19: once the broker has the subscription that the window sends for an event type, it sends an event
  of that type to the window if and only if some handler has no scope or one that the broker finds
  among the scopes of the event, wildcards included. Without wildcards these are exactly the
  events that run a handler in the window. What the other routes get does not change, and no
  route comes to be in a list twice.
\<close>

theorem resubscription_reaches_handlers:
  assumes "wf_broker b" "we_event ev \<noteq> []" "r \<noteq> []"
  shows "let b' = eventCommand r (makeWaveReSubCommand (we_event ev) st) b in
    (r \<in> set (getMatchingRouteIds ev b') \<longleftrightarrow>
      (\<exists>s \<in> set (subjectsOf st (we_event ev)). isBlank (es_scope s) \<or>
         (\<exists>sc \<in> set (eventScopes ev). brokerScopeMatches (the (es_scope s)) sc))) \<and>
    (noStarScopes st (we_event ev) \<longrightarrow> (r \<in> set (getMatchingRouteIds ev b') \<longleftrightarrow> handleWaveEvent ev st \<noteq> [])) \<and>
    (\<forall>r' ev'. r' \<noteq> r \<longrightarrow> (r' \<in> set (getMatchingRouteIds ev' b') \<longleftrightarrow> r' \<in> set (getMatchingRouteIds ev' b))) \<and>
    wf_broker b'"
proof -
  let ?b = "eventCommand r (makeWaveReSubCommand (we_event ev) st) b"
  have "wf_broker ?b"
    using unsubscribed(1) [OF assms(1)] brokerSubscribed(1) [OF assms(1)] assms
    by (cases "makeWaveReSubCommand (we_event ev) st") (auto simp: brokerSubscribe_def)
  moreover have "handleWaveEvent ev st \<noteq> [] \<longleftrightarrow> r \<in> set (getMatchingRouteIds ev ?b)" if "noStarScopes st (we_event ev)"
  proof -
    have "isBlank (es_scope s) \<or> (\<exists>sc \<in> S. brokerScopeMatches (the (es_scope s)) sc) \<longleftrightarrow>
        isBlank (es_scope s) \<or> the (es_scope s) \<in> S" if "s \<in> set (subjectsOf st (we_event ev))" for s S
      using that \<open>noStarScopes st (we_event ev)\<close>
      by (cases "es_scope s") (fastforce simp: noStarScopes_def list_all_iff brokerScopeMatches_def isBlank_def)+
    then show ?thesis unfolding resubscribed_route [OF assms] handled_subjects by (rule bex_cong [OF refl, THEN sym])
  qed
  ultimately show ?thesis
    using resubscribed_route [OF assms, of st] others_keep_routes [OF assms(1), of _ r _ "we_event ev" st] by (simp add: Let_def)
qed

definition blockEvent :: "string \<Rightarrow> waveEvent" where
  "blockEvent scope = \<lparr>we_event = ''controllerstatus'', we_scopes = Some [scope], we_data = JNull\<rparr>"

definition blockSubscribed :: "string \<Rightarrow> nat wpsState" where
  "blockSubscribed scope = snd (waveEventSubscribe [demoSub ''controllerstatus'' 1 (Some scope)] demoWps)"

theorem resubscription_reaches_handlers_witness:
  "''tab:1'' \<in> set (getMatchingRouteIds (blockEvent ''block:1'')
      (eventCommand ''tab:1'' (makeWaveReSubCommand ''controllerstatus'' (blockSubscribed ''block:1'')) \<lparr>br_SubMap = []\<rparr>)) \<and>
    handleWaveEvent (blockEvent ''block:1'') (blockSubscribed ''block:1'') = [1]"
proof -
  have s: "wf_broker \<lparr>br_SubMap = []\<rparr>" "we_event (blockEvent ''block:1'') = ''controllerstatus''"
    by (simp_all add: wf_broker_def blockEvent_def)
  have h: "handleWaveEvent (blockEvent ''block:1'') (blockSubscribed ''block:1'') = [1]" by code_simp
  have n: "noStarScopes (blockSubscribed ''block:1'') ''controllerstatus''" by code_simp
  have "handleWaveEvent (blockEvent ''block:1'') (blockSubscribed ''block:1'') \<noteq> []" unfolding h by simp
  then have "''tab:1'' \<in> set (getMatchingRouteIds (blockEvent ''block:1'')
      (eventCommand ''tab:1'' (makeWaveReSubCommand ''controllerstatus'' (blockSubscribed ''block:1'')) \<lparr>br_SubMap = []\<rparr>))"
    using resubscription_reaches_handlers [OF s(1), of "blockEvent ''block:1''" "''tab:1''" "blockSubscribed ''block:1''"] n
    unfolding s(2) Let_def by blast
  then show ?thesis using h by (rule conjI)
qed

text \<open>
  The client compares scopes literally, so what a scope with a wildcard lets through runs no handler.
\<close>

theorem wildcard_scope_runs_no_handler:
  "''tab:1'' \<in> set (getMatchingRouteIds (blockEvent ''block:1'')
      (eventCommand ''tab:1'' (makeWaveReSubCommand ''controllerstatus'' (blockSubscribed ''block:*'')) \<lparr>br_SubMap = []\<rparr>))"
  "handleWaveEvent (blockEvent ''block:1'') (blockSubscribed ''block:*'') = []"
  by code_simp+

end
