(* ===== verification/WshRouter.thy ===== *)
theory WshRouter
  imports RpcTypes
begin

text \<open>
  The rpc router of a window (frontend/app/store/wshrouter.ts): which client a message goes
  to, and the table of open requests by which responses find their way back. Clients are
  identifiers; the messages handed to clients, to the upstream proxy and to the event
  dispatcher are the output of an operation.
\<close>

record routeInfo =
  ri_rpcId :: string
  ri_sourceRouteId :: "string option"
  ri_destRouteId :: "string option"

record 'c wshRouter =
  routeMap :: "(string, 'c) js_map"
  rpcMap :: "(string, routeInfo) js_map"

datatype 'c delivery = ToClient 'c rpcMessage | ToUpstream rpcMessage | ToEvents json

definition SysRouteName :: string where
  "SysRouteName = ''sys''"

definition makeWindowRouteId :: "string \<Rightarrow> string" where
  "makeWindowRouteId windowId = ''window:'' @ windowId"

definition makeFeBlockRouteId :: "string \<Rightarrow> string" where
  "makeFeBlockRouteId feBlockId = ''feblock:'' @ feBlockId"

text \<open>The constructor: without an upstream client it throws.\<close>

definition newWshRouter :: "'u option \<Rightarrow> js_error + 'c wshRouter" where
  "newWshRouter upstreamClient =
     (case upstreamClient of
        None \<Rightarrow> Inl (Error ''upstream client cannot be null'')
      | Some _ \<Rightarrow> Inr \<lparr>routeMap = [], rpcMap = []\<rparr>)"

definition announceMsg :: "string \<Rightarrow> string \<Rightarrow> rpcMessage" where
  "announceMsg command routeId =
     emptyMsg\<lparr>rm_command := Some command, rm_data := JStr routeId, rm_source := Some routeId\<rparr>"

definition reannounceRoutes :: "'c wshRouter \<Rightarrow> 'c delivery list" where
  "reannounceRoutes r = map (\<lambda>(routeId, _). ToUpstream (announceMsg ''routeannounce'' routeId)) (routeMap r)"

definition sendRoutedMessage :: "rpcMessage \<Rightarrow> string option \<Rightarrow> 'c wshRouter \<Rightarrow> 'c delivery list" where
  "sendRoutedMessage msg destRouteId r =
     (case (case destRouteId of None \<Rightarrow> None | Some d \<Rightarrow> map_get (routeMap r) d) of
        Some client \<Rightarrow> [ToClient client msg]
      | None \<Rightarrow> [ToUpstream msg])"

definition registerRouteInfo ::
  "string option \<Rightarrow> string option \<Rightarrow> string option \<Rightarrow> 'c wshRouter \<Rightarrow> 'c wshRouter" where
  "registerRouteInfo reqid sourceRouteId destRouteId r =
     (if isBlank reqid then r
      else r\<lparr>rpcMap := map_set (the reqid)
               \<lparr>ri_rpcId = the reqid, ri_sourceRouteId = sourceRouteId, ri_destRouteId = destRouteId\<rparr>
               (rpcMap r)\<rparr>)"

definition routerRecv :: "rpcMessage \<Rightarrow> 'c wshRouter \<Rightarrow> 'c delivery list \<times> 'c wshRouter" where
  "routerRecv msg r =
     (if rm_command msg = Some ''routeannounce'' \<or> rm_command msg = Some ''routeunannounce'' then ([], r)
      else if rm_command msg = Some ''eventrecv'' then ([ToEvents (rm_data msg)], r)
      else if \<not> isBlank (rm_command msg) then
        (let r = (if \<not> isBlank (rm_reqid msg)
                  then registerRouteInfo (rm_reqid msg) (rm_source msg) (rm_route msg) r else r)
         in (sendRoutedMessage msg (rm_route msg) r, r))
      else if \<not> isBlank (rm_reqid msg) then
        (case map_get (rpcMap r) (the (rm_reqid msg)) of
           None \<Rightarrow> ([], r)
         | Some info \<Rightarrow> (sendRoutedMessage msg (ri_destRouteId info) r, r))
      else if \<not> isBlank (rm_resid msg) then
        (case map_get (rpcMap r) (the (rm_resid msg)) of
           None \<Rightarrow> ([], r)
         | Some info \<Rightarrow>
             (sendRoutedMessage msg (ri_sourceRouteId info) r,
              if \<not> rm_cont msg then r\<lparr>rpcMap := map_delete (the (rm_resid msg)) (rpcMap r)\<rparr> else r))
      else ([], r))"

definition registerRoute :: "string \<Rightarrow> 'c \<Rightarrow> 'c wshRouter \<Rightarrow> (js_error + 'c delivery list) \<times> 'c wshRouter" where
  "registerRoute routeId client r =
     (if routeId = SysRouteName then (Inl (Error ''Cannot register route with reserved name''), r)
      else (Inr [ToUpstream (announceMsg ''routeannounce'' routeId)],
            r\<lparr>routeMap := map_set routeId client (routeMap r)\<rparr>))"

definition unregisterRoute :: "string \<Rightarrow> 'c wshRouter \<Rightarrow> 'c delivery list \<times> 'c wshRouter" where
  "unregisterRoute routeId r =
     ([ToUpstream (announceMsg ''routeunannounce'' routeId)],
      r\<lparr>routeMap := map_delete routeId (routeMap r)\<rparr>)"

text \<open>A run of the router over a sequence of messages, with everything it delivers.\<close>

primrec routerRun :: "rpcMessage list \<Rightarrow> 'c wshRouter \<Rightarrow> 'c delivery list \<times> 'c wshRouter" where
  "routerRun [] r = ([], r)"
| "routerRun (m # ms) r =
     (let (out, r) = routerRecv m r; (outs, r) = routerRun ms r in (out @ outs, r))"

section \<open>Properties\<close>

text \<open>A command that opens a request, and the responses to it.\<close>

definition isRequest :: "string \<Rightarrow> string \<Rightarrow> rpcMessage \<Rightarrow> bool" where
  "isRequest src q m \<longleftrightarrow>
     \<not> isBlank (rm_command m) \<and>
     rm_command m \<notin> {Some ''routeannounce'', Some ''routeunannounce'', Some ''eventrecv''} \<and>
     rm_reqid m = Some q \<and> q \<noteq> [] \<and> rm_source m = Some src"

definition isResponse :: "string \<Rightarrow> bool \<Rightarrow> rpcMessage \<Rightarrow> bool" where
  "isResponse q ct m \<longleftrightarrow>
     isBlank (rm_command m) \<and> isBlank (rm_reqid m) \<and> rm_resid m = Some q \<and> rm_cont m = ct"

lemma routerRecv_request:
  assumes "isRequest src q m"
  shows "routerRecv m r =
    (sendRoutedMessage m (rm_route m) r,
     r\<lparr>rpcMap := map_set q \<lparr>ri_rpcId = q, ri_sourceRouteId = Some src, ri_destRouteId = rm_route m\<rparr> (rpcMap r)\<rparr>)"
  using assms
  by (auto simp: isRequest_def routerRecv_def registerRouteInfo_def sendRoutedMessage_def isBlank_def Let_def
      cong: option.case_cong)

lemma routerRecv_response:
  assumes "isResponse q ct m" "q \<noteq> []"
  shows "routerRecv m r =
    (case map_get (rpcMap r) q of
       None \<Rightarrow> ([], r)
     | Some info \<Rightarrow>
         (sendRoutedMessage m (ri_sourceRouteId info) r,
          if ct then r else r\<lparr>rpcMap := map_delete q (rpcMap r)\<rparr>))"
  using assms by (auto simp: isResponse_def routerRecv_def isBlank_def split: option.splits)

lemma routerRun_partials:
  assumes "map_get (rpcMap r) q = Some info" "ri_sourceRouteId info = Some src" "map_get (routeMap r) src = Some c"
    and "q \<noteq> []" "\<forall>m \<in> set ms. isResponse q True m"
  shows "routerRun (ms @ rest) r = (let (out, r') = routerRun rest r in (map (ToClient c) ms @ out, r'))"
  using assms(5)
proof (induction ms)
  case Nil
  show ?case by (simp split: prod.split)
next
  case (Cons m ms)
  then have "routerRecv m r = ([ToClient c m], r)"
    using routerRecv_response [of q True m r] assms(1-4) by (simp add: sendRoutedMessage_def)
  with Cons show ?case by (simp split: prod.split)
qed

text \<open>
  C15: the responses to a request that a registered client sent all go back to that client, in
  order; the last one closes the request, and any later response to it is dropped. Other open
  requests are not touched.
\<close>

theorem responses_return_to_requester:
  assumes "isRequest src q cmd" "map_get (routeMap r) src = Some c"
    and "\<forall>m \<in> set ms. isResponse q True m" "isResponse q False f" "isResponse q ct late"
  shows "\<exists>r'. routerRun (cmd # ms @ [f, late]) r =
      (sendRoutedMessage cmd (rm_route cmd) r @ map (ToClient c) (ms @ [f]), r') \<and>
    (\<forall>p. map_get (rpcMap r') p = (if p = q then None else map_get (rpcMap r) p)) \<and> routeMap r' = routeMap r"
proof -
  have q: "q \<noteq> []" using assms(1) by (simp add: isRequest_def)
  define info where "info = \<lparr>ri_rpcId = q, ri_sourceRouteId = Some src, ri_destRouteId = rm_route cmd\<rparr>"
  define r1 where "r1 = r\<lparr>rpcMap := map_set q info (rpcMap r)\<rparr>"
  define r2 where "r2 = r1\<lparr>rpcMap := map_delete q (rpcMap r1)\<rparr>"
  have info: "map_get (rpcMap r1) q = Some info" "ri_sourceRouteId info = Some src" "map_get (routeMap r1) src = Some c"
    using assms(2) by (simp_all add: r1_def info_def)
  have cmd: "routerRecv cmd r = (sendRoutedMessage cmd (rm_route cmd) r, r1)"
    using routerRecv_request [OF assms(1)] by (simp add: r1_def info_def)
  have final: "routerRecv f r1 = ([ToClient c f], r2)"
    using routerRecv_response [OF assms(4) q, of r1] info by (simp add: sendRoutedMessage_def r2_def)
  have late: "routerRecv late r2 = ([], r2)"
    using routerRecv_response [OF assms(5) q, of r2] by (simp add: r2_def)
  have "routerRun (cmd # ms @ [f, late]) r =
      (sendRoutedMessage cmd (rm_route cmd) r @ map (ToClient c) (ms @ [f]), r2)"
    using routerRun_partials [OF info q assms(3), of "[f, late]"] by (simp add: cmd final late)
  then show ?thesis by (auto simp: r2_def r1_def)
qed

definition demoRouter :: "nat wshRouter" where
  "demoRouter = \<lparr>routeMap = [(''feblock:1'', 7)], rpcMap = []\<rparr>"

definition demoRequest :: rpcMessage where
  "demoRequest = emptyMsg\<lparr>rm_command := Some ''getmeta'', rm_reqid := Some ''r1'', rm_source := Some ''feblock:1''\<rparr>"

definition demoResponse :: "bool \<Rightarrow> rpcMessage" where
  "demoResponse ct = emptyMsg\<lparr>rm_resid := Some ''r1'', rm_cont := ct\<rparr>"

theorem responses_return_to_requester_witness:
  "\<exists>r'. routerRun (demoRequest # [demoResponse True, demoResponse True] @ [demoResponse False, demoResponse False]) demoRouter =
      (sendRoutedMessage demoRequest (rm_route demoRequest) demoRouter @
        map (ToClient 7) ([demoResponse True, demoResponse True] @ [demoResponse False]), r') \<and>
    (\<forall>p. map_get (rpcMap r') p = (if p = ''r1'' then None else map_get (rpcMap demoRouter) p)) \<and>
    routeMap r' = routeMap demoRouter"
  by (rule responses_return_to_requester [where src = "''feblock:1''" and ct = False])
    (simp_all add: isRequest_def isResponse_def demoRequest_def demoResponse_def demoRouter_def emptyMsg_def
      isBlank_def map_get_Cons)

end
