(* ===== verification/WshClient.thy ===== *)
theory WshClient
  imports RpcTypes
begin

text \<open>
  The rpc client (frontend/app/store/wshclient.ts) and the generator that collects the
  responses of a call (rpcResponseGenerator in wshrpcutil.ts).

  A command handler is described by what it does: the responses it sends through its helper,
  in order, and whether it then returns a value or throws. The generator is a state machine
  over the requests of its consumer (\<open>next\<close>, \<open>return\<close>), the messages of the client and the
  timer; the steps it takes between two awaits are one transition.
\<close>

section \<open>Responding\<close>

record responseHelper =
  rh_cmdMsg :: rpcMessage
  rh_clientRouteId :: string
  rh_done :: bool
  rh_sent :: "rpcMessage list"            \<comment> \<open>the messages given to \<open>sendRpcResponse\<close>\<close>
  rh_closed :: bool                       \<comment> \<open>the request was deleted from \<open>openRpcs\<close>\<close>

definition newResponseHelper :: "string \<Rightarrow> rpcMessage \<Rightarrow> responseHelper" where
  "newResponseHelper routeId cmdMsg =
     \<lparr>rh_cmdMsg = cmdMsg, rh_clientRouteId = routeId, rh_done = (rm_reqid cmdMsg = None),
      rh_sent = [], rh_closed = False\<rparr>"

definition sendResponse :: "rpcMessage option \<Rightarrow> responseHelper \<Rightarrow> responseHelper" where
  "sendResponse msg helper =
     (if rh_done helper \<or> isBlank (rm_reqid (rh_cmdMsg helper)) then helper
      else
        let msg = (case msg of None \<Rightarrow> emptyMsg | Some m \<Rightarrow> m);
            msg = msg\<lparr>rm_resid := rm_reqid (rh_cmdMsg helper), rm_source := Some (rh_clientRouteId helper)\<rparr>;
            helper = helper\<lparr>rh_sent := rh_sent helper @ [msg]\<rparr>
        in if \<not> rm_cont msg then helper\<lparr>rh_done := True, rh_closed := True\<rparr> else helper)"

datatype handlerOutcome = Returned json | Threw string

type_synonym commandHandler = "json \<Rightarrow> rpcMessage option list \<times> handlerOutcome"

definition handle_default :: "string \<Rightarrow> rpcMessage \<Rightarrow> rpcMessage option list \<times> handlerOutcome" where
  "handle_default routeId msg =
     ([], Threw (''rpc command '' @ [CHR 0x22] @
            (case rm_command msg of None \<Rightarrow> ''undefined'' | Some c \<Rightarrow> c) @ [CHR 0x22] @
            '' not supported by ['' @ routeId @ '']''))"

definition handleIncomingCommand ::
  "(string, commandHandler) js_map \<Rightarrow> string \<Rightarrow> rpcMessage \<Rightarrow> responseHelper" where
  "handleIncomingCommand handlers routeId msg =
     (let helper = newResponseHelper routeId msg;
          handlerName = ''handle_'' @ (case rm_command msg of None \<Rightarrow> ''undefined'' | Some c \<Rightarrow> c);
          (responses, outcome) =
            (case map_get handlers handlerName of
               Some handler \<Rightarrow> handler (rm_data msg)
             | None \<Rightarrow> handle_default routeId msg);
          helper = foldl (\<lambda>hp r. sendResponse r hp) helper responses;
          helper =
            (case outcome of
               Returned result \<Rightarrow>
                 if \<not> rh_done helper then sendResponse (Some (emptyMsg\<lparr>rm_data := result\<rparr>)) helper
                 else helper
             | Threw e \<Rightarrow>
                 if \<not> rh_done helper then sendResponse (Some (emptyMsg\<lparr>rm_error := Some e\<rparr>)) helper
                 else helper)
      in if \<not> rh_done helper then sendResponse (Some emptyMsg) helper else helper)"

section \<open>Calling\<close>

text \<open>What \<open>wshRpcCall\<close> and \<open>wshRpcStream\<close> send; zero and empty options count as absent.\<close>

definition callMsg :: "string \<Rightarrow> string \<Rightarrow> json \<Rightarrow> rpcOpts option \<Rightarrow> string option \<Rightarrow> rpcMessage" where
  "callMsg routeId command data opts reqid =
     emptyMsg\<lparr>rm_command := Some command, rm_data := data, rm_source := Some routeId,
       rm_reqid := reqid,
       rm_timeout := (case opts of None \<Rightarrow> None | Some op1 \<Rightarrow>
                        if ro_timeout op1 = Some 0 then None else ro_timeout op1),
       rm_route := (case opts of None \<Rightarrow> None | Some op1 \<Rightarrow>
                      if ro_route op1 = Some [] then None else ro_route op1)\<rparr>"

definition wantsResponse :: "rpcOpts option \<Rightarrow> bool" where
  "wantsResponse opts = (case opts of None \<Rightarrow> True | Some op1 \<Rightarrow> \<not> ro_noresponse op1)"

definition wshRpcCallMsg :: "string \<Rightarrow> string \<Rightarrow> json \<Rightarrow> rpcOpts option \<Rightarrow> string \<Rightarrow> rpcMessage" where
  "wshRpcCallMsg routeId command data opts uuid =
     callMsg routeId command data opts (if wantsResponse opts then Some uuid else None)"

definition wshRpcStreamMsg ::
  "string \<Rightarrow> string \<Rightarrow> json \<Rightarrow> rpcOpts option \<Rightarrow> string \<Rightarrow> js_error + rpcMessage" where
  "wshRpcStreamMsg routeId command data opts uuid =
     (if \<not> wantsResponse opts
      then Inl (Error ''noresponse not supported for responsestream calls'')
      else Inr (callMsg routeId command data opts (Some uuid)))"

section \<open>The response generator\<close>

datatype genPhase =
    AtInit                \<comment> \<open>suspended at \<open>yield null\<close>\<close>
  | InLoop                \<comment> \<open>running, or waiting for the signal\<close>
  | AtYield bool          \<comment> \<open>suspended at \<open>yield msg.data\<close>, with \<open>msg.cont\<close>\<close>
  | Finished

text \<open>A consumer's request, and how the promise of a request settles.\<close>

datatype genRequest = NextReq bool | ReturnReq

datatype genResult = YieldRes json | DoneRes | ThrowRes string

record rpcGen =
  gn_reqid :: string
  gn_phase :: genPhase
  gn_queue :: "rpcMessage list"
  gn_requests :: "genRequest list"
  gn_results :: "genResult list"
  gn_open :: bool                 \<comment> \<open>the request is in \<open>openRpcs\<close>\<close>
  gn_timer :: bool                \<comment> \<open>the timeout is armed\<close>
  gn_cancels :: nat               \<comment> \<open>calls of \<open>sendRpcCancel\<close>\<close>

text \<open>
  The state after \<open>sendRpcCommand\<close> has started the generator: registered, and suspended at
  the first yield, whose result is thrown away.
\<close>

definition startGenerator :: "string \<Rightarrow> nat option \<Rightarrow> rpcGen" where
  "startGenerator reqid timeout =
     \<lparr>gn_reqid = reqid, gn_phase = AtInit, gn_queue = [], gn_requests = [], gn_results = [],
      gn_open = True, gn_timer = (case timeout of None \<Rightarrow> False | Some t \<Rightarrow> 0 < t), gn_cancels = 0\<rparr>"

text \<open>Leaving the \<open>try\<close> block: the \<open>finally\<close> clause, then the request in hand settles.\<close>

definition finishGen :: "genResult \<Rightarrow> rpcGen \<Rightarrow> rpcGen" where
  "finishGen res g =
     g\<lparr>gn_phase := Finished, gn_open := False, gn_timer := False,
       gn_requests := tl (gn_requests g), gn_results := gn_results g @ [res]\<rparr>"

text \<open>
  One transition; \<open>None\<close> when the generator cannot move: no request, or waiting for a message.
  A \<open>return\<close> before the \<open>try\<close> block is entered does not run the \<open>finally\<close> clause.
\<close>

definition genStep :: "rpcGen \<Rightarrow> rpcGen option" where
  "genStep g =
     (case gn_requests g of
        [] \<Rightarrow> None
      | req # reqs \<Rightarrow>
          (case gn_phase g of
             AtInit \<Rightarrow>
               (case req of
                  NextReq _ \<Rightarrow> Some (g\<lparr>gn_phase := InLoop\<rparr>)
                | ReturnReq \<Rightarrow>
                    Some (g\<lparr>gn_phase := Finished, gn_requests := reqs,
                            gn_results := gn_results g @ [DoneRes]\<rparr>))
           | InLoop \<Rightarrow>
               (case gn_queue g of
                  [] \<Rightarrow> None
                | msg # msgs \<Rightarrow>
                    let g = g\<lparr>gn_queue := msgs\<rparr> in
                    (case rm_error msg of
                       Some e \<Rightarrow> Some (finishGen (ThrowRes e) g)
                     | None \<Rightarrow>
                         if \<not> rm_cont msg \<and> isNullish (rm_data msg) then Some (finishGen DoneRes g)
                         else Some (g\<lparr>gn_phase := AtYield (rm_cont msg), gn_requests := reqs,
                                      gn_results := gn_results g @ [YieldRes (rm_data msg)]\<rparr>)))
           | AtYield cont \<Rightarrow>
               (case req of
                  NextReq shouldTerminate \<Rightarrow>
                    if shouldTerminate then
                      Some (finishGen DoneRes (g\<lparr>gn_cancels := Suc (gn_cancels g)\<rparr>))
                    else if \<not> cont then Some (finishGen DoneRes g)
                    else Some (g\<lparr>gn_phase := InLoop\<rparr>)
                | ReturnReq \<Rightarrow> Some (finishGen DoneRes g))
           | Finished \<Rightarrow>
               Some (g\<lparr>gn_requests := reqs, gn_results := gn_results g @ [DoneRes]\<rparr>)))"

definition phaseRank :: "genPhase \<Rightarrow> nat" where
  "phaseRank p = (case p of InLoop \<Rightarrow> 0 | _ \<Rightarrow> 1)"

text \<open>Transitions until the generator cannot move; each one uses up a request or a phase.\<close>

function genRun :: "rpcGen \<Rightarrow> rpcGen" where
  "genRun g = (case genStep g of None \<Rightarrow> g | Some g' \<Rightarrow> genRun g')"
  by pat_completeness auto

lemma genStep_decreases:
  "genStep g = Some g' \<Longrightarrow>
    2 * length (gn_requests g') + phaseRank (gn_phase g') <
    2 * length (gn_requests g) + phaseRank (gn_phase g)"
  by (auto simp: genStep_def phaseRank_def finishGen_def Let_def
      split: list.splits genPhase.splits genRequest.splits option.splits if_splits)

termination genRun
  by (relation "measure (\<lambda>g. 2 * length (gn_requests g) + phaseRank (gn_phase g))")
    (auto dest: genStep_decreases)

declare genRun.simps [simp del]

definition genNext :: "bool \<Rightarrow> rpcGen \<Rightarrow> rpcGen" where
  "genNext v g = genRun (g\<lparr>gn_requests := gn_requests g @ [NextReq v]\<rparr>)"

definition genReturn :: "rpcGen \<Rightarrow> rpcGen" where
  "genReturn g = genRun (g\<lparr>gn_requests := gn_requests g @ [ReturnReq]\<rparr>)"

text \<open>\<open>msgFn\<close>, through the entry of \<open>openRpcs\<close>: a message for a closed request is dropped.\<close>

definition genMessage :: "rpcMessage \<Rightarrow> rpcGen \<Rightarrow> rpcGen" where
  "genMessage msg g = (if gn_open g then genRun (g\<lparr>gn_queue := gn_queue g @ [msg]\<rparr>) else g)"

definition timeoutMsg :: "string \<Rightarrow> rpcMessage" where
  "timeoutMsg reqid =
     emptyMsg\<lparr>rm_resid := Some reqid, rm_error := Some ''EC-TIME: timeout waiting for response''\<rparr>"

definition genTimeout :: "rpcGen \<Rightarrow> rpcGen" where
  "genTimeout g =
     (if gn_timer g then
        genRun (g\<lparr>gn_timer := False, gn_queue := gn_queue g @ [timeoutMsg (gn_reqid g)]\<rparr>)
      else g)"

text \<open>\<open>wshRpcCall\<close> asks its generator once, with True; \<open>None\<close> when no response is wanted.\<close>

definition wshRpcCallGen :: "rpcMessage \<Rightarrow> rpcGen option" where
  "wshRpcCallGen msg =
     (case rm_reqid msg of
        None \<Rightarrow> None
      | Some reqid \<Rightarrow> Some (genNext True (startGenerator reqid (rm_timeout msg))))"

text \<open>\<open>sendRpcCancel\<close>'s message.\<close>

definition cancelMsg :: "string \<Rightarrow> rpcMessage" where
  "cancelMsg reqid = emptyMsg\<lparr>rm_reqid := Some reqid, rm_cancel := True\<rparr>"

section \<open>Receiving\<close>

datatype clientAction = HandleCommand rpcMessage | GiveToGenerator string rpcMessage | DropMessage

text \<open>\<open>recvRpcMessage\<close>: what the client does with a message, given its open requests.\<close>

definition clientRecv :: "string list \<Rightarrow> rpcMessage \<Rightarrow> clientAction" where
  "clientRecv openRpcs msg =
     (if rm_command msg \<noteq> None \<or> rm_reqid msg \<noteq> None then HandleCommand msg
      else case rm_resid msg of
        None \<Rightarrow> DropMessage
      | Some resid \<Rightarrow>
          if resid \<in> set openRpcs then GiveToGenerator resid msg else DropMessage)"

section \<open>Properties of responding\<close>

text \<open>What a helper may have sent: partial responses, then at most one final one, all to its request.\<close>

definition wellResponded :: "responseHelper \<Rightarrow> bool" where
  "wellResponded hp \<longleftrightarrow>
     (\<forall>m \<in> set (rh_sent hp). rm_resid m = rm_reqid (rh_cmdMsg hp) \<and> rm_source m = Some (rh_clientRouteId hp)) \<and>
     (if rh_done hp then \<exists>ps f. rh_sent hp = ps @ [f] \<and> (\<forall>p \<in> set ps. rm_cont p) \<and> \<not> rm_cont f \<and> rh_closed hp
      else (\<forall>p \<in> set (rh_sent hp). rm_cont p) \<and> \<not> rh_closed hp)"

lemma sendResponse_fields [simp]:
  "rh_cmdMsg (sendResponse m hp) = rh_cmdMsg hp" "rh_clientRouteId (sendResponse m hp) = rh_clientRouteId hp"
  by (simp_all add: sendResponse_def Let_def split: option.split)

lemma sendResponse_wellResponded: "wellResponded hp \<Longrightarrow> wellResponded (sendResponse m hp)"
  by (auto simp: wellResponded_def sendResponse_def Let_def split: option.splits if_splits)

lemma sendResponse_final:
  "\<not> isBlank (rm_reqid (rh_cmdMsg hp)) \<Longrightarrow> (\<forall>x. m = Some x \<longrightarrow> \<not> rm_cont x) \<Longrightarrow> rh_done (sendResponse m hp)"
  by (auto simp: sendResponse_def Let_def emptyMsg_def split: option.split)

lemma foldl_sendResponse:
  "wellResponded hp \<Longrightarrow> wellResponded (foldl (\<lambda>hp r. sendResponse r hp) hp rs) \<and>
    rh_cmdMsg (foldl (\<lambda>hp r. sendResponse r hp) hp rs) = rh_cmdMsg hp \<and>
    rh_clientRouteId (foldl (\<lambda>hp r. sendResponse r hp) hp rs) = rh_clientRouteId hp"
  by (induction rs arbitrary: hp) (simp_all add: sendResponse_wellResponded)

lemma foldl_sendResponse_blank:
  "isBlank (rm_reqid (rh_cmdMsg hp)) \<Longrightarrow> foldl (\<lambda>hp r. sendResponse r hp) hp rs = hp"
  by (induction rs) (simp_all add: sendResponse_def)

text \<open>
  C16: whatever the handler of a command does, whether it sends partial responses, sends its own
  last one, returns, throws or is missing, a command with a request id gets exactly one final
  response, after all partial ones, and all of them carry its id and the client's route; a
  command without a request id gets none.
\<close>

theorem exactly_one_final_response:
  "(if isBlank (rm_reqid msg) then rh_sent (handleIncomingCommand handlers routeId msg) = []
    else \<exists>ps f. rh_sent (handleIncomingCommand handlers routeId msg) = ps @ [f] \<and>
      (\<forall>p \<in> set ps. rm_cont p) \<and> \<not> rm_cont f \<and>
      (\<forall>m \<in> set (ps @ [f]). rm_resid m = rm_reqid msg \<and> rm_source m = Some routeId))"
proof -
  let ?hp = "newResponseHelper routeId msg"
  obtain rs out where h: "(case map_get handlers (''handle_'' @ (case rm_command msg of None \<Rightarrow> ''undefined'' | Some c \<Rightarrow> c)) of
      Some handler \<Rightarrow> handler (rm_data msg) | None \<Rightarrow> handle_default routeId msg) = (rs, out)"
    by (rule prod.exhaust)
  define hp1 where "hp1 = foldl (\<lambda>hp r. sendResponse r hp) ?hp rs"
  define last1 where "last1 = Some (case out of Returned x \<Rightarrow> emptyMsg\<lparr>rm_data := x\<rparr> | Threw e \<Rightarrow> emptyMsg\<lparr>rm_error := Some e\<rparr>)"
  define hp2 where "hp2 = (if \<not> rh_done hp1 then sendResponse last1 hp1 else hp1)"
  have run: "handleIncomingCommand handlers routeId msg =
      (if \<not> rh_done hp2 then sendResponse (Some emptyMsg) hp2 else hp2)"
    unfolding handleIncomingCommand_def Let_def h
    by (simp add: hp2_def hp1_def last1_def split: handlerOutcome.split)
  show ?thesis
  proof (cases "isBlank (rm_reqid msg)")
    case True
    then have "rh_sent hp1 = [] \<and> rh_cmdMsg hp1 = msg"
      using foldl_sendResponse_blank [of ?hp rs] by (simp add: hp1_def newResponseHelper_def)
    with True show ?thesis by (simp add: run hp2_def sendResponse_def)
  next
    case False
    then have "wellResponded ?hp" by (auto simp: wellResponded_def newResponseHelper_def isBlank_def)
    then have hp1: "wellResponded hp1" "rh_cmdMsg hp1 = msg" "rh_clientRouteId hp1 = routeId"
      using foldl_sendResponse [of ?hp rs] by (simp_all add: hp1_def newResponseHelper_def)
    have "rh_done (sendResponse last1 hp1)"
      using False hp1(2) by (intro sendResponse_final) (auto simp: last1_def emptyMsg_def split: handlerOutcome.splits)
    then have hp2: "wellResponded hp2" "rh_done hp2" "rh_cmdMsg hp2 = msg" "rh_clientRouteId hp2 = routeId"
      using hp1 by (simp_all add: hp2_def sendResponse_wellResponded)
    with False show ?thesis by (auto simp: run wellResponded_def)
  qed
qed

theorem exactly_one_final_response_witness:
  "\<exists>ps f. rh_sent (handleIncomingCommand [] ''feblock:1'' (emptyMsg\<lparr>rm_reqid := Some ''r1''\<rparr>)) = ps @ [f] \<and>
    (\<forall>p \<in> set ps. rm_cont p) \<and> \<not> rm_cont f \<and>
    (\<forall>m \<in> set (ps @ [f]). rm_resid m = Some ''r1'' \<and> rm_source m = Some ''feblock:1'')"
  using exactly_one_final_response [where msg = "emptyMsg\<lparr>rm_reqid := Some ''r1''\<rparr>" and handlers = "[]"
      and routeId = "''feblock:1''"]
  by (simp add: isBlank_def)

section \<open>Properties of the generator\<close>

text \<open>A message that the consumer is given, with more to come.\<close>

definition partialMsg :: "rpcMessage \<Rightarrow> bool" where
  "partialMsg m \<longleftrightarrow> rm_error m = None \<and> rm_cont m"

text \<open>A generator that waits for messages, or for the consumer to ask for the next one.\<close>

definition idle :: "rpcGen \<Rightarrow> bool" where
  "idle g \<longleftrightarrow> gn_requests g = [] \<and> gn_open g \<and> (gn_phase g = AtInit \<or> gn_phase g = AtYield True)"

lemma genRun_no_request: "gn_requests g = [] \<Longrightarrow> genRun g = g"
  by (subst genRun.simps) (simp add: genStep_def)

lemma fold_genMessage:
  "idle g \<Longrightarrow> fold genMessage ms g = g\<lparr>gn_queue := gn_queue g @ ms\<rparr>"
proof (induction ms arbitrary: g)
  case (Cons m ms)
  have "genMessage m g = g\<lparr>gn_queue := gn_queue g @ [m]\<rparr>"
    using Cons.prems by (simp add: genMessage_def idle_def genRun_no_request)
  with Cons show ?case by (simp add: idle_def)
qed simp

lemma genNext_partial:
  assumes "idle g" "gn_queue g = m # ms" "partialMsg m"
  shows "\<exists>g'. genNext False g = g' \<and> idle g' \<and> gn_queue g' = ms \<and>
    gn_results g' = gn_results g @ [YieldRes (rm_data m)] \<and> gn_cancels g' = gn_cancels g"
proof -
  let ?g = "g\<lparr>gn_requests := [NextReq False], gn_phase := InLoop\<rparr>"
  let ?y = "g\<lparr>gn_requests := [], gn_phase := AtYield True, gn_queue := ms, gn_results := gn_results g @ [YieldRes (rm_data m)]\<rparr>"
  have "genStep (g\<lparr>gn_requests := [NextReq False]\<rparr>) = Some ?g"
    using assms(1) by (auto simp: genStep_def idle_def)
  moreover have "genStep ?g = Some ?y"
    using assms by (simp add: genStep_def partialMsg_def Let_def)
  ultimately have "genNext False g = ?y"
    using assms(1) by (simp add: genNext_def idle_def genRun.simps [of "g\<lparr>gn_requests := [NextReq False]\<rparr>"]
        genRun.simps [of ?g] genRun_no_request)
  then show ?thesis using assms(1) by (simp add: idle_def)
qed

lemma genNext_partials:
  "idle g \<Longrightarrow> gn_queue g = ms @ rest \<Longrightarrow> \<forall>m \<in> set ms. partialMsg m \<Longrightarrow>
    \<exists>g'. (genNext False ^^ length ms) g = g' \<and> idle g' \<and> gn_queue g' = rest \<and>
      gn_results g' = gn_results g @ map (YieldRes \<circ> rm_data) ms \<and> gn_cancels g' = gn_cancels g"
proof (induction ms arbitrary: g)
  case (Cons m ms)
  obtain g1 where g1: "genNext False g = g1" "idle g1" "gn_queue g1 = ms @ rest"
    "gn_results g1 = gn_results g @ [YieldRes (rm_data m)]" "gn_cancels g1 = gn_cancels g"
    using genNext_partial [of g m "ms @ rest"] Cons.prems by auto
  have "(genNext False ^^ length (m # ms)) g = (genNext False ^^ length ms) g1"
    using g1(1) by (simp add: funpow_swap1)
  with Cons.IH [OF g1(2,3)] Cons.prems(3) g1(4,5) show ?case by simp
qed simp

lemma genStep_keeps_asking:
  assumes "genStep g = Some g'" "NextReq True \<notin> set (gn_requests g)"
  shows "gn_cancels g' = gn_cancels g \<and> NextReq True \<notin> set (gn_requests g')"
  using assms
  by (auto simp: genStep_def finishGen_def Let_def split: list.splits genPhase.splits genRequest.splits option.splits if_splits)

text \<open>A consumer that only asks for more sends no cancel.\<close>

lemma genRun_keeps_asking:
  "NextReq True \<notin> set (gn_requests g) \<Longrightarrow>
    gn_cancels (genRun g) = gn_cancels g \<and> NextReq True \<notin> set (gn_requests (genRun g))"
proof (induction g rule: genRun.induct)
  case (1 g)
  show ?case
  proof (cases "genStep g")
    case None
    with 1 show ?thesis by (subst (1 2) genRun.simps) simp
  next
    case (Some g')
    from genStep_keeps_asking [OF this 1(2)] 1(1) [OF Some] Some show ?thesis
      by (subst (1 2) genRun.simps) simp
  qed
qed

lemma stream_received:
  assumes "\<forall>m \<in> set ms. partialMsg m" "rm_error f \<noteq> None \<or> (\<not> rm_cont f \<and> isNullish (rm_data f))"
  shows "\<exists>g. (genNext False ^^ Suc (length ms)) (fold genMessage (ms @ [f]) (startGenerator q timeout)) = g \<and>
    gn_results g = map (YieldRes \<circ> rm_data) ms @ [case rm_error f of Some e \<Rightarrow> ThrowRes e | None \<Rightarrow> DoneRes] \<and>
    gn_phase g = Finished \<and> \<not> gn_open g \<and> \<not> gn_timer g \<and> gn_cancels g = 0"
proof -
  have start: "idle (startGenerator q timeout)" by (simp add: idle_def startGenerator_def)
  let ?g0 = "fold genMessage (ms @ [f]) (startGenerator q timeout)"
  have g0: "idle ?g0" "gn_queue ?g0 = ms @ [f]" "gn_results ?g0 = []" "gn_cancels ?g0 = 0"
    using fold_genMessage [OF start, of "ms @ [f]"] start by (simp_all add: idle_def startGenerator_def)
  obtain g1 where g1: "(genNext False ^^ length ms) ?g0 = g1" "idle g1" "gn_queue g1 = [f]"
    "gn_results g1 = map (YieldRes \<circ> rm_data) ms" "gn_cancels g1 = 0"
    using genNext_partials [OF g0(1,2) assms(1)] g0 by auto
  let ?g = "g1\<lparr>gn_requests := [NextReq False], gn_phase := InLoop\<rparr>"
  let ?res = "case rm_error f of Some e \<Rightarrow> ThrowRes e | None \<Rightarrow> DoneRes"
  have "genStep (g1\<lparr>gn_requests := [NextReq False]\<rparr>) = Some ?g"
    using g1(2) by (auto simp: genStep_def idle_def)
  moreover have "genStep ?g = Some (finishGen ?res (?g\<lparr>gn_queue := []\<rparr>))"
    using g1(3) assms(2) by (auto simp: genStep_def Let_def split: option.split)
  ultimately have "genNext False g1 = finishGen ?res (?g\<lparr>gn_queue := []\<rparr>)"
    using g1(2) by (simp add: genNext_def idle_def genRun.simps [of "g1\<lparr>gn_requests := [NextReq False]\<rparr>"]
        genRun.simps [of ?g] genRun_no_request finishGen_def)
  then show ?thesis using g1 by (simp add: finishGen_def)
qed

text \<open>
  C17: a stream is received in order and complete: when the partial messages of a call have
  arrived, followed by an error or by an empty last message, asking for the next value once for
  each message yields their data in order, and asking once more throws the error or reports the
  end; the request is then closed and its timer stopped, and no cancel is sent.
\<close>

theorem stream_in_order_then_end:
  assumes "\<forall>m \<in> set ms. partialMsg m" "rm_error f \<noteq> None \<or> (\<not> rm_cont f \<and> isNullish (rm_data f))"
  shows "\<exists>g. (genNext False ^^ Suc (length ms)) (fold genMessage (ms @ [f]) (startGenerator q timeout)) = g \<and>
    gn_results g = map (YieldRes \<circ> rm_data) ms @ [case rm_error f of Some e \<Rightarrow> ThrowRes e | None \<Rightarrow> DoneRes] \<and>
    gn_phase g = Finished \<and> \<not> gn_open g \<and> \<not> gn_timer g \<and> gn_cancels g = 0"
  using assms by (rule stream_received)

theorem stream_in_order_then_end_witness:
  "\<exists>g. (genNext False ^^ Suc (length [emptyMsg\<lparr>rm_cont := True, rm_data := JBool True\<rparr>]))
      (fold genMessage ([emptyMsg\<lparr>rm_cont := True, rm_data := JBool True\<rparr>] @ [emptyMsg]) (startGenerator ''r1'' (Some 5000))) = g \<and>
    gn_results g = map (YieldRes \<circ> rm_data) [emptyMsg\<lparr>rm_cont := True, rm_data := JBool True\<rparr>] @
      [case rm_error emptyMsg of Some e \<Rightarrow> ThrowRes e | None \<Rightarrow> DoneRes] \<and>
    gn_phase g = Finished \<and> \<not> gn_open g \<and> \<not> gn_timer g \<and> gn_cancels g = 0"
  by (rule stream_in_order_then_end) (simp_all add: partialMsg_def emptyMsg_def isNullish_def)

end
