(* ===== verification/RpcSystem.thy ===== *)
theory RpcSystem
  imports WshRouter WshClient
begin

text \<open>
  The router and the clients of a window together (sendRpcCommand, sendRpcResponse and
  sendRpcCancel of wshrpcutil.ts, which call the router, and the clients that the router calls).
  Everything up to the first \<open>await\<close> of a command handler happens inside the call of the router
  that delivers the command; the rest happens when the promise that the handler awaits settles.
\<close>

section \<open>State\<close>

text \<open>
  A handler: the responses that it sends before it first awaits something, whether it is an
  \<open>async\<close> function, so that its caller awaits it, the responses that it sends later, and its outcome.
\<close>

record asyncHandler =
  ah_sync :: "rpcMessage option list"
  ah_promise :: bool
  ah_later :: "rpcMessage option list"
  ah_outcome :: handlerOutcome

type_synonym handlerTable = "string \<Rightarrow> (string, json \<Rightarrow> asyncHandler) js_map"

text \<open>Clients are named by the routes under which they are registered.\<close>

record rpcSystem =
  sy_router :: "string wshRouter"
  sy_gens :: "string \<Rightarrow> (string, rpcGen) js_map"     \<comment> \<open>the generators of a client, with \<open>openRpcs\<close>\<close>
  sy_started :: "(string \<times> rpcMessage) list"          \<comment> \<open>commands given to \<open>handleIncomingCommand\<close>\<close>
  sy_suspended :: "(responseHelper \<times> rpcMessage option list \<times> handlerOutcome) list"
  sy_upstream :: "rpcMessage list"
  sy_events :: "json list"

section \<open>Delivering\<close>

definition openIds :: "(string, rpcGen) js_map \<Rightarrow> string list" where
  "openIds gens = map fst (filter (\<lambda>(q, g). gn_open g) gens)"

definition updGen :: "string \<Rightarrow> string \<Rightarrow> (rpcGen \<Rightarrow> rpcGen) \<Rightarrow> rpcSystem \<Rightarrow> rpcSystem" where
  "updGen c q f s =
     (case map_get (sy_gens s c) q of
        None \<Rightarrow> s
      | Some g \<Rightarrow> s\<lparr>sy_gens := (sy_gens s)(c := map_set q (f g) (sy_gens s c))\<rparr>)"

definition deliver :: "string delivery \<Rightarrow> rpcSystem \<Rightarrow> rpcSystem" where
  "deliver d s =
     (case d of
        ToUpstream m \<Rightarrow> s\<lparr>sy_upstream := sy_upstream s @ [m]\<rparr>
      | ToEvents e \<Rightarrow> s\<lparr>sy_events := sy_events s @ [e]\<rparr>
      | ToClient c m \<Rightarrow>
          (case clientRecv (openIds (sy_gens s c)) m of
             HandleCommand m \<Rightarrow> s\<lparr>sy_started := sy_started s @ [(c, m)]\<rparr>
           | GiveToGenerator q m \<Rightarrow> updGen c q (genMessage m) s
           | DropMessage \<Rightarrow> s))"

definition routeOne :: "rpcMessage \<Rightarrow> rpcSystem \<Rightarrow> rpcSystem" where
  "routeOne msg s = (let (out, r) = routerRecv msg (sy_router s) in fold deliver out (s\<lparr>sy_router := r\<rparr>))"

section \<open>Handling\<close>

definition commandBody :: "handlerTable \<Rightarrow> string \<Rightarrow> rpcMessage \<Rightarrow> asyncHandler" where
  "commandBody handlers c msg =
     (case map_get (handlers c) (''handle_'' @ (case rm_command msg of None \<Rightarrow> ''undefined'' | Some cmd \<Rightarrow> cmd)) of
        Some handler \<Rightarrow> handler (rm_data msg)
      | None \<Rightarrow> \<lparr>ah_sync = [], ah_promise = True, ah_later = [], ah_outcome = snd (handle_default c msg)\<rparr>)"

definition sendAll :: "rpcMessage option list \<Rightarrow> responseHelper \<Rightarrow> responseHelper" where
  "sendAll rs hp = foldl (\<lambda>hp r. sendResponse r hp) hp rs"

definition finishCommand :: "handlerOutcome \<Rightarrow> responseHelper \<Rightarrow> responseHelper" where
  "finishCommand outcome hp =
     (let hp = (case outcome of
                  Returned result \<Rightarrow> if \<not> rh_done hp then sendResponse (Some (emptyMsg\<lparr>rm_data := result\<rparr>)) hp else hp
                | Threw e \<Rightarrow> if \<not> rh_done hp then sendResponse (Some (emptyMsg\<lparr>rm_error := Some e\<rparr>)) hp else hp)
      in if \<not> rh_done hp then sendResponse (Some emptyMsg) hp else hp)"

text \<open>
  The responses that a helper sent since it was in its first state are routed; when the last one
  was among them, the request is deleted from the open ones of the handling client.
\<close>

definition dispatch :: "responseHelper \<Rightarrow> responseHelper \<Rightarrow> rpcSystem \<Rightarrow> rpcSystem" where
  "dispatch hp hp' s =
     (let s = fold routeOne (drop (length (rh_sent hp)) (rh_sent hp')) s
      in if rh_closed hp' \<and> \<not> rh_closed hp
         then updGen (rh_clientRouteId hp') (the (rm_reqid (rh_cmdMsg hp'))) (\<lambda>g. g\<lparr>gn_open := False\<rparr>) s
         else s)"

definition startCommand :: "handlerTable \<Rightarrow> string \<times> rpcMessage \<Rightarrow> rpcSystem \<Rightarrow> rpcSystem" where
  "startCommand handlers cm s =
     (let (c, msg) = cm;
          body = commandBody handlers c msg;
          hp = newResponseHelper c msg;
          hp1 = sendAll (ah_sync body) hp
      in if ah_promise body
         then let s = dispatch hp hp1 s in s\<lparr>sy_suspended := sy_suspended s @ [(hp1, ah_later body, ah_outcome body)]\<rparr>
         else dispatch hp (finishCommand (ah_outcome body) hp1) s)"

text \<open>The promise of a suspended handler settles, after what else it sends.\<close>

definition resumeCommand :: "nat \<Rightarrow> rpcSystem \<Rightarrow> rpcSystem" where
  "resumeCommand i s =
     (if i < length (sy_suspended s) then
        let (hp, later, outcome) = sy_suspended s ! i
        in dispatch hp (finishCommand outcome (sendAll later hp))
             (s\<lparr>sy_suspended := take i (sy_suspended s) @ drop (Suc i) (sy_suspended s)\<rparr>)
      else s)"

text \<open>\<open>DefaultRouter.recvRpcMessage\<close>, with what the clients do inside the call.\<close>

definition routerReceives :: "handlerTable \<Rightarrow> rpcMessage \<Rightarrow> rpcSystem \<Rightarrow> rpcSystem" where
  "routerReceives handlers msg s =
     (let s = routeOne msg s
      in fold (startCommand handlers) (sy_started s) (s\<lparr>sy_started := []\<rparr>))"

section \<open>Calling\<close>

text \<open>\<open>sendRpcCommand\<close>: the message is sent first; the generator is made and started afterwards.\<close>

definition sendRpcCommand :: "handlerTable \<Rightarrow> string \<Rightarrow> rpcMessage \<Rightarrow> rpcSystem \<Rightarrow> bool \<times> rpcSystem" where
  "sendRpcCommand handlers a msg s =
     (let s = routerReceives handlers msg s
      in case rm_reqid msg of
           None \<Rightarrow> (False, s)
         | Some reqid \<Rightarrow>
             (True, s\<lparr>sy_gens := (sy_gens s)(a := map_set reqid (startGenerator reqid (rm_timeout msg)) (sy_gens s a))\<rparr>))"

text \<open>A consumer asks the generator of a request for the next value; ending early sends a cancel.\<close>

definition rpcNext :: "handlerTable \<Rightarrow> string \<Rightarrow> string \<Rightarrow> bool \<Rightarrow> rpcSystem \<Rightarrow> rpcSystem" where
  "rpcNext handlers a q v s =
     (case map_get (sy_gens s a) q of
        None \<Rightarrow> s
      | Some g \<Rightarrow>
          let s' = updGen a q (genNext v) s
          in if gn_cancels g < gn_cancels (genNext v g) then routerReceives handlers (cancelMsg q) s' else s')"

definition rpcTimeout :: "string \<Rightarrow> string \<Rightarrow> rpcSystem \<Rightarrow> rpcSystem" where
  "rpcTimeout a q s = updGen a q genTimeout s"

definition wshRpcStream ::
  "handlerTable \<Rightarrow> string \<Rightarrow> string \<Rightarrow> json \<Rightarrow> rpcOpts option \<Rightarrow> string \<Rightarrow> rpcSystem \<Rightarrow> (js_error + bool) \<times> rpcSystem" where
  "wshRpcStream handlers a command data opts uuid s =
     (case wshRpcStreamMsg a command data opts uuid of
        Inl e \<Rightarrow> (Inl e, s)
      | Inr msg \<Rightarrow> let (b, s) = sendRpcCommand handlers a msg s in (Inr b, s))"

text \<open>A call asks its generator at once for one value.\<close>

definition wshRpcCall ::
  "handlerTable \<Rightarrow> string \<Rightarrow> string \<Rightarrow> json \<Rightarrow> rpcOpts option \<Rightarrow> string \<Rightarrow> rpcSystem \<Rightarrow> bool \<times> rpcSystem" where
  "wshRpcCall handlers a command data opts uuid s =
     (let (b, s) = sendRpcCommand handlers a (wshRpcCallMsg a command data opts uuid) s
      in (b, if b then rpcNext handlers a uuid True s else s))"

section \<open>Handling a command is the client's\<close>

text \<open>The parts before and after the first await together are what the client does with a command.\<close>

lemma finishCommand_handles:
  assumes "map_get handlers (''handle_'' @ (case rm_command msg of None \<Rightarrow> ''undefined'' | Some c \<Rightarrow> c)) =
    Some (\<lambda>d. (sync @ later, outcome))"
  shows "finishCommand outcome (sendAll later (sendAll sync (newResponseHelper c msg))) =
    handleIncomingCommand handlers c msg"
  using assms by (simp add: finishCommand_def sendAll_def handleIncomingCommand_def Let_def split: handlerOutcome.split)

section \<open>Responses\<close>

definition addressed :: "string \<Rightarrow> string \<Rightarrow> rpcMessage \<Rightarrow> rpcMessage" where
  "addressed q b m = m\<lparr>rm_resid := Some q, rm_source := Some b\<rparr>"

definition forRequest :: "string \<Rightarrow> string \<Rightarrow> responseHelper \<Rightarrow> bool" where
  "forRequest q b hp \<longleftrightarrow> rm_reqid (rh_cmdMsg hp) = Some q \<and> q \<noteq> [] \<and> rh_clientRouteId hp = b \<and> \<not> rh_done hp \<and> \<not> rh_closed hp"

lemma sendAll_partials:
  "forRequest q b hp \<Longrightarrow> \<forall>m \<in> set ms. rm_cont m \<Longrightarrow>
    sendAll (map Some ms) hp = hp\<lparr>rh_sent := rh_sent hp @ map (addressed q b) ms\<rparr>"
proof (induction ms arbitrary: hp)
  case (Cons m ms)
  have "sendResponse (Some m) hp = hp\<lparr>rh_sent := rh_sent hp @ [addressed q b m]\<rparr>"
    using Cons.prems by (simp add: sendResponse_def forRequest_def isBlank_def addressed_def Let_def)
  moreover have "forRequest q b (hp\<lparr>rh_sent := rh_sent hp @ [addressed q b m]\<rparr>)"
    using Cons.prems(1) by (simp add: forRequest_def)
  ultimately show ?case using Cons by (simp add: sendAll_def)
qed (simp add: sendAll_def)

definition outcomeMsg :: "handlerOutcome \<Rightarrow> rpcMessage" where
  "outcomeMsg out = (case out of Returned v \<Rightarrow> emptyMsg\<lparr>rm_data := v\<rparr> | Threw e \<Rightarrow> emptyMsg\<lparr>rm_error := Some e\<rparr>)"

lemma finishCommand_open:
  assumes "forRequest q b hp"
  shows "finishCommand out hp = hp\<lparr>rh_sent := rh_sent hp @ [addressed q b (outcomeMsg out)], rh_done := True, rh_closed := True\<rparr>"
  using assms by (auto simp: finishCommand_def sendResponse_def forRequest_def isBlank_def addressed_def outcomeMsg_def
      emptyMsg_def Let_def split: handlerOutcome.split)

text \<open>A request of a client that waits, with the messages that have arrived for it.\<close>

definition serving :: "string \<Rightarrow> string \<Rightarrow> nat option \<Rightarrow> rpcMessage list \<Rightarrow> rpcSystem \<Rightarrow> bool" where
  "serving a q t ms s \<longleftrightarrow>
     map_get (routeMap (sy_router s)) a = Some a \<and>
     (\<exists>info. map_get (rpcMap (sy_router s)) q = Some info \<and> ri_sourceRouteId info = Some a) \<and>
     map_get (sy_gens s a) q = Some ((startGenerator q t)\<lparr>gn_queue := ms\<rparr>)"

lemma map_get_openIds:
  assumes "map_get gens q = Some g" "gn_open g" shows "q \<in> set (openIds gens)"
  using assms by (force simp: map_get_def openIds_def dest: map_of_SomeD)

lemma deliver_response:
  assumes "map_get (sy_gens s a) q = Some ((startGenerator q t)\<lparr>gn_queue := ms\<rparr>)" "isResponse q ct m"
    and "rm_command m = None" "rm_reqid m = None"
  shows "deliver (ToClient a m) s =
    s\<lparr>sy_gens := (sy_gens s)(a := map_set q ((startGenerator q t)\<lparr>gn_queue := ms @ [m]\<rparr>) (sy_gens s a))\<rparr>"
proof -
  have "q \<in> set (openIds (sy_gens s a))"
    by (rule map_get_openIds [OF assms(1)]) (simp add: startGenerator_def)
  then show ?thesis
    using assms by (simp add: deliver_def clientRecv_def isResponse_def updGen_def genMessage_def startGenerator_def genRun_no_request)
qed

lemma routeOne_response:
  assumes "serving a q t ms s" "isResponse q ct m" "rm_command m = None" "rm_reqid m = None" "q \<noteq> []"
  shows "map_get (sy_gens (routeOne m s) a) q = Some ((startGenerator q t)\<lparr>gn_queue := ms @ [m]\<rparr>)"
    and "ct \<Longrightarrow> serving a q t (ms @ [m]) (routeOne m s)"
    and "sy_started (routeOne m s) = sy_started s"
    and "sy_suspended (routeOne m s) = sy_suspended s"
proof -
  obtain info where info: "map_get (rpcMap (sy_router s)) q = Some info" "ri_sourceRouteId info = Some a"
    using assms(1) by (auto simp: serving_def)
  define r where "r = (if ct then sy_router s else (sy_router s)\<lparr>rpcMap := map_delete q (rpcMap (sy_router s))\<rparr>)"
  have recv: "routerRecv m (sy_router s) = ([ToClient a m], r)"
    using routerRecv_response [OF assms(2,5), of "sy_router s"] info assms(1)
    by (simp add: sendRoutedMessage_def serving_def r_def)
  define g where "g = (startGenerator q t)\<lparr>gn_queue := ms @ [m]\<rparr>"
  have "map_get (sy_gens (s\<lparr>sy_router := r\<rparr>) a) q = Some ((startGenerator q t)\<lparr>gn_queue := ms\<rparr>)"
    using assms(1) by (simp add: serving_def)
  from deliver_response [OF this assms(2-4)]
  have eq: "routeOne m s = s\<lparr>sy_router := r, sy_gens := (sy_gens s)(a := map_set q g (sy_gens s a))\<rparr>"
    by (simp add: routeOne_def recv g_def)
  show "map_get (sy_gens (routeOne m s) a) q = Some ((startGenerator q t)\<lparr>gn_queue := ms @ [m]\<rparr>)"
    "sy_started (routeOne m s) = sy_started s" "sy_suspended (routeOne m s) = sy_suspended s"
    by (simp_all add: eq g_def)
  show "serving a q t (ms @ [m]) (routeOne m s)" if ct
    using assms(1) that unfolding serving_def eq r_def by (simp add: g_def)
qed

lemma route_partials:
  assumes "q \<noteq> []" "\<forall>m \<in> set rs. isResponse q True m \<and> rm_command m = None \<and> rm_reqid m = None" "serving a q t ms s"
  shows "serving a q t (ms @ rs) (fold routeOne rs s)"
  using assms(2,3)
proof (induction rs arbitrary: ms s)
  case (Cons m rs)
  have "serving a q t (ms @ [m]) (routeOne m s)"
    using routeOne_response(2) [OF Cons.prems(2), of True m] Cons.prems(1) assms(1) by simp
  then have "serving a q t ((ms @ [m]) @ rs) (fold routeOne rs (routeOne m s))"
    using Cons.prems(1) by (intro Cons.IH) simp_all
  then show ?case by simp
qed simp

lemma dispatch_to_requester:
  assumes "serving a q t [] s" "forRequest q b hp" "a \<noteq> b"
    and "\<forall>m \<in> set ms. rm_cont m \<and> rm_command m = None \<and> rm_reqid m = None"
  shows "map_get (sy_gens (dispatch hp (finishCommand out (sendAll (map Some ms) hp)) s) a) q =
    Some ((startGenerator q t)\<lparr>gn_queue := map (addressed q b) (ms @ [outcomeMsg out])\<rparr>)"
proof -
  have q: "q \<noteq> []" using assms(2) by (simp add: forRequest_def)
  let ?rs = "map (addressed q b) ms" let ?f = "addressed q b (outcomeMsg out)"
  have "forRequest q b (hp\<lparr>rh_sent := rh_sent hp @ ?rs\<rparr>)" using assms(2) by (simp add: forRequest_def)
  then have hp': "finishCommand out (sendAll (map Some ms) hp) =
      hp\<lparr>rh_sent := rh_sent hp @ ?rs @ [?f], rh_done := True, rh_closed := True\<rparr>"
    using sendAll_partials [OF assms(2)] assms(4) by (simp add: finishCommand_open)
  have rs: "\<forall>m \<in> set ?rs. isResponse q True m \<and> rm_command m = None \<and> rm_reqid m = None"
    using assms(4) by (auto simp: isResponse_def addressed_def isBlank_def)
  have f: "isResponse q False ?f" "rm_command ?f = None" "rm_reqid ?f = None"
    by (auto simp: isResponse_def addressed_def isBlank_def outcomeMsg_def emptyMsg_def split: handlerOutcome.split)
  from route_partials [OF q rs assms(1)] have "serving a q t ?rs (fold routeOne ?rs s)" by simp
  from routeOne_response(1) [OF this f q]
  have "map_get (sy_gens (fold routeOne (?rs @ [?f]) s) a) q = Some ((startGenerator q t)\<lparr>gn_queue := ?rs @ [?f]\<rparr>)"
    by simp
  moreover have "sy_gens (updGen b r g x) a = sy_gens x a" for r g x
    using assms(3) by (simp add: updGen_def split: option.split)
  ultimately show ?thesis using assms(2) by (simp add: dispatch_def hp' Let_def forRequest_def)
qed

section \<open>Calls between two clients of a window\<close>

definition plainCommand :: "string \<Rightarrow> bool" where
  "plainCommand c \<longleftrightarrow> c \<notin> {[], ''routeannounce'', ''routeunannounce'', ''eventrecv''}"

lemma route_command:
  assumes "plainCommand c" "rm_command msg = Some c" "rm_reqid msg = Some q" "q \<noteq> []" "rm_source msg = Some a"
    and "rm_route msg = Some b" "map_get (routeMap (sy_router s)) b = Some b" "sy_started s = []"
  shows "routerReceives handlers msg s = startCommand handlers (b, msg)
    (s\<lparr>sy_router := (sy_router s)\<lparr>rpcMap := map_set q \<lparr>ri_rpcId = q, ri_sourceRouteId = Some a, ri_destRouteId = Some b\<rparr>
        (rpcMap (sy_router s))\<rparr>, sy_started := []\<rparr>)"
proof -
  have "isRequest a q msg" using assms by (auto simp: isRequest_def plainCommand_def isBlank_def)
  from routerRecv_request [OF this, of "sy_router s"] assms(2,6-8) show ?thesis
    by (simp add: routerReceives_def routeOne_def sendRoutedMessage_def deliver_def clientRecv_def)
qed

text \<open>The message of a stream call from one client to another.\<close>

definition routedTo :: "string \<Rightarrow> nat option \<Rightarrow> rpcOpts option" where
  "routedTo b timeout = Some \<lparr>ro_timeout = timeout, ro_noresponse = False, ro_route = Some b\<rparr>"

lemma suspended_route [simp]: "sy_suspended (updGen c q f s) = sy_suspended s"
  by (simp add: updGen_def split: option.split)

lemma started_async:
  assumes "map_get (handlers b) (''handle_'' @ c) = Some h" "rm_command msg = Some c" "rm_data msg = data"
    and "h data = \<lparr>ah_sync = [], ah_promise = True, ah_later = later, ah_outcome = out\<rparr>"
  shows "startCommand handlers (b, msg) s = s\<lparr>sy_suspended := sy_suspended s @ [(newResponseHelper b msg, later, out)]\<rparr>"
  using assms by (simp add: startCommand_def commandBody_def sendAll_def dispatch_def newResponseHelper_def)

lemma resume_last:
  "resumeCommand (length xs) (s\<lparr>sy_suspended := xs @ [(hp, later, out)]\<rparr>) =
    dispatch hp (finishCommand out (sendAll later hp)) (s\<lparr>sy_suspended := xs\<rparr>)"
  by (simp add: resumeCommand_def)

text \<open>A consumer that only asks for more: the generator moves, and nothing else.\<close>

lemma rpcNext_False:
  assumes "map_get (sy_gens s a) q = Some g" "NextReq True \<notin> set (gn_requests g)"
  shows "map_get (sy_gens (rpcNext handlers a q False s) a) q = Some (genNext False g)"
    and "NextReq True \<notin> set (gn_requests (genNext False g))"
proof -
  have "gn_cancels (genNext False g) = gn_cancels g" "NextReq True \<notin> set (gn_requests (genNext False g))"
    using genRun_keeps_asking [of "g\<lparr>gn_requests := gn_requests g @ [NextReq False]\<rparr>"] assms(2) by (simp_all add: genNext_def)
  then show "map_get (sy_gens (rpcNext handlers a q False s) a) q = Some (genNext False g)"
    "NextReq True \<notin> set (gn_requests (genNext False g))"
    using assms(1) by (simp_all add: rpcNext_def updGen_def)
qed

lemma rpcNext_False_times:
  "map_get (sy_gens s a) q = Some g \<Longrightarrow> NextReq True \<notin> set (gn_requests g) \<Longrightarrow>
    map_get (sy_gens ((rpcNext handlers a q False ^^ n) s) a) q = Some ((genNext False ^^ n) g)"
proof (induction n arbitrary: s g)
  case (Suc n)
  from Suc.IH [OF rpcNext_False [OF Suc.prems]] show ?case by (simp add: funpow_swap1)
qed simp

lemma async_answer:
  assumes "map_get (routeMap (sy_router s)) a = Some a" "map_get (routeMap (sy_router s)) b = Some b" "a \<noteq> b" "b \<noteq> []"
    and "sy_started s = []" "plainCommand c" "q \<noteq> []"
    and "map_get (handlers b) (''handle_'' @ c) = Some h"
    and "h data = \<lparr>ah_sync = [], ah_promise = True, ah_later = map Some ms, ah_outcome = out\<rparr>"
    and "\<forall>m \<in> set ms. rm_cont m \<and> rm_command m = None \<and> rm_reqid m = None"
    and "msg = callMsg a c data (routedTo b t) (Some q)"
  shows "map_get (sy_gens (resumeCommand (length (sy_suspended s)) (snd (sendRpcCommand handlers a msg s))) a) q =
    Some ((startGenerator q (rm_timeout msg))\<lparr>gn_queue := map (addressed q b) (ms @ [outcomeMsg out])\<rparr>)"
proof -
  have msg: "rm_command msg = Some c" "rm_reqid msg = Some q" "rm_source msg = Some a" "rm_route msg = Some b" "rm_data msg = data"
    using assms(4,11) by (simp_all add: callMsg_def routedTo_def emptyMsg_def)
  define r where "r = (sy_router s)\<lparr>rpcMap := map_set q \<lparr>ri_rpcId = q, ri_sourceRouteId = Some a, ri_destRouteId = Some b\<rparr>
        (rpcMap (sy_router s))\<rparr>"
  define s1 where "s1 = s\<lparr>sy_router := r, sy_started := [],
    sy_gens := (sy_gens s)(a := map_set q (startGenerator q (rm_timeout msg)) (sy_gens s a))\<rparr>"
  have "snd (sendRpcCommand handlers a msg s) =
      s1\<lparr>sy_suspended := sy_suspended s @ [(newResponseHelper b msg, map Some ms, out)]\<rparr>"
    using route_command [where handlers = handlers, OF assms(6) msg(1,2) assms(7) msg(3,4) assms(2,5)] started_async [where h = h and data = data and handlers = handlers, OF assms(8) msg(1,5) assms(9)]
    by (simp add: sendRpcCommand_def msg r_def s1_def)
  moreover have "serving a q (rm_timeout msg) [] (s1\<lparr>sy_suspended := sy_suspended s\<rparr>)"
    using assms(1) by (simp add: serving_def s1_def r_def startGenerator_def)
  moreover have "forRequest q b (newResponseHelper b msg)"
    using assms(7) msg by (simp add: forRequest_def newResponseHelper_def)
  ultimately show ?thesis
    using dispatch_to_requester [OF _ _ assms(3,10)] by (simp add: resume_last)
qed

text \<open>
  C18: a stream call from one client of the window to another delivers what the handler sends: the
  router takes the command to the handling client, the handler, once it has awaited something,
  sends partial responses and ends, the router takes them back, and the caller's generator yields
  their data in order and then reports the end, or throws the handler's error.
\<close>

theorem stream_between_clients:
  assumes "map_get (routeMap (sy_router s)) a = Some a" "map_get (routeMap (sy_router s)) b = Some b" "a \<noteq> b" "b \<noteq> []"
    and "sy_started s = []" "plainCommand c" "q \<noteq> []"
    and "map_get (handlers b) (''handle_'' @ c) = Some h"
    and "h data = \<lparr>ah_sync = [], ah_promise = True, ah_later = map Some ms, ah_outcome = out\<rparr>"
    and "\<forall>m \<in> set ms. rm_cont m \<and> rm_command m = None \<and> rm_reqid m = None \<and> rm_error m = None"
    and "\<forall>v. out = Returned v \<longrightarrow> isNullish v"
    and "s1 = snd (wshRpcStream handlers a c data (routedTo b t) q s)"
    and "s2 = resumeCommand (length (sy_suspended s)) s1"
    and "s3 = (rpcNext handlers a q False ^^ Suc (length ms)) s2"
  shows "\<exists>g. map_get (sy_gens s3 a) q = Some g \<and> gn_phase g = Finished \<and>
    gn_results g = map (YieldRes \<circ> rm_data) ms @ [case out of Returned v \<Rightarrow> DoneRes | Threw e \<Rightarrow> ThrowRes e]"
proof -
  define msg where "msg = callMsg a c data (routedTo b t) (Some q)"
  define g0 where "g0 = (startGenerator q (rm_timeout msg))\<lparr>gn_queue := map (addressed q b) (ms @ [outcomeMsg out])\<rparr>"
  have "s1 = snd (sendRpcCommand handlers a msg s)"
    by (simp add: assms(12) wshRpcStream_def wshRpcStreamMsg_def wantsResponse_def routedTo_def msg_def [unfolded routedTo_def] split: prod.split)
  with async_answer [where h = h and data = data and handlers = handlers and ms = ms, OF assms(1-9) _ msg_def] assms(10,13) have g0: "map_get (sy_gens s2 a) q = Some g0"
    by (simp add: g0_def)
  then have "map_get (sy_gens s3 a) q = Some ((genNext False ^^ Suc (length ms)) g0)"
    unfolding assms(14) by (rule rpcNext_False_times) (simp add: g0_def startGenerator_def)
  moreover have "g0 = fold genMessage (map (addressed q b) ms @ [addressed q b (outcomeMsg out)]) (startGenerator q (rm_timeout msg))"
    unfolding g0_def by (subst fold_genMessage) (simp_all add: idle_def startGenerator_def)
  moreover have "\<forall>m \<in> set (map (addressed q b) ms). partialMsg m"
    using assms(10) by (auto simp: partialMsg_def addressed_def)
  moreover have "rm_error (addressed q b (outcomeMsg out)) \<noteq> None \<or>
      (\<not> rm_cont (addressed q b (outcomeMsg out)) \<and> isNullish (rm_data (addressed q b (outcomeMsg out))))"
    using assms(11) by (auto simp: addressed_def outcomeMsg_def emptyMsg_def split: handlerOutcome.split)
  ultimately show ?thesis
    using stream_received [of "map (addressed q b) ms" "addressed q b (outcomeMsg out)" q "rm_timeout msg"]
    by (auto simp: addressed_def comp_def outcomeMsg_def emptyMsg_def split: handlerOutcome.split)
qed

definition echoHandlers :: "rpcMessage list \<Rightarrow> bool \<Rightarrow> handlerTable" where
  "echoHandlers ms promise b =
     (if b = ''feblock:2'' then
        [(''handle_tail'', \<lambda>d. \<lparr>ah_sync = [], ah_promise = promise, ah_later = map Some ms, ah_outcome = Returned JUndef\<rparr>)]
      else [])"

definition twoClients :: rpcSystem where
  "twoClients =
     \<lparr>sy_router = \<lparr>routeMap = [(''feblock:1'', ''feblock:1''), (''feblock:2'', ''feblock:2'')], rpcMap = []\<rparr>,
      sy_gens = (\<lambda>_. []), sy_started = [], sy_suspended = [], sy_upstream = [], sy_events = []\<rparr>"

definition partOne :: rpcMessage where
  "partOne = emptyMsg\<lparr>rm_cont := True, rm_data := JBool True\<rparr>"

theorem stream_between_clients_witness:
  "\<exists>g. map_get (sy_gens ((rpcNext (echoHandlers [partOne] True) ''feblock:1'' ''r1'' False ^^ Suc (length [partOne]))
      (resumeCommand (length (sy_suspended twoClients))
        (snd (wshRpcStream (echoHandlers [partOne] True) ''feblock:1'' ''tail'' JUndef (routedTo ''feblock:2'' (Some 5000)) ''r1''
          twoClients)))) ''feblock:1'') ''r1'' = Some g \<and>
    gn_phase g = Finished \<and>
    gn_results g = map (YieldRes \<circ> rm_data) [partOne] @ [case Returned JUndef of Returned v \<Rightarrow> DoneRes | Threw e \<Rightarrow> ThrowRes e]"
  by (rule stream_between_clients [where b = "''feblock:2''" and
        h = "\<lambda>d. \<lparr>ah_sync = [], ah_promise = True, ah_later = map Some [partOne], ah_outcome = Returned JUndef\<rparr>", OF _ _ _ _ _ _ _ _ _ _ _ refl refl refl])
    (simp_all add: twoClients_def echoHandlers_def map_get_Cons plainCommand_def partOne_def emptyMsg_def isNullish_def)

section \<open>An answer that comes too early\<close>

text \<open>A request that the router knows, of a client that has no generator for it yet.\<close>

definition early :: "string \<Rightarrow> string \<Rightarrow> rpcSystem \<Rightarrow> bool" where
  "early a q s \<longleftrightarrow>
     map_get (routeMap (sy_router s)) a = Some a \<and>
     (\<exists>info. map_get (rpcMap (sy_router s)) q = Some info \<and> ri_sourceRouteId info = Some a) \<and>
     q \<notin> set (openIds (sy_gens s a))"

lemma routeOne_early:
  assumes "early a q s" "isResponse q ct m" "rm_command m = None" "rm_reqid m = None" "q \<noteq> []"
  shows "routeOne m s = (if ct then s else s\<lparr>sy_router := (sy_router s)\<lparr>rpcMap := map_delete q (rpcMap (sy_router s))\<rparr>\<rparr>)"
proof -
  obtain info where info: "map_get (rpcMap (sy_router s)) q = Some info" "ri_sourceRouteId info = Some a"
    using assms(1) by (auto simp: early_def)
  have "routerRecv m (sy_router s) = ([ToClient a m],
      if ct then sy_router s else (sy_router s)\<lparr>rpcMap := map_delete q (rpcMap (sy_router s))\<rparr>)"
    using routerRecv_response [OF assms(2,5), of "sy_router s"] info assms(1)
    by (simp add: sendRoutedMessage_def early_def)
  moreover have "deliver (ToClient a m) (s\<lparr>sy_router := r\<rparr>) = s\<lparr>sy_router := r\<rparr>" for r
    using assms by (simp add: deliver_def clientRecv_def isResponse_def early_def)
  ultimately show ?thesis by (simp add: routeOne_def)
qed

lemma route_early_partials:
  assumes "early a q s" "q \<noteq> []" "\<forall>m \<in> set rs. isResponse q True m \<and> rm_command m = None \<and> rm_reqid m = None"
  shows "fold routeOne rs s = s"
  using assms(3)
proof (induction rs)
  case (Cons m rs)
  have "routeOne m s = s" using routeOne_early [OF assms(1) _ _ _ assms(2), of True m] Cons.prems by simp
  moreover have "fold routeOne rs s = s" using Cons.prems by (intro Cons.IH) auto
  ultimately show ?case unfolding fold_Cons comp_apply by (simp only:)
qed simp

text \<open>
  The answer of a handler that answers without awaiting anything is lost when the caller is a
  client of the same window: the router delivers it before the caller has registered its
  generator. The caller's generator has received nothing, the router has forgotten the request, and
  a response that comes later changes nothing: without a timeout the call never returns.
\<close>

theorem immediate_answer_is_lost:
  assumes "map_get (routeMap (sy_router s)) a = Some a" "map_get (routeMap (sy_router s)) b = Some b" "a \<noteq> b" "b \<noteq> []"
    and "sy_started s = []" "plainCommand c" "q \<noteq> []" "q \<notin> set (openIds (sy_gens s a))"
    and "map_get (handlers b) (''handle_'' @ c) = Some h"
    and "h data = \<lparr>ah_sync = map Some ms, ah_promise = False, ah_later = [], ah_outcome = out\<rparr>"
    and "\<forall>m \<in> set ms. rm_cont m \<and> rm_command m = None \<and> rm_reqid m = None"
    and "s1 = snd (sendRpcCommand handlers a (callMsg a c data (routedTo b t) (Some q)) s)"
  shows "\<exists>g. map_get (sy_gens s1 a) q = Some g \<and> gn_open g \<and> gn_queue g = [] \<and> gn_results g = [] \<and>
    (\<forall>m ct. isResponse q ct m \<longrightarrow> routeOne m s1 = s1)"
proof -
  define msg where "msg = callMsg a c data (routedTo b t) (Some q)"
  have msg: "rm_command msg = Some c" "rm_reqid msg = Some q" "rm_source msg = Some a" "rm_route msg = Some b" "rm_data msg = data"
    using assms(4) by (simp_all add: callMsg_def routedTo_def emptyMsg_def msg_def)
  define r where "r = (sy_router s)\<lparr>rpcMap := map_set q \<lparr>ri_rpcId = q, ri_sourceRouteId = Some a, ri_destRouteId = Some b\<rparr>
        (rpcMap (sy_router s))\<rparr>"
  define s0 where "s0 = s\<lparr>sy_router := r, sy_started := []\<rparr>"
  define hp where "hp = newResponseHelper b msg"
  have early: "early a q s0" using assms(1,8) by (simp add: early_def s0_def r_def)
  have hp: "forRequest q b hp" "rh_sent hp = []" using assms(7) msg by (simp_all add: forRequest_def newResponseHelper_def hp_def)
  let ?rs = "map (addressed q b) ms" let ?f = "addressed q b (outcomeMsg out)"
  have "forRequest q b (hp\<lparr>rh_sent := rh_sent hp @ ?rs\<rparr>)" using hp by (simp add: forRequest_def)
  then have hp': "finishCommand out (sendAll (map Some ms) hp) =
      hp\<lparr>rh_sent := rh_sent hp @ ?rs @ [?f], rh_done := True, rh_closed := True\<rparr>"
    using sendAll_partials [OF hp(1)] assms(11) by (simp add: finishCommand_open)
  define s2 where "s2 = s0\<lparr>sy_router := r\<lparr>rpcMap := map_delete q (rpcMap r)\<rparr>\<rparr>"
  have rs: "\<forall>m \<in> set ?rs. isResponse q True m \<and> rm_command m = None \<and> rm_reqid m = None"
    using assms(11) by (auto simp: isResponse_def addressed_def isBlank_def)
  have f: "isResponse q False ?f" "rm_command ?f = None" "rm_reqid ?f = None"
    by (auto simp: isResponse_def addressed_def isBlank_def outcomeMsg_def emptyMsg_def split: handlerOutcome.split)
  have "fold routeOne (?rs @ [?f]) s0 = s2"
    using route_early_partials [OF early assms(7) rs] routeOne_early [OF early f assms(7)]
    by (simp add: s2_def s0_def)
  moreover have "startCommand handlers (b, msg) s0 = dispatch hp (finishCommand out (sendAll (map Some ms) hp)) s0"
    using assms(9,10) msg by (simp add: startCommand_def commandBody_def hp_def Let_def)
  ultimately have "startCommand handlers (b, msg) s0 = updGen b q (\<lambda>g. g\<lparr>gn_open := False\<rparr>) s2"
    using hp by (simp add: dispatch_def hp' Let_def forRequest_def)
  moreover have "sy_router (updGen b q u s2) = sy_router s2" for u
    by (simp add: updGen_def split: option.split)
  ultimately have s1: "map_get (sy_gens s1 a) q = Some (startGenerator q (rm_timeout msg))" "sy_router s1 = sy_router s2"
    using route_command [where handlers = handlers, OF assms(6) msg(1,2) assms(7) msg(3,4) assms(2,5)]
    by (simp_all add: assms(12) msg_def [symmetric] sendRpcCommand_def msg Let_def s0_def r_def)
  have "map_get (rpcMap (sy_router s1)) q = None" by (simp add: s1(2) s2_def)
  then have "routeOne m s1 = s1" if "isResponse q ct m" for m ct
    using routerRecv_response [OF that assms(7), of "sy_router s1"] by (simp add: routeOne_def)
  with s1(1) show ?thesis by (auto simp: startGenerator_def)
qed

theorem immediate_answer_is_lost_witness:
  "\<exists>g. map_get (sy_gens (snd (sendRpcCommand (echoHandlers [] False) ''feblock:1''
      (callMsg ''feblock:1'' ''tail'' JUndef (routedTo ''feblock:2'' None) (Some ''r1'')) twoClients)) ''feblock:1'') ''r1'' = Some g \<and>
    gn_open g \<and> gn_queue g = [] \<and> gn_results g = [] \<and>
    (\<forall>m ct. isResponse ''r1'' ct m \<longrightarrow>
      routeOne m (snd (sendRpcCommand (echoHandlers [] False) ''feblock:1''
        (callMsg ''feblock:1'' ''tail'' JUndef (routedTo ''feblock:2'' None) (Some ''r1'')) twoClients)) =
      snd (sendRpcCommand (echoHandlers [] False) ''feblock:1''
        (callMsg ''feblock:1'' ''tail'' JUndef (routedTo ''feblock:2'' None) (Some ''r1'')) twoClients))"
  by (rule immediate_answer_is_lost [where b = "''feblock:2''" and ms = "[]" and out = "Returned JUndef" and
        h = "\<lambda>d. \<lparr>ah_sync = [], ah_promise = False, ah_later = map Some [], ah_outcome = Returned JUndef\<rparr>", OF _ _ _ _ _ _ _ _ _ _ _ refl])
    (simp_all add: twoClients_def echoHandlers_def map_get_Cons plainCommand_def openIds_def)

end
