(* ===== verification/WsControl.thy ===== *)
theory WsControl
  imports RpcTypes "HOL-Library.Multiset"
begin

text \<open>
  The websocket connection to the backend (frontend/app/store/ws.ts): connecting and
  reconnecting with growing delays, the queue of the messages pushed while the connection is
  down, and the messages of the protocol. The connection itself is the environment: it raises
  open, message and close events and takes the texts that are sent; timers are entries
  \<open>(due time, action)\<close> of the state, and \<open>Date.now()\<close> is the argument \<open>now\<close>, in milliseconds.
\<close>

definition WarnWebSocketSendSize :: nat where
  "WarnWebSocketSendSize = 1024 * 1024"

definition MaxWebSocketSendSize :: nat where
  "MaxWebSocketSendSize = 5 * 1024 * 1024"

text \<open>A command: its name, and what \<open>JSON.stringify\<close> makes of it, one character for a byte.\<close>

record wsCommand =
  wc_wscommand :: string
  wc_text :: string

definition byteSize :: "wsCommand \<Rightarrow> nat" where
  "byteSize data = length (wc_text data)"

datatype wsText = PingText nat | PongText nat | CommandText wsCommand

datatype wsOutput =
    OpenSocket string "string option"   \<comment> \<open>the url and the auth key header\<close>
  | CloseSocket
  | SendText wsText
  | LogTooLarge wsCommand
  | LogLarge wsCommand

datatype wsTimer = ConnectNow | RunMsgQueue

record wsControl =
  ws_open :: bool
  ws_opening :: bool
  ws_reconnectTimes :: nat
  ws_msgQueue :: "wsCommand list"
  ws_lastReconnectTime :: nat
  ws_windowId :: string
  ws_baseHostPort :: string
  ws_authKey :: "string option"
  ws_timers :: "(nat \<times> wsTimer) list"
  ws_outputs :: "wsOutput list"
  ws_delivered :: "json list"           \<comment> \<open>the arguments of \<open>messageCallback\<close>\<close>

definition newWSControl :: "string \<Rightarrow> string \<Rightarrow> string option \<Rightarrow> wsControl" where
  "newWSControl baseHostPort windowId authKey =
     \<lparr>ws_open = False, ws_opening = False, ws_reconnectTimes = 0, ws_msgQueue = [],
      ws_lastReconnectTime = 0, ws_windowId = windowId, ws_baseHostPort = baseHostPort,
      ws_authKey = authKey, ws_timers = [], ws_outputs = [], ws_delivered = []\<rparr>"

definition emitOutput :: "wsOutput \<Rightarrow> wsControl \<Rightarrow> wsControl" where
  "emitOutput e ws = ws\<lparr>ws_outputs := ws_outputs ws @ [e]\<rparr>"

definition setTimer :: "nat \<Rightarrow> wsTimer \<Rightarrow> wsControl \<Rightarrow> wsControl" where
  "setTimer due act ws = ws\<lparr>ws_timers := ws_timers ws @ [(due, act)]\<rparr>"

section \<open>Connecting\<close>

definition connectNow :: "nat \<Rightarrow> wsControl \<Rightarrow> wsControl" where
  "connectNow now ws =
     (if ws_open ws then ws
      else emitOutput (OpenSocket (ws_baseHostPort ws @ ''/ws?windowid='' @ ws_windowId ws) (ws_authKey ws))
             (ws\<lparr>ws_lastReconnectTime := now, ws_opening := True\<rparr>))"

definition timeoutArr :: "nat list" where
  "timeoutArr = [0, 0, 2, 5, 10, 10, 30, 60]"

definition reconnectTimeout :: "nat \<Rightarrow> wsControl \<Rightarrow> nat" where
  "reconnectTimeout now ws =
     (let timeout = (if ws_reconnectTimes ws < length timeoutArr
                     then timeoutArr ! ws_reconnectTimes ws else 60)
      in if int now - int (ws_lastReconnectTime ws) < 500 then 1 else timeout)"

definition reconnect :: "nat \<Rightarrow> bool \<Rightarrow> wsControl \<Rightarrow> wsControl" where
  "reconnect now forceClose ws =
     (if ws_open ws then (if forceClose then emitOutput CloseSocket ws else ws)
      else
        let ws = ws\<lparr>ws_reconnectTimes := Suc (ws_reconnectTimes ws)\<rparr> in
        if 20 < ws_reconnectTimes ws then ws
        else setTimer (now + reconnectTimeout now ws * 1000) ConnectNow ws)"

definition onclose :: "nat \<Rightarrow> wsControl \<Rightarrow> wsControl" where
  "onclose now ws =
     (if ws_open ws \<or> ws_opening ws
      then reconnect now False (ws\<lparr>ws_open := False, ws_opening := False\<rparr>)
      else ws)"

section \<open>Sending\<close>

definition sendMessage :: "wsCommand \<Rightarrow> wsControl \<Rightarrow> wsControl" where
  "sendMessage data ws =
     (if \<not> ws_open ws then ws
      else if MaxWebSocketSendSize < byteSize data then emitOutput (LogTooLarge data) ws
      else emitOutput (SendText (CommandText data))
             (if WarnWebSocketSendSize < byteSize data then emitOutput (LogLarge data) ws else ws))"

definition pushMessage :: "wsCommand \<Rightarrow> wsControl \<Rightarrow> wsControl" where
  "pushMessage data ws =
     (if \<not> ws_open ws then ws\<lparr>ws_msgQueue := ws_msgQueue ws @ [data]\<rparr>
      else sendMessage data ws)"

definition runMsgQueue :: "nat \<Rightarrow> wsControl \<Rightarrow> wsControl" where
  "runMsgQueue now ws =
     (if \<not> ws_open ws then ws
      else case ws_msgQueue ws of
        [] \<Rightarrow> ws
      | msg # msgs \<Rightarrow>
          setTimer (now + 100) RunMsgQueue (sendMessage msg (ws\<lparr>ws_msgQueue := msgs\<rparr>)))"

definition sendPing :: "nat \<Rightarrow> wsControl \<Rightarrow> wsControl" where
  "sendPing now ws = (if \<not> ws_open ws then ws else emitOutput (SendText (PingText now)) ws)"

section \<open>Events\<close>

text \<open>
  The reconnect handlers of the module, in the order they were added; a handler that throws
  ends the event, so the queue is then not started. Removing a handler reads a property of
  \<open>this\<close>, which a call of a module function leaves undefined.
\<close>

type_synonym reconnectHandler = "wsControl \<Rightarrow> (js_error + unit) \<times> wsControl"

definition addWSReconnectHandler :: "'h \<Rightarrow> 'h list \<Rightarrow> 'h list" where
  "addWSReconnectHandler handler reconnectHandlers = reconnectHandlers @ [handler]"

definition removeWSReconnectHandler :: "'h \<Rightarrow> 'h list \<Rightarrow> (js_error + unit) \<times> 'h list" where
  "removeWSReconnectHandler handler reconnectHandlers = (Inl TypeError, reconnectHandlers)"

definition onopen :: "reconnectHandler list \<Rightarrow> nat \<Rightarrow> wsControl \<Rightarrow> (js_error + unit) \<times> wsControl" where
  "onopen reconnectHandlers now ws =
     andThen (forEachS (\<lambda>handler. handler) reconnectHandlers (ws\<lparr>ws_open := True, ws_opening := False\<rparr>))
       (\<lambda>_ ws. (Inr (), runMsgQueue now ws))"

text \<open>A message event with its parsed data; \<open>null\<close> stands for a message without data.\<close>

definition onmessage :: "nat \<Rightarrow> json \<Rightarrow> wsControl \<Rightarrow> wsControl" where
  "onmessage now eventData ws =
     (if isNullish eventData then ws
      else
        let type1 = getProp eventData ''type'' in
        if type1 = JStr ''ping'' then emitOutput (SendText (PongText now)) ws
        else if type1 = JStr ''pong'' then ws
        else if type1 = JStr ''hello'' then ws\<lparr>ws_reconnectTimes := 0\<rparr>
        else ws\<lparr>ws_delivered := ws_delivered ws @ [eventData]\<rparr>)"

section \<open>The connection as a state machine\<close>

text \<open>
  What can happen at a time: the application connects, pushes a message or asks for a reconnect, the
  socket raises an event, the ping interval elapses, a due timer fires. A socket opens only
  while one is being opened.
\<close>

datatype wsEvent =
    Connect
  | Push wsCommand
  | Reconnect bool
  | SocketOpen
  | SocketMessage json
  | SocketClose
  | PingInterval
  | TimerFires nat      \<comment> \<open>the index of the timer\<close>

definition runTimer :: "nat \<Rightarrow> wsTimer \<Rightarrow> wsControl \<Rightarrow> wsControl" where
  "runTimer now act ws = (case act of ConnectNow \<Rightarrow> connectNow now ws | RunMsgQueue \<Rightarrow> runMsgQueue now ws)"

inductive wsStep :: "reconnectHandler list \<Rightarrow> wsEvent \<Rightarrow> wsControl \<Rightarrow> wsControl \<Rightarrow> bool"
  for handlers where
  push: "wsStep handlers (Push c) ws (pushMessage c ws)"
| connect: "wsStep handlers Connect ws (connectNow now ws)"
| reconnect: "wsStep handlers (Reconnect force) ws (reconnect now force ws)"
| opened: "ws_opening ws \<Longrightarrow> wsStep handlers SocketOpen ws (snd (onopen handlers now ws))"
| message: "ws_open ws \<Longrightarrow> wsStep handlers (SocketMessage d) ws (onmessage now d ws)"
| closed: "wsStep handlers SocketClose ws (onclose now ws)"
| ping: "wsStep handlers PingInterval ws (sendPing now ws)"
| timer: "i < length (ws_timers ws) \<Longrightarrow> ws_timers ws ! i = (due, act) \<Longrightarrow> due \<le> now \<Longrightarrow>
    wsStep handlers (TimerFires i) ws
      (runTimer now act (ws\<lparr>ws_timers := take i (ws_timers ws) @ drop (Suc i) (ws_timers ws)\<rparr>))"

inductive wsRun :: "reconnectHandler list \<Rightarrow> wsControl \<Rightarrow> wsEvent list \<Rightarrow> wsControl \<Rightarrow> bool"
  for handlers where
  start: "wsRun handlers ws [] ws"
| step: "wsRun handlers ws es ws' \<Longrightarrow> wsStep handlers e ws' ws'' \<Longrightarrow> wsRun handlers ws (es @ [e]) ws''"

inductive_cases wsStepE: "wsStep handlers e ws ws'"

end
