(* ===== verification/WsProps.thy ===== *)
theory WsProps
  imports WsControl
begin

text \<open>
  Properties of the websocket control: every pushed command is sent once, logged as too large
  or still queued, whatever the socket does; and without a greeting of the server only a
  bounded number of sockets is opened.
\<close>

section \<open>No command is lost or duplicated\<close>

text \<open>A reconnect handler that only pushes commands, as the one of the event subscriptions does.\<close>

definition pushAll :: "wsCommand list \<Rightarrow> reconnectHandler" where
  "pushAll cs ws = (Inr (), fold pushMessage cs ws)"

fun outcomeOf :: "wsOutput \<Rightarrow> wsCommand multiset" where
  "outcomeOf (SendText (CommandText c)) = {#c#}"
| "outcomeOf (LogTooLarge c) = {#c#}"
| "outcomeOf _ = {#}"

text \<open>The commands sent, refused for their size, or queued.\<close>

definition accounted :: "wsControl \<Rightarrow> wsCommand multiset" where
  "accounted ws = (\<Sum>e\<leftarrow>ws_outputs ws. outcomeOf e) + mset (ws_msgQueue ws)"

text \<open>The commands that an event hands to the control, with the handlers that opening runs.\<close>

fun pushedBy :: "wsCommand list list \<Rightarrow> wsEvent \<Rightarrow> wsCommand multiset" where
  "pushedBy css (Push c) = {#c#}"
| "pushedBy css SocketOpen = mset (concat css)"
| "pushedBy css _ = {#}"

named_theorems ws_defs

declare connectNow_def [ws_defs] reconnect_def [ws_defs] onclose_def [ws_defs] sendMessage_def [ws_defs]
  pushMessage_def [ws_defs] sendPing_def [ws_defs] onmessage_def [ws_defs] emitOutput_def [ws_defs]
  setTimer_def [ws_defs] Let_def [ws_defs]

lemma accounted_pushMessage: "accounted (pushMessage c ws) = add_mset c (accounted ws)"
  by (simp add: accounted_def ws_defs)

lemma accounted_pushes: "accounted (fold pushMessage cs ws) = accounted ws + mset cs"
  by (induction cs arbitrary: ws) (simp_all add: accounted_pushMessage)

lemma accounted_runMsgQueue [simp]: "accounted (runMsgQueue now ws) = accounted ws"
  by (simp add: accounted_def runMsgQueue_def ws_defs split: list.split)

lemma accounted_quiet [simp]:
  "accounted (connectNow now ws) = accounted ws" "accounted (reconnect now force ws) = accounted ws"
  "accounted (sendPing now ws) = accounted ws" "accounted (onclose now ws) = accounted ws"
  "accounted (onmessage now d ws) = accounted ws"
  by (simp_all add: accounted_def ws_defs)

lemma accounted_update [simp]:
  "accounted (ws\<lparr>ws_timers := ts\<rparr>) = accounted ws"
  "accounted (ws\<lparr>ws_open := a, ws_opening := b\<rparr>) = accounted ws"
  by (simp_all add: accounted_def)

lemma forEachS_pushAll:
  "forEachS (\<lambda>handler. handler) (map pushAll css) ws = (Inr (), fold pushMessage (concat css) ws)"
  by (induction css arbitrary: ws) (simp_all add: pushAll_def)

lemma accounted_onopen:
  "accounted (snd (onopen (map pushAll css) now ws)) = accounted ws + mset (concat css)"
  by (simp add: onopen_def forEachS_pushAll accounted_pushes)

lemma accounted_step:
  assumes "wsStep (map pushAll css) e ws ws'"
  shows "accounted ws' = accounted ws + pushedBy css e"
  using assms
  by (cases rule: wsStep.cases)
    (simp_all add: accounted_pushMessage accounted_onopen runTimer_def split: wsTimer.split)

text \<open>
  C22: in any run of the connection, with any opens, closes, timers and reconnects, every command
  that was pushed, by the application or by the handlers of an opening, is accounted for exactly
  once: sent, refused for its size, or still in the queue.
\<close>

theorem commands_are_conserved:
  assumes "wsRun (map pushAll css) ws es ws'"
  shows "accounted ws' = accounted ws + (\<Sum>e\<leftarrow>es. pushedBy css e)"
  using assms by induction (simp_all add: accounted_step add.assoc)

section \<open>Reconnecting is bounded\<close>

definition socketsOpened :: "wsControl \<Rightarrow> nat" where
  "socketsOpened ws = length (filter (\<lambda>e. case e of OpenSocket _ _ \<Rightarrow> True | _ \<Rightarrow> False) (ws_outputs ws))"

definition pendingConnects :: "wsControl \<Rightarrow> nat" where
  "pendingConnects ws = length (filter (\<lambda>(due, act). act = ConnectNow) (ws_timers ws))"

text \<open>The sockets opened so far, and those that can still be without another greeting.\<close>

definition socketBudget :: "wsControl \<Rightarrow> nat" where
  "socketBudget ws = socketsOpened ws + pendingConnects ws + (20 - ws_reconnectTimes ws)"

text \<open>A direct connection may open one socket more, a greeting of the server twenty.\<close>

fun budgetOf :: "wsEvent \<Rightarrow> nat" where
  "budgetOf Connect = 1"
| "budgetOf (SocketMessage d) = (if getProp d ''type'' = JStr ''hello'' then 20 else 0)"
| "budgetOf _ = 0"

lemmas budget_defs = socketBudget_def socketsOpened_def pendingConnects_def ws_defs

lemma budget_sendMessage [simp]: "socketBudget (sendMessage c ws) = socketBudget ws"
  by (simp add: budget_defs)

lemma budget_pushMessage [simp]: "socketBudget (pushMessage c ws) = socketBudget ws"
  by (simp add: budget_defs)

lemma budget_pushes [simp]: "socketBudget (fold pushMessage cs ws) = socketBudget ws"
  by (induction cs arbitrary: ws) simp_all

lemma budget_runMsgQueue [simp]: "socketBudget (runMsgQueue now ws) = socketBudget ws"
  by (simp add: runMsgQueue_def budget_defs split: list.split)

lemma budget_update [simp]:
  "socketBudget (ws\<lparr>ws_open := a, ws_opening := b\<rparr>) = socketBudget ws"
  by (simp add: budget_defs)

lemma budget_reconnect: "socketBudget (reconnect now force ws) \<le> socketBudget ws"
  by (simp add: budget_defs) arith

lemma budget_connectNow: "socketBudget (connectNow now ws) \<le> Suc (socketBudget ws)"
  by (simp add: budget_defs)

lemma budget_onclose: "socketBudget (onclose now ws) \<le> socketBudget ws"
  using budget_reconnect [of now False "ws\<lparr>ws_open := False, ws_opening := False\<rparr>"]
  by (simp add: onclose_def)

lemma budget_onmessage: "socketBudget (onmessage now d ws) \<le> socketBudget ws + budgetOf (SocketMessage d)"
  by (simp add: budget_defs)

lemma budget_sendPing [simp]: "socketBudget (sendPing now ws) = socketBudget ws"
  by (simp add: budget_defs)

lemma budget_onopen: "socketBudget (snd (onopen (map pushAll css) now ws)) = socketBudget ws"
  by (simp add: onopen_def forEachS_pushAll)

lemma length_filter_remove:
  assumes "i < length xs"
  shows "length (filter P xs) = length (filter P (take i xs @ drop (Suc i) xs)) + (if P (xs ! i) then 1 else 0)"
  by (subst id_take_nth_drop [OF assms]) simp

lemma budget_timer:
  assumes "i < length (ws_timers ws)" "ws_timers ws ! i = (due, act)"
  shows "socketBudget (runTimer now act (ws\<lparr>ws_timers := take i (ws_timers ws) @ drop (Suc i) (ws_timers ws)\<rparr>))
    \<le> socketBudget ws"
proof -
  let ?ws = "ws\<lparr>ws_timers := take i (ws_timers ws) @ drop (Suc i) (ws_timers ws)\<rparr>"
  have "length (filter (\<lambda>(due, act). act = ConnectNow) (ws_timers ws)) =
      pendingConnects ?ws + (if act = ConnectNow then 1 else 0)"
    using assms by (simp add: pendingConnects_def length_filter_remove)
  then have "socketBudget ws = socketBudget ?ws + (if act = ConnectNow then 1 else 0)"
    by (simp add: socketBudget_def socketsOpened_def pendingConnects_def)
  then show ?thesis
    using budget_connectNow [of now ?ws] by (simp add: runTimer_def split: wsTimer.split)
qed

lemma budget_step:
  assumes "wsStep (map pushAll css) e ws ws'"
  shows "socketBudget ws' \<le> socketBudget ws + budgetOf e"
  using assms
proof (cases rule: wsStep.cases)
  case (connect now)
  then show ?thesis using budget_connectNow [of now ws] by simp
next
  case (message d now)
  then show ?thesis using budget_onmessage [of now d ws] by simp
next
  case (timer i due act now)
  then show ?thesis using budget_timer [of i ws due act now] by simp
qed (simp_all add: budget_reconnect budget_onclose budget_onopen)

text \<open>
  Between two greetings of the server at most twenty sockets are opened by reconnecting: over
  any run from a fresh control, at most one for every direct connection, twenty, and twenty more
  for every greeting.
\<close>

theorem reconnects_are_bounded:
  assumes "wsRun (map pushAll css) (newWSControl hostPort windowId authKey) es ws"
  shows "socketsOpened ws + pendingConnects ws \<le> 20 + (\<Sum>e\<leftarrow>es. budgetOf e)"
proof -
  have "socketBudget ws \<le> socketBudget (newWSControl hostPort windowId authKey) + (\<Sum>e\<leftarrow>es. budgetOf e)"
    using assms
  proof induction
    case (step w es w' e w'')
    then show ?case using budget_step [of css e w' w''] by simp
  qed simp
  then show ?thesis
    by (simp add: socketBudget_def socketsOpened_def pendingConnects_def newWSControl_def)
qed

section \<open>Witnesses\<close>

text \<open>A run: a command is pushed before the connection, which then opens and drains the queue.\<close>

definition demoCommand :: wsCommand where
  "demoCommand = \<lparr>wc_wscommand = ''rpc'', wc_text = ''{}''\<rparr>"

definition demoWs :: wsControl where
  "demoWs = newWSControl ''ws://localhost:1'' ''w1'' None"

lemma demo_run:
  "wsRun (map pushAll [[demoCommand]]) demoWs ([] @ [Push demoCommand] @ [Connect] @ [SocketOpen])
     (snd (onopen (map pushAll [[demoCommand]]) 7 (connectNow 5 (pushMessage demoCommand demoWs))))"
proof -
  have "ws_opening (connectNow 5 (pushMessage demoCommand demoWs))"
    by (simp add: demoWs_def newWSControl_def ws_defs)
  then show ?thesis
    using wsRun.step [OF wsRun.step [OF wsRun.step [OF wsRun.start wsStep.push] wsStep.connect] wsStep.opened]
    by simp
qed

theorem commands_are_conserved_witness:
  "accounted (snd (onopen (map pushAll [[demoCommand]]) 7 (connectNow 5 (pushMessage demoCommand demoWs)))) =
    {#demoCommand, demoCommand#}"
  using commands_are_conserved [OF demo_run]
  by (simp add: accounted_def demoWs_def newWSControl_def)

theorem reconnects_are_bounded_witness:
  "socketsOpened (snd (onopen (map pushAll [[demoCommand]]) 7 (connectNow 5 (pushMessage demoCommand demoWs)))) +
   pendingConnects (snd (onopen (map pushAll [[demoCommand]]) 7 (connectNow 5 (pushMessage demoCommand demoWs))))
     \<le> 21"
  using reconnects_are_bounded [OF demo_run [unfolded demoWs_def], folded demoWs_def] by simp

end
