(* ===== verification/Wos.thy ===== *)
theory Wos
  imports Util
begin

text \<open>
  The store of wave objects (frontend/app/store/wos.ts). The cache maps an object reference
  to a value object that the hooks also hold directly, so the value objects live in a heap
  with their own numbers and the cache holds the numbers. A fetch is a numbered promise whose
  resolution is an event; the calls made to the backend are recorded in order. The version of
  an object is an optional number because the code checks for a blank one.
\<close>

record waveObj =
  wo_otype :: "string option"
  wo_oid :: "string option"
  wo_version :: "jsnum option"
  wo_body :: json

record waveObjUpdate =
  wu_updatetype :: string
  wu_otype :: "string option"
  wu_oid :: "string option"
  wu_obj :: "waveObj option"

text \<open>\<open>WaveObjectValue\<close>, with the two fields of its data atom.\<close>

record waveObjectValue =
  wov_pendingPromise :: "nat option"
  wov_value :: "waveObj option"
  wov_loading :: bool
  wov_refCount :: int
  wov_holdTime :: nat

datatype backendCall = GetObjectCall nat "string option" | UpdateObjectCall waveObj bool

record wosState =
  wos_cache :: "(string option, nat) js_map"
  wos_heap :: "(nat, waveObjectValue) js_map"
  wos_next :: nat
  wos_promises :: "(nat, nat \<times> string option) js_map"   \<comment> \<open>promise: its value object and oref\<close>
  wos_nextPromise :: nat
  wos_calls :: "backendCall list"

definition emptyWos :: wosState where
  "emptyWos =
     \<lparr>wos_cache = [], wos_heap = [], wos_next = 0, wos_promises = [], wos_nextPromise = 0, wos_calls = []\<rparr>"

section \<open>References\<close>

definition splitORef :: "string option \<Rightarrow> js_error + string \<times> string" where
  "splitORef oref =
     (case oref of
        None \<Rightarrow> Inl TypeError
      | Some s \<Rightarrow>
          (case js_split (CHR '':'') s of
             [a, b] \<Rightarrow> Inr (a, b)
           | _ \<Rightarrow> Inl (Error ''invalid oref'')))"

definition isBlankNum :: "jsnum option \<Rightarrow> bool" where
  "isBlankNum num \<longleftrightarrow> num = None \<or> num = Some NaN \<or> num = Some (Fin 0)"

definition isValidWaveObj :: "waveObj option \<Rightarrow> bool" where
  "isValidWaveObj val =
     (case val of
        None \<Rightarrow> False
      | Some v \<Rightarrow> \<not> (isBlank (wo_otype v) \<or> isBlank (wo_oid v) \<or> isBlankNum (wo_version v)))"

definition makeORef :: "string option \<Rightarrow> string option \<Rightarrow> string option" where
  "makeORef otype oid =
     (if isBlank otype \<or> isBlank oid then None else Some (the otype @ '':'' @ the oid))"

section \<open>Value objects\<close>

definition defaultHoldTime :: nat where
  "defaultHoldTime = 5000"

definition getWov :: "nat \<Rightarrow> wosState \<Rightarrow> waveObjectValue" where
  "getWov r st = the (map_get (wos_heap st) r)"

definition modifyWov :: "nat \<Rightarrow> (waveObjectValue \<Rightarrow> waveObjectValue) \<Rightarrow> wosState \<Rightarrow> wosState" where
  "modifyWov r f st = st\<lparr>wos_heap := map_set r (f (getWov r st)) (wos_heap st)\<rparr>"

definition setData :: "nat \<Rightarrow> waveObj option \<Rightarrow> wosState \<Rightarrow> wosState" where
  "setData r val st = modifyWov r (\<lambda>w. w\<lparr>wov_value := val, wov_loading := False\<rparr>) st"

text \<open>\<open>createWaveValueObject(oref, shouldFetch)\<close>; the callback of its promise is \<open>resolveFetch\<close>.\<close>

definition createWaveValueObject :: "nat \<Rightarrow> string option \<Rightarrow> bool \<Rightarrow> wosState \<Rightarrow> nat \<times> wosState" where
  "createWaveValueObject now oref shouldFetch st =
     (let r = wos_next st; p = wos_nextPromise st;
          wov = \<lparr>wov_pendingPromise = None, wov_value = None, wov_loading = True,
                 wov_refCount = 0, wov_holdTime = now + 5000\<rparr>;
          st = st\<lparr>wos_next := Suc r\<rparr>
      in if \<not> shouldFetch then (r, st\<lparr>wos_heap := map_set r wov (wos_heap st)\<rparr>)
         else
           (r, st\<lparr>wos_heap := map_set r (wov\<lparr>wov_pendingPromise := Some p\<rparr>) (wos_heap st),
                  wos_promises := map_set p (r, oref) (wos_promises st),
                  wos_nextPromise := Suc p,
                  wos_calls := wos_calls st @ [GetObjectCall p oref]\<rparr>))"

definition resolveFetch :: "nat \<Rightarrow> waveObj option \<Rightarrow> wosState \<Rightarrow> (js_error + unit) \<times> wosState" where
  "resolveFetch p val st =
     (case map_get (wos_promises st) p of
        None \<Rightarrow> (Inr (), st)
      | Some (r, oref) \<Rightarrow>
          if wov_pendingPromise (getWov r st) \<noteq> Some p then (Inr (), st)
          else withVal (splitORef oref) st (\<lambda>(otype, oid).
            if val \<noteq> None \<and> wo_otype (the val) \<noteq> Some otype
            then (Inl (Error ''GetObject returned wrong type''), st)
            else if val \<noteq> None \<and> wo_oid (the val) \<noteq> Some oid
            then (Inl (Error ''GetObject returned wrong id''), st)
            else
              (Inr (), setData r val (modifyWov r (\<lambda>w. w\<lparr>wov_pendingPromise := None\<rparr>) st))))"

definition getWaveObjectValue :: "nat \<Rightarrow> string option \<Rightarrow> bool \<Rightarrow> wosState \<Rightarrow> nat option \<times> wosState" where
  "getWaveObjectValue now oref createIfMissing st =
     (case map_get (wos_cache st) oref of
        Some r \<Rightarrow> (Some r, st)
      | None \<Rightarrow>
          if createIfMissing then
            (let (r, st) = createWaveValueObject now oref True st in
             (Some r, st\<lparr>wos_cache := map_set oref r (wos_cache st)\<rparr>))
          else (None, st))"

text \<open>The call with its default argument, which always has a result.\<close>

definition cachedWov :: "nat \<Rightarrow> string option \<Rightarrow> wosState \<Rightarrow> nat \<times> wosState" where
  "cachedWov now oref st = (let (r, st) = getWaveObjectValue now oref True st in (the r, st))"

datatype objPromise = ResolvedWith "waveObj option" | PendingOn nat

definition loadAndPinWaveObject :: "nat \<Rightarrow> string option \<Rightarrow> wosState \<Rightarrow> objPromise \<times> wosState" where
  "loadAndPinWaveObject now oref st =
     (let (r, st) = cachedWov now oref st;
          st = modifyWov r (\<lambda>w. w\<lparr>wov_refCount := wov_refCount w + 1\<rparr>) st
      in (case wov_pendingPromise (getWov r st) of
            None \<Rightarrow> ResolvedWith (wov_value (getWov r st))
          | Some p \<Rightarrow> PendingOn p, st))"

definition getWaveObjectLoadingAtom :: "nat \<Rightarrow> string option \<Rightarrow> wosState \<Rightarrow> bool option \<times> wosState" where
  "getWaveObjectLoadingAtom now oref st =
     (let (r, st) = cachedWov now oref st in
      (if wov_loading (getWov r st) then None else Some (wov_loading (getWov r st)), st))"

text \<open>The hook: mounting holds the value object it was given, unmounting releases it.\<close>

definition useWaveObjectValue ::
  "nat \<Rightarrow> string option \<Rightarrow> wosState \<Rightarrow> (nat \<times> waveObj option \<times> bool) \<times> wosState" where
  "useWaveObjectValue now oref st =
     (let (r, st) = cachedWov now oref st in
      ((r, wov_value (getWov r st), wov_loading (getWov r st)), st))"

definition mountEffect :: "nat \<Rightarrow> wosState \<Rightarrow> wosState" where
  "mountEffect r = modifyWov r (\<lambda>w. w\<lparr>wov_refCount := wov_refCount w + 1\<rparr>)"

definition unmountEffect :: "nat \<Rightarrow> wosState \<Rightarrow> wosState" where
  "unmountEffect r = modifyWov r (\<lambda>w. w\<lparr>wov_refCount := wov_refCount w - 1\<rparr>)"

section \<open>Updates\<close>

definition versionAtLeast :: "jsnum option \<Rightarrow> jsnum option \<Rightarrow> bool" where
  "versionAtLeast cur new = (case (cur, new) of (Some a, Some b) \<Rightarrow> b \<le> a | _ \<Rightarrow> False)"

definition updateWaveObject :: "nat \<Rightarrow> waveObjUpdate option \<Rightarrow> wosState \<Rightarrow> wosState" where
  "updateWaveObject now update st =
     (case update of
        None \<Rightarrow> st
      | Some u \<Rightarrow>
          let (r, st) = cachedWov now (makeORef (wu_otype u) (wu_oid u)) st;
              hold = modifyWov r (\<lambda>w. w\<lparr>wov_holdTime := now + defaultHoldTime\<rparr>)
          in if wu_updatetype u = ''delete'' then hold (setData r None st)
             else if \<not> isValidWaveObj (wu_obj u) then st
             else case wov_value (getWov r st) of
               Some cur \<Rightarrow>
                 if versionAtLeast (wo_version cur) (wo_version (the (wu_obj u))) then st
                 else hold (setData r (wu_obj u) st)
             | None \<Rightarrow> hold (setData r (wu_obj u) st))"

definition updateWaveObjects :: "nat \<Rightarrow> waveObjUpdate option list \<Rightarrow> wosState \<Rightarrow> wosState" where
  "updateWaveObjects now vals st = foldl (\<lambda>st val. updateWaveObject now val st) st vals"

definition cleanWaveObjectCache :: "nat \<Rightarrow> wosState \<Rightarrow> wosState" where
  "cleanWaveObjectCache now st =
     st\<lparr>wos_cache :=
          filter (\<lambda>(oref, r). \<not> (wov_refCount (getWov r st) = 0 \<and> wov_holdTime (getWov r st) < now))
            (wos_cache st)\<rparr>"

definition clearWaveObjectCache :: "wosState \<Rightarrow> wosState" where
  "clearWaveObjectCache st = st\<lparr>wos_cache := []\<rparr>"

definition getObjectValue :: "nat \<Rightarrow> string option \<Rightarrow> wosState \<Rightarrow> waveObj option \<times> wosState" where
  "getObjectValue now oref st =
     (let (r, st) = cachedWov now oref st in (wov_value (getWov r st), st))"

definition setObjectValue ::
  "nat \<Rightarrow> waveObj option \<Rightarrow> bool \<Rightarrow> wosState \<Rightarrow> (js_error + unit) \<times> wosState" where
  "setObjectValue now value pushToServer st =
     (case value of
        None \<Rightarrow> (Inl TypeError, st)
      | Some v \<Rightarrow>
          (case getWaveObjectValue now (makeORef (wo_otype v) (wo_oid v)) False st of
             (None, st) \<Rightarrow> (Inr (), st)
           | (Some r, st) \<Rightarrow>
               let st = setData r value st in
               (Inr (),
                if pushToServer then st\<lparr>wos_calls := wos_calls st @ [UpdateObjectCall v False]\<rparr> else st)))"

text \<open>The atom of an object: its value object is found when the atom is made.\<close>

definition getWaveObjectAtom :: "nat \<Rightarrow> string option \<Rightarrow> wosState \<Rightarrow> nat \<times> wosState" where
  "getWaveObjectAtom now oref st = cachedWov now oref st"

definition readWaveObjectAtom :: "nat \<Rightarrow> wosState \<Rightarrow> waveObj option" where
  "readWaveObjectAtom r st = wov_value (getWov r st)"

definition writeWaveObjectAtom ::
  "nat \<Rightarrow> waveObj option \<Rightarrow> wosState \<Rightarrow> (js_error + unit) \<times> wosState" where
  "writeWaveObjectAtom now value st = setObjectValue now value True st"

section \<open>Backend calls\<close>

record 'd webReturn =
  wr_updates :: "waveObjUpdate option list option"
  wr_error :: "string option"
  wr_data :: 'd

datatype 'd httpResponse = NotOk string | OkResponse "'d webReturn option"

text \<open>
  The callbacks of a service call: the updates of a response are applied before its error is
  looked at. \<open>NotOk\<close> holds the status and status text.
\<close>

definition serviceResponse ::
  "nat \<Rightarrow> string \<Rightarrow> 'd httpResponse \<Rightarrow> wosState \<Rightarrow> (js_error + 'd option) \<times> wosState" where
  "serviceResponse now methodName resp st =
     (case resp of
        NotOk status \<Rightarrow> (Inl (Error (''call '' @ methodName @ '' failed: '' @ status)), st)
      | OkResponse None \<Rightarrow> (Inr None, st)
      | OkResponse (Some respData) \<Rightarrow>
          let st = (case wr_updates respData of None \<Rightarrow> st | Some us \<Rightarrow> updateWaveObjects now us st) in
          (case wr_error respData of
             Some e \<Rightarrow> (Inl (Error (''call '' @ methodName @ '' error: '' @ e)), st)
           | None \<Rightarrow> (Inr (Some (wr_data respData)), st)))"

end
