(* ===== verification/WosProps.thy ===== *)
theory WosProps
  imports Wos RefCount
begin

text \<open>
  Properties of the object store: the invariant of the cache, what updates leave in it, that an
  object in use is not cleaned from it, and what a fetch does that is slower than an update.
\<close>

section \<open>The invariant\<close>

definition wf_wos :: "wosState \<Rightarrow> bool" where
  "wf_wos st \<longleftrightarrow>
     distinct (map fst (wos_cache st)) \<and>
     (\<forall>i r. map_get (wos_cache st) i = Some r \<longrightarrow> r < wos_next st) \<and>
     (\<forall>i j r. map_get (wos_cache st) i = Some r \<longrightarrow> map_get (wos_cache st) j = Some r \<longrightarrow> i = j)"

text \<open>The object that the cache holds for a reference, if any.\<close>

definition objectOf :: "string option \<Rightarrow> wosState \<Rightarrow> waveObj option" where
  "objectOf i st =
     (case map_get (wos_cache st) i of None \<Rightarrow> None | Some r \<Rightarrow> wov_value (getWov r st))"

lemma getWov_modify [simp]:
  "getWov r (modifyWov r' f st) = (if r = r' then f (getWov r' st) else getWov r st)"
  by (simp add: getWov_def modifyWov_def)

lemma modifyWov_fields [simp]:
  "wos_cache (modifyWov r f st) = wos_cache st" "wos_next (modifyWov r f st) = wos_next st"
  "wos_promises (modifyWov r f st) = wos_promises st" "wos_nextPromise (modifyWov r f st) = wos_nextPromise st"
  by (simp_all add: modifyWov_def)

lemma wf_modifyWov [simp]: "wf_wos (modifyWov r f st) = wf_wos st"
  by (simp add: wf_wos_def)

lemma objectOf_modify:
  assumes "wf_wos st" "map_get (wos_cache st) i = Some r"
  shows "objectOf j (modifyWov r f st) = (if j = i then wov_value (f (getWov r st)) else objectOf j st)"
proof (cases "map_get (wos_cache st) j")
  case (Some r')
  have "r' = r \<longleftrightarrow> j = i" using assms Some unfolding wf_wos_def by (metis option.inject)
  with Some assms(2) show ?thesis by (simp add: objectOf_def)
qed (use assms in \<open>auto simp: objectOf_def\<close>)

section \<open>The value object of a reference\<close>

text \<open>A missing reference gets an empty value object of its own, with a fetch under way.\<close>

lemma cachedWov_cached: "map_get (wos_cache st) i = Some r \<Longrightarrow> cachedWov now i st = (r, st)"
  by (simp add: cachedWov_def getWaveObjectValue_def)

lemma cachedWov_new:
  assumes "map_get (wos_cache st) i = None"
  shows "\<exists>st'. cachedWov now i st = (wos_next st, st') \<and>
    wos_cache st' = map_set i (wos_next st) (wos_cache st) \<and> wos_next st' = Suc (wos_next st) \<and>
    wos_promises st' = map_set (wos_nextPromise st) (wos_next st, i) (wos_promises st) \<and>
    getWov (wos_next st) st' = \<lparr>wov_pendingPromise = Some (wos_nextPromise st), wov_value = None,
      wov_loading = True, wov_refCount = 0, wov_holdTime = now + 5000\<rparr> \<and>
    (\<forall>r. r \<noteq> wos_next st \<longrightarrow> getWov r st' = getWov r st)"
  using assms by (simp add: cachedWov_def getWaveObjectValue_def createWaveValueObject_def getWov_def Let_def)

lemma cachedWov_spec:
  assumes "wf_wos st" "cachedWov now i st = (r, st')"
  shows "wf_wos st'" "map_get (wos_cache st') j = (if j = i then Some r else map_get (wos_cache st) j)"
    "objectOf j st' = objectOf j st"
    "map_get (wos_cache st) j = Some q \<Longrightarrow> map_get (wos_cache st') j = Some q \<and> getWov q st' = getWov q st"
proof -
  have "wf_wos st' \<and> map_get (wos_cache st') j = (if j = i then Some r else map_get (wos_cache st) j) \<and>
    objectOf j st' = objectOf j st \<and>
    (map_get (wos_cache st) j = Some q \<longrightarrow> map_get (wos_cache st') j = Some q \<and> getWov q st' = getWov q st)"
  proof (cases "map_get (wos_cache st) i")
    case (Some r')
    with assms show ?thesis by (simp add: cachedWov_cached)
  next
    case None
    from cachedWov_new [OF None, of now] assms(2)
    have r: "r = wos_next st" and st': "wos_cache st' = map_set i (wos_next st) (wos_cache st)"
      "wos_next st' = Suc (wos_next st)" "wov_value (getWov (wos_next st) st') = None"
      and old: "\<And>q. q \<noteq> wos_next st \<Longrightarrow> getWov q st' = getWov q st" by auto
    have lt: "q < wos_next st" if "map_get (wos_cache st) k = Some q" for k q
      using that assms(1) by (auto simp: wf_wos_def)
    have "wf_wos st'"
      using assms(1) lt by (auto simp: wf_wos_def st' distinct_map_set less_Suc_eq split: if_splits)
    moreover have "objectOf j st' = objectOf j st"
      using None lt old by (auto simp: objectOf_def st' less_imp_neq split: option.splits)
    ultimately show ?thesis using None lt old by (auto simp: st' r less_imp_neq)
  qed
  then show "wf_wos st'" "map_get (wos_cache st') j = (if j = i then Some r else map_get (wos_cache st) j)"
    "objectOf j st' = objectOf j st"
    "map_get (wos_cache st) j = Some q \<Longrightarrow> map_get (wos_cache st') j = Some q \<and> getWov q st' = getWov q st"
    by blast+
qed

section \<open>Updates\<close>

text \<open>What an update makes of the object of its reference.\<close>

definition updatedObject :: "waveObjUpdate \<Rightarrow> waveObj option \<Rightarrow> waveObj option" where
  "updatedObject u cur =
     (if wu_updatetype u = ''delete'' then None
      else if \<not> isValidWaveObj (wu_obj u) then cur
      else if cur \<noteq> None \<and> versionAtLeast (wo_version (the cur)) (wo_version (the (wu_obj u))) then cur
      else wu_obj u)"

definition updateRef :: "waveObjUpdate \<Rightarrow> string option" where
  "updateRef u = makeORef (wu_otype u) (wu_oid u)"

lemma updateWaveObject_spec:
  assumes "wf_wos st"
  shows "wf_wos (updateWaveObject now (Some u) st)"
    and "objectOf i (updateWaveObject now (Some u) st) =
      (if i = updateRef u then updatedObject u (objectOf i st) else objectOf i st)"
proof -
  obtain r st1 where c: "cachedWov now (updateRef u) st = (r, st1)" by (rule prod.exhaust)
  note st1 = cachedWov_spec [OF assms c]
  have m: "map_get (wos_cache st1) (updateRef u) = Some r" by (simp add: st1(2))
  then have v: "wov_value (getWov r st1) = objectOf (updateRef u) st" 
    using st1(3) [of "updateRef u"] by (simp add: objectOf_def)
  have upd: "wf_wos (modifyWov r g (setData r x st1)) \<and>
      objectOf i (modifyWov r g (setData r x st1)) = (if i = updateRef u then x else objectOf i st)"
    if b: "\<And>w. wov_value (g w) = wov_value w" for g x
  proof -
    have w: "wf_wos (setData r x st1)" using st1(1) by (simp add: setData_def)
    show ?thesis
      using objectOf_modify [OF w, of "updateRef u" r i g] objectOf_modify [OF st1(1) m, of i] w m st1(3) [of i]
      by (simp add: setData_def b)
  qed
  have "wf_wos (updateWaveObject now (Some u) st) \<and> objectOf i (updateWaveObject now (Some u) st) =
      (if i = updateRef u then updatedObject u (objectOf i st) else objectOf i st)"
    using c upd [of "\<lambda>w. w\<lparr>wov_holdTime := now + defaultHoldTime\<rparr>"] st1(1,3)
    by (auto simp: updateWaveObject_def updatedObject_def updateRef_def [symmetric] v Let_def split: option.splits)
  then show "wf_wos (updateWaveObject now (Some u) st)"
    and "objectOf i (updateWaveObject now (Some u) st) =
      (if i = updateRef u then updatedObject u (objectOf i st) else objectOf i st)" by blast+
qed

lemma updates_spec:
  assumes "wf_wos st"
  shows "wf_wos (updateWaveObjects now (map Some us) st) \<and>
    objectOf i (updateWaveObjects now (map Some us) st) =
      fold updatedObject (filter (\<lambda>u. updateRef u = i) us) (objectOf i st)"
  using assms
proof (induction us arbitrary: st)
  case (Cons u us)
  from Cons.IH [OF updateWaveObject_spec(1) [OF Cons.prems, of now u]] show ?case
    by (auto simp: updateWaveObjects_def updateWaveObject_spec(2) [OF Cons.prems])
qed (simp add: updateWaveObjects_def)

text \<open>Versions of valid objects are numbers that compare.\<close>

lemma version_total:
  "isValidWaveObj (Some v) \<Longrightarrow> isValidWaveObj (Some w) \<Longrightarrow>
    versionAtLeast (wo_version v) (wo_version w) \<or> versionAtLeast (wo_version w) (wo_version v)"
  using jsnum_le_total [of "the (wo_version v)" "the (wo_version w)"]
  by (auto simp: isValidWaveObj_def isBlankNum_def versionAtLeast_def split: option.splits)

lemma version_trans:
  "versionAtLeast a b \<Longrightarrow> versionAtLeast b c \<Longrightarrow> versionAtLeast a c"
  by (auto simp: versionAtLeast_def split: option.splits dest: jsnum_le_trans)

lemma version_refl: "isValidWaveObj (Some v) \<Longrightarrow> versionAtLeast (wo_version v) (wo_version v)"
  using version_total [of v v] by blast

lemma version_le: "versionAtLeast a b \<Longrightarrow> the b \<le> the a"
  by (auto simp: versionAtLeast_def split: option.splits)

lemma fold_updatedObject:
  assumes "\<forall>u \<in> set us. wu_updatetype u \<noteq> ''delete'' \<and> isValidWaveObj (wu_obj u)"
    and "\<forall>c \<in> set_option cur. isValidWaveObj (Some c)"
    and "cands = set_option cur \<union> (the \<circ> wu_obj) ` set us" "cands \<noteq> {}"
  shows "\<exists>v \<in> cands. fold updatedObject us cur = Some v \<and>
    (\<forall>c \<in> cands. versionAtLeast (wo_version v) (wo_version c))"
  using assms
proof (induction us arbitrary: cur cands)
  case Nil
  then show ?case by (auto dest: version_refl)
next
  case (Cons u us)
  obtain w where w: "wu_obj u = Some w" "isValidWaveObj (Some w)" "wu_updatetype u \<noteq> ''delete''"
    using Cons.prems(1) by (cases "wu_obj u") (auto simp: isValidWaveObj_def)
  obtain n where n: "updatedObject u cur = Some n" "n \<in> insert w (set_option cur)"
    "\<forall>c \<in> insert w (set_option cur). versionAtLeast (wo_version n) (wo_version c)"
  proof (cases "cur \<noteq> None \<and> versionAtLeast (wo_version (the cur)) (wo_version w)")
    case True
    with that [of "the cur"] w Cons.prems(2) show ?thesis by (auto simp: updatedObject_def dest: version_refl)
  next
    case False
    then have "\<forall>c \<in> set_option cur. versionAtLeast (wo_version w) (wo_version c)"
      using version_total [OF w(2)] Cons.prems(2) by (cases cur) auto
    with False that [of w] w show ?thesis by (auto simp: updatedObject_def version_refl)
  qed
  have "isValidWaveObj (Some n)" using n(2) w(2) Cons.prems(2) by auto
  then have "\<exists>v \<in> set_option (Some n) \<union> (the \<circ> wu_obj) ` set us. fold updatedObject us (Some n) = Some v \<and>
      (\<forall>c \<in> set_option (Some n) \<union> (the \<circ> wu_obj) ` set us. versionAtLeast (wo_version v) (wo_version c))"
    using Cons.prems(1) by (intro Cons.IH) auto
  then obtain v where v: "v \<in> insert n ((the \<circ> wu_obj) ` set us)" "fold updatedObject us (Some n) = Some v"
    "\<forall>c \<in> insert n ((the \<circ> wu_obj) ` set us). versionAtLeast (wo_version v) (wo_version c)" by auto
  have "v \<in> cands" using v(1) n(2) Cons.prems(3) w(1) by auto
  moreover have "\<forall>c \<in> cands. versionAtLeast (wo_version v) (wo_version c)"
    using v(3) n(3) Cons.prems(3) w(1) by (auto intro: version_trans)
  ultimately show ?case using v(2) n(1) by auto
qed

text \<open>
  C23: after a batch of updates of valid objects, in any order and of any references, the store
  holds for a reference the newest of the object it held and the objects the batch brought.
\<close>

theorem newest_update_wins:
  assumes "wf_wos st"
    and "\<forall>u \<in> set us. updateRef u = i \<longrightarrow> wu_updatetype u \<noteq> ''delete'' \<and> isValidWaveObj (wu_obj u)"
    and "\<forall>c \<in> set_option (objectOf i st). isValidWaveObj (Some c)"
    and "cands = set_option (objectOf i st) \<union> (the \<circ> wu_obj) ` set (filter (\<lambda>u. updateRef u = i) us)" "cands \<noteq> {}"
  shows "\<exists>v \<in> cands. objectOf i (updateWaveObjects now (map Some us) st) = Some v \<and>
    (\<forall>c \<in> cands. the (wo_version c) \<le> the (wo_version v))"
proof -
  show ?thesis
    using fold_updatedObject [OF _ assms(3,4,5)] assms(2) updates_spec [OF assms(1), of now us i]
    by (auto simp: version_le)
qed

section \<open>Objects in use\<close>

datatype wosOp =
    ReadObject nat "string option"
  | PinObject nat "string option"
  | MountHook nat
  | UnmountHook nat
  | UpdateObjects nat "waveObjUpdate option list"
  | FetchResolves nat "waveObj option"
  | SetObject nat "waveObj option" bool
  | CleanCache nat

fun wosStep :: "wosOp \<Rightarrow> wosState \<Rightarrow> wosState" where
  "wosStep (ReadObject now i) st = snd (getObjectValue now i st)"
| "wosStep (PinObject now i) st = snd (loadAndPinWaveObject now i st)"
| "wosStep (MountHook r) st = mountEffect r st"
| "wosStep (UnmountHook r) st = unmountEffect r st"
| "wosStep (UpdateObjects now us) st = updateWaveObjects now us st"
| "wosStep (FetchResolves p v) st = snd (resolveFetch p v st)"
| "wosStep (SetObject now v push) st = snd (setObjectValue now v push st)"
| "wosStep (CleanCache now) st = cleanWaveObjectCache now st"

fun wovKept :: "string option \<times> nat \<Rightarrow> wosState \<Rightarrow> bool" where
  "wovKept (i, r) st \<longleftrightarrow> map_get (wos_cache st) i = Some r"

fun wovRefs :: "string option \<times> nat \<Rightarrow> wosState \<Rightarrow> int" where
  "wovRefs (i, r) st = wov_refCount (getWov r st)"

fun wovWeight :: "string option \<times> nat \<Rightarrow> wosOp \<Rightarrow> int" where
  "wovWeight (i, r) (PinObject now j) = (if j = i then 1 else 0)"
| "wovWeight (i, r) (MountHook q) = (if q = r then 1 else 0)"
| "wovWeight (i, r) (UnmountHook q) = (if q = r then -1 else 0)"
| "wovWeight _ _ = 0"

text \<open>An operation that keeps the invariant, the cached value objects and their counts.\<close>

definition keepsCounts :: "wosState \<Rightarrow> wosState \<Rightarrow> bool" where
  "keepsCounts st st' \<longleftrightarrow> wf_wos st' \<and>
     (\<forall>i r. map_get (wos_cache st) i = Some r \<longrightarrow>
        map_get (wos_cache st') i = Some r \<and> wov_refCount (getWov r st') = wov_refCount (getWov r st))"

lemma keepsCounts_refl: "wf_wos st \<Longrightarrow> keepsCounts st st"
  by (simp add: keepsCounts_def)

lemma keepsCounts_trans: "keepsCounts a b \<Longrightarrow> keepsCounts b c \<Longrightarrow> keepsCounts a c"
  unfolding keepsCounts_def by metis

lemma keepsCounts_cachedWov: "wf_wos st \<Longrightarrow> cachedWov now i st = (r, st') \<Longrightarrow> keepsCounts st st'"
  using cachedWov_spec(1,4) by (auto simp: keepsCounts_def)

lemma keepsCounts_modify:
  "keepsCounts a b \<Longrightarrow> (\<And>w. wov_refCount (f w) = wov_refCount w) \<Longrightarrow> keepsCounts a (modifyWov r f b)"
  by (simp add: keepsCounts_def)

lemma keepsCounts_setData: "keepsCounts a b \<Longrightarrow> keepsCounts a (setData r v b)"
  unfolding setData_def by (erule keepsCounts_modify) simp

lemma keepsCounts_update: "wf_wos st \<Longrightarrow> keepsCounts st (updateWaveObject now u st)"
proof (cases u)
  case (Some v)
  assume wf: "wf_wos st"
  obtain r st1 where c: "cachedWov now (makeORef (wu_otype v) (wu_oid v)) st = (r, st1)" by (rule prod.exhaust)
  from keepsCounts_cachedWov [OF wf c]
  show ?thesis
    by (simp add: updateWaveObject_def Some c Let_def keepsCounts_modify keepsCounts_setData split: option.split)
qed (simp add: updateWaveObject_def keepsCounts_refl)

lemma keepsCounts_updates: "wf_wos st \<Longrightarrow> keepsCounts st (updateWaveObjects now us st)"
proof (induction us arbitrary: st)
  case (Cons u us)
  have u: "keepsCounts st (updateWaveObject now u st)" by (rule keepsCounts_update [OF Cons.prems])
  then have "wf_wos (updateWaveObject now u st)" by (simp add: keepsCounts_def)
  from keepsCounts_trans [OF u Cons.IH [OF this]] show ?case by (simp add: updateWaveObjects_def)
qed (simp add: updateWaveObjects_def keepsCounts_refl)

lemma keepsCounts_resolve: "wf_wos st \<Longrightarrow> keepsCounts st (snd (resolveFetch p v st))"
  by (auto simp: resolveFetch_def withVal_def keepsCounts_refl keepsCounts_modify keepsCounts_setData
      split: option.split sum.split)

lemma keepsCounts_set: "wf_wos st \<Longrightarrow> keepsCounts st (snd (setObjectValue now v push st))"
proof -
  assume wf: "wf_wos st"
  have "keepsCounts st (b\<lparr>wos_calls := cs\<rparr>)" if "keepsCounts st b" for b cs
    using that by (simp add: keepsCounts_def wf_wos_def getWov_def)
  with wf show ?thesis
    by (auto simp: setObjectValue_def getWaveObjectValue_def Let_def keepsCounts_refl keepsCounts_setData
        split: option.split)
qed

lemma clean_next: "wos_next (cleanWaveObjectCache now st) = wos_next st"
  by (simp add: cleanWaveObjectCache_def)

lemma clean_spec:
  assumes "wf_wos st"
  shows "wf_wos (cleanWaveObjectCache now st)"
    and "map_get (wos_cache (cleanWaveObjectCache now st)) i =
      (case map_get (wos_cache st) i of
         None \<Rightarrow> None
       | Some r \<Rightarrow> if wov_refCount (getWov r st) = 0 \<and> wov_holdTime (getWov r st) < now then None else Some r)"
    and "getWov r (cleanWaveObjectCache now st) = getWov r st"
proof -
  have d: "distinct (map fst (wos_cache st))" using assms by (simp add: wf_wos_def)
  show get: "map_get (wos_cache (cleanWaveObjectCache now st)) i =
      (case map_get (wos_cache st) i of
         None \<Rightarrow> None
       | Some r \<Rightarrow> if wov_refCount (getWov r st) = 0 \<and> wov_holdTime (getWov r st) < now then None else Some r)" for i
    by (auto simp: cleanWaveObjectCache_def map_get_filter [OF d] split: option.splits)
  have "distinct (map fst (wos_cache (cleanWaveObjectCache now st)))"
    using d by (simp add: cleanWaveObjectCache_def distinct_map_filter)
  then show "wf_wos (cleanWaveObjectCache now st)"
    using assms by (auto simp: wf_wos_def get clean_next split: option.splits if_splits)
  show "getWov r (cleanWaveObjectCache now st) = getWov r st"
    by (simp add: cleanWaveObjectCache_def getWov_def)
qed

lemma pin_spec:
  assumes "wf_wos st"
  shows "wf_wos (snd (loadAndPinWaveObject now j st))"
    and "map_get (wos_cache st) i = Some r \<Longrightarrow>
      map_get (wos_cache (snd (loadAndPinWaveObject now j st))) i = Some r \<and>
      wov_refCount (getWov r (snd (loadAndPinWaveObject now j st))) =
        wov_refCount (getWov r st) + (if j = i then 1 else 0)"
proof -
  obtain q st1 where c: "cachedWov now j st = (q, st1)" by (rule prod.exhaust)
  note st1 = cachedWov_spec [OF assms c]
  show "wf_wos (snd (loadAndPinWaveObject now j st))"
    using st1(1) by (simp add: loadAndPinWaveObject_def c Let_def)
  assume i: "map_get (wos_cache st) i = Some r"
  have "r = q \<longleftrightarrow> j = i"
    using st1(1) st1(2) [of i] st1(2) [of j] st1(4) [OF i] unfolding wf_wos_def by (metis option.inject)
  then show "map_get (wos_cache (snd (loadAndPinWaveObject now j st))) i = Some r \<and>
      wov_refCount (getWov r (snd (loadAndPinWaveObject now j st))) =
        wov_refCount (getWov r st) + (if j = i then 1 else 0)"
    using st1(4) [OF i] by (auto simp: loadAndPinWaveObject_def c Let_def)
qed

text \<open>The operations that neither count nor clean.\<close>

lemma quiet_step:
  assumes "wf_wos st" "case act of ReadObject _ _ \<Rightarrow> True | UpdateObjects _ _ \<Rightarrow> True | FetchResolves _ _ \<Rightarrow> True
    | SetObject _ _ _ \<Rightarrow> True | _ \<Rightarrow> False"
  shows "keepsCounts st (wosStep act st)" "wovWeight ir act = 0"
proof -
  obtain i r where "ir = (i, r)" by (cases ir)
  with assms(2) show "wovWeight ir act = 0" by (cases act) simp_all
  have "keepsCounts st (snd (getObjectValue now j st))" for now j
    using keepsCounts_cachedWov [OF assms(1)] by (auto simp: getObjectValue_def split: prod.split)
  with assms show "keepsCounts st (wosStep act st)"
    by (cases act) (auto simp: keepsCounts_updates keepsCounts_resolve keepsCounts_set)
qed

interpretation wave_objects: ref_counted wf_wos wosStep wovKept wovRefs wovWeight
proof unfold_locales
  fix act st and ir :: "string option \<times> nat"
  assume wf: "wf_wos st"
  obtain i r where ir: "ir = (i, r)" by (cases ir)
  show "wf_wos (wosStep act st)"
    using wf quiet_step(1) [OF wf, of act] pin_spec(1) [OF wf] clean_spec(1) [OF wf]
    by (cases act) (simp_all add: keepsCounts_def mountEffect_def unmountEffect_def)
  assume k: "wovKept ir st"
  show "wovRefs ir (wosStep act st) = wovRefs ir st + wovWeight ir act"
    using wf k quiet_step(1) [OF wf, of act] pin_spec(2) [OF wf, of i r] clean_spec(3) [OF wf]
    by (cases act) (auto simp: keepsCounts_def mountEffect_def unmountEffect_def ir)
  assume "0 < wovRefs ir st"
  then show "wovKept ir (wosStep act st)"
    using wf k quiet_step(1) [OF wf, of act] pin_spec(2) [OF wf, of i r] clean_spec(2) [OF wf, of _ i]
    by (cases act) (auto simp: keepsCounts_def mountEffect_def unmountEffect_def ir)
qed

text \<open>
  C24: as long as an object is mounted or pinned more often than unmounted, no reads, updates,
  fetches, writes or cleanings in between take it from the cache: the next reader of its reference
  is given the same value object, without another fetch.
\<close>

theorem object_in_use_stays_cached:
  assumes "wf_wos st" "map_get (wos_cache st) i = Some r"
    and "staysPositive (wov_refCount (getWov r st)) (map (wovWeight (i, r)) acts)"
  shows "getWaveObjectValue now i create (fold wosStep acts st) = (Some r, fold wosStep acts st)"
  using wave_objects.held [of st "(i, r)" acts] assms by (simp add: getWaveObjectValue_def)

section \<open>Slow fetches\<close>

text \<open>
  An object that is asked for and then arrives as an update is overwritten when the fetch
  resolves, whatever the versions of the two: the store then holds the older data.
\<close>

theorem slow_fetch_overwrites_update:
  assumes "wf_wos st" "map_get (wos_cache st) (Some (t @ '':'' @ n)) = None"
    and "CHR '':'' \<notin> set t" "CHR '':'' \<notin> set n" "t \<noteq> []" "n \<noteq> []"
    and "cachedWov now (Some (t @ '':'' @ n)) st = (r, st1)"
    and "u = \<lparr>wu_updatetype = ''update'', wu_otype = Some t, wu_oid = Some n, wu_obj = Some newer\<rparr>"
    and "isValidWaveObj (Some newer)" "wo_otype fetched = Some t" "wo_oid fetched = Some n"
  shows "objectOf (Some (t @ '':'' @ n)) (updateWaveObject now2 (Some u) st1) = Some newer \<and>
    objectOf (Some (t @ '':'' @ n))
      (snd (resolveFetch (wos_nextPromise st) (Some fetched) (updateWaveObject now2 (Some u) st1))) = Some fetched"
proof -
  let ?p = "wos_nextPromise st"
  let ?st2 = "modifyWov r (\<lambda>w. w\<lparr>wov_holdTime := now2 + defaultHoldTime\<rparr>) (setData r (Some newer) st1)"
  let ?st3 = "setData r (Some fetched) (modifyWov r (\<lambda>w. w\<lparr>wov_pendingPromise := None\<rparr>) ?st2)"
  define i where "i = Some (t @ '':'' @ n)"
  have make: "makeORef (Some t) (Some n) = i" using assms(5,6) by (simp add: i_def makeORef_def isBlank_def)
  from cachedWov_new [OF assms(2), of now] assms(7)
  have st1: "map_get (wos_promises st1) ?p = Some (r, i)" "wov_pendingPromise (getWov r st1) = Some ?p"
    "wov_value (getWov r st1) = None" "map_get (wos_cache st1) i = Some r" by (auto simp: i_def)
  have "updateWaveObject now2 (Some u) st1 = ?st2"
    using assms(9) by (simp add: updateWaveObject_def assms(8) make cachedWov_cached [OF st1(4)] st1(3) Let_def)
  moreover have "js_split (CHR '':'') (t @ '':'' @ n) = [t, n]"
    using js_split_join [of "[t, n]" "CHR '':''"] assms(3,4) by simp
  then have "splitORef i = Inr (t, n)" by (simp add: i_def splitORef_def)
  then have "snd (resolveFetch ?p (Some fetched) ?st2) = ?st3"
    using assms(10,11) st1 by (simp add: resolveFetch_def setData_def)
  ultimately show ?thesis using st1(4) unfolding i_def [symmetric] by (simp add: objectOf_def setData_def)
qed

section \<open>Witnesses\<close>

definition demoObj :: "nat \<Rightarrow> waveObj" where
  "demoObj v = \<lparr>wo_otype = Some ''tab'', wo_oid = Some ''1'', wo_version = Some (Fin (of_nat v)), wo_body = JNull\<rparr>"

definition demoUpdate :: "nat \<Rightarrow> waveObjUpdate" where
  "demoUpdate v = \<lparr>wu_updatetype = ''update'', wu_otype = Some ''tab'', wu_oid = Some ''1'', wu_obj = Some (demoObj v)\<rparr>"

lemmas demo_wos = demoObj_def demoUpdate_def updateRef_def makeORef_def isBlank_def isValidWaveObj_def isBlankNum_def

lemma wf_emptyWos: "wf_wos emptyWos"
  by (simp add: wf_wos_def emptyWos_def)

theorem newest_update_wins_witness:
  "\<exists>v \<in> {demoObj 3, demoObj 2}.
    objectOf (Some ''tab:1'') (updateWaveObjects 0 (map Some [demoUpdate 3, demoUpdate 2]) emptyWos) = Some v \<and>
    (\<forall>c \<in> {demoObj 3, demoObj 2}. the (wo_version c) \<le> the (wo_version v))"
proof (rule newest_update_wins [OF wf_emptyWos])
  show "{demoObj 3, demoObj 2} = set_option (objectOf (Some ''tab:1'') emptyWos) \<union>
      (the \<circ> wu_obj) ` set (filter (\<lambda>u. updateRef u = Some ''tab:1'') [demoUpdate 3, demoUpdate 2])"
    by (auto simp: objectOf_def emptyWos_def demo_wos)
qed (auto simp: objectOf_def emptyWos_def demo_wos)

theorem object_in_use_stays_cached_witness:
  "getWaveObjectValue 9000 (Some ''tab:1'') True
     (fold wosStep [MountHook 0, MountHook 0, CleanCache 8000, UnmountHook 0, CleanCache 8000]
        (snd (loadAndPinWaveObject 0 (Some ''tab:1'') emptyWos))) =
   (Some 0, fold wosStep [MountHook 0, MountHook 0, CleanCache 8000, UnmountHook 0, CleanCache 8000]
        (snd (loadAndPinWaveObject 0 (Some ''tab:1'') emptyWos)))"
  by (rule object_in_use_stays_cached)
    (auto simp: loadAndPinWaveObject_def cachedWov_def getWaveObjectValue_def createWaveValueObject_def emptyWos_def
      wf_wos_def getWov_def modifyWov_def Let_def map_set_def map_get_def split: if_splits)

theorem slow_fetch_overwrites_update_witness:
  "objectOf (Some (''tab'' @ '':'' @ ''1''))
    (snd (resolveFetch (wos_nextPromise emptyWos) (Some (demoObj 1))
      (updateWaveObject 5 (Some (demoUpdate 2)) (snd (cachedWov 0 (Some (''tab'' @ '':'' @ ''1'')) emptyWos))))) =
   Some (demoObj 1)"
  by (rule slow_fetch_overwrites_update [OF wf_emptyWos _ _ _ _ _ _ _ _ _ _, where newer = "demoObj 2" and now = 0 and r = "fst (cachedWov 0 (Some (''tab'' @ '':'' @ ''1'')) emptyWos)", THEN conjunct2])
    (auto simp: emptyWos_def demo_wos)

end
