(* ===== verification/FontUtil.thy ===== *)
theory FontUtil
  imports Prelude
begin

text \<open>
  The loading of the fonts (frontend/util/fontutil.ts): a flag for each family, and the font
  faces added to \<open>document.fonts\<close>, in order. The download that \<open>load\<close> starts is not modelled.
\<close>

record fontFace =
  ff_family :: string
  ff_url :: string
  ff_style :: string
  ff_weight :: string

record fontState =
  isJetBrainsMonoLoaded :: bool
  isLatoFontLoaded :: bool
  isHackFontLoaded :: bool
  isHackNerdFontLoaded :: bool
  isBaseFontsLoaded :: bool
  isFiraCodeLoaded :: bool
  isInterFontLoaded :: bool
  fontFaceSet :: "fontFace list"

definition initialFonts :: fontState where
  "initialFonts =
     \<lparr>isJetBrainsMonoLoaded = False, isLatoFontLoaded = False, isHackFontLoaded = False,
      isHackNerdFontLoaded = False, isBaseFontsLoaded = False, isFiraCodeLoaded = False,
      isInterFontLoaded = False, fontFaceSet = []\<rparr>"

text \<open>A face of a family, from the file of the fonts directory.\<close>

definition newFontFace :: "string \<Rightarrow> string \<Rightarrow> string \<Rightarrow> string \<Rightarrow> fontFace" where
  "newFontFace family file style weight =
     \<lparr>ff_family = family, ff_url = ''fonts/'' @ file, ff_style = style, ff_weight = weight\<rparr>"

text \<open>A face is an object of its own, so adding it always lengthens the set.\<close>

definition addToFontFaceSet :: "fontFace list \<Rightarrow> fontState \<Rightarrow> fontState" where
  "addToFontFaceSet faces s = s\<lparr>fontFaceSet := fontFaceSet s @ faces\<rparr>"

definition jetBrainsMonoFaces :: "fontFace list" where
  "jetBrainsMonoFaces =
     [newFontFace ''JetBrains Mono'' ''jetbrains-mono-v13-latin-regular.woff2'' ''normal'' ''400'',
      newFontFace ''JetBrains Mono'' ''jetbrains-mono-v13-latin-200.woff2'' ''normal'' ''200'',
      newFontFace ''JetBrains Mono'' ''jetbrains-mono-v13-latin-700.woff2'' ''normal'' ''700'']"

definition loadJetBrainsMonoFont :: "fontState \<Rightarrow> fontState" where
  "loadJetBrainsMonoFont s =
     (if isJetBrainsMonoLoaded s then s
      else addToFontFaceSet jetBrainsMonoFaces (s\<lparr>isJetBrainsMonoLoaded := True\<rparr>))"

definition latoFaces :: "fontFace list" where
  "latoFaces =
     [newFontFace ''Lato'' ''lato-regular.woff'' ''normal'' ''400'',
      newFontFace ''Lato'' ''lato-bold.woff'' ''normal'' ''700'']"

definition loadLatoFont :: "fontState \<Rightarrow> fontState" where
  "loadLatoFont s =
     (if isLatoFontLoaded s then s else addToFontFaceSet latoFaces (s\<lparr>isLatoFontLoaded := True\<rparr>))"

definition firaCodeFaces :: "fontFace list" where
  "firaCodeFaces =
     [newFontFace ''Fira Code'' ''firacode-regular.woff2'' ''normal'' ''400'',
      newFontFace ''Fira Code'' ''firacode-bold.woff2'' ''normal'' ''700'']"

definition loadFiraCodeFont :: "fontState \<Rightarrow> fontState" where
  "loadFiraCodeFont s =
     (if isFiraCodeLoaded s then s else addToFontFaceSet firaCodeFaces (s\<lparr>isFiraCodeLoaded := True\<rparr>))"

definition hackNerdFaces :: "fontFace list" where
  "hackNerdFaces =
     [newFontFace ''Hack'' ''hacknerdmono-regular.ttf'' ''normal'' ''400'',
      newFontFace ''Hack'' ''hacknerdmono-bold.ttf'' ''normal'' ''700'',
      newFontFace ''Hack'' ''hacknerdmono-italic.ttf'' ''italic'' ''400'',
      newFontFace ''Hack'' ''hacknerdmono-bolditalic.ttf'' ''italic'' ''700'']"

text \<open>The flag that is set is the one of the plain font, as in the source.\<close>

definition loadHackNerdFont :: "fontState \<Rightarrow> fontState" where
  "loadHackNerdFont s =
     (if isHackNerdFontLoaded s then s else addToFontFaceSet hackNerdFaces (s\<lparr>isHackFontLoaded := True\<rparr>))"

definition hackFaces :: "fontFace list" where
  "hackFaces =
     [newFontFace ''Hack'' ''hack-regular.woff2'' ''normal'' ''400'',
      newFontFace ''Hack'' ''hack-bold.woff2'' ''normal'' ''700'',
      newFontFace ''Hack'' ''hack-italic.woff2'' ''italic'' ''400'',
      newFontFace ''Hack'' ''hack-bolditalic.woff2'' ''italic'' ''700'']"

definition loadHackFont :: "fontState \<Rightarrow> fontState" where
  "loadHackFont s =
     (if isHackFontLoaded s then s else addToFontFaceSet hackFaces (s\<lparr>isHackFontLoaded := True\<rparr>))"

definition interFaces :: "fontFace list" where
  "interFaces = [newFontFace ''Inter'' ''inter-variable.woff2'' ''normal'' ''400'']"

definition loadInterFont :: "fontState \<Rightarrow> fontState" where
  "loadInterFont s =
     (if isInterFontLoaded s then s else addToFontFaceSet interFaces (s\<lparr>isInterFontLoaded := True\<rparr>))"

definition baseFaces :: "fontFace list" where
  "baseFaces =
     [newFontFace ''Martian Mono'' ''MartianMono-VariableFont_wdth,wght.ttf'' ''normal'' ''normal'']"

definition loadBaseFonts :: "fontState \<Rightarrow> fontState" where
  "loadBaseFonts s =
     (if isBaseFontsLoaded s then s else addToFontFaceSet baseFaces (s\<lparr>isBaseFontsLoaded := True\<rparr>))"

definition loadFonts :: "fontState \<Rightarrow> fontState" where
  "loadFonts s =
     loadFiraCodeFont (loadHackNerdFont (loadJetBrainsMonoFont (loadInterFont (loadBaseFonts s))))"

end
