(* ===== verification/Global.thy ===== *)
theory Global
  imports LayoutView Wos
begin

text \<open>
  The state of the application window as app/store/global.ts and layoutModelHooks.ts keep it:
  the layout models of the tabs over one store of nodes, the data of the tabs and of the
  workspace, the caches of atoms, the counters, the connection status atoms and the flash
  errors. The tab objects and the layout atoms come from the object store; here they are maps
  by tab id. Calls of backend services and of view models are recorded in order.
\<close>

record tabData =
  td_blockids :: "string list option"

datatype appCall =
    SvcCloseTab string
  | SvcSetActiveTab string
  | SvcAddTabToWorkspace string bool
  | SvcCreateBlock "(string \<times> json) list"       \<comment> \<open>the meta of the block definition\<close>
  | OpenExternal string
  | GiveFocus string
  | OpenSwitchConnection string
  | RegisterWebviewKeys "string list"

record blockComponentModel =
  bcm_openSwitchConnection :: bool
  bcm_hasViewModel :: bool

record appState =
  ap_store :: layoutStore
  ap_models :: "(string, layoutModel) js_map"            \<comment> \<open>\<open>layoutModelMap\<close>\<close>
  ap_layoutAtoms :: "string \<Rightarrow> layoutAtomState"
  ap_tabs :: "(string, tabData) js_map"
  ap_blockMeta :: "string \<Rightarrow> (string, json) js_map option"
  ap_workspaceTabs :: "string list"
  ap_activeTabId :: string
  ap_blockComponents :: "(string, blockComponentModel) js_map"
  ap_settings :: "(string, json) js_map"
  ap_modalOpen :: bool
  ap_calls :: "appCall list"

definition appLog :: "appCall \<Rightarrow> appState \<Rightarrow> appState" where
  "appLog c s = s\<lparr>ap_calls := ap_calls s @ [c]\<rparr>"

section \<open>The layout models of the tabs\<close>

text \<open>
  The result is the tab id under which the model is kept, \<open>None\<close> when the tab is not loaded.
  The constructor starts an asynchronous update whose error is not awaited, so the model is
  kept whatever the update did.
\<close>

definition getLayoutModelForTab :: "string \<Rightarrow> appState \<Rightarrow> (js_error + string option) \<times> appState" where
  "getLayoutModelForTab tabId s =
     (case map_get (ap_tabs s) tabId of
        None \<Rightarrow> (Inr None, s)
      | Some _ \<Rightarrow>
          if map_has (ap_models s) tabId then (Inr (Some tabId), s)
          else
            (let (r, (h, m)) = newLayoutModel (ap_layoutAtoms s tabId) None (ap_store s) in
             (Inr (Some tabId), s\<lparr>ap_store := h, ap_models := map_set tabId m (ap_models s)\<rparr>)))"

definition getLayoutModelForTabById :: "string \<Rightarrow> appState \<Rightarrow> (js_error + string option) \<times> appState" where
  "getLayoutModelForTabById tabId s = getLayoutModelForTab tabId s"

definition getLayoutModelForActiveTab :: "appState \<Rightarrow> (js_error + string option) \<times> appState" where
  "getLayoutModelForActiveTab s = getLayoutModelForTabById (ap_activeTabId s) s"

definition deleteLayoutModelForTab :: "string \<Rightarrow> appState \<Rightarrow> appState" where
  "deleteLayoutModelForTab tabId s =
     (if map_has (ap_models s) tabId then s\<lparr>ap_models := map_delete tabId (ap_models s)\<rparr> else s)"

text \<open>A method call on the model of a tab; calling a method of \<open>undefined\<close> throws.\<close>

definition onModel ::
  "string option \<Rightarrow> (modelWorld \<Rightarrow> (js_error + 'a) \<times> modelWorld) \<Rightarrow> appState \<Rightarrow> (js_error + 'a) \<times> appState" where
  "onModel tab f s =
     (case tab of
        None \<Rightarrow> (Inl TypeError, s)
      | Some t \<Rightarrow>
          (case map_get (ap_models s) t of
             None \<Rightarrow> (Inl TypeError, s)
           | Some m \<Rightarrow>
               (let (r, (h, m)) = f (ap_store s, m) in
                (r, s\<lparr>ap_store := h, ap_models := map_set t m (ap_models s)\<rparr>))))"

text \<open>The focused node of a model, as the record of the node.\<close>

definition focusedNodeOf :: "string option \<Rightarrow> appState \<Rightarrow> js_error + layoutNode option" where
  "focusedNodeOf tab s =
     (case tab of
        None \<Rightarrow> Inl TypeError
      | Some t \<Rightarrow>
          (case map_get (ap_models s) t of
             None \<Rightarrow> Inl TypeError
           | Some m \<Rightarrow>
               bindR (focusedNode (ap_store s) (treeStateAtom m)) (\<lambda>a.
               case a of
                 None \<Rightarrow> Inr None
               | Some a \<Rightarrow> bindR (getNode (ap_store s) a) (\<lambda>n. Inr (Some n)))))"

definition setNodeFocus :: "string \<Rightarrow> appState \<Rightarrow> (js_error + unit) \<times> appState" where
  "setNodeFocus nodeId s =
     andThen (getLayoutModelForActiveTab s) (\<lambda>tab s. onModel tab (modelFocusNode nodeId) s)"

text \<open>What runs when the backend has created the block: the tile is inserted and focused.\<close>

definition blockCreated :: "string \<Rightarrow> bool \<Rightarrow> appState \<Rightarrow> (js_error + string) \<times> appState" where
  "blockCreated blockId magnified s =
     (let (r, h) = newLayoutNode None None None (Some blockId) (ap_store s); s = s\<lparr>ap_store := h\<rparr> in
      withVal r s (\<lambda>node.
      andThen (getLayoutModelForTabById (ap_activeTabId s) s) (\<lambda>tab s.
      andThen (onModel tab (treeReducer (InsertNode
                 \<lparr>ins_node = node, ins_magnified = magnified, ins_focused = True\<rparr>) True) s) (\<lambda>_ s.
      (Inr blockId, s)))))"

definition openLink :: "string \<Rightarrow> bool \<Rightarrow> appState \<Rightarrow> appState" where
  "openLink uri forceOpenInternally s =
     (if forceOpenInternally \<or>
         truthy (case map_get (ap_settings s) ''web:openlinksinternally'' of None \<Rightarrow> JUndef | Some v \<Rightarrow> v)
      then appLog (SvcCreateBlock [(''view'', JStr ''web''), (''url'', JStr uri)]) s
      else appLog (OpenExternal uri) s)"

definition registerBlockComponentModel :: "string \<Rightarrow> blockComponentModel \<Rightarrow> appState \<Rightarrow> appState" where
  "registerBlockComponentModel blockId bcm s =
     s\<lparr>ap_blockComponents := map_set blockId bcm (ap_blockComponents s)\<rparr>"

definition unregisterBlockComponentModel :: "string \<Rightarrow> appState \<Rightarrow> appState" where
  "unregisterBlockComponentModel blockId s =
     s\<lparr>ap_blockComponents := map_delete blockId (ap_blockComponents s)\<rparr>"

definition getBlockComponentModel :: "string \<Rightarrow> appState \<Rightarrow> blockComponentModel option" where
  "getBlockComponentModel blockId s = map_get (ap_blockComponents s) blockId"

definition refocusNode :: "string option \<Rightarrow> appState \<Rightarrow> (js_error + unit) \<times> appState" where
  "refocusNode blockId s =
     (case blockId of
        None \<Rightarrow> (Inr (), s)
      | Some b \<Rightarrow>
          andThen (getLayoutModelForActiveTab s) (\<lambda>tab s.
          andThen (onModel tab (\<lambda>w. withVal (getNodeByBlockId (fst w) (snd w) b) w (\<lambda>a. (Inr a, w))) s)
            (\<lambda>leaf s.
          case leaf of
            None \<Rightarrow> (Inr (), s)
          | Some a \<Rightarrow>
              withVal (getNode (ap_store s) a) s (\<lambda>n.
              andThen (onModel tab (modelFocusNode (node_id n)) s) (\<lambda>_ s.
              (Inr (), appLog (GiveFocus b) s))))))"

section \<open>Caches\<close>

text \<open>A two level cache: by block, then by name. \<open>makeFn\<close> is called when there is no value.\<close>

definition useBlockCache ::
  "string \<Rightarrow> string \<Rightarrow> 'v \<Rightarrow> (string, (string, 'v) js_map) js_map \<Rightarrow>
     'v \<times> (string, (string, 'v) js_map) js_map" where
  "useBlockCache blockId name1 made blockCache =
     (let blockMap = (case map_get blockCache blockId of None \<Rightarrow> [] | Some bm \<Rightarrow> bm) in
      case map_get blockMap name1 of
        Some v \<Rightarrow> (v, map_set blockId blockMap blockCache)
      | None \<Rightarrow> (made, map_set blockId (map_set name1 made blockMap) blockCache))"

definition useBlockAtom ::
  "string \<Rightarrow> string \<Rightarrow> 'v \<Rightarrow> (string, (string, 'v) js_map) js_map \<Rightarrow>
     'v \<times> (string, (string, 'v) js_map) js_map" where
  "useBlockAtom blockId name1 made blockAtomCache = useBlockCache blockId name1 made blockAtomCache"

text \<open>
  The settings atoms: both hooks share one cache, the prefix hook under the prefix and a
  colon. The atom is described by what it reads.
\<close>

datatype settingsAtom = KeyAtom string | PrefixAtom string

definition useSettingsKeyAtom ::
  "string \<Rightarrow> (string, settingsAtom) js_map \<Rightarrow> settingsAtom \<times> (string, settingsAtom) js_map" where
  "useSettingsKeyAtom key c =
     (case map_get c key of
        Some a \<Rightarrow> (a, c)
      | None \<Rightarrow> (KeyAtom key, map_set key (KeyAtom key) c))"

definition useSettingsPrefixAtom ::
  "string \<Rightarrow> (string, settingsAtom) js_map \<Rightarrow> settingsAtom \<times> (string, settingsAtom) js_map" where
  "useSettingsPrefixAtom prefix c =
     (case map_get c (prefix @ '':'') of
        Some a \<Rightarrow> (a, c)
      | None \<Rightarrow> (PrefixAtom prefix, map_set (prefix @ '':'') (PrefixAtom prefix) c))"

definition readSettingsAtom :: "(string, json) js_map option \<Rightarrow> settingsAtom \<Rightarrow> json" where
  "readSettingsAtom settings a =
     (case a of
        KeyAtom key \<Rightarrow>
          (case settings of
             None \<Rightarrow> JNull
           | Some s \<Rightarrow> (case map_get s key of None \<Rightarrow> JUndef | Some v \<Rightarrow> v))
      | PrefixAtom prefix \<Rightarrow>
          (case settings of
             None \<Rightarrow> JObj []
           | Some s \<Rightarrow> JObj (getPrefixedSettings (Some s) (Some prefix))))"

section \<open>Counters and object ids\<close>

definition counterInc :: "string \<Rightarrow> int \<Rightarrow> (string, int) js_map \<Rightarrow> (string, int) js_map" where
  "counterInc name1 incAmt counters =
     map_set name1 ((case map_get counters name1 of None \<Rightarrow> 0 | Some c \<Rightarrow> c) + incAmt) counters"

definition countersClear :: "(string, int) js_map \<Rightarrow> (string, int) js_map" where
  "countersClear counters = []"

text \<open>An object is its address; the weak map never forgets an object that is still asked for.\<close>

record objectIds =
  oi_map :: "(nat, nat) js_map"
  oi_counter :: nat

definition getObjectId :: "nat \<Rightarrow> objectIds \<Rightarrow> nat \<times> objectIds" where
  "getObjectId obj s =
     (case map_get (oi_map s) obj of
        Some i \<Rightarrow> (i, s)
      | None \<Rightarrow> (oi_counter s, \<lparr>oi_map = map_set obj (oi_counter s) (oi_map s), oi_counter = Suc (oi_counter s)\<rparr>))"

section \<open>Connection status\<close>

record connStatus =
  cs_connection :: "string option"
  cs_connected :: bool
  cs_status :: string
  cs_hasconnected :: bool
  cs_activeconnnum :: nat

type_synonym connStatusMap = "(string option, connStatus) js_map"

definition getConnStatusAtom :: "string option \<Rightarrow> connStatusMap \<Rightarrow> connStatus \<times> connStatusMap" where
  "getConnStatusAtom conn m =
     (case map_get m conn of
        Some s \<Rightarrow> (s, m)
      | None \<Rightarrow>
          let s = (if isBlank conn
                   then \<lparr>cs_connection = conn, cs_connected = True, cs_status = ''connected'',
                         cs_hasconnected = True, cs_activeconnnum = 0\<rparr>
                   else \<lparr>cs_connection = conn, cs_connected = False, cs_status = ''disconnected'',
                         cs_hasconnected = False, cs_activeconnnum = 0\<rparr>)
          in (s, map_set conn s m))"

definition setConnStatus :: "connStatus \<Rightarrow> connStatusMap \<Rightarrow> connStatusMap" where
  "setConnStatus cs m = map_set (cs_connection cs) cs (snd (getConnStatusAtom (cs_connection cs) m))"

definition loadConnStatus :: "connStatus list option \<Rightarrow> connStatusMap \<Rightarrow> connStatusMap" where
  "loadConnStatus arr m = (case arr of None \<Rightarrow> m | Some css \<Rightarrow> foldl (\<lambda>m cs. setConnStatus cs m) m css)"

text \<open>The handler of the \<open>connchange\<close> event.\<close>

definition connChange :: "connStatus option \<Rightarrow> connStatusMap \<Rightarrow> connStatusMap" where
  "connChange cs m =
     (case cs of
        None \<Rightarrow> m
      | Some s \<Rightarrow> if isBlank (cs_connection s) then m else setConnStatus s m)"

section \<open>Flash errors\<close>

record flashError =
  fe_id :: string
  fe_icon :: "string option"
  fe_title :: "string option"
  fe_message :: "string option"
  fe_expiration :: "nat option"

definition pushFlashError :: "nat \<Rightarrow> string \<Rightarrow> flashError \<Rightarrow> flashError list \<Rightarrow> flashError list" where
  "pushFlashError now uuid ferr errs =
     (let ferr = (if fe_expiration ferr = None then ferr\<lparr>fe_expiration := Some (now + 5000)\<rparr> else ferr);
          ferr = ferr\<lparr>fe_id := uuid\<rparr>
      in errs @ [ferr])"

definition removeFlashError :: "string \<Rightarrow> flashError list \<Rightarrow> flashError list" where
  "removeFlashError i errs = filter (\<lambda>ferr. fe_id ferr \<noteq> i) errs"

end
