(* ===== verification/KeyUtil.thy ===== *)
theory KeyUtil
  imports Util
begin

text \<open>
  Key descriptions and key events (frontend/util/keyutil.ts): parsing a description such as
  \<open>Ctrl:Shift:c{Digit1}\<close>, matching an event against it, and building the event from a browser
  or an Electron event. Lower casing is that of a locale without special rules for A to Z.
\<close>

datatype platform = Darwin | OtherPlatform

datatype keyType = KeyTypeKey | KeyTypeCode

record keyMods =
  mod_Cmd :: bool
  mod_Option :: bool
  mod_Shift :: bool
  mod_Ctrl :: bool
  mod_Alt :: bool
  mod_Meta :: bool

record keyPressDecl =
  kp_mods :: keyMods
  kp_key :: string
  kp_keyType :: "keyType option"

record waveKeyboardEvent =
  ev_type :: string
  ev_key :: string
  ev_code :: string
  ev_repeat :: bool
  ev_location :: nat
  ev_shift :: bool
  ev_control :: bool
  ev_alt :: bool
  ev_meta :: bool
  ev_cmd :: bool
  ev_option :: bool

section \<open>Descriptions\<close>

text \<open>
  \<open>/c{(.*)}/\<close>: the leftmost \<open>c{\<close> with a closing brace on its line, and the text up to the
  last such brace.
\<close>

definition lineTerminator :: "char \<Rightarrow> bool" where
  "lineTerminator c \<longleftrightarrow> (of_char c :: nat) = 10 \<or> (of_char c :: nat) = 13"

definition codeBody :: "string \<Rightarrow> string option" where
  "codeBody rest =
     (let line = takeWhile (\<lambda>c. \<not> lineTerminator c) rest in
      if CHR ''}'' \<in> set line
      then Some (rev (tl (dropWhile (\<lambda>c. c \<noteq> CHR ''}'') (rev line)))) else None)"

fun keyTypeCodeMatch :: "string \<Rightarrow> string option" where
  "keyTypeCodeMatch (c # d # rest) =
     (if c = CHR ''c'' \<and> d = CHR ''{'' then
        (case codeBody rest of Some k \<Rightarrow> Some k | None \<Rightarrow> keyTypeCodeMatch (d # rest))
      else keyTypeCodeMatch (d # rest))"
| "keyTypeCodeMatch _ = None"

definition parseKey :: "string \<Rightarrow> string \<times> keyType" where
  "parseKey key =
     (case keyTypeCodeMatch key of Some code \<Rightarrow> (code, KeyTypeCode) | None \<Rightarrow> (key, KeyTypeKey))"

definition isUpperAZ :: "char \<Rightarrow> bool" where
  "isUpperAZ c \<longleftrightarrow> (of_char c :: nat) \<in> {65..90}"

definition noMods :: keyMods where
  "noMods = \<lparr>mod_Cmd = False, mod_Option = False, mod_Shift = False, mod_Ctrl = False,
             mod_Alt = False, mod_Meta = False\<rparr>"

definition setMods :: "(keyMods \<Rightarrow> keyMods) \<Rightarrow> keyPressDecl \<Rightarrow> keyPressDecl" where
  "setMods f rtn = rtn\<lparr>kp_mods := f (kp_mods rtn)\<rparr>"

text \<open>The body of the loop over the parts of a description.\<close>

definition parseKeyPart :: "keyPressDecl \<Rightarrow> string \<Rightarrow> keyPressDecl" where
  "parseKeyPart rtn key =
     (if key = ''Cmd'' then setMods (\<lambda>m. m\<lparr>mod_Cmd := True\<rparr>) rtn
      else if key = ''Shift'' then setMods (\<lambda>m. m\<lparr>mod_Shift := True\<rparr>) rtn
      else if key = ''Ctrl'' then setMods (\<lambda>m. m\<lparr>mod_Ctrl := True\<rparr>) rtn
      else if key = ''Option'' then setMods (\<lambda>m. m\<lparr>mod_Option := True\<rparr>) rtn
      else if key = ''Alt'' then setMods (\<lambda>m. m\<lparr>mod_Alt := True\<rparr>) rtn
      else if key = ''Meta'' then setMods (\<lambda>m. m\<lparr>mod_Meta := True\<rparr>) rtn
      else
        let (parsedKey, kt) = parseKey key;
            rtn = rtn\<lparr>kp_key := parsedKey, kp_keyType := Some kt\<rparr> in
        if kt = KeyTypeKey \<and> length key = 1 then
          (if isUpperAZ (hd key) then setMods (\<lambda>m. m\<lparr>mod_Shift := True\<rparr>) rtn
           else if key = '' '' then rtn\<lparr>kp_key := ''Space''\<rparr>
           else rtn)
        else rtn)"

definition parseKeyDescription :: "string \<Rightarrow> keyPressDecl" where
  "parseKeyDescription keyDescription =
     (let keys = js_split (CHR '':'')
                   (filter (\<lambda>c. c \<noteq> CHR ''('' \<and> c \<noteq> CHR '')'') keyDescription)
      in foldl parseKeyPart \<lparr>kp_mods = noMods, kp_key = [], kp_keyType = None\<rparr> keys)"

section \<open>Matching\<close>

definition notMod :: "bool \<Rightarrow> bool \<Rightarrow> bool" where
  "notMod keyPressMod eventMod \<longleftrightarrow> (keyPressMod \<and> \<not> eventMod) \<or> (eventMod \<and> \<not> keyPressMod)"

definition lowerChar :: "char \<Rightarrow> char" where
  "lowerChar c =
     (let n = (of_char c :: nat) in
      if n \<in> {65..90} \<or> n \<in> {192..214} \<or> n \<in> {216..222} then char_of (n + 32) else c)"

definition toLocaleLowerCase :: "string \<Rightarrow> string" where
  "toLocaleLowerCase s = map lowerChar s"

text \<open>The key names that \<open>checkKeyPressed\<close> compares: of the event and of the description.\<close>

definition comparedKeys :: "waveKeyboardEvent \<Rightarrow> keyPressDecl \<Rightarrow> string \<times> string" where
  "comparedKeys event keyPress =
     (case kp_keyType keyPress of
        Some KeyTypeCode \<Rightarrow> (ev_code event, kp_key keyPress)
      | Some KeyTypeKey \<Rightarrow>
          (let eventKey = ev_key event in
           if length eventKey = 1 \<and> isUpperAZ (hd eventKey)
           then (toLocaleLowerCase eventKey, toLocaleLowerCase (kp_key keyPress))
           else if eventKey = '' '' then (''Space'', kp_key keyPress)
           else (eventKey, kp_key keyPress))
      | None \<Rightarrow> ([], kp_key keyPress))"

definition checkKeyPress :: "waveKeyboardEvent \<Rightarrow> keyPressDecl \<Rightarrow> bool" where
  "checkKeyPress event keyPress =
     (let mods = kp_mods keyPress in
      if \<not> mod_Alt mods \<and> notMod (mod_Option mods) (ev_option event) then False
      else if \<not> mod_Meta mods \<and> notMod (mod_Cmd mods) (ev_cmd event) then False
      else if notMod (mod_Shift mods) (ev_shift event) then False
      else if notMod (mod_Ctrl mods) (ev_control event) then False
      else if mod_Alt mods \<and> \<not> ev_alt event then False
      else if mod_Meta mods \<and> \<not> ev_meta event then False
      else
        let (eventKey, descKey) = comparedKeys event keyPress in
        descKey = eventKey)"

definition checkKeyPressed :: "waveKeyboardEvent \<Rightarrow> string \<Rightarrow> bool" where
  "checkKeyPressed event keyDescription = checkKeyPress event (parseKeyDescription keyDescription)"

definition isCharacterKeyEvent :: "(string \<Rightarrow> string list) \<Rightarrow> waveKeyboardEvent \<Rightarrow> bool" where
  "isCharacterKeyEvent segment event =
     (if ev_alt event \<or> ev_meta event \<or> ev_control event then False
      else countGraphemes segment (Some (ev_key event)) = 1)"

definition inputKeyMap :: "string list" where
  "inputKeyMap =
     [''Backspace'', ''Delete'', ''Enter'', ''Space'', ''Tab'',
      ''ArrowLeft'', ''ArrowRight'', ''ArrowUp'', ''ArrowDown'',
      ''Home'', ''End'', ''PageUp'', ''PageDown'',
      ''Cmd:a'', ''Cmd:c'', ''Cmd:v'', ''Cmd:x'', ''Cmd:z'', ''Cmd:Shift:z'',
      ''Cmd:ArrowLeft'', ''Cmd:ArrowRight'', ''Cmd:Backspace'', ''Cmd:Delete'',
      ''Shift:ArrowLeft'', ''Shift:ArrowRight'', ''Shift:ArrowUp'', ''Shift:ArrowDown'',
      ''Shift:Home'', ''Shift:End'',
      ''Cmd:Shift:ArrowLeft'', ''Cmd:Shift:ArrowRight'', ''Cmd:Shift:ArrowUp'',
      ''Cmd:Shift:ArrowDown'']"

definition isInputEvent :: "(string \<Rightarrow> string list) \<Rightarrow> waveKeyboardEvent \<Rightarrow> bool" where
  "isInputEvent segment event =
     (if isCharacterKeyEvent segment event then True
      else list_ex (checkKeyPressed event) inputKeyMap)"

section \<open>Events\<close>

record domKeyEvent =
  de_ctrlKey :: bool
  de_shiftKey :: bool
  de_metaKey :: bool
  de_altKey :: bool
  de_code :: string
  de_key :: string
  de_location :: nat
  de_type :: string
  de_repeat :: bool

definition adaptFromReactOrNativeKeyEvent :: "platform \<Rightarrow> domKeyEvent \<Rightarrow> waveKeyboardEvent" where
  "adaptFromReactOrNativeKeyEvent PLATFORM event =
     \<lparr>ev_type = (if de_type event = ''keydown'' \<or> de_type event = ''keyup'' \<or> de_type event = ''keypress''
                 then de_type event else ''unknown''),
      ev_key = de_key event, ev_code = de_code event, ev_repeat = de_repeat event,
      ev_location = de_location event, ev_shift = de_shiftKey event,
      ev_control = de_ctrlKey event, ev_alt = de_altKey event, ev_meta = de_metaKey event,
      ev_cmd = (if PLATFORM = Darwin then de_metaKey event else de_altKey event),
      ev_option = (if PLATFORM = Darwin then de_altKey event else de_metaKey event)\<rparr>"

record electronKeyEvent =
  ee_type :: string
  ee_control :: bool
  ee_meta :: bool
  ee_alt :: bool
  ee_shift :: bool
  ee_isAutoRepeat :: bool
  ee_location :: nat
  ee_code :: string
  ee_key :: string

definition adaptFromElectronKeyEvent :: "platform \<Rightarrow> electronKeyEvent \<Rightarrow> waveKeyboardEvent" where
  "adaptFromElectronKeyEvent PLATFORM event =
     \<lparr>ev_type = (if ee_type event = ''keyUp'' then ''keyup''
                 else if ee_type event = ''keyDown'' then ''keydown'' else ''unknown''),
      ev_key = ee_key event, ev_code = ee_code event, ev_repeat = ee_isAutoRepeat event,
      ev_location = ee_location event, ev_shift = ee_shift event,
      ev_control = ee_control event, ev_alt = ee_alt event, ev_meta = ee_meta event,
      ev_cmd = (if PLATFORM = Darwin then ee_meta event else ee_alt event),
      ev_option = (if PLATFORM = Darwin then ee_alt event else ee_meta event)\<rparr>"

text \<open>\<open>keydownWrapper\<close>: whether the default action and the propagation are stopped.\<close>

definition keydownWrapper ::
  "platform \<Rightarrow> (waveKeyboardEvent \<Rightarrow> 's \<Rightarrow> bool \<times> 's) \<Rightarrow> domKeyEvent \<Rightarrow> 's \<Rightarrow> (bool \<times> bool) \<times> 's" where
  "keydownWrapper PLATFORM fn event s =
     (let (rtnVal, s) = fn (adaptFromReactOrNativeKeyEvent PLATFORM event) s in
      ((rtnVal, rtnVal), s))"

end
