(* ===== verification/KeyModel.thy ===== *)
theory KeyModel
  imports Global KeyUtil
begin

text \<open>
  The global key bindings (frontend/app/store/keymodel.ts): the map from key descriptions to
  actions, what each action does to the application state, and the dispatch of a key event to
  the global bindings and then to the focused block. A result is \<open>None\<close> when the action does
  not return (navigation over undefined coordinates).
\<close>

section \<open>The control-shift state\<close>

record controlShift =
  cs_simple :: bool
  cs_delayed :: bool
  cs_timers :: nat        \<comment> \<open>running 400ms timers\<close>

definition setControlShift :: "controlShift \<Rightarrow> controlShift" where
  "setControlShift c = c\<lparr>cs_simple := True, cs_timers := Suc (cs_timers c)\<rparr>"

definition controlShiftTimer :: "controlShift \<Rightarrow> controlShift" where
  "controlShiftTimer c =
     (if cs_timers c = 0 then c
      else let c = c\<lparr>cs_timers := cs_timers c - 1\<rparr> in
           if cs_simple c then c\<lparr>cs_delayed := True\<rparr> else c)"

definition unsetControlShift :: "controlShift \<Rightarrow> controlShift" where
  "unsetControlShift c = c\<lparr>cs_simple := False, cs_delayed := False\<rparr>"

definition controlShiftStateUpdate :: "bool \<Rightarrow> controlShift \<Rightarrow> controlShift" where
  "controlShiftStateUpdate state c = (if state then setControlShift c else unsetControlShift c)"

section \<open>Where a key goes\<close>

record activeElement =
  ae_tagName :: string
  ae_contentEditable :: bool
  ae_dummyFocus :: bool

definition shouldDispatchToBlock ::
  "(string \<Rightarrow> string list) \<Rightarrow> activeElement option \<Rightarrow> waveKeyboardEvent \<Rightarrow> appState \<Rightarrow> bool" where
  "shouldDispatchToBlock segment active e s =
     (if ap_modalOpen s then False
      else case active of
        None \<Rightarrow> True
      | Some a \<Rightarrow>
          if ae_tagName a = ''INPUT'' \<or> ae_tagName a = ''TEXTAREA'' \<or> ae_contentEditable a then
            (if ae_dummyFocus a then True
             else if isInputEvent segment e then False
             else True)
          else True)"

section \<open>The actions\<close>

definition genericClose :: "string \<Rightarrow> appState \<Rightarrow> (js_error + unit) \<times> appState" where
  "genericClose tabId s =
     (case map_get (ap_tabs s) tabId of
        None \<Rightarrow> (Inr (), s)
      | Some tab \<Rightarrow>
          if td_blockids tab = None \<or> td_blockids tab = Some [] then
            (Inr (), deleteLayoutModelForTab tabId (appLog (SvcCloseTab tabId) s))
          else
            andThen (getLayoutModelForTab tabId s) (\<lambda>t s. onModel t closeFocusedNode s))"

definition switchBlockByBlockNum :: "int \<Rightarrow> appState \<Rightarrow> (js_error + unit) \<times> appState" where
  "switchBlockByBlockNum idx s =
     andThen (getLayoutModelForActiveTab s) (\<lambda>t s.
     case t of
       None \<Rightarrow> (Inr (), s)
     | Some _ \<Rightarrow> onModel t (switchNodeFocusByBlockNum idx) s)"

definition switchBlockInDirection ::
  "string \<Rightarrow> navigateDirection \<Rightarrow> appState \<Rightarrow> ((js_error + unit) \<times> appState) option" where
  "switchBlockInDirection tabId direction s =
     (case getLayoutModelForTabById tabId s of
        (Inl e, s) \<Rightarrow> Some (Inl e, s)
      | (Inr t, s) \<Rightarrow>
          (case Option.bind t (map_get (ap_models s)) of
             None \<Rightarrow> Some (Inl TypeError, s)
           | Some m \<Rightarrow>
               map_option (\<lambda>(r, (h, m)).
                 (r, s\<lparr>ap_store := h, ap_models := map_set (the t) m (ap_models s)\<rparr>))
                 (switchNodeFocusInDirection direction (ap_store s, m))))"

definition switchTabAbs :: "int \<Rightarrow> appState \<Rightarrow> appState" where
  "switchTabAbs idx s =
     (case js_at (ap_workspaceTabs s) (idx - 1) of
        None \<Rightarrow> s
      | Some newActiveTabId \<Rightarrow> appLog (SvcSetActiveTab newActiveTabId) s)"

text \<open>\<open>%\<close> keeps the sign of the dividend; an index that is not one yields \<open>undefined\<close>.\<close>

definition js_rem :: "int \<Rightarrow> int \<Rightarrow> int" where
  "js_rem a b = (if 0 \<le> a then a mod b else - ((- a) mod b))"

definition switchTab :: "int \<Rightarrow> appState \<Rightarrow> (js_error + unit) \<times> appState" where
  "switchTab offset s =
     (if \<not> map_has (ap_tabs s) (ap_activeTabId s) then (Inl TypeError, s)
      else
        let tabIdx = js_find_index (\<lambda>t. t = ap_activeTabId s) (ap_workspaceTabs s);
            n = int (length (ap_workspaceTabs s)) in
        if tabIdx = -1 then (Inr (), s)
        else case js_at (ap_workspaceTabs s) (js_rem (tabIdx + offset + n) n) of
               None \<Rightarrow> (Inr (), s)
             | Some t \<Rightarrow> (Inr (), appLog (SvcSetActiveTab t) s))"

definition handleCmdI :: "appState \<Rightarrow> (js_error + unit) \<times> appState" where
  "handleCmdI s =
     andThen (getLayoutModelForActiveTab s) (\<lambda>t s.
     withVal (focusedNodeOf t s) s (\<lambda>focused.
     case focused of
       None \<Rightarrow> onModel t focusFirstNode s
     | Some n \<Rightarrow>
         (case node_data n of
            None \<Rightarrow> (Inr (), s)
          | Some blockId \<Rightarrow> refocusNode (Some blockId) s)))"

text \<open>The definition of the block that a new terminal starts from; a fresh block otherwise.\<close>

definition termBlockMeta :: "(string, json) js_map option \<Rightarrow> (string \<times> json) list" where
  "termBlockMeta blockMeta =
     (let meta = [(''view'', JStr ''term''), (''controller'', JStr ''shell'')];
          field = (\<lambda>k. case blockMeta of None \<Rightarrow> JUndef
                    | Some m \<Rightarrow> (case map_get m k of None \<Rightarrow> JUndef | Some v \<Rightarrow> v));
          meta = (if field ''view'' = JStr ''term'' \<and> \<not> isNullish (field ''cmd:cwd'')
                  then map_set ''cmd:cwd'' (field ''cmd:cwd'') meta else meta)
      in if \<not> isNullish (field ''connection'')
         then map_set ''connection'' (field ''connection'') meta else meta)"

definition handleCmdN :: "appState \<Rightarrow> (js_error + unit) \<times> appState" where
  "handleCmdN s =
     andThen (getLayoutModelForActiveTab s) (\<lambda>t s.
     withVal (focusedNodeOf t s) s (\<lambda>focused.
     let meta = (case focused of
                   None \<Rightarrow> termBlockMeta None
                 | Some n \<Rightarrow> termBlockMeta (Option.bind (node_data n) (ap_blockMeta s)))
     in (Inr (), appLog (SvcCreateBlock meta) s)))"

definition addTab :: "appState \<Rightarrow> appState" where
  "addTab s =
     appLog (SvcAddTabToWorkspace (''T'' @ show_nat (length (ap_workspaceTabs s) + 1)) True) s"

definition toggleMagnify :: "appState \<Rightarrow> (js_error + unit) \<times> appState" where
  "toggleMagnify s =
     andThen (getLayoutModelForActiveTab s) (\<lambda>t s.
     withVal (focusedNodeOf t s) s (\<lambda>focused.
     case focused of
       None \<Rightarrow> (Inr (), s)
     | Some n \<Rightarrow> onModel t (modelMagnifyNodeToggle (node_id n)) s))"

section \<open>The bindings\<close>

datatype keyAction =
    SwitchTab int
  | NewTerminal
  | FocusCurrent
  | NewTab
  | CloseCurrent
  | ToggleMagnify
  | SwitchBlock navigateDirection
  | SwitchTabAbs nat
  | SwitchBlockNum nat

text \<open>The three bindings that the loop of \<open>registerGlobalKeys\<close> adds for a digit.\<close>

definition digitBindings :: "nat \<Rightarrow> (string \<times> keyAction) list" where
  "digitBindings idx =
     [(''Cmd:'' @ show_nat idx, SwitchTabAbs idx),
      (''Ctrl:Shift:c{Digit'' @ show_nat idx @ ''}'', SwitchBlockNum idx),
      (''Ctrl:Shift:c{Numpad'' @ show_nat idx @ ''}'', SwitchBlockNum idx)]"

definition globalKeyMap :: "(string, keyAction) js_map" where
  "globalKeyMap =
     foldl (\<lambda>m (k, a). map_set k a m) []
       ([(''Cmd:]'', SwitchTab 1),
         (''Shift:Cmd:]'', SwitchTab 1),
         (''Cmd:['', SwitchTab (-1)),
         (''Shift:Cmd:['', SwitchTab (-1)),
         (''Cmd:n'', NewTerminal),
         (''Cmd:i'', FocusCurrent),
         (''Cmd:t'', NewTab),
         (''Cmd:w'', CloseCurrent),
         (''Cmd:m'', ToggleMagnify),
         (''Ctrl:Shift:ArrowUp'', SwitchBlock NavUp),
         (''Ctrl:Shift:ArrowDown'', SwitchBlock NavDown),
         (''Ctrl:Shift:ArrowLeft'', SwitchBlock NavLeft),
         (''Ctrl:Shift:ArrowRight'', SwitchBlock NavRight)] @
        concat (map digitBindings [1..<10]))"

definition registerGlobalKeys :: "appState \<Rightarrow> appState" where
  "registerGlobalKeys s =
     appLog (RegisterWebviewKeys
       (map fst globalKeyMap @ [''Cmd:l'', ''Cmd:r'', ''Cmd:ArrowRight'', ''Cmd:ArrowLeft''])) s"

text \<open>A handler returns true; \<open>handleCmdN\<close> is not awaited, so its error does not show.\<close>

definition runKeyAction :: "keyAction \<Rightarrow> appState \<Rightarrow> ((js_error + bool) \<times> appState) option" where
  "runKeyAction act s =
     (let done = (\<lambda>p. andThen p (\<lambda>_ s. (Inr True, s))) in
      case act of
        SwitchTab offset \<Rightarrow> Some (done (switchTab offset s))
      | NewTerminal \<Rightarrow> Some (Inr True, snd (handleCmdN s))
      | FocusCurrent \<Rightarrow> Some (done (handleCmdI s))
      | NewTab \<Rightarrow> Some (Inr True, addTab s)
      | CloseCurrent \<Rightarrow> Some (done (genericClose (ap_activeTabId s) s))
      | ToggleMagnify \<Rightarrow> Some (done (toggleMagnify s))
      | SwitchBlock dir \<Rightarrow> map_option done (switchBlockInDirection (ap_activeTabId s) dir s)
      | SwitchTabAbs idx \<Rightarrow> Some (Inr True, switchTabAbs (int idx) s)
      | SwitchBlockNum idx \<Rightarrow> Some (done (switchBlockByBlockNum (int idx) s)))"

text \<open>The first binding in the order of the map that the event matches.\<close>

definition matchedAction :: "waveKeyboardEvent \<Rightarrow> keyAction option" where
  "matchedAction e = map_option snd (find (\<lambda>(key, _). checkKeyPressed e key) globalKeyMap)"

definition handleGlobalWaveKeyboardEvents ::
  "waveKeyboardEvent \<Rightarrow> appState \<Rightarrow> ((js_error + bool) \<times> appState) option" where
  "handleGlobalWaveKeyboardEvents e s =
     (case matchedAction e of
        None \<Rightarrow> Some (Inr False, s)
      | Some act \<Rightarrow> runKeyAction act s)"

text \<open>
  \<open>viewKeyDown\<close> is what the key handler of the view model of a block returns: whether it
  handled the event, \<open>None\<close> when it has none.
\<close>

definition dispatchToBlock ::
  "(string \<Rightarrow> string list) \<Rightarrow> (string \<Rightarrow> waveKeyboardEvent \<Rightarrow> bool option) \<Rightarrow> activeElement option \<Rightarrow>
     waveKeyboardEvent \<Rightarrow> appState \<Rightarrow> (js_error + bool) \<times> appState" where
  "dispatchToBlock segment viewKeyDown active e s =
     andThen (getLayoutModelForActiveTab s) (\<lambda>t s.
     withVal (focusedNodeOf t s) s (\<lambda>focused.
     case Option.bind focused node_data of
       None \<Rightarrow> (Inr False, s)
     | Some blockId \<Rightarrow>
         if \<not> shouldDispatchToBlock segment active e s then (Inr False, s)
         else case getBlockComponentModel blockId s of
           None \<Rightarrow> (Inl TypeError, s)
         | Some bcm \<Rightarrow>
             if bcm_openSwitchConnection bcm \<and> checkKeyPressed e ''Cmd:g''
             then (Inr True, appLog (OpenSwitchConnection blockId) s)
             else if bcm_hasViewModel bcm \<and> viewKeyDown blockId e = Some True then (Inr True, s)
             else (Inr False, s)))"

definition appHandleKeyDown ::
  "(string \<Rightarrow> string list) \<Rightarrow> (string \<Rightarrow> waveKeyboardEvent \<Rightarrow> bool option) \<Rightarrow> activeElement option \<Rightarrow>
     waveKeyboardEvent \<Rightarrow> appState \<Rightarrow> ((js_error + bool) \<times> appState) option" where
  "appHandleKeyDown segment viewKeyDown active e s =
     (case handleGlobalWaveKeyboardEvents e s of
        None \<Rightarrow> None
      | Some (Inl err, s) \<Rightarrow> Some (Inl err, s)
      | Some (Inr True, s) \<Rightarrow> Some (Inr True, s)
      | Some (Inr False, s) \<Rightarrow> Some (dispatchToBlock segment viewKeyDown active e s))"

end
