(* ===== verification/KeyProps.thy ===== *)
theory KeyProps
  imports KeyModel
begin

text \<open>
  Properties of key descriptions and of the global bindings: a description matches exactly the
  events it names, no key event has two bindings but for the arrows of the number pad, and
  switching tabs goes around.
\<close>

section \<open>Descriptions\<close>

datatype modName = MCmd | MOption | MShift | MCtrl

fun modText :: "modName \<Rightarrow> string" where
  "modText MCmd = ''Cmd''"
| "modText MOption = ''Option''"
| "modText MShift = ''Shift''"
| "modText MCtrl = ''Ctrl''"

definition describe :: "modName list \<Rightarrow> string \<Rightarrow> string" where
  "describe ms key = js_join (CHR '':'') (map modText ms @ [key])"

text \<open>A key name that stands for itself in a description.\<close>

definition plainKey :: "string \<Rightarrow> bool" where
  "plainKey key \<longleftrightarrow> set key \<inter> {CHR '':'', CHR ''('', CHR '')''} = {} \<and>
     key \<notin> {''Cmd'', ''Shift'', ''Ctrl'', ''Option'', ''Alt'', ''Meta''} \<and> keyTypeCodeMatch key = None"

definition upperKey :: "string \<Rightarrow> bool" where
  "upperKey key \<longleftrightarrow> length key = 1 \<and> isUpperAZ (hd key)"

definition sameKey :: "string \<Rightarrow> string \<Rightarrow> bool" where
  "sameKey eventKey key \<longleftrightarrow>
     (if upperKey eventKey then toLocaleLowerCase eventKey = toLocaleLowerCase key
      else (if eventKey = '' '' then ''Space'' else eventKey) = key)"

definition modsOf :: "modName set \<Rightarrow> keyMods" where
  "modsOf ms = \<lparr>mod_Cmd = MCmd \<in> ms, mod_Option = MOption \<in> ms, mod_Shift = MShift \<in> ms,
     mod_Ctrl = MCtrl \<in> ms, mod_Alt = False, mod_Meta = False\<rparr>"

lemma parse_mod:
  "parseKeyPart \<lparr>kp_mods = modsOf ms, kp_key = k, kp_keyType = t\<rparr> (modText m) =
    \<lparr>kp_mods = modsOf (insert m ms), kp_key = k, kp_keyType = t\<rparr>"
  by (cases m) (simp_all add: parseKeyPart_def setMods_def modsOf_def)

lemma parse_mods:
  "foldl parseKeyPart \<lparr>kp_mods = modsOf ms, kp_key = k, kp_keyType = t\<rparr> (map modText xs) =
    \<lparr>kp_mods = modsOf (ms \<union> set xs), kp_key = k, kp_keyType = t\<rparr>"
  by (induction xs arbitrary: ms) (simp_all add: parse_mod)

lemma describe_plain:
  assumes "set key \<inter> {CHR '':'', CHR ''('', CHR '')''} = {}"
  shows "filter (\<lambda>c. c \<noteq> CHR ''('' \<and> c \<noteq> CHR '')'') (describe ms key) = describe ms key"
    and "js_split (CHR '':'') (describe ms key) = map modText ms @ [key]"
proof -
  have m: "set (modText m) \<inter> {CHR '':'', CHR ''('', CHR '')''} = {}" for m by (cases m) simp_all
  have "set (js_join (CHR '':'') ws) \<subseteq> insert (CHR '':'') (\<Union>w \<in> set ws. set w)" for ws
    by (induction "CHR '':''" ws rule: js_join.induct) auto
  then have "set (describe ms key) \<inter> {CHR ''('', CHR '')''} = {}"
    using m assms unfolding describe_def by fastforce
  then show "filter (\<lambda>c. c \<noteq> CHR ''('' \<and> c \<noteq> CHR '')'') (describe ms key) = describe ms key"
    by (intro filter_True) auto
  show "js_split (CHR '':'') (describe ms key) = map modText ms @ [key]"
    unfolding describe_def using m assms by (intro js_split_join) auto
qed

lemma noMods_modsOf: "noMods = modsOf {}"
  by (simp add: noMods_def modsOf_def)

lemma upper_space: "\<not> isUpperAZ (CHR '' '')"
  by (simp add: isUpperAZ_def)

lemma parse_describe:
  assumes "plainKey key"
  shows "parseKeyDescription (describe ms key) =
    \<lparr>kp_mods = modsOf (set ms \<union> (if upperKey key then {MShift} else {})),
     kp_key = (if key = '' '' then ''Space'' else key), kp_keyType = Some KeyTypeKey\<rparr>"
proof -
  have "parseKeyDescription (describe ms key) =
      parseKeyPart \<lparr>kp_mods = modsOf (set ms), kp_key = [], kp_keyType = None\<rparr> key"
    using assms parse_mods [of "{}" "[]" None ms]
    by (simp add: parseKeyDescription_def describe_plain plainKey_def noMods_modsOf)
  also have "\<dots> = \<lparr>kp_mods = modsOf (set ms \<union> (if upperKey key then {MShift} else {})),
     kp_key = (if key = '' '' then ''Space'' else key), kp_keyType = Some KeyTypeKey\<rparr>"
    using assms upper_space
    by (auto simp: parseKeyPart_def plainKey_def parseKey_def setMods_def modsOf_def upperKey_def Let_def)
  finally show ?thesis .
qed

text \<open>
  C27: a description of a plain key with modifiers, in any order and however often each is named,
  matches an event exactly if the four modifiers of the event are those named (a capital letter
  names Shift too) and its key is the one named, capital letters of the event matching either case.
\<close>

theorem description_matches_exactly:
  assumes "plainKey key"
  shows "checkKeyPressed e (describe ms key) \<longleftrightarrow>
    ev_cmd e = (MCmd \<in> set ms) \<and> ev_option e = (MOption \<in> set ms) \<and> ev_control e = (MCtrl \<in> set ms) \<and>
    ev_shift e = (MShift \<in> set ms \<or> upperKey key) \<and>
    sameKey (ev_key e) (if key = '' '' then ''Space'' else key)"
  unfolding checkKeyPressed_def parse_describe [OF assms]
  by (auto simp: checkKeyPress_def Let_def modsOf_def notMod_def comparedKeys_def sameKey_def upperKey_def)

theorem description_matches_exactly_witness:
  "\<forall>e. checkKeyPressed e (describe [MShift, MCmd] ''z'') =
    (ev_cmd e \<and> \<not> ev_option e \<and> \<not> ev_control e \<and> ev_shift e \<and> sameKey (ev_key e) ''z'')"
  by (intro allI, subst description_matches_exactly) (simp_all add: plainKey_def upperKey_def isUpperAZ_def)

section \<open>The global bindings\<close>

text \<open>What tells two descriptions apart: modifiers, kind, and the key in lower case.\<close>

definition keySignature :: "string \<Rightarrow> keyMods \<times> keyType option \<times> string" where
  "keySignature k =
     (let d = parseKeyDescription k in (kp_mods d, kp_keyType d, toLocaleLowerCase (kp_key d)))"

definition isBlockNum :: "keyAction \<Rightarrow> bool" where
  "isBlockNum a \<longleftrightarrow> (case a of SwitchBlockNum _ \<Rightarrow> True | _ \<Rightarrow> False)"

definition isBlockDir :: "keyAction \<Rightarrow> bool" where
  "isBlockDir a \<longleftrightarrow> (case a of SwitchBlock _ \<Rightarrow> True | _ \<Rightarrow> False)"

text \<open>The arrow key of a direction, and the keys of a number: in the row of digits and on the number pad.\<close>

fun arrowKey :: "navigateDirection \<Rightarrow> string" where
  "arrowKey NavUp = ''ArrowUp''"
| "arrowKey NavDown = ''ArrowDown''"
| "arrowKey NavLeft = ''ArrowLeft''"
| "arrowKey NavRight = ''ArrowRight''"

definition numberCodes :: "int \<Rightarrow> string list" where
  "numberCodes n = [''Digit'' @ show_nat (nat n), ''Numpad'' @ show_nat (nat n)]"

definition wellBound :: "string \<times> keyAction \<Rightarrow> bool" where
  "wellBound b \<longleftrightarrow>
     (let d = parseKeyDescription (fst b); ctrlShift = modsOf {MCtrl, MShift} in
      \<not> mod_Alt (kp_mods d) \<and> \<not> mod_Meta (kp_mods d) \<and>
      (case snd b of
         SwitchBlockNum n \<Rightarrow> kp_keyType d = Some KeyTypeCode \<and> kp_mods d = ctrlShift \<and> kp_key d \<in> set (numberCodes n)
       | SwitchBlock dir \<Rightarrow> kp_keyType d = Some KeyTypeKey \<and> kp_mods d = ctrlShift \<and> kp_key d = arrowKey dir
       | _ \<Rightarrow> kp_keyType d = Some KeyTypeKey \<and> kp_mods d \<noteq> ctrlShift))"

lemma wellBoundD:
  assumes "wellBound b"
  shows "\<not> mod_Alt (kp_mods (parseKeyDescription (fst b)))" "\<not> mod_Meta (kp_mods (parseKeyDescription (fst b)))"
    "kp_keyType (parseKeyDescription (fst b)) = Some (if isBlockNum (snd b) then KeyTypeCode else KeyTypeKey)"
    "kp_mods (parseKeyDescription (fst b)) = modsOf {MCtrl, MShift} \<longleftrightarrow> isBlockNum (snd b) \<or> isBlockDir (snd b)"
    "snd b = SwitchBlockNum n \<Longrightarrow> kp_key (parseKeyDescription (fst b)) \<in> set (numberCodes n)"
    "snd b = SwitchBlock dir \<Longrightarrow> kp_key (parseKeyDescription (fst b)) = arrowKey dir"
  using assms by (simp_all add: wellBound_def Let_def isBlockNum_def isBlockDir_def split: keyAction.splits)

lemma signatures_distinct: "distinct (map (keySignature \<circ> fst) globalKeyMap)"
  by code_simp

lemma all_wellBound: "list_all wellBound globalKeyMap"
  by code_simp

lemma numbers_last: "list_all (\<lambda>b. \<not> isBlockDir (snd b)) (dropWhile (\<lambda>b. \<not> isBlockNum (snd b)) globalKeyMap)"
  by code_simp

text \<open>What an event that matches a description without Alt and Meta fixes of it.\<close>

lemma check_fixes:
  assumes "checkKeyPressed e k" "kp_mods (parseKeyDescription k) = m" "\<not> mod_Alt m" "\<not> mod_Meta m"
  shows "m = \<lparr>mod_Cmd = ev_cmd e, mod_Option = ev_option e, mod_Shift = ev_shift e, mod_Ctrl = ev_control e,
      mod_Alt = False, mod_Meta = False\<rparr>"
    and "kp_keyType (parseKeyDescription k) = Some KeyTypeKey \<Longrightarrow>
      toLocaleLowerCase (kp_key (parseKeyDescription k)) =
        toLocaleLowerCase (if ev_key e = '' '' then ''Space'' else ev_key e)"
    and "kp_keyType (parseKeyDescription k) = Some KeyTypeCode \<Longrightarrow> kp_key (parseKeyDescription k) = ev_code e"
  using assms
  by (auto simp: checkKeyPressed_def checkKeyPress_def Let_def notMod_def comparedKeys_def upper_space
      split: if_splits)

lemma find_app: "find P (xs @ ys) = (case find P xs of None \<Rightarrow> find P ys | Some x \<Rightarrow> Some x)"
  by (induction xs) simp_all

lemma matches_same_binding:
  assumes b: "b \<in> set globalKeyMap" "b' \<in> set globalKeyMap"
    and m: "checkKeyPressed e (fst b)" "checkKeyPressed e (fst b')"
    and t: "kp_keyType (parseKeyDescription (fst b)) = kp_keyType (parseKeyDescription (fst b'))"
  shows "b = b'"
proof -
  have "wellBound b" "wellBound b'" using b all_wellBound by (auto simp: list_all_iff)
  note wb = wellBoundD [OF this(1)] and wb' = wellBoundD [OF this(2)]
  note fb = check_fixes [OF m(1) refl wb(1,2)] and fb' = check_fixes [OF m(2) refl wb'(1,2)]
  have "kp_mods (parseKeyDescription (fst b)) = kp_mods (parseKeyDescription (fst b'))"
    using fb(1) fb'(1) by simp
  moreover have "toLocaleLowerCase (kp_key (parseKeyDescription (fst b))) =
      toLocaleLowerCase (kp_key (parseKeyDescription (fst b')))"
    using fb(2,3) fb'(2,3) wb(3) t by (cases "isBlockNum (snd b)") simp_all
  ultimately have "keySignature (fst b) = keySignature (fst b')" using t by (simp add: keySignature_def Let_def)
  then show ?thesis using b signatures_distinct by (auto simp: distinct_map inj_on_def)
qed

text \<open>
  C28: the order of the global bindings matters only for a number key that is an arrow at the same time,
  as on the number pad: an event that matches a binding runs that binding, unless the binding is of a
  number, the event has Ctrl and Shift and the code of one of the keys of the number, and its key is
  the arrow of a direction; then it moves the focus in that direction.
\<close>

theorem global_bindings_unambiguous:
  assumes "(k, a) \<in> set globalKeyMap" "checkKeyPressed e k"
  shows "matchedAction e = Some a \<or>
    (\<exists>n dir. a = SwitchBlockNum n \<and> matchedAction e = Some (SwitchBlock dir) \<and>
      toLocaleLowerCase (ev_key e) = toLocaleLowerCase (arrowKey dir) \<and>
      ev_code e \<in> set (numberCodes n) \<and> ev_control e \<and> ev_shift e)"
proof -
  let ?P = "\<lambda>b. checkKeyPressed e (fst b)" and ?num = "\<lambda>b. \<not> isBlockNum (snd b)"
  obtain b where b: "find ?P globalKeyMap = Some b" "b \<in> set globalKeyMap" "?P b"
    using assms by (cases "find ?P globalKeyMap") (auto simp: find_None_iff find_Some_iff)
  have act: "matchedAction e = Some (snd b)"
    using b(1) by (simp add: matchedAction_def case_prod_unfold)
  have w: "wellBound (k, a)" "wellBound b" using assms(1) b(2) all_wellBound by (auto simp: list_all_iff)
  note wk = wellBoundD [OF w(1), simplified] and wb = wellBoundD [OF w(2)]
  note fk = check_fixes [OF assms(2) refl wk(1,2)] and fb = check_fixes [OF b(3) refl wb(1,2)]
  show ?thesis
  proof (cases "isBlockNum a = isBlockNum (snd b)")
    case True
    then have "(k, a) = b" using matches_same_binding [of "(k, a)" b e] assms b wk(3) wb(3) by simp
    then show ?thesis using act by auto
  next
    case False
    have mods: "kp_mods (parseKeyDescription k) = kp_mods (parseKeyDescription (fst b))"
      using fk(1) fb(1) by simp
    have num: "isBlockNum a" "\<not> isBlockNum (snd b)"
    proof -
      show "isBlockNum a"
      proof (rule ccontr)
        assume a: "\<not> isBlockNum a"
        then have "isBlockNum (snd b)" using False by simp
        then have "isBlockDir a" using wk(4) wb(4) mods a by simp
        then have "(k, a) \<notin> set (dropWhile ?num globalKeyMap)" using numbers_last by (auto simp: list_all_iff)
        then have "(k, a) \<in> set (takeWhile ?num globalKeyMap)"
          using assms(1) by (metis Un_iff set_append takeWhile_dropWhile_id)
        then obtain c where c: "find ?P (takeWhile ?num globalKeyMap) = Some c"
          using assms(2) by (cases "find ?P (takeWhile ?num globalKeyMap)") (auto simp: find_None_iff)
        then have "?num c" by (auto simp: find_Some_iff dest: set_takeWhileD nth_mem)
        moreover have "find ?P globalKeyMap = Some c"
          using find_app [of ?P "takeWhile ?num globalKeyMap" "dropWhile ?num globalKeyMap"] c by simp
        ultimately show False using b(1) \<open>isBlockNum (snd b)\<close> by simp
      qed
      with False show "\<not> isBlockNum (snd b)" by simp
    qed
    then obtain n where n: "a = SwitchBlockNum n" by (cases a) (auto simp: isBlockNum_def)
    have "isBlockDir (snd b)" using wk(4) wb(4) mods num by simp
    then obtain dir where dir: "snd b = SwitchBlock dir" by (cases "snd b") (auto simp: isBlockDir_def)
    have "ev_code e \<in> set (numberCodes n)" using fk(3) wk(3) wk(5) num(1) n by simp
    moreover have "modsOf {MCtrl, MShift} = \<lparr>mod_Cmd = ev_cmd e, mod_Option = ev_option e, mod_Shift = ev_shift e,
        mod_Ctrl = ev_control e, mod_Alt = False, mod_Meta = False\<rparr>" using fk(1) wk(4) num(1) by simp
    then have "ev_control e" "ev_shift e" by (simp_all add: modsOf_def)
    moreover have "toLocaleLowerCase (arrowKey dir) = toLocaleLowerCase (if ev_key e = '' '' then ''Space'' else ev_key e)"
      using fb(2) wb(3) wb(6) [OF dir] num(2) by simp
    moreover have "toLocaleLowerCase (arrowKey dir) \<noteq> toLocaleLowerCase ''Space''" by (cases dir; hypsubst; code_simp)
    ultimately show ?thesis using act dir n by (cases "ev_key e = '' ''") auto
  qed
qed

definition demoEvent :: "string \<Rightarrow> string \<Rightarrow> waveKeyboardEvent" where
  "demoEvent key code =
     \<lparr>ev_type = ''keydown'', ev_key = key, ev_code = code, ev_repeat = False, ev_location = 0, ev_shift = True,
      ev_control = True, ev_alt = False, ev_meta = False, ev_cmd = False, ev_option = False\<rparr>"

lemma demo_bound:
  "(''Ctrl:Shift:c{Numpad8}'', SwitchBlockNum 8) \<in> set globalKeyMap"
  "checkKeyPressed (demoEvent ''ArrowUp'' ''Numpad8'') ''Ctrl:Shift:c{Numpad8}''"
  by code_simp+

theorem global_bindings_unambiguous_witness:
  "matchedAction (demoEvent ''ArrowUp'' ''Numpad8'') = Some (SwitchBlockNum 8) \<or>
    (\<exists>n dir. SwitchBlockNum 8 = SwitchBlockNum n \<and>
      matchedAction (demoEvent ''ArrowUp'' ''Numpad8'') = Some (SwitchBlock dir) \<and>
      toLocaleLowerCase ''ArrowUp'' = toLocaleLowerCase (arrowKey dir) \<and> ''Numpad8'' \<in> set (numberCodes n))"
  using global_bindings_unambiguous [OF demo_bound] by (auto simp: demoEvent_def)

section \<open>Tabs\<close>

text \<open>
  Switching by an offset of at most the number of tabs goes to the tab that many places on,
  around the end, and asks the backend to make it the active one.
\<close>

theorem switchTab_goes_around:
  assumes "map_has (ap_tabs s) (ap_activeTabId s)" "ap_workspaceTabs s = us @ ap_activeTabId s # vs"
    and "ap_activeTabId s \<notin> set us" "- int (length (ap_workspaceTabs s)) \<le> offset"
  shows "switchTab offset s =
    (Inr (), appLog (SvcSetActiveTab (ap_workspaceTabs s !
       nat ((int (length us) + offset) mod int (length (ap_workspaceTabs s))))) s)"
proof -
  let ?n = "int (length (ap_workspaceTabs s))"
  have i: "js_find_index (\<lambda>t. t = ap_activeTabId s) (ap_workspaceTabs s) = int (length us)"
    unfolding assms(2) using assms(3) by (intro js_find_index_app) auto
  have n: "0 < ?n" by (simp add: assms(2))
  have "js_rem (int (length us) + offset + ?n) ?n = (int (length us) + offset) mod ?n"
    using assms(4) by (simp add: js_rem_def)
  moreover have "0 \<le> (int (length us) + offset) mod ?n" "(int (length us) + offset) mod ?n < ?n" using n by simp_all
  ultimately have "js_at (ap_workspaceTabs s) (js_rem (int (length us) + offset + ?n) ?n) =
      Some (ap_workspaceTabs s ! nat ((int (length us) + offset) mod ?n))"
    by (simp add: js_at_def)
  with i assms(1) show ?thesis by (simp add: switchTab_def Let_def)
qed

theorem switchTab_goes_around_witness:
  "\<forall>s. let s = s\<lparr>ap_tabs := [(''c'', \<lparr>td_blockids = None\<rparr>)], ap_workspaceTabs := [''a'', ''b'', ''c''], ap_activeTabId := ''c''\<rparr>
    in switchTab 1 s = (Inr (), appLog (SvcSetActiveTab ''a'') s)"
proof
  fix s :: appState
  let ?s = "s\<lparr>ap_tabs := [(''c'', \<lparr>td_blockids = None\<rparr>)], ap_workspaceTabs := [''a'', ''b'', ''c''], ap_activeTabId := ''c''\<rparr>"
  show "let s = ?s in switchTab 1 s = (Inr (), appLog (SvcSetActiveTab ''a'') s)"
    using switchTab_goes_around [of ?s "[''a'', ''b'']" "[]" 1] by (simp add: map_has_def map_get_def)
qed

end
