(* ===== verification/Startup.thy ===== *)
theory Startup
  imports Global UiModels Wps
begin

text \<open>
  How a window starts (frontend/wave.ts) and what its global atoms are (app/store/global.ts): the
  atoms derived from the objects of the client, the window, the workspace and the tab; the events
  that every window subscribes to; and the request of a file. Loading an object, the configuration
  and the fonts is the environment.
\<close>

section \<open>Derived atoms\<close>

text \<open>What the atoms read: the two identifiers, and the value of an object reference in the store.\<close>

record atomEnv =
  ae_windowId :: "string option"
  ae_clientId :: "string option"
  ae_object :: "string option \<Rightarrow> json"
  ae_fullConfig :: json

text \<open>A property of a value that may be nullish: the first throws, the second is optional chaining.\<close>

definition propOf :: "json \<Rightarrow> string \<Rightarrow> js_error + json" where
  "propOf v k = (if isNullish v then Inl TypeError else Inr (getProp v k))"

definition optProp :: "json \<Rightarrow> string \<Rightarrow> json" where
  "optProp v k = (if isNullish v then JUndef else getProp v k)"

definition idOf :: "json \<Rightarrow> string option" where
  "idOf v = (case v of JStr s \<Rightarrow> Some s | _ \<Rightarrow> None)"

definition clientAtom :: "atomEnv \<Rightarrow> json" where
  "clientAtom e =
     (case ae_clientId e of None \<Rightarrow> JNull | Some i \<Rightarrow> ae_object e (makeORef (Some ''client'') (Some i)))"

definition windowDataAtom :: "atomEnv \<Rightarrow> json" where
  "windowDataAtom e =
     (case ae_windowId e of None \<Rightarrow> JNull | Some i \<Rightarrow> ae_object e (makeORef (Some ''window'') (Some i)))"

definition workspaceAtom :: "atomEnv \<Rightarrow> json" where
  "workspaceAtom e =
     (let windowData = windowDataAtom e in
      if isNullish windowData then JNull
      else ae_object e (makeORef (Some ''workspace'') (idOf (getProp windowData ''workspaceid''))))"

definition tabAtom :: "atomEnv \<Rightarrow> json" where
  "tabAtom e =
     (let windowData = windowDataAtom e in
      if isNullish windowData then JNull
      else ae_object e (makeORef (Some ''tab'') (idOf (getProp windowData ''activetabid''))))"

definition activeTabIdAtom :: "atomEnv \<Rightarrow> json" where
  "activeTabIdAtom e =
     (let windowData = windowDataAtom e in if isNullish windowData then JNull else getProp windowData ''activetabid'')"

definition uiContextAtom :: "atomEnv \<Rightarrow> (string \<times> json) list" where
  "uiContextAtom e =
     [(''windowid'', case ae_windowId e of None \<Rightarrow> JNull | Some i \<Rightarrow> JStr i),
      (''activetabid'', optProp (windowDataAtom e) ''activetabid'')]"

definition settingsOf :: "atomEnv \<Rightarrow> json" where
  "settingsOf e = (let s = optProp (ae_fullConfig e) ''settings'' in if isNullish s then JObj [] else s)"

text \<open>Reduced motion: the user's setting, or the preference of the system (which a missing media query counts as).\<close>

definition systemReducedMotion :: "bool option \<Rightarrow> bool" where
  "systemReducedMotion queryMatches = (case queryMatches of None \<Rightarrow> True | Some b \<Rightarrow> b)"

definition prefersReducedMotion :: "atomEnv \<Rightarrow> bool \<Rightarrow> bool" where
  "prefersReducedMotion e systemPreference \<longleftrightarrow>
     truthy (optProp (settingsOf e) ''window:reducedmotion'') \<or> systemPreference"

text \<open>
  All connections: the values of the atoms that are in the map when it is read. A derived atom is
  read again only when one of the atoms that it has read has another value, so it is kept with those.
\<close>

definition allConnStatus :: "connStatusMap \<Rightarrow> connStatus list" where
  "allConnStatus m = map snd m"

definition readAllConnStatus ::
  "connStatusMap \<Rightarrow> (connStatusMap \<times> connStatus list) option \<Rightarrow> connStatus list \<times> (connStatusMap \<times> connStatus list) option" where
  "readAllConnStatus m kept =
     (case kept of
        Some (deps, v) \<Rightarrow>
          if list_all (\<lambda>(k, s). map_get m k = Some s) deps then (v, kept)
          else (allConnStatus m, Some (m, allConnStatus m))
      | None \<Rightarrow> (allConnStatus m, Some (m, allConnStatus m)))"

section \<open>Cached queries\<close>

text \<open>\<open>isDev\<close>, \<open>getUserName\<close> and \<open>getHostName\<close> ask the main process once.\<close>

definition cachedQuery :: "'a \<Rightarrow> 'a option \<Rightarrow> 'a \<times> 'a option \<times> bool" where
  "cachedQuery answer cached = (case cached of Some v \<Rightarrow> (v, cached, False) | None \<Rightarrow> (answer, Some answer, True))"

section \<open>Global events\<close>

datatype globalHandler = WaveObjUpdateHandler | ConfigHandler | UserInputHandler | BlockFileHandler

record globalState =
  gs_updates :: "json list"                    \<comment> \<open>passed on to the object store\<close>
  gs_fullConfig :: json
  gs_modals :: "json modal list"
  gs_files :: fileSubjectState
  gs_emitted :: "(nat \<times> json) list"           \<comment> \<open>events of file subjects\<close>

definition globalSubscriptions :: "(string \<times> globalHandler) list" where
  "globalSubscriptions =
     [(''waveobj:update'', WaveObjUpdateHandler), (''config'', ConfigHandler),
      (''userinput'', UserInputHandler), (''blockfile'', BlockFileHandler)]"

definition initGlobalWaveEventSubs :: "globalHandler wpsState \<Rightarrow> eventUnsubscribe list option \<times> globalHandler wpsState" where
  "initGlobalWaveEventSubs st =
     waveEventSubscribe (map (\<lambda>(t, h). \<lparr>sub_eventType = t, sub_handler = Some h, sub_scope = None\<rparr>) globalSubscriptions) st"

fun runGlobalHandler :: "globalHandler \<Rightarrow> json \<Rightarrow> globalState \<Rightarrow> (js_error + unit) \<times> globalState" where
  "runGlobalHandler WaveObjUpdateHandler d s = (Inr (), s\<lparr>gs_updates := gs_updates s @ [d]\<rparr>)"
| "runGlobalHandler ConfigHandler d s = withVal (propOf d ''fullconfig'') s (\<lambda>c. (Inr (), s\<lparr>gs_fullConfig := c\<rparr>))"
| "runGlobalHandler UserInputHandler d s = (Inr (), s\<lparr>gs_modals := pushModal ''UserInputModal'' (Some d) (gs_modals s)\<rparr>)"
| "runGlobalHandler BlockFileHandler d s =
     withVal (propOf d ''zoneid'') s (\<lambda>zoneid.
     case (idOf zoneid, idOf (getProp d ''filename'')) of
       (Some z, Some f) \<Rightarrow>
         (let (subject, files) = getFileSubject z f (gs_files s) in
          (Inr (), s\<lparr>gs_files := files, gs_emitted := gs_emitted s @ [(subject, d)]\<rparr>))
     | _ \<Rightarrow> (Inr (), s))"

section \<open>Requests of files\<close>

text \<open>The encoding of \<open>URLSearchParams\<close>: a space is a plus, the letters, digits and \<open>*-._\<close> stay.\<close>

definition formChar :: "char \<Rightarrow> string" where
  "formChar c =
     (let n = (of_char c :: nat) in
      if c = CHR '' '' then ''+''
      else if n \<in> {97..122} \<or> n \<in> {65..90} \<or> n \<in> {48..57} \<or> c \<in> set ''*-._'' then [c]
      else if n < 128 then percentByte n
      else percentByte (192 + n div 64) @ percentByte (128 + n mod 64))"

definition formEncode :: "string \<Rightarrow> string" where
  "formEncode s = concat (map formChar s)"

definition waveFileUrl :: "string \<Rightarrow> string \<Rightarrow> string \<Rightarrow> nat option \<Rightarrow> string" where
  "waveFileUrl webEndpoint zoneId fileName offset =
     webEndpoint @ ''/wave/file?'' @ ''zoneid='' @ formEncode zoneId @ ''&name='' @ formEncode fileName @
     (case offset of None \<Rightarrow> [] | Some n \<Rightarrow> ''&offset='' @ show_nat n)"

record fileResponse =
  fr_status :: nat
  fr_statusText :: string
  fr_zoneFileInfo :: "string option"
  fr_body :: "nat list"

definition respOk :: "fileResponse \<Rightarrow> bool" where
  "respOk r \<longleftrightarrow> 200 \<le> fr_status r \<and> fr_status r \<le> 299"

text \<open>\<open>decode\<close> is the decoding of the header: base 64 and then JSON, either of which can throw.\<close>

definition fetchWaveFile ::
  "(string \<Rightarrow> js_error + json) \<Rightarrow> string \<Rightarrow> string \<Rightarrow> fileResponse \<Rightarrow> js_error + (nat list option \<times> json)" where
  "fetchWaveFile decode zoneId fileName r =
     (if \<not> respOk r then
        (if fr_status r = 404 then Inr (None, JNull)
         else Inl (Error (''error getting wave file: '' @ fr_statusText r)))
      else if fr_status r = 204 then Inr (None, JNull)
      else
        (case fr_zoneFileInfo r of
           None \<Rightarrow> Inl (Error (''missing zone file info for '' @ zoneId @ '':'' @ fileName))
         | Some info \<Rightarrow> bindR (decode info) (\<lambda>fileInfo. Inr (Some (fr_body r), fileInfo))))"

section \<open>Startup\<close>

datatype startStep =
    InitGlobal
  | SetKeyUtilPlatform
  | LoadFonts
  | SetTitle string
  | InitWshrpc "string option"
  | LoadedConnStatus
  | InitEventSubs
  | SubscribeToConnEvents
  | Pinned "string option"
  | RegisterGlobalKeys
  | RegisterReinjectKeyHandler
  | RegisterControlShiftHandler
  | ScheduleLoadMonaco
  | SetFullConfig json
  | CallSetActiveTab json
  | Render

text \<open>The parameters of the url, and what the awaited calls return.\<close>

record startEnv =
  se_windowId :: "string option"
  se_clientId :: "string option"
  se_connStatus :: "js_error + unit"
  se_load :: "string option \<Rightarrow> js_error + json"
  se_fullConfig :: "js_error + json"
  se_fontsReady :: bool

definition doStep :: "startStep \<Rightarrow> startStep list \<Rightarrow> (js_error + unit) \<times> startStep list" where
  "doStep x s = (Inr (), s @ [x])"

definition pin :: "startEnv \<Rightarrow> string option \<Rightarrow> startStep list \<Rightarrow> (js_error + json) \<times> startStep list" where
  "pin e oref s = withVal (se_load e oref) s (\<lambda>v. (Inr v, s @ [Pinned oref]))"

definition moduleLoaded :: "startEnv \<Rightarrow> startStep list \<Rightarrow> (js_error + unit) \<times> startStep list" where
  "moduleLoaded e s =
     andThen (doStep InitGlobal s) (\<lambda>_ s.
     andThen (doStep SetKeyUtilPlatform s) (\<lambda>_ s.
     andThen (doStep LoadFonts s) (\<lambda>_ s.
     case se_windowId e of
       None \<Rightarrow> (Inl TypeError, s)
     | Some w \<Rightarrow> doStep (SetTitle (''The Next Wave ('' @ take 8 w @ '')'')) s)))"

definition domContentLoaded :: "startEnv \<Rightarrow> startStep list \<Rightarrow> (js_error + unit) \<times> startStep list" where
  "domContentLoaded e s =
     andThen (doStep (InitWshrpc (se_windowId e)) s) (\<lambda>_ s.
     withVal (se_connStatus e) s (\<lambda>_.
     andThen (doStep LoadedConnStatus s) (\<lambda>_ s.
     andThen (doStep InitEventSubs s) (\<lambda>_ s.
     andThen (doStep SubscribeToConnEvents s) (\<lambda>_ s.
     andThen (pin e (makeORef (Some ''client'') (se_clientId e)) s) (\<lambda>_ s.
     andThen (pin e (makeORef (Some ''window'') (se_windowId e)) s) (\<lambda>waveWindow s.
     withVal (propOf waveWindow ''workspaceid'') s (\<lambda>workspaceid.
     andThen (pin e (makeORef (Some ''workspace'') (idOf workspaceid)) s) (\<lambda>_ s.
     andThen (pin e (makeORef (Some ''tab'') (idOf (getProp waveWindow ''activetabid''))) s) (\<lambda>initialTab s.
     withVal (propOf initialTab ''layoutstate'') s (\<lambda>layoutstate.
     andThen (pin e (makeORef (Some ''layout'') (idOf layoutstate)) s) (\<lambda>_ s.
     andThen (doStep RegisterGlobalKeys s) (\<lambda>_ s.
     andThen (doStep RegisterReinjectKeyHandler s) (\<lambda>_ s.
     andThen (doStep RegisterControlShiftHandler s) (\<lambda>_ s.
     andThen (doStep ScheduleLoadMonaco s) (\<lambda>_ s.
     withVal (se_fullConfig e) s (\<lambda>config.
     andThen (doStep (SetFullConfig config) s) (\<lambda>_ s.
     andThen (doStep (CallSetActiveTab (getProp waveWindow ''activetabid'')) s) (\<lambda>_ s.
     if se_fontsReady e then doStep Render s else (Inr (), s))))))))))))))))))))"

section \<open>Properties\<close>

text \<open>
  A connection that appears after the list of connections was read is not in the list, until an atom
  that was read then changes.
\<close>

theorem new_connections_are_missed:
  assumes "distinct (map fst m)" "map_get m c = None"
  shows "fst (readAllConnStatus (map_set c s m) (snd (readAllConnStatus m None))) = allConnStatus m"
proof -
  have "map_get m k = Some v" if "(k, v) \<in> set m" for k v
    using that assms(1) by (simp add: map_get_def)
  then have "list_all (\<lambda>(k, v). map_get (map_set c s m) k = Some v) m"
    using assms(2) by (auto simp: list_all_iff)
  then show ?thesis by (simp add: readAllConnStatus_def)
qed

text \<open>
  Every event about a file takes a reference to its subject that nothing gives back: the count of
  references grows by the number of events, so releasing the subject as often as it was asked for
  does not complete it.
\<close>

theorem file_events_keep_references:
  assumes "map_get (fss_map (gs_files s)) (z @ ''|'' @ f) = Some i" "i < length (fss_subjects (gs_files s))"
  defines "d \<equiv> JObj [(''zoneid'', JStr z), (''filename'', JStr f)]"
    and "after \<equiv> fold (\<lambda>d s. snd (runGlobalHandler BlockFileHandler d s))"
  shows "fs_refCount (fss_subjects (gs_files (after (replicate n d) s)) ! i) = fs_refCount (fss_subjects (gs_files s) ! i) + int n"
  using assms(1,2)
proof (induction n arbitrary: s)
  case (Suc n)
  define s1 where "s1 = snd (runGlobalHandler BlockFileHandler d s)"
  have s1: "gs_files s1 = snd (getFileSubject z f (gs_files s))"
    by (simp add: s1_def d_def propOf_def isNullish_def getProp_def idOf_def split: prod.split)
  then have "map_get (fss_map (gs_files s1)) (z @ ''|'' @ f) = Some i" "i < length (fss_subjects (gs_files s1))"
    "fs_refCount (fss_subjects (gs_files s1) ! i) = fs_refCount (fss_subjects (gs_files s) ! i) + 1"
    using Suc.prems by (simp_all add: getFileSubject_def Let_def)
  with Suc.IH [of s1] show ?case by (simp add: after_def s1_def)
qed (simp add: after_def)

text \<open>
  A window is rendered only when everything it shows is there: the rendering is the last step, and
  before it, in this order, the connections were loaded and the events subscribed to, the client, the
  window and the workspace and tab that the window names were loaded, with the layout of that tab,
  the keys were registered and the configuration was set. The first failure stops the startup.
\<close>

theorem render_comes_last:
  assumes "domContentLoaded e [] = (r, steps)" "Render \<in> set steps"
  shows "\<exists>waveWindow tab config. se_load e (makeORef (Some ''window'') (se_windowId e)) = Inr waveWindow \<and>
    se_load e (makeORef (Some ''tab'') (idOf (getProp waveWindow ''activetabid''))) = Inr tab \<and>
    steps = [InitWshrpc (se_windowId e), LoadedConnStatus, InitEventSubs, SubscribeToConnEvents,
      Pinned (makeORef (Some ''client'') (se_clientId e)), Pinned (makeORef (Some ''window'') (se_windowId e)),
      Pinned (makeORef (Some ''workspace'') (idOf (getProp waveWindow ''workspaceid''))),
      Pinned (makeORef (Some ''tab'') (idOf (getProp waveWindow ''activetabid''))),
      Pinned (makeORef (Some ''layout'') (idOf (getProp tab ''layoutstate''))),
      RegisterGlobalKeys, RegisterReinjectKeyHandler, RegisterControlShiftHandler, ScheduleLoadMonaco,
      SetFullConfig config, CallSetActiveTab (getProp waveWindow ''activetabid''), Render] \<and> r = Inr ()"
  using assms
  by (auto simp: domContentLoaded_def doStep_def pin_def propOf_def andThen_def withVal_def split: sum.splits if_splits prod.splits)

text \<open>A backend whose every object has the same properties.\<close>

definition demoStart :: startEnv where
  "demoStart =
     \<lparr>se_windowId = Some ''win'', se_clientId = Some ''cl'', se_connStatus = Inr (),
      se_load = (\<lambda>_. Inr (JObj [(''workspaceid'', JStr ''ws''), (''activetabid'', JStr ''t''), (''layoutstate'', JStr ''lay'')])),
      se_fullConfig = Inr JNull, se_fontsReady = True\<rparr>"

theorem render_comes_last_witness:
  "\<exists>steps waveWindow. domContentLoaded demoStart [] = (Inr (), steps) \<and> last steps = Render \<and>
    se_load demoStart (makeORef (Some ''window'') (Some ''win'')) = Inr waveWindow \<and>
    Pinned (makeORef (Some ''workspace'') (idOf (getProp waveWindow ''workspaceid''))) \<in> set steps"
proof -
  obtain r steps where run: "domContentLoaded demoStart [] = (r, steps)" by fastforce
  moreover from run have "Render \<in> set steps"
    by (auto simp: domContentLoaded_def doStep_def pin_def propOf_def isNullish_def demoStart_def)
  ultimately have "domContentLoaded demoStart [] = (r, steps)" "Render \<in> set steps" by blast+
  from render_comes_last [OF this] show ?thesis using run by (auto simp: demoStart_def)
qed

end
