(* ===== verification/AppShell.thy ===== *)
theory AppShell
  imports Global UiModels
begin

text \<open>
  The shell of the application (app/app.tsx): the context menu for text, the window settings, the
  background of a tab, the place of the window controls, and the flash errors. The document is what
  the handlers read of it; the parser of css and the colour library are parameters.
\<close>

section \<open>The menu for text\<close>

record docElement =
  de_tagName :: string
  de_contenteditable :: "string option"
  de_classes :: "string list"

definition isContentEditableBeingEdited :: "docElement option \<Rightarrow> bool" where
  "isContentEditableBeingEdited activeElement \<longleftrightarrow>
     (case activeElement of
        None \<Rightarrow> False
      | Some e \<Rightarrow> de_contenteditable e \<noteq> None \<and> de_contenteditable e \<noteq> Some ''false'')"

definition canEnablePaste :: "docElement option \<Rightarrow> js_error + bool" where
  "canEnablePaste activeElement =
     (case activeElement of
        None \<Rightarrow> Inl TypeError
      | Some e \<Rightarrow> Inr (de_tagName e = ''INPUT'' \<or> de_tagName e = ''TEXTAREA'' \<or> isContentEditableBeingEdited activeElement))"

text \<open>The selection is its text.\<close>

definition canEnableCopy :: "string option \<Rightarrow> bool" where
  "canEnableCopy sel \<longleftrightarrow> \<not> isBlank sel"

definition canEnableCut :: "docElement option \<Rightarrow> string option \<Rightarrow> js_error + bool" where
  "canEnableCut activeElement sel =
     (if (case activeElement of None \<Rightarrow> False | Some e \<Rightarrow> ''xterm-helper-textarea'' \<in> set (de_classes e)) then Inr False
      else if isBlank sel then Inr False
      else canEnablePaste activeElement)"

definition textItem :: "string \<Rightarrow> string \<Rightarrow> nat menuItem" where
  "textItem label role = MenuItem (Some role) None (Some label) None None"

definition handleContextMenu :: "docElement option \<Rightarrow> string option \<Rightarrow> js_error + nat menuItem list option" where
  "handleContextMenu activeElement sel =
     bindR (canEnablePaste activeElement) (\<lambda>canPaste.
     let canCopy = canEnableCopy sel in
     bindR (canEnableCut activeElement sel) (\<lambda>canCut.
     if \<not> canPaste \<and> \<not> canCopy \<and> \<not> canCut then Inr None
     else Inr (Some ((if canCut then [textItem ''Cut'' ''cut''] else []) @
                     (if canCopy then [textItem ''Copy'' ''copy''] else []) @
                     (if canPaste then [textItem ''Paste'' ''paste''] else [])))))"

section \<open>The window settings\<close>

record docBody =
  bd_transparent :: bool                  \<comment> \<open>the class \<open>is-transparent\<close>\<close>
  bd_backgroundColor :: "string option"
  bd_opacity :: "string option"

definition jsonNumber :: "json \<Rightarrow> jsnum option" where
  "jsonNumber v = (case v of JNum n \<Rightarrow> Some n | _ \<Rightarrow> None)"

text \<open>
  \<open>rgba\<close> is the colour library: the text of a colour with an opacity, or what its constructor
  throws. \<open>prop\<close> reads a property of the value that the component takes for the settings.
\<close>

definition windowSettingsEffect ::
  "(json \<Rightarrow> jsnum option \<Rightarrow> js_error + string) \<Rightarrow> string \<Rightarrow> (string \<Rightarrow> json) \<Rightarrow> docBody \<Rightarrow> (js_error + unit) \<times> docBody" where
  "windowSettingsEffect rgba mainBgColor prop b =
     (let opacity = boundNumber (jsonNumber (if isNullish (prop ''window:opacity'') then JNum (Fin (8 / 10))
                                             else prop ''window:opacity'')) (Fin 0) (Fin 1);
          baseBgColor = prop ''window:bgcolor'' in
      if truthy (prop ''window:transparent'') \<or> truthy (prop ''window:blur'') then
        (let b = b\<lparr>bd_transparent := True\<rparr>;
             base = (if isNullish baseBgColor then JStr (js_trim mainBgColor) else baseBgColor) in
         withVal (rgba base opacity) b (\<lambda>c. (Inr (), b\<lparr>bd_backgroundColor := Some c\<rparr>)))
      else (Inr (), b\<lparr>bd_transparent := False, bd_opacity := None\<rparr>))"

text \<open>The component hands over the atom itself, not its value.\<close>

definition AppSettingsUpdater ::
  "(settingsAtom \<Rightarrow> string \<Rightarrow> json) \<Rightarrow> (json \<Rightarrow> jsnum option \<Rightarrow> js_error + string) \<Rightarrow> string \<Rightarrow>
     (string, settingsAtom) js_map \<Rightarrow> docBody \<Rightarrow> (js_error + unit) \<times> docBody" where
  "AppSettingsUpdater atomProp rgba mainBgColor cache b =
     windowSettingsEffect rgba mainBgColor (atomProp (fst (useSettingsPrefixAtom ''window'' cache))) b"

section \<open>The background of a tab\<close>

definition encodeFileURL :: "string \<Rightarrow> string \<Rightarrow> string" where
  "encodeFileURL webEndpoint file = webEndpoint @ ''/wave/stream-file?path='' @ encodeURIComponent file @ ''&no404=1''"

text \<open>
  The css library: the parsed form of a declaration, the values of its Url nodes in the order of the
  walk, the same declaration with other values in those nodes, and its text. The walk visits Url
  nodes only: a url written as a plain string (as in an image set), or inside a value the parser
  keeps as raw text, is no Url node and not in the list.
\<close>

record 'a cssLib =
  css_parse :: "string \<Rightarrow> js_error + 'a"
  css_urls :: "'a \<Rightarrow> string list"
  css_setUrls :: "string list \<Rightarrow> 'a \<Rightarrow> 'a"
  css_generate :: "'a \<Rightarrow> string option"

definition stripThenSpace :: "string \<Rightarrow> string \<Rightarrow> string" where
  "stripThenSpace p s = (if js_is_prefix p s then dropWhile isSpace (drop (length p) s) else s)"

definition isJsUrl :: "string \<Rightarrow> bool" where
  "isJsUrl url \<longleftrightarrow> js_is_prefix ''javascript:'' (js_trim url)"

definition walkedUrl :: "string \<Rightarrow> string \<Rightarrow> string" where
  "walkedUrl webEndpoint url = (if isJsUrl url then url else encodeFileURL webEndpoint (js_trim url))"

definition cssDeclaration :: "string \<Rightarrow> string" where
  "cssDeclaration cssText =
     (let t = js_trim cssText;
          t = (if t \<noteq> [] \<and> last t = CHR '';'' then butlast t else t) in
      ''background: '' @ stripThenSpace ''background-image:'' t)"

definition processBackgroundUrls :: "string \<Rightarrow> 'a cssLib \<Rightarrow> string option \<Rightarrow> js_error + string option" where
  "processBackgroundUrls webEndpoint css cssText =
     (if isBlank cssText then Inr None
      else
        bindR (css_parse css (cssDeclaration (the cssText))) (\<lambda>ast.
        if list_ex isJsUrl (css_urls css ast) then Inr None
        else
          (case css_generate css (css_setUrls css (map (walkedUrl webEndpoint) (css_urls css ast)) ast) of
             None \<Rightarrow> Inr None
           | Some s \<Rightarrow> Inr (Some (stripThenSpace ''background:'' s)))))"

record bgStyle =
  st_opacity :: jsnum
  st_background :: string
  st_blend :: "string option"

definition appBackground :: "string \<Rightarrow> 'a cssLib \<Rightarrow> string option \<Rightarrow> json \<Rightarrow> string option \<Rightarrow> bgStyle option" where
  "appBackground webEndpoint css bgAttr bgOpacity blendMode =
     (if isBlank bgAttr then None
      else
        (case processBackgroundUrls webEndpoint css bgAttr of
           Inl _ \<Rightarrow> None
         | Inr processedBg \<Rightarrow>
             if isBlank processedBg then None
             else Some \<lparr>st_opacity = (case boundNumber (jsonNumber bgOpacity) (Fin 0) (Fin 1) of None \<Rightarrow> Fin (1 / 2) | Some x \<Rightarrow> x),
                        st_background = the processedBg,
                        st_blend = (if isBlank blendMode then None else blendMode)\<rparr>))"

text \<open>The rectangle of the window controls, to the right of the title bar.\<close>

definition windowControlsRect :: "string \<Rightarrow> bool \<Rightarrow> dimensions option \<Rightarrow> dimensions option \<Rightarrow> dimensions option" where
  "windowControlsRect platform overlayInNavigator titlebarRect bgRect =
     (case (titlebarRect, bgRect) of
        (Some t, Some b) \<Rightarrow>
          if platform \<noteq> ''darwin'' \<and> overlayInNavigator then
            (let windowControlsLeft = dim_width t - dim_height t in
             Some \<lparr>dim_top = dim_top t, dim_left = windowControlsLeft,
                   dim_width = dim_width b - dim_left b - windowControlsLeft, dim_height = dim_height t\<rparr>)
          else None
      | _ \<Rightarrow> None)"

section \<open>Flash errors\<close>

text \<open>The timers that will set the ticker, with the value that they set.\<close>

record flashView =
  fv_errors :: "flashError list"
  fv_hovered :: "string option"
  fv_ticker :: nat
  fv_timers :: "nat list"

definition expired :: "nat \<Rightarrow> flashError \<Rightarrow> bool" where
  "expired now ferr \<longleftrightarrow> (case fe_expiration ferr of None \<Rightarrow> True | Some t \<Rightarrow> t < now)"

definition flashEffect :: "nat \<Rightarrow> flashView \<Rightarrow> flashView" where
  "flashEffect now v =
     (if fv_errors v = [] \<or> fv_hovered v \<noteq> None then v
      else v\<lparr>fv_errors := fold (\<lambda>ferr errs. if expired now ferr then removeFlashError (fe_id ferr) errs else errs)
               (fv_errors v) (fv_errors v),
             fv_timers := fv_timers v @ [fv_ticker v + 1]\<rparr>)"

text \<open>The effect runs after a change, and again when it has removed an error itself.\<close>

definition flashRerendered :: "nat \<Rightarrow> flashView \<Rightarrow> flashView" where
  "flashRerendered now v =
     (let w = flashEffect now v in if fv_errors w = fv_errors v then w else flashEffect now w)"

definition flashTimerFires :: "nat \<Rightarrow> flashView \<Rightarrow> flashView" where
  "flashTimerFires now v =
     (case fv_timers v of
        [] \<Rightarrow> v
      | t # ts \<Rightarrow>
          let w = v\<lparr>fv_ticker := t, fv_timers := ts\<rparr> in
          if t = fv_ticker v then w else flashRerendered now w)"

definition flashHovered :: "nat \<Rightarrow> string option \<Rightarrow> flashView \<Rightarrow> flashView" where
  "flashHovered now i v = (if fv_hovered v = i then v else flashRerendered now (v\<lparr>fv_hovered := i\<rparr>))"

definition flashPushed :: "nat \<Rightarrow> string \<Rightarrow> flashError \<Rightarrow> flashView \<Rightarrow> flashView" where
  "flashPushed now uuid ferr v = flashRerendered now (v\<lparr>fv_errors := pushFlashError now uuid ferr (fv_errors v)\<rparr>)"

definition copyError :: "string \<Rightarrow> flashError list \<Rightarrow> string option" where
  "copyError i errs =
     (case find (\<lambda>f. fe_id f = i) errs of
        None \<Rightarrow> None
      | Some ferr \<Rightarrow>
          let txt1 = (case fe_title ferr of None \<Rightarrow> [] | Some t \<Rightarrow> t) in
          Some (case fe_message ferr of
                  None \<Rightarrow> txt1
                | Some m \<Rightarrow> (if txt1 \<noteq> [] then txt1 @ [CHR 0x0A] else txt1) @ m))"

text \<open>What the application shows.\<close>

datatype appPage =
    InvalidConfiguration
  | MainApp "string list"                     \<comment> \<open>the classes of the page\<close>

definition AppInner :: "string \<Rightarrow> bool \<Rightarrow> bool \<Rightarrow> bool \<Rightarrow> bool \<Rightarrow> appPage" where
  "AppInner platform hasClient hasWindow isFullScreen prefersReducedMotion =
     (if \<not> hasClient \<or> \<not> hasWindow then InvalidConfiguration
      else MainApp ([''mainapp'', platform] @ (if isFullScreen then [''fullscreen''] else []) @
                    (if prefersReducedMotion then [''prefers-reduced-motion''] else [])))"

section \<open>Properties\<close>

text \<open>Cut is offered only together with copy and paste, and never in a terminal.\<close>

theorem cut_comes_with_copy_and_paste:
  assumes "handleContextMenu el sel = Inr (Some menu)" "textItem ''Cut'' ''cut'' \<in> set menu"
  shows "menu = [textItem ''Cut'' ''cut'', textItem ''Copy'' ''copy'', textItem ''Paste'' ''paste''] \<and>
    (\<exists>e. el = Some e \<and> ''xterm-helper-textarea'' \<notin> set (de_classes e))"
  using assms
  by (cases el) (auto simp: handleContextMenu_def canEnablePaste_def canEnableCut_def canEnableCopy_def textItem_def split: if_splits)

text \<open>
  The setting of a transparent window has no effect: the component reads the settings off the atom
  object, which has no such property, so the body is never transparent.
\<close>

theorem transparency_setting_is_ignored:
  assumes "\<And>a k. js_is_prefix ''window:'' k \<Longrightarrow> atomProp a k = JUndef"
  shows "AppSettingsUpdater atomProp rgba mainBgColor cache b = (Inr (), b\<lparr>bd_transparent := False, bd_opacity := None\<rparr>)"
  by (simp add: AppSettingsUpdater_def windowSettingsEffect_def assms js_is_prefix_def)

text \<open>
  Were the settings read, turning transparency off would leave the colour behind: the effect resets
  the opacity, which it never sets, and not the background colour.
\<close>

theorem transparency_leaves_its_color:
  assumes "windowSettingsEffect rgba bg on b = (Inr (), b1)" "truthy (on ''window:transparent'')"
    and "\<not> truthy (off ''window:transparent'')" "\<not> truthy (off ''window:blur'')"
  shows "\<exists>c b2. windowSettingsEffect rgba bg off b1 = (Inr (), b2) \<and> \<not> bd_transparent b2 \<and> bd_backgroundColor b2 = Some c"
proof -
  obtain c where "bd_backgroundColor b1 = Some c"
    using assms(1,2) by (auto simp: windowSettingsEffect_def Let_def withVal_eq_Inr split: if_splits)
  then show ?thesis using assms(3,4) by (simp add: windowSettingsEffect_def)
qed

lemma encode_prefix: "js_is_prefix (webEndpoint @ ''/wave/stream-file?path='') (encodeFileURL webEndpoint f)"
  by (simp add: encodeFileURL_def js_is_prefix_def)

lemma encode_prefix_list:
  "list_all (js_is_prefix (webEndpoint @ ''/wave/stream-file?path='')) (map (\<lambda>u. encodeFileURL webEndpoint (js_trim u)) us)"
  by (simp add: list_all_iff encode_prefix)

lemma walked_urls:
  "\<not> list_ex isJsUrl us \<Longrightarrow> map (walkedUrl webEndpoint) us = map (\<lambda>u. encodeFileURL webEndpoint (js_trim u)) us"
  by (simp add: list_ex_iff walkedUrl_def)

lemma appBackground_shown:
  assumes "appBackground webEndpoint css bg op blend = Some st"
  obtains cssText ast gen where "bg = Some cssText" "css_parse css (cssDeclaration cssText) = Inr ast"
    "\<not> list_ex isJsUrl (css_urls css ast)"
    "css_generate css (css_setUrls css (map (walkedUrl webEndpoint) (css_urls css ast)) ast) = Some gen"
    "st_background st = stripThenSpace ''background:'' gen"
  using assms unfolding appBackground_def processBackgroundUrls_def bindR_def
  by (cases bg) (auto simp: isBlank_def split: if_splits sum.splits option.splits)

text \<open>
  C38: the urls of a background go to the file service of the window. When a background is shown,
  its text was a declaration whose Url nodes hold no script; the text that is shown reads back as a
  declaration whose Url nodes are those of the original, in their order, each a request to the file
  service for the file the original named. Of the css library is used that setting the urls of a
  declaration gives a declaration with these urls, and that the text it generates reads back with
  the urls of what it was generated from. The property speaks of Url nodes: urls the library
  does not read as such are not visited, see \<open>other_urls_are_shown_as_they_are\<close>.
\<close>

theorem background_urls_stay_local:
  assumes set_urls: "\<And>us ast. length us = length (css_urls css ast) \<Longrightarrow> css_urls css (css_setUrls css us ast) = us"
    and reads_back: "\<And>ast gen. css_generate css ast = Some gen \<Longrightarrow>
      \<exists>ast'. css_parse css gen = Inr ast' \<and> css_urls css ast' = css_urls css ast"
    and st: "appBackground webEndpoint css bg op blend = Some st"
  shows "\<exists>cssText ast gen ast'. bg = Some cssText \<and> css_parse css (cssDeclaration cssText) = Inr ast \<and>
    \<not> list_ex isJsUrl (css_urls css ast) \<and>
    st_background st = stripThenSpace ''background:'' gen \<and> css_parse css gen = Inr ast' \<and>
    css_urls css ast' = map (\<lambda>url. encodeFileURL webEndpoint (js_trim url)) (css_urls css ast) \<and>
    list_all (js_is_prefix (webEndpoint @ ''/wave/stream-file?path='')) (css_urls css ast')"
proof -
  obtain cssText ast gen where shown: "bg = Some cssText" "css_parse css (cssDeclaration cssText) = Inr ast"
    "\<not> list_ex isJsUrl (css_urls css ast)"
    "css_generate css (css_setUrls css (map (walkedUrl webEndpoint) (css_urls css ast)) ast) = Some gen"
    "st_background st = stripThenSpace ''background:'' gen"
    by (rule appBackground_shown [OF st])
  obtain ast' where read: "css_parse css gen = Inr ast'"
    "css_urls css ast' = css_urls css (css_setUrls css (map (walkedUrl webEndpoint) (css_urls css ast)) ast)"
    using reads_back [OF shown(4)] by blast
  have "css_urls css ast' = map (\<lambda>url. encodeFileURL webEndpoint (js_trim url)) (css_urls css ast)"
    using read(2) set_urls [of "map (walkedUrl webEndpoint) (css_urls css ast)" ast] walked_urls [OF shown(3)] by simp
  moreover have "list_all (js_is_prefix (webEndpoint @ ''/wave/stream-file?path='')) (css_urls css ast')"
    unfolding calculation by (rule encode_prefix_list)
  ultimately show ?thesis using shown read(1) by blast
qed

text \<open>A library whose declarations are one url each.\<close>

definition demoCss :: "string cssLib" where
  "demoCss = \<lparr>css_parse = (\<lambda>s. Inr (drop 12 s)), css_urls = (\<lambda>u. [u]),
     css_setUrls = (\<lambda>us u. case us of [] \<Rightarrow> u | v # _ \<Rightarrow> v),
     css_generate = (\<lambda>u. Some (''background: '' @ u))\<rparr>"

theorem background_urls_stay_local_witness:
  "\<exists>st gen ast'. appBackground ''http://h'' demoCss (Some ''a;'') JUndef None = Some st \<and>
    st_background st = stripThenSpace ''background:'' gen \<and> css_parse demoCss gen = Inr ast' \<and>
    list_all (js_is_prefix (''http://h'' @ ''/wave/stream-file?path='')) (css_urls demoCss ast')"
proof -
  have "\<exists>st. appBackground ''http://h'' demoCss (Some ''a;'') JUndef None = Some st"
    by (simp add: appBackground_def isBlank_def processBackgroundUrls_def cssDeclaration_def demoCss_def Let_def js_trim_def
        isSpace_def isJsUrl_def walkedUrl_def encodeFileURL_def stripThenSpace_def js_is_prefix_def)
  then obtain st where st: "appBackground ''http://h'' demoCss (Some ''a;'') JUndef None = Some st" by blast
  have "\<exists>cssText ast gen ast'. Some ''a;'' = Some cssText \<and> css_parse demoCss (cssDeclaration cssText) = Inr ast \<and>
    \<not> list_ex isJsUrl (css_urls demoCss ast) \<and>
    st_background st = stripThenSpace ''background:'' gen \<and> css_parse demoCss gen = Inr ast' \<and>
    css_urls demoCss ast' = map (\<lambda>url. encodeFileURL ''http://h'' (js_trim url)) (css_urls demoCss ast) \<and>
    list_all (js_is_prefix (''http://h'' @ ''/wave/stream-file?path='')) (css_urls demoCss ast')"
  proof (rule background_urls_stay_local [OF _ _ st])
    fix us :: "string list" and ast :: string
    assume "length us = length (css_urls demoCss ast)"
    then show "css_urls demoCss (css_setUrls demoCss us ast) = us" by (cases us) (simp_all add: demoCss_def)
  next
    fix ast gen :: string
    assume "css_generate demoCss ast = Some gen"
    then show "\<exists>ast'. css_parse demoCss gen = Inr ast' \<and> css_urls demoCss ast' = css_urls demoCss ast"
      by (auto simp: demoCss_def)
  qed
  with st show ?thesis by blast
qed

text \<open>
  A declaration without Url nodes is shown as it is, whatever it names by other means: the text of
  an image set whose images are plain strings, or of a value the parser keeps raw.
\<close>

theorem other_urls_are_shown_as_they_are:
  assumes "css_parse css (cssDeclaration cssText) = Inr ast" "css_urls css ast = []" "css_setUrls css [] ast = ast"
    and "css_generate css ast = Some gen" "cssText \<noteq> []" "stripThenSpace ''background:'' gen \<noteq> []"
  shows "\<exists>st. appBackground webEndpoint css (Some cssText) op blend = Some st \<and>
    st_background st = stripThenSpace ''background:'' gen"
  using assms by (simp add: appBackground_def processBackgroundUrls_def isBlank_def)

text \<open>
  Flash errors go when their time is over, unless the pointer is on one: after a rendering exactly
  those are left that have not expired.
\<close>

lemma remove_expired:
  "fold (\<lambda>ferr errs. if expired now ferr then removeFlashError (fe_id ferr) errs else errs) es errs =
    filter (\<lambda>f. \<forall>e \<in> set es. expired now e \<longrightarrow> fe_id e \<noteq> fe_id f) errs"
  by (induction es arbitrary: errs) (auto simp: removeFlashError_def conj_commute intro!: filter_cong)

lemma flashEffect_errors:
  assumes "fv_hovered v = None" "distinct (map fe_id (fv_errors v))"
  shows "fv_errors (flashEffect now v) = filter (\<lambda>f. \<not> expired now f) (fv_errors v)"
proof (cases "fv_errors v = []")
  case False
  have "(\<forall>e \<in> set (fv_errors v). expired now e \<longrightarrow> fe_id e \<noteq> fe_id f) \<longleftrightarrow> \<not> expired now f" if "f \<in> set (fv_errors v)" for f
    using that assms(2) by (metis distinct_map inj_onD)
  then show ?thesis
    using False assms(1) by (simp add: flashEffect_def remove_expired cong: filter_cong)
qed (simp add: flashEffect_def)

theorem expired_errors_vanish:
  assumes "fv_hovered v = None" "distinct (map fe_id (fv_errors v))"
  shows "fv_errors (flashRerendered now v) = filter (\<lambda>f. \<not> expired now f) (fv_errors v) \<and>
    (fv_errors v \<noteq> [] \<longrightarrow> fv_timers (flashRerendered now v) \<noteq> [])"
proof -
  let ?w = "flashEffect now v"
  have hov: "fv_hovered ?w = None" using assms(1) by (simp add: flashEffect_def)
  have e: "fv_errors ?w = filter (\<lambda>f. \<not> expired now f) (fv_errors v)" by (rule flashEffect_errors [OF assms])
  have "distinct (map fe_id (fv_errors ?w))" unfolding e using assms(2) by (rule distinct_map_filter)
  with flashEffect_errors [OF hov] have "fv_errors (flashEffect now ?w) = fv_errors ?w" by (simp add: e)
  then have "fv_errors (flashRerendered now v) = fv_errors ?w" by (simp add: flashRerendered_def Let_def)
  moreover have "fv_timers ?w \<noteq> []" if "fv_errors v \<noteq> []" using that assms(1) by (simp add: flashEffect_def)
  moreover have "fv_timers u \<noteq> [] \<Longrightarrow> fv_timers (flashEffect now u) \<noteq> []" for u by (simp add: flashEffect_def)
  ultimately show ?thesis using e by (simp add: flashRerendered_def Let_def)
qed

end
