(* ===== verification/BlockUtil.thy ===== *)
theory BlockUtil
  imports Util
begin

text \<open>
  The helpers of the block frame (app/block/blockutil.tsx): icons and names of views, the colour
  number of a connection, the title mini-language with its tags for icons, colours and bold or
  italic text, and what the connection button shows. React elements are values; a tag element
  and its array of children, which the code fills after creating the element, are an open
  element of the parser's stack.
\<close>

definition blockViewToIcon :: "string option \<Rightarrow> string" where
  "blockViewToIcon view =
     (if view = Some ''term'' then ''terminal''
      else if view = Some ''preview'' then ''file''
      else if view = Some ''web'' then ''globe''
      else if view = Some ''waveai'' then ''sparkles''
      else if view = Some ''help'' then ''circle-question''
      else if view = Some ''tips'' then ''lightbulb''
      else ''square'')"

definition blockViewToName :: "string option \<Rightarrow> string" where
  "blockViewToName view =
     (if isBlank view then ''(No View)''
      else if view = Some ''term'' then ''Terminal''
      else if view = Some ''preview'' then ''Preview''
      else if view = Some ''web'' then ''Web''
      else if view = Some ''waveai'' then ''WaveAI''
      else if view = Some ''help'' then ''Help''
      else if view = Some ''tips'' then ''Tips''
      else the view)"

section \<open>Titles\<close>

text \<open>\<open>/^((#[0-9a-f]{6,8})|([a-z]+))$/\<close>\<close>

definition isLower :: "char \<Rightarrow> bool" where
  "isLower c \<longleftrightarrow> (of_char c :: nat) \<in> {97..122}"

definition isDigitChar :: "char \<Rightarrow> bool" where
  "isDigitChar c \<longleftrightarrow> (of_char c :: nat) \<in> {48..57}"

definition isHexLower :: "char \<Rightarrow> bool" where
  "isHexLower c \<longleftrightarrow> isDigitChar c \<or> (of_char c :: nat) \<in> {97..102}"

definition colorRegex :: "string \<Rightarrow> bool" where
  "colorRegex s \<longleftrightarrow>
     (case s of
        [] \<Rightarrow> False
      | c # cs \<Rightarrow>
          (c = CHR ''#'' \<and> list_all isHexLower cs \<and> 6 \<le> length cs \<and> length cs \<le> 8) \<or>
          list_all isLower s)"

record titleTag =
  tt_closing :: bool
  tt_name :: string
  tt_param :: "string option"

definition isTagParamChar :: "char \<Rightarrow> bool" where
  "isTagParamChar c \<longleftrightarrow> c = CHR ''#'' \<or> isLower c \<or> isDigitChar c \<or> c = CHR ''@'' \<or> c = CHR ''-''"

text \<open>
  \<open>/<(\/)?([a-z]+)(?::([#a-z0-9@-]+))?>/g\<close>: a match at the front of a string, with the rest behind
  it. No character after a run of name or parameter characters is one itself, so the greedy runs
  never have to give one back.
\<close>

definition tagAfterName :: "bool \<Rightarrow> string \<Rightarrow> string \<Rightarrow> (titleTag \<times> string) option" where
  "tagAfterName closing name1 rest =
     (case rest of
        [] \<Rightarrow> None
      | c # cs \<Rightarrow>
          if c = CHR ''>'' then Some (\<lparr>tt_closing = closing, tt_name = name1, tt_param = None\<rparr>, cs)
          else if c = CHR '':'' then
            (let param = takeWhile isTagParamChar cs in
             case dropWhile isTagParamChar cs of
               d # ds \<Rightarrow>
                 if param \<noteq> [] \<and> d = CHR ''>''
                 then Some (\<lparr>tt_closing = closing, tt_name = name1, tt_param = Some param\<rparr>, ds) else None
             | [] \<Rightarrow> None)
          else None)"

definition matchTag :: "string \<Rightarrow> (titleTag \<times> string) option" where
  "matchTag s =
     (case s of
        [] \<Rightarrow> None
      | c # cs \<Rightarrow>
          if c \<noteq> CHR ''<'' then None
          else
            let closing = (cs \<noteq> [] \<and> hd cs = CHR ''/'');
                cs = (if closing then tl cs else cs);
                name1 = takeWhile isLower cs
            in if name1 = [] then None else tagAfterName closing name1 (dropWhile isLower cs))"

text \<open>The next match: the text before it, the tag, its length and the rest.\<close>

fun nextTag :: "string \<Rightarrow> (string \<times> titleTag \<times> string) option" where
  "nextTag [] = None"
| "nextTag (c # cs) =
     (case matchTag (c # cs) of
        Some (t, rest) \<Rightarrow> Some ([], t, rest)
      | None \<Rightarrow> map_option (\<lambda>(before, t, rest). (c # before, t, rest)) (nextTag cs))"

datatype titlePart =
    TextPart string
  | IconPart nat string
  | ColorPart nat string "titlePart list"
  | TagPart nat string "titlePart list"

datatype openTag = OpenColor nat string | OpenTag nat string

fun closeTag :: "openTag \<Rightarrow> titlePart list \<Rightarrow> titlePart" where
  "closeTag (OpenColor key color) children = ColorPart key color children"
| "closeTag (OpenTag key tag) children = TagPart key tag children"

text \<open>
  \<open>partsStack\<close>: the array on its top, and below it the enclosing arrays, each with the element
  under construction at its end.
\<close>

type_synonym partsStack = "titlePart list \<times> (titlePart list \<times> openTag) list"

definition pushPart :: "titlePart \<Rightarrow> partsStack \<Rightarrow> partsStack" where
  "pushPart p st = (fst st @ [p], snd st)"

definition openPart :: "openTag \<Rightarrow> partsStack \<Rightarrow> partsStack" where
  "openPart t st = ([], (fst st, t) # snd st)"

definition popPart :: "partsStack \<Rightarrow> partsStack" where
  "popPart st =
     (case snd st of
        [] \<Rightarrow> st
      | (ps, t) # below \<Rightarrow> (ps @ [closeTag t (fst st)], below))"

fun closeAll :: "titlePart list \<Rightarrow> (titlePart list \<times> openTag) list \<Rightarrow> titlePart list" where
  "closeAll parts [] = parts"
| "closeAll parts ((ps, t) # below) = closeAll (ps @ [closeTag t parts]) below"

definition titleStep :: "(string option list \<Rightarrow> string) \<Rightarrow> nat \<Rightarrow> titleTag \<Rightarrow> partsStack \<Rightarrow> partsStack" where
  "titleStep clsx key t st =
     (if tt_name t = ''icon'' \<and> \<not> tt_closing t then
        (case tt_param t of
           None \<Rightarrow> st
         | Some p \<Rightarrow>
             (case makeIconClass clsx (Some p) False False of
                None \<Rightarrow> st
              | Some iconClass \<Rightarrow> pushPart (IconPart key iconClass) st))
      else if tt_name t = ''c'' \<or> tt_name t = ''color'' then
        (if tt_closing t then popPart st
         else case tt_param t of
           None \<Rightarrow> st
         | Some p \<Rightarrow> if \<not> colorRegex p then st else openPart (OpenColor key p) st)
      else if tt_name t = ''i'' \<or> tt_name t = ''b'' then
        (if tt_closing t then popPart st else openPart (OpenTag key (tt_name t)) st)
      else st)"

lemma tagAfterName_shorter:
  assumes "tagAfterName closing name1 rest = Some (t, r)"
  shows "length r < length rest"
proof (cases rest)
  case (Cons c cs)
  show ?thesis
  proof (cases "c = CHR ''>''")
    case False
    with assms Cons obtain d where d: "dropWhile isTagParamChar cs = d # r"
      by (auto simp: tagAfterName_def Let_def split: list.splits if_splits)
    then show ?thesis using Cons length_dropWhile_le [of isTagParamChar cs] by simp
  qed (use assms Cons in \<open>simp add: tagAfterName_def\<close>)
qed (use assms in \<open>simp add: tagAfterName_def\<close>)

lemma matchTag_shorter:
  assumes "matchTag s = Some (t, r)"
  shows "length r < length s"
proof (cases s)
  case (Cons c cs)
  define ds where "ds = (if cs \<noteq> [] \<and> hd cs = CHR ''/'' then tl cs else cs)"
  have "\<exists>closing name1. tagAfterName closing name1 (dropWhile isLower ds) = Some (t, r)"
    using assms Cons by (auto simp: matchTag_def ds_def Let_def split: if_splits)
  then have "length r < length (dropWhile isLower ds)" using tagAfterName_shorter by blast
  also have "\<dots> \<le> length ds" by (rule length_dropWhile_le)
  also have "\<dots> \<le> length cs" by (simp add: ds_def)
  finally show ?thesis using Cons by simp
qed (use assms in \<open>simp add: matchTag_def\<close>)

lemma nextTag_shorter: "nextTag s = Some (before, t, rest) \<Longrightarrow> length rest < length s"
  by (induction s arbitrary: before) (fastforce split: option.splits dest: matchTag_shorter)+

text \<open>
  The loop over the matches: \<open>pos\<close> is \<open>lastIdx\<close>, and the key of an element is the index of its tag.
\<close>

function titleLoop :: "(string option list \<Rightarrow> string) \<Rightarrow> nat \<Rightarrow> string \<Rightarrow> partsStack \<Rightarrow> partsStack" where
  "titleLoop clsx pos s st =
     (case nextTag s of
        None \<Rightarrow> pushPart (TextPart s) st
      | Some (before, t, rest) \<Rightarrow>
          titleLoop clsx (pos + (length s - length rest)) rest
            (titleStep clsx (pos + length before) t (pushPart (TextPart before) st)))"
  by pat_completeness auto

termination titleLoop
  by (relation "measure (\<lambda>(clsx, pos, s, st). length s)") (auto dest: nextTag_shorter)

declare titleLoop.simps [simp del]

definition processTitleString ::
  "(string option list \<Rightarrow> string) \<Rightarrow> string option \<Rightarrow> titlePart list option" where
  "processTitleString clsx titleString =
     (case titleString of
        None \<Rightarrow> None
      | Some s \<Rightarrow> (let (parts, below) = titleLoop clsx 0 s ([], []) in Some (closeAll parts below)))"

section \<open>Block header and connection button\<close>

text \<open>The icon of a block: its colour, if it is one, and its class.\<close>

definition getBlockHeaderIcon ::
  "(string option list \<Rightarrow> string) \<Rightarrow> string option \<Rightarrow> string option \<Rightarrow> (string option \<times> string) option" where
  "getBlockHeaderIcon clsx blockIcon iconColorMeta =
     (let blockIcon = (if isBlank blockIcon then Some ''square'' else blockIcon);
          iconColor = (if iconColorMeta \<noteq> None \<and> iconColorMeta \<noteq> Some [] \<and> \<not> colorRegex (the iconColorMeta)
                       then None else iconColorMeta);
          iconStyle = (if isBlank iconColor then None else iconColor)
      in map_option (\<lambda>iconClass. (iconStyle, clsx [Some ''block-frame-icon'', Some iconClass]))
           (makeIconClass clsx blockIcon True False))"

definition NumActiveConnColors :: nat where
  "NumActiveConnColors = 8"

definition computeConnColorNum :: "nat option \<Rightarrow> nat" where
  "computeConnColorNum activeconnnum =
     (let connColorNum = (case activeconnnum of None \<Rightarrow> 1 | Some n \<Rightarrow> n) mod NumActiveConnColors
      in if connColorNum = 0 then NumActiveConnColors else connColorNum)"

record connButtonStatus =
  cb_status :: string
  cb_connected :: bool
  cb_error :: "string option"
  cb_activeconnnum :: nat

record connButton =
  cn_color :: string
  cn_titleText :: string
  cn_connecting :: bool
  cn_slash :: bool

definition connectionButton :: "string option \<Rightarrow> connButtonStatus option \<Rightarrow> connButton" where
  "connectionButton connection connStatus =
     (let conn = (case connection of None \<Rightarrow> [] | Some c \<Rightarrow> c);
          color = ''var(--conn-icon-color-'' @ show_nat (computeConnColorNum (map_option cb_activeconnnum connStatus)) @ '')'';
          status = map_option cb_status connStatus in
      if isBlank connection then
        \<lparr>cn_color = ''var(--grey-text-color)'', cn_titleText = ''Connected to Local Machine'',
         cn_connecting = False, cn_slash = False\<rparr>
      else if status = Some ''connecting'' then
        \<lparr>cn_color = ''var(--warning-color)'', cn_titleText = ''Connecting to '' @ conn,
         cn_connecting = True, cn_slash = False\<rparr>
      else if status = Some ''error'' then
        \<lparr>cn_color = ''var(--error-color)'',
         cn_titleText = ''Error connecting to '' @ conn @
           (case Option.bind connStatus cb_error of None \<Rightarrow> [] | Some e \<Rightarrow> '' ('' @ e @ '')''),
         cn_connecting = False, cn_slash = True\<rparr>
      else if \<not> (case connStatus of None \<Rightarrow> False | Some cs \<Rightarrow> cb_connected cs) then
        \<lparr>cn_color = ''var(--grey-text-color)'', cn_titleText = ''Disconnected from '' @ conn,
         cn_connecting = False, cn_slash = True\<rparr>
      else
        \<lparr>cn_color = color, cn_titleText = ''Connected to '' @ conn, cn_connecting = False, cn_slash = False\<rparr>)"

text \<open>Whether the icon of a stopped shell is shown, once the first status has come.\<close>

definition controllerStatusIcon ::
  "string option \<Rightarrow> bool \<Rightarrow> string option \<Rightarrow> string option \<Rightarrow> bool" where
  "controllerStatusIcon controller gotInitialStatus shellprocstatus connStatus \<longleftrightarrow>
     \<not> isBlank controller \<and> gotInitialStatus \<and> shellprocstatus \<noteq> Some ''running'' \<and> connStatus = Some ''connected''"

section \<open>Properties\<close>

text \<open>The text of a title, and the text of a string without its tags.\<close>

fun partText :: "titlePart \<Rightarrow> string" and partsText :: "titlePart list \<Rightarrow> string" where
  "partText (TextPart s) = s"
| "partText (IconPart _ _) = []"
| "partText (ColorPart _ _ ps) = partsText ps"
| "partText (TagPart _ _ ps) = partsText ps"
| "partsText [] = []"
| "partsText (p # ps) = partText p @ partsText ps"

function untagged :: "string \<Rightarrow> string" where
  "untagged s = (case nextTag s of None \<Rightarrow> s | Some (before, t, rest) \<Rightarrow> before @ untagged rest)"
  by pat_completeness auto

termination untagged
  by (relation "measure length") (auto dest: nextTag_shorter)

declare untagged.simps [simp del]

lemma partsText_append [simp]: "partsText (ps @ qs) = partsText ps @ partsText qs"
  by (induction ps) simp_all

lemma partText_closeTag [simp]: "partText (closeTag t ps) = partsText ps"
  by (cases t) simp_all

lemma closeAll_text_cong:
  "partsText ps = partsText qs \<Longrightarrow> partsText (closeAll ps below) = partsText (closeAll qs below)"
  by (induction ps below arbitrary: qs rule: closeAll.induct) simp_all

definition stackText :: "partsStack \<Rightarrow> string" where
  "stackText st = partsText (closeAll (fst st) (snd st))"

lemma closeAll_append: "partsText (closeAll (ps @ [TextPart s]) below) = partsText (closeAll ps below) @ s"
proof (induction ps below rule: closeAll.induct)
  case (2 parts ps t below)
  have "partsText (closeAll (ps @ [closeTag t (parts @ [TextPart s])]) below) =
      partsText (closeAll ((ps @ [closeTag t parts]) @ [TextPart s]) below)"
    by (rule closeAll_text_cong) simp
  with 2 show ?case by simp
qed simp

lemma stackText_push: "stackText (pushPart (TextPart s) st) = stackText st @ s"
  by (simp add: stackText_def pushPart_def closeAll_append)

lemma stackText_quiet:
  "stackText (pushPart (IconPart key c) st) = stackText st" "stackText (openPart t st) = stackText st"
  "stackText (popPart st) = stackText st"
  by (auto simp: stackText_def pushPart_def openPart_def popPart_def intro: closeAll_text_cong split: list.split)

lemma stackText_step: "stackText (titleStep clsx key t st) = stackText st"
  by (simp add: titleStep_def stackText_quiet split: option.split)

lemma titleLoop_text: "stackText (titleLoop clsx pos s st) = stackText st @ untagged s"
proof (induction clsx pos s st rule: titleLoop.induct)
  case (1 clsx pos s st)
  then show ?case
    by (subst titleLoop.simps, subst untagged.simps)
      (auto simp: stackText_push stackText_step split: option.split)
qed

text \<open>
  Whatever tags a title has, well nested or not, closed or not, known or not, the parts made
  of it show exactly the text outside its tags, in order.
\<close>

theorem title_keeps_its_text:
  "\<exists>parts. processTitleString clsx (Some s) = Some parts \<and> partsText parts = untagged s"
  using titleLoop_text [of clsx 0 s "([], [])"]
  by (auto simp: processTitleString_def stackText_def split: prod.split)

end
