(* ===== verification/BlockShell.thy ===== *)
theory BlockShell
  imports BlockUtil LayoutTypes UiModels "HOL-Library.Multiset"
begin

text \<open>
  A block on the screen (app/block/block.tsx), the tab that holds it (app/tab/tabcontent.tsx) and the
  workspace around it (app/workspace/workspace.tsx). A view model is its kind and a number, so that
  two models of one kind can be told apart.
\<close>

section \<open>View models and view elements\<close>

datatype modelKind =
    TermViewModel
  | PreviewModel
  | WebViewModel
  | WaveAiModel
  | CpuPlotViewModel
  | HelpViewModel
  | DefaultViewModel "string option"

fun viewType :: "modelKind \<Rightarrow> string option" where
  "viewType TermViewModel = Some ''term''"
| "viewType PreviewModel = Some ''preview''"
| "viewType WebViewModel = Some ''web''"
| "viewType WaveAiModel = Some ''waveai''"
| "viewType CpuPlotViewModel = Some ''cpuplot''"
| "viewType HelpViewModel = Some ''help''"
| "viewType (DefaultViewModel v) = v"

definition makeViewModel :: "string option \<Rightarrow> modelKind" where
  "makeViewModel blockView =
     (if blockView = Some ''term'' then TermViewModel
      else if blockView = Some ''preview'' then PreviewModel
      else if blockView = Some ''web'' then WebViewModel
      else if blockView = Some ''waveai'' then WaveAiModel
      else if blockView = Some ''cpuplot'' then CpuPlotViewModel
      else if blockView = Some ''help'' then HelpViewModel
      else DefaultViewModel blockView)"

text \<open>The element of a view; those with a model cast the model of the block to it.\<close>

datatype viewElem =
    NoView
  | TerminalView
  | PreviewView
  | PlotView
  | WebView
  | WaveAi
  | CpuPlotView
  | HelpView
  | QuickTipsView
  | InvalidView string

definition getViewElem :: "string option \<Rightarrow> viewElem" where
  "getViewElem blockView =
     (if isBlank blockView then NoView
      else if blockView = Some ''term'' then TerminalView
      else if blockView = Some ''preview'' then PreviewView
      else if blockView = Some ''plot'' then PlotView
      else if blockView = Some ''web'' then WebView
      else if blockView = Some ''waveai'' then WaveAi
      else if blockView = Some ''cpuplot'' then CpuPlotView
      else if blockView = Some ''help'' then HelpView
      else if blockView = Some ''tips'' then QuickTipsView
      else InvalidView (the blockView))"

text \<open>What a default model shows in the header.\<close>

record defaultHeader =
  dh_viewIcon :: string
  dh_viewName :: string
  dh_viewText :: "string option"

definition makeDefaultViewModel :: "string option \<Rightarrow> string option \<Rightarrow> defaultHeader" where
  "makeDefaultViewModel view title =
     \<lparr>dh_viewIcon = blockViewToIcon view, dh_viewName = blockViewToName view, dh_viewText = title\<rparr>"

section \<open>The registry of models\<close>

record viewModel =
  vm_kind :: modelKind
  vm_number :: nat

record blockRegistry =
  br_models :: "(string, viewModel) js_map"
  br_made :: nat

definition renderedModel :: "string \<Rightarrow> string option \<Rightarrow> blockRegistry \<Rightarrow> viewModel \<times> blockRegistry" where
  "renderedModel blockId view r =
     (case map_get (br_models r) blockId of
        Some m \<Rightarrow>
          if viewType (vm_kind m) \<noteq> view then
            (let m = \<lparr>vm_kind = makeViewModel view, vm_number = br_made r\<rparr> in
             (m, \<lparr>br_models = map_set blockId m (br_models r), br_made = Suc (br_made r)\<rparr>))
          else (m, r)
      | None \<Rightarrow>
          (let m = \<lparr>vm_kind = makeViewModel view, vm_number = br_made r\<rparr> in
           (m, \<lparr>br_models = map_set blockId m (br_models r), br_made = Suc (br_made r)\<rparr>)))"

definition blockUnmounted :: "string \<Rightarrow> blockRegistry \<Rightarrow> blockRegistry" where
  "blockUnmounted blockId r = r\<lparr>br_models := map_delete blockId (br_models r)\<rparr>"

datatype shownBlock = ShownNothing | ShownPreview | ShownFull

text \<open>The block, of which the preview is empty without data and the full block has its element.\<close>

definition blockShown :: "bool \<Rightarrow> bool \<Rightarrow> string option \<Rightarrow> bool \<Rightarrow> shownBlock" where
  "blockShown preview loading blockId hasData =
     (if loading \<or> isBlank blockId \<or> \<not> hasData then ShownNothing
      else if preview then ShownPreview
      else ShownFull)"

datatype registryEvent = RenderBlock string "string option" | UnmountBlock string

fun registryStep :: "registryEvent \<Rightarrow> blockRegistry \<Rightarrow> blockRegistry" where
  "registryStep (RenderBlock i v) r = snd (renderedModel i v r)"
| "registryStep (UnmountBlock i) r = blockUnmounted i r"

section \<open>Focus\<close>

datatype blockCall =
    GiveFocus nat                              \<comment> \<open>\<open>giveFocus\<close> of the model with this number\<close>
  | FocusDummyInput
  | FocusNode

text \<open>\<open>bf_model\<close> is the model of the last rendering, \<open>bf_target\<close> the one that \<open>setFocusTarget\<close> closes over.\<close>

record blockFull =
  bf_clicked :: bool
  bf_isFocused :: bool
  bf_model :: nat
  bf_target :: nat
  bf_calls :: "blockCall list"

definition blockMounted :: "nat \<Rightarrow> blockFull" where
  "blockMounted model = \<lparr>bf_clicked = False, bf_isFocused = False, bf_model = model, bf_target = model, bf_calls = []\<rparr>"

text \<open>The callback has no dependencies, so a rendering does not make it anew.\<close>

definition blockRendered :: "nat \<Rightarrow> blockFull \<Rightarrow> blockFull" where
  "blockRendered model b = b\<lparr>bf_model := model\<rparr>"

definition setFocusTarget :: "(nat \<Rightarrow> bool option) \<Rightarrow> blockFull \<Rightarrow> blockFull" where
  "setFocusTarget giveFocus b =
     (case giveFocus (bf_target b) of
        None \<Rightarrow> b\<lparr>bf_calls := bf_calls b @ [FocusDummyInput]\<rparr>
      | Some ok \<Rightarrow> b\<lparr>bf_calls := bf_calls b @ GiveFocus (bf_target b) # (if ok then [] else [FocusDummyInput])\<rparr>)"

text \<open>The effect of a click or a change of focus; \<open>inside\<close> is whether the document's focus is in the block.\<close>

definition clickEffect :: "(nat \<Rightarrow> bool option) \<Rightarrow> bool \<Rightarrow> blockFull \<Rightarrow> blockFull" where
  "clickEffect giveFocus inside b =
     (if \<not> bf_clicked b then b
      else
        let b = b\<lparr>bf_clicked := False\<rparr>;
            b = (if \<not> inside then setFocusTarget giveFocus b else b) in
        if \<not> bf_isFocused b then b\<lparr>bf_calls := bf_calls b @ [FocusNode]\<rparr> else b)"

definition setBlockClickedTrue :: "(nat \<Rightarrow> bool option) \<Rightarrow> bool \<Rightarrow> blockFull \<Rightarrow> blockFull" where
  "setBlockClickedTrue giveFocus inside b = clickEffect giveFocus inside (b\<lparr>bf_clicked := True\<rparr>)"

definition isFocusedChanged :: "(nat \<Rightarrow> bool option) \<Rightarrow> bool \<Rightarrow> bool \<Rightarrow> blockFull \<Rightarrow> blockFull" where
  "isFocusedChanged giveFocus inside isFocused b =
     clickEffect giveFocus inside (b\<lparr>bf_isFocused := isFocused, bf_clicked := isFocused\<rparr>)"

definition handleChildFocus :: "blockFull \<Rightarrow> blockFull" where
  "handleChildFocus b = (if \<not> bf_isFocused b then b\<lparr>bf_calls := bf_calls b @ [FocusNode]\<rparr> else b)"

section \<open>The size of the content\<close>

text \<open>What the block has beside its content, and the style of the content: a width \<open>calc(w - n px)\<close> is the pair.\<close>

definition blockContentOffset :: "dimensions \<Rightarrow> dimensions \<Rightarrow> dimensions" where
  "blockContentOffset blockRect contentRect =
     \<lparr>dim_top = Fin 0, dim_left = Fin 0, dim_width = dim_width blockRect - dim_width contentRect,
      dim_height = dim_height blockRect - dim_height contentRect\<rparr>"

record contentStyle =
  cn_pointerEventsNone :: bool
  cn_width :: "(string \<times> jsnum) option"
  cn_height :: "(string \<times> jsnum) option"

definition blockContentStyle :: "(string \<times> string) option \<Rightarrow> dimensions option \<Rightarrow> bool \<Rightarrow> contentStyle" where
  "blockContentStyle innerRect offset disablePointerEvents =
     (let base = \<lparr>cn_pointerEventsNone = disablePointerEvents, cn_width = None, cn_height = None\<rparr> in
      case (innerRect, offset) of
        (Some (w, h), Some ofs) \<Rightarrow>
          if w \<noteq> [] \<and> h \<noteq> [] then base\<lparr>cn_width := Some (w, dim_width ofs), cn_height := Some (h, dim_height ofs)\<rparr>
          else base
      | _ \<Rightarrow> base)"

section \<open>The content of a tab\<close>

datatype shownTab = TabLoading | TabNotFound | TabEmpty | TabTiles

text \<open>The data of the tab is the list of its blocks, if it has one.\<close>

definition tabContent :: "bool \<Rightarrow> string list option option \<Rightarrow> shownTab" where
  "tabContent tabLoading tabData =
     (if tabLoading then TabLoading
      else
        (case tabData of
           None \<Rightarrow> TabNotFound
         | Some (Some []) \<Rightarrow> TabEmpty
         | Some _ \<Rightarrow> TabTiles))"

section \<open>The workspace\<close>

record widget =
  wg_displayOrder :: "jsnum option"
  wg_icon :: "string option"
  wg_label :: "string option"
  wg_description :: "string option"
  wg_view :: string

definition keyLen :: "(string, widget) js_map option \<Rightarrow> nat" where
  "keyLen obj = (case obj of None \<Rightarrow> 0 | Some m \<Rightarrow> length m)"

text \<open>
  The comparator, and the sort of an array with it: stable, where the comparator is an order. For a
  comparator that is none (a widget without a display order) the language leaves the order open.
\<close>

definition displayOrderBefore :: "widget \<Rightarrow> widget \<Rightarrow> bool" where
  "displayOrderBefore a b \<longleftrightarrow>
     (case (wg_displayOrder a, wg_displayOrder b) of
        (Some x, Some y) \<Rightarrow> x - y < Fin 0
      | _ \<Rightarrow> False)"

fun insertWidget :: "widget \<Rightarrow> widget list \<Rightarrow> widget list" where
  "insertWidget w [] = [w]"
| "insertWidget w (v # vs) = (if displayOrderBefore w v then w # v # vs else v # insertWidget w vs)"

definition sortByDisplayOrder :: "(string, widget) js_map option \<Rightarrow> widget list" where
  "sortByDisplayOrder wmap = (case wmap of None \<Rightarrow> [] | Some m \<Rightarrow> fold insertWidget (map snd m) [])"

datatype widgetItem = WidgetItem widget | WidgetDivider | WidgetSpacer

definition helpWidget :: widget where
  "helpWidget = \<lparr>wg_displayOrder = None, wg_icon = Some ''circle-question'', wg_label = Some ''help'',
     wg_description = None, wg_view = ''help''\<rparr>"

definition tipsWidget :: widget where
  "tipsWidget = \<lparr>wg_displayOrder = None, wg_icon = Some ''lightbulb'', wg_label = Some ''tips'',
     wg_description = None, wg_view = ''tips''\<rparr>"

definition Widgets :: "bool option \<Rightarrow> (string, widget) js_map option \<Rightarrow> (string, widget) js_map option \<Rightarrow> widgetItem list" where
  "Widgets showHelp defaultwidgets widgets =
     map WidgetItem (sortByDisplayOrder defaultwidgets) @
     (if 0 < keyLen defaultwidgets \<and> 0 < keyLen widgets then [WidgetDivider] else []) @
     map WidgetItem (sortByDisplayOrder widgets) @
     (if (case showHelp of None \<Rightarrow> True | Some b \<Rightarrow> b)
      then [WidgetSpacer, WidgetItem tipsWidget, WidgetItem helpWidget] else [])"

definition isIconValid :: "string option \<Rightarrow> bool" where
  "isIconValid icon \<longleftrightarrow> \<not> isBlank icon \<and> iconNameRe (the icon)"

definition getIconClass :: "string option \<Rightarrow> string" where
  "getIconClass icon =
     (if \<not> isIconValid icon then ''fa fa-regular fa-browser fa-fw'' else ''fa fa-solid fa-'' @ the icon @ '' fa-fw'')"

definition widgetTitle :: "widget \<Rightarrow> string option" where
  "widgetTitle w = (if isBlank (wg_description w) then wg_label w else wg_description w)"

datatype workspaceContent = NoActiveTab | TabWithWidgets "string option"

definition WorkspaceElem :: "string option \<Rightarrow> string option \<Rightarrow> js_error + string \<times> workspaceContent" where
  "WorkspaceElem activeTabId wsOid =
     (case wsOid of
        None \<Rightarrow> Inl TypeError
      | Some oid \<Rightarrow> Inr (oid, if activeTabId = Some [] then NoActiveTab else TabWithWidgets activeTabId))"

section \<open>Properties\<close>

lemma viewType_made [simp]: "viewType (makeViewModel v) = v"
  by (simp add: makeViewModel_def)

text \<open>The model that an element casts to; the quick tips cast to a class that no block is given.\<close>

fun castsTo :: "viewElem \<Rightarrow> modelKind option" where
  "castsTo TerminalView = Some TermViewModel"
| "castsTo PreviewView = Some PreviewModel"
| "castsTo WebView = Some WebViewModel"
| "castsTo WaveAi = Some WaveAiModel"
| "castsTo CpuPlotView = Some CpuPlotViewModel"
| "castsTo HelpView = Some HelpViewModel"
| "castsTo _ = None"

text \<open>Every registered model is the one that is made for its view type.\<close>

definition wellRegistered :: "blockRegistry \<Rightarrow> bool" where
  "wellRegistered r \<longleftrightarrow> (\<forall>i m. map_get (br_models r) i = Some m \<longrightarrow> vm_kind m = makeViewModel (viewType (vm_kind m)))"

lemma renderedModel_kind:
  assumes "wellRegistered r"
  shows "vm_kind (fst (renderedModel i v r)) = makeViewModel v" "wellRegistered (snd (renderedModel i v r))"
  using assms by (auto simp: renderedModel_def wellRegistered_def Let_def split: option.splits)

lemma registrySteps_well: "wellRegistered r \<Longrightarrow> wellRegistered (fold registryStep es r)"
proof (induction es arbitrary: r)
  case (Cons e es)
  have "wellRegistered (registryStep e r)"
    using Cons.prems renderedModel_kind(2) by (cases e) (auto simp: blockUnmounted_def wellRegistered_def)
  then show ?case using Cons.IH by simp
qed simp

text \<open>
  The cast of a view element is right: after any sequence of renderings of any blocks with any
  views, and of blocks that leave the screen, the model with which a block is rendered next is of the
  class that its element takes it for, also when the view of the block has just changed.
\<close>

theorem view_elements_get_their_model:
  assumes "castsTo (getViewElem v) = Some k"
  shows "vm_kind (fst (renderedModel i v (fold registryStep es \<lparr>br_models = [], br_made = 0\<rparr>))) = k"
proof -
  have "wellRegistered (fold registryStep es \<lparr>br_models = [], br_made = 0\<rparr>)"
    by (rule registrySteps_well) (simp add: wellRegistered_def)
  then show ?thesis
    using renderedModel_kind(1) assms by (auto simp: getViewElem_def makeViewModel_def split: if_splits)
qed

theorem view_elements_get_their_model_witness:
  "vm_kind (fst (renderedModel ''b1'' (Some ''web'') (fold registryStep
      [RenderBlock ''b1'' (Some ''term''), RenderBlock ''b2'' None, UnmountBlock ''b2''] \<lparr>br_models = [], br_made = 0\<rparr>))) = WebViewModel"
  by (rule view_elements_get_their_model) (simp add: getViewElem_def isBlank_def)

text \<open>Rendering a block again with the same view keeps its model.\<close>

theorem rerendering_keeps_the_model:
  "renderedModel i v (snd (renderedModel i v r)) = renderedModel i v r"
  by (auto simp: renderedModel_def Let_def split: option.splits)

text \<open>
  A block whose view changes keeps handing the focus to the model that it was mounted with: the
  callback that sets the focus is made once and closes over the first model.
\<close>

theorem focus_goes_to_the_first_model:
  assumes "giveFocus m = Some True"
  shows "bf_calls (setBlockClickedTrue giveFocus False (blockRendered m' (blockMounted m))) = [GiveFocus m, FocusNode]"
  using assms by (simp add: setBlockClickedTrue_def clickEffect_def setFocusTarget_def blockRendered_def blockMounted_def)

text \<open>A click always asks for the focus of a block that has none, and leaves no click behind.\<close>

theorem click_asks_for_focus:
  "\<not> bf_clicked (setBlockClickedTrue giveFocus inside b) \<and>
    (bf_isFocused b \<or> last (bf_calls (setBlockClickedTrue giveFocus inside b)) = FocusNode) \<and>
    (inside \<or> (\<exists>cs. bf_calls (setFocusTarget giveFocus b) = bf_calls b @ cs \<and> cs \<noteq> [] \<and>
        bf_calls (setBlockClickedTrue giveFocus inside b) = bf_calls b @ cs @ (if bf_isFocused b then [] else [FocusNode])))"
  by (auto simp: setBlockClickedTrue_def clickEffect_def setFocusTarget_def Let_def split: option.split)

lemma mset_insertWidget: "mset (insertWidget w ws) = add_mset w (mset ws)"
  by (induction ws) auto

text \<open>The key by which widgets with an order are sorted.\<close>

definition ordered :: "widget \<Rightarrow> bool" where
  "ordered w \<longleftrightarrow> (\<exists>r. wg_displayOrder w = Some (Fin r))"

definition orderOf :: "widget \<Rightarrow> rat" where
  "orderOf w = (case wg_displayOrder w of Some (Fin r) \<Rightarrow> r | _ \<Rightarrow> 0)"

lemma before_orderOf: "ordered a \<Longrightarrow> ordered b \<Longrightarrow> displayOrderBefore a b \<longleftrightarrow> orderOf a < orderOf b"
  by (auto simp: ordered_def orderOf_def displayOrderBefore_def less_jsnum_def)

lemma set_insertWidget [simp]: "set (insertWidget w ws) = insert w (set ws)"
  by (metis mset_insertWidget set_mset_add_mset_insert set_mset_mset)

lemma insertWidget_sorted:
  assumes "ordered w" "list_all ordered ws" "sorted (map orderOf ws)"
  shows "sorted (map orderOf (insertWidget w ws))"
    "filter (\<lambda>x. k = orderOf x) (insertWidget w ws) =
      filter (\<lambda>x. k = orderOf x) ws @ (if k = orderOf w then [w] else [])"
  using assms
proof (induction ws)
  case (Cons v vs)
  { case 1 then show ?case using Cons.IH(1) before_orderOf [of w v] by auto
  next
    case 2
    then have "k = orderOf w \<Longrightarrow> orderOf w < orderOf v \<Longrightarrow> filter (\<lambda>x. k = orderOf x) vs = []"
      by (auto simp: filter_empty_conv)
    then show ?case using 2 Cons.IH(2) before_orderOf [of w v] by auto }
qed auto

lemma insertWidgets_sorted:
  assumes "list_all ordered xs" "list_all ordered ws" "sorted (map orderOf ws)"
  shows "mset (fold insertWidget xs ws) = mset ws + mset xs \<and> sorted (map orderOf (fold insertWidget xs ws)) \<and>
    filter (\<lambda>x. k = orderOf x) (fold insertWidget xs ws) = filter (\<lambda>x. k = orderOf x) ws @ filter (\<lambda>x. k = orderOf x) xs"
  using assms
proof (induction xs arbitrary: ws)
  case (Cons x xs)
  then have "list_all ordered (insertWidget x ws)" by (simp add: list_all_iff)
  with Cons insertWidget_sorted [of x ws] show ?case by (simp add: mset_insertWidget)
qed simp

text \<open>
  The widgets stand in their display order, those of equal order in the order of the configuration.
\<close>

theorem widgets_in_display_order:
  assumes "list_all ordered (map snd m)"
  shows "sortByDisplayOrder (Some m) = sort_key orderOf (map snd m)"
proof -
  have "sort_key orderOf (map snd m) = fold insertWidget (map snd m) []"
    by (rule properties_for_sort_key) (use insertWidgets_sorted [OF assms, of "[]"] in auto)
  then show ?thesis by (simp add: sortByDisplayOrder_def)
qed

end
