(* ===== verification/ConnSwitch.thy ===== *)
theory ConnSwitch
  imports BlockUtil KeyUtil
begin

text \<open>
  Choosing the connection of a block: the modal of app/block/blockframe.tsx with its list of
  suggestions, the type-ahead modal (app/modals/typeaheadmodal.tsx) that shows them and gives each
  its number, the keys and clicks that pick one, and the commands that change the connection. The
  status overlay, the context menu and the mask of a block frame are here as the values they show.
\<close>

section \<open>State\<close>

datatype itemAction =
    NewConnection string            \<comment> \<open>\<open>onSelect\<close> of the suggestion for a new connection\<close>
  | Reconnect string                \<comment> \<open>\<open>onSelect\<close> of the suggestion to reconnect\<close>
  | NoOnSelect

record suggestionItem =
  si_icon :: string
  si_iconColor :: string
  si_label :: string
  si_value :: string
  si_action :: itemAction

datatype connCall =
    SetConnMeta "string option" string
  | ConnEnsure "string option"
  | ConnConnect string
  | ConnListRequest
  | RefocusNode

record connModal =
  md_open :: bool
  md_connSelected :: string
  md_connList :: "string list"
  md_rowIndex :: int
  md_connection :: "string option"           \<comment> \<open>of the block's metadata\<close>
  md_file :: "string option"
  md_pending :: "string option list"         \<comment> \<open>changes whose metadata is being written\<close>
  md_calls :: "connCall list"

text \<open>What a render reads: the status of the block's connection, of all connections, and the local name.\<close>

record connEnv =
  ce_connection :: string
  ce_status :: string
  ce_all :: "(string \<times> connButtonStatus) list"
  ce_userName :: string
  ce_hostName :: string

definition mdCall :: "connCall \<Rightarrow> connModal \<Rightarrow> connModal" where
  "mdCall c m = m\<lparr>md_calls := md_calls m @ [c]\<rparr>"

section \<open>Changing the connection\<close>

definition changeConnection :: "string \<Rightarrow> connModal \<Rightarrow> connModal" where
  "changeConnection connName m =
     (let conn = (if connName = [] then None else Some connName) in
      if conn = md_connection m then m
      else
        let oldCwd = (case md_file m of None \<Rightarrow> [] | Some f \<Rightarrow> f);
            newCwd = (if oldCwd = [] then [] else ''~'')
        in mdCall (SetConnMeta conn newCwd) (m\<lparr>md_pending := md_pending m @ [conn]\<rparr>))"

text \<open>The write of the metadata returns, or fails, which ends the change.\<close>

definition setMetaReturned :: "bool \<Rightarrow> connModal \<Rightarrow> connModal" where
  "setMetaReturned ok m =
     (case md_pending m of
        [] \<Rightarrow> m
      | conn # rest \<Rightarrow> (if ok then mdCall (ConnEnsure conn) else id) (m\<lparr>md_pending := rest\<rparr>))"

section \<open>Suggestions\<close>

definition filteredList :: "connModal \<Rightarrow> string list" where
  "filteredList m = filter (\<lambda>conn. js_includes conn (md_connSelected m)) (md_connList m)"

definition createNew :: "connModal \<Rightarrow> bool" where
  "createNew m \<longleftrightarrow> md_connSelected m \<noteq> [] \<and> md_connSelected m \<notin> set (md_connList m)"

definition greyColor :: string where
  "greyColor = ''var(--grey-text-color)''"

definition priorityItems :: "connEnv \<Rightarrow> connModal \<Rightarrow> suggestionItem list" where
  "priorityItems e m =
     (if createNew m
      then [\<lparr>si_icon = ''plus'', si_iconColor = ''var(--conn-icon-color)'', si_label = md_connSelected m @ '' (New Connection)'',
             si_value = [], si_action = NewConnection (md_connSelected m)\<rparr>]
      else []) @
     (if md_connSelected m = [] \<and> (ce_status e = ''disconnected'' \<or> ce_status e = ''error'')
      then [\<lparr>si_icon = ''arrow-right-arrow-left'', si_iconColor = greyColor, si_label = ''Reconnect to '' @ ce_connection e,
             si_value = [], si_action = Reconnect (ce_connection e)\<rparr>]
      else [])"

definition localItems :: "connEnv \<Rightarrow> connModal \<Rightarrow> suggestionItem list" where
  "localItems e m =
     (if md_connSelected m = []
      then [\<lparr>si_icon = ''laptop'', si_iconColor = greyColor, si_label = ce_userName e @ ''@'' @ ce_hostName e,
             si_value = [], si_action = NoOnSelect\<rparr>]
      else [])"

text \<open>The map of statuses keeps the last entry of a connection.\<close>

definition remoteItem :: "connEnv \<Rightarrow> string \<Rightarrow> suggestionItem" where
  "remoteItem e connName =
     (let connStatus = map_of (rev (ce_all e)) connName;
          connColorNum = computeConnColorNum (map_option cb_activeconnnum connStatus)
      in \<lparr>si_icon = ''arrow-right-arrow-left'',
          si_iconColor = (if map_option cb_status connStatus = Some ''connected''
             then ''var(--conn-icon-color-'' @ show_nat connColorNum @ '')'' else greyColor),
          si_label = connName, si_value = connName, si_action = NoOnSelect\<rparr>)"

definition remoteItems :: "connEnv \<Rightarrow> connModal \<Rightarrow> suggestionItem list" where
  "remoteItems e m = map (remoteItem e) (filteredList m)"

text \<open>
  The list that the keys walk through, with the highlighted item in another colour. The items of
  the groups that are shown are the same objects, so the colour changes there as well.
\<close>

definition highlight :: "int \<Rightarrow> nat \<Rightarrow> suggestionItem \<Rightarrow> suggestionItem" where
  "highlight rowIndex i item =
     (if int i = rowIndex \<and> si_iconColor item = greyColor then item\<lparr>si_iconColor := ''var(--main-text-color)''\<rparr> else item)"

definition selectionList :: "connEnv \<Rightarrow> connModal \<Rightarrow> suggestionItem list" where
  "selectionList e m =
     map (\<lambda>(i, item). highlight (md_rowIndex m) i item)
       (List.enumerate 0 (priorityItems e m @ localItems e m @ remoteItems e m))"

definition suggestions :: "connEnv \<Rightarrow> connModal \<Rightarrow> (string \<times> suggestionItem list) list" where
  "suggestions e m =
     (let items = selectionList e m;
          np = length (priorityItems e m);
          nl = length (localItems e m)
      in filter (\<lambda>g. snd g \<noteq> [])
           [([], take np items), (''Local'', take nl (drop np items)), (''Remote'', drop (np + nl) items)])"

text \<open>\<open>Suggestions\<close> of the type-ahead modal: the groups with the running number \<open>fullIndex\<close> of each item.\<close>

fun renderSuggestions :: "nat \<Rightarrow> (string \<times> suggestionItem list) list \<Rightarrow> (string \<times> (nat \<times> suggestionItem) list) list" where
  "renderSuggestions n [] = []"
| "renderSuggestions n ((header, items) # groups) =
     (header, List.enumerate n items) # renderSuggestions (n + length items) groups"

section \<open>Picking\<close>

definition closeModal :: "connModal \<Rightarrow> connModal" where
  "closeModal m = m\<lparr>md_open := False, md_connList := []\<rparr>"

text \<open>A click on an item: its own handler, or that of the modal.\<close>

definition clickItem :: "suggestionItem \<Rightarrow> connModal \<Rightarrow> connModal" where
  "clickItem item m =
     (case si_action item of
        NewConnection conn \<Rightarrow> closeModal (changeConnection conn m)
      | Reconnect conn \<Rightarrow> mdCall (ConnConnect conn) m
      | NoOnSelect \<Rightarrow> closeModal (changeConnection (si_value item) m))"

definition pressEnter :: "connEnv \<Rightarrow> connModal \<Rightarrow> (js_error + unit) \<times> connModal" where
  "pressEnter e m =
     (case js_at (selectionList e m) (md_rowIndex m) of
        None \<Rightarrow> (Inl TypeError, m)
      | Some rowItem \<Rightarrow>
          (Inr (), case si_action rowItem of
             NewConnection conn \<Rightarrow> closeModal (changeConnection conn m)
           | Reconnect conn \<Rightarrow> mdCall (ConnConnect conn) m
           | NoOnSelect \<Rightarrow> closeModal (changeConnection (si_value rowItem) m)))"

definition handleTypeAheadKeyDown :: "connEnv \<Rightarrow> waveKeyboardEvent \<Rightarrow> connModal \<Rightarrow> (js_error + bool) \<times> connModal" where
  "handleTypeAheadKeyDown e k m =
     andThen (if checkKeyPressed k ''Enter'' then pressEnter e m else (Inr (), m)) (\<lambda>_ m.
       if checkKeyPressed k ''Escape'' then (Inr True, mdCall RefocusNode ((closeModal m)\<lparr>md_connSelected := []\<rparr>))
       else if checkKeyPressed k ''ArrowUp'' then (Inr True, m\<lparr>md_rowIndex := max (md_rowIndex m - 1) 0\<rparr>)
       else if checkKeyPressed k ''ArrowDown'' then
         (Inr True, m\<lparr>md_rowIndex := min (md_rowIndex m + 1) (int (length (filteredList m)))\<rparr>)
       else (Inr False, m))"

text \<open>The effect after every render.\<close>

definition clampRow :: "connModal \<Rightarrow> connModal" where
  "clampRow m = m\<lparr>md_rowIndex := min (md_rowIndex m) (int (length (filteredList m)))\<rparr>"

text \<open>The modal is mounted when it opens, with state of its own.\<close>

definition openModal :: "connModal \<Rightarrow> connModal" where
  "openModal m =
     (if md_open m then m
      else mdCall ConnListRequest (m\<lparr>md_open := True, md_connSelected := [], md_connList := [], md_rowIndex := 0\<rparr>))"

datatype modalEvent =
    OpenModal
  | ConnListReturned "string list option"
  | TypedConn string
  | ModalKey connEnv waveKeyboardEvent
  | Clicked connEnv nat
  | BackdropClicked
  | SetMetaReturned bool
  | BlockChanged "string option" "string option"

definition modalStep :: "modalEvent \<Rightarrow> connModal \<Rightarrow> connModal" where
  "modalStep ev m =
     clampRow (case ev of
        OpenModal \<Rightarrow> openModal m
      | ConnListReturned l \<Rightarrow>
          if md_open m then m\<lparr>md_connList := (case l of None \<Rightarrow> [] | Some cs \<Rightarrow> cs)\<rparr> else m
      | TypedConn s \<Rightarrow> if md_open m then m\<lparr>md_connSelected := s\<rparr> else m
      | ModalKey e k \<Rightarrow> if md_open m then snd (handleTypeAheadKeyDown e k m) else m
      | Clicked e i \<Rightarrow>
          if md_open m \<and> i < length (selectionList e m) then clickItem (selectionList e m ! i) m else m
      | BackdropClicked \<Rightarrow> closeModal m
      | SetMetaReturned ok \<Rightarrow> setMetaReturned ok m
      | BlockChanged conn file \<Rightarrow> m\<lparr>md_connection := conn, md_file := file\<rparr>)"

definition newConnModal :: "string option \<Rightarrow> string option \<Rightarrow> connModal" where
  "newConnModal conn file =
     \<lparr>md_open = False, md_connSelected = [], md_connList = [], md_rowIndex = 0, md_connection = conn, md_file = file,
      md_pending = [], md_calls = []\<rparr>"

section \<open>The frame of a block\<close>

record connOverlay =
  co_statusText :: string
  co_showReconnect :: bool
  co_showIcon :: bool
  co_showError :: bool

text \<open>The overlay over a block that is not connected; \<open>width\<close> is 0 before it was measured.\<close>

definition overlayShowError :: "rat \<Rightarrow> string option \<Rightarrow> string \<Rightarrow> bool \<Rightarrow> bool" where
  "overlayShowError width error1 status showError =
     (if width \<noteq> 0 then \<not> isBlank error1 \<and> 250 \<le> width \<and> status \<noteq> ''connecting'' else showError)"

definition connStatusOverlay :: "bool \<Rightarrow> bool \<Rightarrow> string \<Rightarrow> string \<Rightarrow> bool \<Rightarrow> connOverlay option" where
  "connStatusOverlay isLayoutMode connModalOpen connName status showError =
     (if isLayoutMode \<or> status = ''connected'' \<or> connModalOpen then None
      else if status = ''connecting'' then
        Some \<lparr>co_statusText = ''Connecting to '' @ [CHR 0x22] @ connName @ [CHR 0x22] @ ''...'', co_showReconnect = False,
          co_showIcon = False, co_showError = showError\<rparr>
      else
        Some \<lparr>co_statusText = ''Disconnected from '' @ [CHR 0x22] @ connName @ [CHR 0x22], co_showReconnect = True,
          co_showIcon = True, co_showError = showError\<rparr>)"

text \<open>The border colour and the number of the mask.\<close>

definition blockMask :: "bool \<Rightarrow> bool \<Rightarrow> string option \<Rightarrow> string option \<Rightarrow> nat \<Rightarrow> string option \<times> nat option" where
  "blockMask isFocused isLayoutMode bordercolor focusedBordercolor blockNum =
     (let chosen = (if isFocused then focusedBordercolor else bordercolor)
      in (if chosen = Some [] then None else chosen, if isLayoutMode then Some blockNum else None))"

text \<open>The context menu of the header, as its labels.\<close>

definition headerMenuLabels :: "bool \<Rightarrow> string list \<Rightarrow> string list" where
  "headerMenuLabels magnified extraItems =
     [if magnified then ''Un-Magnify Block'' else ''Magnify Block'', ''Move to New Window'', ''separator'', ''Copy BlockId''] @
     (if extraItems \<noteq> [] then ''separator'' # extraItems else []) @ [''separator'', ''Close Block'']"

section \<open>Properties\<close>

lemma snd_renderSuggestions:
  "concat (map snd (renderSuggestions n groups)) = List.enumerate n (concat (map snd groups))"
proof (induction n groups rule: renderSuggestions.induct)
  case (2 n header items groups)
  then show ?case by (simp add: enumerate_append_eq)
qed simp

lemma concat_suggestions: "concat (map snd (suggestions e m)) = selectionList e m"
proof -
  have drop_empty: "concat (map snd (filter (\<lambda>g. snd g \<noteq> []) gs)) = concat (map snd gs)" for gs :: "(string \<times> suggestionItem list) list"
    by (induction gs) auto
  show ?thesis
    by (simp add: suggestions_def Let_def drop_empty del: filter.simps)
      (metis append_take_drop_id drop_drop add.commute)
qed

lemma length_selectionList: "length (selectionList e m) = length (priorityItems e m) + length (localItems e m) + length (filteredList m)"
  by (simp add: selectionList_def remoteItems_def)

text \<open>The row stays between 0 and the number of connections that match.\<close>

definition rowOk :: "connModal \<Rightarrow> bool" where
  "rowOk m \<longleftrightarrow> 0 \<le> md_rowIndex m \<and> md_rowIndex m \<le> int (length (filteredList m))"

lemma row_pick: "md_rowIndex (clickItem item m) = md_rowIndex m"
  "md_rowIndex (snd (pressEnter e m)) = md_rowIndex m"
  by (auto simp: clickItem_def pressEnter_def closeModal_def changeConnection_def mdCall_def Let_def
      split: option.split itemAction.split)

lemma rowOk_step: "0 \<le> md_rowIndex m \<Longrightarrow> rowOk (modalStep ev m)"
proof -
  assume row: "0 \<le> md_rowIndex m"
  have key: "0 \<le> md_rowIndex (snd (handleTypeAheadKeyDown e k m))" for e k
    using row row_pick(2) [of e m]
    by (cases "pressEnter e m"; cases "fst (pressEnter e m)")
      (auto simp: handleTypeAheadKeyDown_def closeModal_def mdCall_def)
  have clamp: "rowOk (clampRow m')" if "0 \<le> md_rowIndex m'" for m'
    using that by (simp add: rowOk_def clampRow_def filteredList_def)
  show ?thesis
    unfolding modalStep_def
    by (rule clamp)
      (use row key in \<open>auto simp: row_pick openModal_def closeModal_def setMetaReturned_def mdCall_def split: modalEvent.split list.split\<close>)
qed

lemma rowOk_run: "rowOk m \<Longrightarrow> rowOk (fold modalStep es m)"
proof (induction es arbitrary: m)
  case (Cons ev es)
  then have "0 \<le> md_rowIndex m" by (simp add: rowOk_def)
  then have "rowOk (modalStep ev m)" by (rule rowOk_step)
  with Cons.IH show ?case by simp
qed simp

lemma map_of_enumerate: "i < length xs \<Longrightarrow> map_of (List.enumerate n xs) (n + i) = Some (xs ! i)"
proof (induction xs arbitrary: n i)
  case (Cons x xs)
  then show ?case using Cons.IH [of "i - 1" "Suc n"] by (cases i) simp_all
qed simp

text \<open>
  The suggestion that is highlighted is the one that Enter takes: the type-ahead modal numbers
  the items of its groups so that the number of the highlighted row belongs to the item that the
  keys have reached, and Enter does exactly what a click on that item does.
\<close>

theorem enter_is_click_on_highlighted:
  assumes "0 \<le> md_rowIndex m" "md_rowIndex m < int (length (selectionList e m))"
  shows "\<exists>item. map_of (concat (map snd (renderSuggestions 0 (suggestions e m)))) (nat (md_rowIndex m)) = Some item \<and>
    pressEnter e m = (Inr (), clickItem item m)"
proof -
  have i: "nat (md_rowIndex m) < length (selectionList e m)" using assms by simp
  have "js_at (selectionList e m) (md_rowIndex m) = Some (selectionList e m ! nat (md_rowIndex m))"
    using assms by (simp add: js_at_def)
  then show ?thesis
    using map_of_enumerate [OF i, of 0]
    by (simp add: snd_renderSuggestions concat_suggestions pressEnter_def clickItem_def)
qed

text \<open>
  The arrow keys can go one past the end of the list, and only in one case: whatever happened
  before, Enter raises a type error exactly when the text typed is the name of a known connection
  and the row is the number of connections that match it.
\<close>

theorem enter_fails_only_past_exact_match:
  assumes "m = fold modalStep es (newConnModal conn file)"
  shows "fst (pressEnter e m) = Inl TypeError \<longleftrightarrow>
    md_connSelected m \<noteq> [] \<and> md_connSelected m \<in> set (md_connList m) \<and> md_rowIndex m = int (length (filteredList m))"
proof -
  have "rowOk (newConnModal conn file)" by (simp add: rowOk_def newConnModal_def filteredList_def)
  then have row: "0 \<le> md_rowIndex m" "md_rowIndex m \<le> int (length (filteredList m))"
    using assms rowOk_run by (simp_all add: rowOk_def)
  have "fst (pressEnter e m) = Inl TypeError \<longleftrightarrow> int (length (selectionList e m)) \<le> md_rowIndex m"
    using row(1) by (auto simp: pressEnter_def js_at_def split: option.split)
  also have "\<dots> \<longleftrightarrow> priorityItems e m = [] \<and> localItems e m = [] \<and> md_rowIndex m = int (length (filteredList m))"
    using row(2) unfolding length_selectionList by (cases "priorityItems e m"; cases "localItems e m") auto
  also have "\<dots> \<longleftrightarrow> md_connSelected m \<noteq> [] \<and> md_connSelected m \<in> set (md_connList m) \<and> md_rowIndex m = int (length (filteredList m))"
    by (auto simp: priorityItems_def localItems_def createNew_def)
  finally show ?thesis .
qed

text \<open>With the suggestion to reconnect on the list, the last connection cannot be reached with the keys.\<close>

lemma last_row_unreachable:
  assumes "rowOk m" "md_connSelected m = []" "ce_status e = ''disconnected'' \<or> ce_status e = ''error''"
  shows "md_rowIndex m < int (length (selectionList e m)) - 1"
  using assms unfolding length_selectionList rowOk_def by (auto simp: priorityItems_def localItems_def createNew_def)

section \<open>Witnesses\<close>

definition demoEnv :: connEnv where
  "demoEnv = \<lparr>ce_connection = ''me@host'', ce_status = ''connected'', ce_all = [], ce_userName = ''me'', ce_hostName = ''here''\<rparr>"

definition arrowDown :: waveKeyboardEvent where
  "arrowDown = \<lparr>ev_type = ''keydown'', ev_key = ''ArrowDown'', ev_code = ''ArrowDown'', ev_repeat = False, ev_location = 0,
     ev_shift = False, ev_control = False, ev_alt = False, ev_meta = False, ev_cmd = False, ev_option = False\<rparr>"

lemma arrowDown_keys:
  "\<not> checkKeyPressed arrowDown ''Enter''" "\<not> checkKeyPressed arrowDown ''Escape''"
  "\<not> checkKeyPressed arrowDown ''ArrowUp''" "checkKeyPressed arrowDown ''ArrowDown''"
  by code_simp+

definition exactMatchRun :: "modalEvent list" where
  "exactMatchRun = [OpenModal, ConnListReturned (Some [''me@host'', ''you@host'']), TypedConn ''me@host'', ModalKey demoEnv arrowDown]"

lemma exactMatch_state:
  "md_connSelected (fold modalStep exactMatchRun (newConnModal None None)) = ''me@host''"
  "md_connList (fold modalStep exactMatchRun (newConnModal None None)) = [''me@host'', ''you@host'']"
  "md_rowIndex (fold modalStep exactMatchRun (newConnModal None None)) = 1"
  by (simp_all add: exactMatchRun_def modalStep_def openModal_def mdCall_def handleTypeAheadKeyDown_def arrowDown_keys
      clampRow_def filteredList_def js_includes_def js_is_prefix_def newConnModal_def)

theorem enter_fails_only_past_exact_match_witness:
  "fst (pressEnter demoEnv (fold modalStep exactMatchRun (newConnModal None None))) = Inl TypeError"
  using enter_fails_only_past_exact_match [of _ exactMatchRun None None demoEnv, OF refl]
  by (simp add: exactMatch_state filteredList_def js_includes_def js_is_prefix_def)

theorem enter_is_click_on_highlighted_witness:
  "\<exists>item. pressEnter demoEnv (openModal (newConnModal None None)) =
     (Inr (), clickItem item (openModal (newConnModal None None)))"
  using enter_is_click_on_highlighted [of "openModal (newConnModal None None)" demoEnv]
  by (auto simp: length_selectionList openModal_def newConnModal_def mdCall_def localItems_def)

end
