(* ===== verification/BlockHeader.thy ===== *)
theory BlockHeader
  imports KeyModel ConnSwitch BlockShell
begin

text \<open>
  The header and the frame of a block (app/block/blockframe.tsx): the context menu, the buttons and
  the elements of the header with what a click on them does, the frame around the content, and the
  effect that lets the keys open the choice of a connection. React's \<open>useCallback\<close> and
  \<open>useEffect\<close> are the values and steps that their lists of dependencies give.
\<close>

section \<open>The context menu\<close>

datatype 'x headerAction =
    MagnifyToggle
  | MoveToNewWindow
  | CopyBlockId
  | CloseBlock
  | ExtraAction 'x                         \<comment> \<open>of an item that the view model adds\<close>

fun mapMenu :: "'x menuItem \<Rightarrow> 'x headerAction menuItem" where
  "mapMenu (MenuItem role ty label click submenu) =
     MenuItem role ty label (map_option ExtraAction click) (map_option (map mapMenu) submenu)"

definition separatorItem :: "'h menuItem" where
  "separatorItem = MenuItem None (Some ''separator'') None None None"

definition actionItem :: "string \<Rightarrow> 'h \<Rightarrow> 'h menuItem" where
  "actionItem label h = MenuItem None None (Some label) (Some h) None"

text \<open>\<open>extraItems\<close> is \<open>None\<close> without a view model, or when it has no settings.\<close>

definition handleHeaderContextMenu :: "'x menuItem list option \<Rightarrow> bool \<Rightarrow> 'x headerAction menuItem list" where
  "handleHeaderContextMenu extraItems magnified =
     [actionItem (if magnified then ''Un-Magnify Block'' else ''Magnify Block'') MagnifyToggle,
      actionItem ''Move to New Window'' MoveToNewWindow, separatorItem, actionItem ''Copy BlockId'' CopyBlockId] @
     (case extraItems of
        None \<Rightarrow> []
      | Some [] \<Rightarrow> []
      | Some items \<Rightarrow> separatorItem # map mapMenu items) @
     [separatorItem, actionItem ''Close Block'' CloseBlock]"

text \<open>
  What the handler of an item does, with the active tab and the data of the block, of which
  \<open>None\<close> is \<open>null\<close>: moving catches its errors, copying does not.
\<close>

datatype 'x headerEffect =
    ToggledMagnify
  | MoveBlockToNewWindow string string
  | WroteClipboard string
  | ClosedNode
  | RanExtra 'x
  | LoggedError

definition headerActionRun :: "string \<Rightarrow> string option \<Rightarrow> 'x headerAction \<Rightarrow> js_error + 'x headerEffect" where
  "headerActionRun currentTabId oid a =
     (case a of
        MagnifyToggle \<Rightarrow> Inr ToggledMagnify
      | MoveToNewWindow \<Rightarrow>
          Inr (case oid of None \<Rightarrow> LoggedError | Some b \<Rightarrow> MoveBlockToNewWindow currentTabId b)
      | CopyBlockId \<Rightarrow> (case oid of None \<Rightarrow> Inl TypeError | Some b \<Rightarrow> Inr (WroteClipboard b))
      | CloseBlock \<Rightarrow> Inr ClosedNode
      | ExtraAction x \<Rightarrow> Inr (RanExtra x))"

text \<open>
  The callback of the menu is made anew only when the magnification changes; what it closes over
  is of the rendering that made it.
\<close>

record 'x menuCallback =
  mc_magnified :: bool
  mc_extra :: "'x menuItem list option"
  mc_oid :: "string option"

definition onContextMenu :: "bool \<Rightarrow> 'x menuItem list option \<Rightarrow> string option \<Rightarrow> 'x menuCallback option \<Rightarrow> 'x menuCallback" where
  "onContextMenu magnified extraItems oid made =
     (case made of
        Some c \<Rightarrow>
          if mc_magnified c = magnified then c
          else \<lparr>mc_magnified = magnified, mc_extra = extraItems, mc_oid = oid\<rparr>
      | None \<Rightarrow> \<lparr>mc_magnified = magnified, mc_extra = extraItems, mc_oid = oid\<rparr>)"

definition shownMenu :: "'x menuCallback \<Rightarrow> 'x headerAction menuItem list" where
  "shownMenu c = handleHeaderContextMenu (mc_extra c) (mc_magnified c)"

section \<open>Buttons and elements\<close>

record 'a iconButtonDecl =
  ib_icon :: string
  ib_iconColor :: "string option"
  ib_title :: "string option"
  ib_click :: "'a option"
  ib_longClick :: "'a option"
  ib_disabled :: bool
  ib_className :: "string option"

datatype 'a endAction = ModelAction 'a | ShowSettings | MagnifyNode | CloseNode

definition magnifyButton :: "bool \<Rightarrow> bool \<Rightarrow> 'a endAction iconButtonDecl" where
  "magnifyButton magnified disabled =
     \<lparr>ib_icon = ''magnify'', ib_iconColor = None, ib_title = Some (if magnified then ''Minimize'' else ''Magnify''), ib_click = Some MagnifyNode, ib_longClick = None,
      ib_disabled = disabled, ib_className = Some ''block-frame-magnify''\<rparr>"

definition modelButton :: "'a iconButtonDecl \<Rightarrow> 'a endAction iconButtonDecl" where
  "modelButton b =
     \<lparr>ib_icon = ib_icon b, ib_iconColor = ib_iconColor b, ib_title = ib_title b,
      ib_click = map_option ModelAction (ib_click b), ib_longClick = map_option ModelAction (ib_longClick b), ib_disabled = ib_disabled b,
      ib_className = ib_className b\<rparr>"

definition computeEndIcons :: "'a iconButtonDecl list option \<Rightarrow> bool \<Rightarrow> nat \<Rightarrow> 'a endAction iconButtonDecl list" where
  "computeEndIcons endIconButtons magnified leafCount =
     (case endIconButtons of None \<Rightarrow> [] | Some bs \<Rightarrow> map modelButton bs) @
     [\<lparr>ib_icon = ''cog'', ib_iconColor = None, ib_title = Some ''Settings'', ib_click = Some ShowSettings, ib_longClick = None, ib_disabled = False,
        ib_className = Some ''block-frame-settings''\<rparr>,
      magnifyButton magnified (leafCount \<le> 1),
      \<lparr>ib_icon = ''xmark-large'', ib_iconColor = None, ib_title = Some ''Close'', ib_click = Some CloseNode, ib_longClick = None, ib_disabled = False,
        ib_className = Some ''block-frame-default-close''\<rparr>]"

text \<open>The icon of the view: a name, or a button.\<close>

datatype 'a viewIcon = IconName "string option" | IconButton "'a iconButtonDecl"

datatype 'a viewIconElem = HeaderIcon "(string option \<times> string) option" | ButtonElem "'a iconButtonDecl"

fun getViewIconElem :: "(string option list \<Rightarrow> string) \<Rightarrow> string option \<Rightarrow> 'a viewIcon \<Rightarrow> 'a viewIconElem" where
  "getViewIconElem clsx iconColorMeta (IconName icon) = HeaderIcon (getBlockHeaderIcon clsx icon iconColorMeta)"
| "getViewIconElem clsx iconColorMeta (IconButton decl) = ButtonElem decl"

text \<open>An element of the header text, with the handlers it may have.\<close>

datatype 'a headerElem =
    ElemIconButton "'a iconButtonDecl"
  | ElemInput string
  | ElemText string "'a option"
  | ElemTextButton string "'a option"
  | ElemDiv "'a option" "'a headerElem list"        \<comment> \<open>with its \<open>onClick\<close>\<close>
  | ElemConnectionButton

datatype 'a shownElem =
    ShownIconButton "'a iconButtonDecl"
  | ShownInput string bool                            \<comment> \<open>the value, whether for a preview\<close>
  | ShownText string "'a option"
  | ShownTextButton string "'a option"
  | ShownDiv "'a shownElem list"
  | ShownNull

fun HeaderTextElem :: "bool \<Rightarrow> 'a headerElem \<Rightarrow> 'a shownElem" where
  "HeaderTextElem preview (ElemIconButton b) = ShownIconButton b"
| "HeaderTextElem preview (ElemInput v) = ShownInput v preview"
| "HeaderTextElem preview (ElemText t h) = ShownText t h"
| "HeaderTextElem preview (ElemTextButton t h) = ShownTextButton t h"
| "HeaderTextElem preview (ElemDiv h children) = ShownDiv (map (HeaderTextElem preview) children)"
| "HeaderTextElem preview ElemConnectionButton = ShownNull"

definition renderHeaderElements :: "bool \<Rightarrow> 'a headerElem list \<Rightarrow> 'a shownElem list" where
  "renderHeaderElements preview elems = map (HeaderTextElem preview) elems"

text \<open>
  A click on an element: a text and a text button call their handler whether they have one or not.
  The handlers in a division get the click as well; a division has none.
\<close>

fun clickedElem :: "nat list \<Rightarrow> 'a shownElem \<Rightarrow> js_error + 'a option" where
  "clickedElem path (ShownIconButton b) = Inr (if ib_disabled b then None else ib_click b)"
| "clickedElem path (ShownInput v preview) = Inr None"
| "clickedElem path (ShownText t h) = (case h of None \<Rightarrow> Inl TypeError | Some a \<Rightarrow> Inr (Some a))"
| "clickedElem path (ShownTextButton t h) = (case h of None \<Rightarrow> Inl TypeError | Some a \<Rightarrow> Inr (Some a))"
| "clickedElem [] (ShownDiv cs) = Inr None"
| "clickedElem (i # path) (ShownDiv cs) = (if i < length cs then clickedElem path (cs ! i) else Inr None)"
| "clickedElem path ShownNull = Inr None"

section \<open>The header\<close>

datatype 'a headerText = NoHeaderText | HeaderString string | HeaderElems "'a headerElem list"

datatype 'a headerPart =
    ControllerStatus
  | TextPartOf string
  | ElemPart "'a shownElem"
  | RenderError string string              \<comment> \<open>the title, and the text that a click copies\<close>

definition headerTextElems :: "bool \<Rightarrow> 'a headerText \<Rightarrow> (string \<times> string) option \<Rightarrow> 'a headerPart list" where
  "headerTextElems preview headerTextUnion error1 =
     ControllerStatus #
     (case headerTextUnion of
        NoHeaderText \<Rightarrow> []
      | HeaderString s \<Rightarrow> if isBlank (Some s) then [] else [TextPartOf s]
      | HeaderElems es \<Rightarrow> map ElemPart (renderHeaderElements preview es)) @
     (case error1 of
        None \<Rightarrow> []
      | Some (msg, stack) \<Rightarrow> [RenderError (''Error Rendering View Header: '' @ msg) (msg @ [CHR 0x0A] @ stack)])"

record 'a headerModel =
  hm_viewName :: "string option"
  hm_viewIcon :: "'a viewIcon option"
  hm_preIconButton :: "'a iconButtonDecl option"
  hm_viewText :: "'a headerText"
  hm_endIconButtons :: "'a iconButtonDecl list option"
  hm_manageConnection :: bool

record 'a blockHeader =
  bh_preIconButton :: "'a iconButtonDecl option"
  bh_viewIcon :: "'a viewIconElem"
  bh_viewName :: string
  bh_blockId :: "string option"
  bh_connButton :: bool
  bh_textElems :: "'a headerPart list"
  bh_endIcons :: "'a endAction iconButtonDecl list"
  bh_dragHandle :: bool

text \<open>Without a view model, everything that it would give is missing.\<close>

definition noModel :: "'a headerModel" where
  "noModel = \<lparr>hm_viewName = None, hm_viewIcon = None, hm_preIconButton = None, hm_viewText = NoHeaderText,
     hm_endIconButtons = None, hm_manageConnection = False\<rparr>"

definition BlockFrame_Header ::
  "(string option list \<Rightarrow> string) \<Rightarrow> string \<Rightarrow> string option \<Rightarrow> string option \<Rightarrow> bool \<Rightarrow> bool \<Rightarrow> nat \<Rightarrow> bool \<Rightarrow>
     (string \<times> string) option \<Rightarrow> 'a headerModel option \<Rightarrow> 'a blockHeader" where
  "BlockFrame_Header clsx blockId view iconColorMeta preview magnified leafCount showBlockIds error1 viewModel =
     (let m = (case viewModel of None \<Rightarrow> noModel | Some m \<Rightarrow> m) in
      \<lparr>bh_preIconButton = hm_preIconButton m,
       bh_viewIcon = getViewIconElem clsx iconColorMeta
         (case hm_viewIcon m of Some i \<Rightarrow> i | None \<Rightarrow> IconName (Some (blockViewToIcon view))),
       bh_viewName = (case hm_viewName m of Some n \<Rightarrow> n | None \<Rightarrow> blockViewToName view),
       bh_blockId = (if showBlockIds then Some (take 8 blockId) else None),
       bh_connButton = hm_manageConnection m,
       bh_textElems = headerTextElems preview (hm_viewText m) error1,
       bh_endIcons = computeEndIcons (hm_endIconButtons m) magnified leafCount,
       bh_dragHandle = \<not> preview\<rparr>)"

section \<open>The frame\<close>

record blockBg =
  bb_bg :: "string option"
  bb_opacity :: "jsnum option"
  bb_blendmode :: "string option"

definition innerStyle :: "bool \<Rightarrow> blockBg option \<Rightarrow> blockBg" where
  "innerStyle preview customBg =
     (case customBg of
        Some b \<Rightarrow> if \<not> preview \<and> bb_bg b \<noteq> None then b else \<lparr>bb_bg = None, bb_opacity = None, bb_blendmode = None\<rparr>
      | None \<Rightarrow> \<lparr>bb_bg = None, bb_opacity = None, bb_blendmode = None\<rparr>)"

definition frameClasses :: "string \<Rightarrow> bool \<Rightarrow> bool \<Rightarrow> nat \<Rightarrow> string list" where
  "frameClasses blockId isFocused preview numBlocksInTab =
     [''block'', ''block-frame-default'', ''block-'' @ blockId] @
     (if isFocused \<or> preview then [''block-focused''] else []) @
     (if preview then [''block-preview''] else []) @
     (if numBlocksInTab = 1 then [''block-no-highlight''] else [])"

record frameParts =
  fp_overlay :: bool
  fp_children :: bool                      \<comment> \<open>the content, or the picture of a preview\<close>
  fp_connModal :: bool

definition BlockFrame_Default :: "bool \<Rightarrow> bool \<Rightarrow> bool \<Rightarrow> frameParts" where
  "BlockFrame_Default preview hasViewModel connModalOpen =
     \<lparr>fp_overlay = (\<not> preview \<and> hasViewModel), fp_children = (\<not> preview),
      fp_connModal = (\<not> preview \<and> hasViewModel \<and> connModalOpen)\<rparr>"

text \<open>The frame of a block with data, and the number of blocks of the tab.\<close>

definition BlockFrame :: "string option \<Rightarrow> bool \<Rightarrow> string list option option \<Rightarrow> nat option" where
  "BlockFrame blockId hasData tabData =
     (if isBlank blockId \<or> \<not> hasData then None
      else Some (case Option.bind tabData id of None \<Rightarrow> 0 | Some ids \<Rightarrow> length ids))"

text \<open>The connection that the effect asks the backend for.\<close>

definition ensuredConn :: "bool \<Rightarrow> bool \<Rightarrow> bool \<Rightarrow> string option \<Rightarrow> string option" where
  "ensuredConn manageConnection hasData preview connName =
     (if \<not> manageConnection \<or> \<not> hasData \<or> preview then None
      else if isBlank connName then None else connName)"

text \<open>The button to reconnect, in the width of the overlay: its text, or an icon.\<close>

definition reconDisplay :: "jsnum option \<Rightarrow> string option \<times> string" where
  "reconDisplay width =
     (if (case width of None \<Rightarrow> False | Some w \<Rightarrow> w \<noteq> Fin 0 \<and> w \<noteq> NaN \<and> w < Fin 350)
      then (None, ''outlined grey font-size-12 vertical-padding-5 horizontal-padding-6'')
      else (Some ''Reconnect'', ''outlined grey font-size-11 vertical-padding-3 horizontal-padding-7''))"

text \<open>The statuses of all connections, the last of a name, and the highest number in use.\<close>

definition connStatusMap :: "(string \<times> connButtonStatus) list \<Rightarrow> (string, connButtonStatus) js_map" where
  "connStatusMap statuses = fold (\<lambda>(c, s) m. map_set c s m) statuses []"

definition maxActiveConnNum :: "(string \<times> connButtonStatus) list \<Rightarrow> nat" where
  "maxActiveConnNum statuses = fold (\<lambda>(c, s) n. if n < cb_activeconnnum s then cb_activeconnnum s else n) statuses 1"

section \<open>The keys that open the choice of a connection\<close>

text \<open>
  The effect of the frame, which runs when \<open>manageConnection\<close> changes: it puts the opener into the
  component model that is registered at the time. Its cleanup takes it out.
\<close>

definition connKeysEffect :: "string \<Rightarrow> bool \<Rightarrow> appState \<Rightarrow> appState" where
  "connKeysEffect blockId manageConnection s =
     (if \<not> manageConnection then s
      else
        (case getBlockComponentModel blockId s of
           None \<Rightarrow> s
         | Some bcm \<Rightarrow> registerBlockComponentModel blockId (bcm\<lparr>bcm_openSwitchConnection := True\<rparr>) s))"

definition connKeysCleanup :: "string \<Rightarrow> bool \<Rightarrow> appState \<Rightarrow> appState" where
  "connKeysCleanup blockId manageConnection s =
     (if \<not> manageConnection then s
      else
        (case getBlockComponentModel blockId s of
           None \<Rightarrow> s
         | Some bcm \<Rightarrow> registerBlockComponentModel blockId (bcm\<lparr>bcm_openSwitchConnection := False\<rparr>) s))"

text \<open>
  A rendering of a block and its frame: a view that the registered model is not of gets a new one,
  registered without an opener, and the effect runs when its dependency has changed (\<open>None\<close> before
  the first rendering).
\<close>

record frameState =
  fs_app :: appState
  fs_view :: "string option"
  fs_manage :: "bool option"

definition frameRendered :: "string \<Rightarrow> string option \<Rightarrow> bool \<Rightarrow> frameState \<Rightarrow> frameState" where
  "frameRendered blockId view manageConnection f =
     (let s = fs_app f;
          s = (if getBlockComponentModel blockId s = None \<or> fs_view f \<noteq> view
               then registerBlockComponentModel blockId \<lparr>bcm_openSwitchConnection = False, bcm_hasViewModel = True\<rparr> s else s);
          s = (if fs_manage f = Some manageConnection then s
               else connKeysEffect blockId manageConnection
                 (case fs_manage f of None \<Rightarrow> s | Some b \<Rightarrow> connKeysCleanup blockId b s))
      in \<lparr>fs_app = s, fs_view = view, fs_manage = Some manageConnection\<rparr>)"

section \<open>Properties\<close>

text \<open>The labels of the menu, and that of each item that the view model adds.\<close>

lemma menu_labels:
  "map (\<lambda>x. if mi_type x = Some ''separator'' then ''separator'' else the (mi_label x))
     (handleHeaderContextMenu (Some (map (\<lambda>l. MenuItem None None (Some l) (Some x) None) ls)) magnified) =
   headerMenuLabels magnified ls"
  by (cases ls) (simp_all add: handleHeaderContextMenu_def headerMenuLabels_def actionItem_def separatorItem_def comp_def)

text \<open>
  A click on an item of the header's menu that is shown runs the handler of that item: the item
  with the label \<open>Close Block\<close> closes, and so on for each.
\<close>

theorem header_menu_runs_its_items:
  assumes "inj uuid" "showContextMenu uuid (shownMenu c) m = (es, m')" "i < length (flatMenu (shownMenu c))"
  shows "ei_label (flatElectron es ! i) = mi_label (flatMenu (shownMenu c) ! i) \<and>
    handleContextMenuClick (ei_id (flatElectron es ! i)) m' = mi_click (flatMenu (shownMenu c) ! i)"
  using click_runs_its_handler [OF assms(1,2)] assms(3) by (auto simp: list_all2_conv_all_nth shownAs_def)

text \<open>
  While the magnification stays, the menu stays that of the first rendering: after the view of the
  block has changed it offers the settings of the old view.
\<close>

theorem menu_is_of_the_first_view:
  "fold (\<lambda>(extra, oid) c. Some (onContextMenu magnified extra oid c)) later (Some (onContextMenu magnified extra0 oid0 None)) =
    Some \<lparr>mc_magnified = magnified, mc_extra = extra0, mc_oid = oid0\<rparr>"
proof -
  let ?c = "\<lparr>mc_magnified = magnified, mc_extra = extra0, mc_oid = oid0\<rparr>"
  have "fold (\<lambda>(extra, oid) c. Some (onContextMenu magnified extra oid c)) later (Some ?c) = Some ?c"
    by (induction later) (auto simp: onContextMenu_def)
  then show ?thesis by (simp add: onContextMenu_def)
qed

text \<open>The only error that a click on an element of the header raises is that of a missing handler.\<close>

lemma click_fails_without_handler: "clickedElem path e = Inl err \<Longrightarrow> err = TypeError"
  by (induction path e rule: clickedElem.induct) (auto split: option.splits if_splits)

fun hasHandlers :: "'a headerElem \<Rightarrow> bool" where
  "hasHandlers (ElemText t h) \<longleftrightarrow> h \<noteq> None"
| "hasHandlers (ElemTextButton t h) \<longleftrightarrow> h \<noteq> None"
| "hasHandlers (ElemDiv h cs) \<longleftrightarrow> (\<forall>c \<in> set cs. hasHandlers c)"
| "hasHandlers _ \<longleftrightarrow> True"

theorem clicks_are_handled:
  "hasHandlers e \<Longrightarrow> \<exists>a. clickedElem path (HeaderTextElem preview e) = Inr a"
proof (induction preview e arbitrary: path rule: HeaderTextElem.induct)
  case (5 preview h children)
  then show ?case by (cases path) auto
qed auto

text \<open>Closing and magnifying are always the last two buttons, whatever the view adds before them.\<close>

lemma end_icons_close:
  "map ib_click (drop (length (computeEndIcons bs magnified n) - 2) (computeEndIcons bs magnified n)) =
    [Some MagnifyNode, Some CloseNode]"
  by (cases bs) (simp_all add: computeEndIcons_def magnifyButton_def)

lemma magnify_needs_other_blocks:
  "b \<in> set (computeEndIcons None magnified n) \<Longrightarrow> ib_click b = Some MagnifyNode \<Longrightarrow> ib_disabled b = (n \<le> 1)"
  by (auto simp: computeEndIcons_def magnifyButton_def)

text \<open>The map of statuses is the last entry of each name, as the suggestions read it.\<close>

lemma connStatusMap_get: "map_get (connStatusMap cs) c = map_of (rev cs) c"
proof -
  have "map_get (fold (\<lambda>(c, s) m. map_set c s m) cs m) c = (case map_of (rev cs) c of None \<Rightarrow> map_get m c | Some s \<Rightarrow> Some s)" for m
    by (induction cs arbitrary: m) (auto simp: map_add_def split: option.splits)
  from this [of "[]"] show ?thesis by (simp add: connStatusMap_def split: option.split)
qed

lemma maxActiveConnNum_bound:
  "1 \<le> maxActiveConnNum cs \<and> (\<forall>(c, s) \<in> set cs. cb_activeconnnum s \<le> maxActiveConnNum cs)"
proof -
  have "n \<le> fold (\<lambda>(c, s) n. if n < cb_activeconnnum s then cb_activeconnnum s else n) cs n \<and>
      (\<forall>(c, s) \<in> set cs. cb_activeconnnum s \<le> fold (\<lambda>(c, s) n. if n < cb_activeconnnum s then cb_activeconnnum s else n) cs n)" for n
  proof (induction cs arbitrary: n)
    case (Cons x cs)
    show ?case using Cons.IH [of "if n < cb_activeconnnum (snd x) then cb_activeconnnum (snd x) else n"]
      by (auto simp: case_prod_beta split: if_splits)
  qed simp
  then show ?thesis by (simp add: maxActiveConnNum_def)
qed

text \<open>While the view of a block stays, the keys open the choice of its connection.\<close>

definition opensConnections :: "string \<Rightarrow> appState \<Rightarrow> bool" where
  "opensConnections blockId s \<longleftrightarrow> (\<exists>bcm. getBlockComponentModel blockId s = Some bcm \<and> bcm_openSwitchConnection bcm)"

lemma get_registered [simp]: "getBlockComponentModel b (registerBlockComponentModel b m s) = Some m"
  by (simp add: getBlockComponentModel_def registerBlockComponentModel_def)

lemma frame_first:
  assumes "getBlockComponentModel b (fs_app f) = None" "fs_manage f = None"
  shows "opensConnections b (fs_app (frameRendered b v True f))"
  using assms by (simp add: frameRendered_def connKeysEffect_def opensConnections_def)

lemma frame_again:
  assumes "opensConnections b (fs_app f)" "fs_view f = v" "fs_manage f = Some True"
  shows "frameRendered b v True f = f"
  using assms by (auto simp: frameRendered_def opensConnections_def)

theorem keys_open_connections_while_the_view_stays:
  assumes "getBlockComponentModel b (fs_app f) = None" "fs_manage f = None"
  shows "opensConnections b (fs_app ((frameRendered b v True ^^ Suc n) f))"
proof -
  let ?f = "frameRendered b v True f"
  have first: "opensConnections b (fs_app ?f)" "fs_view ?f = v" "fs_manage ?f = Some True"
    using frame_first [OF assms] by (simp_all add: frameRendered_def Let_def)
  then have "(frameRendered b v True ^^ n) ?f = ?f" by (induction n) (simp_all add: frame_again)
  with first(1) show ?thesis by (simp only: funpow_Suc_right o_apply)
qed

text \<open>
  A change to another view that manages its connection registers a new model, and the effect does
  not run again: from then on the keys do not open the choice, however often the block is rendered.
\<close>

lemma new_view_drops_opener:
  assumes "fs_manage f = Some True" "fs_view f \<noteq> v"
  shows "frameRendered b v True f =
    \<lparr>fs_app = registerBlockComponentModel b \<lparr>bcm_openSwitchConnection = False, bcm_hasViewModel = True\<rparr> (fs_app f),
     fs_view = v, fs_manage = Some True\<rparr>"
  using assms by (simp add: frameRendered_def)

theorem new_view_loses_the_keys:
  assumes "fs_manage f = Some True" "fs_view f \<noteq> v"
  shows "\<not> opensConnections b (fs_app ((frameRendered b v True ^^ Suc n) f))"
proof -
  let ?f = "frameRendered b v True f"
  have "frameRendered b v True ?f = ?f" unfolding new_view_drops_opener [OF assms] by (simp add: frameRendered_def)
  then have "(frameRendered b v True ^^ n) ?f = ?f" by (induction n) simp_all
  then have "(frameRendered b v True ^^ Suc n) f = ?f" by (simp only: funpow_Suc_right o_apply)
  then show ?thesis by (simp add: new_view_drops_opener [OF assms] opensConnections_def)
qed

end
