(* ===== verification/TabBar.thy ===== *)
theory TabBar
  imports Prelude
begin

text \<open>
  The tab bar (app/tab/tabbar.tsx): the width of the tabs, dragging a tab to another place, the
  reconciliation with the workspace, adding, closing and selecting tabs. The arrays of tab ids are
  shared (a drag mutates the very array that the workspace object holds), so they live in a store;
  measurements of the DOM are arguments, and \<open>None\<close> is the \<open>NaN\<close> that an undefined position yields.
\<close>

section \<open>Constants and state\<close>

definition TAB_DEFAULT_WIDTH :: rat where "TAB_DEFAULT_WIDTH = 130"
definition TAB_MIN_WIDTH :: rat where "TAB_MIN_WIDTH = 100"
definition DRAGGER_RIGHT_MIN_WIDTH :: rat where "DRAGGER_RIGHT_MIN_WIDTH = 74"

datatype dragDirection = Rightwards | Leftwards

text \<open>
  \<open>draggingTabDataRef\<close>, with what the mouse handlers of the drag have captured from their render:
  the array of tab ids, the start positions and the two variables of \<open>getDragDirection\<close>.
\<close>

record tabDrag =
  td_tabId :: string
  td_tabStartX :: "rat option"
  td_tabIndex :: int
  td_initialOffsetX :: "rat option option"      \<comment> \<open>\<open>None\<close> is \<open>null\<close>\<close>
  td_totalScrollOffset :: rat
  td_dragged :: bool
  td_tabIds :: nat
  td_positions :: "rat list"
  td_handlers :: nat                            \<comment> \<open>which render they are from\<close>
  td_prevDelta :: "rat option"
  td_prevDragDirection :: dragDirection

datatype tabCall =
    UpdateWorkspaceTabIds "string list"
  | SetActiveTab string
  | AddTabToWorkspace nat
  | CloseTab string

record tabBar =
  tb_arrays :: "nat \<Rightarrow> string list"
  tb_nextArray :: nat
  tb_tabIds :: nat
  tb_workspaceTabIds :: nat
  tb_dragStartPositions :: "rat list"
  tb_handlers :: nat
  tb_prevDelta :: "rat option"
  tb_prevDragDirection :: dragDirection
  tb_tabsLoaded :: "string list"
  tb_newTabId :: "string option"
  tb_draggingTab :: "string option"
  tb_listening :: bool
  tb_draggingRemoved :: bool
  tb_data :: tabDrag
  tb_tabWidth :: rat
  tb_scrollable :: bool
  tb_prevAllLoaded :: bool
  tb_left :: "string \<Rightarrow> rat"                     \<comment> \<open>the translation of each tab\<close>
  tb_pendingAdds :: "nat list"
  tb_pendingSaves :: "nat list"
  tb_calls :: "tabCall list"

abbreviation tabIdsOf :: "tabBar \<Rightarrow> string list" where
  "tabIdsOf t \<equiv> tb_arrays t (tb_tabIds t)"

definition setArray :: "nat \<Rightarrow> string list \<Rightarrow> tabBar \<Rightarrow> tabBar" where
  "setArray a xs t = t\<lparr>tb_arrays := (tb_arrays t)(a := xs)\<rparr>"

text \<open>A new array of ids or of positions makes new handlers, with variables of their own.\<close>

definition newHandlers :: "tabBar \<Rightarrow> tabBar" where
  "newHandlers t = t\<lparr>tb_handlers := Suc (tb_handlers t), tb_prevDelta := None, tb_prevDragDirection := Leftwards\<rparr>"

definition setTabIds :: "nat \<Rightarrow> tabBar \<Rightarrow> tabBar" where
  "setTabIds a t =
     (if a = tb_tabIds t then t
      else newHandlers (t\<lparr>tb_tabIds := a\<rparr>))"

section \<open>Reconciliation with the workspace\<close>

text \<open>The effect on \<open>[workspace, tabIds]\<close> compares the two arrays as sets.\<close>

definition syncTabIds :: "tabBar \<Rightarrow> tabBar" where
  "syncTabIds t =
     (let currentTabIds = remdups (tabIdsOf t);
          newTabIds = remdups (tb_arrays t (tb_workspaceTabIds t));
          areEqual = (length currentTabIds = length newTabIds \<and> list_all (\<lambda>i. i \<in> set newTabIds) currentTabIds)
      in if areEqual then t else setTabIds (tb_workspaceTabIds t) t)"

definition workspaceUpdated :: "string list \<Rightarrow> tabBar \<Rightarrow> tabBar" where
  "workspaceUpdated tabids t =
     (let a = tb_nextArray t
      in syncTabIds ((setArray a tabids t)\<lparr>tb_nextArray := Suc a, tb_workspaceTabIds := a\<rparr>))"

section \<open>Sizes\<close>

text \<open>The left edges of tabs laid side by side.\<close>

fun startPositions :: "rat \<Rightarrow> rat list \<Rightarrow> rat list" where
  "startPositions cumulativeLeft [] = []"
| "startPositions cumulativeLeft (width # widths) = cumulativeLeft # startPositions (cumulativeLeft + width) widths"

definition saveTabsPosition :: "rat list \<Rightarrow> tabBar \<Rightarrow> tabBar" where
  "saveTabsPosition widths t =
     newHandlers (t\<lparr>tb_dragStartPositions := startPositions 0 widths\<rparr>)"

definition newTabSize :: "rat \<Rightarrow> nat \<Rightarrow> bool \<Rightarrow> rat \<times> bool" where
  "newTabSize spaceForTabs numberOfTabs scrollable =
     (let totalDefaultTabWidth = of_nat numberOfTabs * TAB_DEFAULT_WIDTH;
          minTotalTabWidth = of_nat numberOfTabs * TAB_MIN_WIDTH
      in if spaceForTabs < totalDefaultTabWidth \<and> spaceForTabs > minTotalTabWidth then (TAB_MIN_WIDTH, scrollable)
         else if minTotalTabWidth > spaceForTabs then (TAB_MIN_WIDTH, True)
         else if totalDefaultTabWidth > spaceForTabs then (spaceForTabs / of_nat numberOfTabs, False)
         else (TAB_DEFAULT_WIDTH, False))"

record tabBarWidths =
  tw_wrapper :: rat
  tw_windowDragLeft :: rat
  tw_addBtn :: rat
  tw_updateStatus :: "rat option"

definition spaceForTabs :: "tabBarWidths \<Rightarrow> rat" where
  "spaceForTabs w = tw_wrapper w - (tw_windowDragLeft w + DRAGGER_RIGHT_MIN_WIDTH + tw_addBtn w +
     (case tw_updateStatus w of None \<Rightarrow> 0 | Some x \<Rightarrow> x))"

text \<open>The tabs are moved to their slots.\<close>

definition slots :: "rat \<Rightarrow> string list \<Rightarrow> (string \<Rightarrow> rat) \<Rightarrow> string \<Rightarrow> rat" where
  "slots width ids left = fold (\<lambda>(i, x) f. f(x := of_nat i * width)) (List.enumerate 0 ids) left"

definition setSizeAndPosition :: "tabBarWidths \<Rightarrow> tabBar \<Rightarrow> tabBar" where
  "setSizeAndPosition ws t =
     (let (newTabWidth, newScrollable) = newTabSize (spaceForTabs ws) (length (tabIdsOf t)) (tb_scrollable t)
      in t\<lparr>tb_left := slots newTabWidth (tabIdsOf t) (tb_left t), tb_tabWidth := newTabWidth, tb_scrollable := newScrollable\<rparr>)"

text \<open>The effect that runs when all tabs are loaded.\<close>

definition allLoadedEffect :: "tabBarWidths \<Rightarrow> rat list \<Rightarrow> tabBar \<Rightarrow> tabBar" where
  "allLoadedEffect ws widths t =
     (if tabIdsOf t \<noteq> [] \<and> list_all (\<lambda>i. i \<in> set (tb_tabsLoaded t)) (tabIdsOf t)
      then (saveTabsPosition widths (setSizeAndPosition ws t))\<lparr>tb_prevAllLoaded := True\<rparr>
      else t)"

definition handleTabLoaded :: "string \<Rightarrow> tabBar \<Rightarrow> tabBar" where
  "handleTabLoaded tabId t =
     (if tabId \<in> set (tb_tabsLoaded t) then t else t\<lparr>tb_tabsLoaded := tabId # tb_tabsLoaded t\<rparr>)"

section \<open>Dragging\<close>

definition nanMinus :: "rat option \<Rightarrow> rat option \<Rightarrow> rat option" where
  "nanMinus a b = (case (a, b) of (Some x, Some y) \<Rightarrow> Some (x - y) | _ \<Rightarrow> None)"

definition nanLess :: "rat option \<Rightarrow> rat option \<Rightarrow> bool" where
  "nanLess a b \<longleftrightarrow> (case (a, b) of (Some x, Some y) \<Rightarrow> x < y | _ \<Rightarrow> False)"

definition getDragDirection :: "rat option \<Rightarrow> tabDrag \<Rightarrow> dragDirection" where
  "getDragDirection currentX d =
     (case nanMinus currentX (td_prevDelta d) of
        None \<Rightarrow> Leftwards
      | Some delta \<Rightarrow> if 0 < delta then Rightwards else if delta = 0 then td_prevDragDirection d else Leftwards)"

definition startOf :: "rat list \<Rightarrow> int \<Rightarrow> rat option" where
  "startOf = js_at"

text \<open>The last index that the loop to the right, or to the left, accepts.\<close>

definition getNewTabIndex ::
  "rat \<Rightarrow> nat \<Rightarrow> rat list \<Rightarrow> rat option \<Rightarrow> int \<Rightarrow> dragDirection \<Rightarrow> int" where
  "getNewTabIndex tabWidth numTabs positions currentX tabIndex dir =
     (if dir = Rightwards then
        fold (\<lambda>i acc. if nanLess (map_option (\<lambda>s. s + tabWidth / 2) (startOf positions i))
                                (map_option (\<lambda>x. x + tabWidth) currentX) then i else acc)
          [tabIndex + 1..int numTabs - 1] tabIndex
      else
        fold (\<lambda>i acc. if nanLess currentX (map_option (\<lambda>s. s + tabWidth - tabWidth / 2) (startOf positions i)) then i else acc)
          (rev [0..tabIndex - 1]) tabIndex)"

text \<open>What the mouse event and the elements tell the handler.\<close>

record dragGeometry =
  dg_clientX :: rat
  dg_barWidth :: rat
  dg_barLeft :: rat
  dg_scrollLeft :: rat
  dg_scrollWidth :: rat
  dg_setScrollLeft :: "rat \<Rightarrow> rat"            \<comment> \<open>what \<open>scrollLeft\<close> is after it was set\<close>
  dg_wrapperScrollWidth :: rat

definition scrollWhileDragging :: "dragGeometry \<Rightarrow> bool \<Rightarrow> rat \<Rightarrow> rat" where
  "scrollWhileDragging g scrollable offset =
     (let incrementDecrement = dg_barLeft g * (5 / 100);
          cur = dg_scrollLeft g in
      if \<not> scrollable then offset
      else if dg_clientX g \<le> dg_barLeft g then
        (let new = dg_setScrollLeft g (max 0 (cur - incrementDecrement))
         in if new \<noteq> cur then offset + (cur - new) else offset)
      else if dg_clientX g \<ge> dg_barWidth g + dg_barLeft g then
        (let new = dg_setScrollLeft g (min (dg_scrollWidth g) (cur + incrementDecrement))
         in if new \<noteq> cur then offset - (new - cur) else offset)
      else offset)"

definition constrainX :: "dragGeometry \<Rightarrow> nat \<Rightarrow> bool \<Rightarrow> rat \<Rightarrow> rat option \<Rightarrow> rat option" where
  "constrainX g numberOfTabs scrollable tabWidth currentX =
     (let totalDefaultTabWidth = of_nat numberOfTabs * TAB_DEFAULT_WIDTH;
          width = (if totalDefaultTabWidth < dg_barWidth g then totalDefaultTabWidth
                   else if scrollable then dg_wrapperScrollWidth g else dg_barWidth g);
          maxRight = width - tabWidth
      in map_option (\<lambda>x. min (max x 0) maxRight) currentX)"

text \<open>
  The dragged tab is taken out of the array, at first by its index (\<open>splice\<close> counts a negative one
  from the end) and then by its id, and put back.
\<close>

definition moveTab :: "string \<Rightarrow> int \<Rightarrow> int \<Rightarrow> bool \<Rightarrow> string list \<Rightarrow> string list" where
  "moveTab tabId tabIndex newTabIndex removed ids =
     (let tabIndex = (if tabIndex < 0 then max 0 (int (length ids) + tabIndex) else tabIndex);
          ids = (if removed then ids else js_splice_out tabIndex ids);
          cur = js_index_of ids tabId 0;
          ids = (if cur \<noteq> -1 then js_splice_out cur ids else ids)
      in js_splice_in newTabIndex [tabId] ids)"

text \<open>\<open>handleMouseMove\<close> up to the new position of the dragged tab, and the reordering that may follow.\<close>

definition followMouse :: "dragGeometry \<Rightarrow> tabBar \<Rightarrow> rat option \<times> dragDirection \<times> tabBar" where
  "followMouse g t =
     (let d = tb_data t;
          tabId = td_tabId d;
          initialOffsetX = (case td_initialOffsetX d of
              None \<Rightarrow> nanMinus (Some (dg_clientX g)) (td_tabStartX d) | Some x \<Rightarrow> x);
          currentX = nanMinus (nanMinus (Some (dg_clientX g)) initialOffsetX) (Some (td_totalScrollOffset d));
          dir = getDragDirection currentX d;
          offset = scrollWhileDragging g (tb_scrollable t) (td_totalScrollOffset d);
          d = d\<lparr>td_initialOffsetX := Some initialOffsetX, td_prevDelta := currentX, td_prevDragDirection := dir,
                td_totalScrollOffset := offset\<rparr>;
          currentX = nanMinus (nanMinus (Some (dg_clientX g)) initialOffsetX) (Some offset);
          farEnough = (case nanMinus currentX (td_tabStartX d) of None \<Rightarrow> False | Some x \<Rightarrow> 50 \<le> \<bar>x\<bar>);
          d = d\<lparr>td_dragged := td_dragged d \<or> farEnough\<rparr>;
          currentX = constrainX g (length (tb_arrays t (td_tabIds d))) (tb_scrollable t) (tb_tabWidth t) currentX;
          left = (case currentX of None \<Rightarrow> tb_left t | Some x \<Rightarrow> (tb_left t)(tabId := x))
      in (currentX, dir, t\<lparr>tb_data := d, tb_draggingTab := Some tabId, tb_left := left\<rparr>))"

definition reorderTabs :: "rat option \<Rightarrow> dragDirection \<Rightarrow> tabBar \<Rightarrow> tabBar" where
  "reorderTabs currentX dir t =
     (let d = tb_data t;
          ids = tb_arrays t (td_tabIds d);
          tabId = td_tabId d;
          newTabIndex = getNewTabIndex (tb_tabWidth t) (length ids) (td_positions d) currentX (td_tabIndex d) dir
      in if newTabIndex = td_tabIndex d then t
         else
           let ids = moveTab tabId (td_tabIndex d) newTabIndex (tb_draggingRemoved t) ids
           in (setArray (td_tabIds d) ids t)\<lparr>tb_draggingRemoved := True,
                tb_left := (slots (tb_tabWidth t) ids (tb_left t))(tabId := tb_left t tabId),
                tb_data := d\<lparr>td_tabIndex := newTabIndex\<rparr>\<rparr>)"

definition handleMouseMove :: "dragGeometry \<Rightarrow> tabBar \<Rightarrow> tabBar" where
  "handleMouseMove g t = (let (currentX, dir, t) = followMouse g t in reorderTabs currentX dir t)"

text \<open>
  The handlers that a drag installs are those of the current render; a drag that ends with the
  same handlers leaves their variables to the next one.
\<close>

definition handleDragStart :: "int \<Rightarrow> string \<Rightarrow> tabBar \<Rightarrow> tabBar" where
  "handleDragStart button tabId t =
     (if button \<noteq> 0 then t
      else
        let tabIndex = js_index_of (tabIdsOf t) tabId 0 in
        t\<lparr>tb_data := \<lparr>td_tabId = tabId, td_tabStartX = startOf (tb_dragStartPositions t) tabIndex,
             td_tabIndex = tabIndex, td_initialOffsetX = None, td_totalScrollOffset = 0, td_dragged = False,
             td_tabIds = tb_tabIds t, td_positions = tb_dragStartPositions t,
             td_handlers = tb_handlers t,
             td_prevDelta = tb_prevDelta t, td_prevDragDirection = tb_prevDragDirection t\<rparr>,
           tb_listening := True\<rparr>)"

definition handleMouseUp :: "tabBar \<Rightarrow> (js_error + unit) \<times> tabBar" where
  "handleMouseUp t =
     (let d = tb_data t;
          ids = tb_arrays t (td_tabIds d) in
      case js_at ids (td_tabIndex d) of
        None \<Rightarrow> (Inl TypeError, t)
      | Some draggingTab \<Rightarrow>
          let finalLeftPosition = of_int (td_tabIndex d) * tb_tabWidth t;
              t = t\<lparr>tb_left := (tb_left t)(draggingTab := finalLeftPosition)\<rparr>;
              t = (if td_dragged d then t\<lparr>tb_pendingSaves := tb_pendingSaves t @ [td_tabIds d]\<rparr>
                   else t\<lparr>tb_draggingTab := None\<rparr>);
              sameHandlers = (td_handlers d = tb_handlers t);
              t = (if sameHandlers then t\<lparr>tb_prevDelta := td_prevDelta d, tb_prevDragDirection := td_prevDragDirection d\<rparr> else t)
          in (Inr (), t\<lparr>tb_listening := False, tb_draggingRemoved := False\<rparr>))"

text \<open>300 ms after a drag, the ids are sent: whatever the captured array holds by then.\<close>

definition saveTimer :: "tabBar \<Rightarrow> tabBar" where
  "saveTimer t =
     (case tb_pendingSaves t of
        [] \<Rightarrow> t
      | a # rest \<Rightarrow> t\<lparr>tb_pendingSaves := rest, tb_draggingTab := None,
          tb_calls := tb_calls t @ [UpdateWorkspaceTabIds (tb_arrays t a)]\<rparr>)"

section \<open>Selecting, adding, closing\<close>

definition handleSelectTab :: "string \<Rightarrow> tabBar \<Rightarrow> tabBar" where
  "handleSelectTab tabId t =
     (if td_dragged (tb_data t) then t else t\<lparr>tb_calls := tb_calls t @ [SetActiveTab tabId]\<rparr>)"

text \<open>The name of the new tab is a T with the number of tabs and one.\<close>

definition handleAddTab :: "tabBar \<Rightarrow> tabBar" where
  "handleAddTab t =
     t\<lparr>tb_calls := tb_calls t @ [AddTabToWorkspace (length (tabIdsOf t) + 1)], tb_pendingAdds := tb_pendingAdds t @ [tb_tabIds t]\<rparr>"

definition tabAdded :: "string \<Rightarrow> tabBar \<Rightarrow> tabBar" where
  "tabAdded tabId t =
     (case tb_pendingAdds t of
        [] \<Rightarrow> t
      | a # rest \<Rightarrow>
          let b = tb_nextArray t
          in syncTabIds ((setTabIds b (setArray b (tb_arrays t a @ [tabId]) t))
               \<lparr>tb_nextArray := Suc b, tb_pendingAdds := rest, tb_newTabId := Some tabId\<rparr>))"

definition newTabTimer :: "tabBar \<Rightarrow> tabBar" where
  "newTabTimer t = t\<lparr>tb_newTabId := None\<rparr>"

definition handleCloseTab :: "string \<Rightarrow> tabBar \<Rightarrow> tabBar" where
  "handleCloseTab tabId t = t\<lparr>tb_calls := tb_calls t @ [CloseTab tabId]\<rparr>"

definition isBeforeActive :: "string \<Rightarrow> string \<Rightarrow> tabBar \<Rightarrow> bool" where
  "isBeforeActive activetabid tabId t \<longleftrightarrow>
     js_index_of (tabIdsOf t) tabId 0 = js_index_of (tabIdsOf t) activetabid 0 - 1"

section \<open>A drag moves its tab and nothing else\<close>

lemma fold_last_accepted: "fold (\<lambda>i acc. if P i then i else acc) xs a = last (a # filter P xs)"
  by (induction xs arbitrary: a) auto

lemma last_accepted_in: "last (k # filter P xs) \<in> insert k (set xs)"
  by (induction xs rule: rev_induct) auto

lemma getNewTabIndex_range:
  assumes "0 \<le> k" "k < int n"
  shows "0 \<le> getNewTabIndex w n ps x k dir \<and> getNewTabIndex w n ps x k dir < int n"
proof (cases "dir = Rightwards")
  case True
  have "getNewTabIndex w n ps x k dir \<in> insert k (set [k + 1..int n - 1])"
    unfolding getNewTabIndex_def fold_last_accepted if_P [OF True] by (rule last_accepted_in)
  then show ?thesis using assms by auto
next
  case False
  have "getNewTabIndex w n ps x k dir \<in> insert k (set (rev [0..k - 1]))"
    unfolding getNewTabIndex_def fold_last_accepted if_not_P [OF False] by (rule last_accepted_in)
  then show ?thesis using assms by auto
qed

lemma filter_neq: "x \<notin> set us \<Longrightarrow> filter (\<lambda>y. y \<noteq> x) us = us"
  by (induction us) auto

lemma distinct_split_at:
  assumes "distinct ids" "k < length ids" "ids ! k = x"
  shows "ids = take k ids @ x # drop (Suc k) ids" "x \<notin> set (take k ids)" "x \<notin> set (drop (Suc k) ids)"
    "filter (\<lambda>y. y \<noteq> x) ids = take k ids @ drop (Suc k) ids"
proof -
  show s: "ids = take k ids @ x # drop (Suc k) ids" using assms id_take_nth_drop by blast
  then have "distinct (take k ids @ x # drop (Suc k) ids)" using assms(1) by simp
  then show n: "x \<notin> set (take k ids)" "x \<notin> set (drop (Suc k) ids)" by auto
  have "filter (\<lambda>y. y \<noteq> x) (take k ids @ x # drop (Suc k) ids) = take k ids @ drop (Suc k) ids"
    by (simp add: filter_neq n)
  with s show "filter (\<lambda>y. y \<noteq> x) ids = take k ids @ drop (Suc k) ids" by simp
qed

lemma js_find_index_append:
  "x \<notin> set us \<Longrightarrow> js_find_index (\<lambda>y. y = x) (us @ x # vs) = int (length us)"
  "x \<notin> set us \<Longrightarrow> js_find_index (\<lambda>y. y = x) us = -1"
  by (induction us) (auto simp: Let_def)

lemma moveTab_eq:
  assumes "distinct ids" "0 \<le> k" "k < int (length ids)" "ids ! nat k = x"
  shows "moveTab x k k' removed ids =
    take (nat k') (filter (\<lambda>y. y \<noteq> x) ids) @ x # drop (nat k') (filter (\<lambda>y. y \<noteq> x) ids)"
proof -
  have k: "nat k < length ids" using assms by simp
  note s = distinct_split_at [OF assms(1) k assms(4)]
  have o: "js_splice_out k ids = filter (\<lambda>y. y \<noteq> x) ids" by (simp add: js_splice_out_def s(4))
  have i: "js_index_of ids x 0 = k"
    using js_find_index_append(1) [OF s(2), of "drop (Suc (nat k)) ids"] s(1) assms(2,4) k nth_mem [OF k]
    by (simp add: js_index_of_def Let_def)
  have n: "js_index_of (filter (\<lambda>y. y \<noteq> x) ids) x 0 = -1"
    by (simp add: js_index_of_def js_find_index_append(2))
  show ?thesis
    using assms(2) by (auto simp: moveTab_def Let_def i o n js_splice_in_def)
qed

text \<open>The array of the drag: the tabs without the dragged one as they were, and the dragged one at its index.\<close>

definition dragOk :: "string list \<Rightarrow> string \<Rightarrow> tabBar \<Rightarrow> bool" where
  "dragOk others x t \<longleftrightarrow>
     (let ids = tb_arrays t (td_tabIds (tb_data t)); k = td_tabIndex (tb_data t) in
      td_tabId (tb_data t) = x \<and> 0 \<le> k \<and> k < int (length ids) \<and> ids ! nat k = x \<and> distinct ids \<and>
      filter (\<lambda>y. y \<noteq> x) ids = others \<and>
      (\<forall>i < length ids. ids ! i \<noteq> x \<longrightarrow> tb_left t (ids ! i) = of_nat i * tb_tabWidth t))"

lemma followMouse_keeps:
  assumes "followMouse g t = (cx, dir, t')"
  shows "tb_arrays t' = tb_arrays t" "td_tabIds (tb_data t') = td_tabIds (tb_data t)"
    "td_tabId (tb_data t') = td_tabId (tb_data t)" "td_tabIndex (tb_data t') = td_tabIndex (tb_data t)"
    "tb_tabWidth t' = tb_tabWidth t" "tb_tabIds t' = tb_tabIds t" "y \<noteq> td_tabId (tb_data t) \<Longrightarrow> tb_left t' y = tb_left t y"
  using assms by (auto simp: followMouse_def Let_def split: option.splits)

lemma slots_at: "distinct ids \<Longrightarrow> i < length ids \<Longrightarrow> slots w ids left (ids ! i) = of_nat i * w"
proof -
  have outside: "x \<notin> set ids \<Longrightarrow> fold (\<lambda>(i, x) f. f(x := of_nat i * w)) (List.enumerate n ids) f x = f x" for n ids f x
    by (induction ids arbitrary: n f) simp_all
  have "distinct ids \<Longrightarrow> i < length ids \<Longrightarrow>
      fold (\<lambda>(i, x) f. f(x := of_nat i * w)) (List.enumerate n ids) f (ids ! i) = of_nat (n + i) * w" for n f
    by (induction ids arbitrary: n f i) (auto simp: nth_Cons outside split: nat.split)
  then show "distinct ids \<Longrightarrow> i < length ids \<Longrightarrow> ?thesis" by (simp add: slots_def)
qed

lemma dragOk_reorder:
  assumes "dragOk others x t"
  shows "dragOk others x (reorderTabs cx dir t)"
proof -
  define ids where "ids = tb_arrays t (td_tabIds (tb_data t))"
  define k where "k = td_tabIndex (tb_data t)"
  define k' where "k' = getNewTabIndex (tb_tabWidth t) (length ids) (td_positions (tb_data t)) cx k dir"
  have t: "td_tabId (tb_data t) = x" "0 \<le> k" "k < int (length ids)" "ids ! nat k = x" "distinct ids"
      "filter (\<lambda>y. y \<noteq> x) ids = others"
    using assms by (auto simp: dragOk_def Let_def ids_def k_def)
  have k': "0 \<le> k'" "k' < int (length ids)" using getNewTabIndex_range [OF t(2,3)] by (auto simp: k'_def)
  define ids' where "ids' = take (nat k') others @ x # drop (nat k') others"
  have move: "moveTab x k k' r ids = ids'" for r using moveTab_eq [OF t(5,2,3,4)] by (simp add: ids'_def t(6))
  have len: "length ids = Suc (length others)"
  proof -
    have "nat k < length ids" using t by simp
    note s = distinct_split_at [OF t(5) this t(4)]
    show ?thesis using s(4) t(2,3,6) by simp
  qed
  have ids': "length ids' = length ids" "ids' ! nat k' = x" "distinct ids'" "filter (\<lambda>y. y \<noteq> x) ids' = others"
  proof -
    have d: "distinct others" "x \<notin> set others" unfolding t(6) [symmetric] using t(5) by simp_all
    have "filter (\<lambda>y. y \<noteq> x) others = others" using d by (auto simp: filter_id_conv)
    then have "filter (\<lambda>y. y \<noteq> x) (take (nat k') others @ drop (nat k') others) = others" by simp
    then show "filter (\<lambda>y. y \<noteq> x) ids' = others" by (simp only: ids'_def filter_append) simp
    show "length ids' = length ids" "ids' ! nat k' = x" using k' len by (simp_all add: ids'_def nth_append)
    show "distinct ids'" using d
      by (auto simp: ids'_def dest: in_set_takeD in_set_dropD set_take_disj_set_drop_if_distinct [of others "nat k'" "nat k'"])
  qed
  show ?thesis
  proof (cases "k' = k")
    case True
    then have "reorderTabs cx dir t = t" by (simp add: reorderTabs_def Let_def ids_def k_def k'_def)
    with assms show ?thesis by simp
  next
    case False
    then show ?thesis
      using t k' ids' slots_at [OF ids'(3)]
      by (simp add: reorderTabs_def Let_def dragOk_def setArray_def move flip: ids_def k_def k'_def)
  qed
qed

lemma dragOk_move: "dragOk others x t \<Longrightarrow> dragOk others x (handleMouseMove g t)"
proof (cases "followMouse g t")
  case (fields cx dir t')
  assume t: "dragOk others x t"
  note keeps = followMouse_keeps [OF fields]
  have "td_tabId (tb_data t) = x" using t by (simp add: dragOk_def Let_def)
  with t have "dragOk others x t'" by (simp add: dragOk_def Let_def keeps)
  then show ?thesis by (simp add: handleMouseMove_def fields dragOk_reorder)
qed

lemma dragOk_moves: "dragOk others x t \<Longrightarrow> dragOk others x (fold handleMouseMove gs t)"
  by (induction gs arbitrary: t) (simp_all add: dragOk_move)

lemma reorder_keeps: "tb_tabIds (reorderTabs cx dir t) = tb_tabIds t"
  "td_tabIds (tb_data (reorderTabs cx dir t)) = td_tabIds (tb_data t)" "tb_tabWidth (reorderTabs cx dir t) = tb_tabWidth t"
  by (simp_all add: reorderTabs_def Let_def setArray_def)

lemma move_keeps: "tb_tabIds (handleMouseMove g t) = tb_tabIds t"
  "td_tabIds (tb_data (handleMouseMove g t)) = td_tabIds (tb_data t)" "tb_tabWidth (handleMouseMove g t) = tb_tabWidth t"
  using followMouse_keeps by (cases "followMouse g t"; simp add: handleMouseMove_def reorder_keeps; blast)+

lemma moves_keep: "tb_tabIds (fold handleMouseMove gs t) = tb_tabIds t"
  "td_tabIds (tb_data (fold handleMouseMove gs t)) = td_tabIds (tb_data t)"
  "tb_tabWidth (fold handleMouseMove gs t) = tb_tabWidth t"
  by (induction gs arbitrary: t) (simp_all add: move_keeps)

lemma drag_result:
  assumes "distinct (tabIdsOf t)" "x \<in> set (tabIdsOf t)"
    and "\<forall>i < length (tabIdsOf t). tb_left t (tabIdsOf t ! i) = of_nat i * tb_tabWidth t"
    and "t1 = fold handleMouseMove gs (handleDragStart 0 x t)"
  obtains t2 where "handleMouseUp t1 = (Inr (), t2)"
    "distinct (tabIdsOf t2)" "filter (\<lambda>y. y \<noteq> x) (tabIdsOf t2) = filter (\<lambda>y. y \<noteq> x) (tabIdsOf t)"
    "set (tabIdsOf t2) = set (tabIdsOf t)"
    "\<forall>i < length (tabIdsOf t2). tb_left t2 (tabIdsOf t2 ! i) = of_nat i * tb_tabWidth t2"
    "td_dragged (tb_data t1) \<Longrightarrow> tb_pendingSaves t1 = [] \<Longrightarrow>
       last (tb_calls (saveTimer t2)) = UpdateWorkspaceTabIds (tabIdsOf t2)"
proof -
  obtain us vs where ids: "tabIdsOf t = us @ x # vs" "x \<notin> set us"
    using assms(2) split_list_first by metis
  have idx: "js_index_of (tabIdsOf t) x 0 = int (length us)"
    using js_find_index_append(1) [OF ids(2), of vs] by (simp add: ids(1) js_index_of_def Let_def)
  have "dragOk (filter (\<lambda>y. y \<noteq> x) (tabIdsOf t)) x (handleDragStart 0 x t)"
    using assms(1,3) by (simp add: dragOk_def handleDragStart_def Let_def idx) (simp add: ids(1))
  then have ok: "dragOk (filter (\<lambda>y. y \<noteq> x) (tabIdsOf t)) x t1"
    using assms(4) dragOk_moves by blast
  have same: "td_tabIds (tb_data t1) = tb_tabIds t1"
    by (simp add: assms(4) moves_keep handleDragStart_def Let_def)
  define k where "k = td_tabIndex (tb_data t1)"
  have t1: "0 \<le> k" "nat k < length (tabIdsOf t1)" "tabIdsOf t1 ! nat k = x" "distinct (tabIdsOf t1)"
      "filter (\<lambda>y. y \<noteq> x) (tabIdsOf t1) = filter (\<lambda>y. y \<noteq> x) (tabIdsOf t)"
      "\<forall>i < length (tabIdsOf t1). tabIdsOf t1 ! i \<noteq> x \<longrightarrow> tb_left t1 (tabIdsOf t1 ! i) = of_nat i * tb_tabWidth t1"
    using ok unfolding dragOk_def Let_def same k_def by (simp_all add: nat_less_iff)
  define t2 where "t2 = snd (handleMouseUp t1)"
  have at: "js_at (tabIdsOf t1) k = Some x" using t1 by (simp add: js_at_Some)
  have up: "handleMouseUp t1 = (Inr (), t2)" "tb_arrays t2 = tb_arrays t1" "tb_tabIds t2 = tb_tabIds t1"
      "tb_left t2 = (tb_left t1)(x := of_int k * tb_tabWidth t1)" "tb_tabWidth t2 = tb_tabWidth t1"
      "td_dragged (tb_data t1) \<Longrightarrow> tb_pendingSaves t2 = tb_pendingSaves t1 @ [tb_tabIds t1]"
    using at by (simp_all add: t2_def handleMouseUp_def Let_def same flip: k_def)
  show thesis
  proof (rule that [OF up(1)])
    show "distinct (tabIdsOf t2)" "filter (\<lambda>y. y \<noteq> x) (tabIdsOf t2) = filter (\<lambda>y. y \<noteq> x) (tabIdsOf t)"
      using t1 by (simp_all add: up)
    have "x \<in> set (tabIdsOf t1)" using t1(2,3) nth_mem by metis
    then have "set (tabIdsOf t1) = insert x (set (filter (\<lambda>y. y \<noteq> x) (tabIdsOf t)))" unfolding t1(5) [symmetric] by auto
    then show "set (tabIdsOf t2) = set (tabIdsOf t)" using assms(2) by (auto simp: up)
    show "\<forall>i < length (tabIdsOf t2). tb_left t2 (tabIdsOf t2 ! i) = of_nat i * tb_tabWidth t2"
    proof (intro allI impI)
      fix i
      assume i: "i < length (tabIdsOf t2)"
      have "i = nat k" if "tabIdsOf t1 ! i = x"
        using that t1(2-4) i nth_eq_iff_index_eq [of "tabIdsOf t1" i "nat k"] by (simp add: up)
      then show "tb_left t2 (tabIdsOf t2 ! i) = of_nat i * tb_tabWidth t2"
        using t1(1,6) i by (auto simp: up)
    qed
    show "last (tb_calls (saveTimer t2)) = UpdateWorkspaceTabIds (tabIdsOf t2)"
      if "td_dragged (tb_data t1)" "tb_pendingSaves t1 = []"
      using up(6) [OF that(1)] that(2) by (simp add: saveTimer_def up)
  qed
qed

text \<open>
  C30: dragging a tab moves that tab and nothing else: however the mouse moves, while the tab is
  dragged the array holds the same tabs, the others in their order; when the button is released
  every tab lies in the slot of its index, and if the tab was really dragged, what is sent to the
  backend is the new order.
\<close>

theorem drag_moves_one_tab:
  assumes "distinct (tabIdsOf t)" "x \<in> set (tabIdsOf t)"
    and "\<forall>i < length (tabIdsOf t). tb_left t (tabIdsOf t ! i) = of_nat i * tb_tabWidth t"
    and "t1 = fold handleMouseMove gs (handleDragStart 0 x t)"
  shows "\<exists>t2. handleMouseUp t1 = (Inr (), t2) \<and> distinct (tabIdsOf t2) \<and> set (tabIdsOf t2) = set (tabIdsOf t) \<and>
    filter (\<lambda>y. y \<noteq> x) (tabIdsOf t2) = filter (\<lambda>y. y \<noteq> x) (tabIdsOf t) \<and>
    (\<forall>i < length (tabIdsOf t2). tb_left t2 (tabIdsOf t2 ! i) = of_nat i * tb_tabWidth t2) \<and>
    (td_dragged (tb_data t1) \<and> tb_pendingSaves t1 = [] \<longrightarrow>
       last (tb_calls (saveTimer t2)) = UpdateWorkspaceTabIds (tabIdsOf t2))"
  by (rule drag_result [OF assms]) blast

section \<open>Where a dragged tab goes\<close>

text \<open>With tabs of one width side by side, the acceptance of an index is a comparison with its slot.\<close>

definition evenPositions :: "rat \<Rightarrow> nat \<Rightarrow> rat list" where
  "evenPositions w n = startPositions 0 (replicate n w)"

lemma startPositions_replicate: "i < n \<Longrightarrow> startPositions c (replicate n w) ! i = c + of_nat i * w"
  by (induction n arbitrary: c i) (auto simp: nth_Cons algebra_simps split: nat.split)

lemma length_startPositions [simp]: "length (startPositions c ws) = length ws"
  by (induction ws arbitrary: c) simp_all

lemma startOf_even: "0 \<le> i \<Longrightarrow> i < int n \<Longrightarrow> startOf (evenPositions w n) i = Some (of_int i * w)"
  by (simp add: startOf_def js_at_def evenPositions_def startPositions_replicate nat_less_iff)

lemma sorted_le_last: "sorted ys \<Longrightarrow> i \<in> set ys \<Longrightarrow> (i::int) \<le> last ys"
  by (induction ys) auto

lemma rev_sorted_last_le: "sorted_wrt (\<ge>) ys \<Longrightarrow> i \<in> set ys \<Longrightarrow> last ys \<le> (i::int)"
  by (induction ys) auto

lemma last_accepted_upto:
  assumes "r = last (k # filter P [k + 1..m])"
  shows "r = k \<or> P r" "k \<le> r" "k \<le> m \<Longrightarrow> r \<le> m" "r < i \<Longrightarrow> i \<le> m \<Longrightarrow> \<not> P i"
proof -
  have r: "r = k \<or> r \<in> set (filter P [k + 1..m])" using assms last_accepted_in [of k "\<lambda>_. True" "filter P [k + 1..m]"] by simp
  then show "r = k \<or> P r" "k \<le> r" "k \<le> m \<Longrightarrow> r \<le> m" by auto
  show "\<not> P i" if "r < i" "i \<le> m"
  proof
    assume "P i"
    then have i: "i \<in> set (filter P [k + 1..m])" using that \<open>k \<le> r\<close> by auto
    then have "i \<le> last (filter P [k + 1..m])" by (rule sorted_le_last [rotated]) (simp add: sorted_wrt_filter)
    moreover have "filter P [k + 1..m] \<noteq> []" using i by (metis empty_iff list.set(1))
    ultimately show False using that(1) assms by simp
  qed
qed

lemma last_accepted_downto:
  assumes "r = last (k # filter P (rev [0..k - 1]))" "0 \<le> k"
  shows "r = k \<or> P r" "r \<le> k" "0 \<le> r" "i < r \<Longrightarrow> 0 \<le> i \<Longrightarrow> \<not> P i"
proof -
  have r: "r = k \<or> r \<in> set (filter P (rev [0..k - 1]))"
    using assms last_accepted_in [of k "\<lambda>_. True" "filter P (rev [0..k - 1])"] by simp
  then show "r = k \<or> P r" "r \<le> k" "0 \<le> r" using assms(2) by auto
  show "\<not> P i" if "i < r" "0 \<le> i"
  proof
    assume "P i"
    then have i: "i \<in> set (filter P (rev [0..k - 1]))" using that \<open>r \<le> k\<close> by auto
    have "sorted_wrt (\<ge>) (filter P (rev [0..k - 1]))"
      by (rule sorted_wrt_filter) (simp add: sorted_wrt_rev)
    then have "last (filter P (rev [0..k - 1])) \<le> i" using i by (rule rev_sorted_last_le)
    moreover have "filter P (rev [0..k - 1]) \<noteq> []" using i by (metis empty_iff list.set(1))
    ultimately show False using that(1) assms(1) by simp
  qed
qed

text \<open>
  A dragged tab goes to the slot nearest to it: with tabs of one width side by side, moving
  right from its slot or left from it, the new index is one whose slot is at most half a tab away
  from where the tab is held.
\<close>

theorem dragged_tab_takes_nearest_slot:
  assumes "0 < w" "0 \<le> k" "k < int n" "0 \<le> x" "x \<le> of_int (int n - 1) * w"
    and "if dir = Rightwards then of_int k * w - w / 2 \<le> x else x \<le> of_int k * w + w / 2"
  shows "\<bar>x - of_int (getNewTabIndex w n (evenPositions w n) (Some x) k dir) * w\<bar> \<le> w / 2"
proof (cases "dir = Rightwards")
  case True
  define P where "P = (\<lambda>i. nanLess (map_option (\<lambda>s. s + w / 2) (startOf (evenPositions w n) i)) (map_option (\<lambda>x. x + w) (Some x)))"
  define r where "r = getNewTabIndex w n (evenPositions w n) (Some x) k dir"
  have "r = last (k # filter P [k + 1..int n - 1])"
    by (simp only: r_def getNewTabIndex_def fold_last_accepted if_P [OF True] P_def)
  note r = last_accepted_upto [OF this]
  have P: "P i \<longleftrightarrow> of_int i * w - w / 2 < x" if "0 \<le> i" "i < int n" for i
    using startOf_even [OF that, of w] by (auto simp: P_def nanLess_def)
  have "r \<le> int n - 1" using r(3) assms(3) by simp
  have lower: "of_int r * w - w / 2 \<le> x"
    using r(1,2) P [of r] \<open>r \<le> int n - 1\<close> assms(2,6) True by auto
  have "x \<le> of_int r * w + w / 2"
  proof (cases "r = int n - 1")
    case True
    then show ?thesis using assms(1,5) by simp
  next
    case False
    then have "\<not> P (r + 1)" using \<open>r \<le> int n - 1\<close> by (intro r(4)) auto
    then show ?thesis using P [of "r + 1"] r(2) assms(2) False \<open>r \<le> int n - 1\<close> by (simp add: algebra_simps)
  qed
  with lower show ?thesis unfolding abs_le_iff r_def [symmetric] by linarith
next
  case False
  define P where "P = (\<lambda>i. nanLess (Some x) (map_option (\<lambda>s. s + w - w / 2) (startOf (evenPositions w n) i)))"
  define r where "r = getNewTabIndex w n (evenPositions w n) (Some x) k dir"
  have "r = last (k # filter P (rev [0..k - 1]))"
    by (simp only: r_def getNewTabIndex_def fold_last_accepted if_not_P [OF False] P_def)
  note r = last_accepted_downto [OF this assms(2)]
  have P: "P i \<longleftrightarrow> x < of_int i * w + w / 2" if "0 \<le> i" "i < int n" for i
    using startOf_even [OF that, of w] by (auto simp: P_def nanLess_def)
  have upper: "x \<le> of_int r * w + w / 2"
    using r(1-3) P [of r] assms(3,6) False by auto
  have "of_int r * w - w / 2 \<le> x"
  proof (cases "r = 0")
    case True
    then show ?thesis using assms(1,4) by simp
  next
    case False
    then have "\<not> P (r - 1)" using r(3) by (intro r(4)) auto
    then show ?thesis using P [of "r - 1"] r(2,3) assms(3) False by (simp add: algebra_simps)
  qed
  with upper show ?thesis unfolding abs_le_iff r_def [symmetric] by linarith
qed

section \<open>Widths\<close>

text \<open>
  The tabs are as wide as by default if all of them have room for that, and of the minimum
  width otherwise, never anything between; if not even that has room the bar scrolls, and once it
  does it goes on scrolling until there is room for the default width, or exactly for the minimum.
\<close>

theorem tab_width_is_default_or_minimum:
  assumes "0 < n"
  shows "fst (newTabSize space n scrollable) =
      (if of_nat n * TAB_DEFAULT_WIDTH \<le> space then TAB_DEFAULT_WIDTH else TAB_MIN_WIDTH) \<and>
    (snd (newTabSize space n scrollable) \<longleftrightarrow>
      space < of_nat n * TAB_MIN_WIDTH \<or>
      scrollable \<and> of_nat n * TAB_MIN_WIDTH < space \<and> space < of_nat n * TAB_DEFAULT_WIDTH)"
  using assms by (auto simp: newTabSize_def Let_def TAB_DEFAULT_WIDTH_def TAB_MIN_WIDTH_def)

section \<open>The workspace\<close>

text \<open>
  A new order of the same tabs, as another window or the backend may bring it, is ignored:
  the bar keeps the order it has.
\<close>

theorem reordered_workspace_is_ignored:
  assumes "set tabids = set (tabIdsOf t)" "tb_tabIds t < tb_nextArray t"
  shows "tabIdsOf (workspaceUpdated tabids t) = tabIdsOf t"
proof -
  have "length (remdups tabids) = length (remdups (tabIdsOf t))"
    using assms(1) by (metis List.card_set)
  then show ?thesis
    using assms by (auto simp: workspaceUpdated_def syncTabIds_def setArray_def setTabIds_def Let_def list_all_iff)
qed

section \<open>Witnesses\<close>

definition demoBar :: tabBar where
  "demoBar =
     \<lparr>tb_arrays = (\<lambda>_. [])(0 := [''a'', ''b'', ''c'']), tb_nextArray = 1, tb_tabIds = 0, tb_workspaceTabIds = 0,
      tb_dragStartPositions = [0, 130, 260], tb_handlers = 0, tb_prevDelta = None, tb_prevDragDirection = Leftwards,
      tb_tabsLoaded = [''a'', ''b'', ''c''], tb_newTabId = None, tb_draggingTab = None, tb_listening = False,
      tb_draggingRemoved = False,
      tb_data = \<lparr>td_tabId = [], td_tabStartX = Some 0, td_tabIndex = 0, td_initialOffsetX = None,
        td_totalScrollOffset = 0, td_dragged = False, td_tabIds = 0, td_positions = [], td_handlers = 0,
        td_prevDelta = None, td_prevDragDirection = Leftwards\<rparr>,
      tb_tabWidth = 130, tb_scrollable = False, tb_prevAllLoaded = True,
      tb_left = slots 130 [''a'', ''b'', ''c''] (\<lambda>_. 0), tb_pendingAdds = [], tb_pendingSaves = [], tb_calls = []\<rparr>"

definition mouseAt :: "rat \<Rightarrow> dragGeometry" where
  "mouseAt x = \<lparr>dg_clientX = x, dg_barWidth = 800, dg_barLeft = 0, dg_scrollLeft = 0, dg_scrollWidth = 800,
     dg_setScrollLeft = id, dg_wrapperScrollWidth = 800\<rparr>"

theorem drag_moves_one_tab_witness:
  "\<exists>t2. handleMouseUp (fold handleMouseMove [mouseAt 20, mouseAt 60, mouseAt 250] (handleDragStart 0 ''a'' demoBar)) = (Inr (), t2) \<and>
     filter (\<lambda>y. y \<noteq> ''a'') (tabIdsOf t2) = [''b'', ''c'']"
  using drag_moves_one_tab [of demoBar "''a''" _ "[mouseAt 20, mouseAt 60, mouseAt 250]", OF _ _ _ refl]
  by (auto simp: demoBar_def slots_def less_Suc_eq numeral_3_eq_3)

theorem dragged_tab_takes_nearest_slot_witness:
  "\<bar>200 - of_int (getNewTabIndex 130 3 (evenPositions 130 3) (Some 200) 0 Rightwards) * 130\<bar> \<le> (65::rat)"
  using dragged_tab_takes_nearest_slot [of 130 0 3 200 Rightwards] by simp

theorem tab_width_is_default_or_minimum_witness:
  "fst (newTabSize 350 3 False) = TAB_MIN_WIDTH"
  using tab_width_is_default_or_minimum [of 3 350 False] by (simp add: TAB_DEFAULT_WIDTH_def)

theorem reordered_workspace_is_ignored_witness:
  "tabIdsOf (workspaceUpdated [''c'', ''a'', ''b''] demoBar) = [''a'', ''b'', ''c'']"
  using reordered_workspace_is_ignored [of "[''c'', ''a'', ''b'']" demoBar] by (auto simp: demoBar_def)

end
