(* ===== verification/Dialogs.thy ===== *)
theory Dialogs
  imports UiModels KeyUtil
begin

text \<open>
  Small dialogs: the request of input (app/modals/userinputmodal.tsx) on the stack of modals
  (modalsrenderer.tsx), the welcome dialog (tos.tsx), where the type-ahead modal is put
  (typeaheadmodal.tsx), the editable label of a tab with its menu (app/tab/tab.tsx), and the banner
  of the updater (app/tab/updatebanner.tsx).
\<close>

section \<open>Requests of input\<close>

record inputRequest =
  ir_requestid :: string
  ir_responsetype :: string
  ir_timeoutms :: nat
  ir_title :: string
  ir_publictext :: bool

datatype inputResponse =
    RespCancel string
  | RespText string string bool
  | RespConfirm string bool

record inputDialog =
  id_request :: inputRequest
  id_text :: string
  id_checkbox :: bool
  id_countdown :: int

text \<open>The stack of modals, with the dialog of those that ask for input, and the responses that were sent.\<close>

record dialogs =
  dg_modals :: "inputDialog modal list"
  dg_sent :: "inputResponse list"

definition newInputDialog :: "inputRequest \<Rightarrow> inputDialog" where
  "newInputDialog r = \<lparr>id_request = r, id_text = [], id_checkbox = False, id_countdown = int (ir_timeoutms r div 1000)\<rparr>"

text \<open>A response is sent and the top modal is taken off the stack.\<close>

definition respond :: "inputResponse \<Rightarrow> dialogs \<Rightarrow> dialogs" where
  "respond resp d = d\<lparr>dg_sent := dg_sent d @ [resp], dg_modals := fst (popModal False (dg_modals d))\<rparr>"

definition handleSendCancel :: "inputDialog \<Rightarrow> dialogs \<Rightarrow> dialogs" where
  "handleSendCancel i d = respond (RespCancel (ir_requestid (id_request i))) d"

definition handleSendText :: "inputDialog \<Rightarrow> dialogs \<Rightarrow> dialogs" where
  "handleSendText i d = respond (RespText (ir_requestid (id_request i)) (id_text i) (id_checkbox i)) d"

definition handleSendConfirm :: "inputDialog \<Rightarrow> dialogs \<Rightarrow> dialogs" where
  "handleSendConfirm i d = respond (RespConfirm (ir_requestid (id_request i)) (id_checkbox i)) d"

definition handleSubmit :: "inputDialog \<Rightarrow> dialogs \<Rightarrow> dialogs" where
  "handleSubmit i d =
     (if ir_responsetype (id_request i) = ''text'' then handleSendText i d
      else if ir_responsetype (id_request i) = ''confirm'' then handleSendConfirm i d
      else d)"

definition inputKeyDown :: "waveKeyboardEvent \<Rightarrow> inputDialog \<Rightarrow> dialogs \<Rightarrow> bool \<times> dialogs" where
  "inputKeyDown e i d =
     (if checkKeyPressed e ''Escape'' then (False, handleSendCancel i d)
      else if checkKeyPressed e ''Enter'' then (True, handleSubmit i d)
      else (False, d))"

definition inputBoxType :: "inputRequest \<Rightarrow> string option" where
  "inputBoxType r = (if ir_responsetype r = ''confirm'' then None else Some (if ir_publictext r then ''text'' else ''password''))"

text \<open>The timer of a dialog: every second, or, when the time is over, after 300 milliseconds.\<close>

definition countdownFires :: "nat \<Rightarrow> dialogs \<Rightarrow> dialogs" where
  "countdownFires k d =
     (if k < length (dg_modals d) then
        (case md_props (dg_modals d ! k) of
           None \<Rightarrow> d
         | Some i \<Rightarrow>
             if id_countdown i \<le> 0 then handleSendCancel i d
             else d\<lparr>dg_modals := (dg_modals d)[k := (dg_modals d ! k)\<lparr>md_props := Some (i\<lparr>id_countdown := id_countdown i - 1\<rparr>)\<rparr>]\<rparr>)
      else d)"

text \<open>Which modals are shown: those with a component, and the welcome dialog.\<close>

definition shownModals :: "(string \<Rightarrow> bool) \<Rightarrow> bool \<Rightarrow> 'p modal list \<Rightarrow> string list" where
  "shownModals registered tosOpen modals =
     map md_displayName (filter (\<lambda>m. registered (md_displayName m)) modals) @ (if tosOpen then [''TosModal''] else [])"

definition modalOpenAtom :: "(string \<Rightarrow> bool) \<Rightarrow> bool \<Rightarrow> 'p modal list \<Rightarrow> bool" where
  "modalOpenAtom registered tosOpen modals \<longleftrightarrow> 0 < length (shownModals registered tosOpen modals)"

section \<open>The welcome dialog\<close>

record tosState =
  to_open :: bool
  to_page :: nat
  to_telemetry :: bool
  to_agreedCalls :: nat

text \<open>The renderer opens the dialog for a client that has not agreed.\<close>

definition tosRendered :: "bool \<Rightarrow> tosState \<Rightarrow> tosState" where
  "tosRendered tosagreed t = (if \<not> tosagreed then t\<lparr>to_open := True\<rparr> else t)"

definition tosMounted :: "bool \<Rightarrow> tosState \<Rightarrow> tosState" where
  "tosMounted tosagreed t = (if tosagreed then t\<lparr>to_page := 2\<rparr> else t)"

definition tosUnmounted :: "tosState \<Rightarrow> tosState" where
  "tosUnmounted t = t\<lparr>to_page := 1\<rparr>"

definition acceptTos :: "bool \<Rightarrow> tosState \<Rightarrow> tosState" where
  "acceptTos tosagreed t = (if \<not> tosagreed then t\<lparr>to_agreedCalls := Suc (to_agreedCalls t)\<rparr> else t)\<lparr>to_page := 2\<rparr>"

definition setTelemetry :: "bool \<Rightarrow> bool \<Rightarrow> tosState \<Rightarrow> tosState" where
  "setTelemetry value succeeds t = (if succeeds then t\<lparr>to_telemetry := value\<rparr> else t)"

definition handleGetStarted :: "tosState \<Rightarrow> tosState" where
  "handleGetStarted t = t\<lparr>to_open := False\<rparr>"

definition tosModalHeight :: "rat \<Rightarrow> rat \<Rightarrow> rat option" where
  "tosModalHeight windowHeight modalHeight =
     (let maxHeight = windowHeight * (9 / 10) in if maxHeight < modalHeight then Some maxHeight else None)"

section \<open>Placing the type-ahead modal\<close>

text \<open>The width and the left edge of the modal in its block, and the heights of it and of its suggestions.\<close>

definition typeAheadPlace :: "rat \<Rightarrow> rat \<Rightarrow> rat \<Rightarrow> rat \<times> rat" where
  "typeAheadPlace blockLeft blockWidth anchorLeft =
     (let minGap = 20;
          availableWidth = blockWidth - minGap * 2;
          modalWidth = (if 300 > availableWidth then availableWidth else 300);
          leftPosition = anchorLeft - blockLeft;
          modalRightEdge = leftPosition + modalWidth;
          blockRightEdge = blockWidth - (minGap - 4);
          leftPosition = (if modalRightEdge > blockRightEdge then leftPosition - (modalRightEdge - blockRightEdge) else leftPosition);
          leftPosition = (if leftPosition < minGap then minGap else leftPosition)
      in (modalWidth, leftPosition))"

definition typeAheadHeights :: "rat \<Rightarrow> rat \<Rightarrow> rat \<Rightarrow> rat \<Rightarrow> rat list \<Rightarrow> rat \<Rightarrow> rat \<times> rat" where
  "typeAheadHeights blockHeight modalPadding modalBorder inputHeight itemHeights marginTop =
     (let suggestionsTotalHeight = sum_list itemHeights;
          totalHeight = modalPadding + modalBorder + inputHeight + suggestionsTotalHeight + marginTop;
          maxHeight = blockHeight * (8 / 10);
          computedHeight = (if totalHeight > maxHeight then maxHeight else totalHeight)
      in (computedHeight, computedHeight - inputHeight - modalPadding - modalBorder - marginTop))"

section \<open>The label of a tab\<close>

text \<open>The text in the label, as a list of glyphs, and the names that were sent to the backend.\<close>

record tabLabel =
  tl_text :: string
  tl_originalName :: string
  tl_editable :: bool
  tl_updates :: "string list"

definition tabDataChanged :: "string option \<Rightarrow> tabLabel \<Rightarrow> tabLabel" where
  "tabDataChanged name t = (if isBlank name then t else t\<lparr>tl_originalName := the name\<rparr>)"

definition handleDoubleClick :: "tabLabel \<Rightarrow> tabLabel" where
  "handleDoubleClick t = t\<lparr>tl_editable := True\<rparr>"

definition handleBlur :: "tabLabel \<Rightarrow> tabLabel" where
  "handleBlur t =
     (let newText = js_trim (tl_text t);
          newText = (if newText = [] then tl_originalName t else newText)
      in t\<lparr>tl_text := newText, tl_editable := False, tl_updates := tl_updates t @ [newText]\<rparr>)"

text \<open>
  A key in the label: whether its default action, which edits the text, is prevented, and the label
  after the handler. Enter and Escape end the editing, which runs the handler of \<open>blur\<close>.
\<close>

record labelKey =
  lk_key :: string
  lk_metaOrCtrl :: bool

definition labelKeyDown :: "labelKey \<Rightarrow> tabLabel \<Rightarrow> bool \<times> tabLabel" where
  "labelKeyDown k t =
     (if lk_metaOrCtrl k \<and> lk_key k = ''a'' then (True, t)
      else if lk_key k = ''Enter'' then
        (True, handleBlur (if js_trim (tl_text t) = [] then t\<lparr>tl_text := tl_originalName t\<rparr> else t))
      else if lk_key k = ''Escape'' then (True, handleBlur (t\<lparr>tl_text := tl_originalName t\<rparr>))
      else if 10 \<le> length (tl_text t) \<and> lk_key k \<notin> {''Backspace'', ''Delete'', ''ArrowLeft'', ''ArrowRight''} then (True, t)
      else (False, t))"

text \<open>The edit of a key that is not prevented: a character is put in at the caret, or one is deleted.\<close>

definition labelKeyTyped :: "nat \<Rightarrow> labelKey \<Rightarrow> tabLabel \<Rightarrow> tabLabel" where
  "labelKeyTyped caret k t =
     (let (prevented, t) = labelKeyDown k t
      in if prevented then t
         else if length (lk_key k) = 1 \<and> \<not> lk_metaOrCtrl k then
           t\<lparr>tl_text := take caret (tl_text t) @ lk_key k @ drop caret (tl_text t)\<rparr>
         else if lk_key k = ''Backspace'' then t\<lparr>tl_text := take (caret - 1) (tl_text t) @ drop caret (tl_text t)\<rparr>
         else if lk_key k = ''Delete'' then t\<lparr>tl_text := take caret (tl_text t) @ drop (Suc caret) (tl_text t)\<rparr>
         else t)"

record bgPreset =
  bp_key :: string
  bp_order :: "rat option"
  bp_displayName :: "string option"

text \<open>The presets of backgrounds in the menu of a tab, in their order, with the label and the key.\<close>

definition bgPresetMenu :: "bgPreset list \<Rightarrow> (string \<times> string) list" where
  "bgPresetMenu presets =
     map (\<lambda>p. (case bp_displayName p of None \<Rightarrow> bp_key p | Some n \<Rightarrow> n, bp_key p))
       (sort_key (\<lambda>p. case bp_order p of None \<Rightarrow> 0 | Some r \<Rightarrow> r)
         (filter (\<lambda>p. js_is_prefix ''bg@'' (bp_key p)) presets))"

definition tabMenu :: "bgPreset list \<Rightarrow> string list" where
  "tabMenu presets =
     [''Copy TabId'', ''separator''] @ (if bgPresetMenu presets \<noteq> [] then [''Backgrounds'', ''separator''] else []) @ [''Close Tab'']"

section \<open>The banner of the updater\<close>

record updateBanner =
  ub_message :: "string option"
  ub_timer :: bool

definition updateMessage :: "string \<Rightarrow> string option" where
  "updateMessage status =
     (if status = ''ready'' then Some ''Update Available''
      else if status = ''downloading'' then Some ''Downloading Update''
      else if status = ''installing'' then Some ''Installing Update''
      else if status = ''error'' then Some ''Updater Error: Try Checking Again''
      else None)"

definition bannerStatusChanged :: "string \<Rightarrow> updateBanner \<Rightarrow> updateBanner" where
  "bannerStatusChanged status b = \<lparr>ub_message = updateMessage status, ub_timer = (status = ''error'')\<rparr>"

definition bannerTimeout :: "updateBanner \<Rightarrow> updateBanner" where
  "bannerTimeout b = (if ub_timer b then \<lparr>ub_message = None, ub_timer = False\<rparr> else b)"

text \<open>The text of the button, its title and whether it can be clicked.\<close>

definition bannerButton :: "string \<Rightarrow> updateBanner \<Rightarrow> (string \<times> string \<times> bool) option" where
  "bannerButton status b =
     (case ub_message b of
        None \<Rightarrow> None
      | Some m \<Rightarrow> Some (m, if status = ''ready'' then ''Click to Install Update'' else m, status = ''ready''))"

section \<open>Properties\<close>

text \<open>
  The type-ahead modal stays inside its block: in a block at least 40 pixels wide, wherever the
  anchor is, it begins at least 20 pixels from the left edge and ends at least 16 from the right one.
\<close>

theorem type_ahead_inside_block:
  assumes "typeAheadPlace blockLeft blockWidth anchorLeft = (w, l)" "40 \<le> blockWidth"
  shows "0 \<le> w \<and> w \<le> 300 \<and> 20 \<le> l \<and> l + w \<le> blockWidth - 16"
  using assms by (auto simp: typeAheadPlace_def Let_def split: if_splits)

theorem type_ahead_inside_block_witness:
  "typeAheadPlace 100 400 450 = (300, 84) \<and> (0 \<le> (300 :: rat) \<and> (300 :: rat) \<le> 300 \<and> 20 \<le> (84 :: rat) \<and> 84 + 300 \<le> (400 :: rat) - 16)"
proof -
  have a: "typeAheadPlace 100 400 450 = (300, 84)" by (simp add: typeAheadPlace_def)
  with type_ahead_inside_block [OF a] show ?thesis by simp
qed

text \<open>The modal is at most four fifths of the block high, and so are the input and the suggestions within it.\<close>

theorem type_ahead_height:
  "fst (typeAheadHeights h p b i items m) \<le> h * (8 / 10) \<and>
   snd (typeAheadHeights h p b i items m) \<le> sum_list items"
  by (auto simp: typeAheadHeights_def Let_def)

lemma js_trim_length: "length (js_trim s) \<le> length s"
  unfolding js_trim_def by (simp add: le_trans [OF length_dropWhile_le])

definition labelOk :: "nat \<Rightarrow> tabLabel \<Rightarrow> bool" where
  "labelOk n t \<longleftrightarrow> length (tl_text t) \<le> n \<and> length (tl_originalName t) \<le> n \<and> tl_originalName t \<noteq> [] \<and> [] \<notin> set (tl_updates t)"

lemma handleBlur_ok: "labelOk n t \<Longrightarrow> labelOk n (handleBlur t)"
  using js_trim_length [of "tl_text t"] by (auto simp: labelOk_def handleBlur_def Let_def)

lemma labelKeyTyped_ok:
  assumes "labelOk n t" "10 \<le> n"
  shows "labelOk n (labelKeyTyped caret k t)"
proof -
  have "labelOk n (t\<lparr>tl_text := tl_originalName t\<rparr>)" using assms(1) by (simp add: labelOk_def)
  then have "labelOk n (snd (labelKeyDown k t))"
    using assms by (auto simp: labelKeyDown_def handleBlur_ok)
  then show ?thesis
    using assms by (auto simp: labelKeyTyped_def labelKeyDown_def labelOk_def split: if_splits)
qed

text \<open>
  A tab never loses its name and typing does not make it longer than ten glyphs: over any
  sequence of keys in its label, the text has at most ten glyphs, unless it was longer before, and
  every name that is sent to the backend is not empty, provided that the tab had one.
\<close>

theorem tab_keeps_a_short_name:
  assumes "tl_originalName t \<noteq> []" "tl_updates t = []"
    and "t' = fold (\<lambda>(caret, k). labelKeyTyped caret k) keys t"
  shows "length (tl_text t') \<le> max 10 (max (length (tl_text t)) (length (tl_originalName t))) \<and> [] \<notin> set (tl_updates t')"
proof -
  define n where "n = max 10 (max (length (tl_text t)) (length (tl_originalName t)))"
  have "labelOk n (fold (\<lambda>(caret, k). labelKeyTyped caret k) ks u)" if "labelOk n u" for ks u
    using that by (induction ks arbitrary: u) (auto simp: labelKeyTyped_ok n_def)
  moreover have "labelOk n t" using assms(1,2) by (auto simp: labelOk_def n_def le_max_iff_disj)
  ultimately have "labelOk n t'" unfolding assms(3) .
  then show ?thesis by (simp add: labelOk_def n_def)
qed

theorem tab_keeps_a_short_name_witness:
  "[] \<notin> set (tl_updates (fold (\<lambda>(caret, k). labelKeyTyped caret k)
      [(1, \<lparr>lk_key = ''Backspace'', lk_metaOrCtrl = False\<rparr>), (0, \<lparr>lk_key = ''Enter'', lk_metaOrCtrl = False\<rparr>)]
      \<lparr>tl_text = ''T'', tl_originalName = ''T'', tl_editable = True, tl_updates = []\<rparr>))"
  by (rule tab_keeps_a_short_name [where t = "\<lparr>tl_text = ''T'', tl_originalName = ''T'', tl_editable = True, tl_updates = []\<rparr>"
      and keys = "[(1, \<lparr>lk_key = ''Backspace'', lk_metaOrCtrl = False\<rparr>), (0, \<lparr>lk_key = ''Enter'', lk_metaOrCtrl = False\<rparr>)]",
      OF _ _ refl, THEN conjunct2]) simp_all

text \<open>
  A request of input that runs out under another modal closes the wrong one: its cancellation is
  sent, but the modal on top is taken away, and the one that was answered stays.
\<close>

theorem timeout_closes_the_top_modal:
  assumes "dg_modals d = [\<lparr>md_displayName = ''UserInputModal'', md_props = Some i\<rparr>, top1]" "id_countdown i \<le> 0"
  shows "dg_modals (countdownFires 0 d) = [\<lparr>md_displayName = ''UserInputModal'', md_props = Some i\<rparr>] \<and>
    dg_sent (countdownFires 0 d) = dg_sent d @ [RespCancel (ir_requestid (id_request i))]"
  using assms by (simp add: countdownFires_def handleSendCancel_def respond_def popModal_def)

text \<open>With nothing above it, a request is answered once and its modal closed, whatever the user does.\<close>

theorem top_request_is_answered:
  assumes "dg_modals d = ms @ [\<lparr>md_displayName = ''UserInputModal'', md_props = Some i\<rparr>]"
    and "ir_responsetype (id_request i) \<in> {''text'', ''confirm''}"
    and "d' = handleSubmit i d \<or> d' = handleSendCancel i d"
  shows "dg_modals d' = ms \<and> (\<exists>r. dg_sent d' = dg_sent d @ [r])"
  using assms by (auto simp: handleSubmit_def handleSendText_def handleSendConfirm_def handleSendCancel_def respond_def popModal_def)

end
