(* ===== verification/Elements.thy ===== *)
theory Elements
  imports BlockHeader
begin

text \<open>
  The elements that the views are made of (app/element and app/hook): buttons with long clicks, the
  button that copies, inputs, error boundaries, the size hook, and the tips with their keys. Timers
  fire as events.
\<close>

section \<open>Long clicks\<close>

text \<open>
  \<open>lc_timers\<close> are the timers that are running, \<open>lc_ref\<close> the last one started. The listeners are those
  of the last run of the effect, which runs when one of its dependencies has changed: whether the
  element was there when it was rendered, the two handlers and \<open>longClickTriggered\<close>.
\<close>

datatype 'a clickCall = Clicked 'a | LongClicked 'a

record 'a longClick =
  lc_triggered :: bool
  lc_timers :: "(nat \<times> 'a) list"      \<comment> \<open>with the handler that each will call\<close>
  lc_ref :: "nat option"
  lc_next :: nat
  lc_element :: bool
  lc_deps :: "(bool \<times> 'a option \<times> 'a option \<times> bool) option"
  lc_attached :: bool
  lc_calls :: "'a clickCall list"

definition newLongClick :: "'a longClick" where
  "newLongClick = \<lparr>lc_triggered = False, lc_timers = [], lc_ref = None, lc_next = 0, lc_element = False, lc_deps = None,
     lc_attached = False, lc_calls = []\<rparr>"

definition longClickRendered :: "'a option \<Rightarrow> 'a option \<Rightarrow> bool \<Rightarrow> 'a longClick \<Rightarrow> 'a longClick" where
  "longClickRendered onClick onLongClick disabled l =
     (let deps = (lc_element l, onClick, onLongClick, lc_triggered l);
          l = l\<lparr>lc_element := True\<rparr>
      in if lc_deps l = Some deps then l else l\<lparr>lc_deps := Some deps, lc_attached := \<not> disabled\<rparr>)"

definition startPress :: "'a option \<Rightarrow> 'a longClick \<Rightarrow> 'a longClick" where
  "startPress onLongClick l =
     (case onLongClick of
        None \<Rightarrow> l
      | Some h \<Rightarrow> l\<lparr>lc_triggered := False, lc_timers := lc_timers l @ [(lc_next l, h)], lc_ref := Some (lc_next l), lc_next := Suc (lc_next l)\<rparr>)"

definition stopPress :: "'a longClick \<Rightarrow> 'a longClick" where
  "stopPress l = (case lc_ref l of None \<Rightarrow> l | Some t \<Rightarrow> l\<lparr>lc_timers := filter (\<lambda>u. fst u \<noteq> t) (lc_timers l)\<rparr>)"

definition pressTimeout :: "nat \<Rightarrow> 'a longClick \<Rightarrow> 'a longClick" where
  "pressTimeout t l =
     (case map_of (lc_timers l) t of
        None \<Rightarrow> l
      | Some h \<Rightarrow>
          l\<lparr>lc_timers := filter (\<lambda>u. fst u \<noteq> t) (lc_timers l), lc_triggered := True, lc_calls := lc_calls l @ [LongClicked h]\<rparr>)"

definition handleClick :: "'a option \<Rightarrow> 'a longClick \<Rightarrow> 'a longClick" where
  "handleClick onClick l =
     (if lc_triggered l then l
      else case onClick of None \<Rightarrow> l | Some h \<Rightarrow> l\<lparr>lc_calls := lc_calls l @ [Clicked h]\<rparr>)"

text \<open>The events of the mouse reach the element while the listeners are on it; each is followed by a rendering.\<close>

datatype pressEvent = MouseDown | MouseUp | MouseLeave | MouseClick | PressTimeout nat

definition pressStep :: "'a option \<Rightarrow> 'a option \<Rightarrow> bool \<Rightarrow> pressEvent \<Rightarrow> 'a longClick \<Rightarrow> 'a longClick" where
  "pressStep onClick onLongClick disabled e l =
     longClickRendered onClick onLongClick disabled
       (case e of
          PressTimeout t \<Rightarrow> pressTimeout t l
        | MouseDown \<Rightarrow> if lc_attached l then startPress onLongClick l else l
        | MouseUp \<Rightarrow> if lc_attached l then stopPress l else l
        | MouseLeave \<Rightarrow> if lc_attached l then stopPress l else l
        | MouseClick \<Rightarrow> if lc_attached l then handleClick onClick l else l)"

section \<open>Buttons\<close>

definition hasAny :: "string list \<Rightarrow> string \<Rightarrow> bool" where
  "hasAny words s \<longleftrightarrow> list_ex (\<lambda>w. js_includes s w) words"

definition buttonCategories :: "string list" where "buttonCategories = [''solid'', ''outline'', ''ghost'']"

definition buttonColors :: "string list" where "buttonColors = [''green'', ''grey'', ''red'', ''yellow'']"

definition buttonClass :: "string \<Rightarrow> string" where
  "buttonClass className =
     (let categoryClassName = (if hasAny buttonCategories className then className else ''solid '' @ className) in
      if hasAny buttonColors categoryClassName then categoryClassName else ''green '' @ categoryClassName)"

definition buttonTabIndex :: "bool \<Rightarrow> int" where
  "buttonTabIndex disabled = (if disabled then -1 else 0)"

text \<open>The button that copies: \<open>cb_timer\<close> counts the timeouts that were started and not cleared.\<close>

record copyButton =
  cp_isCopied :: bool
  cp_timeout :: bool
  cp_clicks :: nat                         \<comment> \<open>calls of the handler\<close>

definition copyClicked :: "copyButton \<Rightarrow> copyButton" where
  "copyClicked b =
     (if cp_isCopied b then b else \<lparr>cp_isCopied = True, cp_timeout = True, cp_clicks = Suc (cp_clicks b)\<rparr>)"

definition copyTimeout :: "copyButton \<Rightarrow> copyButton" where
  "copyTimeout b = (if cp_timeout b then b\<lparr>cp_isCopied := False, cp_timeout := False\<rparr> else b)"

definition copyIcon :: "copyButton \<Rightarrow> string" where
  "copyIcon b = (if cp_isCopied b then ''check'' else ''copy'')"

text \<open>A toggle tells its new value, when it has a handler; a click outside a modal closes it.\<close>

definition handleChange :: "bool \<Rightarrow> bool \<Rightarrow> bool option" where
  "handleChange hasOnChange checked = (if hasOnChange then Some checked else None)"

definition handleOutsideClick :: "bool \<Rightarrow> string \<Rightarrow> bool" where
  "handleOutsideClick hasOnClickOut targetClass \<longleftrightarrow> hasOnClickOut \<and> targetClass = ''modal-container''"

definition renderFooter :: "bool \<Rightarrow> bool \<Rightarrow> bool" where
  "renderFooter hasOnOk hasOnCancel \<longleftrightarrow> hasOnOk \<or> hasOnCancel"

text \<open>A boundary shows its children until one of them fails, then the fallback or the text of the error.\<close>

datatype 'e boundaryShown = ShownChildren | ShownFallback 'e | ShownErrorText string

definition ErrorBoundary :: "bool \<Rightarrow> (string \<times> string) option \<Rightarrow> (string \<times> string) boundaryShown" where
  "ErrorBoundary hasFallback error1 =
     (case error1 of
        None \<Rightarrow> ShownChildren
      | Some (msg, stack) \<Rightarrow>
          if hasFallback then ShownFallback (msg, stack)
          else ShownErrorText (''Error: '' @ msg @ [CHR 0x0A, CHR 0x0A] @ stack))"

section \<open>Inputs\<close>

record inputProps =
  ip_value :: "string option"
  ip_defaultValue :: string
  ip_required :: bool
  ip_isNumber :: bool

record inputState =
  in_focused :: bool
  in_internalValue :: string
  in_error :: bool
  in_hasContent :: bool
  in_changes :: "string list"               \<comment> \<open>what \<open>onChange\<close> was called with\<close>

definition newInput :: "inputProps \<Rightarrow> inputState" where
  "newInput p =
     \<lparr>in_focused = False, in_internalValue = ip_defaultValue p, in_error = False,
      in_hasContent = ((case ip_value p of None \<Rightarrow> False | Some v \<Rightarrow> v \<noteq> []) \<or> ip_defaultValue p \<noteq> []), in_changes = []\<rparr>"

text \<open>The effect of a value that is given from outside.\<close>

definition valueEffect :: "inputProps \<Rightarrow> inputState \<Rightarrow> inputState" where
  "valueEffect p i = (case ip_value p of None \<Rightarrow> i | Some v \<Rightarrow> i\<lparr>in_focused := v \<noteq> []\<rparr>)"

definition handleFocus :: "inputState \<Rightarrow> inputState" where
  "handleFocus i = i\<lparr>in_focused := True\<rparr>"

definition inputValue :: "inputProps \<Rightarrow> inputState \<Rightarrow> string" where
  "inputValue p i = (case ip_value p of Some v \<Rightarrow> v | None \<Rightarrow> in_internalValue i)"

definition inputBlur :: "inputProps \<Rightarrow> string \<Rightarrow> inputState \<Rightarrow> inputState" where
  "inputBlur p domValue i = i\<lparr>in_error := (ip_required p \<and> domValue = []), in_focused := False\<rparr>"

definition handleInputChange :: "inputProps \<Rightarrow> string \<Rightarrow> inputState \<Rightarrow> inputState" where
  "handleInputChange p v i =
     (if ip_isNumber p \<and> v \<noteq> [] \<and> \<not> list_all isDigitChar v then i
      else
        (let i = (if ip_required p \<and> v = [] then i\<lparr>in_error := True, in_hasContent := False\<rparr>
                  else i\<lparr>in_error := False, in_hasContent := v \<noteq> []\<rparr>);
             i = (if ip_value p = None then i\<lparr>in_internalValue := v\<rparr> else i)
         in i\<lparr>in_changes := in_changes i @ [v]\<rparr>))"

text \<open>The label floats above a field with content, with the focus or with a placeholder.\<close>

definition labelFloats :: "string option \<Rightarrow> inputState \<Rightarrow> bool" where
  "labelFloats placeholder i \<longleftrightarrow> in_hasContent i \<or> in_focused i \<or> \<not> isBlank placeholder"

datatype inputEvent = InputFocus | InputBlur | InputTyped string

fun inputStep :: "inputProps \<Rightarrow> inputEvent \<Rightarrow> inputState \<Rightarrow> inputState" where
  "inputStep p InputFocus i = handleFocus i"
| "inputStep p InputBlur i = inputBlur p (inputValue p i) i"
| "inputStep p (InputTyped v) i = handleInputChange p v i"

section \<open>Sizes\<close>

record dimensionState =
  ds_height :: "jsnum option"
  ds_width :: "jsnum option"
  ds_widthDirection :: "string option"
  ds_heightDirection :: "string option"
  ds_previous :: "(jsnum \<times> jsnum) option"       \<comment> \<open>width and height\<close>

definition newDimensions :: dimensionState where
  "newDimensions = \<lparr>ds_height = None, ds_width = None, ds_widthDirection = None, ds_heightDirection = None, ds_previous = None\<rparr>"

definition sizeDirection :: "jsnum \<Rightarrow> jsnum \<Rightarrow> string" where
  "sizeDirection now before = (if before < now then ''expanding'' else if now < before then ''shrinking'' else ''unchanged'')"

definition updateDimensions :: "jsnum \<Rightarrow> jsnum \<Rightarrow> dimensionState \<Rightarrow> dimensionState" where
  "updateDimensions w h d =
     \<lparr>ds_height = Some h, ds_width = Some w,
      ds_widthDirection = Some (case ds_previous d of None \<Rightarrow> [] | Some (pw, ph) \<Rightarrow> sizeDirection w pw),
      ds_heightDirection = Some (case ds_previous d of None \<Rightarrow> [] | Some (pw, ph) \<Rightarrow> sizeDirection h ph),
      ds_previous = Some (w, h)\<rparr>"

section \<open>Tips\<close>

datatype keyCap = CapCmd | CapAlt | CapCtrl | CapShift | CapLeft | CapRight | CapUp | CapDown | CapDigits | CapKey string

definition upperChar :: "char \<Rightarrow> char" where
  "upperChar c = (if isLower c then char_of ((of_char c :: nat) - 32) else c)"

definition keyCaps :: "bool \<Rightarrow> string \<Rightarrow> keyCap list" where
  "keyCaps darwin part =
     (if part = ''Cmd'' then (if darwin then [CapCmd] else [CapAlt])
      else if part = ''Ctrl'' then [CapCtrl]
      else if part = ''Shift'' then [CapShift]
      else if part = ''Arrows'' then [CapLeft, CapRight, CapUp, CapDown]
      else if part = ''Digit'' then [CapDigits]
      else [CapKey (map upperChar part)])"

definition KeyBinding :: "bool \<Rightarrow> string \<Rightarrow> keyCap list" where
  "KeyBinding darwin keyDecl = concat (map (keyCaps darwin) (js_split (CHR '':'') keyDecl))"

text \<open>The keys of the tips, with what they are said to do.\<close>

definition QuickTips :: "(string \<times> string) list" where
  "QuickTips =
     [(''Cmd:g'', ''Connect to a remote server''), (''Cmd:m'', ''Magnify a Block''), (''Cmd:w'', ''Close Block''),
      (''Cmd:t'', ''New Tab''), (''Cmd:n'', ''New Terminal Block''), (''Ctrl:Shift:Arrows'', ''Navigate Between Blocks''),
      (''Ctrl:Shift:Digit'', ''Focus Nth Block''), (''Cmd:Digit'', ''Switch To Nth Tab'')]"

section \<open>Properties\<close>

text \<open>
  A button keeps the listeners of its second rendering: whether it was disabled then decides whether
  it reacts for as long as its handlers stay, whatever it is given later. The button that magnifies
  is disabled while a tab has one block and its handler never changes, so it stays dead when a
  second block comes.
\<close>

theorem listeners_are_of_the_second_rendering:
  "lc_attached (fold (longClickRendered onClick onLongClick) (d1 # d2 # ds) newLongClick) = (\<not> d2)"
proof -
  have "fold (longClickRendered onClick onLongClick) ds l = l"
    if "lc_deps l = Some (True, onClick, onLongClick, lc_triggered l)" "lc_element l" for l :: "'a longClick"
  proof -
    have "longClickRendered onClick onLongClick d l = l" for d
      using that by (cases l) (simp add: longClickRendered_def)
    then show ?thesis by (induction ds) simp_all
  qed
  then show ?thesis by (simp add: longClickRendered_def newLongClick_def Let_def)
qed

text \<open>A button with its listeners, of which nothing is pressed.\<close>

definition idleButton :: "'a option \<Rightarrow> 'a option \<Rightarrow> 'a longClick \<Rightarrow> bool" where
  "idleButton onClick onLongClick l \<longleftrightarrow>
     lc_attached l \<and> lc_element l \<and> lc_timers l = [] \<and> lc_deps l = Some (True, onClick, onLongClick, lc_triggered l)"

text \<open>
  A short press is a click and nothing else, also when the timeout would have come later; a press
  that outlasts the timeout is a long click, and the click that ends it is swallowed.
\<close>

theorem press_is_short_or_long:
  assumes "idleButton (Some c) (Some h) l"
  defines "run \<equiv> \<lambda>es. fold (pressStep (Some c) (Some h) False) es l" and "t \<equiv> PressTimeout (lc_next l)"
  shows "lc_calls (run [MouseDown, MouseUp, MouseClick, t]) = lc_calls l @ [Clicked c]"
    and "lc_calls (run [MouseDown, t, MouseUp, MouseClick]) = lc_calls l @ [LongClicked h]"
proof -
  obtain tr rf nx ca where l: "l = \<lparr>lc_triggered = tr, lc_timers = [], lc_ref = rf, lc_next = nx, lc_element = True,
      lc_deps = Some (True, Some c, Some h, tr), lc_attached = True, lc_calls = ca\<rparr>"
    using assms(1) by (cases l) (simp add: idleButton_def)
  note steps = pressStep_def longClickRendered_def startPress_def stopPress_def pressTimeout_def handleClick_def
  show "lc_calls (run [MouseDown, MouseUp, MouseClick, t]) = lc_calls l @ [Clicked c]"
    unfolding l run_def t_def by (cases tr) (simp_all add: steps)
  show "lc_calls (run [MouseDown, t, MouseUp, MouseClick]) = lc_calls l @ [LongClicked h]"
    unfolding l run_def t_def by (cases tr) (simp_all add: steps)
qed

text \<open>Every button has a category and a colour.\<close>

lemma includes_part: "js_includes (u @ w @ rest) w"
  unfolding js_includes_def list_ex_iff
  by (rule bexI [of _ "length u"]) (simp_all add: js_is_prefix_def del: upt_Suc)

lemma includes_wider: "js_includes s w \<Longrightarrow> js_includes (u @ s) w"
  unfolding js_includes_def list_ex_iff
proof (elim bexE)
  fix k assume "k \<in> set [0..<Suc (length s)]" "js_is_prefix w (drop k s)"
  then show "\<exists>j \<in> set [0..<Suc (length (u @ s))]. js_is_prefix w (drop j (u @ s))"
    by (intro bexI [of _ "length u + k"]) (auto simp del: upt_Suc)
qed

lemma hasAny_wider: "hasAny ws s \<Longrightarrow> hasAny ws (u @ s)"
  using includes_wider by (auto simp: hasAny_def list_ex_iff)

theorem button_has_category_and_colour:
  "hasAny buttonCategories (buttonClass c) \<and> hasAny buttonColors (buttonClass c)"
proof -
  have "hasAny buttonCategories (''solid '' @ c)" "hasAny buttonColors (''green '' @ d)" for d
    using includes_part [of "[]" "''solid''" "'' '' @ c"] includes_part [of "[]" "''green''" "'' '' @ d"]
    by (simp_all add: hasAny_def buttonCategories_def buttonColors_def)
  then show ?thesis by (simp add: buttonClass_def Let_def hasAny_wider del: append_Cons)
qed

text \<open>While the check mark is shown the handler does not run again.\<close>

lemma copied_once: "cp_clicks (((copyClicked ^^ Suc n) b)) \<le> Suc (cp_clicks b)"
proof -
  have "cp_isCopied b' \<Longrightarrow> (copyClicked ^^ n) b' = b'" for b' by (induction n) (simp_all add: copyClicked_def)
  then have "(copyClicked ^^ n) (copyClicked b) = copyClicked b" by (simp add: copyClicked_def)
  then show ?thesis by (simp only: funpow_Suc_right o_apply) (simp add: copyClicked_def)
qed

text \<open>
  A field for numbers holds digits only, and reports nothing else, whatever is typed into it.
\<close>

definition digitsOnly :: "inputState \<Rightarrow> bool" where
  "digitsOnly i \<longleftrightarrow> list_all isDigitChar (in_internalValue i) \<and> list_all (list_all isDigitChar) (in_changes i)"

theorem number_input_holds_digits:
  assumes "ip_isNumber p" "list_all isDigitChar (ip_defaultValue p)"
  shows "digitsOnly (fold (inputStep p) es (newInput p))"
proof -
  have step: "digitsOnly i \<Longrightarrow> digitsOnly (inputStep p e i)" for e i
    using assms(1) by (cases e) (auto simp: digitsOnly_def handleFocus_def inputBlur_def handleInputChange_def Let_def)
  have "digitsOnly i \<Longrightarrow> digitsOnly (fold (inputStep p) es i)" for i
    by (induction es arbitrary: i) (simp_all add: step)
  moreover have "digitsOnly (newInput p)" using assms(2) by (simp add: newInput_def digitsOnly_def)
  ultimately show ?thesis .
qed

text \<open>Leaving a field shows an error exactly when it is required and empty.\<close>

theorem blur_checks_required:
  "in_error (inputStep p InputBlur i) = (ip_required p \<and> inputValue p i = []) \<and> \<not> in_focused (inputStep p InputBlur i)"
  by (simp add: inputBlur_def)

text \<open>
  The tips tell the truth: every key they name is bound to what they say, the arrows and digits to
  one action each.
\<close>

definition tipBindings :: "(string \<times> keyAction) list" where
  "tipBindings =
     [(''Cmd:m'', ToggleMagnify), (''Cmd:w'', CloseCurrent), (''Cmd:t'', NewTab), (''Cmd:n'', NewTerminal),
      (''Ctrl:Shift:ArrowUp'', SwitchBlock NavUp), (''Ctrl:Shift:ArrowDown'', SwitchBlock NavDown),
      (''Ctrl:Shift:ArrowLeft'', SwitchBlock NavLeft), (''Ctrl:Shift:ArrowRight'', SwitchBlock NavRight)] @
     map (\<lambda>i. (''Ctrl:Shift:c{Digit'' @ show_nat i @ ''}'', SwitchBlockNum i)) [1..<10] @
     map (\<lambda>i. (''Cmd:'' @ show_nat i, SwitchTabAbs i)) [1..<10]"

theorem tips_are_bound: "list_all (\<lambda>(k, a). map_get globalKeyMap k = Some a) tipBindings"
  by code_simp

end
