(* ===== verification/ElementTrees.thy ===== *)
theory ElementTrees
  imports KeyUtil
begin

text \<open>
  The trees of elements that a program sends to be shown: the one with handlers
  (app/view/term/vdom.tsx) and the one of plain nodes (app/view/term/ijson.tsx), each with its list of
  allowed tags; and the view with the editor of a plot (app/view/plotview/plotview.tsx). React's
  elements are the values of a datatype.
\<close>

section \<open>Looking up a tag\<close>

text \<open>
  The tags are looked up in an object of the language, which also has the properties that every
  object inherits.
\<close>

definition AllowedTags :: "string list" where
  "AllowedTags =
     [''div'', ''b'', ''i'', ''p'', ''s'', ''span'', ''a'', ''img'', ''h1'', ''h2'', ''h3'', ''h4'', ''h5'', ''h6'', ''ul'', ''ol'',
      ''li'', ''input'', ''button'', ''textarea'', ''select'', ''option'', ''form'']"

definition inheritedNames :: "string list" where
  "inheritedNames =
     [''constructor'', ''__defineGetter__'', ''__defineSetter__'', ''hasOwnProperty'', ''__lookupGetter__'', ''__lookupSetter__'',
      ''isPrototypeOf'', ''propertyIsEnumerable'', ''toString'', ''valueOf'', ''__proto__'', ''toLocaleString'']"

definition tagAllowed :: "string \<Rightarrow> bool" where
  "tagAllowed tag \<longleftrightarrow> tag \<in> set AllowedTags \<or> tag \<in> set inheritedNames"

section \<open>Elements with handlers\<close>

text \<open>A property: nothing, the declaration of a handler, of a reference, or another value.\<close>

record vdomFunc =
  vf_stopPropagation :: bool
  vf_preventDefault :: bool
  vf_keys :: "string list option"

datatype vdomProp =
    PropNull
  | PropFunc vdomFunc
  | PropRef string
  | PropObject                             \<comment> \<open>an object that is neither\<close>
  | PropPlain string

datatype vdomElem =
  VDomElem (ve_id: "string option") (ve_tag: string) (ve_props: "(string \<times> vdomProp) list")
    (ve_children: "vdomElem option list option") (ve_text: string)

text \<open>What is made: a text, an element with the properties that are set, a message, or a list.\<close>

datatype madeProp = MadeRef string | MadeHandler vdomFunc

datatype madeElem =
    MadeNull
  | MadeText string
  | MadeElem string "(string \<times> madeProp) list" "madeElem list"
  | MadeInvalid string
  | MadeList "madeElem list"

fun vdomProps :: "(string \<times> vdomProp) list \<Rightarrow> (string \<times> madeProp) list" where
  "vdomProps [] = []"
| "vdomProps ((key, val) # ps) =
     (if key = ''ref'' then (case val of PropRef r \<Rightarrow> [(key, MadeRef r)] | _ \<Rightarrow> [])
      else (case val of PropFunc f \<Rightarrow> [(key, MadeHandler f)] | _ \<Rightarrow> [])) @ vdomProps ps"

text \<open>\<open>convertElemToTag\<close>, with the component that it makes, \<open>VDomTag\<close>, in the place where it is rendered.\<close>

fun convertElemToTag :: "vdomElem \<Rightarrow> madeElem" where
  "convertElemToTag (VDomElem i tag props children txt1) =
     (if tag = ''#text'' then MadeText txt1
      else if \<not> tagAllowed tag then MadeInvalid (''Invalid Tag <'' @ tag @ ''>'')
      else
        (let childrenComps =
               (case children of
                  None \<Rightarrow> []
                | Some cs \<Rightarrow> concat (map (\<lambda>c. case c of None \<Rightarrow> [] | Some e \<Rightarrow> [convertElemToTag e]) cs))
         in if tag = ''#fragment'' then MadeList childrenComps else MadeElem tag (vdomProps props) childrenComps))"

text \<open>
  The handler that a declaration gives: whether the event is prevented, stopped, and the function of
  the program called. Keys only count for key handlers.
\<close>

definition convertVDomFunc :: "vdomFunc \<Rightarrow> string \<Rightarrow> waveKeyboardEvent \<Rightarrow> bool \<times> bool \<times> bool" where
  "convertVDomFunc f propName e =
     (case vf_keys f of
        Some keys \<Rightarrow>
          if propName = ''onKeyDown'' \<or> propName = ''onKeyDownCapture''
          then (if list_ex (checkKeyPressed e) keys then (True, True, True) else (False, False, False))
          else (vf_preventDefault f, vf_stopPropagation f, True)
      | None \<Rightarrow> (vf_preventDefault f, vf_stopPropagation f, True))"

section \<open>Plain nodes\<close>

text \<open>A node or a text; properties have names, and those of handlers are replaced.\<close>

datatype ijsonNode =
    IjText string
  | IjNode string "(string \<times> string) list" "ijsonNode option list option"

datatype shownNode =
    ShownString string
  | ShownTag string "string option" "(string \<times> string option) list" "shownNode list"
      \<comment> \<open>tag, key, properties (\<open>None\<close> for a handler that logs), children\<close>
  | ShownUnknown "string option" string
  | ShownBroken string                          \<comment> \<open>an inherited property taken for a component\<close>

definition nodeKey :: "(string \<times> string) list \<Rightarrow> nat \<Rightarrow> string" where
  "nodeKey props idx = (case map_of props ''key'' of Some k \<Rightarrow> k | None \<Rightarrow> ''child-'' @ show_nat idx)"

definition ijsonProps :: "(string \<times> string) list \<Rightarrow> (string \<times> string option) list" where
  "ijsonProps props = map (\<lambda>(key, val). (key, if js_is_prefix ''on'' key then None else Some val)) props"

fun convertNodeToTag :: "nat \<Rightarrow> ijsonNode \<Rightarrow> shownNode"
and convertChildren :: "nat \<Rightarrow> ijsonNode option list \<Rightarrow> shownNode list" where
  "convertNodeToTag idx (IjText t) = ShownString t"
| "convertNodeToTag idx (IjNode tag props children) =
     (if tag \<in> set AllowedTags
      then ShownTag tag (Some (nodeKey props idx)) (ijsonProps props)
             (case children of None \<Rightarrow> [] | Some cs \<Rightarrow> convertChildren 0 cs)
      else if tag \<in> set inheritedNames then ShownBroken tag
      else ShownUnknown (Some (nodeKey props idx)) tag)"
| "convertChildren idx [] = []"
| "convertChildren idx (c # cs) =
     (case c of None \<Rightarrow> [] | Some n \<Rightarrow> [convertNodeToTag idx n]) @ convertChildren (Suc idx) cs"

section \<open>The plot and its editor\<close>

record plotState =
  pl_plotDef :: "string option"
  pl_savedDef :: "string option"
  pl_modalUp :: bool

datatype plotInput = OpenEditor | EditPlot string | CancelEdit | SaveEdit

text \<open>The callbacks are made once, so they read the state of the first rendering, which is empty.\<close>

definition plotViewState :: plotState where
  "plotViewState = \<lparr>pl_plotDef = None, pl_savedDef = None, pl_modalUp = False\<rparr>"

definition handleOpen :: "plotState \<Rightarrow> plotState \<Rightarrow> plotState" where
  "handleOpen made p = p\<lparr>pl_savedDef := pl_plotDef made, pl_modalUp := True\<rparr>"

definition handleCancel :: "plotState \<Rightarrow> plotState \<Rightarrow> plotState" where
  "handleCancel made p = p\<lparr>pl_plotDef := pl_savedDef made, pl_modalUp := False\<rparr>"

definition handleSave :: "plotState \<Rightarrow> plotState" where
  "handleSave p = p\<lparr>pl_modalUp := False\<rparr>"

fun plotViewStep :: "plotInput \<Rightarrow> plotState \<Rightarrow> plotState" where
  "plotViewStep OpenEditor p = handleOpen plotViewState p"
| "plotViewStep (EditPlot t) p = (if pl_modalUp p then p\<lparr>pl_plotDef := Some t\<rparr> else p)"
| "plotViewStep CancelEdit p = (if pl_modalUp p then handleCancel plotViewState p else p)"
| "plotViewStep SaveEdit p = (if pl_modalUp p then handleSave p else p)"

section \<open>Properties\<close>

text \<open>The tags of the elements that are made, at any depth.\<close>

fun madeTags :: "madeElem \<Rightarrow> string set" where
  "madeTags (MadeElem tag ps cs) = insert tag (\<Union> (madeTags ` set cs))"
| "madeTags (MadeList cs) = \<Union> (madeTags ` set cs)"
| "madeTags _ = {}"

theorem only_allowed_tags_are_made: "madeTags (convertElemToTag e) \<subseteq> set AllowedTags \<union> set inheritedNames"
proof (induction e rule: convertElemToTag.induct)
  case (1 i tag props children txt1)
  have kids: "(\<Union>c \<in> set (concat (map (\<lambda>c. case c of None \<Rightarrow> [] | Some e \<Rightarrow> [convertElemToTag e]) cs)). madeTags c)
      \<subseteq> set AllowedTags \<union> set inheritedNames"
    if "tag \<noteq> ''#text''" "tagAllowed tag" "children = Some cs" for cs
  proof -
    have "madeTags (convertElemToTag e) \<subseteq> set AllowedTags \<union> set inheritedNames" if "Some e \<in> set cs" for e
      using 1 [OF \<open>tag \<noteq> ''#text''\<close> _ \<open>children = Some cs\<close> that] \<open>tagAllowed tag\<close> by simp
    then show ?thesis by (fastforce split: option.splits)
  qed
  show ?case
  proof (cases "tag = ''#text'' \<or> \<not> tagAllowed tag")
    case False
    then have tag: "tag \<noteq> ''#text''" "tagAllowed tag" by simp_all
    define comps where "comps = (case children of None \<Rightarrow> []
      | Some cs \<Rightarrow> concat (map (\<lambda>c. case c of None \<Rightarrow> [] | Some e \<Rightarrow> [convertElemToTag e]) cs))"
    have "\<Union> (madeTags ` set comps) \<subseteq> set AllowedTags \<union> set inheritedNames"
      using kids [OF tag] by (cases children) (simp_all add: comps_def)
    moreover have "tag \<in> set AllowedTags \<union> set inheritedNames" using tag(2) by (simp add: tagAllowed_def)
    ultimately show ?thesis using tag
      by (simp only: convertElemToTag.simps comps_def [symmetric] Let_def if_False not_True_eq_False simp_thms)
        simp
  qed auto
qed

text \<open>A fragment is never shown: its tag is not among the allowed ones.\<close>

theorem fragments_are_invalid:
  "convertElemToTag (VDomElem i ''#fragment'' props children t) = MadeInvalid ''Invalid Tag <#fragment>''"
  by (simp add: tagAllowed_def AllowedTags_def inheritedNames_def)

text \<open>Of its properties an element keeps its reference and its handlers, and no other value.\<close>

theorem plain_properties_are_dropped:
  "map_of (vdomProps ps) key = None" if "\<forall>v. (key, v) \<in> set ps \<longrightarrow> (case v of PropPlain s \<Rightarrow> True | _ \<Rightarrow> False)"
proof -
  have "key \<notin> fst ` set (vdomProps ps)"
    using that
  proof (induction ps rule: vdomProps.induct)
    case (2 k v ps)
    then have "key \<notin> fst ` set (vdomProps ps)" by auto
    moreover have "k = key \<Longrightarrow> (case v of PropPlain s \<Rightarrow> True | _ \<Rightarrow> False)" using 2(2) by auto
    ultimately show ?case by (auto split: vdomProp.splits)
  qed simp
  then show ?thesis by (simp add: map_of_eq_None_iff)
qed

text \<open>A key handler with keys acts only on its keys, and then takes the event for itself.\<close>

theorem key_handlers_take_their_keys:
  assumes "vf_keys f = Some keys" "propName = ''onKeyDown'' \<or> propName = ''onKeyDownCapture''"
  shows "convertVDomFunc f propName e = (let hit = \<exists>k \<in> set keys. checkKeyPressed e k in (hit, hit, hit))"
  using assms by (auto simp: convertVDomFunc_def list_ex_iff)

text \<open>No code of a program runs in a tree of plain nodes: every handler is replaced by one that logs.\<close>

fun nodeHandlers :: "shownNode \<Rightarrow> string set" where
  "nodeHandlers (ShownTag tag k ps cs) = {v. \<exists>key. (key, Some v) \<in> set ps \<and> js_is_prefix ''on'' key} \<union> \<Union> (nodeHandlers ` set cs)"
| "nodeHandlers _ = {}"

theorem no_handlers_from_nodes:
  "nodeHandlers (convertNodeToTag idx n) = {}" "\<forall>s \<in> set (convertChildren idx cs). nodeHandlers s = {}"
  by (induction idx n and idx cs rule: convertNodeToTag_convertChildren.induct)
    (auto simp: ijsonProps_def split: option.splits if_splits)

text \<open>Cancelling loses the definition of the plot, whatever was saved before.\<close>

theorem cancel_loses_the_plot:
  "pl_plotDef (fold plotViewStep (es @ [OpenEditor, EditPlot t, CancelEdit]) plotViewState) = None"
  by (simp add: handleOpen_def handleCancel_def) (simp add: plotViewState_def)

end
