(* ===== verification/TermWrap.thy ===== *)
theory TermWrap
  imports Util
begin

text \<open>
  The terminal of a block (app/view/term/termwrap.ts) around the terminal emulator: the initial
  load from the cache file and the main file, the data that file events bring, the offset of the
  main file that the screen stands for, the saving of the screen, resizes and the escape code
  for the working directory. The emulator is its queue of writes, whose callbacks run in order,
  and the list of what it has taken in; fetches, callbacks and timers are events.
\<close>

type_synonym bytes = "nat list"

datatype screenOp = Wrote bytes | Cleared

datatype termCall =
    ControllerInput string
  | UpdateCwd string
  | SetTermSize nat nat
  | ResyncController nat nat
  | SaveTerminalState "screenOp list" nat     \<comment> \<open>what the screen was made of, and the offset\<close>

text \<open>How far \<open>loadInitialTerminalData\<close> has come: awaiting a fetch, or the write of the main data.\<close>

datatype loadPhase = AwaitCache | AwaitMain nat | AwaitWrite | LoadEnded

record termWrite =
  tr_data :: bytes
  tr_setPtyOffset :: "nat option"
  tr_awaited :: bool             \<comment> \<open>the load continues when this write is done\<close>

record termWrap =
  tw_loaded :: bool
  tw_phase :: loadPhase
  tw_heldData :: "bytes list"
  tw_ptyOffset :: nat
  tw_dataBytesProcessed :: nat
  tw_writes :: "termWrite list"
  tw_screen :: "screenOp list"
  tw_rows :: nat
  tw_cols :: nat
  tw_hasResized :: bool
  tw_isRunning :: bool
  tw_calls :: "termCall list"

definition termCall1 :: "termCall \<Rightarrow> termWrap \<Rightarrow> termWrap" where
  "termCall1 c w = w\<lparr>tw_calls := tw_calls w @ [c]\<rparr>"

section \<open>Writing\<close>

text \<open>
  \<open>doTerminalWrite\<close> hands the data to the emulator, which takes it in later and then runs the
  callback: that is \<open>writeDone\<close>.
\<close>

definition doTerminalWrite :: "bytes \<Rightarrow> nat option \<Rightarrow> bool \<Rightarrow> termWrap \<Rightarrow> termWrap" where
  "doTerminalWrite data setPtyOffset awaited w =
     w\<lparr>tw_writes := tw_writes w @ [\<lparr>tr_data = data, tr_setPtyOffset = setPtyOffset, tr_awaited = awaited\<rparr>]\<rparr>"

text \<open>The \<open>finally\<close> clause of \<open>initTerminal\<close>.\<close>

definition loadEnds :: "termWrap \<Rightarrow> termWrap" where
  "loadEnds w = w\<lparr>tw_phase := LoadEnded, tw_loaded := True\<rparr>"

definition writeDone :: "termWrap \<Rightarrow> termWrap" where
  "writeDone w =
     (case tw_writes w of
        [] \<Rightarrow> w
      | r # rs \<Rightarrow>
          let w = w\<lparr>tw_writes := rs, tw_screen := tw_screen w @ [Wrote (tr_data r)]\<rparr>;
              w = (case tr_setPtyOffset r of
                     Some off \<Rightarrow> w\<lparr>tw_ptyOffset := off\<rparr>
                   | None \<Rightarrow> w\<lparr>tw_ptyOffset := tw_ptyOffset w + length (tr_data r),
                              tw_dataBytesProcessed := tw_dataBytesProcessed w + length (tr_data r)\<rparr>)
          in if tr_awaited r then loadEnds w else w)"

section \<open>Loading\<close>

text \<open>A fetched file: its data and the offset in its metadata, \<open>None\<close> when there is no file.\<close>

definition cacheFetched :: "(bytes \<times> nat option) option \<Rightarrow> termWrap \<Rightarrow> termWrap" where
  "cacheFetched cacheFile w =
     (case cacheFile of
        None \<Rightarrow> w\<lparr>tw_phase := AwaitMain 0\<rparr>
      | Some (cacheData, off) \<Rightarrow>
          let ptyOffset = (case off of None \<Rightarrow> 0 | Some n \<Rightarrow> n);
              w = w\<lparr>tw_phase := AwaitMain ptyOffset\<rparr>
          in if 0 < length cacheData then doTerminalWrite cacheData (Some ptyOffset) False w else w)"

definition mainFetched :: "bytes option \<Rightarrow> termWrap \<Rightarrow> termWrap" where
  "mainFetched mainFile w =
     (case mainFile of
        None \<Rightarrow> loadEnds w
      | Some mainData \<Rightarrow> doTerminalWrite mainData None True (w\<lparr>tw_phase := AwaitWrite\<rparr>))"

section \<open>File events\<close>

datatype fileEvent = FileTruncate | FileAppend bytes | OtherFileOp

definition handleNewFileSubjectData :: "fileEvent \<Rightarrow> termWrap \<Rightarrow> termWrap" where
  "handleNewFileSubjectData msg w =
     (case msg of
        FileTruncate \<Rightarrow> w\<lparr>tw_screen := tw_screen w @ [Cleared], tw_heldData := []\<rparr>
      | FileAppend decodedData \<Rightarrow>
          if tw_loaded w then doTerminalWrite decodedData None False w
          else w\<lparr>tw_heldData := tw_heldData w @ [decodedData]\<rparr>
      | OtherFileOp \<Rightarrow> w)"

section \<open>Saving, resizing, input\<close>

definition processAndCacheData :: "termWrap \<Rightarrow> termWrap" where
  "processAndCacheData w =
     (if tw_dataBytesProcessed w < 10 * 1024 then w
      else (termCall1 (SaveTerminalState (tw_screen w) (tw_ptyOffset w)) w)\<lparr>tw_dataBytesProcessed := 0\<rparr>)"

text \<open>\<open>fit\<close> gives the emulator the size that its element has room for.\<close>

definition handleResize :: "nat \<Rightarrow> nat \<Rightarrow> termWrap \<Rightarrow> termWrap" where
  "handleResize rows cols w =
     (let changed = (tw_rows w \<noteq> rows \<or> tw_cols w \<noteq> cols);
          w = w\<lparr>tw_rows := rows, tw_cols := cols\<rparr>;
          w = (if changed then termCall1 (SetTermSize rows cols) w else w)
      in if \<not> tw_hasResized w then termCall1 (ResyncController rows cols) (w\<lparr>tw_hasResized := True\<rparr>) else w)"

definition handleTermData :: "(string \<Rightarrow> string) \<Rightarrow> string \<Rightarrow> termWrap \<Rightarrow> termWrap" where
  "handleTermData stringToBase64 data w = termCall1 (ControllerInput (stringToBase64 data)) w"

definition setIsRunning :: "bool \<Rightarrow> termWrap \<Rightarrow> termWrap" where
  "setIsRunning isRunning w = w\<lparr>tw_isRunning := isRunning\<rparr>"

text \<open>
  The handler of the escape code 7: a path, or a file url, whose host is dropped. The result
  tells whether the code was handled; the update runs in a later task.
\<close>

definition osc7Path :: "string option \<Rightarrow> string option" where
  "osc7Path data =
     (case data of
        None \<Rightarrow> None
      | Some d \<Rightarrow>
          if d = [] then None
          else if js_is_prefix ''file://'' d then
            (let rest = drop 7 d in
             if CHR ''/'' \<notin> set rest then None else Some (dropWhile (\<lambda>c. c \<noteq> CHR ''/'') rest))
          else Some d)"

definition handleOsc7 :: "string option \<Rightarrow> termWrap \<Rightarrow> bool \<times> termWrap" where
  "handleOsc7 data w =
     (if \<not> tw_loaded w then (False, w)
      else case osc7Path data of
        None \<Rightarrow> (False, w)
      | Some path \<Rightarrow> (True, termCall1 (UpdateCwd path) w))"

text \<open>The constructor, which fits the terminal to its element.\<close>

definition newTermWrap :: "nat \<Rightarrow> nat \<Rightarrow> nat \<Rightarrow> nat \<Rightarrow> termWrap" where
  "newTermWrap rows cols fitRows fitCols =
     (handleResize fitRows fitCols
       \<lparr>tw_loaded = False, tw_phase = AwaitCache, tw_heldData = [], tw_ptyOffset = 0,
        tw_dataBytesProcessed = 0, tw_writes = [], tw_screen = [], tw_rows = rows, tw_cols = cols,
        tw_hasResized = False, tw_isRunning = False, tw_calls = []\<rparr>)\<lparr>tw_isRunning := True\<rparr>"

section \<open>Runs\<close>

datatype termEvent =
    CacheFetched "(bytes \<times> nat option) option"
  | MainFetched "bytes option"
  | FetchFails
  | FileEvent fileEvent
  | WriteDone
  | IdleTimeout
  | Resized nat nat
  | Osc7 "string option"
  | TermInput string

text \<open>An event has its effect when the load has come to it; the idle timer runs after the load.\<close>

definition termStep :: "(string \<Rightarrow> string) \<Rightarrow> termEvent \<Rightarrow> termWrap \<Rightarrow> termWrap" where
  "termStep stringToBase64 e w =
     (case e of
        CacheFetched f \<Rightarrow> if tw_phase w = AwaitCache then cacheFetched f w else w
      | MainFetched f \<Rightarrow> (case tw_phase w of AwaitMain _ \<Rightarrow> mainFetched f w | _ \<Rightarrow> w)
      | FetchFails \<Rightarrow> (case tw_phase w of AwaitCache \<Rightarrow> loadEnds w | AwaitMain _ \<Rightarrow> loadEnds w | _ \<Rightarrow> w)
      | FileEvent msg \<Rightarrow> handleNewFileSubjectData msg w
      | WriteDone \<Rightarrow> writeDone w
      | IdleTimeout \<Rightarrow> if tw_loaded w then processAndCacheData w else w
      | Resized rows cols \<Rightarrow> handleResize rows cols w
      | Osc7 data \<Rightarrow> snd (handleOsc7 data w)
      | TermInput data \<Rightarrow> handleTermData stringToBase64 data w)"

section \<open>Properties\<close>

text \<open>Two terminals that differ in nothing but the data they hold back.\<close>

definition sameButHeld :: "termWrap \<Rightarrow> termWrap \<Rightarrow> bool" where
  "sameButHeld w w' \<longleftrightarrow> w\<lparr>tw_heldData := []\<rparr> = w'\<lparr>tw_heldData := []\<rparr>"

lemma sameButHeldE:
  assumes "sameButHeld w w'"
  obtains hs where "w' = w\<lparr>tw_heldData := hs\<rparr>"
proof
  show "w' = w\<lparr>tw_heldData := tw_heldData w'\<rparr>"
    using assms by (cases w; cases w') (simp add: sameButHeld_def)
qed

lemma termStep_held: "sameButHeld w w' \<Longrightarrow> sameButHeld (termStep b64 e w) (termStep b64 e w')"
  by (erule sameButHeldE)
    (auto simp: termStep_def sameButHeld_def cacheFetched_def mainFetched_def loadEnds_def doTerminalWrite_def
      handleNewFileSubjectData_def writeDone_def processAndCacheData_def handleResize_def handleOsc7_def
      handleTermData_def termCall1_def Let_def split: termEvent.split option.split loadPhase.split fileEvent.split list.split)

lemma termRun_held: "sameButHeld w w' \<Longrightarrow> sameButHeld (fold (termStep b64) es w) (fold (termStep b64) es w')"
  by (induction es arbitrary: w w') (simp_all add: termStep_held)

text \<open>
  Data that arrives while the terminal is loading is lost: whatever happens afterwards, the
  screen, the offset, the saved states and everything else but the list of held data are as if
  it had never arrived.
\<close>

theorem data_while_loading_is_lost:
  assumes "\<not> tw_loaded w"
  shows "sameButHeld (fold (termStep b64) (FileEvent (FileAppend d) # es) w) (fold (termStep b64) es w)"
  using assms termRun_held [of "termStep b64 (FileEvent (FileAppend d)) w" w b64 es]
  by (simp add: termStep_def handleNewFileSubjectData_def sameButHeld_def)

section \<open>The saved offset\<close>

definition screenBytes :: "screenOp list \<Rightarrow> nat" where
  "screenBytes ops = (\<Sum>p\<leftarrow>ops. case p of Wrote d \<Rightarrow> length d | Cleared \<Rightarrow> 0)"

text \<open>The data of the cache file, and the offset from which the main file is read.\<close>

definition cacheBytes :: "(bytes \<times> nat option) option \<Rightarrow> bytes" where
  "cacheBytes f = (case f of None \<Rightarrow> [] | Some (d, off) \<Rightarrow> d)"

definition cacheOffset :: "(bytes \<times> nat option) option \<Rightarrow> nat" where
  "cacheOffset f = (case f of Some (d, Some n) \<Rightarrow> n | _ \<Rightarrow> 0)"

text \<open>The bytes of the cache file that are shown, and the offset that the counting starts from.\<close>

definition countBase :: "(bytes \<times> nat option) option \<Rightarrow> nat \<times> nat" where
  "countBase f = (length (cacheBytes f), if cacheBytes f = [] then 0 else cacheOffset f)"

definition savedRight :: "nat \<times> nat \<Rightarrow> termWrap \<Rightarrow> bool" where
  "savedRight base w \<longleftrightarrow>
     (\<forall>scr off. SaveTerminalState scr off \<in> set (tw_calls w) \<longrightarrow> off + fst base = snd base + screenBytes scr)"

text \<open>
  After the cache file: its write is still to come and nothing is shown, or the offset counts what
  is shown; the other writes add to the offset.
\<close>

definition offsetRight :: "nat \<times> nat \<Rightarrow> termWrap \<Rightarrow> bool" where
  "offsetRight base w \<longleftrightarrow>
     tw_phase w \<noteq> AwaitCache \<and> savedRight base w \<and>
     (\<exists>first rest. tw_writes w = first @ rest \<and> (\<forall>r \<in> set rest. tr_setPtyOffset r = None) \<and>
        (first = [] \<and> tw_ptyOffset w + fst base = snd base + screenBytes (tw_screen w) \<or>
         (\<exists>r. first = [r] \<and> tr_setPtyOffset r = Some (snd base) \<and> length (tr_data r) = fst base \<and>
            screenBytes (tw_screen w) = 0 \<and> tw_dataBytesProcessed w = 0)))"

lemma screenBytes_simps [simp]:
  "screenBytes [] = 0" "screenBytes (ops @ [Wrote d]) = screenBytes ops + length d"
  "screenBytes (ops @ [Cleared]) = screenBytes ops"
  by (simp_all add: screenBytes_def)

text \<open>Steps that touch neither the writes nor the screen.\<close>

lemma offsetRight_same:
  assumes "offsetRight base w" "tw_writes w' = tw_writes w" "screenBytes (tw_screen w') = screenBytes (tw_screen w)"
    "tw_ptyOffset w' = tw_ptyOffset w" "tw_dataBytesProcessed w' = tw_dataBytesProcessed w"
    "tw_phase w' = tw_phase w \<or> tw_phase w' = LoadEnded"
    "\<And>scr off. SaveTerminalState scr off \<in> set (tw_calls w') \<Longrightarrow> SaveTerminalState scr off \<in> set (tw_calls w)"
  shows "offsetRight base w'"
proof -
  have "tw_phase w' \<noteq> AwaitCache" using assms(1,6) by (auto simp: offsetRight_def)
  moreover have "savedRight base w'" using assms(1,7) unfolding offsetRight_def savedRight_def by blast
  ultimately show ?thesis using assms(1-5) by (simp add: offsetRight_def)
qed

lemma offsetRight_write:
  assumes "offsetRight base w" "ph \<noteq> AwaitCache"
  shows "offsetRight base (doTerminalWrite d None a (w\<lparr>tw_phase := ph\<rparr>))"
proof -
  obtain first rest where "tw_writes w = first @ rest" "\<forall>r \<in> set rest. tr_setPtyOffset r = None"
    "first = [] \<and> tw_ptyOffset w + fst base = snd base + screenBytes (tw_screen w) \<or>
         (\<exists>r. first = [r] \<and> tr_setPtyOffset r = Some (snd base) \<and> length (tr_data r) = fst base \<and>
            screenBytes (tw_screen w) = 0 \<and> tw_dataBytesProcessed w = 0)"
    using assms(1) unfolding offsetRight_def by blast
  moreover have "savedRight base w" using assms(1) by (simp add: offsetRight_def)
  ultimately show ?thesis
    using assms(2) unfolding offsetRight_def
    by (intro conjI exI [of _ first] exI [of _ "rest @ [\<lparr>tr_data = d, tr_setPtyOffset = None, tr_awaited = a\<rparr>]"])
      (auto simp: doTerminalWrite_def savedRight_def)
qed

lemma offsetRight_loadEnds: "offsetRight base w \<Longrightarrow> offsetRight base (loadEnds w)"
  by (erule offsetRight_same) (simp_all add: loadEnds_def)

lemma offsetRight_writeDone:
  assumes "offsetRight base w"
  shows "offsetRight base (writeDone w)"
proof -
  obtain first rest where w: "tw_writes w = first @ rest" "\<forall>r \<in> set rest. tr_setPtyOffset r = None"
    "first = [] \<and> tw_ptyOffset w + fst base = snd base + screenBytes (tw_screen w) \<or>
         (\<exists>r. first = [r] \<and> tr_setPtyOffset r = Some (snd base) \<and> length (tr_data r) = fst base \<and>
            screenBytes (tw_screen w) = 0 \<and> tw_dataBytesProcessed w = 0)"
    and ph: "tw_phase w \<noteq> AwaitCache" "savedRight base w"
    using assms unfolding offsetRight_def by blast
  have drained: "offsetRight base w2"
    if b: "\<forall>r \<in> set (tw_writes w2). tr_setPtyOffset r = None"
      "tw_ptyOffset w2 + fst base = snd base + screenBytes (tw_screen w2)" "tw_phase w2 \<noteq> AwaitCache" "tw_calls w2 = tw_calls w" for w2
    using b ph unfolding offsetRight_def savedRight_def by auto
  show ?thesis
  proof (cases "tw_writes w")
    case Nil
    then show ?thesis using assms by (simp add: writeDone_def)
  next
    case (Cons r rs)
    have "\<forall>r \<in> set rs. tr_setPtyOffset r = None" using w Cons by (cases first) auto
    moreover have "tw_writes (writeDone w) = rs" "tw_calls (writeDone w) = tw_calls w" "tw_phase (writeDone w) \<noteq> AwaitCache"
      using Cons ph(1) by (auto simp: writeDone_def loadEnds_def Let_def split: option.split)
    moreover have "tw_ptyOffset (writeDone w) + fst base = snd base + screenBytes (tw_screen (writeDone w))"
      using w Cons by (cases first) (auto simp: writeDone_def loadEnds_def Let_def)
    ultimately show ?thesis by (intro drained) simp_all
  qed
qed

lemma offsetRight_save:
  assumes "offsetRight base w"
  shows "offsetRight base (processAndCacheData w)"
  using assms unfolding offsetRight_def savedRight_def processAndCacheData_def termCall1_def by auto

lemma offsetRight_resize: "offsetRight base w \<Longrightarrow> offsetRight base (handleResize r c w)"
  by (erule offsetRight_same) (auto simp: handleResize_def termCall1_def Let_def split: if_splits)

lemma offsetRight_call:
  "offsetRight base w \<Longrightarrow> \<forall>scr off. c \<noteq> SaveTerminalState scr off \<Longrightarrow> offsetRight base (termCall1 c w)"
  by (erule offsetRight_same) (auto simp: termCall1_def)

lemma offsetRight_fileEvent:
  assumes "offsetRight base w"
  shows "offsetRight base (handleNewFileSubjectData msg w)"
proof -
  have "offsetRight base (doTerminalWrite d None False w)" for d
    using assms offsetRight_write [OF assms, of "tw_phase w" d False] by (simp add: offsetRight_def [of base w])
  moreover have "offsetRight base (w\<lparr>tw_heldData := hs\<rparr>)" "offsetRight base (w\<lparr>tw_screen := tw_screen w @ [Cleared], tw_heldData := hs\<rparr>)" for hs
    by (rule offsetRight_same [OF assms]; simp)+
  ultimately show ?thesis using assms by (simp add: handleNewFileSubjectData_def split: fileEvent.split)
qed

lemma offsetRight_step:
  assumes "offsetRight base w"
  shows "offsetRight base (termStep b64 e w)"
proof -
  have ph: "tw_phase w \<noteq> AwaitCache" using assms by (simp add: offsetRight_def)
  show ?thesis
  proof (cases e)
    case (MainFetched f)
    then show ?thesis
      using assms offsetRight_loadEnds [OF assms] offsetRight_write [OF assms, of AwaitWrite _ True]
      by (simp add: termStep_def mainFetched_def split: loadPhase.split option.split)
  qed (use assms ph in \<open>auto simp: termStep_def handleOsc7_def handleTermData_def
      intro: offsetRight_loadEnds offsetRight_fileEvent offsetRight_writeDone offsetRight_save
        offsetRight_resize offsetRight_call split: loadPhase.split option.split\<close>)
qed

lemma offsetRight_run: "offsetRight base w \<Longrightarrow> offsetRight base (fold (termStep b64) es w)"
  by (induction es arbitrary: w) (simp_all add: offsetRight_step)

lemma cacheFetched_base:
  assumes "\<forall>c \<in> set (tw_calls w). \<forall>scr off. c \<noteq> SaveTerminalState scr off"
    and "tw_writes w = []" "screenBytes (tw_screen w) = 0" "tw_ptyOffset w = 0" "tw_dataBytesProcessed w = 0"
  shows "offsetRight (countBase f) (cacheFetched f w)"
proof -
  have "savedRight (countBase f) (cacheFetched f w)"
    using assms(1) by (auto simp: savedRight_def cacheFetched_def doTerminalWrite_def Let_def split: option.split)
  moreover have "tw_phase (cacheFetched f w) \<noteq> AwaitCache"
    by (simp add: cacheFetched_def doTerminalWrite_def Let_def split: option.split)
  moreover have "\<exists>first rest. tw_writes (cacheFetched f w) = first @ rest \<and> (\<forall>r \<in> set rest. tr_setPtyOffset r = None) \<and>
        (first = [] \<and> tw_ptyOffset (cacheFetched f w) + fst (countBase f) = snd (countBase f) + screenBytes (tw_screen (cacheFetched f w)) \<or>
         (\<exists>r. first = [r] \<and> tr_setPtyOffset r = Some (snd (countBase f)) \<and> length (tr_data r) = fst (countBase f) \<and>
            screenBytes (tw_screen (cacheFetched f w)) = 0 \<and> tw_dataBytesProcessed (cacheFetched f w) = 0))"
    using assms(2-)
    by (intro exI [of _ "tw_writes (cacheFetched f w)"] exI [of _ "[]"])
      (auto simp: cacheFetched_def countBase_def cacheBytes_def cacheOffset_def doTerminalWrite_def Let_def split: option.split)
  ultimately show ?thesis by (simp add: offsetRight_def)
qed

text \<open>
  C40: whatever happens after the cache file of a new terminal has come (the main file, appended and
  truncated data, writes that finish, resizes, saves), a state that is saved comes with the offset of the
  cache file, which is where the main file is read from, plus the number of bytes written after the
  data of the cache file. Only for a cache file that has no data, the offset is the number of bytes
  written alone, although the main file is read from the offset of the cache file: the saved offset
  is behind by that much.
\<close>

theorem saved_offset_counts_what_is_shown:
  fixes f :: "(bytes \<times> nat option) option" and rows cols fitRows fitCols :: nat
  defines "w \<equiv> cacheFetched f (newTermWrap rows cols fitRows fitCols)"
  assumes "SaveTerminalState scr off \<in> set (tw_calls (fold (termStep b64) es w))"
  shows "tw_phase w = AwaitMain (cacheOffset f) \<and>
    off + length (cacheBytes f) = (if cacheBytes f = [] then 0 else cacheOffset f) + screenBytes scr"
proof -
  have "offsetRight (countBase f) w"
    unfolding w_def by (rule cacheFetched_base) (auto simp: newTermWrap_def handleResize_def termCall1_def Let_def)
  then have "off + fst (countBase f) = snd (countBase f) + screenBytes scr"
    using assms offsetRight_run [of "countBase f"] unfolding offsetRight_def savedRight_def by blast
  moreover have "tw_phase w = AwaitMain (cacheOffset f)"
    by (auto simp: w_def cacheFetched_def cacheOffset_def doTerminalWrite_def Let_def split: option.split)
  ultimately show ?thesis by (simp add: countBase_def)
qed

theorem saved_offset_counts_what_is_shown_witness:
  "\<exists>scr. SaveTerminalState scr 12000 \<in> set (tw_calls (fold (termStep id)
        [MainFetched (Some (replicate 11000 65)), WriteDone, WriteDone, IdleTimeout]
        (cacheFetched (Some ([66, 67], Some 1000)) (newTermWrap 24 80 40 120)))) \<and>
     12000 + 2 = 1000 + screenBytes scr"
  using saved_offset_counts_what_is_shown [of "[Wrote [66, 67], Wrote (replicate 11000 65)]" 12000 id
      "[MainFetched (Some (replicate 11000 65)), WriteDone, WriteDone, IdleTimeout]" "Some ([66, 67], Some 1000)" 24 80 40 120]
  by (auto simp: termStep_def cacheFetched_def mainFetched_def doTerminalWrite_def writeDone_def loadEnds_def
      processAndCacheData_def newTermWrap_def handleResize_def termCall1_def cacheBytes_def cacheOffset_def Let_def
      simp del: replicate.simps)

text \<open>A cache file without data: the main file is read from 1000, and the state is saved for offset 11000, not 12000.\<close>

theorem empty_cache_loses_offset:
  "tw_phase (cacheFetched (Some ([], Some 1000)) (newTermWrap 24 80 40 120)) = AwaitMain 1000 \<and>
   SaveTerminalState [Wrote (replicate 11000 65)] 11000 \<in> set (tw_calls (fold (termStep id)
        [MainFetched (Some (replicate 11000 65)), WriteDone, IdleTimeout]
        (cacheFetched (Some ([], Some 1000)) (newTermWrap 24 80 40 120))))"
  by (auto simp: termStep_def cacheFetched_def mainFetched_def doTerminalWrite_def writeDone_def loadEnds_def
      processAndCacheData_def newTermWrap_def handleResize_def termCall1_def Let_def simp del: replicate.simps)

theorem data_while_loading_is_lost_witness:
  "sameButHeld
     (fold (termStep id) (FileEvent (FileAppend [104, 105]) # [CacheFetched None, MainFetched None, WriteDone]) (newTermWrap 24 80 40 120))
     (fold (termStep id) [CacheFetched None, MainFetched None, WriteDone] (newTermWrap 24 80 40 120))"
  by (rule data_while_loading_is_lost) (simp add: newTermWrap_def handleResize_def termCall1_def)

end
