(* ===== verification/TermView.thy ===== *)
theory TermView
  imports KeyUtil
begin

text \<open>
  The terminal view around its wrapper (app/view/term/term.tsx): keys, themes (termutil.ts,
  termtheme.tsx), focus, the menu and the resynchronisation of the controller; the size of the
  terminal (fitaddon.ts) and the stickers (termsticker.tsx). The emulator and measurements are
  arguments; a measurement that is not a number is \<open>None\<close>.
\<close>

section \<open>Keys as characters\<close>

definition esc :: char where "esc = CHR 0x1B"

definition keyMap :: "(string, string) js_map" where
  "keyMap =
     [(''Enter'', [CHR 13]), (''Backspace'', [CHR 127]), (''Tab'', [CHR 9]), (''Escape'', [esc]),
      (''ArrowUp'', esc # ''[A''), (''ArrowDown'', esc # ''[B''), (''ArrowRight'', esc # ''[C''), (''ArrowLeft'', esc # ''[D''),
      (''Insert'', esc # ''[2~''), (''Delete'', esc # ''[3~''), (''Home'', esc # ''[1~''), (''End'', esc # ''[4~''),
      (''PageUp'', esc # ''[5~''), (''PageDown'', esc # ''[6~'')]"

text \<open>Strings compared by their characters' codes.\<close>

fun strLe :: "string \<Rightarrow> string \<Rightarrow> bool" where
  "strLe [] t = True"
| "strLe (c # s) [] = False"
| "strLe (c # s) (d # t) = (if c = d then strLe s t else (of_char c :: nat) < of_char d)"

record reactKey =
  rk_key :: "string option"
  rk_alt :: bool
  rk_ctrl :: bool
  rk_meta :: bool

definition upperCode :: "char \<Rightarrow> nat" where
  "upperCode c = (let n = of_char c in if 97 \<le> n \<and> n \<le> 122 then n - 32 else n)"

definition keyboardEventToASCII :: "reactKey \<Rightarrow> js_error + string" where
  "keyboardEventToASCII e =
     (if \<not> rk_alt e \<and> \<not> rk_ctrl e \<and> \<not> rk_meta e \<and> (rk_key e = None \<or> rk_key e = Some []) then Inr []
      else if \<not> rk_alt e \<and> \<not> rk_ctrl e \<and> \<not> rk_meta e \<and> map_get keyMap (the (rk_key e)) \<noteq> None
        then Inr (the (map_get keyMap (the (rk_key e))))
      else if \<not> rk_alt e \<and> \<not> rk_ctrl e \<and> \<not> rk_meta e \<and> length (the (rk_key e)) = 1 then Inr (the (rk_key e))
      else if rk_meta e \<or> rk_alt e then Inr []
      else if rk_ctrl e then
        (case rk_key e of
           None \<Rightarrow> Inl TypeError
         | Some key \<Rightarrow>
             if length key = 1 \<and> strLe ''A'' key \<and> strLe key ''Z'' \<or> strLe ''a'' key \<and> strLe key ''z''
             then Inr [char_of (upperCode (hd key) - 64)] else Inr [])
      else Inr [])"

section \<open>Themes\<close>

type_synonym termTheme = "(string, string) js_map"

text \<open>A theme over the default one: the values that are not blank replace the default ones.\<close>

definition overTheme :: "termTheme \<Rightarrow> termTheme \<Rightarrow> termTheme" where
  "overTheme defaultTheme theme =
     foldl (\<lambda>m (k, v). if isBlank (Some v) then m else map_set k v m) defaultTheme theme"

definition computeTheme :: "(string, termTheme) js_map \<Rightarrow> string option \<Rightarrow> termTheme" where
  "computeTheme termthemes themeName =
     (let name = (case themeName of None \<Rightarrow> ''default-dark'' | Some n \<Rightarrow> n);
          get = (\<lambda>n. case map_get termthemes n of None \<Rightarrow> [] | Some t \<Rightarrow> t)
      in overTheme (get ''default-dark'') (get name))"

definition themeOption :: "(string, termTheme) js_map \<Rightarrow> string option \<Rightarrow> termTheme" where
  "themeOption termthemes themeName = map_set ''background'' ''#00000000'' (computeTheme termthemes themeName)"

definition blockBg :: "(string, termTheme) js_map \<Rightarrow> string option \<Rightarrow> string option" where
  "blockBg termthemes themeName = map_get (computeTheme termthemes themeName) ''background''"

record themeEntry =
  te_name :: string
  te_displayName :: "string option"
  te_order :: rat

definition themeMenu :: "themeEntry list \<Rightarrow> (string \<times> string) list" where
  "themeMenu themes =
     map (\<lambda>e. (case te_displayName e of None \<Rightarrow> te_name e | Some d \<Rightarrow> d, te_name e)) (sort_key te_order themes)"

section \<open>The view\<close>

datatype termCommand =
    ResetMode
  | SetTheme string
  | Resync bool                    \<comment> \<open>forced\<close>
  | SendInput string
  | PasteClipboard
  | CopySelection
  | FocusTerminal
  | FocusHtml
  | SetRunning bool
  | SetOptionTheme termTheme
  | CreateBlock

record termView =
  tv_mode :: "string option"
  tv_title :: "string option"
  tv_controller :: "string option"
  tv_theme :: "string option"
  tv_terminal :: bool                          \<comment> \<open>the terminal is there\<close>
  tv_htmlElem :: bool
  tv_hasResized :: bool
  tv_procStatus :: "string option"
  tv_lastConn :: "(string \<times> string option) option"   \<comment> \<open>status and name of the connection, when last handled\<close>
  tv_calls :: "termCommand list"

definition newTermView :: "(string \<times> string option) option \<Rightarrow> termView" where
  "newTermView conn =
     \<lparr>tv_mode = None, tv_title = None, tv_controller = None, tv_theme = None, tv_terminal = False, tv_htmlElem = False,
      tv_hasResized = False, tv_procStatus = None, tv_lastConn = conn, tv_calls = []\<rparr>"

definition tvCall :: "termCommand \<Rightarrow> termView \<Rightarrow> termView" where
  "tvCall c v = v\<lparr>tv_calls := tv_calls v @ [c]\<rparr>"

definition termMode :: "termView \<Rightarrow> string" where
  "termMode v = (case tv_mode v of None \<Rightarrow> ''term'' | Some m \<Rightarrow> m)"

definition shownMode :: "termView \<Rightarrow> string" where
  "shownMode v = (if termMode v \<noteq> ''term'' \<and> termMode v \<noteq> ''html'' then ''term'' else termMode v)"

definition viewName :: "termView \<Rightarrow> string" where
  "viewName v = (if tv_controller v = Some ''cmd'' then ''Command'' else ''Terminal'')"

definition titleText :: "termView \<Rightarrow> string" where
  "titleText v = (case tv_title v of None \<Rightarrow> [] | Some t \<Rightarrow> t)"

definition termGiveFocus :: "termView \<Rightarrow> bool \<times> termView" where
  "termGiveFocus v =
     (if termMode v = ''term'' then (if tv_terminal v then (True, tvCall FocusTerminal v) else (False, v))
      else if tv_htmlElem v then (True, tvCall FocusHtml v)
      else (False, v))"

definition setTerminalTheme :: "string \<Rightarrow> termView \<Rightarrow> termView" where
  "setTerminalTheme name v = tvCall (SetTheme name) v"

definition forceRestart :: "termView \<Rightarrow> termView" where
  "forceRestart v = tvCall (Resync True) v"

definition themeUpdated :: "(string, termTheme) js_map \<Rightarrow> termView \<Rightarrow> termView" where
  "themeUpdated termthemes v =
     (if tv_terminal v then tvCall (SetOptionTheme (themeOption termthemes (tv_theme v))) v else v)"

text \<open>The controller is told again when the connection comes, goes or changes its name.\<close>

definition connChanged :: "(string \<times> string option) option \<Rightarrow> (string \<times> string option) option \<Rightarrow> bool" where
  "connChanged a b \<longleftrightarrow>
     (case a of None \<Rightarrow> False | Some (st, _) \<Rightarrow> st = ''connected'') \<noteq>
     (case b of None \<Rightarrow> False | Some (st, _) \<Rightarrow> st = ''connected'') \<or>
     (case a of None \<Rightarrow> None | Some (_, n) \<Rightarrow> n) \<noteq> (case b of None \<Rightarrow> None | Some (_, n) \<Rightarrow> n)"

definition termResync :: "(string \<times> string option) option \<Rightarrow> termView \<Rightarrow> termView" where
  "termResync connStatus v =
     (if \<not> tv_hasResized v then v
      else if \<not> connChanged connStatus (tv_lastConn v) then v
      else (tvCall (Resync False) v)\<lparr>tv_lastConn := connStatus\<rparr>)"

definition updateShellProcStatus :: "string option \<Rightarrow> termView \<Rightarrow> termView" where
  "updateShellProcStatus status v =
     (case status of
        None \<Rightarrow> v
      | Some st \<Rightarrow>
          let v = v\<lparr>tv_procStatus := Some st\<rparr>
          in if tv_terminal v then tvCall (SetRunning (st = ''running'')) v else v)"

text \<open>The keys for which the terminal leaves the event to the page.\<close>

definition leftToPage :: "string list" where
  "leftToPage =
     [''Ctrl:Shift:ArrowLeft'', ''Ctrl:Shift:ArrowRight'', ''Ctrl:Shift:ArrowUp'', ''Ctrl:Shift:ArrowDown''] @
     concat (map (\<lambda>d. [''Ctrl:Shift:c{Digit'' @ [d] @ ''}'', ''Ctrl:Shift:c{Numpad'' @ [d] @ ''}'']) ''123456789'')"

text \<open>Whether the terminal handles the event, and whether the page is kept from it.\<close>

definition handleTerminalKeydown :: "waveKeyboardEvent \<Rightarrow> termView \<Rightarrow> (bool \<times> bool) \<times> termView" where
  "handleTerminalKeydown e v =
     (if ev_type e \<noteq> ''keydown'' then ((True, False), v)
      else if checkKeyPressed e ''Cmd:Escape'' then ((False, True), tvCall ResetMode v)
      else if list_ex (checkKeyPressed e) leftToPage then ((False, False), v)
      else if checkKeyPressed e ''Ctrl:Shift:v'' then ((True, True), tvCall PasteClipboard v)
      else if checkKeyPressed e ''Ctrl:Shift:c'' then ((True, True), tvCall CopySelection v)
      else if tv_procStatus v \<noteq> Some ''running'' \<and> checkKeyPressed e ''Enter'' then ((False, False), tvCall (Resync False) v)
      else ((True, False), v))"

definition handleHtmlKeyDown :: "waveKeyboardEvent \<Rightarrow> reactKey \<Rightarrow> termView \<Rightarrow> (js_error + bool) \<times> termView" where
  "handleHtmlKeyDown e k v =
     (if checkKeyPressed e ''Cmd:Escape'' then (Inr False, tvCall ResetMode v)
      else case keyboardEventToASCII k of
             Inl err \<Rightarrow> (Inl err, v)
           | Inr asciiVal \<Rightarrow> if asciiVal = [] then (Inr False, v) else (Inr True, tvCall (SendInput asciiVal) v))"

section \<open>The size of the terminal\<close>

record fitInput =
  ft_cellWidth :: rat
  ft_cellHeight :: rat
  ft_scrollBarWidth :: int
  ft_scrollback :: nat
  ft_noScrollbar :: bool
  ft_parentHeight :: "int option"
  ft_parentWidth :: "int option"
  ft_paddingVer :: "int option"
  ft_paddingHor :: "int option"

definition MINIMUM_COLS :: int where "MINIMUM_COLS = 2"
definition MINIMUM_ROWS :: int where "MINIMUM_ROWS = 1"

definition availableWidth :: "fitInput \<Rightarrow> int option" where
  "availableWidth f =
     (let scrollbarWidth = (if ft_noScrollbar f then 0 else if ft_scrollback f = 0 then 0 else ft_scrollBarWidth f)
      in case (ft_parentWidth f, ft_paddingHor f) of
           (Some w, Some p) \<Rightarrow> Some (max 0 w - p - scrollbarWidth - 6)
         | _ \<Rightarrow> None)"

definition availableHeight :: "fitInput \<Rightarrow> int option" where
  "availableHeight f =
     (case (ft_parentHeight f, ft_paddingVer f) of (Some h, Some p) \<Rightarrow> Some (h - p) | _ \<Rightarrow> None)"

text \<open>\<open>None\<close> without an element or with empty cells; a column or row number that is \<open>None\<close> is not a number.\<close>

definition proposeDimensions :: "bool \<Rightarrow> fitInput \<Rightarrow> (int option \<times> int option) option" where
  "proposeDimensions mounted f =
     (if \<not> mounted then None
      else if ft_cellWidth f = 0 \<or> ft_cellHeight f = 0 then None
      else Some (map_option (\<lambda>w. max MINIMUM_COLS \<lfloor>of_int w / ft_cellWidth f\<rfloor>) (availableWidth f),
                 map_option (\<lambda>h. max MINIMUM_ROWS \<lfloor>of_int h / ft_cellHeight f\<rfloor>) (availableHeight f)))"

text \<open>The columns and rows of the terminal after fitting.\<close>

definition fit :: "bool \<Rightarrow> fitInput \<Rightarrow> int \<times> int \<Rightarrow> int \<times> int" where
  "fit mounted f cur =
     (case proposeDimensions mounted f of
        Some (Some cols, Some rows) \<Rightarrow> if cur \<noteq> (cols, rows) then (cols, rows) else cur
      | _ \<Rightarrow> cur)"

section \<open>Stickers\<close>

record sticker =
  st_top :: "rat option"
  st_left :: "rat option"
  st_right :: "rat option"
  st_bottom :: "rat option"
  st_width :: "rat option"
  st_height :: "rat option"
  st_pointerevents :: bool
  st_type :: string
  st_imgsrc :: "string option"
  st_clickcmd :: "string option"
  st_clickblockdef :: bool

definition convertDimToPx :: "rat \<Rightarrow> rat option \<Rightarrow> rat option" where
  "convertDimToPx charSize d = map_option (\<lambda>x. x * charSize) d"

text \<open>Top, left, right, bottom, width and height in pixels.\<close>

definition stickerBox :: "rat \<Rightarrow> rat \<Rightarrow> sticker \<Rightarrow> rat option list" where
  "stickerBox charWidth charHeight s =
     [convertDimToPx charHeight (st_top s), convertDimToPx charWidth (st_left s), convertDimToPx charWidth (st_right s),
      convertDimToPx charHeight (st_bottom s), convertDimToPx charWidth (st_width s), convertDimToPx charHeight (st_height s)]"

definition stickerClickable :: "sticker \<Rightarrow> bool" where
  "stickerClickable s \<longleftrightarrow> st_pointerevents s \<and> (\<not> isBlank (st_clickcmd s) \<or> st_clickblockdef s)"

definition stickerClicked :: "sticker \<Rightarrow> termView \<Rightarrow> termView" where
  "stickerClicked s v =
     (if \<not> stickerClickable s \<or> st_type s \<notin> {''icon'', ''image''} then v
      else
        let v = (if \<not> isBlank (st_clickcmd s) then tvCall (SendInput (the (st_clickcmd s))) v else v)
        in if st_clickblockdef s then tvCall CreateBlock v else v)"

definition stickerShown :: "sticker \<Rightarrow> bool" where
  "stickerShown s \<longleftrightarrow>
     st_type s = ''icon'' \<or> st_type s = ''image'' \<and> st_imgsrc s \<noteq> None \<or> st_type s = ''gauge''"

definition gaugeStep :: "rat \<Rightarrow> rat \<Rightarrow> rat" where
  "gaugeStep amt value = max 0 (min 100 (value + amt))"

section \<open>Properties\<close>

text \<open>
  The terminal fits: whatever is measured, it has at least two columns and one row, and more
  of them only if they fit into the space that is left of the width and height; measurements that
  are no numbers leave its size as it is.
\<close>

theorem fitted_terminal_fits:
  assumes "fit mounted f cur = (cols, rows)" "fit mounted f cur \<noteq> cur" "0 < ft_cellWidth f" "0 < ft_cellHeight f"
  shows "\<exists>w h. availableWidth f = Some w \<and> availableHeight f = Some h \<and>
    2 \<le> cols \<and> (2 < cols \<longrightarrow> of_int cols * ft_cellWidth f \<le> of_int w) \<and>
    1 \<le> rows \<and> (1 < rows \<longrightarrow> of_int rows * ft_cellHeight f \<le> of_int h)"
proof -
  obtain w h where wh: "availableWidth f = Some w" "availableHeight f = Some h"
    and dims: "cols = max MINIMUM_COLS \<lfloor>of_int w / ft_cellWidth f\<rfloor>" "rows = max MINIMUM_ROWS \<lfloor>of_int h / ft_cellHeight f\<rfloor>"
    using assms(1,2) by (auto simp: fit_def proposeDimensions_def split: option.splits if_splits)
  have fits: "of_int \<lfloor>of_int a / c\<rfloor> * c \<le> of_int a" if "0 < c" for a and c :: rat
    using mult_right_mono [OF of_int_floor_le [of "of_int a / c"], of c] that by simp
  show ?thesis
    using fits [OF assms(3), of w] fits [OF assms(4), of h]
    by (intro exI [of _ w] exI [of _ h]) (auto simp: wh dims MINIMUM_COLS_def MINIMUM_ROWS_def max_def)
qed

definition demoFit :: fitInput where
  "demoFit =
     \<lparr>ft_cellWidth = 8, ft_cellHeight = 16, ft_scrollBarWidth = 0, ft_scrollback = 0, ft_noScrollbar = False,
      ft_parentHeight = Some 384, ft_parentWidth = Some 646, ft_paddingVer = Some 0, ft_paddingHor = Some 0\<rparr>"

theorem fitted_terminal_fits_witness:
  "\<exists>w h. availableWidth demoFit = Some w \<and> availableHeight demoFit = Some h \<and>
    2 \<le> (80 :: int) \<and> (2 < (80 :: int) \<longrightarrow> of_int 80 * ft_cellWidth demoFit \<le> of_int w) \<and>
    1 \<le> (24 :: int) \<and> (1 < (24 :: int) \<longrightarrow> of_int 24 * ft_cellHeight demoFit \<le> of_int h)"
  by (rule fitted_terminal_fits [where mounted = True and cur = "(0, 0)"])
    (simp_all add: fit_def proposeDimensions_def availableWidth_def availableHeight_def demoFit_def MINIMUM_COLS_def MINIMUM_ROWS_def)

lemma strLe_char: "strLe [c] [d] \<longleftrightarrow> (of_char c :: nat) \<le> of_char d"
  by (auto simp: le_less)

text \<open>A letter with Ctrl is sent as a control character from 1 to 26, the same for both cases.\<close>

theorem ctrl_letter_is_control:
  assumes "rk_ctrl k" "\<not> rk_alt k" "\<not> rk_meta k" "rk_key k = Some [c]" "(of_char c :: nat) \<in> {65..90} \<union> {97..122}"
  shows "\<exists>n. keyboardEventToASCII k = Inr [char_of n] \<and> n = upperCode c - 64 \<and> 1 \<le> n \<and> n \<le> 26"
  using assms
  by (auto simp: keyboardEventToASCII_def strLe_char upperCode_def Let_def simp del: strLe.simps)

text \<open>What a theme looks up: its own value unless it is blank, else the default one.\<close>

lemma overTheme_get:
  "distinct (map fst theme) \<Longrightarrow>
    map_get (overTheme d theme) k =
      (case map_get theme k of None \<Rightarrow> map_get d k | Some v \<Rightarrow> if v = [] then map_get d k else Some v)"
proof (induction theme arbitrary: d)
  case (Cons kv theme)
  obtain j v where [simp]: "kv = (j, v)" by (cases kv)
  have "map_get theme k = None" if "k = j" using Cons.prems that by (simp add: map_get_None_iff)
  then show ?case using Cons by (auto simp: overTheme_def isBlank_def map_get_Cons split: option.split)
qed (simp add: overTheme_def)

fun changes :: "(string \<times> string option) option \<Rightarrow> (string \<times> string option) option list \<Rightarrow> nat" where
  "changes last1 [] = 0"
| "changes last1 (c # cs) = (if connChanged c last1 then Suc (changes c cs) else changes last1 cs)"

text \<open>
  The controller is resynchronised exactly at the changes that count: over any sequence of
  connection statuses of a terminal that has its size, as often as the connection comes, goes, or
  changes its name.
\<close>

theorem resync_at_changes:
  assumes "tv_hasResized v"
  shows "tv_calls (fold termResync cs v) = tv_calls v @ replicate (changes (tv_lastConn v) cs) (Resync False)"
  using assms
  by (induction cs arbitrary: v) (auto simp: termResync_def tvCall_def)

theorem resync_at_changes_witness:
  "tv_calls (fold termResync [Some (''connecting'', Some ''h''), Some (''connected'', Some ''h'')]
     ((newTermView (Some (''disconnected'', Some ''h'')))\<lparr>tv_hasResized := True\<rparr>)) = [Resync False]"
  using resync_at_changes [of "(newTermView (Some (''disconnected'', Some ''h'')))\<lparr>tv_hasResized := True\<rparr>"
      "[Some (''connecting'', Some ''h''), Some (''connected'', Some ''h'')]"]
  by (simp add: newTermView_def connChanged_def)

end
