(* ===== verification/Preview.thy ===== *)
theory Preview
  imports IJson HistoryUtil KeyUtil
begin

text \<open>
  The preview of files (app/view/preview/preview.tsx): which view shows a file, the header and the
  icons, navigation and history, the modal that opens a path, and editing with its saved and unsaved
  text. What the backend answers about a file (its information and its content) and the promises that
  carry the answers are arguments.
\<close>

section \<open>Kinds of files\<close>

definition MaxFileSize :: int where "MaxFileSize = 1024 * 1024 * 10"
definition MaxCSVSize :: int where "MaxCSVSize = 1024 * 1024 * 1"

definition textApplicationMimetypes :: "string list" where
  "textApplicationMimetypes =
     [''application/sql'', ''application/pem-certificate-chain'', ''application/x-php'', ''application/x-httpd-php'',
      ''application/liquid'', ''application/graphql'', ''application/javascript'', ''application/typescript'',
      ''application/x-javascript'', ''application/x-typescript'', ''application/dart'', ''application/vnd.dart'',
      ''application/x-ruby'', ''application/sql'', ''application/wasm'', ''application/x-latex'', ''application/x-sh'',
      ''application/x-python'']"

definition structuredText :: "string \<Rightarrow> bool" where
  "structuredText mimeType \<longleftrightarrow>
     js_is_prefix ''application/'' mimeType \<and>
     (js_includes mimeType ''json'' \<or> js_includes mimeType ''yaml'' \<or> js_includes mimeType ''toml'')"

definition isTextFile :: "string option \<Rightarrow> bool" where
  "isTextFile mimeType =
     (case mimeType of
        None \<Rightarrow> False
      | Some m \<Rightarrow>
          js_is_prefix ''text/'' m \<or> m \<in> set textApplicationMimetypes \<or> structuredText m \<or> js_includes m ''xml'')"

definition canPreview :: "string option \<Rightarrow> bool" where
  "canPreview mimeType =
     (case mimeType of
        None \<Rightarrow> False
      | Some m \<Rightarrow> js_is_prefix ''text/markdown'' m \<or> js_is_prefix ''text/csv'' m)"

definition isStreamingType :: "string option \<Rightarrow> bool" where
  "isStreamingType mimeType =
     (case mimeType of
        None \<Rightarrow> False
      | Some m \<Rightarrow>
          js_is_prefix ''application/pdf'' m \<or> js_is_prefix ''video/'' m \<or> js_is_prefix ''audio/'' m \<or> js_is_prefix ''image/'' m)"

definition iconForFile :: "string option \<Rightarrow> string" where
  "iconForFile mimeType =
     (let m = (case mimeType of None \<Rightarrow> ''unknown'' | Some m \<Rightarrow> m) in
      if m = ''application/pdf'' then ''file-pdf''
      else if js_is_prefix ''image/'' m then ''image''
      else if js_is_prefix ''video/'' m then ''film''
      else if js_is_prefix ''audio/'' m then ''headphones''
      else if js_is_prefix ''text/markdown'' m then ''file-lines''
      else if m = ''text/csv'' then ''file-csv''
      else if js_is_prefix ''text/'' m \<or> m = ''application/sql'' \<or> structuredText m then ''file-code''
      else ''file'')"

text \<open>The element that streams a file, and \<open>None\<close> for the text that there is no preview.\<close>

definition streamingElem :: "string \<Rightarrow> string option" where
  "streamingElem m =
     (if m = ''application/pdf'' then Some ''iframe''
      else if js_is_prefix ''video/'' m then Some ''video''
      else if js_is_prefix ''audio/'' m then Some ''audio''
      else if js_is_prefix ''image/'' m then Some ''img''
      else None)"

definition streamingUrl :: "(string \<Rightarrow> string) \<Rightarrow> string \<Rightarrow> string option \<Rightarrow> string \<Rightarrow> string" where
  "streamingUrl encode endpoint conn filePath =
     endpoint @ ''/wave/stream-file?path='' @ encode filePath @
     (case conn of None \<Rightarrow> [] | Some c \<Rightarrow> ''&connection='' @ encode c)"

section \<open>State\<close>

record pvFile =
  pf_path :: string
  pf_dir :: string
  pf_name :: "string option"
  pf_notfound :: bool
  pf_isdir :: bool
  pf_size :: int
  pf_mimetype :: "string option"

datatype previewCall =
    UpdateHistory historyUpdate "bool option"      \<comment> \<open>with the value of \<open>edit\<close>, when it is set\<close>
  | UpdateEdit bool                                 \<comment> \<open>the metadata with another value of \<open>edit\<close>\<close>
  | UpdateFile string
  | SaveFile string string string                   \<comment> \<open>connection, path, text\<close>
  | RemoteFileJoin string string string             \<comment> \<open>route, directory, path\<close>
  | RefocusNode
  | RefreshDirectoryView
  | FocusModal
  | FocusEditor

text \<open>The model with the metadata of its block.\<close>

record previewModel =
  pv_file :: "string option"
  pv_history :: "historyMeta option"
  pv_connection :: "string option"
  pv_edit :: "bool option"
  pv_icon :: "string option"
  pv_connected :: bool
  pv_showHiddenFiles :: bool
  pv_openFileModal :: bool
  pv_openFileError :: "string option"
  pv_markdownShowToc :: bool
  pv_fileContentSaved :: "string option"
  pv_newFileContent :: "string option"
  pv_canPreview :: bool
  pv_editor :: "string option"                      \<comment> \<open>the text in the editor, when it is mounted\<close>
  pv_calls :: "previewCall list"

definition newPreviewModel :: "string option \<Rightarrow> historyMeta option \<Rightarrow> string option \<Rightarrow> bool \<Rightarrow> previewModel" where
  "newPreviewModel file history conn isConnected =
     \<lparr>pv_file = file, pv_history = history, pv_connection = conn, pv_edit = None, pv_icon = None, pv_connected = isConnected,
      pv_showHiddenFiles = True, pv_openFileModal = False, pv_openFileError = None, pv_markdownShowToc = False,
      pv_fileContentSaved = None, pv_newFileContent = None, pv_canPreview = False, pv_editor = None, pv_calls = []\<rparr>"

definition pvCall :: "previewCall \<Rightarrow> previewModel \<Rightarrow> previewModel" where
  "pvCall c p = p\<lparr>pv_calls := pv_calls p @ [c]\<rparr>"

section \<open>Derived atoms\<close>

definition metaFilePath :: "previewModel \<Rightarrow> string" where
  "metaFilePath p = (if isBlank (pv_file p) then ''~'' else the (pv_file p))"

definition statFilePath :: "pvFile option \<Rightarrow> string option" where
  "statFilePath fileInfo = map_option pf_path fileInfo"

definition normFilePath :: "pvFile option \<Rightarrow> string option" where
  "normFilePath fileInfo =
     (case fileInfo of
        None \<Rightarrow> None
      | Some f \<Rightarrow>
          if pf_isdir f then Some (pf_dir f @ ''/'')
          else Some (pf_dir f @ ''/'' @ (case pf_name f of None \<Rightarrow> ''undefined'' | Some n \<Rightarrow> n)))"

definition connOf :: "previewModel \<Rightarrow> string" where
  "connOf p = (case pv_connection p of None \<Rightarrow> [] | Some c \<Rightarrow> c)"

definition fileMimeType :: "pvFile option \<Rightarrow> string option" where
  "fileMimeType fileInfo = (case fileInfo of None \<Rightarrow> None | Some f \<Rightarrow> pf_mimetype f)"

definition editMode :: "previewModel \<Rightarrow> bool" where
  "editMode p = (case pv_edit p of None \<Rightarrow> False | Some b \<Rightarrow> b)"

text \<open>The text of the file: unsaved, else as last saved here, else as read from the backend.\<close>

definition fileContent :: "string \<Rightarrow> previewModel \<Rightarrow> string" where
  "fileContent fullFile p =
     (case pv_newFileContent p of
        Some new \<Rightarrow> new
      | None \<Rightarrow> (case pv_fileContentSaved p of Some saved \<Rightarrow> saved | None \<Rightarrow> fullFile))"

datatype specialView = View string | ErrorStr string

definition getSpecializedView :: "pvFile option \<Rightarrow> bool \<Rightarrow> js_error + specialView" where
  "getSpecializedView fileInfo edit =
     (let mimeType = fileMimeType fileInfo;
          fileName = statFilePath fileInfo
      in
      if (case fileInfo of None \<Rightarrow> False | Some f \<Rightarrow> pf_notfound f)
      then Inr (ErrorStr (''File Not Found: '' @ pf_path (the fileInfo)))
      else
        (case mimeType of
           None \<Rightarrow>
             (case fileInfo of
                None \<Rightarrow> Inl TypeError
              | Some f \<Rightarrow> Inr (ErrorStr (''Unable to determine mimetype for: '' @ pf_path f)))
         | Some m \<Rightarrow>
             if isStreamingType (Some m) then Inr (View ''streaming'')
             else
               (case fileInfo of
                  None \<Rightarrow>
                    Inr (ErrorStr (''File Not Found'' @ (case fileName of None \<Rightarrow> [] | Some n \<Rightarrow> if n = [] then [] else '' '' @ stringifyString n)))
                | Some f \<Rightarrow>
                    if pf_size f > MaxFileSize then Inr (ErrorStr ''File Too Large to Preiview (10 MB Max)'')
                    else if m = ''text/csv'' \<and> pf_size f > MaxCSVSize then Inr (ErrorStr ''CSV File Too Large to Preiview (1 MB Max)'')
                    else if m = ''directory'' then Inr (View ''directory'')
                    else if m = ''text/csv'' then Inr (View (if edit then ''codeedit'' else ''csv''))
                    else if js_is_prefix ''text/markdown'' m then Inr (View (if edit then ''codeedit'' else ''markdown''))
                    else if isTextFile (Some m) \<or> pf_size f = 0 then Inr (View ''codeedit'')
                    else Inr (ErrorStr (''Preview ('' @ m @ '')'')))))"

text \<open>A promise of the model as \<open>loadable\<close> gives it: the view of a loaded file.\<close>

definition isSpecializedView :: "specialView loadable \<Rightarrow> string \<Rightarrow> bool" where
  "isSpecializedView loadableSV sv =
     (case loadableSV of HasData (View v) \<Rightarrow> v = sv | _ \<Rightarrow> False)"

datatype rendered =
    ShowError string | ShowView string | InvalidView string

definition SpecializedViewMap :: "string list" where
  "SpecializedViewMap = [''streaming'', ''markdown'', ''codeedit'', ''csv'', ''directory'']"

definition specializedViewElem :: "specialView \<Rightarrow> rendered" where
  "specializedViewElem sv =
     (case sv of
        ErrorStr e \<Rightarrow> ShowError e
      | View v \<Rightarrow> if v \<in> set SpecializedViewMap then ShowView v else InvalidView v)"

definition mimeOf :: "string option loadable \<Rightarrow> string option" where
  "mimeOf l = jotaiLoadableValue l (Some [])"

section \<open>The header\<close>

datatype viewIcon = NoIcon | NamedIcon string | FolderMenu "(string \<times> string) list"

text \<open>The folder icon opens a menu of places on a long click.\<close>

definition viewIcon :: "string option loadable \<Rightarrow> previewModel \<Rightarrow> viewIcon" where
  "viewIcon mimeTypeLoadable p =
     (if pv_icon p \<noteq> None \<and> pv_icon p \<noteq> Some [] then NamedIcon (the (pv_icon p))
      else if \<not> pv_connected p then NoIcon
      else if mimeOf mimeTypeLoadable = Some ''directory'' then
        FolderMenu [(''Go to Home'', ''~''), (''Go to Desktop'', ''~/Desktop''), (''Go to Downloads'', ''~/Downloads''),
                    (''Go to Documents'', ''~/Documents''), (''Go to Root'', ''/'')]
      else NamedIcon (iconForFile (mimeOf mimeTypeLoadable)))"

datatype headerAction = NoAction | OpenPathModal | SaveAction | SetEdit bool | GoParent | ToggleHidden | RefreshView | ToggleToc

datatype headerElem = HeaderText "string option" headerAction | HeaderButton string string headerAction

definition viewText :: "specialView loadable \<Rightarrow> pvFile option loadable \<Rightarrow> previewModel \<Rightarrow> headerElem list" where
  "viewText loadableSV loadableFileInfo p =
     (if \<not> pv_connected p then [HeaderText (Some (metaFilePath p)) NoAction]
      else
        let isCeView = isSpecializedView loadableSV ''codeedit'';
            headerPath = (case loadableFileInfo of
                            HasData fi \<Rightarrow>
                              (case fi of
                                 None \<Rightarrow> None
                               | Some f \<Rightarrow> Some (if pf_path f = ''~'' then ''~ ('' @ pf_dir f @ '')'' else pf_path f))
                          | _ \<Rightarrow> Some (metaFilePath p));
            saveClassName = (if pv_newFileContent p \<noteq> None then ''green'' else ''grey'')
        in HeaderText headerPath OpenPathModal #
           (if isCeView then
              HeaderButton ''Save'' saveClassName SaveAction #
              (if pv_canPreview p then [HeaderButton ''Preview'' ''grey'' (SetEdit False)] else [])
            else if pv_canPreview p then [HeaderButton ''Edit'' ''grey'' (SetEdit True)] else []))"

definition preIconButton :: "string option loadable \<Rightarrow> previewModel \<Rightarrow> headerElem option" where
  "preIconButton mimeTypeLoadable p =
     (if \<not> pv_connected p then None
      else if mimeOf mimeTypeLoadable = Some ''directory'' \<and> metaFilePath p = ''/'' then None
      else Some (HeaderButton ''chevron-left'' [] GoParent))"

definition endIconButtons ::
  "string option loadable \<Rightarrow> specialView loadable \<Rightarrow> previewModel \<Rightarrow> headerElem list option" where
  "endIconButtons mimeTypeLoadable loadableSV p =
     (if \<not> pv_connected p then None
      else
        let mimeType = mimeOf mimeTypeLoadable; isCeView = isSpecializedView loadableSV ''codeedit'' in
        if mimeType = Some ''directory'' then
          Some [HeaderButton (if pv_showHiddenFiles p then ''eye'' else ''eye-slash'') [] ToggleHidden,
                HeaderButton ''arrows-rotate'' [] RefreshView]
        else if \<not> isCeView \<and> (case mimeType of None \<Rightarrow> False | Some m \<Rightarrow> js_is_prefix ''text/markdown'' m) then
          Some [HeaderButton ''book'' ''Table of Contents'' ToggleToc]
        else None)"

section \<open>Navigation\<close>

definition setPreviewFileName :: "string \<Rightarrow> previewModel \<Rightarrow> previewModel" where
  "setPreviewFileName fileName p = pvCall (UpdateFile fileName) (p\<lparr>pv_fileContentSaved := None, pv_newFileContent := None\<rparr>)"

definition updateOpenFileModalAndError :: "bool \<Rightarrow> string option \<Rightarrow> previewModel \<Rightarrow> previewModel" where
  "updateOpenFileModalAndError isOpen errorMsg p = p\<lparr>pv_openFileModal := isOpen, pv_openFileError := errorMsg\<rparr>"

definition markdownShowTocToggle :: "previewModel \<Rightarrow> previewModel" where
  "markdownShowTocToggle p = p\<lparr>pv_markdownShowToc := \<not> pv_markdownShowToc p\<rparr>"

definition previewGoHistory :: "string \<Rightarrow> previewModel \<Rightarrow> previewModel" where
  "previewGoHistory newPath p = pvCall (UpdateHistory (goHistory (metaFilePath p) newPath (pv_history p)) None) p"

definition previewGoBack :: "previewModel \<Rightarrow> previewModel" where
  "previewGoBack p =
     (case goHistoryBack (metaFilePath p) (pv_history p) True of
        Inr (Some u) \<Rightarrow> pvCall (UpdateHistory u (Some False)) p
      | _ \<Rightarrow> p)"

definition previewGoForward :: "previewModel \<Rightarrow> previewModel" where
  "previewGoForward p =
     (case goHistoryForward (metaFilePath p) (pv_history p) of
        Some u \<Rightarrow> pvCall (UpdateHistory u (Some False)) p
      | None \<Rightarrow> p)"

text \<open>
  Opening a path relative to the directory of the file, once the information about it is there: the
  backend joins the two; its answer, or its error, arrives later.
\<close>

definition handleOpenFile :: "pvFile option \<Rightarrow> string \<Rightarrow> previewModel \<Rightarrow> previewModel" where
  "handleOpenFile fileInfo filePath p =
     (case fileInfo of
        None \<Rightarrow> updateOpenFileModalAndError False None p
      | Some f \<Rightarrow> pvCall (RemoteFileJoin (makeConnRoute (pv_connection p)) (pf_dir f) filePath) p)"

definition goParentDirectory :: "pvFile option \<Rightarrow> previewModel \<Rightarrow> previewModel" where
  "goParentDirectory fileInfo p =
     (case fileInfo of
        None \<Rightarrow> updateOpenFileModalAndError False None p
      | Some f \<Rightarrow> pvCall (RemoteFileJoin (makeConnRoute (pv_connection p)) (pf_dir f) ''..'') p)"

definition joinReturned :: "string + string \<Rightarrow> previewModel \<Rightarrow> previewModel" where
  "joinReturned r p =
     (case r of
        Inr path \<Rightarrow> pvCall RefocusNode (previewGoHistory path (updateOpenFileModalAndError False None p))
      | Inl e \<Rightarrow> p\<lparr>pv_openFileError := Some e\<rparr>)"

definition setEditMode :: "bool \<Rightarrow> previewModel \<Rightarrow> previewModel" where
  "setEditMode edit p = pvCall (UpdateEdit edit) p"

text \<open>The block as the backend sends it after a change of its metadata.\<close>

definition blockUpdated :: "historyUpdate \<Rightarrow> bool option \<Rightarrow> previewModel \<Rightarrow> previewModel" where
  "blockUpdated u edit p =
     (let m = (case pv_history p of None \<Rightarrow> \<lparr>hm_history = None, hm_forward = None\<rparr> | Some m \<Rightarrow> m);
          (file, m) = applyUpdate (metaFilePath p, m) u
      in p\<lparr>pv_file := Some file, pv_history := Some m, pv_edit := (case edit of None \<Rightarrow> pv_edit p | Some e \<Rightarrow> Some e)\<rparr>)"

section \<open>Editing\<close>

definition textTyped :: "string \<Rightarrow> previewModel \<Rightarrow> previewModel" where
  "textTyped txt p = p\<lparr>pv_newFileContent := Some txt, pv_editor := Some txt\<rparr>"

text \<open>
  Saving does not wait for the backend: a promise that is rejected later does not reach the
  \<open>catch\<close>.
\<close>

definition handleFileSave :: "string option \<Rightarrow> previewModel \<Rightarrow> previewModel" where
  "handleFileSave filePath p =
     (case filePath of
        None \<Rightarrow> p
      | Some path \<Rightarrow>
          (case pv_newFileContent p of
             None \<Rightarrow> p
           | Some new \<Rightarrow>
               (pvCall (SaveFile (connOf p) path new) p)\<lparr>pv_fileContentSaved := Some new, pv_newFileContent := None\<rparr>))"

definition handleFileRevert :: "string \<Rightarrow> previewModel \<Rightarrow> previewModel" where
  "handleFileRevert fullFile p =
     p\<lparr>pv_editor := map_option (\<lambda>_. fileContent fullFile p) (pv_editor p), pv_newFileContent := None\<rparr>"

definition editorMounted :: "string \<Rightarrow> bool \<Rightarrow> previewModel \<Rightarrow> previewModel" where
  "editorMounted fullFile isFocused p =
     (let p = p\<lparr>pv_editor := Some (fileContent fullFile p)\<rparr> in if isFocused then pvCall FocusEditor p else p)"

definition editorUnmounted :: "previewModel \<Rightarrow> previewModel" where
  "editorUnmounted p = p\<lparr>pv_editor := None\<rparr>"

text \<open>The effect of the component that picks the view.\<close>

definition mimeTypeChanged :: "string option \<Rightarrow> previewModel \<Rightarrow> previewModel" where
  "mimeTypeChanged mimeType p = p\<lparr>pv_canPreview := canPreview mimeType\<rparr>"

definition codeEditKeyDownHandler ::
  "string option \<Rightarrow> string \<Rightarrow> waveKeyboardEvent \<Rightarrow> previewModel \<Rightarrow> bool \<times> previewModel" where
  "codeEditKeyDownHandler filePath fullFile e p =
     (if checkKeyPressed e ''Cmd:e'' then (True, setEditMode False p)
      else if checkKeyPressed e ''Cmd:s'' then (True, handleFileSave filePath p)
      else if checkKeyPressed e ''Cmd:r'' then (True, handleFileRevert fullFile p)
      else (False, p))"

section \<open>Menu, focus and keys\<close>

datatype menuAction = CopyPath "string option" | CopyName "string option" | NewTerminal "string option" | MenuSave | MenuRevert | MenuSeparator

definition settingsMenu ::
  "string option loadable \<Rightarrow> specialView loadable \<Rightarrow> pvFile option \<Rightarrow> previewModel \<Rightarrow> (string \<times> menuAction) list" where
  "settingsMenu mimeTypeLoadable loadableSV fileInfo p =
     [(''Copy Full Path'', CopyPath (normFilePath fileInfo)),
      (''Copy File Name'', CopyName (case fileInfo of None \<Rightarrow> None | Some f \<Rightarrow> pf_name f))] @
     (if mimeOf mimeTypeLoadable = Some ''directory''
      then [(''Open Terminal in New Block'', NewTerminal (map_option pf_dir fileInfo))] else []) @
     (if isSpecializedView loadableSV ''codeedit'' \<and> pv_newFileContent p \<noteq> None
      then [([], MenuSeparator), (''Save File'', MenuSave), (''Revert File'', MenuRevert)] else [])"

definition previewGiveFocus :: "previewModel \<Rightarrow> bool \<times> previewModel" where
  "previewGiveFocus p =
     (if pv_openFileModal p then (True, pvCall FocusModal p)
      else if pv_editor p \<noteq> None then (True, pvCall FocusEditor p)
      else (False, p))"

type_synonym keyHandler = "waveKeyboardEvent \<Rightarrow> previewModel \<Rightarrow> bool \<times> previewModel"

definition orHandler :: "keyHandler option \<Rightarrow> keyHandler \<Rightarrow> keyHandler" where
  "orHandler h rest e p =
     (case h of
        None \<Rightarrow> rest e p
      | Some f \<Rightarrow> (let (handled, p) = f e p in if handled then (True, p) else rest e p))"

definition keyDownHandler :: "pvFile option \<Rightarrow> keyHandler option \<Rightarrow> keyHandler option \<Rightarrow> keyHandler" where
  "keyDownHandler fileInfo directoryHandler codeEditHandler e p =
     (if checkKeyPressed e ''Cmd:ArrowLeft'' then (True, previewGoBack p)
      else if checkKeyPressed e ''Cmd:ArrowRight'' then (True, previewGoForward p)
      else if checkKeyPressed e ''Cmd:ArrowUp'' then (True, goParentDirectory fileInfo p)
      else if \<not> pv_openFileModal p \<and> checkKeyPressed e ''Cmd:o'' then (True, updateOpenFileModalAndError True None p)
      else if pv_canPreview p \<and> checkKeyPressed e ''Cmd:e'' then (True, setEditMode (\<not> editMode p) p)
      else orHandler directoryHandler (orHandler codeEditHandler (\<lambda>_ p. (False, p))) e p)"

definition openFileModalKey :: "pvFile option \<Rightarrow> string \<Rightarrow> keyHandler" where
  "openFileModalKey fileInfo filePath e p =
     (if checkKeyPressed e ''Escape'' then (True, updateOpenFileModalAndError False None p)
      else if checkKeyPressed e ''Enter'' then (False, handleOpenFile fileInfo filePath p)
      else (False, p))"

definition modalDismissed :: "previewModel \<Rightarrow> previewModel" where
  "modalDismissed p = p\<lparr>pv_openFileModal := False\<rparr>"

definition headerClicked :: "string option \<Rightarrow> pvFile option \<Rightarrow> headerAction \<Rightarrow> previewModel \<Rightarrow> previewModel" where
  "headerClicked filePath fileInfo act p =
     (case act of
        NoAction \<Rightarrow> p
      | OpenPathModal \<Rightarrow> updateOpenFileModalAndError True None p
      | SaveAction \<Rightarrow> handleFileSave filePath p
      | SetEdit b \<Rightarrow> setEditMode b p
      | GoParent \<Rightarrow> goParentDirectory fileInfo p
      | ToggleHidden \<Rightarrow> p\<lparr>pv_showHiddenFiles := \<not> pv_showHiddenFiles p\<rparr>
      | RefreshView \<Rightarrow> pvCall RefreshDirectoryView p
      | ToggleToc \<Rightarrow> markdownShowTocToggle p)"

section \<open>Properties\<close>

text \<open>
  Only a streamed file is shown whatever its size: a view that loads the content has a file of
  at most ten megabytes, the table of a CSV file one of at most one, and the editor, if it is not
  chosen by the user, a text file or an empty one.
\<close>

theorem loaded_files_are_small:
  assumes "getSpecializedView fileInfo edit = Inr (View v)" "v \<noteq> ''streaming''"
  shows "\<exists>f m. fileInfo = Some f \<and> pf_mimetype f = Some m \<and> \<not> pf_notfound f \<and> \<not> isStreamingType (Some m) \<and>
    pf_size f \<le> 10485760 \<and> (v = ''csv'' \<longrightarrow> pf_size f \<le> 1048576) \<and>
    v \<in> {''directory'', ''csv'', ''markdown'', ''codeedit''} \<and>
    (v = ''codeedit'' \<and> \<not> edit \<longrightarrow> isTextFile (Some m) \<or> pf_size f = 0)"
  using assms
  by (auto simp: getSpecializedView_def fileMimeType_def Let_def MaxFileSize_def MaxCSVSize_def split: option.splits if_splits)

definition demoFile :: "string \<Rightarrow> string \<Rightarrow> pvFile" where
  "demoFile path mime =
     \<lparr>pf_path = path, pf_dir = ''/'', pf_name = Some path, pf_notfound = False, pf_isdir = False, pf_size = 1200,
      pf_mimetype = Some mime\<rparr>"

theorem loaded_files_are_small_witness:
  "getSpecializedView (Some (demoFile ''/a.csv'' ''text/csv'')) False = Inr (View ''csv'') \<and>
   (\<exists>f m. Some (demoFile ''/a.csv'' ''text/csv'') = Some f \<and> pf_mimetype f = Some m \<and> \<not> pf_notfound f \<and>
    \<not> isStreamingType (Some m) \<and> pf_size f \<le> 10485760 \<and> (''csv'' = ''csv'' \<longrightarrow> pf_size f \<le> 1048576) \<and>
    ''csv'' \<in> {''directory'', ''csv'', ''markdown'', ''codeedit''} \<and>
    (''csv'' = ''codeedit'' \<and> \<not> False \<longrightarrow> isTextFile (Some m) \<or> pf_size f = 0))"
proof -
  have a: "getSpecializedView (Some (demoFile ''/a.csv'' ''text/csv'')) False = Inr (View ''csv'')"
    by (simp add: getSpecializedView_def fileMimeType_def demoFile_def isStreamingType_def js_is_prefix_def
        MaxFileSize_def MaxCSVSize_def)
  with loaded_files_are_small [OF a] show ?thesis by blast
qed

text \<open>
  C33: text that is not saved is not bound to its file: after typing into the editor of one file and
  opening another one through the modal, the text is shown as the content of the other file, and
  saving writes it to the other file's path. The function that would drop the text with a new file
  name is never called.
\<close>

theorem unsaved_text_moves_to_next_file:
  assumes "p' = joinReturned (Inr newPath) (handleOpenFile (Some f) path (textTyped txt p))"
    and "p'' = blockUpdated (goHistory (metaFilePath p) newPath (pv_history p)) None p'"
    and "newPath \<noteq> []" "newFile = Some g" "pf_path g = newPath"
  shows "metaFilePath p'' = newPath \<and> fileContent full p'' = txt \<and>
    pv_calls (handleFileSave (statFilePath newFile) p'') = pv_calls p'' @ [SaveFile (connOf p) newPath txt]"
  using assms(3-5)
  by (simp add: assms(1,2) joinReturned_def handleOpenFile_def textTyped_def blockUpdated_def previewGoHistory_def
      updateOpenFileModalAndError_def metaFilePath_def isBlank_def fileContent_def handleFileSave_def statFilePath_def
      pvCall_def goHistory_def connOf_def Let_def split: option.split)

theorem unsaved_text_moves_to_next_file_witness:
  "fileContent ''content of b''
     (blockUpdated (goHistory ''/a'' ''/b'' None) None
       (joinReturned (Inr ''/b'') (handleOpenFile (Some (demoFile ''/a'' ''text/plain'')) ''b''
          (textTyped ''edited a'' (newPreviewModel (Some ''/a'') None None True))))) = ''edited a''"
proof -
  let ?p = "newPreviewModel (Some ''/a'') None None True"
  have "metaFilePath ?p = ''/a''" "pv_history ?p = None"
    by (simp_all add: metaFilePath_def newPreviewModel_def isBlank_def)
  then show ?thesis
    using unsaved_text_moves_to_next_file [of _ "''/b''" "demoFile ''/a'' ''text/plain''" "''b''" "''edited a''" ?p, OF refl refl _ refl,
        of "demoFile ''/b'' ''text/plain''" "''content of b''"]
    by (simp add: demoFile_def)
qed

text \<open>
  Reverting gives back nothing: with unsaved text, the editor keeps it, and the model forgets that
  it is not saved, so that it can no longer be saved either.
\<close>

theorem revert_keeps_the_edited_text:
  assumes "pv_newFileContent p = Some txt" "pv_editor p = Some old"
  shows "pv_editor (handleFileRevert full p) = Some txt \<and> pv_newFileContent (handleFileRevert full p) = None \<and>
    handleFileSave path (handleFileRevert full p) = handleFileRevert full p"
  using assms by (simp add: handleFileRevert_def fileContent_def handleFileSave_def split: option.split)

text \<open>
  A CSV file with parameters in its type has the button for a preview, and no preview: whatever the
  button does, it is shown in the editor.
\<close>

theorem preview_button_without_preview:
  "canPreview (Some ''text/csv; charset=utf-8'') \<and>
   (pf_notfound f \<or> pf_size f > MaxFileSize \<or>
    getSpecializedView (Some (f\<lparr>pf_mimetype := Some ''text/csv; charset=utf-8''\<rparr>)) edit = Inr (View ''codeedit''))"
  by (simp add: canPreview_def getSpecializedView_def fileMimeType_def isStreamingType_def js_is_prefix_def isTextFile_def)

end
