(* ===== verification/DirPreview.thy ===== *)
theory DirPreview
  imports BlockUtil KeyUtil
begin

text \<open>
  The directory preview (app/view/preview/directorypreview.tsx): the filter by name, the focused row
  and the selected path, keys and clicks, and how the cells show sizes, types and icons. Sorting
  and pinning rows are the table library's: arguments that give the sorted and the pinned rows. Sizes
  are exact rationals where the code has doubles.
\<close>

section \<open>Cells\<close>

datatype sizeUnit = UnitB | UnitKB | UnitMB | UnitGB | UnitTB | UnitKiB | UnitMiB | UnitGiB | UnitTiB

fun displaySuffix :: "sizeUnit \<Rightarrow> string" where
  "displaySuffix UnitB = ''b''"
| "displaySuffix UnitKB = ''k''"
| "displaySuffix UnitMB = ''m''"
| "displaySuffix UnitGB = ''g''"
| "displaySuffix UnitTB = ''t''"
| "displaySuffix UnitKiB = ''k''"
| "displaySuffix UnitMiB = ''m''"
| "displaySuffix UnitGiB = ''g''"
| "displaySuffix UnitTiB = ''t''"

text \<open>
  \<open>toPrecision\<close> of a number that is 0 or at least 1: the nearest number of so many significant
  decimal digits, the larger one when there are two.
\<close>

fun decExp :: "nat \<Rightarrow> nat" where
  "decExp n = (if n < 10 then 0 else Suc (decExp (n div 10)))"

declare decExp.simps [simp del]

definition toPrecision :: "nat \<Rightarrow> rat \<Rightarrow> rat" where
  "toPrecision sigfig x =
     (let e = decExp (nat \<lfloor>x\<rfloor>);
          q = 10 ^ e / 10 ^ (sigfig - 1)
      in of_int \<lfloor>x / q + 1 / 2\<rfloor> * q)"

text \<open>The loop, with \<open>idx\<close> counting up to one less than the number of units.\<close>

fun bestUnitLoop :: "sizeUnit list \<Rightarrow> rat \<Rightarrow> sizeUnit \<Rightarrow> rat \<Rightarrow> sizeUnit \<times> rat" where
  "bestUnitLoop (u # v # us) divisor currentUnit currentValue =
     (if divisor < currentValue then bestUnitLoop (v # us) divisor u (currentValue / divisor) else (currentUnit, currentValue))"
| "bestUnitLoop _ divisor currentUnit currentValue = (currentUnit, currentValue)"

definition sizeUnits :: "bool \<Rightarrow> sizeUnit list" where
  "sizeUnits si = (if si then [UnitKB, UnitMB, UnitGB, UnitTB] else [UnitKiB, UnitMiB, UnitGiB, UnitTiB])"

text \<open>The number and the suffix; \<open>None\<close> is the dash of a negative size.\<close>

definition getBestUnit :: "int \<Rightarrow> bool \<Rightarrow> nat \<Rightarrow> (rat \<times> string) option" where
  "getBestUnit bytes si sigfig =
     (if bytes < 0 then None
      else let (currentUnit, currentValue) = bestUnitLoop (sizeUnits si) (if si then 1000 else 1024) UnitB (of_int bytes)
           in Some (toPrecision sigfig currentValue, displaySuffix currentUnit))"

text \<open>\<open>/^[a-z0-9- ]+$/\<close>\<close>

definition isIconValid :: "string option \<Rightarrow> bool" where
  "isIconValid icon \<longleftrightarrow>
     \<not> isBlank icon \<and> list_all (\<lambda>c. isLower c \<or> isDigitChar c \<or> c = CHR ''-'' \<or> c = CHR '' '') (the icon)"

definition getIconClass :: "string option \<Rightarrow> string" where
  "getIconClass icon = (if \<not> isIconValid icon then ''fa fa-solid fa-question fa-fw'' else ''fa fa-solid fa-'' @ the icon @ '' fa-fw'')"

text \<open>The icon of the longest prefix of the type that has one.\<close>

function getIconFromMimeType :: "(string \<Rightarrow> string option) \<Rightarrow> string \<Rightarrow> string" where
  "getIconFromMimeType icons mimeType =
     (if mimeType = [] then ''fa fa-solid fa-file fa-fw''
      else if isIconValid (icons mimeType) then ''fa fa-solid fa-'' @ the (icons mimeType) @ '' fa-fw''
      else getIconFromMimeType icons (butlast mimeType))"
  by pat_completeness auto

termination getIconFromMimeType
  by (relation "measure (\<lambda>(icons, m). length m)") auto

declare getIconFromMimeType.simps [simp del]

definition getIconColor :: "(string \<Rightarrow> string option) \<Rightarrow> string \<Rightarrow> string" where
  "getIconColor colors mimeType = (case colors mimeType of None \<Rightarrow> ''inherit'' | Some c \<Rightarrow> c)"

definition cleanMimetype :: "string \<Rightarrow> string" where
  "cleanMimetype s = js_trim (takeWhile (\<lambda>c. c \<noteq> CHR '';'') s)"

text \<open>
  The parts of the date come from the clock and the date library: whether the file is of today or
  of yesterday, and its date and time as they are written.
\<close>

definition getLastModifiedTime :: "bool \<Rightarrow> bool \<Rightarrow> string \<Rightarrow> string \<Rightarrow> nat \<Rightarrow> string" where
  "getLastModifiedTime isToday isYesterday day clock columnSize =
     (let datePortion = (if isToday then ''Today'' else if isYesterday then ''Yesterday'' else day)
      in if columnSize > 120 then datePortion @ '', '' @ clock else datePortion)"

definition getSortIcon :: "string \<Rightarrow> string option" where
  "getSortIcon sortType =
     (if sortType = ''asc'' then Some ''fa-solid fa-chevron-up dir-table-head-direction''
      else if sortType = ''desc'' then Some ''fa-solid fa-chevron-down dir-table-head-direction''
      else None)"

text \<open>The height of the table body, and where the viewport is scrolled to for the focused row, if at all.\<close>

definition tbodyHeight :: "int \<Rightarrow> nat \<Rightarrow> int \<Rightarrow> int \<Rightarrow> int" where
  "tbodyHeight rowHeight n warningBoxHeight parentHeight = min (parentHeight - warningBoxHeight) (rowHeight * int n)"

definition scrollToRow :: "int \<Rightarrow> int \<Rightarrow> int \<Rightarrow> int \<Rightarrow> int \<Rightarrow> int" where
  "scrollToRow rowTop rowBottom parentTop viewportScrollTop viewportHeight =
     (let top = rowTop - parentTop + viewportScrollTop;
          bottom = rowBottom - parentTop + viewportScrollTop
      in if top < viewportScrollTop then top
         else if bottom > viewportScrollTop + viewportHeight then bottom - viewportHeight
         else viewportScrollTop)"

text \<open>A row that fits into the viewport is within it afterwards.\<close>

lemma scrollToRow_shows:
  assumes "rowTop \<le> rowBottom" "rowBottom - rowTop \<le> viewportHeight"
    and "s' = scrollToRow rowTop rowBottom parentTop s viewportHeight"
  shows "s' \<le> rowTop - parentTop + s \<and> rowBottom - parentTop + s \<le> s' + viewportHeight"
  using assms by (auto simp: scrollToRow_def Let_def)

section \<open>State\<close>

record fileInfo =
  fi_path :: string
  fi_name :: string
  fi_mimetype :: string

datatype dirCall =
    GoHistory "string option"
  | ReadDirectory
  | DeleteFile string

record dirPreview =
  dp_searchText :: string
  dp_focusIndex :: int
  dp_unfilteredData :: "fileInfo list"
  dp_filteredData :: "fileInfo list"
  dp_showHiddenFiles :: bool
  dp_selectedPath :: "string option"
  dp_sorting :: nat                     \<comment> \<open>which column, and which way\<close>
  dp_refreshVersion :: nat
  dp_calls :: "dirCall list"

definition keepFile :: "bool \<Rightarrow> string \<Rightarrow> fileInfo \<Rightarrow> bool" where
  "keepFile showHiddenFiles searchText f \<longleftrightarrow>
     (if \<not> showHiddenFiles \<and> js_is_prefix ''.'' (fi_name f) \<and> fi_name f \<noteq> ''..'' then False
      else js_includes (toLocaleLowerCase (fi_name f)) searchText)"

section \<open>Effects\<close>

text \<open>
  The rows as the table sorts them, and as the body shows them: first the rows that the table has
  pinned to the top (the component asks for that of the one named \<open>..\<close>), then the others.
\<close>

type_synonym sorter = "nat \<Rightarrow> fileInfo list \<Rightarrow> fileInfo list"
type_synonym pinner = "fileInfo list \<Rightarrow> fileInfo list \<times> fileInfo list"

definition sortedRows :: "sorter \<Rightarrow> dirPreview \<Rightarrow> fileInfo list" where
  "sortedRows sortBy d = sortBy (dp_sorting d) (dp_filteredData d)"

definition displayedRows :: "sorter \<Rightarrow> pinner \<Rightarrow> dirPreview \<Rightarrow> fileInfo list" where
  "displayedRows sortBy pin d = (let (top, centre) = pin (sortedRows sortBy d) in top @ centre)"

definition selectPath :: "sorter \<Rightarrow> dirPreview \<Rightarrow> dirPreview" where
  "selectPath sortBy d = d\<lparr>dp_selectedPath := map_option fi_path (js_at (sortedRows sortBy d) (dp_focusIndex d))\<rparr>"

text \<open>The filter, the focus that it pulls back and the selection, when the data, the search or the option changes.\<close>

definition refilter :: "sorter \<Rightarrow> dirPreview \<Rightarrow> dirPreview" where
  "refilter sortBy d =
     (let filtered = filter (keepFile (dp_showHiddenFiles d) (dp_searchText d)) (dp_unfilteredData d);
          n = int (length filtered);
          d = d\<lparr>dp_filteredData := filtered\<rparr>;
          d = (if filtered \<noteq> [] \<and> dp_focusIndex d > n - 1 then d\<lparr>dp_focusIndex := n - 1\<rparr> else d)
      in selectPath sortBy d)"

section \<open>Handlers\<close>

definition contentLoaded :: "sorter \<Rightarrow> fileInfo list \<Rightarrow> dirPreview \<Rightarrow> dirPreview" where
  "contentLoaded sortBy content d = refilter sortBy (d\<lparr>dp_unfilteredData := content\<rparr>)"

definition setSearchText :: "sorter \<Rightarrow> string \<Rightarrow> dirPreview \<Rightarrow> dirPreview" where
  "setSearchText sortBy s d = (if s = dp_searchText d then d else refilter sortBy (d\<lparr>dp_searchText := s\<rparr>))"

definition setShowHiddenFiles :: "sorter \<Rightarrow> bool \<Rightarrow> dirPreview \<Rightarrow> dirPreview" where
  "setShowHiddenFiles sortBy b d = (if b = dp_showHiddenFiles d then d else refilter sortBy (d\<lparr>dp_showHiddenFiles := b\<rparr>))"

definition setFocusIndex :: "sorter \<Rightarrow> int \<Rightarrow> dirPreview \<Rightarrow> dirPreview" where
  "setFocusIndex sortBy i d = (if i = dp_focusIndex d then d else selectPath sortBy (d\<lparr>dp_focusIndex := i\<rparr>))"

text \<open>Sorting another way changes neither the table object nor the data, so the selection is left as it is.\<close>

definition toggleSorting :: "nat \<Rightarrow> dirPreview \<Rightarrow> dirPreview" where
  "toggleSorting k d = d\<lparr>dp_sorting := k\<rparr>"

definition dirCall1 :: "dirCall \<Rightarrow> dirPreview \<Rightarrow> dirPreview" where
  "dirCall1 c d = d\<lparr>dp_calls := dp_calls d @ [c]\<rparr>"

definition refreshDirectory :: "dirPreview \<Rightarrow> dirPreview" where
  "refreshDirectory d = dirCall1 ReadDirectory (d\<lparr>dp_refreshVersion := Suc (dp_refreshVersion d)\<rparr>)"

definition directoryKeyDownHandler ::
  "(string \<Rightarrow> string list) \<Rightarrow> sorter \<Rightarrow> waveKeyboardEvent \<Rightarrow> dirPreview \<Rightarrow> bool \<times> dirPreview" where
  "directoryKeyDownHandler segment sortBy e d =
     (if checkKeyPressed e ''Escape'' then (False, setSearchText sortBy [] d)
      else if checkKeyPressed e ''ArrowUp'' then (True, setFocusIndex sortBy (max (dp_focusIndex d - 1) 0) d)
      else if checkKeyPressed e ''ArrowDown'' then
        (True, setFocusIndex sortBy (min (dp_focusIndex d + 1) (int (length (dp_filteredData d)) - 1)) d)
      else if checkKeyPressed e ''Enter'' then
        (if dp_filteredData d = [] then (False, d)
         else (True, setSearchText sortBy [] (dirCall1 (GoHistory (dp_selectedPath d)) d)))
      else if checkKeyPressed e ''Backspace'' then
        (if dp_searchText d = [] then (True, d) else (True, setSearchText sortBy (butlast (dp_searchText d)) d))
      else if isCharacterKeyEvent segment e then (True, setSearchText sortBy (dp_searchText d @ ev_key e) d)
      else (False, d))"

definition searchChanged :: "sorter \<Rightarrow> string \<Rightarrow> dirPreview \<Rightarrow> dirPreview" where
  "searchChanged sortBy v d = setSearchText sortBy (toLocaleLowerCase v) d"

definition rowClicked :: "sorter \<Rightarrow> pinner \<Rightarrow> nat \<Rightarrow> dirPreview \<Rightarrow> dirPreview" where
  "rowClicked sortBy pin idx d = (if idx < length (displayedRows sortBy pin d) then setFocusIndex sortBy (int idx) d else d)"

definition rowDoubleClicked :: "sorter \<Rightarrow> pinner \<Rightarrow> nat \<Rightarrow> dirPreview \<Rightarrow> dirPreview" where
  "rowDoubleClicked sortBy pin idx d =
     (case js_at (displayedRows sortBy pin d) (int idx) of
        None \<Rightarrow> d
      | Some f \<Rightarrow> setSearchText sortBy [] (dirCall1 (GoHistory (Some (fi_path f))) d))"

text \<open>Deleting a file, which succeeds or fails, refreshes.\<close>

definition deleteFile :: "string \<Rightarrow> dirPreview \<Rightarrow> dirPreview" where
  "deleteFile path d = refreshDirectory (dirCall1 (DeleteFile path) d)"

text \<open>
  The menu of a row: its labels with what each does. The terminal is opened in the directory.
\<close>

datatype fileAction =
    CopyText string
  | CopyQuoted string
  | DownloadFile string
  | CreatePreviewBlock string
  | CreateTermBlock string
  | DeleteFileAction string
  | Separator

definition baseName :: "string \<Rightarrow> string" where
  "baseName path = last (js_split CHR ''/'' path)"

definition fileMenu :: "string \<Rightarrow> string \<Rightarrow> (string \<times> fileAction) list" where
  "fileMenu path mimetype =
     [(''Copy File Name'', CopyText (baseName path)),
      (''Copy Full File Name'', CopyText path),
      (''Copy File Name (Shell Quoted)'', CopyQuoted (baseName path)),
      (''Copy Full File Name (Shell Quoted)'', CopyQuoted path),
      ([], Separator),
      (''Download File'', DownloadFile path),
      ([], Separator),
      (''Open Preview in New Block'', CreatePreviewBlock path)] @
     (if mimetype = ''directory'' then [(''Open Terminal in New Block'', CreateTermBlock path)] else []) @
     [([], Separator), (''Delete File'', DeleteFileAction path)]"

definition newDirPreview :: "bool \<Rightarrow> dirPreview" where
  "newDirPreview showHiddenFiles =
     \<lparr>dp_searchText = [], dp_focusIndex = 0, dp_unfilteredData = [], dp_filteredData = [],
      dp_showHiddenFiles = showHiddenFiles, dp_selectedPath = None, dp_sorting = 0, dp_refreshVersion = 0,
      dp_calls = [ReadDirectory]\<rparr>"

section \<open>Events\<close>

datatype dirEvent =
    ContentLoaded "fileInfo list"
  | DirKey waveKeyboardEvent
  | ShowHidden bool
  | RowClicked nat
  | RowDoubleClicked nat
  | SortToggled nat
  | SearchChanged string
  | SearchClosed
  | Refresh
  | Deleted string

definition dirStep :: "(string \<Rightarrow> string list) \<Rightarrow> sorter \<Rightarrow> pinner \<Rightarrow> dirEvent \<Rightarrow> dirPreview \<Rightarrow> dirPreview" where
  "dirStep segment sortBy pin ev d =
     (case ev of
        ContentLoaded content \<Rightarrow> contentLoaded sortBy content d
      | DirKey e \<Rightarrow> snd (directoryKeyDownHandler segment sortBy e d)
      | ShowHidden b \<Rightarrow> setShowHiddenFiles sortBy b d
      | RowClicked i \<Rightarrow> rowClicked sortBy pin i d
      | RowDoubleClicked i \<Rightarrow> rowDoubleClicked sortBy pin i d
      | SortToggled k \<Rightarrow> toggleSorting k d
      | SearchChanged v \<Rightarrow> searchChanged sortBy v d
      | SearchClosed \<Rightarrow> setSearchText sortBy [] d
      | Refresh \<Rightarrow> refreshDirectory d
      | Deleted p \<Rightarrow> deleteFile p d)"

section \<open>Sizes\<close>

lemma decExp_bounds: "0 < n \<Longrightarrow> 10 ^ decExp n \<le> n"
proof (induction n rule: decExp.induct)
  case (1 n)
  show ?case
  proof (cases "n < 10")
    case False
    then have "10 * 10 ^ decExp (n div 10) \<le> 10 * (n div 10)" using 1 by simp
    also have "\<dots> \<le> n" by simp
    finally show ?thesis using False by (simp add: decExp.simps)
  qed (use 1 in \<open>simp add: decExp.simps\<close>)
qed

text \<open>Three digits are within half a percent.\<close>

lemma toPrecision_close:
  assumes "x = 0 \<or> 1 \<le> x"
  shows "\<bar>toPrecision 3 x - x\<bar> \<le> x * 5 / 1000"
proof (cases "x = 0")
  case True
  have "\<lfloor>1 / 2 :: rat\<rfloor> = 0" by (rule floor_unique) simp_all
  with True show ?thesis by (simp add: toPrecision_def Let_def)
next
  case False
  with assms have x: "1 \<le> x" by simp
  define e where "e = decExp (nat \<lfloor>x\<rfloor>)"
  define q :: rat where "q = 10 ^ e / 10 ^ 2"
  have "0 < q" by (simp add: q_def)
  have "0 < nat \<lfloor>x\<rfloor>" using x by (simp add: zero_less_nat_eq one_le_floor)
  then have "10 ^ e \<le> nat \<lfloor>x\<rfloor>" unfolding e_def by (rule decExp_bounds)
  then have "of_nat (10 ^ e) \<le> (of_nat (nat \<lfloor>x\<rfloor>) :: rat)" by (simp only: of_nat_le_iff)
  also have "\<dots> \<le> x" using x by (simp add: of_nat_nat)
  finally have q: "q * 100 \<le> x" by (simp add: q_def)
  define m where "m = \<lfloor>x / q + 1 / 2\<rfloor>"
  have "of_int m \<le> x / q + 1 / 2" "x / q + 1 / 2 \<le> of_int m + 1"
    unfolding m_def using floor_correct [of "x / q + 1 / 2"] by (auto intro: less_imp_le)
  then have "of_int m * q \<le> (x / q + 1 / 2) * q" "(x / q + 1 / 2) * q \<le> (of_int m + 1) * q"
    using \<open>0 < q\<close> by (simp_all add: mult_right_mono)
  then have "\<bar>of_int m * q - x\<bar> \<le> q / 2" unfolding abs_le_iff using \<open>0 < q\<close> by (simp add: algebra_simps)
  then show ?thesis using q by (simp add: toPrecision_def Let_def m_def q_def e_def power2_eq_square)
qed

lemma bestUnitLoop_scales:
  assumes "bestUnitLoop us divisor cu v = (u, w)" "1 < divisor" "us \<noteq> []"
  shows "\<exists>k < length us. v = w * divisor ^ k \<and> u = (cu # us) ! k \<and> (w = v \<or> 1 \<le> w)"
  using assms
proof (induction us divisor cu v rule: bestUnitLoop.induct)
  case (1 u1 u2 us divisor cu v)
  show ?case
  proof (cases "divisor < v")
    case True
    with 1 obtain k where k: "k < length (u2 # us)" "v / divisor = w * divisor ^ k" "u = (u1 # u2 # us) ! k"
        "w = v / divisor \<or> 1 \<le> w" by auto
    have "v = w * divisor ^ Suc k" using k(2) 1(3) by (simp add: field_simps)
    moreover have "1 \<le> v / divisor" using True 1(3) by simp
    ultimately show ?thesis using k by (intro exI [of _ "Suc k"]) auto
  qed (use 1 in \<open>auto intro: exI [of _ 0]\<close>)
qed auto

text \<open>
  The size that is shown, its number times the power of its unit, is within half a percent of
  the size in bytes; the unit is one of bytes, k, m and g: terabytes are never used.
\<close>

theorem shown_size_is_close:
  assumes "getBestUnit bytes si 3 = Some (v, suffix)"
  shows "\<exists>k \<le> 3. suffix = [''b'', ''k'', ''m'', ''g''] ! k \<and>
    \<bar>v * (if si then 1000 else 1024) ^ k - of_int bytes\<bar> \<le> of_int bytes * 5 / 1000"
proof -
  define D :: rat where "D = (if si then 1000 else 1024)"
  obtain u w where loop: "bestUnitLoop (sizeUnits si) D UnitB (of_int bytes) = (u, w)"
    by (cases "bestUnitLoop (sizeUnits si) D UnitB (of_int bytes)")
  with assms have b: "0 \<le> bytes" "v = toPrecision 3 w" "suffix = displaySuffix u"
    by (auto simp: getBestUnit_def D_def split: if_splits)
  have "1 < D" "sizeUnits si \<noteq> []" by (simp_all add: D_def sizeUnits_def)
  from bestUnitLoop_scales [OF loop this] obtain k where k: "k < length (sizeUnits si)" "of_int bytes = w * D ^ k"
      "u = (UnitB # sizeUnits si) ! k" "w = of_int bytes \<or> 1 \<le> w" by blast
  have "k \<le> 3" using k(1) by (simp add: sizeUnits_def split: if_splits)
  have "suffix = [''b'', ''k'', ''m'', ''g''] ! k"
    using k(3) \<open>k \<le> 3\<close> b(3)
    by (auto simp: sizeUnits_def le_Suc_eq numeral_3_eq_3)
  moreover have "w = 0 \<or> 1 \<le> w" using k(4) b(1) by (cases "bytes = 0") auto
  then have "\<bar>v - w\<bar> * D ^ k \<le> w * 5 / 1000 * D ^ k"
    unfolding b(2) using \<open>1 < D\<close> by (intro mult_right_mono toPrecision_close) simp_all
  then have "\<bar>v * D ^ k - of_int bytes\<bar> \<le> of_int bytes * 5 / 1000"
    using \<open>1 < D\<close> unfolding k(2) by (simp add: abs_mult flip: left_diff_distrib)
  ultimately show ?thesis using \<open>k \<le> 3\<close> unfolding D_def by blast
qed

section \<open>Searching\<close>

lemma toLower_no_upper: "isUpperAZ c \<Longrightarrow> c \<notin> set (toLocaleLowerCase s)"
proof -
  assume c: "isUpperAZ c"
  have "lowerChar d \<noteq> c" for d
    using c by (auto simp: lowerChar_def isUpperAZ_def Let_def of_char_of take_bit_eq_mod)
  then show ?thesis by (auto simp: toLocaleLowerCase_def)
qed

text \<open>
  Typing a capital letter finds nothing: the search compares the typed characters, as they
  are, with the names in lower case.
\<close>

theorem capital_letter_finds_nothing:
  assumes "isCharacterKeyEvent segment e" "ev_key e = [c]" "isUpperAZ c"
    and "\<forall>k \<in> {''Escape'', ''ArrowUp'', ''ArrowDown'', ''Enter'', ''Backspace''}. \<not> checkKeyPressed e k"
  shows "dp_filteredData (snd (directoryKeyDownHandler segment sortBy e d)) = []"
proof -
  have "\<not> keepFile b (s @ [c]) f" for b s f
    using js_includes_set [of "toLocaleLowerCase (fi_name f)" "s @ [c]"] toLower_no_upper [OF assms(3)]
    by (auto simp: keepFile_def)
  then show ?thesis
    using assms by (simp add: directoryKeyDownHandler_def setSearchText_def refilter_def selectPath_def Let_def)
qed

section \<open>The focused row\<close>

text \<open>
  While there are files on the list, the focus is a row, or -1 after an arrow key in an empty list. What
  is selected is the path of a file on the list, or nothing if the focus is no row.
\<close>

definition dirOk :: "dirPreview \<Rightarrow> bool" where
  "dirOk d \<longleftrightarrow>
     dp_filteredData d = filter (keepFile (dp_showHiddenFiles d) (dp_searchText d)) (dp_unfilteredData d) \<and>
     -1 \<le> dp_focusIndex d \<and> (dp_filteredData d \<noteq> [] \<longrightarrow> dp_focusIndex d < int (length (dp_filteredData d))) \<and>
     (\<forall>p. dp_selectedPath d = Some p \<longrightarrow> p \<in> fi_path ` set (dp_filteredData d)) \<and>
     (dp_selectedPath d = None \<longleftrightarrow> dp_filteredData d = [] \<or> dp_focusIndex d = -1)"

definition dirRun :: "(string \<Rightarrow> string list) \<Rightarrow> sorter \<Rightarrow> pinner \<Rightarrow> dirEvent list \<Rightarrow> dirPreview \<Rightarrow> dirPreview" where
  "dirRun segment sortBy pin evs d = foldl (\<lambda>d ev. dirStep segment sortBy pin ev d) d evs"

lemma js_at_in_set: "js_at xs i = Some x \<Longrightarrow> x \<in> set xs"
  by (auto simp: js_at_def split: if_splits)

lemma set_select_path_fields [simp]:
  "dp_filteredData (selectPath sortBy d) = dp_filteredData d"
  "dp_focusIndex (selectPath sortBy d) = dp_focusIndex d"
  "dp_showHiddenFiles (selectPath sortBy d) = dp_showHiddenFiles d"
  "dp_searchText (selectPath sortBy d) = dp_searchText d"
  "dp_unfilteredData (selectPath sortBy d) = dp_unfilteredData d"
  "dp_sorting (selectPath sortBy d) = dp_sorting d"
  "dp_selectedPath (selectPath sortBy d) = map_option fi_path (js_at (sortedRows sortBy d) (dp_focusIndex d))"
  by (simp_all add: selectPath_def)

definition sorts :: "sorter \<Rightarrow> bool" where
  "sorts sortBy \<longleftrightarrow> (\<forall>k rows. set (sortBy k rows) = set rows \<and> length (sortBy k rows) = length rows)"

definition pins :: "pinner \<Rightarrow> bool" where
  "pins pin \<longleftrightarrow> (\<forall>rows. length (fst (pin rows)) + length (snd (pin rows)) = length rows)"

lemma selectPath_ok:
  assumes "sorts sortBy" "-1 \<le> dp_focusIndex d"
    and "dp_filteredData d \<noteq> [] \<Longrightarrow> dp_focusIndex d < int (length (dp_filteredData d))"
    and "dp_filteredData d = filter (keepFile (dp_showHiddenFiles d) (dp_searchText d)) (dp_unfilteredData d)"
  shows "dirOk (selectPath sortBy d)"
proof -
  have rows: "set (sortedRows sortBy d) = set (dp_filteredData d)" "length (sortedRows sortBy d) = length (dp_filteredData d)"
    using assms(1) by (simp_all add: sorts_def sortedRows_def)
  have "js_at (sortedRows sortBy d) (dp_focusIndex d) = None \<longleftrightarrow> dp_filteredData d = [] \<or> dp_focusIndex d = -1"
    using assms(2,3) rows(2) by (cases "dp_filteredData d") (auto simp: js_at_def)
  then show ?thesis using assms(2-) rows(1) by (auto simp: dirOk_def dest!: js_at_in_set)
qed

lemma refilter_ok:
  assumes "sorts sortBy" "-1 \<le> dp_focusIndex d"
  shows "dirOk (refilter sortBy d)"
  unfolding refilter_def Let_def using assms by (intro selectPath_ok) auto

lemma setSearchText_ok: "sorts sortBy \<Longrightarrow> dirOk d \<Longrightarrow> dirOk (setSearchText sortBy s d)"
  by (auto simp: setSearchText_def dirOk_def intro!: refilter_ok [unfolded dirOk_def])

lemma setFocusIndex_ok:
  assumes "sorts sortBy" "dirOk d" "-1 \<le> i" "dp_filteredData d \<noteq> [] \<Longrightarrow> i < int (length (dp_filteredData d))"
  shows "dirOk (setFocusIndex sortBy i d)"
  using assms by (auto simp: setFocusIndex_def intro!: selectPath_ok) (simp_all add: dirOk_def)

lemma dirCall1_ok [simp]: "dirOk (dirCall1 c d) = dirOk d"
  by (simp add: dirOk_def dirCall1_def)

lemma dirOk_other [simp]:
  "dirOk (refreshDirectory d) = dirOk d" "dirOk (d\<lparr>dp_sorting := k\<rparr>) = dirOk d"
  by (simp_all add: dirOk_def refreshDirectory_def dirCall1_def)

lemma displayedRows_length:
  "sorts sortBy \<Longrightarrow> pins pin \<Longrightarrow> length (displayedRows sortBy pin d) = length (dp_filteredData d)"
  by (simp add: displayedRows_def sorts_def pins_def sortedRows_def split: prod.split) (metis fst_conv snd_conv)

lemma keyHandler_ok:
  assumes "sorts sortBy" "dirOk d"
  shows "dirOk (snd (directoryKeyDownHandler segment sortBy e d))"
proof -
  have "dirOk (setFocusIndex sortBy (max (dp_focusIndex d - 1) 0) d)"
    using assms by (intro setFocusIndex_ok) (auto simp: dirOk_def)
  moreover have "dirOk (setFocusIndex sortBy (min (dp_focusIndex d + 1) (int (length (dp_filteredData d)) - 1)) d)"
    using assms by (intro setFocusIndex_ok) (auto simp: dirOk_def)
  ultimately show ?thesis using assms by (auto simp: directoryKeyDownHandler_def setSearchText_ok)
qed

lemma dirStep_ok:
  assumes "sorts sortBy" "pins pin" "dirOk d"
  shows "dirOk (dirStep segment sortBy pin ev d)"
proof (cases ev)
  case (ContentLoaded content)
  with assms show ?thesis by (auto simp: dirStep_def contentLoaded_def dirOk_def intro!: refilter_ok [unfolded dirOk_def])
next
  case (ShowHidden b)
  with assms show ?thesis by (auto simp: dirStep_def setShowHiddenFiles_def dirOk_def intro!: refilter_ok [unfolded dirOk_def])
next
  case (RowClicked i)
  then show ?thesis using assms setFocusIndex_ok [OF assms(1,3), of "int i"]
    by (auto simp: dirStep_def rowClicked_def displayedRows_length)
next
  case (SortToggled k)
  with assms show ?thesis by (simp add: dirStep_def toggleSorting_def)
qed (use assms in \<open>auto simp: dirStep_def rowDoubleClicked_def searchChanged_def deleteFile_def keyHandler_ok setSearchText_ok split: option.split\<close>)

lemma newDirPreview_ok: "dirOk (newDirPreview b)"
  by (simp add: newDirPreview_def dirOk_def)

lemma dirRun_ok:
  assumes "sorts sortBy" "pins pin" "dirOk d"
  shows "dirOk (dirRun segment sortBy pin evs d)"
  using assms(3) by (induction evs arbitrary: d) (simp_all add: dirRun_def dirStep_ok [OF assms(1,2)])

lemma setSearchText_calls [simp]: "dp_calls (setSearchText sortBy s d) = dp_calls d"
  by (simp add: setSearchText_def refilter_def selectPath_def Let_def)

text \<open>
  C34: whatever the user does, the list shows the files of the directory that match the search and the
  option for hidden files. While there are files on the list, the focus is one of its rows, or -1, which
  an arrow key in an empty list can leave. A path is selected if and only if there are files and the focus is
  a row, and it is then the path of a file on the list. So Enter does nothing in an empty list, and otherwise
  goes to the path of a file on the list, or, with the focus at -1, to no path.
\<close>

theorem selection_is_on_the_list:
  assumes "\<forall>k rows. set (sortBy k rows) = set rows \<and> length (sortBy k rows) = length rows"
    and "\<forall>rows. length (fst (pin rows)) + length (snd (pin rows)) = length rows"
    and "d = dirRun segment sortBy pin evs (newDirPreview hidden)"
    and "checkKeyPressed enter ''Enter''"
    and "\<not> checkKeyPressed enter ''Escape'' \<and> \<not> checkKeyPressed enter ''ArrowUp'' \<and> \<not> checkKeyPressed enter ''ArrowDown''"
  shows "dp_filteredData d = filter (keepFile (dp_showHiddenFiles d) (dp_searchText d)) (dp_unfilteredData d) \<and>
    (dp_filteredData d \<noteq> [] \<longrightarrow> dp_focusIndex d \<in> {-1 ..< int (length (dp_filteredData d))}) \<and>
    (dp_selectedPath d = None \<longleftrightarrow> dp_filteredData d = [] \<or> dp_focusIndex d = -1) \<and>
    dp_selectedPath d \<in> insert None (Some ` fi_path ` set (dp_filteredData d)) \<and>
    dp_calls (snd (directoryKeyDownHandler segment sortBy enter d)) =
      dp_calls d @ (if dp_filteredData d = [] then [] else [GoHistory (dp_selectedPath d)])"
proof -
  have ok: "dirOk d" unfolding assms(3)
    by (rule dirRun_ok) (use assms(1,2) in \<open>simp_all add: sorts_def pins_def newDirPreview_ok\<close>)
  have "dp_calls (snd (directoryKeyDownHandler segment sortBy enter d)) =
      dp_calls d @ (if dp_filteredData d = [] then [] else [GoHistory (dp_selectedPath d)])"
    using assms(4,5) by (simp add: directoryKeyDownHandler_def dirCall1_def)
  then show ?thesis using ok unfolding dirOk_def by (cases "dp_selectedPath d") auto
qed

definition exampleFile :: "string \<Rightarrow> fileInfo" where
  "exampleFile n = \<lparr>fi_path = ''/'' @ n, fi_name = n, fi_mimetype = ''text/plain''\<rparr>"

definition enterEvent :: waveKeyboardEvent where
  "enterEvent =
     \<lparr>ev_type = ''keydown'', ev_key = ''Enter'', ev_code = ''Enter'', ev_repeat = False, ev_location = 0, ev_shift = False,
      ev_control = False, ev_alt = False, ev_meta = False, ev_cmd = False, ev_option = False\<rparr>"

definition exampleRun :: dirPreview where
  "exampleRun = dirRun (\<lambda>s. [s]) (\<lambda>_ rows. rows) (\<lambda>rows. ([], rows)) [ContentLoaded [exampleFile ''a'']] (newDirPreview False)"

lemma example_facts:
  "dp_filteredData exampleRun = [exampleFile ''a'']" "dp_selectedPath exampleRun = Some ''/a''"
  "dp_calls exampleRun = [ReadDirectory]" "checkKeyPressed enterEvent ''Enter''"
  "\<not> checkKeyPressed enterEvent ''Escape'' \<and> \<not> checkKeyPressed enterEvent ''ArrowUp'' \<and> \<not> checkKeyPressed enterEvent ''ArrowDown''"
  by code_simp+

lemma selection_is_on_the_list_witness:
  "dp_calls (snd (directoryKeyDownHandler (\<lambda>s. [s]) (\<lambda>_ rows. rows) enterEvent exampleRun)) = [ReadDirectory, GoHistory (Some ''/a'')]"
  using selection_is_on_the_list [where sortBy = "\<lambda>_ rows. rows" and pin = "\<lambda>rows. ([], rows)",
      OF _ _ exampleRun_def example_facts(4,5)] example_facts(1-3) by simp

section \<open>What Enter opens\<close>

definition selectionCurrent :: "sorter \<Rightarrow> dirPreview \<Rightarrow> bool" where
  "selectionCurrent sortBy d \<longleftrightarrow> dp_selectedPath d = map_option fi_path (js_at (sortedRows sortBy d) (dp_focusIndex d))"

lemma selectPath_current [simp]: "selectionCurrent sortBy (selectPath sortBy d)"
  by (simp add: selectionCurrent_def sortedRows_def)

lemma refilter_current [simp]: "selectionCurrent sortBy (refilter sortBy d)"
  by (simp add: refilter_def Let_def)

lemma step_current:
  assumes "selectionCurrent sortBy d" "\<forall>k. SortToggled k \<noteq> ev"
  shows "selectionCurrent sortBy (dirStep segment sortBy pin ev d)"
proof -
  have s: "selectionCurrent sortBy (setSearchText sortBy t x)" if "selectionCurrent sortBy x" for t x
    using that by (simp add: setSearchText_def)
  have c [simp]: "selectionCurrent sortBy (dirCall1 c x) = selectionCurrent sortBy x" for c x
    by (simp add: selectionCurrent_def dirCall1_def sortedRows_def)
  have f: "selectionCurrent sortBy (setFocusIndex sortBy i d)" for i
    using assms by (simp add: setFocusIndex_def)
  have r: "selectionCurrent sortBy (refreshDirectory x) = selectionCurrent sortBy x" for x
    by (simp add: refreshDirectory_def) (simp add: selectionCurrent_def sortedRows_def)
  show ?thesis
    using assms by (cases ev) (auto simp: dirStep_def contentLoaded_def setShowHiddenFiles_def rowClicked_def rowDoubleClicked_def
        searchChanged_def deleteFile_def directoryKeyDownHandler_def s f r split: option.split)
qed

lemma run_current:
  assumes "selectionCurrent sortBy d" "\<forall>k. SortToggled k \<notin> set evs"
  shows "selectionCurrent sortBy (dirRun segment sortBy pin evs d)"
  using assms by (induction evs arbitrary: d) (auto simp: dirRun_def step_current)

text \<open>
  As long as the user does not sort another way, and the row \<open>..\<close>, which the table pins to
  the top, is also the first one in the order, Enter opens the row that is highlighted: the selected
  path is that of the row shown at the focus.
\<close>

theorem enter_opens_highlighted:
  assumes "\<forall>k. SortToggled k \<notin> set evs"
    and "d = dirRun segment sortBy pin evs (newDirPreview hidden)"
    and "\<forall>rows. pin rows = (filter (\<lambda>f. fi_name f = ''..'') rows, filter (\<lambda>f. fi_name f \<noteq> ''..'') rows)"
    and "\<forall>f \<in> set (tl (sortedRows sortBy d)). fi_name f \<noteq> ''..''"
    and "\<forall>k. sortBy k [] = []"
  shows "dp_selectedPath d = map_option fi_path (js_at (displayedRows sortBy pin d) (dp_focusIndex d))"
proof -
  have "selectionCurrent sortBy (newDirPreview hidden)"
    using assms(5) by (simp add: selectionCurrent_def newDirPreview_def sortedRows_def js_at_def)
  then have cur: "selectionCurrent sortBy d" unfolding assms(2) by (rule run_current [OF _ assms(1)])
  have "displayedRows sortBy pin d = sortedRows sortBy d"
    using assms(3,4) by (cases "sortedRows sortBy d") (auto simp: displayedRows_def filter_empty_conv)
  with cur show ?thesis by (simp add: selectionCurrent_def)
qed


definition dotDotFirst :: pinner where
  "dotDotFirst rows = (filter (\<lambda>f. fi_name f = ''..'') rows, filter (\<lambda>f. fi_name f \<noteq> ''..'') rows)"

lemma enter_opens_highlighted_witness:
  "dp_selectedPath (dirRun (\<lambda>s. [s]) (\<lambda>_ rows. rows) dotDotFirst
      [ContentLoaded [exampleFile ''..'', exampleFile ''a'']] (newDirPreview False)) = Some ''/..''"
proof -
  define d where "d = dirRun (\<lambda>s. [s]) (\<lambda>_ rows. rows) dotDotFirst
      [ContentLoaded [exampleFile ''..'', exampleFile ''a'']] (newDirPreview False)"
  have [simp]: "js_includes t []" for t by (auto simp: js_includes_def js_is_prefix_def list_ex_iff)
  have f: "dp_filteredData d = [exampleFile ''..'', exampleFile ''a'']" "dp_focusIndex d = 0"
    by (simp_all add: d_def dirRun_def dirStep_def contentLoaded_def refilter_def keepFile_def newDirPreview_def
        exampleFile_def js_is_prefix_def Let_def)
  show ?thesis
    unfolding d_def [symmetric]
    using enter_opens_highlighted [OF _ d_def, unfolded d_def [symmetric]] f
    by (simp add: dotDotFirst_def displayedRows_def sortedRows_def js_at_def exampleFile_def)
qed

lemma shown_size_is_close_witness:
  "getBestUnit 1536 False 3 = Some (3 / 2, ''k'') \<and>
   (\<exists>k \<le> 3. ''k'' = [''b'', ''k'', ''m'', ''g''] ! k \<and> \<bar>3 / 2 * (1024 :: rat) ^ k - 1536\<bar> \<le> 1536 * 5 / 1000)"
proof -
  have "getBestUnit 1536 False 3 = Some (3 / 2, ''k'')" by code_simp
  with shown_size_is_close [OF this] show ?thesis by simp
qed

definition typedKey :: "string \<Rightarrow> waveKeyboardEvent" where
  "typedKey k =
     \<lparr>ev_type = ''keydown'', ev_key = k, ev_code = ''Key'' @ k, ev_repeat = False, ev_location = 0, ev_shift = False,
      ev_control = False, ev_alt = False, ev_meta = False, ev_cmd = False, ev_option = False\<rparr>"

lemma capital_letter_finds_nothing_witness:
  "dp_filteredData (snd (directoryKeyDownHandler (map (\<lambda>c. [c])) (\<lambda>_ rows. rows) (typedKey ''R'')
     (dirRun (map (\<lambda>c. [c])) (\<lambda>_ rows. rows) dotDotFirst [ContentLoaded [exampleFile ''README'']] (newDirPreview False)))) = []"
proof (rule capital_letter_finds_nothing)
  show "isCharacterKeyEvent (map (\<lambda>c. [c])) (typedKey ''R'')" by code_simp
  show "ev_key (typedKey ''R'') = ''R''" by (simp add: typedKey_def)
  show "isUpperAZ CHR ''R''" by code_simp
  show "\<forall>k \<in> {''Escape'', ''ArrowUp'', ''ArrowDown'', ''Enter'', ''Backspace''}. \<not> checkKeyPressed (typedKey ''R'') k"
    by code_simp
qed

end
