(* ===== verification/ContentViews.thy ===== *)
theory ContentViews
  imports Startup
begin

text \<open>
  The views of a content: tables of comma separated values (app/view/preview/csvview.tsx), rendered
  markdown (app/element/markdown.tsx), the code editor (app/view/codeeditor/codeeditor.tsx) and the
  help (app/view/helpview/helpview.tsx). The parser of tables, the renderer of markdown and the
  editor are parameters or events.
\<close>

section \<open>Tables\<close>

definition isAsciiLetter :: "char \<Rightarrow> bool" where
  "isAsciiLetter c \<longleftrightarrow> (of_char c :: nat) \<in> {65..90} \<or> (of_char c :: nat) \<in> {97..122}"

definition firstRow :: "string \<Rightarrow> string" where
  "firstRow content = takeWhile (\<lambda>c. c \<noteq> CHR 0x0A) content"

definition hasHeaders :: "string \<Rightarrow> bool" where
  "hasHeaders row = (case row of [] \<Rightarrow> False | c # _ \<Rightarrow> isAsciiLetter c \<or> c = CHR 0x22)"

text \<open>What the parser returns: objects when it was told of headers, else arrays.\<close>

datatype csvData =
    CsvObjects "(string \<times> string) list list"
  | CsvArrays "string list list"

datatype csvValue = CsvNumber jsnum | CsvText string

type_synonym csvRow = "(string \<times> csvValue) list"

definition columnName :: "nat \<Rightarrow> string" where
  "columnName i = ''Column '' @ show_nat (i + 1)"

text \<open>A row takes the headers of the first; a cell past them has the name \<open>undefined\<close>, under which the last one stays.\<close>

definition nameRow :: "nat \<Rightarrow> string list \<Rightarrow> (string, string) js_map" where
  "nameRow width row =
     fold (\<lambda>(i, v) m. map_set (if i < width then columnName i else ''undefined'') v m) (zip [0..<length row] row) []"

text \<open>
  \<open>parseFloat\<close> and \<open>numberText\<close> read and print a number of the language; a cell that is exactly the
  text of a number becomes that number.
\<close>

definition csvCell :: "(string \<Rightarrow> jsnum) \<Rightarrow> (jsnum \<Rightarrow> string) \<Rightarrow> string \<Rightarrow> csvValue" where
  "csvCell parseFloat numberText v =
     (let n = parseFloat v in if n \<noteq> NaN \<and> numberText n = v then CsvNumber n else CsvText v)"

definition parsedData ::
  "(bool \<Rightarrow> string \<Rightarrow> csvData) \<Rightarrow> (string \<Rightarrow> jsnum) \<Rightarrow> (jsnum \<Rightarrow> string) \<Rightarrow> string option \<Rightarrow> csvRow list" where
  "parsedData parse parseFloat numberText content =
     (if isBlank content then []
      else
        (let trimmed = js_trim (the content);
             headers = hasHeaders (firstRow trimmed);
             rows = (case parse headers trimmed of
                       CsvObjects rows \<Rightarrow> rows
                     | CsvArrays [] \<Rightarrow> []
                     | CsvArrays (r # rs) \<Rightarrow> map (nameRow (length r)) (r # rs))
         in map (map (\<lambda>(k, v). (k, csvCell parseFloat numberText v))) rows))"

definition csvColumns :: "csvRow list \<Rightarrow> string list" where
  "csvColumns rows = (case rows of [] \<Rightarrow> [] | r # _ \<Rightarrow> map fst r)"

definition tbodyHeight :: "jsnum \<Rightarrow> jsnum \<Rightarrow> jsnum \<Rightarrow> nat \<Rightarrow> jsnum" where
  "tbodyHeight parentHeight headerHeight rowHeight rowCount =
     js_min (parentHeight - headerHeight) (rowHeight * Fin (of_nat rowCount)) - Fin 3"

text \<open>The content is kept in the state of the component, from its first rendering.\<close>

record csvView =
  cv_cache :: "(string, string option) js_map"
  cv_content :: "string option"
  cv_loaded :: bool

definition csvMounted :: "string \<Rightarrow> string option \<Rightarrow> csvView" where
  "csvMounted filename content = \<lparr>cv_cache = map_set filename content [], cv_content = content, cv_loaded = False\<rparr>"

definition csvRendered :: "string \<Rightarrow> string option \<Rightarrow> csvView \<Rightarrow> csvView" where
  "csvRendered filename content v = v\<lparr>cv_cache := map_set filename content (cv_cache v)\<rparr>"

definition csvTimerFires :: "nat \<Rightarrow> nat \<Rightarrow> csvView \<Rightarrow> csvView" where
  "csvTimerFires renderedRows dataRows v = (if renderedRows = dataRows then v\<lparr>cv_loaded := True\<rparr> else v)"

section \<open>Markdown\<close>

datatype linkAction = SetFocusedHeading string | OpenLink string

definition linkClicked :: "string option \<Rightarrow> js_error + linkAction" where
  "linkClicked href =
     (case href of
        None \<Rightarrow> Inl TypeError
      | Some h \<Rightarrow> Inr (if js_is_prefix ''#'' h then SetFocusedHeading h else OpenLink h))"

text \<open>The children of an element: text, an array, an element with children, or what has none.\<close>

datatype reactNode =
    TextChild string
  | ArrayChild "reactNode list"
  | ElementChild reactNode
  | OtherChild

fun getTextContent :: "reactNode \<Rightarrow> string" where
  "getTextContent (TextChild s) = s"
| "getTextContent (ArrayChild cs) = concat (map getTextContent cs)"
| "getTextContent (ElementChild c) = getTextContent c"
| "getTextContent OtherChild = []"

text \<open>The text without one newline at its end: what is copied, and what is run.\<close>

definition textToCopy :: "reactNode \<Rightarrow> string" where
  "textToCopy children =
     (let s = getTextContent children in if s \<noteq> [] \<and> last s = CHR 0x0A then butlast s else s)"

definition handleExecute :: "bool \<Rightarrow> reactNode \<Rightarrow> string option" where
  "handleExecute hasOnClickExecute children = (if hasOnClickExecute then Some (textToCopy children) else None)"

record markdownImg =
  im_src :: "string option"          \<comment> \<open>\<open>resolvedSrc\<close>\<close>
  im_str :: "string option"          \<comment> \<open>\<open>resolvedStr\<close>\<close>
  im_resolving :: bool
  im_requests :: "(string \<times> string) list"     \<comment> \<open>base directory and source, under way\<close>

definition imgMounted :: "string \<Rightarrow> markdownImg" where
  "imgMounted src = \<lparr>im_src = Some src, im_str = None, im_resolving = True, im_requests = []\<rparr>"

text \<open>The effect of a new source, with the base directory when there are options to resolve it.\<close>

definition imgEffect :: "string \<Rightarrow> string option \<Rightarrow> markdownImg \<Rightarrow> markdownImg" where
  "imgEffect src baseDir im =
     (if js_is_prefix ''http://'' src \<or> js_is_prefix ''https://'' src \<or> js_is_prefix ''data:image/'' src then
        im\<lparr>im_resolving := False, im_src := Some src, im_str := None\<rparr>
      else
        (case baseDir of
           None \<Rightarrow> im\<lparr>im_resolving := False, im_src := None, im_str := Some (''[img:'' @ src @ '']'')\<rparr>
         | Some d \<Rightarrow> im\<lparr>im_requests := im_requests im @ [(d, src)]\<rparr>))"

definition streamingUrl :: "string \<Rightarrow> string \<Rightarrow> string option \<Rightarrow> string" where
  "streamingUrl webEndpoint path connName =
     webEndpoint @ ''/wave/stream-file?path='' @ formEncode path @
     (if isBlank connName then [] else ''&connection='' @ formEncode (the connName))"

definition imgResolved :: "string \<Rightarrow> string \<Rightarrow> string option \<Rightarrow> markdownImg \<Rightarrow> markdownImg" where
  "imgResolved webEndpoint path connName im =
     (case im_requests im of
        [] \<Rightarrow> im
      | _ # rs \<Rightarrow> im\<lparr>im_src := Some (streamingUrl webEndpoint path connName), im_str := None, im_resolving := False, im_requests := rs\<rparr>)"

datatype shownImg = ImgNothing | ImgText string | ImgElement string

definition imgShown :: "markdownImg \<Rightarrow> shownImg" where
  "imgShown im =
     (if im_resolving im then ImgNothing
      else case (im_str im, im_src im) of
        (Some s, _) \<Rightarrow> ImgText s
      | (None, Some s) \<Rightarrow> ImgElement s
      | (None, None) \<Rightarrow> ImgText ''[img]'')"

text \<open>Where the heading of a link is looked for, and how far the content is scrolled.\<close>

definition headingId :: "string \<Rightarrow> string \<Rightarrow> string" where
  "headingId idPrefix focusedHeading = idPrefix @ drop 1 focusedHeading"

definition headingScroll :: "string option \<Rightarrow> jsnum option \<Rightarrow> jsnum \<Rightarrow> jsnum option" where
  "headingScroll focusedHeading headingTop viewportTop =
     (if isBlank focusedHeading then None else map_option (\<lambda>t. t - viewportTop) headingTop)"

record tocItem =
  to_href :: string
  to_depth :: nat
  to_value :: string

definition tocShown :: "bool option \<Rightarrow> tocItem list \<Rightarrow> (tocItem \<times> linkAction) list option" where
  "tocShown showToc items =
     (if showToc = Some True \<and> items \<noteq> [] then Some (map (\<lambda>i. (i, SetFocusedHeading (to_href i))) items) else None)"

definition markdownText :: "string option \<Rightarrow> string option \<Rightarrow> string option" where
  "markdownText textAtomValue txt1 = (case textAtomValue of Some t \<Rightarrow> Some t | None \<Rightarrow> txt1)"

section \<open>The editor and the help\<close>

record editorOptions =
  eo_scrollBeyondLastLine :: bool
  eo_fontSize :: nat
  eo_fontFamily :: string
  eo_smoothScrolling :: bool
  eo_scrollbarSize :: nat
  eo_minimapEnabled :: bool
  eo_stickyScrollEnabled :: bool

definition defaultEditorOptions :: editorOptions where
  "defaultEditorOptions =
     \<lparr>eo_scrollBeyondLastLine = False, eo_fontSize = 12, eo_fontFamily = ''Hack'', eo_smoothScrolling = True,
      eo_scrollbarSize = 5, eo_minimapEnabled = True, eo_stickyScrollEnabled = False\<rparr>"

definition settingOr :: "(string, json) js_map \<Rightarrow> string \<Rightarrow> json" where
  "settingOr settings key = (case map_get settings key of None \<Rightarrow> JBool False | Some v \<Rightarrow> if isNullish v then JBool False else v)"

definition editorOpts :: "(string, json) js_map \<Rightarrow> editorOptions" where
  "editorOpts settings = defaultEditorOptions
     \<lparr>eo_minimapEnabled := truthy (settingOr settings ''editor:minimapenabled''),
      eo_stickyScrollEnabled := truthy (settingOr settings ''editor:stickyscrollenabled'')\<rparr>"

text \<open>The editor keeps what its mounting returned and runs it when it leaves the screen.\<close>

definition handleEditorOnMount :: "'u option \<Rightarrow> 'u option \<Rightarrow> 'u option" where
  "handleEditorOnMount onMount unmountRef = (case onMount of None \<Rightarrow> unmountRef | Some u \<Rightarrow> Some u)"

definition handleEditorChange :: "bool \<Rightarrow> string \<Rightarrow> string option" where
  "handleEditorChange hasOnChange t = (if hasOnChange then Some t else None)"

definition showTocToggle :: "bool \<Rightarrow> bool" where
  "showTocToggle showToc = (\<not> showToc)"

section \<open>Properties\<close>

lemma digit_char_inj: "i < 10 \<Longrightarrow> j < 10 \<Longrightarrow> digit_char i = digit_char j \<Longrightarrow> i = j"
  by (simp add: digit_char_def char_of_eq_iff take_bit_eq_mod)

lemma show_nat_inj: "show_nat i = show_nat j \<Longrightarrow> i = j"
proof (induction i arbitrary: j rule: show_nat.induct)
  case (1 i)
  note unf = show_nat.simps [of i] show_nat.simps [of j]
  show ?case
  proof (cases "i < 10 \<or> j < 10")
    case True
    then show ?thesis
      using 1(2) unf digit_char_inj [of i j] show_nat_nonempty [of "i div 10"] show_nat_nonempty [of "j div 10"]
      by (auto simp del: show_nat_nonempty split: if_splits)
  next
    case False
    then have "show_nat (i div 10) @ [digit_char (i mod 10)] = show_nat (j div 10) @ [digit_char (j mod 10)]"
      using 1(2) unf by simp
    then have "i div 10 = j div 10" "i mod 10 = j mod 10"
      using 1(1) [of "j div 10"] False digit_char_inj by auto
    then show ?thesis by (metis div_mult_mod_eq)
  qed
qed

lemma nameRow_from:
  "a + length row \<le> width \<Longrightarrow>
    map_get (fold (\<lambda>(i, v) m. map_set (if i < width then columnName i else ''undefined'') v m)
      (zip [a..<a + length row] row) m) (columnName j) =
    (if a \<le> j \<and> j < a + length row then Some (row ! (j - a)) else map_get m (columnName j))"
proof (induction row arbitrary: a m)
  case (Cons v row)
  have upt: "[a..<a + length (v # row)] = a # [Suc a..<Suc a + length row]" 
    by (subst upt_conv_Cons) simp_all
  have name: "columnName a = columnName j \<longleftrightarrow> a = j" using show_nat_inj [of "a + 1" "j + 1"] by (auto simp: columnName_def)
  have nth: "(v # row) ! (j - a) = row ! (j - Suc a)" if "Suc a \<le> j"
    using that by (simp add: nth_Cons' )
  show ?case
    unfolding upt using Cons.prems Cons.IH [of "Suc a" "map_set (columnName a) v m"] name nth by auto
qed auto

text \<open>
  A table without headers loses nothing: when a row is no longer than the first, each of its cells
  is found under the name of its column.
\<close>

theorem headerless_rows_keep_their_cells:
  assumes "length row \<le> width" "j < length row"
  shows "map_get (nameRow width row) (columnName j) = Some (row ! j)"
  using nameRow_from [of 0 row width "[]" j] assms by (simp add: nameRow_def)

text \<open>A table goes on showing its first content: a new content reaches the cache, not the state.\<close>

theorem csv_shows_its_first_content:
  "cv_content (fold (\<lambda>(f, c). csvRendered f c) rs (csvMounted f c)) = c"
proof -
  have "cv_content (fold (\<lambda>(f, c). csvRendered f c) rs v) = cv_content v" for v
    by (induction rs arbitrary: v) (auto simp: csvRendered_def)
  then show ?thesis by (simp add: csvMounted_def)
qed

text \<open>
  An image without an absolute source is loaded by way of the window's own server, or not at all.
\<close>

theorem relative_images_stay_local:
  assumes "\<not> js_is_prefix ''http://'' src" "\<not> js_is_prefix ''https://'' src" "\<not> js_is_prefix ''data:image/'' src"
    and "imgShown (fold (\<lambda>(path, conn). imgResolved ep path conn) answers (imgEffect src baseDir (imgMounted src))) = ImgElement url"
  shows "js_is_prefix (ep @ ''/wave/stream-file?path='') url"
proof -
  define ok :: "markdownImg \<Rightarrow> bool" where "ok = (\<lambda>im. im_resolving im \<or> im_str im \<noteq> None \<or> (\<exists>p c. im_src im = Some (streamingUrl ep p c)))"
  have "ok (imgEffect src baseDir (imgMounted src))"
    using assms(1-3) by (auto simp: ok_def imgEffect_def imgMounted_def split: option.split)
  moreover have step: "ok im \<Longrightarrow> ok (imgResolved ep p c im)" for p c im
    by (auto simp: ok_def imgResolved_def split: list.split)
  have "ok (fold (\<lambda>(path, conn). imgResolved ep path conn) as im)" if "ok im" for as im
    using that by (induction as arbitrary: im) (use step in auto)
  ultimately have "ok (fold (\<lambda>(path, conn). imgResolved ep path conn) answers (imgEffect src baseDir (imgMounted src)))" by blast
  then obtain p c where "url = streamingUrl ep p c"
    using assms(4) by (auto simp: ok_def imgShown_def split: if_splits option.splits)
  then show ?thesis by (simp add: streamingUrl_def js_is_prefix_def)
qed

end
