(* ===== verification/WebView.thy ===== *)
theory WebView
  imports BlockUtil KeyUtil
begin

text \<open>
  The web view (app/view/webview/webview.tsx): turning what was typed into a url, the handlers of
  the header, keys and menu, and the loop between the page that the web view shows and the url in
  the metadata of the block. The web view element is what it shows and a list of calls.
\<close>

section \<open>Urls\<close>

definition hasHttpScheme :: "string \<Rightarrow> bool" where
  "hasHttpScheme url \<longleftrightarrow> js_is_prefix ''http:'' url \<or> js_is_prefix ''https:'' url"

text \<open>\<open>/^(localhost|(\d{1,3}\.){3}\d{1,3})(:\d+)?$/\<close>\<close>

definition isDottedQuad :: "string \<Rightarrow> bool" where
  "isDottedQuad s \<longleftrightarrow>
     (let parts = js_split (CHR ''.'') s
      in length parts = 4 \<and> list_all (\<lambda>p. 1 \<le> length p \<and> length p \<le> 3 \<and> list_all isDigitChar p) parts)"

definition isPortSuffix :: "string \<Rightarrow> bool" where
  "isPortSuffix s \<longleftrightarrow> (case s of [] \<Rightarrow> True | c # ds \<Rightarrow> c = CHR '':'' \<and> ds \<noteq> [] \<and> list_all isDigitChar ds)"

definition isLocalUrl :: "string \<Rightarrow> bool" where
  "isLocalUrl s \<longleftrightarrow>
     (let host = takeWhile (\<lambda>c. c \<noteq> CHR '':'') s
      in (host = ''localhost'' \<or> isDottedQuad host) \<and> isPortSuffix (dropWhile (\<lambda>c. c \<noteq> CHR '':'') s))"

text \<open>\<open>/^[a-z0-9.-]+\.[a-z]{2,}$/i\<close>: what follows the last dot is the letters.\<close>

definition isDomain :: "string \<Rightarrow> bool" where
  "isDomain s \<longleftrightarrow>
     (let tld = rev (takeWhile (\<lambda>c. c \<noteq> CHR ''.'') (rev s));
          front = rev (dropWhile (\<lambda>c. c \<noteq> CHR ''.'') (rev s));
          letter = (\<lambda>c. isLower (lowerChar c))
      in 2 \<le> length front \<and> 2 \<le> length tld \<and> list_all letter tld \<and>
         list_all (\<lambda>c. letter c \<or> isDigitChar c \<or> c = CHR ''.'' \<or> c = CHR ''-'') front)"

text \<open>\<open>replace\<close> with a string puts the replacement in the place of the first occurrence.\<close>

fun replaceFirst :: "string \<Rightarrow> string \<Rightarrow> string \<Rightarrow> string" where
  "replaceFirst pat r [] = (if pat = [] then r else [])"
| "replaceFirst pat r (c # cs) =
     (if js_is_prefix pat (c # cs) then r @ drop (length pat) (c # cs) else c # replaceFirst pat r cs)"

definition queryMark :: string where
  "queryMark = ''{query}''"

definition ensureUrlScheme :: "string option \<Rightarrow> string option \<Rightarrow> string" where
  "ensureUrlScheme url searchTemplate =
     (let url = (case url of None \<Rightarrow> [] | Some u \<Rightarrow> u);
          host = js_split (CHR ''/'') url ! 0 in
      if hasHttpScheme url then url
      else if isLocalUrl host then ''http://'' @ url
      else if isDomain host then ''https://'' @ url
      else case searchTemplate of
        None \<Rightarrow> ''https://www.google.com/search?q='' @ encodeURIComponent url
      | Some t \<Rightarrow> replaceFirst queryMark (encodeURIComponent url) t)"

section \<open>The model\<close>

datatype webCall =
    LoadURL string | WebGoBack | WebGoForward | WebReload | WebStop
  | UpdateMetaUrl string
  | OpenExternal string
  | SetDefaultUrl string
  | OpenDevTools | CloseDevTools
  | FocusWebview | FocusUrlInput | SelectUrlInput | BlurUrlInput
  | SetWebviewFocus bool
  | FocusNodeCall
  | OpenLink string

record webView =
  wv_url :: "string option"
  wv_urlWrapperClassName :: string
  wv_urlInputFocused :: bool
  wv_isLoading :: bool
  wv_refreshIcon :: string
  wv_webview :: "string option"           \<comment> \<open>what \<open>getURL\<close> returns, when the element is there\<close>
  wv_devTools :: bool
  wv_metaUrl :: string                    \<comment> \<open>\<open>metaUrlRef\<close>\<close>
  wv_awaitFocus :: nat                    \<comment> \<open>how many take the focus when Ctrl:Shift is released\<close>
  wv_calls :: "webCall list"

definition webCall1 :: "webCall \<Rightarrow> webView \<Rightarrow> webView" where
  "webCall1 c w = w\<lparr>wv_calls := wv_calls w @ [c]\<rparr>"

text \<open>A call on the element, when it is there.\<close>

definition onWebview :: "webCall \<Rightarrow> webView \<Rightarrow> webView" where
  "onWebview c w = (case wv_webview w of None \<Rightarrow> w | Some _ \<Rightarrow> webCall1 c w)"

text \<open>The url in the header: that of the metadata, or the default one, unless another was set.\<close>

definition headerUrl :: "string option \<Rightarrow> string option \<Rightarrow> webView \<Rightarrow> string option" where
  "headerUrl metaUrl defaultUrl w =
     (let url = (if metaUrl = None \<or> metaUrl = Some [] then defaultUrl else metaUrl)
      in case wv_url w of None \<Rightarrow> url | Some u \<Rightarrow> Some u)"

text \<open>A failing call, as well as a missing element, disables the button.\<close>

definition shouldDisabledBackButton :: "(js_error + bool) option \<Rightarrow> bool" where
  "shouldDisabledBackButton canGoBack = (case canGoBack of Some (Inr b) \<Rightarrow> \<not> b | _ \<Rightarrow> True)"

definition shouldDisabledForwardButton :: "(js_error + bool) option \<Rightarrow> bool" where
  "shouldDisabledForwardButton canGoForward = (case canGoForward of Some (Inr b) \<Rightarrow> \<not> b | _ \<Rightarrow> True)"

definition handleUrlWrapperMouseOver :: "webView \<Rightarrow> webView" where
  "handleUrlWrapperMouseOver w = (if wv_urlInputFocused w then w else w\<lparr>wv_urlWrapperClassName := ''hovered''\<rparr>)"

definition handleUrlWrapperMouseOut :: "webView \<Rightarrow> webView" where
  "handleUrlWrapperMouseOut w = (if wv_urlInputFocused w then w else w\<lparr>wv_urlWrapperClassName := []\<rparr>)"

definition handleBack :: "webView \<Rightarrow> webView" where
  "handleBack = onWebview WebGoBack"

definition handleForward :: "webView \<Rightarrow> webView" where
  "handleForward = onWebview WebGoForward"

definition handleRefresh :: "webView \<Rightarrow> webView" where
  "handleRefresh w = onWebview (if wv_isLoading w then WebStop else WebReload) w"

definition handleUrlChange :: "string \<Rightarrow> webView \<Rightarrow> webView" where
  "handleUrlChange v w = w\<lparr>wv_url := Some v\<rparr>"

definition handleFocus :: "webView \<Rightarrow> webView" where
  "handleFocus w = webCall1 SelectUrlInput (webCall1 FocusUrlInput (w\<lparr>wv_urlWrapperClassName := ''focused'', wv_urlInputFocused := True\<rparr>))"

definition handleBlur :: "webView \<Rightarrow> webView" where
  "handleBlur w = w\<lparr>wv_urlWrapperClassName := [], wv_urlInputFocused := False\<rparr>"

definition handleNavigate :: "string \<Rightarrow> webView \<Rightarrow> webView" where
  "handleNavigate url w = (webCall1 (UpdateMetaUrl url) w)\<lparr>wv_url := Some url\<rparr>"

text \<open>The log line reads \<open>getURL\<close> of the element before the check that it is there.\<close>

definition loadUrl :: "string option \<Rightarrow> string option \<Rightarrow> webView \<Rightarrow> (js_error + unit) \<times> webView" where
  "loadUrl searchTemplate newUrl w =
     (let nextUrl = ensureUrlScheme newUrl searchTemplate in
      case wv_webview w of
        None \<Rightarrow> (Inl TypeError, w)
      | Some cur \<Rightarrow>
          let w = (if newUrl \<noteq> Some nextUrl then w\<lparr>wv_url := Some nextUrl\<rparr> else w)
          in (Inr (), if cur \<noteq> nextUrl then webCall1 (LoadURL nextUrl) w else w))"

definition handleKeyDown :: "string option \<Rightarrow> waveKeyboardEvent \<Rightarrow> webView \<Rightarrow> (js_error + unit) \<times> webView" where
  "handleKeyDown searchTemplate e w =
     (if checkKeyPressed e ''Enter'' then
        andThen (loadUrl searchTemplate (wv_url w) w) (\<lambda>_ w. (Inr (), webCall1 BlurUrlInput w))
      else if checkKeyPressed e ''Escape'' then (Inr (), onWebview FocusWebview w)
      else (Inr (), w))"

text \<open>Focus, at once or when Ctrl:Shift is released and the node still has the focus.\<close>

definition giveFocus :: "bool \<Rightarrow> webView \<Rightarrow> bool \<times> webView" where
  "giveFocus ctrlShiftState w =
     (if ctrlShiftState then (False, w\<lparr>wv_awaitFocus := Suc (wv_awaitFocus w)\<rparr>) else (True, onWebview FocusWebview w))"

definition ctrlShiftReleased :: "bool \<Rightarrow> webView \<Rightarrow> webView" where
  "ctrlShiftReleased isStillFocused w =
     (if isStillFocused then (onWebview FocusWebview ^^ wv_awaitFocus w) else id) (w\<lparr>wv_awaitFocus := 0\<rparr>)"

definition keyDownHandler :: "waveKeyboardEvent \<Rightarrow> webView \<Rightarrow> bool \<times> webView" where
  "keyDownHandler e w =
     (if checkKeyPressed e ''Cmd:l'' then (True, webCall1 SelectUrlInput (webCall1 FocusUrlInput w))
      else if checkKeyPressed e ''Cmd:r'' then (True, onWebview WebReload w)
      else if checkKeyPressed e ''Cmd:ArrowLeft'' then (True, handleBack w)
      else if checkKeyPressed e ''Cmd:ArrowRight'' then (True, handleForward w)
      else (False, w))"

definition setHomepage :: "webView \<Rightarrow> webView" where
  "setHomepage w = (case wv_url w of Some u \<Rightarrow> if u \<noteq> [] then webCall1 (SetDefaultUrl u) w else w | None \<Rightarrow> w)"

definition openInBrowser :: "webView \<Rightarrow> webView" where
  "openInBrowser w = (case wv_url w of Some u \<Rightarrow> if u \<noteq> [] then webCall1 (OpenExternal u) w else w | None \<Rightarrow> w)"

definition toggleDevTools :: "webView \<Rightarrow> webView" where
  "toggleDevTools w =
     (if wv_webview w = None then w
      else if wv_devTools w then (webCall1 CloseDevTools w)\<lparr>wv_devTools := False\<rparr>
      else (webCall1 OpenDevTools w)\<lparr>wv_devTools := True\<rparr>)"

definition settingsMenuLabels :: "webView \<Rightarrow> string list" where
  "settingsMenuLabels w =
     [''Set Homepage'', ''separator'', if wv_webview w \<noteq> None \<and> wv_devTools w then ''Close DevTools'' else ''Open DevTools'']"

section \<open>The component\<close>

definition metaUrlOf :: "string option \<Rightarrow> string option \<Rightarrow> string option \<Rightarrow> string" where
  "metaUrlOf blockUrl defaultUrl defaultSearch =
     ensureUrlScheme (if blockUrl = None \<or> blockUrl = Some [] then defaultUrl else blockUrl) defaultSearch"

text \<open>The effect on \<open>[metaUrl]\<close>.\<close>

definition metaUrlEffect :: "string option \<Rightarrow> string \<Rightarrow> webView \<Rightarrow> (js_error + unit) \<times> webView" where
  "metaUrlEffect searchTemplate metaUrl w =
     (if wv_metaUrl w \<noteq> metaUrl then loadUrl searchTemplate (Some metaUrl) (w\<lparr>wv_metaUrl := metaUrl\<rparr>) else (Inr (), w))"

definition startLoadingHandler :: "webView \<Rightarrow> webView" where
  "startLoadingHandler w = w\<lparr>wv_refreshIcon := ''xmark-large'', wv_isLoading := True\<rparr>"

definition stopLoadingHandler :: "webView \<Rightarrow> webView" where
  "stopLoadingHandler w = w\<lparr>wv_refreshIcon := ''rotate-right'', wv_isLoading := False\<rparr>"

definition webviewFocus :: "webView \<Rightarrow> webView" where
  "webviewFocus w = webCall1 FocusNodeCall (webCall1 (SetWebviewFocus True) w)"

definition webviewBlur :: "webView \<Rightarrow> webView" where
  "webviewBlur w = webCall1 (SetWebviewFocus False) w"

definition newWindowHandler :: "string \<Rightarrow> webView \<Rightarrow> webView" where
  "newWindowHandler url w = webCall1 (OpenLink url) w"

text \<open>The element has navigated: it shows another url and tells its listeners.\<close>

definition navigated :: "string \<Rightarrow> webView \<Rightarrow> webView" where
  "navigated url w = handleNavigate url (w\<lparr>wv_webview := Some url\<rparr>)"

definition newWebView :: "string \<Rightarrow> webView" where
  "newWebView metaUrl =
     \<lparr>wv_url = None, wv_urlWrapperClassName = [], wv_urlInputFocused = False, wv_isLoading = False,
      wv_refreshIcon = ''rotate-right'', wv_webview = Some metaUrl, wv_devTools = False, wv_metaUrl = metaUrl,
      wv_awaitFocus = 0, wv_calls = []\<rparr>"

section \<open>Properties\<close>

lemma prefix_append: "js_is_prefix p (p @ s)"
  by (simp add: js_is_prefix_def)

lemma prefix_split: "js_is_prefix p s \<longleftrightarrow> (\<exists>r. s = p @ r)"
  unfolding js_is_prefix_def by (metis append_eq_conv_conj)

text \<open>A replacement behind a prefix that has none of the pattern's first character leaves the prefix alone.\<close>

lemma replaceFirst_prefix:
  assumes "CHR ''{'' \<notin> set p"
  shows "replaceFirst queryMark r (p @ s) = p @ replaceFirst queryMark r s"
  using assms by (induction p) (auto simp: js_is_prefix_def queryMark_def)

lemma prefix_replace:
  assumes "js_is_prefix p t" "CHR ''{'' \<notin> set p"
  shows "js_is_prefix p (replaceFirst queryMark r t)"
proof -
  obtain s where "t = p @ s" using assms(1) prefix_split by blast
  then show ?thesis using replaceFirst_prefix [OF assms(2), of r s] by (simp add: prefix_append)
qed

lemma hasHttpScheme_replace: "hasHttpScheme t \<Longrightarrow> hasHttpScheme (replaceFirst queryMark r t)"
  using prefix_replace [of "''http:''" t r] prefix_replace [of "''https:''" t r] unfolding hasHttpScheme_def by auto

text \<open>
  Whatever is typed, what is loaded is an http or https url, provided that the search template
  is one; a url that is one already is loaded as it is, so that nothing changes it a second time.
\<close>

theorem typed_url_is_http:
  assumes "case searchTemplate of None \<Rightarrow> True | Some t \<Rightarrow> hasHttpScheme t"
  shows "hasHttpScheme (ensureUrlScheme url searchTemplate) \<and>
    ensureUrlScheme (Some (ensureUrlScheme url searchTemplate)) anyTemplate = ensureUrlScheme url searchTemplate"
proof -
  have "hasHttpScheme (ensureUrlScheme url searchTemplate)"
    using assms hasHttpScheme_replace
    by (auto simp: ensureUrlScheme_def Let_def split: option.splits)
      (simp_all add: hasHttpScheme_def js_is_prefix_def)
  then show ?thesis by (simp add: ensureUrlScheme_def [of "Some _" anyTemplate])
qed

text \<open>
  The page that the web view has navigated to comes back as the url in the metadata of the
  block. If the web view still shows that page, nothing is loaded; if it has moved on to another
  page meanwhile, the page it had left is loaded again.
\<close>

theorem echo_of_navigation:
  assumes "hasHttpScheme u" "wv_webview w = Some current" "wv_metaUrl w \<noteq> u"
    and "metaUrlEffect searchTemplate (metaUrlOf (Some u) defaultUrl searchTemplate) w = (r, w')"
  shows "wv_calls w' = wv_calls w @ (if current = u then [] else [LoadURL u]) \<and> wv_url w' = wv_url w \<and> r = Inr ()"
proof -
  have "u \<noteq> []" using assms(1) by (auto simp: hasHttpScheme_def js_is_prefix_def)
  then have "metaUrlOf (Some u) defaultUrl searchTemplate = u" "ensureUrlScheme (Some u) searchTemplate = u"
    using assms(1) by (simp_all add: metaUrlOf_def ensureUrlScheme_def)
  with assms show ?thesis by (auto simp: metaUrlEffect_def loadUrl_def webCall1_def Let_def)
qed

theorem typed_url_is_http_witness:
  "hasHttpScheme (ensureUrlScheme (Some ''what is this'') (Some ''https://search?q={query}''))"
  using typed_url_is_http [of "Some ''https://search?q={query}''" "Some ''what is this''" None]
  by (simp add: hasHttpScheme_def js_is_prefix_def)

theorem echo_of_navigation_witness:
  "wv_calls (snd (metaUrlEffect None (metaUrlOf (Some ''http://a'') None None)
      (navigated ''http://b'' (navigated ''http://a'' (newWebView ''http://home''))))) =
     [UpdateMetaUrl ''http://a'', UpdateMetaUrl ''http://b'', LoadURL ''http://a'']"
  using echo_of_navigation [of "''http://a''" "navigated ''http://b'' (navigated ''http://a'' (newWebView ''http://home''))"
      "''http://b''" None None, OF _ _ _ prod.collapse [symmetric]]
  by (simp add: hasHttpScheme_def js_is_prefix_def navigated_def handleNavigate_def webCall1_def newWebView_def)

end
