(* ===== verification/WaveAi.thy ===== *)
theory WaveAi
  imports Util KeyUtil
begin

text \<open>
  The AI chat view (app/view/waveai/waveai.tsx): the list of messages and its atoms, one exchange
  with the backend at a time behind a lock, cancelling, the saved conversation, and the choice of
  a code block with the arrow keys. The awaits of \<open>sendMessage\<close> are the phases of the exchange;
  the backend and the stream are events. The ids of messages are numbered as they are drawn.
\<close>

record prompt =
  pr_role :: string
  pr_content :: string

record chatMessage =
  cm_id :: nat
  cm_user :: string
  cm_text :: string
  cm_isAssistant :: bool
  cm_isUpdating :: "bool option"
  cm_isError :: "string option"

record aiOpts =
  ao_model :: "string option"
  ao_apitoken :: "string option"
  ao_maxtokens :: "rat option"
  ao_timeout :: "rat option"       \<comment> \<open>\<open>None\<close> is the \<open>NaN\<close> that an unset number divides to\<close>
  ao_baseurl :: "string option"

record aiSettings =
  as_model :: "string option"
  as_apitoken :: "string option"
  as_maxtokens :: "rat option"
  as_timeoutms :: "rat option"
  as_baseurl :: "string option"

datatype aiCall = StreamWaveAi string aiOpts "prompt list" | SaveWaveAiData "prompt list"

datatype exchange =
    NoExchange
  | AwaitHistory prompt aiOpts string
  | Streaming "prompt list" prompt string       \<comment> \<open>history, new prompt and \<open>fullMsg\<close>\<close>
  | AwaitSave

record waveAi =
  wa_messages :: "chatMessage list"
  wa_locked :: bool
  wa_cancel :: bool
  wa_exchange :: exchange
  wa_nextId :: nat
  wa_value :: string               \<comment> \<open>the text area\<close>
  wa_selectedBlockIdx :: "int option"
  wa_calls :: "aiCall list"

definition newWaveAiModel :: waveAi where
  "newWaveAiModel =
     \<lparr>wa_messages = [], wa_locked = False, wa_cancel = False, wa_exchange = NoExchange, wa_nextId = 0,
      wa_value = [], wa_selectedBlockIdx = None, wa_calls = []\<rparr>"

section \<open>Messages\<close>

definition promptToMsg :: "nat \<Rightarrow> prompt \<Rightarrow> chatMessage" where
  "promptToMsg i p =
     \<lparr>cm_id = i, cm_user = pr_role p, cm_text = pr_content p, cm_isAssistant = (pr_role p = ''assistant''),
      cm_isUpdating = None, cm_isError = None\<rparr>"

definition addMessage :: "chatMessage \<Rightarrow> waveAi \<Rightarrow> waveAi" where
  "addMessage m w = w\<lparr>wa_messages := wa_messages w @ [m]\<rparr>"

definition updateLastMessage :: "string \<Rightarrow> bool \<Rightarrow> waveAi \<Rightarrow> (js_error + unit) \<times> waveAi" where
  "updateLastMessage txt isUpdating w =
     (if wa_messages w = [] then (Inl TypeError, w)
      else
        let lastMessage = last (wa_messages w) in
        if cm_isAssistant lastMessage \<and> (cm_isError lastMessage = None \<or> cm_isError lastMessage = Some [])
        then (Inr (), w\<lparr>wa_messages := butlast (wa_messages w) @
               [lastMessage\<lparr>cm_text := cm_text lastMessage @ txt, cm_isUpdating := Some isUpdating\<rparr>]\<rparr>)
        else (Inr (), w))"

definition removeLastMessage :: "waveAi \<Rightarrow> waveAi" where
  "removeLastMessage w = w\<lparr>wa_messages := butlast (wa_messages w)\<rparr>"

text \<open>The name of the model in the header.\<close>

definition viewText :: "aiSettings \<Rightarrow> string" where
  "viewText settings =
     (let isCloud = isBlank (as_apitoken settings) \<and> isBlank (as_baseurl settings)
      in if \<not> isCloud \<and> \<not> isBlank (as_model settings) then the (as_model settings) else ''gpt-4o-mini'')"

text \<open>The file of the conversation: no data is an empty history.\<close>

definition fetchAiData :: "prompt list option \<Rightarrow> prompt list" where
  "fetchAiData fileData = (case fileData of None \<Rightarrow> [] | Some history \<Rightarrow> history)"

definition populateMessages :: "prompt list option \<Rightarrow> waveAi \<Rightarrow> waveAi" where
  "populateMessages fileData w =
     (let history = fetchAiData fileData;
          n = wa_nextId w
      in w\<lparr>wa_messages := map2 promptToMsg [n..<n + length history] history, wa_nextId := n + length history\<rparr>)"

section \<open>An exchange\<close>

definition aiOptsOf :: "aiSettings \<Rightarrow> aiOpts" where
  "aiOptsOf s = \<lparr>ao_model = as_model s, ao_apitoken = as_apitoken s, ao_maxtokens = as_maxtokens s,
     ao_timeout = map_option (\<lambda>t. t / 1000) (as_timeoutms s), ao_baseurl = as_baseurl s\<rparr>"

text \<open>\<open>sendMessage\<close> up to its first await: both messages are shown and the history is asked for.\<close>

definition sendMessage :: "aiSettings \<Rightarrow> string \<Rightarrow> string \<Rightarrow> waveAi \<Rightarrow> waveAi" where
  "sendMessage settings clientId txt w =
     (let n = wa_nextId w;
          newMessage = \<lparr>cm_id = n, cm_user = ''user'', cm_text = txt, cm_isAssistant = False,
            cm_isUpdating = None, cm_isError = None\<rparr>;
          typingMessage = \<lparr>cm_id = Suc n, cm_user = ''assistant'', cm_text = [], cm_isAssistant = True,
            cm_isUpdating = None, cm_isError = None\<rparr>;
          newPrompt = \<lparr>pr_role = ''user'', pr_content = txt\<rparr>
      in (addMessage typingMessage (addMessage newMessage (w\<lparr>wa_locked := True\<rparr>)))
           \<lparr>wa_nextId := Suc (Suc n), wa_exchange := AwaitHistory newPrompt (aiOptsOf settings) clientId\<rparr>)"

definition historyFetched :: "prompt list option \<Rightarrow> waveAi \<Rightarrow> waveAi" where
  "historyFetched fileData w =
     (case wa_exchange w of
        AwaitHistory newPrompt opts clientId \<Rightarrow>
          let history = fetchAiData fileData in
          w\<lparr>wa_exchange := Streaming history newPrompt [],
            wa_calls := wa_calls w @ [StreamWaveAi clientId opts (history @ [newPrompt])]\<rparr>
      | _ \<Rightarrow> w)"

text \<open>The end of an exchange, and its failure: an exception leaves the lock as it is.\<close>

definition exchangeDone :: "waveAi \<Rightarrow> waveAi" where
  "exchangeDone w = w\<lparr>wa_locked := False, wa_cancel := False, wa_exchange := NoExchange\<rparr>"

definition exchangeFails :: "waveAi \<Rightarrow> waveAi" where
  "exchangeFails w = w\<lparr>wa_exchange := NoExchange\<rparr>"

definition afterUpdate :: "(js_error + unit) \<times> waveAi \<Rightarrow> (waveAi \<Rightarrow> waveAi) \<Rightarrow> waveAi" where
  "afterUpdate r k = (case r of (Inl _, w) \<Rightarrow> exchangeFails w | (Inr _, w) \<Rightarrow> k w)"

text \<open>What follows the loop over the stream.\<close>

definition streamEnded :: "prompt list \<Rightarrow> prompt \<Rightarrow> string \<Rightarrow> waveAi \<Rightarrow> waveAi" where
  "streamEnded history newPrompt fullMsg w =
     afterUpdate (updateLastMessage [] False w)
       (\<lambda>w. if fullMsg \<noteq> [] then
              w\<lparr>wa_calls := wa_calls w @
                  [SaveWaveAiData (history @ [newPrompt, \<lparr>pr_role = ''assistant'', pr_content = fullMsg\<rparr>])],
                wa_exchange := AwaitSave\<rparr>
            else exchangeDone w)"

text \<open>The body of the loop: one message of the stream.\<close>

definition streamMsg :: "string option \<Rightarrow> waveAi \<Rightarrow> waveAi" where
  "streamMsg msgText w =
     (case wa_exchange w of
        Streaming history newPrompt fullMsg \<Rightarrow>
          let txt = (case msgText of None \<Rightarrow> [] | Some t \<Rightarrow> t);
              fullMsg = fullMsg @ txt
          in afterUpdate (updateLastMessage txt True w)
               (\<lambda>w. if wa_cancel w
                    then streamEnded history newPrompt fullMsg (if fullMsg = [] then removeLastMessage w else w)
                    else w\<lparr>wa_exchange := Streaming history newPrompt fullMsg\<rparr>)
      | _ \<Rightarrow> w)"

definition streamEnds :: "waveAi \<Rightarrow> waveAi" where
  "streamEnds w =
     (case wa_exchange w of Streaming history newPrompt fullMsg \<Rightarrow> streamEnded history newPrompt fullMsg w | _ \<Rightarrow> w)"

definition saveDone :: "waveAi \<Rightarrow> waveAi" where
  "saveDone w = (if wa_exchange w = AwaitSave then exchangeDone w else w)"

section \<open>The view\<close>

definition handleTextAreaChange :: "string \<Rightarrow> waveAi \<Rightarrow> waveAi" where
  "handleTextAreaChange v w = w\<lparr>wa_value := v\<rparr>"

definition handleEnterKeyPressed :: "aiSettings \<Rightarrow> string \<Rightarrow> waveAi \<Rightarrow> waveAi" where
  "handleEnterKeyPressed settings clientId w =
     (if wa_locked w \<or> wa_value w = [] then w
      else (sendMessage settings clientId (wa_value w) w)\<lparr>wa_value := [], wa_selectedBlockIdx := None\<rparr>)"

definition handleButtonPress :: "aiSettings \<Rightarrow> string \<Rightarrow> waveAi \<Rightarrow> waveAi" where
  "handleButtonPress settings clientId w =
     (if wa_locked w then w\<lparr>wa_cancel := True\<rparr> else handleEnterKeyPressed settings clientId w)"

text \<open>\<open>pres\<close> is the number of code blocks, \<open>None\<close> before the chat is on the screen.\<close>

definition shouldSelectCodeBlock :: "bool \<Rightarrow> nat \<Rightarrow> waveAi \<Rightarrow> bool" where
  "shouldSelectCodeBlock isUp cursorPosition w \<longleftrightarrow>
     (CHR 0x0A \<notin> set (take cursorPosition (wa_value w)) \<and> cursorPosition = 0 \<and> isUp) \<or>
     wa_selectedBlockIdx w \<noteq> None"

definition handleArrowUpPressed :: "nat option \<Rightarrow> nat \<Rightarrow> waveAi \<Rightarrow> waveAi" where
  "handleArrowUpPressed pres cursorPosition w =
     (if \<not> shouldSelectCodeBlock True cursorPosition w then w
      else case pres of
        None \<Rightarrow> w
      | Some n \<Rightarrow>
          (case wa_selectedBlockIdx w of
             None \<Rightarrow> w\<lparr>wa_selectedBlockIdx := Some (int n - 1)\<rparr>
           | Some i \<Rightarrow> if 0 < i then w\<lparr>wa_selectedBlockIdx := Some (i - 1)\<rparr> else w))"

definition handleArrowDownPressed :: "nat option \<Rightarrow> nat \<Rightarrow> waveAi \<Rightarrow> waveAi" where
  "handleArrowDownPressed pres cursorPosition w =
     (if \<not> shouldSelectCodeBlock False cursorPosition w then w
      else case (pres, wa_selectedBlockIdx w) of
        (Some n, Some i) \<Rightarrow>
          if i < int n - 1 \<and> 0 \<le> i then w\<lparr>wa_selectedBlockIdx := Some (i + 1)\<rparr>
          else w\<lparr>wa_selectedBlockIdx := None\<rparr>
      | _ \<Rightarrow> w)"

definition handleTextAreaMouseDown :: "waveAi \<Rightarrow> waveAi" where
  "handleTextAreaMouseDown w = w\<lparr>wa_selectedBlockIdx := None\<rparr>"

definition handleTextAreaKeyDown ::
  "aiSettings \<Rightarrow> string \<Rightarrow> nat option \<Rightarrow> nat \<Rightarrow> waveKeyboardEvent \<Rightarrow> waveAi \<Rightarrow> waveAi" where
  "handleTextAreaKeyDown settings clientId pres cursorPosition e w =
     (if checkKeyPressed e ''Enter'' then handleEnterKeyPressed settings clientId w
      else if checkKeyPressed e ''ArrowUp'' then handleArrowUpPressed pres cursorPosition w
      else if checkKeyPressed e ''ArrowDown'' then handleArrowDownPressed pres cursorPosition w
      else w)"

text \<open>The height of the text area, between one and a hundred lines.\<close>

definition adjustTextAreaHeight :: "rat \<Rightarrow> rat \<Rightarrow> rat" where
  "adjustTextAreaHeight termFontSize scrollHeight =
     (let textAreaMaxLines = 100;
          textAreaLineHeight = termFontSize * (3 / 2);
          textAreaMinHeight = textAreaLineHeight;
          textAreaMaxHeight = textAreaLineHeight * textAreaMaxLines
      in min (max scrollHeight textAreaMinHeight) textAreaMaxHeight)"

section \<open>Events\<close>

datatype aiEvent =
    Populated "prompt list option"
  | HistoryFetched "prompt list option"
  | StreamMsg "string option"
  | StreamEnds
  | BackendFails
  | SaveDone
  | Typed string
  | KeyDown aiSettings string "nat option" nat waveKeyboardEvent
  | ButtonPress aiSettings string
  | MouseDown

definition aiStep :: "aiEvent \<Rightarrow> waveAi \<Rightarrow> waveAi" where
  "aiStep e w =
     (case e of
        Populated f \<Rightarrow> populateMessages f w
      | HistoryFetched f \<Rightarrow> historyFetched f w
      | StreamMsg t \<Rightarrow> streamMsg t w
      | StreamEnds \<Rightarrow> streamEnds w
      | BackendFails \<Rightarrow> exchangeFails w
      | SaveDone \<Rightarrow> saveDone w
      | Typed v \<Rightarrow> handleTextAreaChange v w
      | KeyDown settings clientId pres cursorPosition k \<Rightarrow>
          handleTextAreaKeyDown settings clientId pres cursorPosition k w
      | ButtonPress settings clientId \<Rightarrow> handleButtonPress settings clientId w
      | MouseDown \<Rightarrow> handleTextAreaMouseDown w)"

section \<open>Properties\<close>

lemmas ai_ops = historyFetched_def streamMsg_def streamEnds_def saveDone_def exchangeFails_def exchangeDone_def
  handleTextAreaChange_def handleTextAreaKeyDown_def handleButtonPress_def handleEnterKeyPressed_def
  handleArrowUpPressed_def handleArrowDownPressed_def handleTextAreaMouseDown_def

text \<open>An exchange holds the lock, and nothing is sent while it is held.\<close>

definition lockHeld :: "waveAi \<Rightarrow> bool" where
  "lockHeld w \<longleftrightarrow> (wa_exchange w \<noteq> NoExchange \<longrightarrow> wa_locked w)"

lemma locked_updateLast: "wa_locked (snd (updateLastMessage t u w)) = wa_locked w"
  "wa_exchange (snd (updateLastMessage t u w)) = wa_exchange w"
  "wa_calls (snd (updateLastMessage t u w)) = wa_calls w"
  "wa_cancel (snd (updateLastMessage t u w)) = wa_cancel w"
  by (simp_all add: updateLastMessage_def Let_def)

lemma afterUpdate_cases:
  "P (exchangeFails (snd r)) \<Longrightarrow> (fst r = Inr () \<Longrightarrow> P (k (snd r))) \<Longrightarrow> P (afterUpdate r k)"
  by (cases r; cases "fst r") (simp_all add: afterUpdate_def)

lemma lockHeld_streamEnded:
  "wa_locked w \<Longrightarrow> lockHeld (streamEnded h p full w)"
  unfolding streamEnded_def
  by (rule afterUpdate_cases) (simp_all add: lockHeld_def exchangeFails_def exchangeDone_def locked_updateLast)

lemma lockHeldI: "wa_locked w \<Longrightarrow> lockHeld w"
  by (simp add: lockHeld_def)

lemma lockHeld_streamMsg:
  assumes "lockHeld w"
  shows "lockHeld (streamMsg t w)"
proof (cases "wa_exchange w")
  case (Streaming h p full)
  with assms have l: "wa_locked w" by (simp add: lockHeld_def)
  have e: "lockHeld (streamEnded h p f (if c then removeLastMessage w' else w'))" if "wa_locked w'" for f c w'
    using that by (intro lockHeld_streamEnded) (simp add: removeLastMessage_def)
  have f: "lockHeld (w'\<lparr>wa_exchange := x\<rparr>)" if "wa_locked w'" for w' x
    using that by (simp add: lockHeld_def)
  show ?thesis
    unfolding streamMsg_def Let_def Streaming exchange.case
    by (rule afterUpdate_cases) (use l in \<open>simp_all only: exchangeFails_def e f locked_updateLast split: if_split\<close>, simp_all)
qed (use assms in \<open>simp_all add: streamMsg_def\<close>)

lemma lockHeld_step: "lockHeld w \<Longrightarrow> lockHeld (aiStep e w)"
proof (cases e)
  case StreamEnds
  then show "lockHeld w \<Longrightarrow> ?thesis"
    by (cases "wa_exchange w") (auto simp: aiStep_def streamEnds_def lockHeld_def [of w] intro: lockHeld_streamEnded)
next
  case (StreamMsg t)
  then show "lockHeld w \<Longrightarrow> ?thesis" by (simp add: aiStep_def lockHeld_streamMsg)
qed (auto simp: aiStep_def ai_ops lockHeld_def populateMessages_def sendMessage_def addMessage_def Let_def
    split: exchange.split option.split)

lemma lockHeld_run: "lockHeld w \<Longrightarrow> lockHeld (fold aiStep es w)"
  by (induction es arbitrary: w) (simp_all add: lockHeld_step)

lemma stuck_step:
  assumes "wa_locked w" "wa_exchange w = NoExchange"
  shows "wa_locked (aiStep e w) \<and> wa_exchange (aiStep e w) = NoExchange \<and> wa_calls (aiStep e w) = wa_calls w"
  using assms
  by (auto simp: aiStep_def ai_ops populateMessages_def Let_def split: aiEvent.split option.split)

lemma stuck_run:
  assumes "wa_locked w" "wa_exchange w = NoExchange"
  shows "wa_locked (fold aiStep es w) \<and> wa_calls (fold aiStep es w) = wa_calls w"
  using assms by (induction es arbitrary: w) (simp_all add: stuck_step)

text \<open>
  When the backend fails in the middle of an exchange (the history cannot be read, the stream
  breaks off or times out, the conversation cannot be saved), the chat stays locked for ever:
  whatever the user does afterwards, nothing is sent any more.
\<close>

theorem failed_exchange_locks_the_chat:
  assumes "wa_exchange (fold aiStep es newWaveAiModel) \<noteq> NoExchange"
  shows "wa_locked (fold aiStep (es @ BackendFails # es') newWaveAiModel) \<and>
    wa_calls (fold aiStep (es @ BackendFails # es') newWaveAiModel) = wa_calls (fold aiStep es newWaveAiModel)"
proof -
  have "lockHeld (fold aiStep es newWaveAiModel)"
    by (rule lockHeld_run) (simp add: lockHeld_def newWaveAiModel_def)
  then show ?thesis
    using assms stuck_run [of "exchangeFails (fold aiStep es newWaveAiModel)" es']
    by (simp add: aiStep_def exchangeFails_def lockHeld_def)
qed

section \<open>What is shown and what is saved\<close>

definition shown :: "waveAi \<Rightarrow> (string \<times> string \<times> bool) list" where
  "shown w = map (\<lambda>m. (cm_user m, cm_text m, cm_isAssistant m)) (wa_messages w)"

definition shownAs :: "prompt list \<Rightarrow> (string \<times> string \<times> bool) list" where
  "shownAs h = map (\<lambda>p. (pr_role p, pr_content p, pr_role p = ''assistant'')) h"

text \<open>A conversation that was loaded shows what the file holds.\<close>

lemma shown_populate: "shown (populateMessages (Some h) w) = shownAs h"
  by (auto simp: shown_def shownAs_def populateMessages_def promptToMsg_def fetchAiData_def Let_def intro!: nth_equalityI)

definition answer :: "string \<Rightarrow> prompt" where
  "answer t = \<lparr>pr_role = ''assistant'', pr_content = t\<rparr>"

definition question :: "string \<Rightarrow> prompt" where
  "question t = \<lparr>pr_role = ''user'', pr_content = t\<rparr>"

text \<open>During the exchange that asks \<open>q\<close> after the history \<open>h\<close>.\<close>

definition exchangeShown :: "prompt list \<Rightarrow> prompt \<Rightarrow> waveAi \<Rightarrow> bool" where
  "exchangeShown h q w \<longleftrightarrow>
     (case wa_exchange w of
        Streaming h' q' full \<Rightarrow> h' = h \<and> q' = q \<and> wa_messages w \<noteq> [] \<and> shown w = shownAs (h @ [q, answer full]) \<and>
          cm_isError (last (wa_messages w)) = None
      | AwaitSave \<Rightarrow> \<exists>full. full \<noteq> [] \<and> wa_calls w \<noteq> [] \<and>
          last (wa_calls w) = SaveWaveAiData (h @ [q, answer full]) \<and> shown w = shownAs (h @ [q, answer full])
      | _ \<Rightarrow> True)"

lemma updateLast_shown:
  assumes "shown w = shownAs (h @ [q, answer full])" "cm_isError (last (wa_messages w)) = None"
  obtains w' where "updateLastMessage t u w = (Inr (), w')" "shown w' = shownAs (h @ [q, answer (full @ t)])"
    "wa_messages w' \<noteq> []" "cm_isError (last (wa_messages w')) = None" "wa_calls w' = wa_calls w"
    "wa_exchange w' = wa_exchange w" "wa_cancel w' = wa_cancel w"
proof -
  have "shown w = shownAs (h @ [q]) @ [(''assistant'', full, True)]"
    using assms(1) by (simp add: shownAs_def answer_def)
  then obtain ms m where w: "wa_messages w = ms @ [m]"
      "map (\<lambda>m. (cm_user m, cm_text m, cm_isAssistant m)) ms = shownAs (h @ [q])"
      "cm_user m = ''assistant''" "cm_text m = full" "cm_isAssistant m"
    by (cases "wa_messages w" rule: rev_cases) (auto simp: shown_def)
  show thesis
    by (rule that [of "w\<lparr>wa_messages := ms @ [m\<lparr>cm_text := full @ t, cm_isUpdating := Some u\<rparr>]\<rparr>"])
      (use w assms(2) in \<open>auto simp: updateLastMessage_def shown_def shownAs_def answer_def\<close>)
qed

lemma streamEnded_shown:
  assumes "shown w = shownAs (h @ [q, answer full])" "cm_isError (last (wa_messages w)) = None"
  shows "exchangeShown h q (streamEnded h q full w)"
proof -
  obtain w' where w': "updateLastMessage [] False w = (Inr (), w')" "shown w' = shownAs (h @ [q, answer (full @ [])])"
    by (rule updateLast_shown [OF assms])
  then have "shown (w'\<lparr>wa_calls := cs, wa_exchange := ex\<rparr>) = shownAs (h @ [q, answer full])" for cs ex
    by (simp add: shown_def)
  with w'(1) show ?thesis
    by (simp add: streamEnded_def afterUpdate_def exchangeShown_def exchangeDone_def flip: answer_def) blast
qed

lemma streamEnded_empty: "exchangeShown h q (streamEnded h q [] w)"
  unfolding streamEnded_def
  by (rule afterUpdate_cases) (simp_all add: exchangeFails_def exchangeDone_def exchangeShown_def)

lemma streamMsg_shown:
  assumes "exchangeShown h q w"
  shows "exchangeShown h q (streamMsg t w)"
proof (cases "wa_exchange w")
  case (Streaming h' q' full)
  with assms have q: "h' = h" "q' = q" "shown w = shownAs (h @ [q, answer full])" "cm_isError (last (wa_messages w)) = None"
    by (auto simp: exchangeShown_def)
  define mt where "mt = (case t of None \<Rightarrow> [] | Some t \<Rightarrow> t)"
  obtain w' where w': "updateLastMessage mt True w = (Inr (), w')" "shown w' = shownAs (h @ [q, answer (full @ mt)])"
      "wa_messages w' \<noteq> []" "cm_isError (last (wa_messages w')) = None"
    by (rule updateLast_shown [OF q(3,4)])
  show ?thesis
  proof (cases "wa_cancel w'")
    case True
    then show ?thesis
      using w' streamEnded_shown [OF w'(2,4)] streamEnded_empty
      by (auto simp: streamMsg_def Streaming q afterUpdate_def Let_def simp flip: mt_def)
  next
    case False
    then show ?thesis
      using w' by (simp add: streamMsg_def Streaming q afterUpdate_def Let_def exchangeShown_def shown_def flip: mt_def)
  qed
qed (use assms in \<open>simp_all add: streamMsg_def\<close>)

text \<open>The events of an exchange: the stream and whatever the user does.\<close>

fun duringExchange :: "aiEvent \<Rightarrow> bool" where
  "duringExchange (Populated _) = False"
| "duringExchange (HistoryFetched _) = False"
| "duringExchange BackendFails = False"
| "duringExchange SaveDone = False"
| "duringExchange _ = True"

lemma exchangeShown_step:
  assumes "exchangeShown h q w" "lockHeld w" "duringExchange e"
  shows "exchangeShown h q (aiStep e w)"
proof (cases e)
  case (StreamMsg t)
  then show ?thesis using assms by (simp add: aiStep_def streamMsg_shown)
next
  case StreamEnds
  then show ?thesis
    using assms by (cases "wa_exchange w") (auto simp: aiStep_def streamEnds_def exchangeShown_def [of h q w] intro: streamEnded_shown)
next
  case (Typed v)
  then show ?thesis using assms
    by (auto simp: aiStep_def ai_ops exchangeShown_def shown_def split: exchange.splits)
next
  case (KeyDown settings clientId pres cursorPosition k)
  have "exchangeShown h q (handleEnterKeyPressed settings clientId w)"
    using assms(1,2)
    by (auto simp: handleEnterKeyPressed_def lockHeld_def exchangeShown_def sendMessage_def addMessage_def Let_def)
  moreover have "exchangeShown h q (w\<lparr>wa_selectedBlockIdx := i\<rparr>)" for i
    using assms(1) by (auto simp: exchangeShown_def shown_def split: exchange.splits)
  ultimately show ?thesis
    using KeyDown assms(1)
    by (auto simp: aiStep_def handleTextAreaKeyDown_def handleArrowUpPressed_def handleArrowDownPressed_def split: option.splits)
next
  case (ButtonPress settings clientId)
  then show ?thesis using assms
    by (auto simp: aiStep_def handleButtonPress_def handleEnterKeyPressed_def lockHeld_def exchangeShown_def shown_def
        split: exchange.splits)
      (simp_all add: sendMessage_def Let_def)
next
  case MouseDown
  then show ?thesis using assms
    by (auto simp: aiStep_def ai_ops exchangeShown_def shown_def split: exchange.splits)
qed (use assms(3) in simp_all)

lemma exchangeShown_run:
  assumes "exchangeShown h q w" "lockHeld w" "list_all duringExchange es"
  shows "exchangeShown h q (fold aiStep es w)"
  using assms by (induction es arbitrary: w) (simp_all add: exchangeShown_step lockHeld_step)

text \<open>
  C31: what an exchange saves is what the chat shows. After the history \<open>h\<close> is on the screen and a
  question was sent, whatever the stream brings and the user does, cancelling at any time included:
  once the loop over the stream has ended with an answer, the conversation that is being saved is
  \<open>h\<close>, the question and the whole answer, and the screen shows exactly that.
\<close>

theorem exchange_saves_what_is_shown:
  assumes "shown w = shownAs h" "\<not> wa_locked w" "wa_value w \<noteq> []" "list_all duringExchange es"
    and "w' = fold aiStep es (aiStep (HistoryFetched (Some h)) (handleEnterKeyPressed settings clientId w))"
    and "wa_exchange w' = AwaitSave"
  shows "\<exists>full. full \<noteq> [] \<and> last (wa_calls w') = SaveWaveAiData (h @ [question (wa_value w), answer full]) \<and>
    shown w' = shownAs (h @ [question (wa_value w), answer full])"
proof -
  let ?w = "aiStep (HistoryFetched (Some h)) (handleEnterKeyPressed settings clientId w)"
  have "exchangeShown h (question (wa_value w)) ?w" "lockHeld ?w"
    using assms(1-3)
    by (auto simp: aiStep_def handleEnterKeyPressed_def sendMessage_def historyFetched_def addMessage_def exchangeShown_def
        shown_def shownAs_def question_def answer_def fetchAiData_def lockHeld_def Let_def)
  from exchangeShown_run [OF this assms(4)] show ?thesis
    using assms(5,6) by (simp add: exchangeShown_def) blast
qed

section \<open>Witnesses\<close>

definition demoSettings :: aiSettings where
  "demoSettings = \<lparr>as_model = Some ''gpt-4o'', as_apitoken = None, as_maxtokens = Some 500,
     as_timeoutms = Some 10000, as_baseurl = None\<rparr>"

definition demoChat :: waveAi where
  "demoChat = handleTextAreaChange ''why?'' (populateMessages (Some [question ''hi'', answer ''hello'']) newWaveAiModel)"

lemmas ai_run = aiStep_def ai_ops sendMessage_def addMessage_def updateLastMessage_def streamEnded_def afterUpdate_def
  fetchAiData_def demoSettings_def demoChat_def newWaveAiModel_def Let_def

theorem failed_exchange_locks_the_chat_witness:
  "wa_locked (fold aiStep ([Typed ''hi'', ButtonPress demoSettings ''c''] @ BackendFails #
       [Typed ''again'', ButtonPress demoSettings ''c'']) newWaveAiModel)"
  using failed_exchange_locks_the_chat
    [of "[Typed ''hi'', ButtonPress demoSettings ''c'']" "[Typed ''again'', ButtonPress demoSettings ''c'']"]
  by (simp add: ai_run)

theorem exchange_saves_what_is_shown_witness:
  "last (wa_calls (fold aiStep [StreamMsg (Some ''be''), ButtonPress demoSettings ''c'', StreamMsg (Some ''cause'')]
      (aiStep (HistoryFetched (Some [question ''hi'', answer ''hello'']))
        (handleEnterKeyPressed demoSettings ''c'' demoChat)))) =
     SaveWaveAiData [question ''hi'', answer ''hello'', question ''why?'', answer ''because'']"
proof -
  let ?h = "[question ''hi'', answer ''hello'']"
  let ?es = "[StreamMsg (Some ''be''), ButtonPress demoSettings ''c'', StreamMsg (Some ''cause'')]"
  let ?w = "fold aiStep ?es (aiStep (HistoryFetched (Some ?h)) (handleEnterKeyPressed demoSettings ''c'' demoChat))"
  have "wa_exchange ?w = AwaitSave" "wa_value demoChat = ''why?''"
    by (simp_all add: ai_run populateMessages_def promptToMsg_def question_def answer_def)
  moreover have "shown demoChat = shownAs ?h" "\<not> wa_locked demoChat"
    using shown_populate [of ?h newWaveAiModel]
    by (simp_all add: demoChat_def handleTextAreaChange_def shown_def populateMessages_def newWaveAiModel_def Let_def)
  ultimately obtain full where "last (wa_calls ?w) = SaveWaveAiData (?h @ [question ''why?'', answer full])"
    using exchange_saves_what_is_shown [of demoChat ?h ?es ?w demoSettings "''c''"] by auto
  moreover have "last (wa_calls ?w) = SaveWaveAiData (?h @ [question ''why?'', answer ''because''])"
    by (simp add: ai_run populateMessages_def promptToMsg_def question_def answer_def)
  ultimately show ?thesis by simp
qed

end
