(* ===== verification/ViewHeaders.thy ===== *)
theory ViewHeaders
  imports BlockHeader WebView TermView WaveAi Preview
begin

text \<open>
  What the views give to the header of their block: the elements of the web view
  (app/view/webview/webview.tsx) and those of the preview, the terminal and the chat, as elements of
  the header, and what a click on each does there.
\<close>

section \<open>The web view\<close>

datatype webClick = ClickBack | ClickForward | ClickRefresh | ClickOpenExternal

definition iconButton :: "string \<Rightarrow> string option \<Rightarrow> bool \<Rightarrow> 'a \<Rightarrow> 'a iconButtonDecl" where
  "iconButton icon title disabled click =
     \<lparr>ib_icon = icon, ib_iconColor = None, ib_title = title, ib_click = Some click, ib_longClick = None,
      ib_disabled = disabled, ib_className = None\<rparr>"

definition webHeader ::
  "(js_error + bool) option \<Rightarrow> (js_error + bool) option \<Rightarrow> string option \<Rightarrow> string option \<Rightarrow> webView \<Rightarrow>
     webClick BlockHeader.headerElem list" where
  "webHeader canGoBack canGoForward metaUrl defaultUrl w =
     [ElemIconButton (iconButton ''chevron-left'' None (shouldDisabledBackButton canGoBack) ClickBack),
      ElemIconButton (iconButton ''chevron-right'' None (shouldDisabledForwardButton canGoForward) ClickForward),
      ElemDiv None
        [ElemInput (case headerUrl metaUrl defaultUrl w of None \<Rightarrow> [] | Some u \<Rightarrow> u),
         ElemIconButton (iconButton (wv_refreshIcon w) None False ClickRefresh)]]"

definition webEndIcons :: "webClick iconButtonDecl list" where
  "webEndIcons = [iconButton ''arrow-up-right-from-square'' (Some ''Open in External Browser'') False ClickOpenExternal]"

fun webClicked :: "webClick \<Rightarrow> webView \<Rightarrow> webView" where
  "webClicked ClickBack w = handleBack w"
| "webClicked ClickForward w = handleForward w"
| "webClicked ClickRefresh w = handleRefresh w"
| "webClicked ClickOpenExternal w = openInBrowser w"

section \<open>The other views\<close>

fun previewElem :: "Preview.headerElem \<Rightarrow> Preview.headerAction BlockHeader.headerElem" where
  "previewElem (HeaderText t a) =
     ElemText (case t of None \<Rightarrow> [] | Some s \<Rightarrow> s) (if a = NoAction then None else Some a)"
| "previewElem (HeaderButton t cls a) = ElemTextButton t (Some a)"

definition previewHeader ::
  "specialView loadable \<Rightarrow> pvFile option loadable \<Rightarrow> previewModel \<Rightarrow> Preview.headerAction BlockHeader.headerElem list" where
  "previewHeader loadableSV loadableFileInfo p =
     (let elems = map previewElem (Preview.viewText loadableSV loadableFileInfo p)
      in if pv_connected p then [ElemDiv None elems] else elems)"

definition termHeader :: "termView \<Rightarrow> unit BlockHeader.headerElem list" where
  "termHeader v = [ElemText (titleText v) None]"

definition aiHeader :: "aiSettings \<Rightarrow> unit BlockHeader.headerElem list" where
  "aiHeader settings = [ElemText (WaveAi.viewText settings) None]"

section \<open>Properties\<close>

text \<open>The headers that can be clicked anywhere without an error.\<close>

lemma shown_clicks_are_handled:
  assumes "list_all hasHandlers es" "s \<in> set (renderHeaderElements preview es)"
  shows "\<exists>a. clickedElem path s = Inr a"
proof -
  obtain e where "e \<in> set es" "s = HeaderTextElem preview e"
    using assms(2) by (auto simp: renderHeaderElements_def)
  then show ?thesis
    using assms(1) clicks_are_handled [of e path preview] by (auto simp: list_all_iff)
qed

theorem web_header_is_handled:
  assumes "s \<in> set (renderHeaderElements preview (webHeader back forward metaUrl defaultUrl w))"
  shows "\<exists>a. clickedElem path s = Inr a"
  by (rule shown_clicks_are_handled [OF _ assms]) (simp add: webHeader_def)

theorem connected_preview_header_is_handled:
  assumes "pv_connected p" "s \<in> set (renderHeaderElements preview (previewHeader sv fi p))"
  shows "\<exists>a. clickedElem path s = Inr a"
  by (rule shown_clicks_are_handled [OF _ assms(2)])
    (use assms(1) in \<open>simp add: previewHeader_def Preview.viewText_def Let_def\<close>)

text \<open>The headers whose text throws when it is clicked: of the terminal, the chat and a preview that is not connected.\<close>

theorem plain_texts_throw:
  "clickedElem [] (HeaderTextElem preview (hd (termHeader v))) = Inl TypeError"
  "clickedElem [] (HeaderTextElem preview (hd (aiHeader settings))) = Inl TypeError"
  "\<not> pv_connected p \<Longrightarrow> clickedElem [] (HeaderTextElem preview (hd (previewHeader sv fi p))) = Inl TypeError"
  by (simp_all add: termHeader_def aiHeader_def previewHeader_def Preview.viewText_def)

text \<open>A button of the web view is dead exactly when there is nowhere to go; a click goes to the web view.\<close>

theorem web_back_button:
  "clickedElem [] (HeaderTextElem preview (webHeader back forward metaUrl defaultUrl w ! 0)) =
    Inr (if back = Some (Inr True) then Some ClickBack else None)"
  by (auto simp: webHeader_def iconButton_def shouldDisabledBackButton_def split: option.split sum.split)

end
