(* ===== verification/ChatView.thy ===== *)
theory ChatView
  imports WaveAi
begin

text \<open>
  What is on the screen of the AI chat (app/view/waveai/waveai.tsx): the items of the messages, the
  window that follows the end of the chat until the user scrolls, the outlines of the code blocks and
  the position that brings the selected one into view, and the answer that the view can make up by
  itself. Positions are read from the page and are the arguments of the steps that use them.
\<close>

section \<open>Messages\<close>

datatype chatItem =
    ErrorItem string
  | AssistantItem string
  | TypingItem
  | UserItem string

definition ChatItem :: "chatMessage \<Rightarrow> chatItem" where
  "ChatItem m =
     (if cm_isAssistant m then
        (if \<not> isBlank (cm_isError m) then ErrorItem (the (cm_isError m))
         else if cm_text m \<noteq> [] then AssistantItem (cm_text m) else TypingItem)
      else UserItem (cm_text m))"

text \<open>
  The made-up answer: an empty message of the assistant, then the words of the user's message, one
  at a time and each with a space, then the end.
\<close>

definition simulatedParts :: "string \<Rightarrow> (string \<times> bool) list" where
  "simulatedParts txt1 = map (\<lambda>part. (part @ '' '', True)) (js_split (CHR '' '') txt1) @ [([], False)]"

definition typingMessage :: "nat \<Rightarrow> chatMessage" where
  "typingMessage i =
     \<lparr>cm_id = i, cm_user = ''assistant'', cm_text = [], cm_isAssistant = True, cm_isUpdating = None, cm_isError = None\<rparr>"

definition simulateAssistantResponse :: "string \<Rightarrow> waveAi \<Rightarrow> waveAi" where
  "simulateAssistantResponse txt1 w =
     fold (\<lambda>(t, updating) w. snd (updateLastMessage t updating w)) (simulatedParts txt1)
       (addMessage (typingMessage (wa_nextId w)) (w\<lparr>wa_nextId := Suc (wa_nextId w)\<rparr>))"

definition giveFocus :: "bool \<Rightarrow> bool" where
  "giveFocus hasTextArea = hasTextArea"

section \<open>The window\<close>

record chatWindow =
  cw_isUserScrolling :: bool
  cw_prevMessagesLen :: nat
  cw_top :: rat

definition newChatWindow :: "nat \<Rightarrow> chatWindow" where
  "newChatWindow n = \<lparr>cw_isUserScrolling = False, cw_prevMessagesLen = n, cw_top = 0\<rparr>"

text \<open>The effect of a change of the messages; \<open>scrollHeight\<close> is that of the chat.\<close>

definition messagesEffect :: "nat \<Rightarrow> rat \<Rightarrow> chatWindow \<Rightarrow> chatWindow" where
  "messagesEffect curMessagesLen scrollHeight cw =
     (let cw = (if cw_prevMessagesLen cw \<noteq> curMessagesLen \<or> \<not> cw_isUserScrolling cw
                then cw\<lparr>cw_isUserScrolling := False, cw_top := scrollHeight\<rparr> else cw)
      in cw\<lparr>cw_prevMessagesLen := curMessagesLen\<rparr>)"

definition handleUserScroll :: "rat \<Rightarrow> chatWindow \<Rightarrow> chatWindow" where
  "handleUserScroll newTop cw = cw\<lparr>cw_isUserScrolling := True, cw_top := newTop\<rparr>"

definition handleScrollbarInitialized :: "rat \<Rightarrow> chatWindow \<Rightarrow> chatWindow" where
  "handleScrollbarInitialized scrollHeight cw = cw\<lparr>cw_top := scrollHeight\<rparr>"

definition msgWidth :: "jsnum option \<Rightarrow> jsnum" where
  "msgWidth windowWidth = (case windowWidth of None \<Rightarrow> Fin 0 | Some w \<Rightarrow> w * Fin (85 / 100))"

datatype chatEvent = MessagesChanged nat rat | UserScrolls rat

fun chatStep :: "chatEvent \<Rightarrow> chatWindow \<Rightarrow> chatWindow" where
  "chatStep (MessagesChanged n h) cw = messagesEffect n h cw"
| "chatStep (UserScrolls t) cw = handleUserScroll t cw"

section \<open>Code blocks\<close>

text \<open>The outlines of the blocks, and what a click on a block or the text area makes of them and of the selection.\<close>

definition updatePreTagOutline :: "nat option \<Rightarrow> bool list \<times> int option \<Rightarrow> bool list \<times> int option" where
  "updatePreTagOutline clickedPre st =
     (map (\<lambda>i. clickedPre = Some i) [0..<length (fst st)],
      (case clickedPre of Some i \<Rightarrow> if i < length (fst st) then Some (int i) else snd st | None \<Rightarrow> snd st))"

text \<open>The effect of a new selection draws an outline and takes none away.\<close>

definition selectionEffect :: "int option \<Rightarrow> bool list \<Rightarrow> bool list" where
  "selectionEffect selected outlines =
     (case selected of
        None \<Rightarrow> outlines
      | Some i \<Rightarrow> if 0 \<le> i \<and> i < int (length outlines) then outlines[nat i := True] else outlines)"

text \<open>Where a scrollable element ends up: between its start and its end.\<close>

definition clampScroll :: "rat \<Rightarrow> rat \<Rightarrow> rat \<Rightarrow> rat" where
  "clampScroll scrollHeight clientHeight t = max 0 (min t (scrollHeight - clientHeight))"

record preRect =
  pre_offsetTop :: rat
  pre_offsetHeight :: rat

definition elementIsInView :: "rat \<Rightarrow> preRect \<Rightarrow> rat \<Rightarrow> bool" where
  "elementIsInView clientHeight b scrollTop \<longleftrightarrow>
     pre_offsetTop b + pre_offsetHeight b \<le> scrollTop + clientHeight \<and> scrollTop \<le> pre_offsetTop b"

definition updateScrollTop :: "int option \<Rightarrow> preRect list \<Rightarrow> rat \<Rightarrow> rat \<Rightarrow> rat \<Rightarrow> rat" where
  "updateScrollTop selectedBlockIdx pres scrollHeight clientHeight scrollTop =
     (case Option.bind selectedBlockIdx (js_at pres) of
        None \<Rightarrow> scrollTop
      | Some b \<Rightarrow>
          if elementIsInView clientHeight b scrollTop then scrollTop
          else clampScroll scrollHeight clientHeight
            (if scrollTop + clientHeight < pre_offsetTop b + pre_offsetHeight b
             then pre_offsetTop b - clientHeight + pre_offsetHeight b + 15
             else pre_offsetTop b - 15))"

text \<open>
  The arrow keys: the handlers set the new selection and scroll in the same rendering, so they scroll
  to the block that was selected before.
\<close>

definition arrowUpView :: "preRect list \<Rightarrow> rat \<Rightarrow> rat \<Rightarrow> nat \<Rightarrow> waveAi \<times> rat \<Rightarrow> waveAi \<times> rat" where
  "arrowUpView pres scrollHeight clientHeight cursorPosition st =
     (let (w, scrollTop) = st in
      (handleArrowUpPressed (Some (length pres)) cursorPosition w,
       if shouldSelectCodeBlock True cursorPosition w
       then updateScrollTop (wa_selectedBlockIdx w) pres scrollHeight clientHeight scrollTop else scrollTop))"

definition arrowDownView :: "preRect list \<Rightarrow> rat \<Rightarrow> rat \<Rightarrow> nat \<Rightarrow> waveAi \<times> rat \<Rightarrow> waveAi \<times> rat" where
  "arrowDownView pres scrollHeight clientHeight cursorPosition st =
     (let (w, scrollTop) = st in
      (handleArrowDownPressed (Some (length pres)) cursorPosition w,
       if shouldSelectCodeBlock False cursorPosition w \<and> wa_selectedBlockIdx w \<noteq> None
       then updateScrollTop (wa_selectedBlockIdx w) pres scrollHeight clientHeight scrollTop else scrollTop))"

section \<open>Properties\<close>

text \<open>The made-up answer repeats the text of the user, with a space at its end.\<close>

lemma join_split_spaces: "concat (map (\<lambda>p. p @ [c]) (js_split c s)) = s @ [c]"
proof (induction s)
  case (Cons x s)
  then show ?case by (cases "js_split c s") auto
qed simp

lemma update_typing:
  assumes "wa_messages w = ms @ [m]" "cm_isAssistant m" "cm_isError m = None"
  shows "wa_messages (snd (updateLastMessage t u w)) = ms @ [m\<lparr>cm_text := cm_text m @ t, cm_isUpdating := Some u\<rparr>]"
  using assms by (simp add: updateLastMessage_def Let_def)

theorem simulated_answer_repeats_the_text:
  "wa_messages (simulateAssistantResponse s w) =
    wa_messages w @ [(typingMessage (wa_nextId w))\<lparr>cm_text := s @ '' '', cm_isUpdating := Some False\<rparr>]"
proof -
  have run: "wa_messages (fold (\<lambda>(t, u) w. snd (updateLastMessage t u w)) (map (\<lambda>p. (p @ '' '', True)) ps) w') =
      ms @ [m\<lparr>cm_text := cm_text m @ concat (map (\<lambda>p. p @ '' '') ps), cm_isUpdating := (if ps = [] then cm_isUpdating m else Some True)\<rparr>]"
    if "wa_messages w' = ms @ [m]" "cm_isAssistant m" "cm_isError m = None" for ps w' ms m
    using that
  proof (induction ps arbitrary: w' m)
    case (Cons p ps)
    let ?m = "m\<lparr>cm_text := cm_text m @ p @ '' '', cm_isUpdating := Some True\<rparr>"
    have "wa_messages (snd (updateLastMessage (p @ '' '') True w')) = ms @ [?m]"
      using update_typing [OF Cons.prems] by simp
    from Cons.IH [OF this] Cons.prems show ?case by simp
  qed simp
  define w1 where "w1 = addMessage (typingMessage (wa_nextId w)) (w\<lparr>wa_nextId := Suc (wa_nextId w)\<rparr>)"
  have w1: "wa_messages w1 = wa_messages w @ [typingMessage (wa_nextId w)]" by (simp add: w1_def addMessage_def)
  define w2 where "w2 = fold (\<lambda>(t, u) w. snd (updateLastMessage t u w)) (map (\<lambda>p. (p @ '' '', True)) (js_split (CHR '' '') s)) w1"
  have "wa_messages w2 = wa_messages w @
      [(typingMessage (wa_nextId w))\<lparr>cm_text := s @ '' '', cm_isUpdating := Some True\<rparr>]"
    using run [OF w1, of "js_split (CHR '' '') s"] join_split_spaces [of "CHR '' ''" s]
    by (simp add: w2_def typingMessage_def)
  moreover have "simulateAssistantResponse s w = snd (updateLastMessage [] False w2)"
    by (simp add: simulateAssistantResponse_def simulatedParts_def w1_def w2_def)
  ultimately show ?thesis using update_typing [of w2 _ _ "[]" False] by (simp add: typingMessage_def)
qed

text \<open>
  The window follows the end of the chat: unless the user has scrolled since, it is where the last
  change left the end; and a new message brings it back to the end in any case.
\<close>

definition lastHeight :: "chatEvent list \<Rightarrow> rat" where
  "lastHeight es = fold (\<lambda>e h. case e of MessagesChanged n h' \<Rightarrow> h' | UserScrolls t \<Rightarrow> h) es 0"

theorem chat_follows_its_end:
  "\<not> cw_isUserScrolling (fold chatStep es (newChatWindow n)) \<Longrightarrow>
    cw_top (fold chatStep es (newChatWindow n)) = lastHeight es"
proof (induction es rule: rev_induct)
  case (snoc e es)
  then show ?case
    by (cases e) (auto simp: messagesEffect_def handleUserScroll_def lastHeight_def Let_def split: if_splits)
qed (simp add: newChatWindow_def lastHeight_def)

theorem new_message_is_shown:
  "cw_prevMessagesLen cw \<noteq> n \<Longrightarrow> cw_top (messagesEffect n h cw) = h \<and> \<not> cw_isUserScrolling (messagesEffect n h cw)"
  by (simp add: messagesEffect_def)

text \<open>Scrolling brings the selected block into view, when it fits into the window with its margin.\<close>

theorem selected_block_in_view:
  assumes "0 \<le> i" "i < int (length pres)"
    and "0 \<le> pre_offsetTop (pres ! nat i)" "0 \<le> pre_offsetHeight (pres ! nat i)"
    and "pre_offsetTop (pres ! nat i) + pre_offsetHeight (pres ! nat i) \<le> scrollHeight"
    and "pre_offsetHeight (pres ! nat i) + 15 \<le> clientHeight"
  shows "elementIsInView clientHeight (pres ! nat i) (updateScrollTop (Some i) pres scrollHeight clientHeight scrollTop)"
  using assms by (auto simp: updateScrollTop_def js_at_def elementIsInView_def clampScroll_def max_def min_def)

text \<open>
  But the keys scroll to the block that was selected before: the first press of the arrow scrolls to
  nothing, whatever the selected block is then.
\<close>

theorem first_arrow_does_not_scroll:
  assumes "wa_selectedBlockIdx w = None"
  shows "snd (arrowUpView pres sh ch 0 (w, scrollTop)) = scrollTop"
    and "wa_selectedBlockIdx (fst (arrowUpView pres sh ch 0 (w, scrollTop))) = Some (int (length pres) - 1)"
  using assms by (simp_all add: arrowUpView_def updateScrollTop_def handleArrowUpPressed_def shouldSelectCodeBlock_def)

text \<open>Every block that was selected keeps its outline, until a press of the mouse takes all of them away.\<close>

theorem outlines_pile_up:
  assumes "outlines ! j" "j < length outlines"
  shows "fold selectionEffect ss outlines ! j"
proof -
  have "j < length os \<Longrightarrow> os ! j \<Longrightarrow> length (selectionEffect s os) = length os \<and> selectionEffect s os ! j" for s and os :: "bool list"
    by (auto simp: selectionEffect_def nth_list_update split: option.split)
  then have "j < length os \<Longrightarrow> os ! j \<Longrightarrow> fold selectionEffect ss os ! j" for os :: "bool list"
    by (induction ss arbitrary: os) simp_all
  with assms show ?thesis by simp
qed

lemma mouse_clears_outlines: "\<not> list_ex id (fst (updatePreTagOutline None st))"
  by (simp add: updatePreTagOutline_def list_ex_iff)

end
