(* ===== verification/CpuPlot.thy ===== *)
theory CpuPlot
  imports Global
begin

text \<open>
  The plot of the load of a machine (app/view/cpuplot/cpuplot.tsx): a window of data points that the
  history of the backend fills and the events of the backend move on, the connection it shows, and
  the lines that are drawn. Requests of the history are answered in any order; the clock and the
  answers are the environment.
\<close>

section \<open>Data points\<close>

text \<open>A point is an object: its time under \<open>ts\<close>, its values under the names of their metrics.\<close>

type_synonym dataItem = "(string, jsnum) js_map"

definition SysInfoMetricNames :: "(string, string) js_map" where
  "SysInfoMetricNames =
     [(''cpu'', ''CPU %''), (''mem:total'', ''Memory Total''), (''mem:used'', ''Memory Used''),
      (''mem:free'', ''Memory Free''), (''mem:available'', ''Memory Available'')] @
     map (\<lambda>i. (''cpu:'' @ show_nat i, ''CPU['' @ show_nat i @ ''] %'')) [0..<32]"

text \<open>The data of an event, of which both fields can be missing.\<close>

record timeSeriesData =
  ts_ts :: "jsnum option"
  ts_values :: "(string \<times> jsnum) list option"

definition convertWaveEventToDataItem :: "timeSeriesData option \<Rightarrow> dataItem option" where
  "convertWaveEventToDataItem eventData =
     (case eventData of
        None \<Rightarrow> None
      | Some d \<Rightarrow>
          (case (ts_ts d, ts_values d) of
             (Some t, Some vs) \<Rightarrow> Some (fold (\<lambda>(key, v) m. map_set key v m) vs [(''ts'', t)])
           | _ \<Rightarrow> None))"

definition DefaultNumPoints :: int where "DefaultNumPoints = 120"

definition numPoints :: "int option \<Rightarrow> int" where
  "numPoints metaNumPoints =
     (case metaNumPoints of
        None \<Rightarrow> DefaultNumPoints
      | Some n \<Rightarrow> if n \<le> 0 then DefaultNumPoints else n)"

definition metrics :: "json \<Rightarrow> json list" where
  "metrics v = (case v of JArr ms \<Rightarrow> ms | _ \<Rightarrow> [JStr ''cpu''])"

definition plotConnection :: "string option \<Rightarrow> string" where
  "plotConnection connValue = (if isBlank connValue then ''local'' else the connValue)"

text \<open>One point for every second, the oldest first; a point may be \<open>null\<close> (\<open>None\<close>).\<close>

definition getDefaultData :: "int \<Rightarrow> int \<Rightarrow> dataItem option list" where
  "getDefaultData now n =
     map (\<lambda>i. Some [(''ts'', Fin (of_int (now - 1000 - int i * 1000)))]) (rev [0..<nat (n + 1)])"

definition addData :: "int \<Rightarrow> int \<Rightarrow> dataItem option list \<Rightarrow> dataItem option list \<Rightarrow> dataItem option list" where
  "addData now n points dat =
     (let targetLen = nat (n + 1);
          dat = (if targetLen < length dat then drop (length dat - targetLen) dat else dat);
          dat = (if length dat < targetLen
                 then (let defaultData = getDefaultData now n in
                       drop (length defaultData + length dat - targetLen) defaultData @ dat)
                 else dat)
      in drop (length points) dat @ points)"

text \<open>\<open>splice\<close> with a start that may be negative, counted from the end then.\<close>

definition js_splice :: "int \<Rightarrow> nat \<Rightarrow> 'a list \<Rightarrow> 'a list \<Rightarrow> 'a list" where
  "js_splice start count items xs =
     (let s = (if start < 0 then nat (int (length xs) + start) else min (nat start) (length xs));
          c = min count (length xs - s)
      in take s xs @ items @ drop (s + c) xs)"

definition historyData :: "int \<Rightarrow> int \<Rightarrow> timeSeriesData option list \<Rightarrow> dataItem option list" where
  "historyData now n initialData =
     (let newData = getDefaultData now n;
          initialDataItems = map convertWaveEventToDataItem initialData
      in js_splice (int (length newData) - int (length initialDataItems)) (length initialDataItems) initialDataItems newData)"

section \<open>The model\<close>

record cpuPlot =
  cp_blockId :: string
  cp_metaNumPoints :: "int option"
  cp_metaConnection :: "string option"
  cp_lastConn :: string
  cp_data :: "dataItem option list"
  cp_loading :: bool
  cp_requests :: "(string \<times> int) list"    \<comment> \<open>the histories asked for and not answered yet: connection, maxitems\<close>

definition loadInitialData :: "cpuPlot \<Rightarrow> cpuPlot" where
  "loadInitialData p = p\<lparr>cp_loading := True, cp_requests := cp_requests p @ [(plotConnection (cp_metaConnection p), numPoints (cp_metaNumPoints p))]\<rparr>"

definition newCpuPlot :: "int \<Rightarrow> string \<Rightarrow> int option \<Rightarrow> string option \<Rightarrow> cpuPlot" where
  "newCpuPlot now blockId metaNumPoints metaConnection =
     loadInitialData \<lparr>cp_blockId = blockId, cp_metaNumPoints = metaNumPoints, cp_metaConnection = metaConnection,
       cp_lastConn = plotConnection metaConnection, cp_data = getDefaultData now (numPoints metaNumPoints),
       cp_loading = True, cp_requests = []\<rparr>"

text \<open>The answer to a request: an error, nothing, or the events.\<close>

definition historyAnswered :: "int \<Rightarrow> nat \<Rightarrow> js_error + timeSeriesData option list option \<Rightarrow> cpuPlot \<Rightarrow> cpuPlot" where
  "historyAnswered now k answer p =
     (if k < length (cp_requests p) then
        (let p = p\<lparr>cp_requests := take k (cp_requests p) @ drop (Suc k) (cp_requests p)\<rparr>;
             n = numPoints (cp_metaNumPoints p) in
         (case answer of
            Inr (Some events) \<Rightarrow> p\<lparr>cp_data := addData now n (historyData now n events) (cp_data p), cp_loading := False\<rparr>
          | _ \<Rightarrow> p\<lparr>cp_loading := False\<rparr>))
      else p)"

text \<open>The effect of the connection and its status.\<close>

definition connEffect :: "string option \<Rightarrow> cpuPlot \<Rightarrow> cpuPlot" where
  "connEffect status p =
     (if status \<noteq> Some ''connected'' then p
      else if cp_lastConn p \<noteq> plotConnection (cp_metaConnection p)
      then loadInitialData (p\<lparr>cp_lastConn := plotConnection (cp_metaConnection p)\<rparr>)
      else p)"

text \<open>The scope of the events that the view is subscribed to, and their handler.\<close>

definition subscribedScope :: "cpuPlot \<Rightarrow> string" where
  "subscribedScope p = plotConnection (cp_metaConnection p)"

definition sysinfoEvent :: "int \<Rightarrow> timeSeriesData option \<Rightarrow> cpuPlot \<Rightarrow> cpuPlot" where
  "sysinfoEvent now eventData p =
     (if cp_loading p then p
      else p\<lparr>cp_data := addData now (numPoints (cp_metaNumPoints p)) [convertWaveEventToDataItem eventData] (cp_data p)\<rparr>)"

definition incrementCount :: "string \<Rightarrow> int option \<Rightarrow> string option \<times> int" where
  "incrementCount blockId count = (makeORef (Some ''block'') (Some blockId), (case count of None \<Rightarrow> 0 | Some c \<Rightarrow> c) + 1)"

datatype plotEvent =
    ConnChanged "string option" "string option"             \<comment> \<open>the connection of the block, the status\<close>
  | StatusChanged "string option"
  | NumPointsSet "int option"                               \<comment> \<open>\<open>graph:numpoints\<close> of the block\<close>
  | HistoryAnswer int nat "js_error + timeSeriesData option list option"
  | Sysinfo int "timeSeriesData option"

fun plotStep :: "plotEvent \<Rightarrow> cpuPlot \<Rightarrow> cpuPlot" where
  "plotStep (ConnChanged c status) p = connEffect status (p\<lparr>cp_metaConnection := c\<rparr>)"
| "plotStep (StatusChanged status) p = connEffect status p"
| "plotStep (NumPointsSet m) p = p\<lparr>cp_metaNumPoints := m\<rparr>"
| "plotStep (HistoryAnswer now k a) p = historyAnswered now k a p"
| "plotStep (Sysinfo now d) p = sysinfoEvent now d p"

section \<open>What is drawn\<close>

definition plotShown :: "string option \<Rightarrow> cpuPlot \<Rightarrow> bool" where
  "plotShown status p \<longleftrightarrow> status = Some ''connected'' \<and> \<not> cp_loading p"

definition plotColors :: "string list" where
  "plotColors = [''#58C142'', ''#FFC107'', ''#FF5722'', ''#2196F3'', ''#9C27B0'', ''#00BCD4'', ''#FFEB3B'', ''#795548'']"

datatype plotMark =
    GradientDefs
  | LineY string nat json                  \<comment> \<open>colour, width, metric\<close>
  | AreaY json

definition plotMarks :: "json list \<Rightarrow> plotMark list" where
  "plotMarks yvals =
     GradientDefs #
     (case yvals of
        [] \<Rightarrow> []
      | [y] \<Rightarrow> [LineY (plotColors ! 0) 2 y, AreaY y]
      | _ \<Rightarrow> map (\<lambda>idx. LineY (plotColors ! (idx mod length plotColors)) 1 (yvals ! idx)) [0..<length yvals])"

section \<open>Properties\<close>

lemma numPoints_pos: "0 < numPoints m"
  by (auto simp: numPoints_def DefaultNumPoints_def split: option.split)

lemma length_default [simp]: "length (getDefaultData now n) = nat (n + 1)"
  by (simp add: getDefaultData_def)

text \<open>The newest points of a list.\<close>

definition newest :: "nat \<Rightarrow> 'a list \<Rightarrow> 'a list" where
  "newest k xs = drop (length xs - k) xs"

lemma length_newest [simp]: "length (newest k xs) = min k (length xs)"
  by (simp add: newest_def)

lemma newest_all: "length xs \<le> k \<Longrightarrow> newest k xs = xs"
  by (simp add: newest_def)

lemma newest_newest_append: "newest k (newest k xs @ ys) = newest k (xs @ ys)"
proof (cases "length xs \<le> k")
  case False
  then have xs: "xs = take (length xs - k) xs @ newest k xs" by (simp add: newest_def)
  have "newest k (us @ vs) = newest k vs" if "k \<le> length vs" for us vs :: "'a list"
    using that by (simp add: newest_def)
  moreover have "k \<le> length (newest k xs @ ys)" using False by simp
  ultimately have "newest k (take (length xs - k) xs @ newest k xs @ ys) = newest k (newest k xs @ ys)" by blast
  with xs show ?thesis by (metis append.assoc)
qed (simp add: newest_all)

text \<open>A full window moves on by the points that come in.\<close>

lemma addData_window:
  assumes "0 < n" "length dat = nat (n + 1)" "length points \<le> nat (n + 1)"
  shows "addData now n points dat = newest (nat (n + 1)) (dat @ points)"
proof -
  have "length dat + length points - nat (n + 1) = length points" using assms by simp
  then show ?thesis using assms by (simp add: addData_def newest_def)
qed

lemma length_addData:
  assumes "0 < n" "length points \<le> nat (n + 1)"
  shows "length (addData now n points dat) = nat (n + 1)"
  using assms by (simp add: addData_def Let_def)

lemma length_history: "0 < n \<Longrightarrow> length es \<le> nat (n + 1) \<Longrightarrow> length (historyData now n es) = nat (n + 1)"
  by (simp add: historyData_def js_splice_def Let_def)

text \<open>A window of another length is cut or filled up from the front first.\<close>

lemma newest_append: "length ys \<le> k \<Longrightarrow> newest k (xs @ ys) = newest (k - length ys) xs @ ys"
  by (simp add: newest_def)

lemma newest_append_long: "k \<le> length ys \<Longrightarrow> newest k (xs @ ys) = newest k ys"
  by (simp add: newest_def)

lemma drop_newest: "length xs = k \<Longrightarrow> drop j xs = newest (k - j) xs"
  by (cases "j \<le> k") (simp_all add: newest_def)

lemma addData_fits:
  assumes "length points \<le> nat (n + 1)"
  shows "addData now n points dat = newest (nat (n + 1)) (getDefaultData now n @ dat @ points)"
proof -
  let ?k = "nat (n + 1)" and ?def = "getDefaultData now n"
  have "addData now n points dat = drop (length points) (newest ?k (?def @ dat)) @ points"
    by (auto simp: addData_def Let_def newest_def)
  also have "\<dots> = newest (?k - length points) (newest ?k (?def @ dat)) @ points" by (simp add: drop_newest)
  also have "\<dots> = newest ?k (newest ?k (?def @ dat) @ points)" using assms by (simp add: newest_append)
  also have "\<dots> = newest ?k ((?def @ dat) @ points)" by (rule newest_newest_append)
  finally show ?thesis by simp
qed

text \<open>The backend keeps to the number of items that it was asked for.\<close>

fun answerOk :: "plotEvent \<Rightarrow> cpuPlot \<Rightarrow> bool" where
  "answerOk (HistoryAnswer now k (Inr (Some es))) p \<longleftrightarrow>
     (k < length (cp_requests p) \<longrightarrow> length es \<le> nat (snd (cp_requests p ! k)))"
| "answerOk _ p \<longleftrightarrow> True"

fun answersOk :: "plotEvent list \<Rightarrow> cpuPlot \<Rightarrow> bool" where
  "answersOk [] p \<longleftrightarrow> True"
| "answersOk (e # es) p \<longleftrightarrow> answerOk e p \<and> answersOk es (plotStep e p)"

definition setsNumber :: "plotEvent \<Rightarrow> bool" where
  "setsNumber e \<longleftrightarrow> (\<exists>m. e = NumPointsSet m)"

text \<open>While the number of points stays, the window is full and all histories are asked for with it.\<close>

definition fullFor :: "int option \<Rightarrow> cpuPlot \<Rightarrow> bool" where
  "fullFor m p \<longleftrightarrow> cp_metaNumPoints p = m \<and> length (cp_data p) = nat (numPoints m + 1) \<and>
     list_all (\<lambda>(c, n). n = numPoints m) (cp_requests p)"

lemma fullFor_new: "fullFor m (newCpuPlot now i m c)"
  by (simp add: fullFor_def newCpuPlot_def loadInitialData_def)

lemma fullFor_load: "fullFor m p \<Longrightarrow> fullFor m (loadInitialData p)"
  by (simp add: fullFor_def loadInitialData_def)

lemma fullFor_answer:
  assumes "fullFor m p" "answerOk (HistoryAnswer now k a) p"
  shows "fullFor m (historyAnswered now k a p)"
proof (cases "k < length (cp_requests p)")
  case True
  let ?n = "numPoints m"
  have n: "0 < ?n" by (rule numPoints_pos)
  have "snd (cp_requests p ! k) = ?n" using assms(1) nth_mem [OF True] by (auto simp: fullFor_def list_all_iff)
  then have "length es \<le> nat ?n" if "a = Inr (Some es)" for es using assms(2) True that by simp
  then have "length (addData now ?n (historyData now ?n es) (cp_data p)) = nat (?n + 1)" if "a = Inr (Some es)" for es
    using that length_addData [OF n] length_history [OF n, of es now] n by fastforce
  moreover have "list_all (\<lambda>(c, n). n = ?n) (take k (cp_requests p) @ drop (Suc k) (cp_requests p))"
    using assms(1) by (auto simp: fullFor_def list_all_iff dest: in_set_takeD in_set_dropD)
  ultimately show ?thesis
    using assms(1) True by (auto simp: fullFor_def historyAnswered_def Let_def split: sum.split option.split)
qed (use assms(1) in \<open>simp add: historyAnswered_def\<close>)

lemma fullFor_step:
  assumes "fullFor m p" "answerOk e p" "\<not> setsNumber e"
  shows "fullFor m (plotStep e p)"
proof (cases e)
  case (HistoryAnswer now k a)
  then show ?thesis using fullFor_answer assms by simp
next
  case (Sysinfo now d)
  have "0 < numPoints m" by (rule numPoints_pos)
  then show ?thesis using assms(1) Sysinfo length_addData by (simp add: sysinfoEvent_def fullFor_def)
qed (use assms in \<open>auto simp: setsNumber_def connEffect_def fullFor_def loadInitialData_def\<close>)

lemma fullFor_run:
  "fullFor m p \<Longrightarrow> answersOk es p \<Longrightarrow> \<not> list_ex setsNumber es \<Longrightarrow> fullFor m (fold plotStep es p)"
  by (induction es arbitrary: p) (simp_all add: fullFor_step)

text \<open>The events that come in while nothing is loaded.\<close>

lemma sysinfo_runs:
  assumes "\<not> cp_loading p" "ds \<noteq> []"
  defines "n \<equiv> numPoints (cp_metaNumPoints p)"
  shows "cp_data (fold (\<lambda>(t, d). sysinfoEvent t d) ds p) =
    newest (nat (n + 1)) (getDefaultData (fst (hd ds)) n @ cp_data p @ map (convertWaveEventToDataItem \<circ> snd) ds)"
proof -
  have n: "0 < n" by (simp add: n_def numPoints_pos)
  let ?k = "nat (n + 1)" and ?conv = "convertWaveEventToDataItem \<circ> snd"
  have full: "cp_data (fold (\<lambda>(t, d). sysinfoEvent t d) es q) = newest ?k (cp_data q @ map ?conv es)"
    if "length (cp_data q) = ?k" "cp_metaNumPoints q = cp_metaNumPoints p" "\<not> cp_loading q" for es q
    using that
  proof (induction es arbitrary: q)
    case (Cons e es)
    define q1 where "q1 = sysinfoEvent (fst e) (snd e) q"
    have q1: "cp_data q1 = newest ?k (cp_data q @ [?conv e])" "cp_metaNumPoints q1 = cp_metaNumPoints p" "\<not> cp_loading q1"
      using Cons.prems addData_window [OF n, of "cp_data q"] n
      by (simp_all add: q1_def sysinfoEvent_def n_def)
    then have "length (cp_data q1) = ?k" using Cons.prems(1) by simp
    from Cons.IH [OF this q1(2,3)] show ?case
      by (simp add: q1_def [symmetric] case_prod_beta q1(1) newest_newest_append)
  qed (simp add: newest_all)
  obtain td es where ds: "ds = td # es" using assms(2) by (cases ds) auto
  define q where "q = sysinfoEvent (fst td) (snd td) p"
  have q: "cp_data q = newest ?k (getDefaultData (fst td) n @ cp_data p @ [?conv td])"
    "cp_metaNumPoints q = cp_metaNumPoints p" "\<not> cp_loading q"
    using assms(1) n addData_fits [of "[?conv td]" n "fst td" "cp_data p"]
    by (simp_all add: q_def sysinfoEvent_def n_def [symmetric])
  have "cp_data (fold (\<lambda>(t, d). sysinfoEvent t d) ds p) = newest ?k (cp_data q @ map ?conv es)"
    using full [OF _ q(2,3), of es] q(1) n by (simp add: ds q_def [symmetric] case_prod_beta)
  also have "\<dots> = newest ?k (getDefaultData (fst td) n @ cp_data p @ map ?conv ds)"
    using newest_newest_append [of ?k "getDefaultData (fst td) n @ cp_data p @ [?conv td]" "map ?conv es"] by (simp add: q(1) ds)
  finally show ?thesis by (simp add: ds)
qed

text \<open>
  C29: the plot is a sliding window. Whatever changes of connection, answers in any order, events
  and changes of the number of points came before: while nothing is loaded, the events that follow
  leave the window with one point more than the number that the block asks for now, and it holds
  the newest of what it showed and what came in, each event once and in order, filled up from the
  front with the default points of the first event's time where that is not enough. When the number
  was not changed, the window has that length all the time and nothing is filled up.
\<close>

theorem plot_is_a_sliding_window:
  fixes ds :: "(int \<times> timeSeriesData option) list" and es :: "plotEvent list" and now :: int
    and i :: string and m :: "int option" and c :: "string option"
  assumes "answersOk es (newCpuPlot now i m c)" "\<not> cp_loading (fold plotStep es (newCpuPlot now i m c))"
  defines "p \<equiv> fold plotStep es (newCpuPlot now i m c)"
  defines "n \<equiv> numPoints (cp_metaNumPoints p)"
  defines "k \<equiv> nat (n + 1)" and "after \<equiv> cp_data (fold (\<lambda>(t, d). sysinfoEvent t d) ds p)"
  shows "(ds \<noteq> [] \<longrightarrow> length after = k \<and>
      after = newest k (getDefaultData (fst (hd ds)) n @ cp_data p @ map (convertWaveEventToDataItem \<circ> snd) ds)) \<and>
    (\<not> list_ex setsNumber es \<longrightarrow> n = numPoints m \<and> length (cp_data p) = k \<and>
      after = newest k (cp_data p @ map (convertWaveEventToDataItem \<circ> snd) ds))"
proof (intro conjI impI)
  assume "ds \<noteq> []"
  then show "after = newest k (getDefaultData (fst (hd ds)) n @ cp_data p @ map (convertWaveEventToDataItem \<circ> snd) ds)"
    using sysinfo_runs [of p ds] assms(2) by (simp add: after_def k_def n_def p_def)
  then show "length after = k" by (simp add: k_def)
next
  assume "\<not> list_ex setsNumber es"
  then have "fullFor m p" using fullFor_run [OF fullFor_new assms(1)] by (simp add: p_def)
  then show n: "n = numPoints m" and full: "length (cp_data p) = k" by (simp_all add: fullFor_def n_def k_def)
  show "after = newest k (cp_data p @ map (convertWaveEventToDataItem \<circ> snd) ds)"
  proof (cases "ds = []")
    case False
    then have "after = newest k (getDefaultData (fst (hd ds)) n @ cp_data p @ map (convertWaveEventToDataItem \<circ> snd) ds)"
      using sysinfo_runs [of p ds] assms(2) by (simp add: after_def k_def n_def p_def)
    then show ?thesis using full by (simp add: newest_append_long)
  qed (use full in \<open>simp add: after_def newest_all\<close>)
qed

definition demoPlotRun :: "plotEvent list" where
  "demoPlotRun = [HistoryAnswer 1 0 (Inr None), Sysinfo 1 None, NumPointsSet (Some 2)]"

theorem plot_is_a_sliding_window_witness:
  "cp_data (fold (\<lambda>(t, d). sysinfoEvent t d) [(1000, Some \<lparr>ts_ts = Some (Fin 7), ts_values = Some []\<rparr>)]
      (fold plotStep demoPlotRun (newCpuPlot 0 ''b'' (Some 1) None))) =
    [Some [(''ts'', Fin (- 1000))], None, Some [(''ts'', Fin 7)]]"
proof -
  let ?p = "newCpuPlot 0 ''b'' (Some 1) None"
  have run: "fold plotStep demoPlotRun ?p = ?p\<lparr>cp_loading := False, cp_requests := [], cp_metaNumPoints := Some 2,
      cp_data := [Some [(''ts'', Fin (- 1000))], None]\<rparr>"
    by (simp add: demoPlotRun_def newCpuPlot_def loadInitialData_def historyAnswered_def Let_def sysinfoEvent_def
        numPoints_def addData_def getDefaultData_def convertWaveEventToDataItem_def numeral_2_eq_2)
  have "answersOk demoPlotRun ?p" by (simp add: demoPlotRun_def)
  then show ?thesis
    using plot_is_a_sliding_window [of demoPlotRun 0 "''b''" "Some 1" None
        "[(1000, Some \<lparr>ts_ts = Some (Fin 7), ts_values = Some []\<rparr>)]"]
    by (simp add: run numPoints_def newest_def convertWaveEventToDataItem_def)
qed

lemma addData_replaces:
  assumes "0 < n" "length points = nat (n + 1)"
  shows "addData now n points dat = points"
  using assms by (simp add: addData_def Let_def)

lemma historyData_items:
  assumes "0 < n" "length es \<le> nat n"
  shows "historyData now n es = take (nat (n + 1) - length es) (getDefaultData now n) @ map convertWaveEventToDataItem es"
  using assms by (simp add: historyData_def js_splice_def Let_def nat_diff_distrib)

lemma historyAnswered_data:
  assumes "k < length (cp_requests p)" "length es \<le> nat (numPoints (cp_metaNumPoints p))"
  defines "n \<equiv> numPoints (cp_metaNumPoints p)"
  shows "cp_data (historyAnswered now k (Inr (Some es)) p) =
    take (nat (n + 1) - length es) (getDefaultData now n) @ map convertWaveEventToDataItem es"
proof -
  have n: "0 < n" by (simp add: n_def numPoints_pos)
  have "length es \<le> nat (n + 1)" using assms(2) n by (simp add: n_def)
  then have "addData now n (historyData now n es) (cp_data p) = historyData now n es"
    using length_history [OF n] by (intro addData_replaces [OF n]) simp
  then show ?thesis using assms(1,2) historyData_items [OF n, of es now] by (simp add: historyAnswered_def n_def Let_def)
qed

text \<open>The history that is loaded replaces everything, and its items are the newest.\<close>

theorem history_replaces_the_window:
  assumes "k < length (cp_requests p)" "length es \<le> nat (numPoints (cp_metaNumPoints p))"
  defines "n \<equiv> numPoints (cp_metaNumPoints p)"
  shows "cp_data (historyAnswered now k (Inr (Some es)) p) =
    take (nat (n + 1) - length es) (getDefaultData now n) @ map convertWaveEventToDataItem es"
  unfolding n_def using assms(1,2) by (rule historyAnswered_data)

text \<open>
  The answer for a connection that the block has left is not told apart: when it comes after the
  one for the present connection, the plot shows the data of the other machine.
\<close>

theorem late_history_wins:
  fixes t t' :: int and answer :: "js_error + timeSeriesData option list option"
  assumes "map fst (cp_requests p) = [''a'', ''b'']" "length es \<le> nat (numPoints (cp_metaNumPoints p))"
  defines "p2 \<equiv> plotStep (HistoryAnswer t' 0 (Inr (Some es))) (plotStep (HistoryAnswer t 1 answer) p)"
  shows "\<exists>old. cp_data p2 = old @ map convertWaveEventToDataItem es \<and> \<not> cp_loading p2"
proof -
  define p1 where "p1 = historyAnswered t 1 answer p"
  obtain m m' where reqs: "cp_requests p = [(''a'', m), (''b'', m')]" using assms(1) by auto
  have p1: "cp_requests p1 = [(''a'', m)]" "cp_metaNumPoints p1 = cp_metaNumPoints p"
    using reqs by (auto simp: p1_def historyAnswered_def Let_def split: sum.split option.split)
  have "cp_data p2 = take (nat (numPoints (cp_metaNumPoints p1) + 1) - length es)
      (getDefaultData t' (numPoints (cp_metaNumPoints p1))) @ map convertWaveEventToDataItem es"
    unfolding p2_def plotStep.simps p1_def [symmetric]
    by (rule historyAnswered_data) (use p1 assms(2) in simp_all)
  moreover have "\<not> cp_loading p2" using p1(1) reqs by (simp add: p2_def p1_def [symmetric] historyAnswered_def Let_def split: sum.split option.split)
  ultimately show ?thesis by blast
qed

end
