(* ===== verification/Base64.thy ===== *)
theory Base64
  imports Util
begin

text \<open>
  The conversions of util.ts between strings, their bytes and base64. Strings have characters up to
  255, so a character has one or two bytes in UTF-8. The coder of the base64 package is a parameter,
  as is the text decoder of the browser; \<open>atob\<close> is the browser's, as its standard has it.
\<close>

section \<open>Bytes\<close>

definition charBytes :: "char \<Rightarrow> nat list" where
  "charBytes c =
     (let n = (of_char c :: nat) in if n < 128 then [n] else [192 + n div 64, 128 + n mod 64])"

definition textEncode :: "string \<Rightarrow> nat list" where
  "textEncode s = concat (map charBytes s)"

section \<open>Base64\<close>

definition b64Alphabet :: string where
  "b64Alphabet = ''ABCDEFGHIJKLMNOPQRSTUVWXYZabcdefghijklmnopqrstuvwxyz0123456789+/''"

definition b64Char :: "nat \<Rightarrow> char" where "b64Char n = b64Alphabet ! n"

definition b64Val :: "char \<Rightarrow> nat option" where
  "b64Val c = (let i = js_find_index (\<lambda>d. d = c) b64Alphabet in if i = -1 then None else Some (nat i))"

text \<open>The standard coding: three bytes are four characters, and \<open>=\<close> fills up the last group.\<close>

fun b64Encode :: "nat list \<Rightarrow> string" where
  "b64Encode [] = []"
| "b64Encode [a] = [b64Char (a div 4), b64Char (a mod 4 * 16), CHR ''='', CHR ''='']"
| "b64Encode [a, b] =
     [b64Char (a div 4), b64Char (a mod 4 * 16 + b div 16), b64Char (b mod 16 * 4), CHR ''='']"
| "b64Encode (a # b # c # bs) =
     b64Char (a div 4) # b64Char (a mod 4 * 16 + b div 16) # b64Char (b mod 16 * 4 + c div 64) # b64Char (c mod 64) #
     b64Encode bs"

text \<open>
  \<open>atob\<close>: white space is dropped, then up to two \<open>=\<close> at the end of whole groups; what is left must
  have no other characters and not end in a group of one. Bits that make no whole byte are lost.
\<close>

definition isAsciiSpace :: "char \<Rightarrow> bool" where
  "isAsciiSpace c \<longleftrightarrow> (of_char c :: nat) \<in> {9, 10, 12, 13, 32}"

fun sextetsToBytes :: "nat list \<Rightarrow> nat list" where
  "sextetsToBytes (p # q # r # s # rest) =
     (p * 4 + q div 16) # (q mod 16 * 16 + r div 4) # (r mod 4 * 64 + s) # sextetsToBytes rest"
| "sextetsToBytes [p, q, r] = [p * 4 + q div 16, q mod 16 * 16 + r div 4]"
| "sextetsToBytes [p, q] = [p * 4 + q div 16]"
| "sextetsToBytes _ = []"

definition stripPadding :: "string \<Rightarrow> string" where
  "stripPadding s =
     (if length s mod 4 = 0 then
        (let s1 = (if s \<noteq> [] \<and> last s = CHR ''='' then butlast s else s) in
         if s1 \<noteq> s \<and> s1 \<noteq> [] \<and> last s1 = CHR ''='' then butlast s1 else s1)
      else s)"

definition atob :: "string \<Rightarrow> js_error + string" where
  "atob s =
     (let s = stripPadding (filter (\<lambda>c. \<not> isAsciiSpace c) s) in
      if length s mod 4 = 1 \<or> \<not> list_all (\<lambda>c. b64Val c \<noteq> None) s then Inl (Error ''InvalidCharacterError'')
      else Inr (map (\<lambda>n. char_of n) (sextetsToBytes (map (\<lambda>c. the (b64Val c)) s))))"

section \<open>The conversions\<close>

definition base64ToArray :: "string \<Rightarrow> js_error + nat list" where
  "base64ToArray b64 = (case atob b64 of Inl e \<Rightarrow> Inl e | Inr rawStr \<Rightarrow> Inr (map of_char rawStr))"

definition stringToBase64 :: "(nat list \<Rightarrow> string) \<Rightarrow> string \<Rightarrow> string" where
  "stringToBase64 fromByteArray input = fromByteArray (textEncode input)"

definition base64ToString ::
  "(string \<Rightarrow> js_error + nat list) \<Rightarrow> (nat list \<Rightarrow> string) \<Rightarrow> string option \<Rightarrow> js_error + string option" where
  "base64ToString toByteArray textDecode b64 =
     (case b64 of
        None \<Rightarrow> Inr None
      | Some [] \<Rightarrow> Inr (Some [])
      | Some s \<Rightarrow> (case toByteArray s of Inl e \<Rightarrow> Inl e | Inr bytes \<Rightarrow> Inr (Some (textDecode bytes))))"

text \<open>Reading an atom that may be missing, and a promise whose error is logged.\<close>

definition useAtomValueSafe :: "'a option option \<Rightarrow> 'a option" where
  "useAtomValueSafe a = (case a of None \<Rightarrow> None | Some v \<Rightarrow> v)"

definition fireAndForget :: "'a settlement option \<Rightarrow> string option" where
  "fireAndForget f = (case f of Some (Rejected e) \<Rightarrow> Some e | _ \<Rightarrow> None)"

section \<open>Properties\<close>

lemma length_alphabet [simp]: "length b64Alphabet = 64" by (simp add: b64Alphabet_def)

lemma alphabet_nth: "\<forall>n \<in> set [0..<64]. b64Val (b64Alphabet ! n) = Some n \<and> \<not> isAsciiSpace (b64Alphabet ! n) \<and> b64Alphabet ! n \<noteq> CHR ''=''"
  by code_simp

lemma b64Char [simp]:
  assumes "n < 64"
  shows "b64Val (b64Char n) = Some n" "\<not> isAsciiSpace (b64Char n)" "b64Char n \<noteq> CHR ''=''"
  using alphabet_nth assms by (simp_all add: b64Char_def)

lemma of_char_bound: "(of_char c :: nat) < 256"
  using of_char_mod_256 [of c, where 'a = nat] by (metis mod_less_divisor zero_less_numeral)

lemma textEncode_bytes: "list_all (\<lambda>b. b < 256) (textEncode s)"
proof (induction s)
  case (Cons c s)
  have "(of_char c :: nat) div 64 < 4" using of_char_bound [of c] by (simp add: less_mult_imp_div_less)
  with Cons show ?case by (auto simp: textEncode_def charBytes_def Let_def)
qed (simp add: textEncode_def)

lemma length_b64Encode: "length (b64Encode bs) mod 4 = 0"
  by (induction bs rule: b64Encode.induct) simp_all

text \<open>Without its padding a coded string has only characters of the alphabet, whose sextets are the bytes.\<close>

fun b64Body :: "nat list \<Rightarrow> string" where
  "b64Body [] = []"
| "b64Body [a] = [b64Char (a div 4), b64Char (a mod 4 * 16)]"
| "b64Body [a, b] = [b64Char (a div 4), b64Char (a mod 4 * 16 + b div 16), b64Char (b mod 16 * 4)]"
| "b64Body (a # b # c # bs) =
     b64Char (a div 4) # b64Char (a mod 4 * 16 + b div 16) # b64Char (b mod 16 * 4 + c div 64) # b64Char (c mod 64) # b64Body bs"

lemma sextet_bounds:
  fixes a b c :: nat
  shows "a < 256 \<Longrightarrow> a div 4 < 64" "a mod 4 * 16 < 64" "b < 256 \<Longrightarrow> a mod 4 * 16 + b div 16 < 64" "b mod 16 * 4 < 64"
    "c < 256 \<Longrightarrow> b mod 16 * 4 + c div 64 < 64" "c mod 64 < 64"
proof -
  show "a < 256 \<Longrightarrow> a div 4 < 64" "c mod 64 < 64" by (auto simp: less_mult_imp_div_less)
  have "a mod 4 \<le> 3" "b mod 16 \<le> 15" by (simp_all add: less_Suc_eq_le [symmetric])
  then show "a mod 4 * 16 < 64" "b mod 16 * 4 < 64" by linarith+
  show "a mod 4 * 16 + b div 16 < 64" if "b < 256"
  proof -
    have "b div 16 < 16" using that by (simp add: less_mult_imp_div_less)
    with \<open>a mod 4 \<le> 3\<close> show ?thesis by linarith
  qed
  show "b mod 16 * 4 + c div 64 < 64" if "c < 256"
  proof -
    have "c div 64 < 4" using that by (simp add: less_mult_imp_div_less)
    with \<open>b mod 16 \<le> 15\<close> show ?thesis by linarith
  qed
qed

lemma body_alphabet:
  "list_all (\<lambda>b. b < 256) bs \<Longrightarrow> list_all (\<lambda>c. b64Val c \<noteq> None \<and> \<not> isAsciiSpace c \<and> c \<noteq> CHR ''='') (b64Body bs)"
  by (induction bs rule: b64Body.induct) (auto simp: sextet_bounds)

lemma body_bytes:
  "list_all (\<lambda>b. b < 256) bs \<Longrightarrow> sextetsToBytes (map (\<lambda>c. the (b64Val c)) (b64Body bs)) = bs"
proof (induction bs rule: b64Body.induct)
  case (2 a)
  then show ?case by (simp add: sextet_bounds)
next
  case (3 a b)
  have "(a mod 4 * 16 + b div 16) div 16 = a mod 4" "(a mod 4 * 16 + b div 16) mod 16 = b div 16"
    using 3 by (simp_all add: less_mult_imp_div_less)
  then show ?case using 3 by (simp add: sextet_bounds)
next
  case (4 a b c bs)
  have "(a mod 4 * 16 + b div 16) div 16 = a mod 4" "(a mod 4 * 16 + b div 16) mod 16 = b div 16"
    "(b mod 16 * 4 + c div 64) div 4 = b mod 16" "(b mod 16 * 4 + c div 64) mod 4 = c div 64"
    using 4 by (simp_all add: less_mult_imp_div_less)
  then show ?case using 4 by (simp add: sextet_bounds)
qed simp

lemma last_b64: "list_all (\<lambda>c. c \<noteq> CHR ''='') s \<Longrightarrow> s \<noteq> [] \<Longrightarrow> last s \<noteq> CHR ''=''"
  by (auto simp: list_all_iff)

lemma strip_encoded: "list_all (\<lambda>b. b < 256) bs \<Longrightarrow> stripPadding (b64Encode bs) = b64Body bs"
proof -
  assume bytes: "list_all (\<lambda>b. b < 256) bs"
  have pad: "\<exists>pad. b64Encode bs = b64Body bs @ pad \<and> pad \<in> {[], ''='', ''==''} \<and> (pad \<noteq> [] \<longrightarrow> b64Body bs \<noteq> [])"
    by (induction bs rule: b64Body.induct) auto
  then obtain pad where pad: "b64Encode bs = b64Body bs @ pad" "pad \<in> {[], ''='', ''==''}" by blast
  have "last (b64Body bs) \<noteq> CHR ''=''" if "b64Body bs \<noteq> []"
    using body_alphabet [OF bytes] that by (intro last_b64) (auto simp: list_all_iff)
  with pad length_b64Encode [of bs] show ?thesis
    by (auto simp: stripPadding_def butlast_append Let_def)
qed

lemma body_length: "length (b64Body bs) mod 4 \<noteq> 1"
  by (induction bs rule: b64Body.induct) simp_all

lemma padding_no_space: "\<not> isAsciiSpace (CHR ''='')"
  by (simp add: isAsciiSpace_def)

lemma no_spaces: "list_all (\<lambda>b. b < 256) bs \<Longrightarrow> filter (\<lambda>c. \<not> isAsciiSpace c) (b64Encode bs) = b64Encode bs"
  by (induction bs rule: b64Encode.induct) (simp_all add: sextet_bounds padding_no_space)

lemma atob_encoded:
  assumes "list_all (\<lambda>b. b < 256) bs"
  shows "atob (b64Encode bs) = Inr (map char_of bs)"
proof -
  have "list_all (\<lambda>c. b64Val c \<noteq> None) (b64Body bs)"
    using body_alphabet [OF assms] by (auto simp: list_all_iff)
  then show ?thesis
    using strip_encoded [OF assms] body_length [of bs] body_bytes [OF assms]
    by (simp add: atob_def no_spaces [OF assms] Let_def)
qed

text \<open>
  What is sent as base64 arrives as the bytes of the text: when the package codes bytes in the
  standard way, decoding a coded string gives its UTF-8 bytes.
\<close>

theorem coded_text_arrives:
  assumes "\<And>bs. list_all (\<lambda>b. b < 256) bs \<Longrightarrow> fromByteArray bs = b64Encode bs"
  shows "base64ToArray (stringToBase64 fromByteArray s) = Inr (textEncode s)"
proof -
  have "map (of_char \<circ> (char_of :: nat \<Rightarrow> char)) (textEncode s) = textEncode s"
    using textEncode_bytes [of s] by (intro map_idI) (auto simp: list_all_iff of_char_of)
  then show ?thesis
    using assms [OF textEncode_bytes] atob_encoded [OF textEncode_bytes]
    by (simp add: base64ToArray_def stringToBase64_def)
qed

theorem coded_text_arrives_witness:
  "base64ToArray (stringToBase64 b64Encode ''hi!'') = Inr [104, 105, 33]"
  using coded_text_arrives [of b64Encode "''hi!''"] by (simp add: textEncode_def charBytes_def)

text \<open>A single character left over is an error, whatever it is.\<close>

lemma atob_lone_character: "\<not> isAsciiSpace c \<Longrightarrow> atob [c] = Inl (Error ''InvalidCharacterError'')"
  by (simp add: atob_def stripPadding_def Let_def)

end
