(* ===== verification/Updater.thy ===== *)
theory Updater
  imports Prelude
begin

text \<open>
  The automatic updater of the main process (emain/updater.ts) as a state machine: its status
  follows the events of the update library, a download leads to a prompt, and the answer of the
  prompt to the installation. Checks run by the user or by an interval; the update library, the
  dialogs, the windows and the clock are the environment.
\<close>

datatype updaterStatus = UpToDate | Checking | Downloading | Ready | ErrorStatus | Installing

record updaterSettings =
  us_intervalms :: int
  us_enabled :: bool
  us_installonquit :: bool
  us_channel :: "string option"

datatype updaterCall =
    SendStatus updaterStatus                       \<comment> \<open>to every window\<close>
  | ShowNotification
  | SetConfigChannel string
  | SetInterval | ClearInterval
  | AutoUpdaterCheck
  | NoUpdatesDialog
  | PromptDialog "string option"
  | QuitAndInstall

record updater =
  up_autoCheckInterval :: bool
  up_intervalms :: int
  up_autoCheckEnabled :: bool
  up_releaseName :: "string option"
  up_releaseNotes :: "string option"
  up_status :: updaterStatus
  up_lastUpdateCheck :: int
  up_channel :: string
  up_checks :: "(bool \<times> int) list"               \<comment> \<open>checks under way: by the user or not, and since when\<close>
  up_prompts :: nat                              \<comment> \<open>prompts on the screen\<close>
  up_calls :: "updaterCall list"

definition upCall :: "updaterCall \<Rightarrow> updater \<Rightarrow> updater" where
  "upCall c u = u\<lparr>up_calls := up_calls u @ [c]\<rparr>"

section \<open>Operations\<close>

text \<open>The channel of the settings, or the one the program was built with, which is then saved.\<close>

definition getUpdateChannel :: "string option \<Rightarrow> updaterSettings \<Rightarrow> string \<times> updaterCall list" where
  "getUpdateChannel configChannel settings =
     (let updaterChannel = (case configChannel of None \<Rightarrow> ''latest'' | Some c \<Rightarrow> c) in
      case us_channel settings of
        Some c \<Rightarrow> if c \<noteq> [] then (c, []) else (updaterChannel, [SetConfigChannel updaterChannel])
      | None \<Rightarrow> (updaterChannel, [SetConfigChannel updaterChannel]))"

definition newUpdater :: "string option \<Rightarrow> updaterSettings \<Rightarrow> updater" where
  "newUpdater configChannel settings =
     (let (channel, calls) = getUpdateChannel configChannel settings in
      \<lparr>up_autoCheckInterval = False, up_intervalms = us_intervalms settings, up_autoCheckEnabled = us_enabled settings,
       up_releaseName = None, up_releaseNotes = None, up_status = UpToDate, up_lastUpdateCheck = 0,
       up_channel = channel, up_checks = [], up_prompts = 0, up_calls = calls\<rparr>)"

definition setStatus :: "updaterStatus \<Rightarrow> updater \<Rightarrow> updater" where
  "setStatus v u = upCall (SendStatus v) (u\<lparr>up_status := v\<rparr>)"

definition updateDownloaded :: "string option \<Rightarrow> string option \<Rightarrow> updater \<Rightarrow> updater" where
  "updateDownloaded releaseName releaseNotes u =
     upCall ShowNotification (setStatus Ready (u\<lparr>up_releaseName := releaseName, up_releaseNotes := releaseNotes\<rparr>))"

definition checkForUpdates :: "bool \<Rightarrow> int \<Rightarrow> updater \<Rightarrow> updater" where
  "checkForUpdates userInput now u =
     (if userInput \<or> up_autoCheckInterval u \<and> \<bar>now - up_lastUpdateCheck u\<bar> > up_intervalms u
      then upCall AutoUpdaterCheck (u\<lparr>up_checks := up_checks u @ [(userInput, now)]\<rparr>) else u)"

text \<open>
  What the library answers to a check: a failure, a result with or without a download, or no
  result at all, whose \<open>downloadPromise\<close> then raises a type error.
\<close>

datatype checkResult = CheckFailed | CheckNull | CheckResult bool

definition checkReturned :: "nat \<Rightarrow> checkResult \<Rightarrow> updater \<Rightarrow> (js_error + unit) \<times> updater" where
  "checkReturned i r u =
     (let (userInput, now) = up_checks u ! i;
          u = u\<lparr>up_checks := take i (up_checks u) @ drop (Suc i) (up_checks u)\<rparr> in
      case r of
        CheckFailed \<Rightarrow> (Inl (Error ''check failed''), u)
      | CheckNull \<Rightarrow> if userInput then (Inl TypeError, u) else (Inr (), u\<lparr>up_lastUpdateCheck := now\<rparr>)
      | CheckResult downloadPromise \<Rightarrow>
          let u = (if userInput \<and> \<not> downloadPromise then upCall NoUpdatesDialog u else u)
          in (Inr (), if \<not> userInput then u\<lparr>up_lastUpdateCheck := now\<rparr> else u))"

definition startUpdater :: "int \<Rightarrow> updater \<Rightarrow> updater" where
  "startUpdater now u =
     (if up_autoCheckEnabled u then checkForUpdates False now (upCall SetInterval (u\<lparr>up_autoCheckInterval := True\<rparr>)) else u)"

definition stopUpdater :: "updater \<Rightarrow> updater" where
  "stopUpdater u = (if up_autoCheckInterval u then upCall ClearInterval (u\<lparr>up_autoCheckInterval := False\<rparr>) else u)"

definition promptToInstallUpdate :: "bool \<Rightarrow> nat \<Rightarrow> updater \<Rightarrow> updater" where
  "promptToInstallUpdate isWindows numWindows u =
     (if 0 < numWindows
      then upCall (PromptDialog (if isWindows then up_releaseNotes u else up_releaseName u)) (u\<lparr>up_prompts := Suc (up_prompts u)\<rparr>)
      else u)"

definition installUpdate :: "updater \<Rightarrow> updater" where
  "installUpdate u = (if up_status u = Ready then upCall QuitAndInstall (setStatus Installing u) else u)"

definition promptAnswered :: "int \<Rightarrow> updater \<Rightarrow> updater" where
  "promptAnswered response u =
     (let u = u\<lparr>up_prompts := up_prompts u - 1\<rparr> in if response = 0 then installUpdate u else u)"

text \<open>
  \<open>configureAutoUpdater\<close> with its lock: not in development, not while another one is under way. The
  settings that the backend returns start the updater, whose first check is waited for, when there
  is one; a failure to get the settings is logged. The lock is free again after that.
\<close>

record updaterModule =
  um_updater :: "updater option"
  um_autoUpdateLock :: bool

definition configureAutoUpdater :: "bool \<Rightarrow> updaterModule \<Rightarrow> bool \<times> updaterModule" where
  "configureAutoUpdater isDev m =
     (if isDev \<or> um_autoUpdateLock m then (False, m) else (True, m\<lparr>um_autoUpdateLock := True\<rparr>))"

definition configReturned :: "string option \<Rightarrow> updaterSettings option \<Rightarrow> int \<Rightarrow> updaterModule \<Rightarrow> updaterModule" where
  "configReturned configChannel settings now m =
     (case settings of
        None \<Rightarrow> m\<lparr>um_autoUpdateLock := False\<rparr>
      | Some s \<Rightarrow>
          (let u = startUpdater now (newUpdater configChannel s) in
           m\<lparr>um_updater := Some u, um_autoUpdateLock := (up_checks u \<noteq> [])\<rparr>))"

text \<open>The first check has returned, or failed, which is logged.\<close>

definition firstCheckReturned :: "checkResult \<Rightarrow> updaterModule \<Rightarrow> updaterModule" where
  "firstCheckReturned result m =
     (case um_updater m of
        None \<Rightarrow> m
      | Some u \<Rightarrow> m\<lparr>um_updater := Some (snd (checkReturned 0 result u)), um_autoUpdateLock := False\<rparr>)"

section \<open>Steps\<close>

datatype updaterEvent =
    LibError | LibChecking | LibAvailable | LibNotAvailable
  | LibDownloaded "string option" "string option"
  | Start int | Stop | IntervalTick int | UserCheck int
  | CheckReturned nat checkResult
  | PromptRequested bool nat
  | PromptAnswered int

inductive updStep :: "updaterEvent \<Rightarrow> updater \<Rightarrow> updater \<Rightarrow> bool" where
  upd_error: "updStep LibError u (setStatus ErrorStatus u)"
| upd_checking: "updStep LibChecking u (setStatus Checking u)"
| upd_available: "updStep LibAvailable u (setStatus Downloading u)"
| upd_not_available: "updStep LibNotAvailable u (setStatus UpToDate u)"
| upd_downloaded: "updStep (LibDownloaded name1 notes) u (updateDownloaded name1 notes u)"
| upd_start: "updStep (Start now) u (startUpdater now u)"
| upd_stop: "updStep Stop u (stopUpdater u)"
| upd_tick: "up_autoCheckInterval u \<Longrightarrow> updStep (IntervalTick now) u (checkForUpdates False now u)"
| upd_user: "updStep (UserCheck now) u (checkForUpdates True now u)"
| upd_returned: "i < length (up_checks u) \<Longrightarrow> updStep (CheckReturned i r) u (snd (checkReturned i r u))"
| upd_prompt: "updStep (PromptRequested isWindows n) u (promptToInstallUpdate isWindows n u)"
| upd_answered: "0 < up_prompts u \<Longrightarrow> updStep (PromptAnswered response) u (promptAnswered response u)"

inductive_cases updStepE: "updStep e u u'"

text \<open>A run, with the latest event at the end.\<close>

inductive updRun :: "updater \<Rightarrow> updaterEvent list \<Rightarrow> updater \<Rightarrow> bool" for u where
  run_nil: "updRun u [] u"
| run_step: "updRun u es v \<Longrightarrow> updStep e v w \<Longrightarrow> updRun u (es @ [e]) w"

inductive_cases updRunE: "updRun u es v"

section \<open>Properties\<close>

lemmas updater_ops = upCall_def setStatus_def updateDownloaded_def checkForUpdates_def checkReturned_def
  startUpdater_def stopUpdater_def promptToInstallUpdate_def installUpdate_def promptAnswered_def

definition installs :: "updater \<Rightarrow> nat" where
  "installs u = length (filter (\<lambda>c. c = QuitAndInstall) (up_calls u))"

definition isDownload :: "updaterEvent \<Rightarrow> bool" where
  "isDownload e \<longleftrightarrow> (case e of LibDownloaded _ _ \<Rightarrow> True | _ \<Rightarrow> False)"

definition downloads :: "updaterEvent list \<Rightarrow> nat" where
  "downloads es = length (filter isDownload es)"

text \<open>The library said something about updates.\<close>

definition isLibEvent :: "updaterEvent \<Rightarrow> bool" where
  "isLibEvent e \<longleftrightarrow> e = LibError \<or> e = LibChecking \<or> e = LibAvailable \<or> e = LibNotAvailable \<or> isDownload e"

text \<open>A step installs only from the status ready, and then leaves it; only a download leads to it.\<close>

lemma installs_step:
  assumes "updStep e u u'"
  shows "installs u' + of_bool (up_status u' = Ready) \<le> installs u + of_bool (up_status u = Ready) + of_bool (isDownload e)"
    and "installs u' \<noteq> installs u \<Longrightarrow> e = PromptAnswered 0 \<and> up_status u = Ready \<and> installs u' = Suc (installs u)"
  using assms
  by (auto elim!: updStepE simp: updater_ops installs_def isDownload_def Let_def split: checkResult.splits prod.splits if_splits)

lemma ready_step:
  assumes "updStep e u u'" "up_status u' = Ready"
  shows "isDownload e \<or> \<not> isLibEvent e \<and> up_status u = Ready \<and> installs u' = installs u \<and> up_releaseName u' = up_releaseName u"
  using assms
  by (auto elim!: updStepE simp: updater_ops installs_def isDownload_def isLibEvent_def Let_def split: checkResult.splits prod.splits if_splits)

lemma installs_bound: "updRun u es v \<Longrightarrow> installs v + of_bool (up_status v = Ready) \<le>
    installs u + of_bool (up_status u = Ready) + downloads es"
proof (induction rule: updRun.induct)
  case (run_step es v e w)
  moreover have "downloads (es @ [e]) = downloads es + of_bool (isDownload e)" by (simp add: downloads_def)
  ultimately show ?case using installs_step(1) [OF run_step.hyps(2)] by linarith
qed (simp add: downloads_def)

lemma ready_since_download:
  assumes "updRun u es v" "up_status v = Ready" "up_status u \<noteq> Ready"
  shows "\<exists>es1 name1 notes es2. es = es1 @ LibDownloaded name1 notes # es2 \<and> (\<forall>e \<in> set es2. \<not> isLibEvent e) \<and>
    up_releaseName v = name1"
  using assms
proof (induction rule: updRun.induct)
  case (run_step es v e w)
  show ?case
  proof (cases "isDownload e")
    case True
    then obtain n m where "e = LibDownloaded n m" by (auto simp: isDownload_def split: updaterEvent.splits)
    with run_step.hyps(2) show ?thesis
      by (intro exI [of _ es] exI [of _ n] exI [of _ m] exI [of _ "[]"]) (auto elim: updStepE simp: updater_ops)
  next
    case False
    with ready_step [OF run_step.hyps(2) run_step.prems(1)] run_step.IH run_step.prems(2) obtain es1 n m es2
      where "es = es1 @ LibDownloaded n m # es2" "\<forall>e \<in> set es2. \<not> isLibEvent e" "up_releaseName w = n" "\<not> isLibEvent e"
      by auto
    then show ?thesis by (intro exI [of _ es1] exI [of _ n] exI [of _ m] exI [of _ "es2 @ [e]"]) auto
  qed
qed simp

text \<open>
  C32: the program quits to install only after the user agreed, when the last thing that the update
  library reported was a finished download; and it does so at most once per download.
\<close>

theorem installs_only_what_was_downloaded:
  assumes "updRun (newUpdater configChannel settings) es u" "updStep e u u'"
  shows "installs u' \<le> downloads es \<and>
    (installs u' \<noteq> installs u \<longrightarrow> e = PromptAnswered 0 \<and>
      (\<exists>es1 name1 notes es2. es = es1 @ LibDownloaded name1 notes # es2 \<and> (\<forall>e \<in> set es2. \<not> isLibEvent e)))"
proof -
  let ?u0 = "newUpdater configChannel settings"
  have u0: "up_status ?u0 = UpToDate" "installs ?u0 = 0"
    by (simp_all add: newUpdater_def installs_def getUpdateChannel_def Let_def split: option.split prod.split)
  have b: "installs u + of_bool (up_status u = Ready) \<le> downloads es"
    using installs_bound [OF assms(1)] u0 by simp
  show ?thesis
  proof (cases "installs u' = installs u")
    case False
    note e = installs_step(2) [OF assms(2) False]
    then have "up_status u = Ready" by blast
    from ready_since_download [OF assms(1) this] e b u0 show ?thesis by auto
  qed (use b in simp)
qed

theorem installs_only_what_was_downloaded_witness:
  "let u = updateDownloaded (Some ''v2'') None (newUpdater None \<lparr>us_intervalms = 0, us_enabled = True,
      us_installonquit = True, us_channel = Some ''beta''\<rparr>);
      v = promptToInstallUpdate False 1 u
   in installs (promptAnswered 0 v) = 1 \<and>
      installs (promptAnswered 0 v) \<le> downloads [LibDownloaded (Some ''v2'') None, PromptRequested False 1]"
proof -
  let ?s = "\<lparr>us_intervalms = 0, us_enabled = True, us_installonquit = True, us_channel = Some ''beta''\<rparr>"
  let ?u = "updateDownloaded (Some ''v2'') None (newUpdater None ?s)"
  let ?v = "promptToInstallUpdate False 1 ?u"
  have "updRun (newUpdater None ?s) (([] @ [LibDownloaded (Some ''v2'') None]) @ [PromptRequested False 1]) ?v"
    by (rule run_step [OF run_step [OF run_nil upd_downloaded] upd_prompt])
  moreover have "updStep (PromptAnswered 0) ?v (promptAnswered 0 ?v)"
    by (rule upd_answered) (simp add: promptToInstallUpdate_def upCall_def)
  ultimately have "installs (promptAnswered 0 ?v) \<le> downloads (([] @ [LibDownloaded (Some ''v2'') None]) @ [PromptRequested False 1])"
    using installs_only_what_was_downloaded by blast
  then show ?thesis
    by (simp add: updater_ops newUpdater_def getUpdateChannel_def installs_def Let_def)
qed

text \<open>The windows are told every change of the status.\<close>

definition told :: "updater \<Rightarrow> updaterStatus" where
  "told u = fold (\<lambda>c st. case c of SendStatus v \<Rightarrow> v | _ \<Rightarrow> st) (up_calls u) UpToDate"

lemma told_step: "updStep e u u' \<Longrightarrow> told u = up_status u \<Longrightarrow> told u' = up_status u'"
  by (erule updStepE) (auto simp: updater_ops told_def Let_def split: checkResult.splits prod.splits)

text \<open>
  What the windows were told last is the status of the updater, after any run.
\<close>

theorem windows_know_the_status:
  assumes "updRun (newUpdater configChannel settings) es u"
  shows "told u = up_status u"
  using assms
proof (induction rule: updRun.induct)
  case run_nil
  show ?case by (simp add: told_def newUpdater_def getUpdateChannel_def Let_def split: option.split prod.split)
qed (rule told_step)

theorem windows_know_the_status_witness:
  "told (setStatus Downloading (newUpdater None \<lparr>us_intervalms = 0, us_enabled = False, us_installonquit = False,
      us_channel = None\<rparr>)) = Downloading"
proof -
  let ?s = "\<lparr>us_intervalms = 0, us_enabled = False, us_installonquit = False, us_channel = None\<rparr>"
  have "updRun (newUpdater None ?s) ([] @ [LibAvailable]) (setStatus Downloading (newUpdater None ?s))"
    by (rule run_step [OF run_nil upd_available])
  from windows_know_the_status [OF this] show ?thesis by (simp add: setStatus_def upCall_def)
qed

end
