(* ===== verification/EmainWindows.thy ===== *)
theory EmainWindows
  imports KeyUtil "HOL-Library.Multiset"
begin

text \<open>
  The windows of the main process (emain/emain.ts): where a window is put and with which options, where
  its page may navigate, and its life: opening, closing, relaunching and quitting. Displays, dialogs
  and the answers of the backend are arguments; coordinates are whole numbers.
\<close>

section \<open>Displays\<close>

record rect =
  rc_x :: int
  rc_y :: int
  rc_width :: int
  rc_height :: int

record display =
  ds_bounds :: rect
  ds_workArea :: rect

definition isPointInDisplay :: "display list \<Rightarrow> int \<Rightarrow> int \<Rightarrow> bool" where
  "isPointInDisplay displays x y =
     list_ex (\<lambda>d. let b = ds_bounds d in
       rc_x b \<le> x \<and> x < rc_x b + rc_width b \<and> rc_y b \<le> y \<and> y < rc_y b + rc_height b) displays"

definition isWindowFullyVisible :: "display list \<Rightarrow> rect \<Rightarrow> bool" where
  "isWindowFullyVisible displays b \<longleftrightarrow>
     isPointInDisplay displays (rc_x b) (rc_y b) \<and>
     isPointInDisplay displays (rc_x b + rc_width b) (rc_y b) \<and>
     isPointInDisplay displays (rc_x b) (rc_y b + rc_height b) \<and>
     isPointInDisplay displays (rc_x b + rc_width b) (rc_y b + rc_height b)"

definition overlapArea :: "rect \<Rightarrow> display \<Rightarrow> int" where
  "overlapArea b d =
     (let r = ds_bounds d;
          overlapX = max 0 (min (rc_x b + rc_width b) (rc_x r + rc_width r) - max (rc_x b) (rc_x r));
          overlapY = max 0 (min (rc_y b + rc_height b) (rc_y r + rc_height r) - max (rc_y b) (rc_y r))
      in overlapX * overlapY)"

fun mostAreaLoop :: "rect \<Rightarrow> display list \<Rightarrow> int \<Rightarrow> display option \<Rightarrow> display option" where
  "mostAreaLoop b [] maxArea bestDisplay = bestDisplay"
| "mostAreaLoop b (d # ds) maxArea bestDisplay =
     (if overlapArea b d > maxArea then mostAreaLoop b ds (overlapArea b d) (Some d)
      else mostAreaLoop b ds maxArea bestDisplay)"

definition findDisplayWithMostArea :: "display list \<Rightarrow> rect \<Rightarrow> display option" where
  "findDisplayWithMostArea displays b = mostAreaLoop b displays 0 None"

definition adjustBoundsToFitDisplay :: "rect \<Rightarrow> display \<Rightarrow> rect" where
  "adjustBoundsToFitDisplay b display =
     (let w = ds_workArea display;
          width = min (rc_width b) (rc_width w);
          height = min (rc_height b) (rc_height w);
          x = (if rc_x b < rc_x w then rc_x w
               else if rc_x b + width > rc_x w + rc_width w then rc_x w + rc_width w - width else rc_x b);
          y = (if rc_y b < rc_y w then rc_y w
               else if rc_y b + height > rc_y w + rc_height w then rc_y w + rc_height w - height else rc_y b)
      in \<lparr>rc_x = x, rc_y = y, rc_width = width, rc_height = height\<rparr>)"

definition ensureBoundsAreVisible :: "display list \<Rightarrow> display \<Rightarrow> rect \<Rightarrow> rect" where
  "ensureBoundsAreVisible displays primaryDisplay b =
     (if \<not> isWindowFullyVisible displays b then
        let targetDisplay = (case findDisplayWithMostArea displays b of None \<Rightarrow> primaryDisplay | Some d \<Rightarrow> d)
        in adjustBoundsToFitDisplay b targetDisplay
      else b)"

section \<open>Creating a window\<close>

record waveWindow =
  ww_oid :: string
  ww_pos :: "int \<times> int"
  ww_size :: "(int option \<times> int option) option"

definition newWindowBounds :: "display \<Rightarrow> waveWindow \<Rightarrow> rect" where
  "newWindowBounds primaryDisplay w =
     (let winPosX = fst (ww_pos w); winPosY = snd (ww_pos w);
          winWidth = (case ww_size w of None \<Rightarrow> None | Some s \<Rightarrow> fst s);
          winHeight = (case ww_size w of None \<Rightarrow> None | Some s \<Rightarrow> snd s);
          area = ds_workArea primaryDisplay;
          winWidth = (if winWidth = None \<or> winWidth = Some 0 then min (rc_width area - winPosX - 100) 2000 else the winWidth);
          winHeight = (if winHeight = None \<or> winHeight = Some 0 then min (rc_height area - winPosY - 100) 1200 else the winHeight)
      in \<lparr>rc_x = winPosX, rc_y = winPosY, rc_width = winWidth, rc_height = winHeight\<rparr>)"

record windowOptions =
  wn_titleBarStyle :: string
  wn_titleBarOverlay :: "(string \<times> string) option"     \<comment> \<open>the colours of the symbols and the background\<close>
  wn_bounds :: rect
  wn_minSize :: "int \<times> int"
  wn_hasIcon :: bool
  wn_transparent :: bool
  wn_backgroundMaterial :: "string option"
  wn_vibrancy :: "string option"
  wn_backgroundColor :: "string option"

text \<open>The settings \<open>window:transparent\<close> and \<open>window:blur\<close>.\<close>

definition windowOptionsFor ::
  "string \<Rightarrow> display list \<Rightarrow> display \<Rightarrow> waveWindow \<Rightarrow> bool option \<Rightarrow> bool option \<Rightarrow> windowOptions" where
  "windowOptionsFor unamePlatform displays primaryDisplay w transparentSetting blurSetting =
     (let isTransparent = (case transparentSetting of None \<Rightarrow> False | Some b \<Rightarrow> b);
          isBlur = (\<not> isTransparent \<and> (case blurSetting of None \<Rightarrow> False | Some b \<Rightarrow> b))
      in \<lparr>wn_titleBarStyle = (if unamePlatform = ''darwin'' then ''hiddenInset'' else ''hidden''),
          wn_titleBarOverlay = (if unamePlatform \<noteq> ''darwin'' then Some (''white'', ''#00000000'') else None),
          wn_bounds = ensureBoundsAreVisible displays primaryDisplay (newWindowBounds primaryDisplay w),
          wn_minSize = (400, 300),
          wn_hasIcon = (unamePlatform = ''linux''),
          wn_transparent = isTransparent,
          wn_backgroundMaterial = (if isBlur \<and> unamePlatform = ''win32'' then Some ''acrylic'' else None),
          wn_vibrancy = (if isBlur \<and> unamePlatform = ''darwin'' then Some ''fullscreen-ui'' else None),
          wn_backgroundColor = (if isTransparent \<or> isBlur then None else Some ''#222222'')\<rparr>)"

section \<open>Navigation\<close>

text \<open>What becomes of a navigation: it happens, it is cancelled, or the url is opened by the system.\<close>

datatype navResult = Navigates | Cancelled | OpensExternal string

definition shNavHandler :: "string \<Rightarrow> navResult" where
  "shNavHandler url =
     (if js_is_prefix ''http://127.0.0.1:5173/index.html'' url \<or> js_is_prefix ''http://localhost:5173/index.html'' url
      then Navigates
      else if js_is_prefix ''https://'' url \<or> js_is_prefix ''http://'' url \<or> js_is_prefix ''file://'' url
      then OpensExternal url
      else Cancelled)"

text \<open>A navigation of a frame below the page, by the name of the frame; other frames are not handled here.\<close>

definition shFrameNavHandler :: "string \<Rightarrow> bool \<Rightarrow> string \<Rightarrow> string \<Rightarrow> navResult" where
  "shFrameNavHandler webEndpoint hasParent frameName url =
     (if \<not> hasParent then Navigates
      else if frameName = ''webview'' then OpensExternal url
      else if frameName = ''pdfview'' \<and>
        (js_is_prefix ''blob:file:///'' url \<or> js_is_prefix (webEndpoint @ ''/wave/stream-file?'') url)
      then Navigates
      else Cancelled)"

text \<open>A page that opens a window never gets one.\<close>

definition windowOpenHandler :: "string \<Rightarrow> navResult" where
  "windowOpenHandler url =
     (if js_is_prefix ''http://'' url \<or> js_is_prefix ''https://'' url \<or> js_is_prefix ''file://'' url
      then OpensExternal url else Cancelled)"

section \<open>The life of windows\<close>

datatype mainCall =
    FocusWindow string | CloseWindow string | SetWindowPosAndSize string rect | MakeWindow
  | QuitApp | UpdaterStop | ShowWindow string | SendFullscreen string bool

text \<open>The windows that are open, by the id of their Wave window, and the flags of the process.\<close>

record mainState =
  ms_windows :: "string list"
  ms_isQuitting :: bool
  ms_isStarting :: bool
  ms_isRelaunching :: bool
  ms_wasActive :: bool
  ms_wasInFg :: bool
  ms_installing :: bool                      \<comment> \<open>the updater's status\<close>
  ms_calls :: "mainCall list"

definition mainCall1 :: "mainCall \<Rightarrow> mainState \<Rightarrow> mainState" where
  "mainCall1 c m = m\<lparr>ms_calls := ms_calls m @ [c]\<rparr>"

definition openWindow :: "string \<Rightarrow> mainState \<Rightarrow> mainState" where
  "openWindow i m = m\<lparr>ms_windows := ms_windows m @ [i]\<rparr>"

text \<open>The handler of \<open>close\<close>: whether the window may close, given the answer of the question that it may ask.\<close>

definition closeAllowed :: "bool \<Rightarrow> mainState \<Rightarrow> bool" where
  "closeAllowed answerYes m =
     (if ms_isQuitting m \<or> ms_installing m then True
      else if length (ms_windows m) = 1 then True
      else answerYes)"

definition asksBeforeClose :: "mainState \<Rightarrow> bool" where
  "asksBeforeClose m \<longleftrightarrow> \<not> ms_isQuitting m \<and> \<not> ms_installing m \<and> length (ms_windows m) \<noteq> 1"

text \<open>A window that is gone, and the event when it was the last one.\<close>

definition windowAllClosed :: "string \<Rightarrow> mainState \<Rightarrow> mainState" where
  "windowAllClosed unamePlatform m =
     (if ms_isRelaunching m then m
      else if unamePlatform \<noteq> ''darwin'' then mainCall1 QuitApp m else m)"

definition windowClosed :: "string \<Rightarrow> string \<Rightarrow> mainState \<Rightarrow> mainState" where
  "windowClosed unamePlatform i m =
     (let m = m\<lparr>ms_windows := remove1 i (ms_windows m)\<rparr>;
          m = (if ms_isQuitting m \<or> ms_installing m then m
               else if ms_windows m = [] then m
               else mainCall1 (CloseWindow i) m)
      in if ms_windows m = [] then windowAllClosed unamePlatform m else m)"

definition closeRequested :: "string \<Rightarrow> bool \<Rightarrow> string \<Rightarrow> mainState \<Rightarrow> mainState" where
  "closeRequested unamePlatform answerYes i m =
     (if i \<in> set (ms_windows m) \<and> closeAllowed answerYes m then windowClosed unamePlatform i m else m)"

text \<open>An event of the backend that has a window destroyed without a question.\<close>

definition closeWindowEvent :: "string \<Rightarrow> string option \<Rightarrow> mainState \<Rightarrow> mainState" where
  "closeWindowEvent unamePlatform i m =
     (case i of
        None \<Rightarrow> m
      | Some i \<Rightarrow> fold (\<lambda>j m. if j = i then windowClosed unamePlatform j m else m) (ms_windows m) m)"

text \<open>An event of the backend that a window is to be opened, with the data of the window.\<close>

definition newWindowEvent :: "waveWindow option \<Rightarrow> mainState \<Rightarrow> mainState" where
  "newWindowEvent w m =
     (case w of None \<Rightarrow> m | Some w \<Rightarrow> mainCall1 (ShowWindow (ww_oid w)) (openWindow (ww_oid w) m))"

definition beforeQuit :: "mainState \<Rightarrow> mainState" where
  "beforeQuit m = mainCall1 UpdaterStop (m\<lparr>ms_isQuitting := True\<rparr>)"

text \<open>The backend process has ended.\<close>

definition waveSrvExited :: "mainState \<Rightarrow> mainState" where
  "waveSrvExited m = (if ms_isQuitting m \<or> ms_installing m then m else mainCall1 QuitApp m)"

definition windowFocused :: "string \<Rightarrow> mainState \<Rightarrow> mainState" where
  "windowFocused i m =
     (let m = m\<lparr>ms_wasInFg := True, ms_wasActive := True\<rparr>
      in if ms_isStarting m then m else mainCall1 (FocusWindow i) m)"

definition inputInWindow :: "bool \<Rightarrow> mainState \<Rightarrow> mainState" where
  "inputInWindow isFocused m = (if isFocused then m\<lparr>ms_wasActive := True\<rparr> else m)"

definition fullScreenChanged :: "string \<Rightarrow> bool \<Rightarrow> mainState \<Rightarrow> mainState" where
  "fullScreenChanged i b m = mainCall1 (SendFullscreen i b) m"

definition mainResizeHandler :: "string \<Rightarrow> bool \<Rightarrow> bool \<Rightarrow> rect \<Rightarrow> mainState \<Rightarrow> mainState" where
  "mainResizeHandler i isDestroyed fullScreen b m =
     (if isDestroyed \<or> fullScreen then m else mainCall1 (SetWindowPosAndSize i b) m)"

text \<open>A new window: the first saved one when none is open and its data can be had, else a fresh one.\<close>

definition createNewWaveWindow ::
  "string list \<Rightarrow> (string \<Rightarrow> waveWindow option) \<Rightarrow> waveWindow \<Rightarrow> mainState \<Rightarrow> mainState" where
  "createNewWaveWindow windowids getObject newWindow m =
     (let existing = (if ms_windows m = [] \<and> windowids \<noteq> [] then getObject (hd windowids) else None)
      in case existing of
           Some w \<Rightarrow> mainCall1 (ShowWindow (ww_oid w)) (openWindow (ww_oid w) m)
         | None \<Rightarrow> mainCall1 (ShowWindow (ww_oid newWindow)) (openWindow (ww_oid newWindow) (mainCall1 MakeWindow m)))"

text \<open>
  Relaunching closes all windows, whose listeners are removed first so that nothing asks or deletes (the
  model takes the closing as immediate), and opens those of the client in reverse order; windows without data are closed in the backend.
\<close>

fun reopenWindows :: "(string \<Rightarrow> waveWindow option) \<Rightarrow> string list \<Rightarrow> mainState \<Rightarrow> string list \<times> mainState" where
  "reopenWindows getObject [] m = ([], m)"
| "reopenWindows getObject (i # is) m =
     (case getObject i of
        None \<Rightarrow> reopenWindows getObject is (mainCall1 (CloseWindow i) m)
      | Some w \<Rightarrow> (let (ws, m) = reopenWindows getObject is (openWindow (ww_oid w) m) in (ww_oid w # ws, m)))"

definition relaunchBrowserWindows :: "string list \<Rightarrow> (string \<Rightarrow> waveWindow option) \<Rightarrow> mainState \<Rightarrow> mainState" where
  "relaunchBrowserWindows windowids getObject m =
     (let m = m\<lparr>ms_windows := [], ms_isRelaunching := False\<rparr>;
          (wins, m) = reopenWindows getObject (rev windowids) m
      in fold (\<lambda>i. mainCall1 (ShowWindow i)) wins m)"

text \<open>The report of activity every minute, and what is kept for the next one.\<close>

definition logActiveState :: "bool \<Rightarrow> mainState \<Rightarrow> (bool \<times> bool) \<times> mainState" where
  "logActiveState focusedNow m = ((ms_wasInFg m, ms_wasActive m), m\<lparr>ms_wasInFg := focusedNow, ms_wasActive := False\<rparr>)"

definition newMainState :: mainState where
  "newMainState =
     \<lparr>ms_windows = [], ms_isQuitting = False, ms_isStarting = True, ms_isRelaunching = False, ms_wasActive = True,
      ms_wasInFg = True, ms_installing = False, ms_calls = []\<rparr>"

datatype mainEvent =
    CloseReq bool string
  | BackendClose "string option"
  | BackendNew "waveWindow option"
  | NewWindow "string list" "string \<Rightarrow> waveWindow option" waveWindow
  | Relaunch "string list" "string \<Rightarrow> waveWindow option"
  | Focused string
  | Input bool
  | Moved string bool bool rect
  | FullScreen string bool
  | BeforeQuit
  | SrvExited
  | Started
  | ActiveTimer bool

definition mainStep :: "string \<Rightarrow> mainEvent \<Rightarrow> mainState \<Rightarrow> mainState" where
  "mainStep p ev m =
     (case ev of
        CloseReq yes i \<Rightarrow> closeRequested p yes i m
      | BackendClose i \<Rightarrow> closeWindowEvent p i m
      | BackendNew w \<Rightarrow> newWindowEvent w m
      | NewWindow ids get w \<Rightarrow> createNewWaveWindow ids get w m
      | Relaunch ids get \<Rightarrow> relaunchBrowserWindows ids get m
      | Focused i \<Rightarrow> windowFocused i m
      | Input b \<Rightarrow> inputInWindow b m
      | Moved i d f b \<Rightarrow> mainResizeHandler i d f b m
      | FullScreen i b \<Rightarrow> fullScreenChanged i b m
      | BeforeQuit \<Rightarrow> beforeQuit m
      | SrvExited \<Rightarrow> waveSrvExited m
      | Started \<Rightarrow> m\<lparr>ms_isStarting := False\<rparr>
      | ActiveTimer b \<Rightarrow> snd (logActiveState b m))"

section \<open>Windows are visible\<close>

text \<open>
  The edges of a rectangle keep to those of an area; for a rectangle that has a size this is
  containment, of which every point is required here.
\<close>

definition edgesWithin :: "rect \<Rightarrow> rect \<Rightarrow> bool" where
  "edgesWithin r a \<longleftrightarrow>
     rc_x a \<le> rc_x r \<and> rc_x r + rc_width r \<le> rc_x a + rc_width a \<and>
     rc_y a \<le> rc_y r \<and> rc_y r + rc_height r \<le> rc_y a + rc_height a"

definition insideRect :: "rect \<Rightarrow> rect \<Rightarrow> bool" where
  "insideRect r a \<longleftrightarrow>
     0 \<le> rc_width r \<and> 0 \<le> rc_height r \<and>
     {rc_x r..rc_x r + rc_width r} \<subseteq> {rc_x a..rc_x a + rc_width a} \<and>
     {rc_y r..rc_y r + rc_height r} \<subseteq> {rc_y a..rc_y a + rc_height a}"

definition hasSize :: "rect \<Rightarrow> bool" where
  "hasSize r \<longleftrightarrow> 0 \<le> rc_width r \<and> 0 \<le> rc_height r"

lemma edgesWithin_inside: "edgesWithin r a \<Longrightarrow> hasSize r \<Longrightarrow> insideRect r a"
  by (simp add: edgesWithin_def insideRect_def hasSize_def)

lemma adjusted_within: "edgesWithin (adjustBoundsToFitDisplay b d) (ds_workArea d)"
  by (auto simp: edgesWithin_def adjustBoundsToFitDisplay_def Let_def)

lemma adjusted_size: "hasSize b \<Longrightarrow> hasSize (ds_workArea d) \<Longrightarrow> hasSize (adjustBoundsToFitDisplay b d)"
  by (simp add: hasSize_def adjustBoundsToFitDisplay_def Let_def)

lemma adjusted_inside:
  "edgesWithin (adjustBoundsToFitDisplay b d) (ds_workArea d) \<and>
   (hasSize b \<and> hasSize (ds_workArea d) \<longrightarrow> insideRect (adjustBoundsToFitDisplay b d) (ds_workArea d))"
  using adjusted_within [of b d] adjusted_size [of b d] edgesWithin_inside by blast

lemma mostAreaLoop_max:
  assumes "mostAreaLoop b ds maxArea best = r" "\<forall>d. best = Some d \<longrightarrow> overlapArea b d = maxArea" "best = None \<longrightarrow> maxArea = 0" "0 \<le> maxArea"
  shows "(r = best \<and> (\<forall>e \<in> set ds. overlapArea b e \<le> maxArea)) \<or>
    (\<exists>d \<in> set ds. r = Some d \<and> maxArea < overlapArea b d \<and> (\<forall>e \<in> set ds. overlapArea b e \<le> overlapArea b d))"
  using assms
proof (induction b ds maxArea best rule: mostAreaLoop.induct)
  case (2 b d ds maxArea best)
  show ?case
  proof (cases "overlapArea b d > maxArea")
    case True
    then have "mostAreaLoop b ds (overlapArea b d) (Some d) = r" using 2(3) by simp
    from 2(1) [OF True this] True 2(6) show ?thesis by force
  next
    case False
    then have "mostAreaLoop b ds maxArea best = r" using 2(3) by simp
    from 2(2) [OF False this 2(4-6)] False show ?thesis by force
  qed
qed simp

lemma overlapArea_nonneg: "0 \<le> overlapArea b d"
  by (simp add: overlapArea_def Let_def)

lemma findDisplay_max:
  "(case findDisplayWithMostArea ds b of
      None \<Rightarrow> \<forall>e \<in> set ds. overlapArea b e = 0
    | Some d \<Rightarrow> d \<in> set ds \<and> 0 < overlapArea b d \<and> (\<forall>e \<in> set ds. overlapArea b e \<le> overlapArea b d))"
  using mostAreaLoop_max [of b ds 0 None "findDisplayWithMostArea ds b"] overlapArea_nonneg [of b]
  by (auto simp: findDisplayWithMostArea_def intro: antisym split: option.split)

text \<open>
  C36: a window is put where it can be seen: either all its corners are on displays, and it is left
  where it was, or it is moved and shrunk into the work area of a display: of one that it overlaps
  most, or of the primary one if it overlaps none. The edges always keep to the work area; a window
  with a size that is not negative lies inside it with all its points.
\<close>

theorem window_is_put_in_view:
  "isWindowFullyVisible ds b \<and> ensureBoundsAreVisible ds primary b = b \<or>
   (\<exists>d. edgesWithin (ensureBoundsAreVisible ds primary b) (ds_workArea d) \<and>
      (hasSize b \<and> hasSize (ds_workArea d) \<longrightarrow> insideRect (ensureBoundsAreVisible ds primary b) (ds_workArea d)) \<and>
      (d \<in> set ds \<and> 0 < overlapArea b d \<and> (\<forall>e \<in> set ds. overlapArea b e \<le> overlapArea b d) \<or>
       d = primary \<and> (\<forall>e \<in> set ds. overlapArea b e = 0)))"
proof (cases "isWindowFullyVisible ds b")
  case False
  then have e: "ensureBoundsAreVisible ds primary b =
      adjustBoundsToFitDisplay b (case findDisplayWithMostArea ds b of None \<Rightarrow> primary | Some d \<Rightarrow> d)"
    by (simp add: ensureBoundsAreVisible_def)
  show ?thesis
  proof (cases "findDisplayWithMostArea ds b")
    case None
    with findDisplay_max [of ds b] e adjusted_inside [of b primary] show ?thesis by auto
  next
    case (Some d)
    with findDisplay_max [of ds b] e adjusted_inside [of b d] show ?thesis by auto
  qed
qed (simp add: ensureBoundsAreVisible_def)

definition screen1 :: display where
  "screen1 = \<lparr>ds_bounds = \<lparr>rc_x = 0, rc_y = 0, rc_width = 1920, rc_height = 1080\<rparr>,
              ds_workArea = \<lparr>rc_x = 0, rc_y = 25, rc_width = 1920, rc_height = 1055\<rparr>\<rparr>"

definition wideRect :: rect where
  "wideRect = \<lparr>rc_x = 1800, rc_y = 100, rc_width = 600, rc_height = 400\<rparr>"

theorem window_is_put_in_view_witness:
  "insideRect (ensureBoundsAreVisible [screen1] screen1 wideRect) (ds_workArea screen1) \<and> 0 < overlapArea wideRect screen1"
proof -
  have "\<not> isWindowFullyVisible [screen1] wideRect" "overlapArea wideRect screen1 \<noteq> 0" "hasSize wideRect" "hasSize (ds_workArea screen1)"
    by (simp_all add: isWindowFullyVisible_def isPointInDisplay_def screen1_def wideRect_def overlapArea_def hasSize_def)
  then show ?thesis using window_is_put_in_view [of "[screen1]" wideRect screen1] by auto
qed

text \<open>
  The width of a window that was saved without one is what is left of the primary display to the
  right of its position, with no lower bound. For a position far to the right it is negative, and
  the window is not brought back: it keeps its position, which is on no display.
\<close>

theorem far_window_stays_hidden:
  fixes w :: waveWindow
  defines "b \<equiv> newWindowBounds screen1 w"
  assumes "ww_pos w = (x, y)" "1920 < x" "ww_size w = None"
  shows "rc_width b < 0 \<and> rc_x (ensureBoundsAreVisible [screen1] screen1 b) = x \<and>
    \<not> isPointInDisplay [screen1] x (rc_y (ensureBoundsAreVisible [screen1] screen1 b))"
  using assms(2-4) unfolding b_def
  by (simp add: newWindowBounds_def ensureBoundsAreVisible_def isWindowFullyVisible_def isPointInDisplay_def screen1_def
      findDisplayWithMostArea_def overlapArea_def adjustBoundsToFitDisplay_def Let_def)

text \<open>A window that fills a display exactly counts as not visible, and is put into the work area.\<close>

theorem full_window_is_moved:
  "\<not> isWindowFullyVisible [screen1] (ds_bounds screen1) \<and>
   ensureBoundsAreVisible [screen1] screen1 (ds_bounds screen1) = ds_workArea screen1"
  by (simp add: isWindowFullyVisible_def isPointInDisplay_def screen1_def ensureBoundsAreVisible_def
      findDisplayWithMostArea_def overlapArea_def adjustBoundsToFitDisplay_def)

section \<open>Data is deleted on request only\<close>

lemma mainCall1_simps [simp]:
  "ms_calls (mainCall1 c m) = ms_calls m @ [c]" "ms_windows (mainCall1 c m) = ms_windows m"
  "ms_isQuitting (mainCall1 c m) = ms_isQuitting m" "ms_calls (openWindow i m) = ms_calls m"
  by (simp_all add: mainCall1_def openWindow_def)

definition mayDelete :: "mainEvent \<Rightarrow> string \<Rightarrow> mainState \<Rightarrow> bool" where
  "mayDelete ev i m \<longleftrightarrow>
     \<not> ms_isQuitting m \<and> 2 \<le> length (ms_windows m) \<and> (ev = CloseReq True i \<or> ev = BackendClose (Some i)) \<or>
     (\<exists>ids get. ev = Relaunch ids get \<and> i \<in> set ids \<and> get i = None)"

lemma windowClosed_deletes:
  assumes "CloseWindow i \<in> set (ms_calls (windowClosed p j m))" "CloseWindow i \<notin> set (ms_calls m)"
  shows "i = j \<and> \<not> ms_isQuitting m \<and> remove1 j (ms_windows m) \<noteq> []"
  using assms by (auto simp: windowClosed_def windowAllClosed_def Let_def split: if_splits)

lemma windowClosed_quitting [simp]: "ms_isQuitting (windowClosed p j m) = ms_isQuitting m"
  by (simp add: windowClosed_def windowAllClosed_def Let_def)

lemma windowClosed_windows [simp]: "ms_windows (windowClosed p j m) = remove1 j (ms_windows m)"
  by (simp add: windowClosed_def windowAllClosed_def Let_def)

lemma reopenWindows_deletes:
  "CloseWindow i \<in> set (ms_calls (snd (reopenWindows get ids m))) \<Longrightarrow> CloseWindow i \<notin> set (ms_calls m) \<Longrightarrow>
    i \<in> set ids \<and> get i = None"
proof (induction get ids m rule: reopenWindows.induct)
  case (2 get j js m)
  show ?case
  proof (cases "get j")
    case None
    with 2 show ?thesis by (cases "i = j") auto
  next
    case (Some w)
    with 2 show ?thesis by (auto split: prod.splits)
  qed
qed simp

lemma fold_show_calls: "CloseWindow i \<in> set (ms_calls (fold (\<lambda>j. mainCall1 (ShowWindow j)) ws m)) \<longleftrightarrow> CloseWindow i \<in> set (ms_calls m)"
  by (induction ws arbitrary: m) auto

lemma fold_close_deletes:
  assumes "CloseWindow k \<in> set (ms_calls (fold (\<lambda>j m. if j = i then windowClosed p j m else m) ws m))"
    and "CloseWindow k \<notin> set (ms_calls m)" "mset ws \<subseteq># mset (ms_windows m)"
  shows "k = i \<and> \<not> ms_isQuitting m \<and> 2 \<le> length (ms_windows m)"
  using assms
proof (induction ws arbitrary: m)
  case (Cons j ws)
  have sub: "mset ws \<subseteq># mset (ms_windows m)"
    using Cons.prems(3) by (auto intro: subset_mset.order_trans [rotated])
  show ?case
  proof (cases "j = i")
    case True
    then have i: "i \<in> set (ms_windows m)" "mset ws \<subseteq># mset (remove1 i (ms_windows m))"
      using Cons.prems(3) by (auto simp: insert_subset_eq_iff)
    show ?thesis
    proof (cases "CloseWindow k \<in> set (ms_calls (windowClosed p i m))")
      case True
      from windowClosed_deletes [OF this Cons.prems(2)]
      have "k = i" "\<not> ms_isQuitting m" "remove1 i (ms_windows m) \<noteq> []" by auto
      with i(1) show ?thesis by (cases "ms_windows m"; cases "tl (ms_windows m)") (auto split: if_splits)
    next
      case False
      with Cons.IH [of "windowClosed p i m"] Cons.prems \<open>j = i\<close> i show ?thesis
        by (force simp: length_remove1 split: if_splits)
    qed
  qed (use Cons sub in simp)
qed simp

lemma step_deletes:
  assumes "CloseWindow i \<in> set (ms_calls (mainStep p ev m))" "CloseWindow i \<notin> set (ms_calls m)"
  shows "mayDelete ev i m"
proof (cases ev)
  case (CloseReq yes j)
  with assms have w: "CloseWindow i \<in> set (ms_calls (windowClosed p j m))" "closeAllowed yes m" "j \<in> set (ms_windows m)"
    by (auto simp: mainStep_def closeRequested_def split: if_splits)
  from windowClosed_deletes [OF w(1) assms(2)] have "i = j" "\<not> ms_isQuitting m" "remove1 j (ms_windows m) \<noteq> []" by auto
  moreover from this(3) have "2 \<le> length (ms_windows m)"
    using w(3) by (cases "ms_windows m"; cases "tl (ms_windows m)") (auto split: if_splits)
  moreover from w(1) assms(2) have "\<not> ms_installing m"
    by (auto simp: windowClosed_def windowAllClosed_def Let_def split: if_splits)
  ultimately show ?thesis using w(2) CloseReq by (auto simp: mayDelete_def closeAllowed_def split: if_splits)
next
  case (BackendClose j)
  with assms obtain k where k: "j = Some k"
    "CloseWindow i \<in> set (ms_calls (fold (\<lambda>j m. if j = k then windowClosed p j m else m) (ms_windows m) m))"
    by (auto simp: mainStep_def closeWindowEvent_def split: option.splits)
  from fold_close_deletes [OF k(2) assms(2)] k(1) BackendClose show ?thesis by (simp add: mayDelete_def)
next
  case (Relaunch ids get)
  with assms have "CloseWindow i \<in> set (ms_calls (snd (reopenWindows get (rev ids) (m\<lparr>ms_windows := [], ms_isRelaunching := False\<rparr>))))"
    by (simp add: mainStep_def relaunchBrowserWindows_def fold_show_calls split: prod.splits)
  from reopenWindows_deletes [OF this] assms(2) Relaunch show ?thesis by (auto simp: mayDelete_def)
qed (use assms in \<open>auto simp: mainStep_def newWindowEvent_def createNewWaveWindow_def windowFocused_def inputInWindow_def
    mainResizeHandler_def fullScreenChanged_def beforeQuit_def waveSrvExited_def logActiveState_def Let_def split: option.splits if_splits\<close>)

text \<open>
  C35: the backend is told to delete a window, with its tabs and blocks, only when it was asked for:
  a user closed the window and said yes while another window was open, the backend had it closed
  itself, or it had no data when the windows were opened again. Closing the last window, or
  quitting, deletes nothing.
\<close>

theorem window_deleted_only_on_request:
  assumes "m' = fold (mainStep p) evs m" "CloseWindow i \<in> set (ms_calls m')" "CloseWindow i \<notin> set (ms_calls m)"
  shows "\<exists>pre ev post. evs = pre @ ev # post \<and> mayDelete ev i (fold (mainStep p) pre m)"
  using assms
proof (induction evs arbitrary: m)
  case (Cons ev evs)
  show ?case
  proof (cases "CloseWindow i \<in> set (ms_calls (mainStep p ev m))")
    case True
    from step_deletes [OF this Cons.prems(3)] show ?thesis by (intro exI [of _ "[]"] exI [of _ ev] exI [of _ evs]) simp
  next
    case False
    with Cons.IH [of "mainStep p ev m"] Cons.prems obtain pre ev' post
      where "evs = pre @ ev' # post" "mayDelete ev' i (fold (mainStep p) pre (mainStep p ev m))" by auto
    then show ?thesis by (intro exI [of _ "ev # pre"] exI [of _ ev'] exI [of _ post]) simp
  qed
qed simp

theorem window_deleted_only_on_request_witness:
  "\<exists>pre ev post. [CloseReq True ''w2''] = pre @ ev # post \<and>
    mayDelete ev ''w2'' (fold (mainStep ''linux'') pre (newMainState\<lparr>ms_windows := [''w1'', ''w2'']\<rparr>))"
  by (rule window_deleted_only_on_request [OF refl])
    (simp_all add: mainStep_def closeRequested_def closeAllowed_def windowClosed_def newMainState_def)

section \<open>Pages stay where they are\<close>

text \<open>
  The page of a window never leaves the application, apart from the reload of the development
  server: a navigation is cancelled or handed to the system, and that only with a web or a file
  address; no new window is opened by a page; and a frame within the page only ever navigates to a
  streamed file or a blob, in the viewer of PDF files.
\<close>

theorem pages_stay:
  "(shNavHandler url = Navigates \<longrightarrow> (\<exists>host \<in> {''127.0.0.1'', ''localhost''}. js_is_prefix (''http://'' @ host @ '':5173/index.html'') url)) \<and>
   (shNavHandler url = OpensExternal u \<longrightarrow> u = url \<and> (\<exists>pre \<in> {''http://'', ''https://'', ''file://''}. js_is_prefix pre url)) \<and>
   windowOpenHandler url \<noteq> Navigates \<and>
   (windowOpenHandler url = OpensExternal u \<longrightarrow> u = url \<and> (\<exists>pre \<in> {''http://'', ''https://'', ''file://''}. js_is_prefix pre url)) \<and>
   (shFrameNavHandler endpoint True name url = Navigates \<longrightarrow>
      name = ''pdfview'' \<and> (js_is_prefix ''blob:file:///'' url \<or> js_is_prefix (endpoint @ ''/wave/stream-file?'') url))"
  by (auto simp: shNavHandler_def windowOpenHandler_def shFrameNavHandler_def split: if_splits)

theorem pages_stay_witness:
  "shNavHandler ''https://waveterm.dev'' = OpensExternal ''https://waveterm.dev'' \<and>
   (\<exists>pre \<in> {''http://'', ''https://'', ''file://''}. js_is_prefix pre ''https://waveterm.dev'')"
  using pages_stay [of "''https://waveterm.dev''" "''https://waveterm.dev''" "[]" "[]"]
  by (simp add: shNavHandler_def js_is_prefix_def)

text \<open>A frame named \<open>webview\<close> hands every address to the system, whatever its scheme.\<close>

theorem webview_frame_opens_anything: "shFrameNavHandler endpoint True ''webview'' url = OpensExternal url"
  by (simp add: shFrameNavHandler_def)

end
