(* ===== verification/EmainApp.thy ===== *)
theory EmainApp
  imports KeyUtil UiModels
begin

text \<open>
  The rest of the main process: the line with which the backend reports that it runs, the Ctrl:Shift
  state and the keys of web views (emain/emain.ts), the application menu (emain/menu.ts), paths
  (emain/platform.ts), the selection of elements in a web view (emain/emain-web.ts, emain/emain-wsh.ts)
  and the key that requests carry (emain/authkey.ts).
\<close>

section \<open>The start of the backend\<close>

definition isEndpointChar :: "char \<Rightarrow> bool" where
  "isEndpointChar c \<longleftrightarrow> (of_char c :: nat) \<in> {97..122} \<or> (of_char c :: nat) \<in> {48..57} \<or> c = CHR ''.'' \<or> c = CHR '':''"

definition isVersionChar :: "char \<Rightarrow> bool" where
  "isVersionChar c \<longleftrightarrow> (of_char c :: nat) \<in> {97..122} \<or> (of_char c :: nat) \<in> {48..57} \<or> c = CHR ''.'' \<or> c = CHR ''-''"

definition isDigit :: "char \<Rightarrow> bool" where
  "isDigit c \<longleftrightarrow> (of_char c :: nat) \<in> {48..57}"

text \<open>A group of the pattern: as many characters of its class as there are, at least one, then the rest.\<close>

definition group :: "string \<Rightarrow> (char \<Rightarrow> bool) \<Rightarrow> string \<Rightarrow> (string \<times> string) option" where
  "group label cls s =
     (if js_is_prefix label s then
        let v = takeWhile cls (drop (length label) s) in
        if v = [] then None else Some (v, drop (length label + length v) s)
      else None)"

record startParams =
  sp_ws :: string
  sp_web :: string
  sp_version :: string
  sp_buildtime :: string

text \<open>\<open>/ws:([a-z0-9.:]+) web:([a-z0-9.:]+) version:([a-z0-9.\-]+) buildtime:(\d+)/\<close> at a position.\<close>

definition matchStart :: "string \<Rightarrow> startParams option" where
  "matchStart s =
     (case group ''ws:'' isEndpointChar s of
        None \<Rightarrow> None
      | Some (ws, s) \<Rightarrow>
          (case group '' web:'' isEndpointChar s of
             None \<Rightarrow> None
           | Some (web, s) \<Rightarrow>
               (case group '' version:'' isVersionChar s of
                  None \<Rightarrow> None
                | Some (version, s) \<Rightarrow>
                    (case group '' buildtime:'' isDigit s of
                       None \<Rightarrow> None
                     | Some (buildtime, s) \<Rightarrow>
                         Some \<lparr>sp_ws = ws, sp_web = web, sp_version = version, sp_buildtime = buildtime\<rparr>))))"

fun parseStart :: "string \<Rightarrow> startParams option" where
  "parseStart [] = None"
| "parseStart (c # s) = (case matchStart (c # s) of Some p \<Rightarrow> Some p | None \<Rightarrow> parseStart s)"

datatype srvLine = Starts startParams | BadStart | SrvEvent string | JustLogged

definition stderrLine :: "string \<Rightarrow> srvLine" where
  "stderrLine line =
     (if js_includes line ''WAVESRV-ESTART'' then
        (case parseStart line of None \<Rightarrow> BadStart | Some p \<Rightarrow> Starts p)
      else if js_is_prefix ''WAVESRV-EVENT:'' line then SrvEvent (drop (length ''WAVESRV-EVENT:'') line)
      else JustLogged)"

record srvState =
  sv_wsEndpoint :: "string option"
  sv_webEndpoint :: "string option"
  sv_version :: string
  sv_buildTime :: string
  sv_ready :: bool
  sv_quit :: nat
  sv_events :: "string list"

definition newSrvState :: srvState where
  "newSrvState =
     \<lparr>sv_wsEndpoint = None, sv_webEndpoint = None, sv_version = ''unknown'', sv_buildTime = ''0'', sv_ready = False,
      sv_quit = 0, sv_events = []\<rparr>"

definition onStderrLine :: "string \<Rightarrow> srvState \<Rightarrow> srvState" where
  "onStderrLine line s =
     (case stderrLine line of
        Starts p \<Rightarrow>
          s\<lparr>sv_wsEndpoint := Some (sp_ws p), sv_webEndpoint := Some (sp_web p), sv_version := sp_version p,
            sv_buildTime := sp_buildtime p, sv_ready := True\<rparr>
      | BadStart \<Rightarrow> s\<lparr>sv_quit := Suc (sv_quit s)\<rparr>
      | SrvEvent e \<Rightarrow> s\<lparr>sv_events := sv_events s @ [e]\<rparr>
      | JustLogged \<Rightarrow> s)"

section \<open>Paths\<close>

definition replaceOnce :: "string \<Rightarrow> string \<Rightarrow> string \<Rightarrow> string" where
  "replaceOnce a b s =
     (case find (\<lambda>k. js_is_prefix a (drop k s)) [0..<Suc (length s)] of
        None \<Rightarrow> s
      | Some k \<Rightarrow> take k s @ b @ drop (k + length a) s)"

definition getGoAppBasePath :: "string \<Rightarrow> string" where
  "getGoAppBasePath electronAppBasePath = replaceOnce ''app.asar'' ''app.asar.unpacked'' electronAppBasePath"

definition getWaveHomeDir :: "(string list \<Rightarrow> string) \<Rightarrow> string \<Rightarrow> bool \<Rightarrow> string" where
  "getWaveHomeDir join homedir isDev = join [homedir, if isDev then ''.waveterm-dev'' else ''.waveterm'']"

definition getWaveSrvPath :: "(string list \<Rightarrow> string) \<Rightarrow> string \<Rightarrow> string \<Rightarrow> string \<Rightarrow> string" where
  "getWaveSrvPath join electronAppBasePath platform arch =
     (let wavesrvBinName = ''wavesrv.'' @ arch
      in if platform = ''win32'' then join [getGoAppBasePath electronAppBasePath, ''bin'', wavesrvBinName @ ''.exe'']
         else join [getGoAppBasePath electronAppBasePath, ''bin'', wavesrvBinName])"

section \<open>Ctrl and Shift\<close>

text \<open>What is sent to the page, if anything.\<close>

definition handleCtrlShiftState :: "waveKeyboardEvent \<Rightarrow> bool option" where
  "handleCtrlShiftState e =
     (if ev_type e = ''keyup'' then
        (if ev_key e = ''Control'' \<or> ev_key e = ''Shift'' then Some False
         else if ev_key e = ''Meta'' then (if ev_control e \<and> ev_shift e then Some True else None)
         else None)
      else if ev_type e = ''keydown'' then
        (if ev_key e = ''Control'' \<or> ev_key e = ''Shift'' \<or> ev_key e = ''Meta''
         then Some (ev_control e \<and> ev_shift e \<and> \<not> ev_meta e) else None)
      else None)"

definition handleCtrlShiftFocus :: "bool \<Rightarrow> bool option" where
  "handleCtrlShiftFocus focused = (if \<not> focused then Some False else None)"

section \<open>Keys of web views\<close>

record webviewState =
  wb_focusId :: "nat option"
  wb_keys :: "string list"
  wb_registered :: "nat list"

definition registerGlobalWebviewKeys :: "string list option \<Rightarrow> webviewState \<Rightarrow> webviewState" where
  "registerGlobalWebviewKeys keys w = w\<lparr>wb_keys := (case keys of None \<Rightarrow> [] | Some ks \<Rightarrow> ks)\<rparr>"

text \<open>A web view gets the focus, or none has it; \<open>exists\<close> tells whether its contents are there.\<close>

definition webviewFocus :: "nat option \<Rightarrow> bool \<Rightarrow> webviewState \<Rightarrow> webviewState" where
  "webviewFocus focusedId exists w =
     (let w = w\<lparr>wb_focusId := focusedId\<rparr>
      in case focusedId of
           None \<Rightarrow> w
         | Some i \<Rightarrow>
             if \<not> exists then w\<lparr>wb_focusId := None\<rparr>
             else if i \<in> set (wb_registered w) then w
             else w\<lparr>wb_registered := i # wb_registered w\<rparr>)"

definition webviewDestroyed :: "nat \<Rightarrow> webviewState \<Rightarrow> webviewState" where
  "webviewDestroyed i w = w\<lparr>wb_registered := filter (\<lambda>j. j \<noteq> i) (wb_registered w)\<rparr>"

text \<open>
  A key event in a web view whose listener is registered: the Ctrl:Shift state for the page, and
  whether the key is taken from the web view and sent to the page, with the first description that
  it matches.
\<close>

definition webviewInput :: "platform \<Rightarrow> nat \<Rightarrow> electronKeyEvent \<Rightarrow> webviewState \<Rightarrow> bool option \<times> string option" where
  "webviewInput p i input w =
     (let waveEvent = adaptFromElectronKeyEvent p input
      in (handleCtrlShiftState waveEvent,
          if wb_focusId w \<noteq> Some i then None
          else if ee_type input \<noteq> ''keyDown'' then None
          else find (checkKeyPressed waveEvent) (wb_keys w)))"

section \<open>Requests of pages\<close>

definition openExternal :: "json \<Rightarrow> string option" where
  "openExternal url = (case url of JStr s \<Rightarrow> if s = [] then None else Some s | _ \<Rightarrow> None)"

definition downloadUrl :: "string \<Rightarrow> string \<Rightarrow> string" where
  "downloadUrl webEndpoint filePath = webEndpoint @ ''/wave/stream-file?path='' @ encodeURIComponent filePath"

definition getCursorPoint :: "int \<times> int \<Rightarrow> int \<times> int \<Rightarrow> int \<times> int" where
  "getCursorPoint screenPoint windowOrigin = (fst screenPoint - fst windowOrigin, snd screenPoint - snd windowOrigin)"

definition getEnv :: "(string \<rightharpoonup> string) \<Rightarrow> string \<Rightarrow> string option" where
  "getEnv env varName = env varName"

text \<open>The picture under the window controls, and the colours that follow from it.\<close>

definition overlayRect :: "rat \<Rightarrow> rat \<times> rat \<times> rat \<times> rat \<Rightarrow> rat \<times> rat \<times> rat \<times> rat" where
  "overlayRect zoomFactor rect =
     (case rect of (l, t, width, height) \<Rightarrow>
        (l * zoomFactor, t * zoomFactor, width * zoomFactor, height * zoomFactor))"

definition overlayColors :: "string \<Rightarrow> string \<Rightarrow> bool \<Rightarrow> string \<times> string" where
  "overlayColors platform rgba isDark =
     (if platform = ''linux'' then rgba else ''#00000000'', if isDark then ''white'' else ''black'')"

text \<open>A menu of a page as a template of Electron; a click sends the id of the item back to the page.\<close>

datatype menuTemplate =
  MenuTemplate (mt_role: "string option") (mt_type: "string option") (mt_label: "string option") (mt_click: string)
    (mt_submenu: "menuTemplate list option")

fun convertMenuDefArrToMenu :: "electronItem list \<Rightarrow> menuTemplate list" where
  "convertMenuDefArrToMenu [] = []"
| "convertMenuDefArrToMenu (ElectronItem role ty label i submenu # items) =
     MenuTemplate role ty label i (case submenu of None \<Rightarrow> None | Some s \<Rightarrow> Some (convertMenuDefArrToMenu s)) #
     convertMenuDefArrToMenu items"

datatype shownMenu = NoMenu | AppMenu | PageMenu "menuTemplate list"

definition contextmenuShow :: "electronItem list option \<Rightarrow> shownMenu" where
  "contextmenuShow menuDefArr =
     (case menuDefArr of
        None \<Rightarrow> AppMenu
      | Some [] \<Rightarrow> NoMenu
      | Some items \<Rightarrow> PageMenu (convertMenuDefArrToMenu items))"

section \<open>The application menu\<close>

datatype appClick =
    CreateWindow | CloseFocused | SendAbout | CheckUpdates | RelaunchWindows | SetZoom rat | ChangeZoom rat | NoClick

record appMenuItem =
  am_role :: string
  am_label :: string
  am_accelerator :: "string option"
  am_click :: appClick
  am_visible :: bool

definition roleItem :: "string \<Rightarrow> string option \<Rightarrow> appMenuItem" where
  "roleItem role accelerator =
     \<lparr>am_role = role, am_label = [], am_accelerator = accelerator, am_click = NoClick, am_visible = True\<rparr>"

definition labelItem :: "string \<Rightarrow> string option \<Rightarrow> appClick \<Rightarrow> appMenuItem" where
  "labelItem label accelerator click =
     \<lparr>am_role = [], am_label = label, am_accelerator = accelerator, am_click = click, am_visible = True\<rparr>"

definition menuSeparator :: appMenuItem where
  "menuSeparator = roleItem ''separator'' None"

definition fileMenuItems :: "appMenuItem list" where
  "fileMenuItems =
     [labelItem ''New Window'' (Some ''CommandOrControl+Shift+N'') CreateWindow,
      (roleItem ''close'' (Some []))\<lparr>am_click := CloseFocused\<rparr>]"

definition appMenuItems :: "string \<Rightarrow> appMenuItem list" where
  "appMenuItems platform =
     [labelItem ''About Wave Terminal'' None SendAbout, labelItem ''Check for Updates'' None CheckUpdates, menuSeparator] @
     (if platform = ''darwin''
      then [roleItem ''services'' None, menuSeparator, roleItem ''hide'' None, roleItem ''hideOthers'' None, menuSeparator]
      else []) @
     [roleItem ''quit'' None]"

definition editMenuItems :: "string \<Rightarrow> appMenuItem list" where
  "editMenuItems platform =
     (let key = (\<lambda>k. Some (if platform = ''darwin'' then k else []))
      in [roleItem ''undo'' (key ''Command+Z''), roleItem ''redo'' (key ''Command+Shift+Z''), menuSeparator,
          roleItem ''cut'' (key ''Command+X''), roleItem ''copy'' (key ''Command+C''), roleItem ''paste'' (key ''Command+V''),
          roleItem ''pasteAndMatchStyle'' (key ''Command+Shift+V''), roleItem ''delete'' None,
          roleItem ''selectAll'' (key ''Command+A'')])"

definition viewMenuItems :: "appMenuItem list" where
  "viewMenuItems =
     [roleItem ''forceReload'' None, labelItem ''Relaunch All Windows'' None RelaunchWindows, roleItem ''toggleDevTools'' None,
      menuSeparator,
      labelItem ''Actual Size'' (Some ''CommandOrControl+0'') (SetZoom 1),
      labelItem ''Zoom In'' (Some ''CommandOrControl+='') (ChangeZoom (1 / 5)),
      (labelItem ''Zoom In (hidden)'' (Some ''CommandOrControl+Shift+='') (ChangeZoom (1 / 5)))\<lparr>am_visible := False\<rparr>,
      labelItem ''Zoom Out'' (Some ''CommandOrControl+-'') (ChangeZoom (- 1 / 5)),
      menuSeparator, roleItem ''togglefullscreen'' None]"

definition windowMenuItems :: "appMenuItem list" where
  "windowMenuItems =
     [roleItem ''minimize'' (Some []), roleItem ''zoom'' None, menuSeparator, roleItem ''front'' None, menuSeparator,
      roleItem ''window'' None]"

definition getAppMenu :: "string \<Rightarrow> (string \<times> appMenuItem list) list" where
  "getAppMenu platform =
     [(''appMenu'', appMenuItems platform), (''fileMenu'', fileMenuItems), (''editMenu'', editMenuItems platform),
      (''viewMenu'', viewMenuItems), (''windowMenu'', windowMenuItems)]"

text \<open>The zoom of a window after a click.\<close>

definition zoomAfter :: "appClick \<Rightarrow> rat \<Rightarrow> rat" where
  "zoomAfter click factor = (case click of SetZoom f \<Rightarrow> f | ChangeZoom d \<Rightarrow> factor + d | _ \<Rightarrow> factor)"

section \<open>Elements of web views\<close>

definition js_replace_all :: "char \<Rightarrow> string \<Rightarrow> string \<Rightarrow> string" where
  "js_replace_all c r s = concat (map (\<lambda>d. if d = c then r else [d]) s)"

text \<open>The replacements one after the other: backslash, double quote, quote, line feed, carriage return, tab.\<close>

definition escapeSelector :: "string \<Rightarrow> string" where
  "escapeSelector s =
     (let bs = CHR 0x5C in
      js_replace_all (CHR 9) [bs, CHR ''t'']
       (js_replace_all (CHR 13) [bs, CHR ''r'']
         (js_replace_all (CHR 10) [bs, CHR ''n'']
           (js_replace_all (CHR 0x27) [bs, CHR 0x27]
             (js_replace_all (CHR 0x22) [bs, CHR 0x22]
               (js_replace_all bs [bs, bs] s))))))"

record webGetOpts =
  wg_all :: bool
  wg_inner :: bool

text \<open>
  What the expression that is run in the web view contains: the method that is called, the text of
  the double-quoted literal that it is called with, and the property that is taken. \<open>None\<close> without a
  selector. The expression returns a value or the message of an exception.
\<close>

definition webGetSelector :: "string \<Rightarrow> webGetOpts option \<Rightarrow> (string \<times> string \<times> string) option" where
  "webGetSelector selector opts =
     (if selector = [] then None
      else Some
        (if (case opts of None \<Rightarrow> False | Some g \<Rightarrow> wg_all g) then ''querySelectorAll'' else ''querySelector'',
         escapeSelector selector,
         if (case opts of None \<Rightarrow> False | Some g \<Rightarrow> wg_inner g) then ''innerHTML'' else ''outerHTML''))"

definition webGetResult :: "string option \<Rightarrow> string list \<Rightarrow> string + string list" where
  "webGetResult error result = (if isBlank error then Inr result else Inl (the error))"

text \<open>The command \<open>webselector\<close>: which error, or which window and block are asked.\<close>

definition handle_webselector ::
  "string option \<Rightarrow> string option \<Rightarrow> string option \<Rightarrow> string list \<Rightarrow> bool \<Rightarrow> string + string \<times> string" where
  "handle_webselector tabid blockid windowid windows found =
     (if isBlank tabid \<or> isBlank blockid \<or> isBlank windowid then Inl ''tabid and blockid are required''
      else if the windowid \<notin> set windows then Inl (''no window found with id '' @ the windowid)
      else if \<not> found then Inl (''no webcontents found with blockid '' @ the blockid)
      else Inr (the windowid, the blockid))"

text \<open>Requests to the endpoints of the backend carry the key.\<close>

definition injectAuthKey :: "string \<Rightarrow> string \<Rightarrow> string \<Rightarrow> string \<Rightarrow> (string, string) js_map \<Rightarrow> (string, string) js_map" where
  "injectAuthKey web ws authKey url headers =
     (if js_is_prefix (web @ ''/'') url \<or> js_is_prefix (ws @ ''/'') url
      then map_set ''X-AuthKey'' authKey headers else headers)"

section \<open>The selector stays in its literal\<close>

text \<open>
  The text of a double-quoted JavaScript literal and what follows its closing quote: an escape other
  than those of line feed, carriage return and tab stands for its character, except that digits and
  the letters \<open>b f v u x\<close> have other meanings, which are left out; a raw line end is an error.
\<close>

fun readLiteral :: "string \<Rightarrow> (string \<times> string) option" where
  "readLiteral [] = None"
| "readLiteral (c # s) =
     (if c = CHR 0x22 then Some ([], s)
      else if c = CHR 0x5C then
        (case s of
           [] \<Rightarrow> None
         | e # s' \<Rightarrow>
             if isDigit e \<or> e \<in> set ''bfvux'' then None
             else map_option (\<lambda>(t, rest). ((if e = CHR ''n'' then CHR 10 else if e = CHR ''r'' then CHR 13
                    else if e = CHR ''t'' then CHR 9 else e) # t, rest)) (readLiteral s'))
      else if c = CHR 10 \<or> c = CHR 13 then None
      else map_option (\<lambda>(t, rest). (c # t, rest)) (readLiteral s))"

definition escChar :: "char \<Rightarrow> string" where
  "escChar c =
     (if c = CHR 0x5C then [CHR 0x5C, CHR 0x5C] else if c = CHR 0x22 then [CHR 0x5C, CHR 0x22]
      else if c = CHR 0x27 then [CHR 0x5C, CHR 0x27] else if c = CHR 10 then [CHR 0x5C, CHR ''n'']
      else if c = CHR 13 then [CHR 0x5C, CHR ''r''] else if c = CHR 9 then [CHR 0x5C, CHR ''t''] else [c])"

lemma replace_all_simps [simp]:
  "js_replace_all c r [] = []"
  "js_replace_all c r (d # s) = (if d = c then r else [d]) @ js_replace_all c r s"
  "js_replace_all c r (s @ t) = js_replace_all c r s @ js_replace_all c r t"
  by (simp_all add: js_replace_all_def)

text \<open>The replacements in a row are one pass over the characters, since the backslashes come first.\<close>

lemma escapeSelector_chars: "escapeSelector s = concat (map escChar s)"
  by (induction s) (simp_all add: escapeSelector_def escChar_def Let_def)

text \<open>
  C37: the selector cannot leave the literal that it is put into: whatever the selector, its escaped
  text is read back as the selector itself, up to the closing quote, and what comes after the quote
  is untouched.
\<close>

theorem selector_stays_in_its_literal:
  "readLiteral (escapeSelector s @ CHR 0x22 # rest) = Some (s, rest)"
  unfolding escapeSelector_chars by (induction s) (auto simp: escChar_def isDigit_def)

section \<open>The start line is read\<close>

lemma takeWhile_app: "list_all P v \<Longrightarrow> (s \<noteq> [] \<longrightarrow> \<not> P (hd s)) \<Longrightarrow> takeWhile P (v @ s) = v"
  by (induction v) (auto simp: takeWhile_eq_Nil_iff)

lemma group_reads:
  assumes "list_all cls v" "v \<noteq> []" "s \<noteq> [] \<longrightarrow> \<not> cls (hd s)"
  shows "group label cls (label @ v @ s) = Some (v, s)"
  using assms by (simp add: group_def js_is_prefix_def takeWhile_app Let_def)

definition startLine :: "startParams \<Rightarrow> string" where
  "startLine p =
     ''WAVESRV-ESTART ws:'' @ sp_ws p @ '' web:'' @ sp_web p @ '' version:'' @ sp_version p @ '' buildtime:'' @ sp_buildtime p"

definition startable :: "startParams \<Rightarrow> bool" where
  "startable p \<longleftrightarrow>
     list_all isEndpointChar (sp_ws p) \<and> sp_ws p \<noteq> [] \<and> list_all isEndpointChar (sp_web p) \<and> sp_web p \<noteq> [] \<and>
     list_all isVersionChar (sp_version p) \<and> sp_version p \<noteq> [] \<and> list_all isDigit (sp_buildtime p) \<and> sp_buildtime p \<noteq> []"

lemma parseStart_skip: "list_all (\<lambda>c. c \<noteq> CHR ''w'') pre \<Longrightarrow> parseStart (pre @ s) = parseStart s"
  by (induction pre) (simp_all add: matchStart_def group_def js_is_prefix_def)

lemma js_includes_prefix: "js_is_prefix t s \<Longrightarrow> js_includes s t"
  unfolding js_includes_def list_ex_iff by (rule bexI [of _ 0]) simp_all

lemma space_in_no_class: "\<not> isEndpointChar CHR '' ''" "\<not> isVersionChar CHR '' ''" "\<not> isDigit CHR '' ''"
  by (simp_all add: isEndpointChar_def isVersionChar_def isDigit_def)

lemma matchStart_reads:
  assumes "startable p"
  shows "matchStart (''ws:'' @ sp_ws p @ '' web:'' @ sp_web p @ '' version:'' @ sp_version p @ '' buildtime:'' @ sp_buildtime p @ []) = Some p"
proof -
  let ?d = "'' buildtime:'' @ sp_buildtime p @ []" let ?c = "'' version:'' @ sp_version p @ ?d"
  let ?b = "'' web:'' @ sp_web p @ ?c"
  have "group ''ws:'' isEndpointChar (''ws:'' @ sp_ws p @ ?b) = Some (sp_ws p, ?b)"
    by (rule group_reads) (use assms space_in_no_class in \<open>simp_all add: startable_def\<close>)
  moreover have "group '' web:'' isEndpointChar ?b = Some (sp_web p, ?c)"
    by (rule group_reads) (use assms space_in_no_class in \<open>simp_all add: startable_def\<close>)
  moreover have "group '' version:'' isVersionChar ?c = Some (sp_version p, ?d)"
    by (rule group_reads) (use assms space_in_no_class in \<open>simp_all add: startable_def\<close>)
  moreover have "group '' buildtime:'' isDigit ?d = Some (sp_buildtime p, [])"
    by (rule group_reads) (use assms space_in_no_class in \<open>simp_all add: startable_def\<close>)
  ultimately show ?thesis unfolding matchStart_def by (simp only: option.case prod.case) simp
qed

text \<open>
  The line with which the backend announces its endpoints, version and build time is read back
  exactly, provided that they consist of the characters that the pattern allows: lower case letters,
  digits, dots and colons, and for the version dots and hyphens.
\<close>

theorem start_line_is_read:
  assumes "startable p"
  shows "stderrLine (startLine p) = Starts p"
proof -
  have inc: "js_includes (startLine p) ''WAVESRV-ESTART''"
    by (rule js_includes_prefix) (simp add: js_is_prefix_def startLine_def)
  have "startLine p = ''WAVESRV-ESTART '' @
      (''ws:'' @ sp_ws p @ '' web:'' @ sp_web p @ '' version:'' @ sp_version p @ '' buildtime:'' @ sp_buildtime p @ [])"
    by (simp add: startLine_def)
  then have "parseStart (startLine p) =
      parseStart (''ws:'' @ sp_ws p @ '' web:'' @ sp_web p @ '' version:'' @ sp_version p @ '' buildtime:'' @ sp_buildtime p @ [])"
    by (simp only:) (rule parseStart_skip, simp)
  also have "\<dots> = Some p" using matchStart_reads [OF assms] by simp
  finally show ?thesis using inc by (simp add: stderrLine_def)
qed

theorem start_line_is_read_witness:
  "stderrLine (startLine \<lparr>sp_ws = ''127.0.0.1:1719'', sp_web = ''127.0.0.1:1718'', sp_version = ''0.8.10'', sp_buildtime = ''202410''\<rparr>) =
    Starts \<lparr>sp_ws = ''127.0.0.1:1719'', sp_web = ''127.0.0.1:1718'', sp_version = ''0.8.10'', sp_buildtime = ''202410''\<rparr>"
  by (rule start_line_is_read) code_simp

section \<open>Zooming\<close>

text \<open>Zooming out has no lower bound: five clicks from the actual size make the factor zero.\<close>

theorem zoom_out_reaches_zero:
  "((\<lambda>f. zoomAfter (ChangeZoom (- 1 / 5)) f) ^^ 5) (zoomAfter (SetZoom 1) factor) = 0"
  by (simp add: zoomAfter_def numeral_eq_Suc)

end
