(* ===== verification/EmainStart.thy ===== *)
theory EmainStart
  imports EmainWindows EmainApp Util
begin

text \<open>
  How the main process starts and stops (emain/emain.ts, \<open>appMain\<close> and what it waits for): the single
  instance, the backend process and the lines with which it reports, Electron, the windows, the
  updater, and the signals and exceptions that end it. Every \<open>await\<close> of \<open>appMain\<close> is a phase; what ends
  it is an event, as are the lines of the backend and what the menu and the pages ask for, at any
  time. Whoever opens a window asks the backend first (store/wos.ts, \<open>callBackendService\<close>): the request
  goes to the address that util/endpoints.ts keeps from its first use, and the backend checks the key
  (pkg/web/web.go, pkg/authkey/authkey.go). The answers of one handler are taken as immediate.
\<close>

datatype appPhase =
    NotBegun
  | AwaitSpawn
  | AwaitBackend                     \<comment> \<open>the line of the backend\<close>
  | AwaitElectron
  | AwaitWindows
  | AwaitUpdater
  | AppRunning
  | AppEnded                         \<comment> \<open>another instance has the lock\<close>

record appMain =
  am_phase :: appPhase
  am_main :: mainState
  am_srv :: srvState
  am_electronReady :: bool
  am_homeMade :: bool
  am_menu :: bool
  am_authKey :: bool                 \<comment> \<open>requests carry the key\<close>
  am_timer :: bool
  am_wsh :: bool
  am_caught :: bool
  am_webEndpoint :: "string option"  \<comment> \<open>what \<open>getWebServerEndpoint\<close> has kept\<close>

definition newAppMain :: appMain where
  "newAppMain =
     \<lparr>am_phase = NotBegun, am_main = newMainState, am_srv = newSrvState, am_electronReady = False, am_homeMade = False,
      am_menu = False, am_authKey = False, am_timer = False, am_wsh = False, am_caught = False,
      am_webEndpoint = None\<rparr>"

definition quitApp :: "appMain \<Rightarrow> appMain" where
  "quitApp a = a\<lparr>am_main := mainCall1 QuitApp (am_main a)\<rparr>"

definition appMainBegins :: "bool \<Rightarrow> bool \<Rightarrow> appMain \<Rightarrow> appMain" where
  "appMainBegins instanceLock homeExists a =
     (if am_phase a \<noteq> NotBegun then a
      else if \<not> instanceLock then (quitApp a)\<lparr>am_phase := AppEnded\<rparr>
      else a\<lparr>am_homeMade := \<not> homeExists, am_menu := True, am_phase := AwaitSpawn\<rparr>)"

section \<open>Asking the backend\<close>

text \<open>The address of the services, which is built on the first call and kept.\<close>

definition webEndpointOf :: "srvState \<Rightarrow> string" where
  "webEndpointOf s = ''http://'' @ (case sv_webEndpoint s of None \<Rightarrow> ''undefined'' | Some e \<Rightarrow> e)"

definition getWebServerEndpoint :: "appMain \<Rightarrow> string \<times> appMain" where
  "getWebServerEndpoint a =
     (let (u, st) = lazyCall (\<lambda>s. (webEndpointOf s, s)) (am_webEndpoint a, am_srv a)
      in (u, a\<lparr>am_webEndpoint := fst st\<rparr>))"

text \<open>The backend: at which addresses it listens, and its key; and the check of the header of a request.\<close>

record backendProc =
  bk_listens :: "string \<Rightarrow> bool"
  bk_key :: string

definition ValidateIncomingRequest :: "string \<Rightarrow> string option \<Rightarrow> bool" where
  "ValidateIncomingRequest authkey header =
     (case header of None \<Rightarrow> False | Some k \<Rightarrow> k \<noteq> [] \<and> k = authkey)"

definition callBackendService :: "backendProc \<Rightarrow> appMain \<Rightarrow> bool \<times> appMain" where
  "callBackendService bk a =
     (let (u, a) = getWebServerEndpoint a
      in (bk_listens bk u \<and> ValidateIncomingRequest (bk_key bk) (if am_authKey a then Some (bk_key bk) else None), a))"

text \<open>What the backend has to answer: the windows of the client, their data, and a new one.\<close>

record reply =
  rp_windowids :: "string list"
  rp_getObject :: "string \<Rightarrow> waveWindow option"
  rp_newWindow :: waveWindow

section \<open>Events of the windows\<close>

fun asksBackend :: "mainEvent \<Rightarrow> bool" where
  "asksBackend (BackendNew _) = True"
| "asksBackend (NewWindow _ _ _) = True"
| "asksBackend (Relaunch _ _) = True"
| "asksBackend _ = False"

text \<open>Relaunching closes the windows before it asks; the other handlers do nothing when they get no answer.\<close>

definition unanswered :: "mainEvent \<Rightarrow> mainState \<Rightarrow> mainState" where
  "unanswered ev m = (case ev of Relaunch _ _ \<Rightarrow> m\<lparr>ms_windows := [], ms_isRelaunching := False\<rparr> | _ \<Rightarrow> m)"

definition mainEventArrives :: "backendProc \<Rightarrow> string \<Rightarrow> mainEvent \<Rightarrow> appMain \<Rightarrow> appMain" where
  "mainEventArrives bk unamePlatform ev a =
     (if asksBackend ev then
        (let (ok, a) = callBackendService bk a
         in a\<lparr>am_main := (if ok then mainStep unamePlatform ev (am_main a) else unanswered ev (am_main a))\<rparr>)
      else a\<lparr>am_main := mainStep unamePlatform ev (am_main a)\<rparr>)"

text \<open>An event that the backend writes.\<close>

definition handleWSEvent :: "backendProc \<Rightarrow> string \<Rightarrow> reply \<Rightarrow> json \<Rightarrow> appMain \<Rightarrow> appMain" where
  "handleWSEvent bk unamePlatform rp evtMsg a =
     (let eventtype = getProp evtMsg ''eventtype'';
          dataId = (case getProp evtMsg ''data'' of JStr i \<Rightarrow> Some i | _ \<Rightarrow> None)
      in if eventtype = JStr ''electron:newwindow'' then
           mainEventArrives bk unamePlatform (BackendNew (Option.bind dataId (rp_getObject rp))) a
         else if eventtype = JStr ''electron:closewindow'' then mainEventArrives bk unamePlatform (BackendClose dataId) a
         else a)"

section \<open>Starting\<close>

text \<open>A phase that is waited for may be over already. Then the key is put into requests to the kept address.\<close>

definition electronWaited :: "appMain \<Rightarrow> appMain" where
  "electronWaited a =
     (if am_phase a = AwaitElectron \<and> am_electronReady a
      then (snd (getWebServerEndpoint a))\<lparr>am_authKey := True, am_phase := AwaitWindows\<rparr> else a)"

definition backendWaited :: "appMain \<Rightarrow> appMain" where
  "backendWaited a =
     (if am_phase a = AwaitBackend \<and> sv_ready (am_srv a) then electronWaited (a\<lparr>am_phase := AwaitElectron\<rparr>) else a)"

text \<open>The process of the backend was started, or not, which is only logged.\<close>

definition spawnEnded :: "bool \<Rightarrow> appMain \<Rightarrow> appMain" where
  "spawnEnded ok a = (if am_phase a = AwaitSpawn then backendWaited (a\<lparr>am_phase := AwaitBackend\<rparr>) else a)"

text \<open>A line of the backend: its addresses, or an event, of which \<open>parse\<close> is \<open>JSON.parse\<close>.\<close>

definition stderrArrives ::
  "backendProc \<Rightarrow> (string \<Rightarrow> json option) \<Rightarrow> string \<Rightarrow> reply \<Rightarrow> string \<Rightarrow> appMain \<Rightarrow> appMain" where
  "stderrArrives bk parse unamePlatform rp line a =
     (let a = a\<lparr>am_srv := onStderrLine line (am_srv a)\<rparr>
      in case stderrLine line of
           BadStart \<Rightarrow> quitApp a
         | SrvEvent e \<Rightarrow> (case parse e of None \<Rightarrow> a | Some evtMsg \<Rightarrow> handleWSEvent bk unamePlatform rp evtMsg a)
         | Starts _ \<Rightarrow> backendWaited a
         | JustLogged \<Rightarrow> a)"

definition electronIsReady :: "appMain \<Rightarrow> appMain" where
  "electronIsReady a = electronWaited (a\<lparr>am_electronReady := True\<rparr>)"

text \<open>
  The windows of the client are opened; then the timer starts and the message system is set up. If the
  backend does not answer, \<open>appMain\<close> fails and the application quits.
\<close>

definition windowsOpened :: "backendProc \<Rightarrow> string \<Rightarrow> reply \<Rightarrow> appMain \<Rightarrow> appMain" where
  "windowsOpened bk unamePlatform rp a =
     (if am_phase a = AwaitWindows
      then (let ok = fst (callBackendService bk a);
                a = mainEventArrives bk unamePlatform (Relaunch (rp_windowids rp) (rp_getObject rp)) a
            in if ok then a\<lparr>am_timer := True, am_wsh := True, am_phase := AwaitUpdater\<rparr>
               else (quitApp a)\<lparr>am_phase := AppEnded\<rparr>)
      else a)"

definition updaterConfigured :: "appMain \<Rightarrow> appMain" where
  "updaterConfigured a =
     (if am_phase a = AwaitUpdater then a\<lparr>am_main := (am_main a)\<lparr>ms_isStarting := False\<rparr>, am_phase := AppRunning\<rparr> else a)"

text \<open>The icon of the running application is clicked.\<close>

definition activated :: "backendProc \<Rightarrow> string \<Rightarrow> reply \<Rightarrow> appMain \<Rightarrow> appMain" where
  "activated bk unamePlatform rp a =
     (if am_phase a = AppRunning \<and> ms_windows (am_main a) = []
      then mainEventArrives bk unamePlatform (NewWindow (rp_windowids rp) (rp_getObject rp) (rp_newWindow rp)) a else a)"

text \<open>The two handlers of an exception, of which only the first has a guard.\<close>

definition guardedHandler :: "appMain \<Rightarrow> appMain" where
  "guardedHandler a = (if am_caught a then a else quitApp (a\<lparr>am_caught := True\<rparr>))"

definition unguardedHandler :: "appMain \<Rightarrow> appMain" where
  "unguardedHandler a = quitApp a"

definition uncaughtException :: "appMain \<Rightarrow> appMain" where
  "uncaughtException a = unguardedHandler (guardedHandler a)"

text \<open>
  An awaited step fails: the application quits and the rest of the start does not happen. The windows that
  were created before a failure while relaunching, those for \<open>handled\<close>, stay, but are not shown.
\<close>

definition appMainFails :: "backendProc \<Rightarrow> string list \<Rightarrow> (string \<Rightarrow> waveWindow option) \<Rightarrow> appMain \<Rightarrow> appMain" where
  "appMainFails bk handled getObject a =
     (if am_phase a = AwaitWindows then
        (let (ok, a) = callBackendService bk a;
             m = unanswered (Relaunch [] getObject) (am_main a);
             m = (if ok then snd (reopenWindows getObject handled m) else m)
         in (quitApp (a\<lparr>am_main := m\<rparr>))\<lparr>am_phase := AppEnded\<rparr>)
      else if am_phase a = AwaitUpdater then (quitApp a)\<lparr>am_phase := AppEnded\<rparr> else a)"

datatype appEvent =
    Begin bool bool
  | SpawnEnded bool
  | StderrLine string reply
  | ElectronReady
  | WindowsOpened reply
  | UpdaterConfigured
  | Activated reply
  | Signal                                      \<comment> \<open>\<open>SIGINT\<close>, \<open>SIGHUP\<close> or \<open>SIGTERM\<close>\<close>
  | Uncaught
  | StepFails "string list" "string \<Rightarrow> waveWindow option"
  | MainEvent mainEvent                         \<comment> \<open>of a window, the menu, a page or the backend, at any time\<close>

definition appStep :: "backendProc \<Rightarrow> (string \<Rightarrow> json option) \<Rightarrow> string \<Rightarrow> appEvent \<Rightarrow> appMain \<Rightarrow> appMain" where
  "appStep bk parse unamePlatform e a =
     (case e of
        Begin lock home \<Rightarrow> appMainBegins lock home a
      | SpawnEnded ok \<Rightarrow> spawnEnded ok a
      | StderrLine line rp \<Rightarrow> stderrArrives bk parse unamePlatform rp line a
      | ElectronReady \<Rightarrow> electronIsReady a
      | WindowsOpened rp \<Rightarrow> windowsOpened bk unamePlatform rp a
      | UpdaterConfigured \<Rightarrow> updaterConfigured a
      | Activated rp \<Rightarrow> activated bk unamePlatform rp a
      | Signal \<Rightarrow> quitApp a
      | Uncaught \<Rightarrow> uncaughtException a
      | StepFails handled get \<Rightarrow> appMainFails bk handled get a
      | MainEvent ev \<Rightarrow> mainEventArrives bk unamePlatform ev a)"

section \<open>Properties\<close>

definition startOk :: "backendProc \<Rightarrow> appMain \<Rightarrow> bool" where
  "startOk bk a \<longleftrightarrow>
     (am_phase a \<in> {AwaitElectron, AwaitWindows, AwaitUpdater, AppRunning} \<longrightarrow> sv_ready (am_srv a)) \<and>
     (am_phase a \<in> {AwaitWindows, AwaitUpdater, AppRunning} \<longrightarrow> am_authKey a) \<and>
     (am_authKey a \<longrightarrow> sv_ready (am_srv a) \<and> am_electronReady a) \<and>
     (ms_windows (am_main a) \<noteq> [] \<longrightarrow> am_authKey a \<and> (\<exists>u. am_webEndpoint a = Some u \<and> bk_listens bk u))"

lemma ready_stays: "sv_ready s \<Longrightarrow> sv_ready (onStderrLine l s)"
  by (simp add: onStderrLine_def split: srvLine.split)

lemma quitApp_keeps [simp]:
  "startOk bk (quitApp a) = startOk bk a" "am_phase (quitApp a) = am_phase a" "am_srv (quitApp a) = am_srv a"
  by (simp_all add: quitApp_def startOk_def mainCall1_def)

text \<open>Asking for the address keeps the one that was kept, and fixes it otherwise.\<close>

lemma endpoint_kept:
  "getWebServerEndpoint a =
    (case am_webEndpoint a of Some u \<Rightarrow> (u, a)
     | None \<Rightarrow> (webEndpointOf (am_srv a), a\<lparr>am_webEndpoint := Some (webEndpointOf (am_srv a))\<rparr>))"
  by (cases a) (simp add: getWebServerEndpoint_def lazyCall_def split: option.split)

lemma call_spec:
  assumes "callBackendService bk a = (ok, a')"
  shows "am_phase a' = am_phase a" "am_srv a' = am_srv a" "am_main a' = am_main a" "am_authKey a' = am_authKey a"
    "am_electronReady a' = am_electronReady a" "\<exists>u. am_webEndpoint a' = Some u \<and> (ok \<longrightarrow> bk_listens bk u)"
    "am_webEndpoint a = Some u \<Longrightarrow> am_webEndpoint a' = Some u" "ok \<Longrightarrow> am_authKey a"
  using assms by (auto simp: callBackendService_def endpoint_kept ValidateIncomingRequest_def split: option.splits if_splits)

lemma call_ok: "startOk bk a \<Longrightarrow> callBackendService bk a = (ok, a') \<Longrightarrow> startOk bk a'"
  using call_spec by (fastforce simp: startOk_def)

lemma closing_only_removes:
  "\<not> asksBackend ev \<Longrightarrow> ms_windows m = [] \<Longrightarrow> ms_windows (mainStep p ev m) = []"
  by (cases ev) (auto simp: mainStep_def closeRequested_def closeWindowEvent_def windowFocused_def inputInWindow_def
      mainResizeHandler_def fullScreenChanged_def beforeQuit_def waveSrvExited_def logActiveState_def Let_def split: option.split)

lemma mainEvent_ok:
  assumes "startOk bk a"
  shows "startOk bk (mainEventArrives bk p ev a)"
proof (cases "asksBackend ev")
  case False
  then show ?thesis
    using assms closing_only_removes [of ev "am_main a" p] by (auto simp: mainEventArrives_def startOk_def)
next
  case True
  obtain ok a' where c: "callBackendService bk a = (ok, a')" by fastforce
  note s = call_spec [OF c]
  have "startOk bk a'" using call_ok [OF assms c] .
  moreover have "ok \<Longrightarrow> am_authKey a' \<and> (\<exists>u. am_webEndpoint a' = Some u \<and> bk_listens bk u)" using s(4,6,8) by auto
  moreover have "ms_windows (unanswered ev (am_main a')) \<noteq> [] \<Longrightarrow> ms_windows (am_main a') \<noteq> []"
    by (auto simp: unanswered_def split: mainEvent.splits)
  ultimately show ?thesis using True c by (cases ok) (auto simp: mainEventArrives_def startOk_def)
qed

lemma electronWaited_ok: "startOk bk a \<Longrightarrow> startOk bk (electronWaited a)"
  by (auto simp: startOk_def electronWaited_def endpoint_kept split: option.split)

lemma backendWaited_ok:
  assumes a: "startOk bk a"
  shows "startOk bk (backendWaited a)"
proof -
  have "startOk bk (electronWaited (a\<lparr>am_phase := AwaitElectron\<rparr>))" if "am_phase a = AwaitBackend" "sv_ready (am_srv a)"
    using a that by (intro electronWaited_ok) (auto simp: startOk_def)
  with a show ?thesis by (simp add: backendWaited_def)
qed

lemma stderr_ok:
  assumes a: "startOk bk a"
  shows "startOk bk (stderrArrives bk parse p rp l a)"
proof -
  have "startOk bk (a\<lparr>am_srv := onStderrLine l (am_srv a)\<rparr>)"
    using a ready_stays [of "am_srv a" l] by (auto simp: startOk_def)
  then show ?thesis
    using backendWaited_ok mainEvent_ok by (simp add: stderrArrives_def handleWSEvent_def Let_def split: srvLine.split option.split)
qed

lemma startOk_phase:
  assumes "startOk bk a"
  shows "am_authKey a \<Longrightarrow> startOk bk (a\<lparr>am_phase := ph\<rparr>)" "startOk bk (a\<lparr>am_phase := AppEnded\<rparr>)"
    "startOk bk (a\<lparr>am_timer := x, am_wsh := y\<rparr>)"
  using assms by (simp_all add: startOk_def)

lemma mainEvent_phase: "am_phase (mainEventArrives bk p ev a) = am_phase a"
proof -
  obtain ok a' where c: "callBackendService bk a = (ok, a')" by fastforce
  show ?thesis using call_spec(1) [OF c] by (simp add: mainEventArrives_def c)
qed

lemma windowsOpened_ok:
  assumes a: "startOk bk a"
  shows "startOk bk (windowsOpened bk p rp a)"
proof -
  define a' where "a' = mainEventArrives bk p (Relaunch (rp_windowids rp) (rp_getObject rp)) a"
  have a': "startOk bk a'" unfolding a'_def by (rule mainEvent_ok [OF a])
  have "am_phase a = AwaitWindows \<Longrightarrow> am_authKey a'"
    using a' mainEvent_phase [of bk p _ a] by (simp add: startOk_def a'_def)
  then have "am_phase a = AwaitWindows \<Longrightarrow> startOk bk (a'\<lparr>am_timer := True, am_wsh := True, am_phase := AwaitUpdater\<rparr>)"
    using startOk_phase(1) [OF startOk_phase(3) [OF a', of True True]] by simp
  moreover have "startOk bk ((quitApp a')\<lparr>am_phase := AppEnded\<rparr>)" using a' by (intro startOk_phase) simp
  ultimately show ?thesis using a by (simp add: windowsOpened_def a'_def [symmetric] Let_def)
qed

lemma fails_ok:
  assumes a: "startOk bk a"
  shows "startOk bk (appMainFails bk handled get a)"
proof -
  obtain ok a' where c: "callBackendService bk a = (ok, a')" by fastforce
  have "startOk bk a'" "ok \<Longrightarrow> am_authKey a' \<and> (\<exists>u. am_webEndpoint a' = Some u \<and> bk_listens bk u)"
    using call_ok [OF a c] call_spec(4,6,8) [OF c] by auto
  then show ?thesis
    using a by (auto simp: appMainFails_def c startOk_def quitApp_def mainCall1_def unanswered_def Let_def)
qed

lemma appStep_ok:
  assumes a: "startOk bk a"
  shows "startOk bk (appStep bk parse p e a)"
proof (cases e)
  case (SpawnEnded ok)
  have "startOk bk (a\<lparr>am_phase := AwaitBackend\<rparr>)" if "am_phase a = AwaitSpawn" using a that by (auto simp: startOk_def)
  then show ?thesis using a SpawnEnded backendWaited_ok by (simp add: appStep_def spawnEnded_def)
next
  case ElectronReady
  have "startOk bk (a\<lparr>am_electronReady := True\<rparr>)" using a by (auto simp: startOk_def)
  then show ?thesis using ElectronReady electronWaited_ok by (simp add: appStep_def electronIsReady_def)
next
  case (Begin lock home)
  then show ?thesis using a by (auto simp: appStep_def appMainBegins_def startOk_def quitApp_def mainCall1_def)
next
  case UpdaterConfigured
  then show ?thesis using a by (auto simp: appStep_def updaterConfigured_def startOk_def)
next
  case Uncaught
  then show ?thesis
    using a by (auto simp: appStep_def uncaughtException_def guardedHandler_def unguardedHandler_def startOk_def quitApp_def mainCall1_def)
qed (use a in \<open>simp_all add: appStep_def activated_def stderr_ok windowsOpened_ok fails_ok mainEvent_ok\<close>)

lemma run_ok: "startOk bk (fold (appStep bk parse p) es newAppMain)"
proof -
  have "startOk bk a \<Longrightarrow> startOk bk (fold (appStep bk parse p) es a)" for a
    by (induction es arbitrary: a) (simp_all add: appStep_ok)
  moreover have "startOk bk newAppMain" by (simp add: startOk_def newAppMain_def newMainState_def)
  ultimately show ?thesis by blast
qed

text \<open>
  C39: no window is opened before the backend has reported its addresses, Electron is ready and requests
  carry the key, whoever asks for it and in whatever order things happen: the start, the menu, a page, or a
  line of the backend. The backend answers no request without the key, so a window that is open was answered
  for by a backend that listens at the address that the process keeps.
\<close>

theorem windows_wait_for_the_backend:
  fixes es :: "appEvent list" and bk :: backendProc and parse :: "string \<Rightarrow> json option" and unamePlatform :: string
  defines "a \<equiv> fold (appStep bk parse unamePlatform) es newAppMain"
  assumes "ms_windows (am_main a) \<noteq> []"
  shows "sv_ready (am_srv a) \<and> am_electronReady a \<and> am_authKey a \<and>
    (\<exists>u. am_webEndpoint a = Some u \<and> bk_listens bk u)"
  using run_ok [of bk parse unamePlatform es] assms(2) unfolding a_def startOk_def by blast

text \<open>
  When the backend cannot be started, the application neither opens a window nor quits: it waits
  for a line that never comes, until something outside ends it.
\<close>

fun duringHang :: "appEvent \<Rightarrow> bool" where
  "duringHang (StderrLine _ _) = False"
| "duringHang Signal = False"
| "duringHang Uncaught = False"
| "duringHang (MainEvent ev) = asksBackend ev"
| "duringHang _ = True"

lemma keyless_unanswered: "\<not> am_authKey a \<Longrightarrow> \<not> fst (callBackendService bk a)"
  using call_spec(8) by (metis prod.collapse)

theorem failed_spawn_hangs:
  fixes home :: bool and bk :: backendProc and parse :: "string \<Rightarrow> json option" and p :: string
  assumes "list_all duringHang es"
  defines "a \<equiv> fold (appStep bk parse p) (Begin True home # SpawnEnded False # es) newAppMain"
  shows "am_phase a = AwaitBackend \<and> ms_windows (am_main a) = [] \<and> ms_calls (am_main a) = []"
proof -
  define hung :: "appMain \<Rightarrow> bool" where
    "hung = (\<lambda>a. am_phase a = AwaitBackend \<and> \<not> sv_ready (am_srv a) \<and> \<not> am_authKey a \<and> am_main a = newMainState)"
  have ask: "hung (mainEventArrives bk p ev a)" if "asksBackend ev" "hung a" for ev a
  proof -
    obtain ok a' where c: "callBackendService bk a = (ok, a')" by fastforce
    have "unanswered ev newMainState = newMainState"
      by (auto simp: unanswered_def newMainState_def split: mainEvent.split)
    then show ?thesis
      using that c keyless_unanswered [of a bk] call_spec(1-4) [OF c] by (simp add: hung_def mainEventArrives_def)
  qed
  have step: "hung (appStep bk parse p e a)" if "duringHang e" "hung a" for e a
    using that ask by (cases e) (auto simp: hung_def appStep_def appMainBegins_def spawnEnded_def electronIsReady_def electronWaited_def
        windowsOpened_def updaterConfigured_def activated_def appMainFails_def)
  have "hung (fold (appStep bk parse p) es b)" if "hung b" for b
    using that assms(1) by (induction es arbitrary: b) (simp_all add: step)
  moreover have "hung (appStep bk parse p (SpawnEnded False) (appStep bk parse p (Begin True home) newAppMain))"
    by (simp add: hung_def appStep_def appMainBegins_def spawnEnded_def backendWaited_def newAppMain_def newSrvState_def)
  ultimately have "hung a" by (simp add: a_def)
  then show ?thesis by (simp add: hung_def newMainState_def)
qed

theorem failed_spawn_hangs_witness:
  "ms_calls (am_main (fold (appStep bk parse p) [Begin True False, SpawnEnded False, ElectronReady] newAppMain)) = []"
  using failed_spawn_hangs [of "[ElectronReady]" bk parse p False] by simp

text \<open>
  A window that is asked for before the backend has reported spoils the start: the address without a host is
  kept, so no request is ever answered, no window ever opens and the start does not get past opening them.
\<close>

lemma spoiled_call:
  assumes "am_webEndpoint a = Some u" "\<not> bk_listens bk u"
  shows "callBackendService bk a = (False, a)"
  using assms by (simp add: callBackendService_def endpoint_kept)

definition spoiled :: "backendProc \<Rightarrow> appMain \<Rightarrow> bool" where
  "spoiled bk a \<longleftrightarrow> (\<exists>u. am_webEndpoint a = Some u \<and> \<not> bk_listens bk u) \<and> ms_windows (am_main a) = [] \<and>
     am_phase a \<notin> {AwaitUpdater, AppRunning}"

lemma spoiled_mainEvent: "spoiled bk a \<Longrightarrow> spoiled bk (mainEventArrives bk p ev a)"
  using closing_only_removes [of ev "am_main a" p]
  by (auto simp: spoiled_def mainEventArrives_def spoiled_call unanswered_def split: mainEvent.split)

lemma spoiled_waits:
  "spoiled bk a \<Longrightarrow> spoiled bk (electronWaited a)" "spoiled bk a \<Longrightarrow> spoiled bk (backendWaited a)"
  by (auto simp: spoiled_def electronWaited_def backendWaited_def endpoint_kept)

lemma spoiled_quit [simp]: "spoiled bk (quitApp a) = spoiled bk a"
  by (simp add: spoiled_def quitApp_def mainCall1_def)

lemma spoiled_update [simp]:
  "spoiled bk (a\<lparr>am_srv := s\<rparr>) = spoiled bk a" "spoiled bk (a\<lparr>am_electronReady := b\<rparr>) = spoiled bk a"
  "spoiled bk (a\<lparr>am_caught := b\<rparr>) = spoiled bk a"
  by (simp_all add: spoiled_def)

lemma spoiled_step:
  assumes "spoiled bk a"
  shows "spoiled bk (appStep bk parse p e a)"
proof (cases e)
  case (Begin lock home)
  then show ?thesis using assms by (auto simp: spoiled_def appStep_def appMainBegins_def quitApp_def mainCall1_def)
next
  case (SpawnEnded ok)
  have "spoiled bk (a\<lparr>am_phase := AwaitBackend\<rparr>)" using assms by (auto simp: spoiled_def)
  then show ?thesis using assms SpawnEnded spoiled_waits by (simp add: appStep_def spawnEnded_def)
next
  case (StderrLine l rp)
  then show ?thesis
    using assms spoiled_waits spoiled_mainEvent
    by (simp add: appStep_def stderrArrives_def handleWSEvent_def Let_def split: srvLine.split option.split)
next
  case (WindowsOpened rp)
  have "spoiled bk (mainEventArrives bk p ev a)" for ev using spoiled_mainEvent [OF assms] .
  moreover have "\<not> fst (callBackendService bk a)" using assms spoiled_call by (auto simp: spoiled_def)
  ultimately show ?thesis
    using assms WindowsOpened by (auto simp: appStep_def windowsOpened_def Let_def) (auto simp: spoiled_def quitApp_def mainCall1_def)
next
  case (StepFails handled get)
  then show ?thesis
    using assms spoiled_call [of a _ bk]
    by (auto simp: spoiled_def appStep_def appMainFails_def unanswered_def quitApp_def mainCall1_def Let_def)
next
  case Uncaught
  then show ?thesis using assms by (simp add: appStep_def uncaughtException_def guardedHandler_def unguardedHandler_def)
next
  case UpdaterConfigured
  then show ?thesis using assms by (auto simp: appStep_def updaterConfigured_def spoiled_def)
next
  case (Activated rp)
  then show ?thesis using assms by (auto simp: appStep_def activated_def spoiled_def)
qed (use assms in \<open>simp_all add: appStep_def electronIsReady_def spoiled_waits spoiled_mainEvent\<close>)

theorem early_request_spoils_the_start:
  fixes home :: bool and bk :: backendProc and parse :: "string \<Rightarrow> json option" and p :: string
    and es :: "appEvent list" and ev :: mainEvent
  assumes "\<not> bk_listens bk ''http://undefined''" "asksBackend ev"
  defines "a \<equiv> fold (appStep bk parse p) (Begin True home # MainEvent ev # es) newAppMain"
  shows "ms_windows (am_main a) = [] \<and> am_phase a \<notin> {AwaitUpdater, AppRunning}"
proof -
  define b where "b = appStep bk parse p (Begin True home) newAppMain"
  have b: "am_webEndpoint b = None" "am_srv b = newSrvState" "am_phase b = AwaitSpawn" "am_main b = newMainState" "\<not> am_authKey b"
    by (simp_all add: b_def appStep_def appMainBegins_def newAppMain_def)
  have "spoiled bk (appStep bk parse p (MainEvent ev) b)"
    using assms(1,2) b
    by (auto simp: appStep_def mainEventArrives_def callBackendService_def endpoint_kept webEndpointOf_def newSrvState_def
        spoiled_def unanswered_def newMainState_def ValidateIncomingRequest_def split: mainEvent.split)
  moreover have "spoiled bk (fold (appStep bk parse p) es c)" if "spoiled bk c" for c
    using that by (induction es arbitrary: c) (simp_all add: spoiled_step)
  ultimately have "spoiled bk a" by (simp add: a_def b_def)
  then show ?thesis by (simp add: spoiled_def)
qed

theorem early_request_spoils_the_start_witness:
  "ms_windows (am_main (fold (appStep \<lparr>bk_listens = (\<lambda>u. u = ''http://b''), bk_key = ''k''\<rparr> (\<lambda>_. None) ''darwin'')
     [Begin True True, MainEvent (BackendNew None), SpawnEnded True] newAppMain)) = []"
  using early_request_spoils_the_start [of "\<lparr>bk_listens = (\<lambda>u. u = ''http://b''), bk_key = ''k''\<rparr>" "BackendNew None"
      "\<lambda>_. None" "''darwin''" True "[SpawnEnded True]"] by simp

text \<open>Every exception quits once more: the guard of the first handler does not hold back the second.\<close>

theorem every_exception_quits:
  "length (ms_calls (am_main ((uncaughtException ^^ n) a))) \<ge> length (ms_calls (am_main a)) + n"
  by (induction n) (auto simp: uncaughtException_def guardedHandler_def unguardedHandler_def quitApp_def mainCall1_def Let_def)

definition demoReply :: reply where
  "demoReply =
     \<lparr>rp_windowids = [''w''], rp_getObject = (\<lambda>i. Some \<lparr>ww_oid = i, ww_pos = (0, 0), ww_size = None\<rparr>),
      rp_newWindow = \<lparr>ww_oid = ''n'', ww_pos = (0, 0), ww_size = None\<rparr>\<rparr>"

definition demoBackend :: backendProc where
  "demoBackend = \<lparr>bk_listens = (\<lambda>u. u = ''http://b''), bk_key = ''k''\<rparr>"

definition demoStarts :: "appEvent list" where
  "demoStarts =
     [Begin True True, StderrLine ''WAVESRV-ESTART ws:a web:b version:c buildtime:1'' demoReply, ElectronReady,
      SpawnEnded True, WindowsOpened demoReply]"

theorem windows_wait_for_the_backend_witness:
  "ms_windows (am_main (fold (appStep demoBackend (\<lambda>_. None) ''darwin'') demoStarts newAppMain)) = [''w''] \<and>
    am_authKey (fold (appStep demoBackend (\<lambda>_. None) ''darwin'') demoStarts newAppMain)"
proof -
  have "ms_windows (am_main (fold (appStep demoBackend (\<lambda>_. None) ''darwin'') demoStarts newAppMain)) = [''w'']" by code_simp
  with windows_wait_for_the_backend [of demoBackend "\<lambda>_. None" "''darwin''" demoStarts] show ?thesis by simp
qed

end
