(* ===== verification/Spec2Isabelle.thy ===== *)
theory Spec2Isabelle
  imports LayoutModelProps LayoutGeometryProps LayoutTyping LayoutPass LayoutResize IJsonProps HistoryUtil UiModels
    FileSubjects Broker WshRouter WshClient RpcSystem WsProps WosProps FontUtil KeyProps Startup AppShell
    BlockShell BlockHeader ConnSwitch TabBar Dialogs Elements ElementTrees TermWrap TermView Preview
    DirPreview ContentViews WebView ViewHeaders WaveAi ChatView CpuPlot Base64 Updater EmainStart EmainWindows
    EmainApp
begin

text \<open>
  A model of the frontend of Wave Terminal: the TypeScript code under frontend/ (the pages in a
  window, written with React and the atoms of jotai) and emain/ (the main process of Electron). The
  definitions follow the source function by function and keep its names; the theorems say what makes
  each part correct, and where the code does not do what it means to, a theorem shows that.

  \<^bold>\<open>The program\<close>

  A window shows one tab of a workspace. The blocks of a tab (terminals, previews, web pages, chats,
  plots) are the leaves of a \<^emph>\<open>tile layout\<close>, a tree of rows and columns with sizes, which the user
  rearranges by dragging tiles and handles and with the keys. Everything persistent is a \<^emph>\<open>wave object\<close>
  with a version that the backend, a program in Go, holds; the window caches them, and the layout of a
  tab is one of them. The window talks to the backend over a \<^emph>\<open>websocket\<close>, on which a \<^emph>\<open>router\<close> sends
  the messages of \<^emph>\<open>rpc clients\<close> and \<^emph>\<open>events\<close> to their subscribers. A key goes from the page or the main
  process to the global bindings and then to the block that has the focus. The main process starts
  the backend, opens and restores the windows and updates the application.

  \<^bold>\<open>Theories and the files they model\<close>

  Shared: \<open>Prelude\<close> (errors, state passing, arrays and maps of the language), \<open>JsNumber\<close> (numbers), \<open>Json\<close>
  and \<open>IJson\<close> (util/util.ts, util/ijson.ts), \<open>Util\<close> and \<open>Base64\<close> (util/util.ts), \<open>RefCount\<close> (an interface).

  The tile layout (frontend/layout/lib): \<open>LayoutTypes\<close> is types.ts and the store of nodes, \<open>LayoutNode\<close>
  layoutNode.ts, \<open>LayoutUtils\<close> utils.ts, \<open>LayoutTree\<close> the operations of layoutTree.ts; \<open>LayoutGeometry\<close>,
  \<open>LayoutModel\<close> and \<open>LayoutView\<close> are the class of layoutModel.ts with layoutAtom.ts: rectangles, the
  reducer and the pending action, focus, resizing and persistence, and what the views read of it;
  \<open>TileLayout\<close> is the component with its drag handlers (TileLayout.tsx, nodeRefMap.ts). Their properties
  are in \<open>LayoutSpec\<close>, the abstract tree with the relation to the store, in \<open>LayoutEdit\<close>, \<open>LayoutInsert\<close>,
  \<open>LayoutBalance\<close>, \<open>LayoutSwap\<close>, \<open>LayoutWrap\<close> and \<open>LayoutMove\<close>, which show that each operation on the store
  implements one on trees, and in \<open>LayoutProps\<close>, \<open>LayoutTyping\<close>, \<open>LayoutGeometryProps\<close>, \<open>LayoutGeneration\<close>,
  \<open>LayoutModelProps\<close>, \<open>LayoutPass\<close> and \<open>LayoutResize\<close>, which draw the conclusions.

  Messages (frontend/app/store): \<open>RpcTypes\<close> (types/gotypes.d.ts), \<open>Wps\<close> and \<open>FileSubjects\<close> (wps.ts), with their
  other half in the backend, \<open>Broker\<close> (pkg/wps/wps.go and the functions it uses), \<open>WshRouter\<close> (wshrouter.ts),
  \<open>WshClient\<close> (wshclient.ts, wshrpcutil.ts), \<open>RpcSystem\<close> (the two together), \<open>WsControl\<close> and
  \<open>WsProps\<close> (ws.ts). Objects and global state: \<open>Wos\<close> and \<open>WosProps\<close> (wos.ts), \<open>Global\<close> (global.ts,
  layoutModelHooks.ts), \<open>Startup\<close> (wave.ts, the derived atoms of global.ts), \<open>KeyUtil\<close>, \<open>KeyModel\<close> and \<open>KeyProps\<close>
  (util/keyutil.ts, keymodel.ts), \<open>UiModels\<close> (focusutil.ts, modalmodel.ts, contextmenu.ts), \<open>HistoryUtil\<close>,
  \<open>FontUtil\<close>.

  The page (frontend/app): \<open>AppShell\<close> (app.tsx), \<open>BlockShell\<close> (block.tsx, tabcontent.tsx, workspace.tsx), \<open>BlockUtil\<close>
  (blockutil.tsx), \<open>BlockHeader\<close> and \<open>ConnSwitch\<close> (blockframe.tsx, typeaheadmodal.tsx), \<open>TabBar\<close> (tabbar.tsx),
  \<open>Dialogs\<close> (modals, tab.tsx), \<open>Elements\<close> (element, hook), and the views: \<open>TermWrap\<close> and \<open>TermView\<close> (view/term),
  \<open>ElementTrees\<close> (vdom.tsx, ijson.tsx, plotview.tsx), \<open>Preview\<close> and \<open>DirPreview\<close> (view/preview), \<open>ContentViews\<close>
  (csvview.tsx, markdown.tsx, codeeditor.tsx, helpview.tsx), \<open>WebView\<close> (webview.tsx), \<open>WaveAi\<close> and \<open>ChatView\<close>
  (waveai.tsx), \<open>CpuPlot\<close> (cpuplot.tsx); \<open>ViewHeaders\<close> joins them to the header of the block. The main process (emain): \<open>EmainStart\<close>, \<open>EmainWindows\<close> and \<open>EmainApp\<close>
  (emain.ts, menu.ts, platform.ts, emain-web.ts, emain-wsh.ts, authkey.ts), \<open>Updater\<close> (updater.ts).

  \<^bold>\<open>How state and operations are modelled\<close>

  The fields of a class, the atoms it owns and the local state of a React component are the fields of
  one record; a method, a handler or an effect is a function from the record to the record. Where the
  code shares objects and mutates them, there is a store: \<open>layoutStore\<close> holds the nodes of the layouts by
  reference (two parents can hold a node for a moment, and \<open>moveNode\<close> relies on it), \<open>Wos\<close> the value
  objects, \<open>TabBar\<close> the arrays of tabs, \<open>IJson\<close> returns the value that the mutation leaves. An exception is
  \<open>Inl\<close> of a \<open>js_error\<close> beside the state that was reached, so that what an operation changed before it
  threw is in the model. An \<open>await\<close> splits a function: the record has the phase or the list of what is
  under way, and the answer is an event, in any order the environment likes. A run is a \<open>fold\<close> of such
  steps, and an invariant is one of every list of events. React's \<open>useCallback\<close> and \<open>useEffect\<close> are what
  their dependencies make of them: a callback keeps the values of the rendering that made it, which is
  what several findings rest on. Calls of the backend, of Electron and of other models are recorded in order.

  Numbers are exact rationals with the infinities and \<open>NaN\<close> (\<open>jsnum\<close>), or \<open>rat\<close>, \<open>int\<close> and \<open>nat\<close> where the code
  cannot meet the others; rounding of doubles is not modelled. Strings have characters up to 255. A
  \<open>Map\<close> or an object is an association list in the order of insertion.

  \<^bold>\<open>Recursion\<close>

  The language has a call stack of finite depth, and the recursive operations on nodes are written
  with it: \<open>stackDepth\<close> of the store bounds them, and exhausting it is the \<open>RangeError\<close> that the language
  raises. The theorems about a layout assume that its height is at most the depth, and show that the
  operations then return: no call goes deeper than the tree is high, and an edit makes the tree at most
  one level higher. The search of the arrow keys may run for ever on boxes without size and is a partial
  function; \<open>arrow_navigation_returns\<close> shows that it ends for finite boxes. Everything else recurs on
  its data or has a termination proof.

  \<^bold>\<open>Interfaces\<close>

  \<open>key_store\<close> (\<open>Prelude\<close>) is what a table by keys promises about reading after writing and deleting; the
  map of the language and the store of nodes are interpretations of it. \<open>ref_counted\<close> (\<open>RefCount\<close>) is a
  table of counted references, where an entry stays while it was asked for more often than released;
  the file subjects (\<open>FileSubjects\<close>) and the cache of wave objects (\<open>WosProps\<close>) are its interpretations, and
  that an entry in use is not lost is proved once, for both.

  \<^bold>\<open>What the theorems show\<close>

  Layout: the store always holds a tree in which every node is a leaf or a split, and inserting,
  deleting, swapping, resizing and moving do to the tree what they say, keep every other block and its
  order and end without an exception (\<open>LayoutProps\<close>, \<open>LayoutTyping\<close>); balancing keeps the blocks; the tiles
  of a node tile its rectangle and a drop falls on the nearest edge (\<open>LayoutGeometryProps\<close>); dragging
  a handle, from the first move to the release, moves size from one tile to its neighbour and nothing else,
  and never below the minimum (\<open>LayoutResize\<close>); a drag of a tile changes nothing before the
  drop, and a drop on the middle of a tile exchanges the two (\<open>LayoutPass\<close>). Messages: an answer returns to who asked, a command has exactly
  one final answer, a stream arrives complete and in order, also from client to client of one window; after
  a subscription is sent upstream the broker sends the window exactly the events that some handler is for, and
  without wildcards these are the ones that run a handler (\<open>Broker\<close>); a command that was pushed is sent once or
  still waits. Objects: the newest version wins and an object in use stays. Keys: a description matches
  the events that it names, and bindings do not hide each other: a combination that moves the focus or selects a
  block has the key of its direction or number. Views and windows: their invariants, such
  as the selected file is on the list whenever there is a list and a focus, the saved offset of a terminal is
  the one its cache was read with plus what was written since (and what goes wrong when the cache is empty),
  a plot is a sliding window also when its length changes, windows are put on a display and are deleted
  only on request, the urls of a background go to the file service, and no window is opened before the
  backend is there and requests carry the key, whoever asks for it: the start has no gate on its events, what
  keeps a window from opening is that the backend does not answer (\<open>EmainStart\<close>).

  \<^bold>\<open>Parameters\<close>

  What is not under frontend/ and emain/, apart from the two parts of the backend that are modelled, is an argument
  with the laws that the code relies on as hypotheses: the clock and timers, measurements of the page, the answers of the backend, identifiers from
  \<open>crypto.randomUUID\<close> (assumed distinct where it matters), the terminal emulator, the libraries for drag and
  drop, tables, css, colours, csv, base64 and plots, the update library and Electron.

  \<^bold>\<open>Not modelled\<close>

  services.ts and wshclientapi.ts, which are generated and only forward a call, and most of the generated
  types of gotypes.d.ts; logging and the counters of renderings; what elements look like and the third-party
  widgets (the editor, the table, the markdown renderer, the plot, the emulator); the evaluation of the
  definition of a plot; the settings of the build and the stories; and the backend, which is written in Go, but for
  its event broker and the check of the key of a request.
\<close>

end
